(* ===== verification/Prelude.thy ===== *)
theory Prelude
  imports Main "HOL-Library.List_Lexorder" "HOL-Library.Char_ord" "HOL-Library.Product_Lexorder"
begin

text \<open>
  Shared vocabulary of the development: instants and durations, the errors of the
  repositories, the SQL statements the repositories issue (conditional \<open>UPDATE\<close>,
  \<open>DELETE\<close>, lookup by primary key, chunked \<open>IN\<close> queries), and the generic lemmas
  on them that carry the component proofs. The last sections state the interface
  ``conditional write with at most one winner'' and the contracts of invariants and simulations as locales.
\<close>

section \<open>Time and errors\<close>

text \<open>
  A \<open>time.Time\<close> is its instant in nanoseconds (\<open>0\<close> is the zero value of Go); a
  \<open>time.Duration\<close> is a number of nanoseconds. A nullable time is an option.
\<close>

type_synonym gtime = int
type_synonym duration = int

abbreviation zero_time :: gtime where "zero_time \<equiv> 0"
abbreviation Second :: duration where "Second \<equiv> 1000000000"
abbreviation Minute :: duration where "Minute \<equiv> 60 * Second"
abbreviation Hour :: duration where "Hour \<equiv> 60 * Minute"

text \<open>
  The causes of \<open>pkg/dberrors\<close>, the errors of a driver or of a cancelled context, and the
  sentinel errors of the packages \<open>models\<close> and \<open>database\<close>.
\<close>

datatype db_cause =
    ErrNotFound
  | ErrDuplicateKey
  | ErrValidation
  | ErrConnectionFailed
  | ErrNotImplemented
  | ErrDriver string

datatype repo_error =
    DatabaseError string db_cause
  | ErrDeleteConflict
  | ErrCleanConflict
  | ErrDeployLogNotRunning
  | ErrInterruptConflict

text \<open>The texts of the errors.\<close>

fun cause_text :: "db_cause \<Rightarrow> string" where
  "cause_text ErrNotFound = ''record not found''"
| "cause_text ErrDuplicateKey = ''duplicate key violation''"
| "cause_text ErrValidation = ''validation error''"
| "cause_text ErrConnectionFailed = ''database connection failed''"
| "cause_text ErrNotImplemented = ''not implemented''"
| "cause_text (ErrDriver s) = s"

fun repo_text :: "repo_error \<Rightarrow> string" where
  "repo_text (DatabaseError op c) = (if op = [] then cause_text c else op @ '': '' @ cause_text c)"
| "repo_text ErrDeleteConflict = ''another operation changed the instance''"
| "repo_text ErrCleanConflict = ''another operation changed the instance''"
| "repo_text ErrDeployLogNotRunning = ''deployment log is no longer running''"
| "repo_text ErrInterruptConflict = ''instance changed during the interrupt''"

text \<open>
  Whether a statement fails is up to the database: every statement takes a fault, and
  \<open>Some e\<close> means that the statement failed with \<open>e\<close> and changed nothing.
\<close>

type_synonym fault = "db_cause option"

section \<open>SQL statements on a table\<close>

text \<open>
  A table is the list of its rows. \<open>sql_update p f\<close> is \<open>UPDATE ... SET f WHERE p\<close>;
  \<open>rows_changed\<close> is the number of affected rows as MySQL counts it (only rows whose values
  change). \<open>row_of\<close> is the lookup by primary key.
\<close>

definition sql_update :: "('r \<Rightarrow> bool) \<Rightarrow> ('r \<Rightarrow> 'r) \<Rightarrow> 'r list \<Rightarrow> 'r list" where
  "sql_update p f t = map (\<lambda>r. if p r then f r else r) t"

definition rows_changed :: "('r \<Rightarrow> bool) \<Rightarrow> ('r \<Rightarrow> 'r) \<Rightarrow> 'r list \<Rightarrow> nat" where
  "rows_changed p f t = length (filter (\<lambda>r. p r \<and> f r \<noteq> r) t)"

definition row_of :: "('r \<Rightarrow> 'k) \<Rightarrow> 'k \<Rightarrow> 'r list \<Rightarrow> 'r option" where
  "row_of key k t = find (\<lambda>r. key r = k) t"

text \<open>\<open>Save\<close> of GORM: an \<open>UPDATE\<close> of the row with this key, and an \<open>INSERT\<close> when no row
  has the key; \<open>merge\<close> says which stored columns an update keeps, \<open>ins\<close> which values an
  inserted row gets.\<close>

definition sql_save :: "('r \<Rightarrow> 'k) \<Rightarrow> ('r \<Rightarrow> 'r) \<Rightarrow> 'r \<Rightarrow> 'k \<Rightarrow> 'r list \<Rightarrow> 'r list" where
  "sql_save key merge ins k t =
     (if row_of key k t = None then t @ [ins] else sql_update (\<lambda>r. key r = k) merge t)"

text \<open>A table with a primary key.\<close>

definition keyed :: "('r \<Rightarrow> 'k) \<Rightarrow> 'r list \<Rightarrow> bool" where
  "keyed key t \<longleftrightarrow> distinct (map key t)"

named_theorems table_simps \<open>rewriting a lookup through a statement\<close>

lemma row_of_Nil [simp]: "row_of key k [] = None"
  by (simp add: row_of_def)

lemma row_of_Cons [simp]:
  "row_of key k (r # t) = (if key r = k then Some r else row_of key k t)"
  by (simp add: row_of_def)

lemma row_of_SomeD: "row_of key k t = Some r \<Longrightarrow> r \<in> set t \<and> key r = k"
  by (induction t) (auto split: if_splits)

lemma row_of_None_iff: "row_of key k t = None \<longleftrightarrow> k \<notin> key ` set t"
  by (induction t) auto

lemma row_of_Some_iff:
  "keyed key t \<Longrightarrow> row_of key k t = Some r \<longleftrightarrow> r \<in> set t \<and> key r = k"
  by (induction t) (auto simp: keyed_def)

lemma row_of_append [table_simps]:
  "row_of key k (t @ u) = (case row_of key k t of None \<Rightarrow> row_of key k u | Some r \<Rightarrow> Some r)"
  by (induction t) auto

lemma row_of_sql_update [table_simps]:
  "(\<And>r. key (f r) = key r) \<Longrightarrow>
   row_of key k (sql_update p f t) = map_option (\<lambda>r. if p r then f r else r) (row_of key k t)"
  by (induction t) (auto simp: sql_update_def)

lemma row_of_filter_other [table_simps]:
  "(\<And>r. key r = k \<Longrightarrow> p r) \<Longrightarrow> row_of key k (filter p t) = row_of key k t"
  by (induction t) auto

lemma row_of_filter_gone [table_simps]:
  "(\<And>r. key r = k \<Longrightarrow> \<not> p r) \<Longrightarrow> row_of key k (filter p t) = None"
  by (induction t) auto

lemma row_of_sql_save [table_simps]:
  assumes "\<And>r. key (merge r) = key r" and "key ins = k"
  shows "row_of key j (sql_save key merge ins k t) =
    (if j = k then (case row_of key k t of None \<Rightarrow> Some ins | Some r \<Rightarrow> Some (merge r))
     else row_of key j t)"
proof (cases "row_of key k t")
  case None
  then show ?thesis using assms(2)
    by (auto simp: sql_save_def row_of_append split: option.splits)
next
  case (Some r)
  then show ?thesis using assms(1)
    by (cases "row_of key j t") (auto simp: sql_save_def row_of_sql_update dest: row_of_SomeD)
qed

lemma sql_update_id: "(\<And>r. r \<in> set t \<Longrightarrow> \<not> p r) \<Longrightarrow> sql_update p f t = t"
  by (auto simp: sql_update_def intro: map_idI)

lemma set_sql_update: "set (sql_update p f t) = (\<lambda>r. if p r then f r else r) ` set t"
  by (simp add: sql_update_def)

lemma length_sql_update [simp]: "length (sql_update p f t) = length t"
  by (simp add: sql_update_def)

lemma map_key_sql_update [simp]:
  "(\<And>r. key (f r) = key r) \<Longrightarrow> map key (sql_update p f t) = map key t"
  by (auto simp: sql_update_def)

lemma keyed_sql_update: "(\<And>r. key (f r) = key r) \<Longrightarrow> keyed key (sql_update p f t) = keyed key t"
  by (simp add: keyed_def)

lemma row_of_filter:
  "keyed key t \<Longrightarrow> row_of key k (filter q t) = (case row_of key k t of None \<Rightarrow> None | Some r \<Rightarrow> if q r then Some r else None)"
proof (induction t)
  case (Cons a t)
  then show ?case
    using row_of_None_iff [of key k t] row_of_None_iff [of key k "filter q t"] by (cases "key a = k") (auto simp: keyed_def)
qed simp

lemma keyed_filter: "keyed key t \<Longrightarrow> keyed key (filter p t)"
  by (auto simp: keyed_def distinct_map intro: inj_on_subset)

lemma keyed_snoc: "keyed key (t @ [r]) \<longleftrightarrow> keyed key t \<and> row_of key (key r) t = None"
  by (auto simp: keyed_def row_of_None_iff)

lemma keyed_sql_save:
  assumes "\<And>r. key (merge r) = key r" and "key ins = k" and "keyed key t"
  shows "keyed key (sql_save key merge ins k t)"
  using assms by (auto simp: sql_save_def keyed_snoc keyed_sql_update)

lemma rows_changed_0_iff: "rows_changed p f t = 0 \<longleftrightarrow> (\<forall>r\<in>set t. p r \<longrightarrow> f r = r)"
  by (auto simp: rows_changed_def filter_empty_conv)

lemma rows_changed_0_update: "rows_changed p f t = 0 \<Longrightarrow> sql_update p f t = t"
  by (auto simp: rows_changed_0_iff sql_update_def intro: map_idI)

text \<open>With a primary key a statement that names one key affects at most one row.\<close>

lemma rows_changed_keyed:
  assumes "keyed key t" and "\<And>r. p r \<Longrightarrow> key r = k"
  shows "rows_changed p f t =
    (case row_of key k t of None \<Rightarrow> 0 | Some r \<Rightarrow> if p r \<and> f r \<noteq> r then 1 else 0)"
  using assms(1)
proof (induction t)
  case Nil
  then show ?case by (simp add: rows_changed_def)
next
  case (Cons a t)
  have none: "row_of key k t = None" if "key a = k"
    using Cons.prems that by (auto simp: keyed_def row_of_None_iff)
  from Cons show ?case
    using none assms(2) by (auto simp: rows_changed_def keyed_def)
qed

section \<open>Chunked \<open>IN\<close> queries\<close>

text \<open>The loop \<open>for start := 0; start < len(ids); start += n\<close> with the slices it cuts.\<close>

function chunks :: "nat \<Rightarrow> 'a list \<Rightarrow> 'a list list" where
  "chunks n xs = (if xs = [] \<or> n = 0 then [] else take n xs # chunks n (drop n xs))"
  by pat_completeness auto
termination
  by (relation "measure (\<lambda>(n, xs). length xs)") auto

declare chunks.simps [simp del]

lemma chunks_Nil [simp]: "chunks n [] = []"
  by (simp add: chunks.simps)

lemma concat_chunks: "0 < n \<Longrightarrow> concat (chunks n xs) = xs"
proof (induction n xs rule: chunks.induct)
  case (1 n xs)
  then show ?case by (cases "xs = []") (simp_all add: chunks.simps [of n xs])
qed

lemma chunks_bounded: "c \<in> set (chunks n xs) \<Longrightarrow> length c \<le> n"
proof (induction n xs rule: chunks.induct)
  case (1 n xs)
  then show ?case
    by (cases "xs = [] \<or> n = 0") (auto simp: chunks.simps [of n xs])
qed

text \<open>
  A query per chunk, its rows folded into the result; the first failing chunk ends it.
  \<open>flt i\<close> is the fault of chunk number \<open>i\<close>.
\<close>

fun chunk_loop :: "(nat \<Rightarrow> fault) \<Rightarrow> string \<Rightarrow> ('k list \<Rightarrow> 'a \<Rightarrow> 'a) \<Rightarrow> nat \<Rightarrow> 'k list list \<Rightarrow> 'a \<Rightarrow> repo_error + 'a" where
  "chunk_loop flt op q i [] acc = Inr acc"
| "chunk_loop flt op q i (c # cs) acc =
     (case flt i of
        Some e \<Rightarrow> Inl (DatabaseError op e)
      | None \<Rightarrow> chunk_loop flt op q (Suc i) cs (q c acc))"

lemma chunk_loop_ok:
  "chunk_loop (\<lambda>_. None) op q i cs acc = Inr (foldl (\<lambda>a c. q c a) acc cs)"
  by (induction cs arbitrary: i acc) auto

lemma chunk_loop_fault:
  assumes "i \<le> j" and "j < i + length cs" and "flt j = Some e"
  shows "\<exists>op' e'. chunk_loop flt op q i cs acc = Inl (DatabaseError op' e')"
  using assms
proof (induction cs arbitrary: i acc)
  case Nil
  then show ?case by simp
next
  case (Cons c cs)
  show ?case
  proof (cases "flt i")
    case None
    with Cons.prems have "Suc i \<le> j" by (metis le_antisym not_less_eq_eq option.distinct(1))
    with Cons.prems None show ?thesis using Cons.IH [of "Suc i"] by simp
  qed simp
qed

section \<open>Conditional writes with at most one winner\<close>

text \<open>
  Several replicas run the same conditional update; the code relies on at most one of them
  being told that it changed the row. \<open>run_seq\<close> runs a sequence of callers, whatever their
  arguments.
\<close>

fun run_seq :: "('c \<Rightarrow> 's \<Rightarrow> bool \<times> 's) \<Rightarrow> 'c list \<Rightarrow> 's \<Rightarrow> bool list \<times> 's" where
  "run_seq run [] s = ([], s)"
| "run_seq run (c # cs) s =
     (let step = run c s; rest = run_seq run cs (snd step) in (fst step # fst rest, snd rest))"

definition winners :: "('c \<Rightarrow> 's \<Rightarrow> bool \<times> 's) \<Rightarrow> 'c list \<Rightarrow> 's \<Rightarrow> nat" where
  "winners run cs s = length (filter id (fst (run_seq run cs s)))"

locale one_winner =
  fixes run :: "'c \<Rightarrow> 's \<Rightarrow> bool \<times> 's"
    and armed :: "'s \<Rightarrow> bool"
    and good :: "'s \<Rightarrow> bool"
  assumes win_armed: "good s \<Longrightarrow> fst (run c s) \<Longrightarrow> armed s"
    and win_disarms: "good s \<Longrightarrow> fst (run c s) \<Longrightarrow> \<not> armed (snd (run c s))"
    and lose_keeps: "good s \<Longrightarrow> \<not> fst (run c s) \<Longrightarrow> snd (run c s) = s"
    and good_kept: "good s \<Longrightarrow> good (snd (run c s))"
begin

lemma no_winner_unarmed: "good s \<Longrightarrow> \<not> armed s \<Longrightarrow> winners run cs s = 0 \<and> snd (run_seq run cs s) = s"
proof (induction cs)
  case Nil
  then show ?case by (simp add: winners_def)
next
  case (Cons c cs)
  then have "\<not> fst (run c s)" using win_armed by blast
  with Cons have "run c s = (False, s)" by (metis lose_keeps prod.collapse)
  with Cons show ?case by (simp add: winners_def Let_def)
qed

lemma at_most_one: "good s \<Longrightarrow> winners run cs s \<le> 1"
proof (induction cs)
  case Nil
  then show ?case by (simp add: winners_def)
next
  case (Cons c cs)
  show ?case
  proof (cases "fst (run c s)")
    case True
    with Cons.prems have "winners run cs (snd (run c s)) = 0"
      using no_winner_unarmed [OF good_kept win_disarms] by blast
    with True show ?thesis by (simp add: winners_def Let_def)
  next
    case False
    with Cons.prems have "run c s = (False, s)" by (metis lose_keeps prod.collapse)
    with Cons show ?thesis by (simp add: winners_def Let_def)
  qed
qed

end

section \<open>Invariants and simulations\<close>

text \<open>What every step keeps holds after any number of steps; a step that an abstract system can follow can be followed always.\<close>

locale invariant_system =
  fixes step :: "'s \<Rightarrow> 's \<Rightarrow> bool" and inv :: "'s \<Rightarrow> bool"
  assumes keeps: "inv s \<Longrightarrow> step s t \<Longrightarrow> inv t"
begin

lemma keeps_star: "step\<^sup>*\<^sup>* s t \<Longrightarrow> inv s \<Longrightarrow> inv t"
  by (induction rule: rtranclp_induct) (auto intro: keeps)

end

locale simulation = invariant_system +
  fixes abs :: "'a \<Rightarrow> 'b" and astep :: "'b \<Rightarrow> 'b \<Rightarrow> bool"
  assumes simulates: "inv s \<Longrightarrow> step s t \<Longrightarrow> astep\<^sup>*\<^sup>* (abs s) (abs t)"
begin

lemma simulates_star: "step\<^sup>*\<^sup>* s t \<Longrightarrow> inv s \<Longrightarrow> astep\<^sup>*\<^sup>* (abs s) (abs t)"
proof (induction rule: rtranclp_induct)
  case (step t u)
  then have "astep\<^sup>*\<^sup>* (abs t) (abs u)" by (intro simulates) (auto intro: keeps_star)
  with step show ?case by simp
qed simp

end

end
