(* ===== verification/Instances.thy ===== *)
theory Instances
  imports Prelude
begin

text \<open>
  Stack instances: the row \<open>stack_instances\<close> (\<open>internal/models/stack_instance.go\<close>) and the
  repository \<open>GORMStackInstanceRepository\<close> (\<open>internal/database/stack_instance_repository.go\<close>).
  The table is the list of its rows with primary key \<open>si_id\<close>; every statement takes its
  fault. The computed fields of the Go struct (tag \<open>gorm:"-"\<close>) are no columns and are left
  out.
\<close>

section \<open>Data\<close>

abbreviation StackStatusDraft :: string where "StackStatusDraft \<equiv> ''draft''"
abbreviation StackStatusQueued :: string where "StackStatusQueued \<equiv> ''queued''"
abbreviation StackStatusDeploying :: string where "StackStatusDeploying \<equiv> ''deploying''"
abbreviation StackStatusStabilizing :: string where "StackStatusStabilizing \<equiv> ''stabilizing''"
abbreviation StackStatusRunning :: string where "StackStatusRunning \<equiv> ''running''"
abbreviation StackStatusStopping :: string where "StackStatusStopping \<equiv> ''stopping''"
abbreviation StackStatusStopped :: string where "StackStatusStopped \<equiv> ''stopped''"
abbreviation StackStatusCleaning :: string where "StackStatusCleaning \<equiv> ''cleaning''"
abbreviation StackStatusPartial :: string where "StackStatusPartial \<equiv> ''partial''"
abbreviation StackStatusError :: string where "StackStatusError \<equiv> ''error''"

definition IsValidStackStatus :: "string \<Rightarrow> bool" where
  "IsValidStackStatus st \<longleftrightarrow> st \<in> {StackStatusDraft, StackStatusQueued, StackStatusDeploying,
     StackStatusStabilizing, StackStatusRunning, StackStatusStopping, StackStatusStopped,
     StackStatusCleaning, StackStatusPartial, StackStatusError}"

definition CleanStatuses :: "string list" where
  "CleanStatuses = [StackStatusRunning, StackStatusPartial, StackStatusStopped, StackStatusError]"

definition DeleteCleanFailedMessage :: string where
  "DeleteCleanFailedMessage = ''Clean failed; the stack was not deleted.''"

record stack_instance =
  si_created_at :: gtime
  si_updated_at :: gtime
  si_last_deployed_at :: "gtime option"
  si_expires_at :: "gtime option"
  si_expiry_warned_at :: "gtime option"
  si_stopped_at :: "gtime option"
  si_cleaned_at :: "gtime option"
  si_id :: string
  si_stack_definition_id :: string
  si_name :: string
  si_namespace :: string
  si_owner_id :: string
  si_branch :: string
  si_cluster_id :: string
  si_status :: string
  si_error_message :: string
  si_last_deployed_values :: string
  si_ttl_minutes :: int
  si_post_deploy_hook_until :: "gtime option"
  si_delete_after_clean :: bool

text \<open>The zero value of the struct; projected queries fill some of its columns.\<close>

definition zero_instance :: stack_instance where
  "zero_instance = \<lparr>si_created_at = zero_time, si_updated_at = zero_time,
     si_last_deployed_at = None, si_expires_at = None, si_expiry_warned_at = None,
     si_stopped_at = None, si_cleaned_at = None, si_id = [], si_stack_definition_id = [],
     si_name = [], si_namespace = [], si_owner_id = [], si_branch = [], si_cluster_id = [],
     si_status = [], si_error_message = [], si_last_deployed_values = [], si_ttl_minutes = 0,
     si_post_deploy_hook_until = None, si_delete_after_clean = False\<rparr>"

type_synonym instances = "stack_instance list"

record stack_instance_filter =
  f_name :: string
  f_status :: string
  f_cluster_id :: string
  f_definition_id :: string
  f_owner_id :: string

section \<open>Single-row operations\<close>

text \<open>The identifier and the times that \<open>Create\<close> sets before the insert.\<close>

definition stamp_create :: "gtime \<Rightarrow> string \<Rightarrow> stack_instance \<Rightarrow> stack_instance" where
  "stamp_create now uuid inst =
     inst\<lparr>si_id := (if si_id inst = [] then uuid else si_id inst),
          si_created_at := now, si_updated_at := now\<rparr>"

definition inst_Create ::
  "fault \<Rightarrow> gtime \<Rightarrow> string \<Rightarrow> stack_instance \<Rightarrow> instances \<Rightarrow> (repo_error + stack_instance) \<times> instances" where
  "inst_Create flt now uuid inst t =
     (let inst' = stamp_create now uuid inst
      in case flt of
           Some e \<Rightarrow> (Inl (DatabaseError ''create'' e), t)
         | None \<Rightarrow>
             if row_of si_id (si_id inst') t \<noteq> None
             then (Inl (DatabaseError ''create'' ErrDuplicateKey), t)
             else (Inr inst', t @ [inst']))"

definition inst_FindByID :: "fault \<Rightarrow> string \<Rightarrow> instances \<Rightarrow> repo_error + stack_instance" where
  "inst_FindByID flt i t =
     (case flt of
        Some e \<Rightarrow> Inl (DatabaseError ''find_by_id'' e)
      | None \<Rightarrow> (case row_of si_id i t of
                   None \<Rightarrow> Inl (DatabaseError ''find_by_id'' ErrNotFound)
                 | Some r \<Rightarrow> Inr r))"

definition inst_FindByNamespace :: "fault \<Rightarrow> string \<Rightarrow> instances \<Rightarrow> repo_error + stack_instance" where
  "inst_FindByNamespace flt ns t =
     (case flt of
        Some e \<Rightarrow> Inl (DatabaseError ''find_by_namespace'' e)
      | None \<Rightarrow> (case row_of si_namespace ns (sort_key si_id t) of
                   None \<Rightarrow> Inl (DatabaseError ''find_by_namespace'' ErrNotFound)
                 | Some r \<Rightarrow> Inr r))"

definition inst_NamespaceShared :: "fault \<Rightarrow> string \<Rightarrow> string \<Rightarrow> instances \<Rightarrow> repo_error + bool" where
  "inst_NamespaceShared flt ns i t =
     (case flt of
        Some e \<Rightarrow> Inl (DatabaseError ''namespace_shared'' e)
      | None \<Rightarrow> Inr (0 < length (take 1 (filter (\<lambda>r. si_namespace r = ns \<and> si_id r \<noteq> i) t))))"

definition expiryMatchTolerance :: duration where
  "expiryMatchTolerance = Second"

text \<open>The \<open>WHERE\<close> condition of \<open>clearExpiryWarningIfExpiryChanged\<close> on the stored expiry.\<close>

fun expiry_changed :: "gtime option \<Rightarrow> gtime option \<Rightarrow> bool" where
  "expiry_changed None stored = (stored \<noteq> None)"
| "expiry_changed (Some e) None = True"
| "expiry_changed (Some e) (Some x) = (x \<le> e - expiryMatchTolerance \<or> x \<ge> e + expiryMatchTolerance)"

definition clearExpiryWarningIfExpiryChanged :: "stack_instance \<Rightarrow> instances \<Rightarrow> instances" where
  "clearExpiryWarningIfExpiryChanged inst t =
     sql_update (\<lambda>r. si_id r = si_id inst \<and> si_expiry_warned_at r \<noteq> None
                     \<and> expiry_changed (si_expires_at inst) (si_expires_at r))
       (\<lambda>r. r\<lparr>si_expiry_warned_at := None\<rparr>) t"

text \<open>
  \<open>tx.Omit(expiry_warned_at, delete_after_clean).Save(instance)\<close>: an update keeps the two
  omitted columns; an inserted row gets their defaults.
\<close>

definition inst_save :: "stack_instance \<Rightarrow> instances \<Rightarrow> instances" where
  "inst_save inst t = sql_save si_id
     (\<lambda>r. if si_id r = si_id inst
          then inst\<lparr>si_expiry_warned_at := si_expiry_warned_at r,
                    si_delete_after_clean := si_delete_after_clean r\<rparr>
          else r)
     (inst\<lparr>si_expiry_warned_at := None, si_delete_after_clean := False\<rparr>) (si_id inst) t"

definition inst_Update ::
  "fault \<Rightarrow> gtime \<Rightarrow> stack_instance \<Rightarrow> instances \<Rightarrow> (repo_error + stack_instance) \<times> instances" where
  "inst_Update flt now inst t =
     (let inst' = inst\<lparr>si_updated_at := now\<rparr>
      in case flt of
           Some e \<Rightarrow> (Inl (DatabaseError ''update'' e), t)
         | None \<Rightarrow> (Inr inst', inst_save inst' (clearExpiryWarningIfExpiryChanged inst' t)))"

definition inst_MarkCleanStart ::
  "fault \<Rightarrow> gtime \<Rightarrow> string \<Rightarrow> string list \<Rightarrow> bool \<Rightarrow> instances \<Rightarrow> (repo_error + unit) \<times> instances" where
  "inst_MarkCleanStart flt now i fromStatuses deleteAfterClean t =
     (let p = (\<lambda>r. si_id r = i \<and> si_status r \<in> set fromStatuses
                   \<and> (deleteAfterClean \<or> \<not> si_delete_after_clean r));
          f = (\<lambda>r. r\<lparr>si_status := StackStatusCleaning, si_error_message := [], si_updated_at := now,
                     si_delete_after_clean := (deleteAfterClean \<or> si_delete_after_clean r)\<rparr>);
          conflict = (if deleteAfterClean then ErrDeleteConflict else ErrCleanConflict)
      in case flt of
           Some e \<Rightarrow> (Inl (DatabaseError ''mark_clean_start'' e), t)
         | None \<Rightarrow> (if rows_changed p f t = 0 then (Inl conflict, t)
                    else (Inr (), sql_update p f t)))"

definition namespace_error_allowed :: "gtime \<Rightarrow> stack_instance \<Rightarrow> bool" where
  "namespace_error_allowed now r \<longleftrightarrow>
     si_status r \<in> {StackStatusRunning, StackStatusPartial}
     \<or> (si_status r = StackStatusStabilizing
        \<and> (case si_post_deploy_hook_until r of None \<Rightarrow> True | Some u \<Rightarrow> u < now))"

definition inst_MarkNamespaceError ::
  "fault \<Rightarrow> gtime \<Rightarrow> string \<Rightarrow> string \<Rightarrow> gtime \<Rightarrow> instances \<Rightarrow> (repo_error + bool) \<times> instances" where
  "inst_MarkNamespaceError flt clock i message now t =
     (let p = (\<lambda>r. si_id r = i \<and> namespace_error_allowed now r);
          f = (\<lambda>r. r\<lparr>si_status := StackStatusError, si_error_message := message, si_updated_at := clock\<rparr>)
      in case flt of
           Some e \<Rightarrow> (Inl (DatabaseError ''mark_namespace_error'' e), t)
         | None \<Rightarrow> (Inr (rows_changed p f t > 0), sql_update p f t))"

text \<open>\<open>MarkStatus\<close> issues a second statement when the first changed no row.\<close>

definition inst_MarkStatus ::
  "fault \<Rightarrow> fault \<Rightarrow> gtime \<Rightarrow> string \<Rightarrow> string \<Rightarrow> string list \<Rightarrow> instances \<Rightarrow> (repo_error + bool) \<times> instances" where
  "inst_MarkStatus flt flt2 now i to from t =
     (let p = (\<lambda>r. si_id r = i \<and> si_status r \<in> set from);
          f = (\<lambda>r. r\<lparr>si_status := to, si_updated_at := now\<rparr>);
          t' = sql_update p f t
      in case flt of
           Some e \<Rightarrow> (Inl (DatabaseError ''mark_status'' e), t)
         | None \<Rightarrow>
             if rows_changed p f t > 0 then (Inr True, t')
             else (case flt2 of
                     Some e \<Rightarrow> (Inl (DatabaseError ''mark_status'' e), t')
                   | None \<Rightarrow> (Inr (map si_status (filter (\<lambda>r. si_id r = i) t') = [to]), t')))"

definition inst_ClearDeleteAfterClean ::
  "fault \<Rightarrow> string \<Rightarrow> instances \<Rightarrow> (repo_error + unit) \<times> instances" where
  "inst_ClearDeleteAfterClean flt i t =
     (case flt of
        Some e \<Rightarrow> (Inl (DatabaseError ''clear_delete_after_clean'' e), t)
      | None \<Rightarrow> (Inr (), sql_update (\<lambda>r. si_id r = i) (\<lambda>r. r\<lparr>si_delete_after_clean := False\<rparr>) t))"

definition inst_MarkExpiryWarned ::
  "fault \<Rightarrow> string \<Rightarrow> gtime \<Rightarrow> gtime \<Rightarrow> instances \<Rightarrow> (repo_error + bool) \<times> instances" where
  "inst_MarkExpiryWarned flt i expiresAt warnedAt t =
     (let p = (\<lambda>r. si_id r = i \<and> si_expiry_warned_at r = None
                   \<and> (case si_expires_at r of None \<Rightarrow> False
                      | Some x \<Rightarrow> expiresAt - expiryMatchTolerance < x \<and> x < expiresAt + expiryMatchTolerance));
          f = (\<lambda>r. r\<lparr>si_expiry_warned_at := Some warnedAt\<rparr>)
      in case flt of
           Some e \<Rightarrow> (Inl (DatabaseError ''mark_expiry_warned'' e), t)
         | None \<Rightarrow> (Inr (rows_changed p f t = 1), sql_update p f t))"

definition inst_Delete :: "fault \<Rightarrow> string \<Rightarrow> instances \<Rightarrow> (repo_error + unit) \<times> instances" where
  "inst_Delete flt i t =
     (case flt of
        Some e \<Rightarrow> (Inl (DatabaseError ''delete'' e), t)
      | None \<Rightarrow> (if length (filter (\<lambda>r. si_id r = i) t) = 0
                 then (Inl (DatabaseError ''delete'' ErrNotFound), t)
                 else (Inr (), filter (\<lambda>r. si_id r \<noteq> i) t)))"

section \<open>Lists and counts\<close>

text \<open>A read-only query: an error of the statement, or its rows.\<close>

definition query :: "fault \<Rightarrow> string \<Rightarrow> 'a \<Rightarrow> repo_error + 'a" where
  "query flt op v = (case flt of Some e \<Rightarrow> Inl (DatabaseError op e) | None \<Rightarrow> Inr v)"

definition inst_List :: "fault \<Rightarrow> instances \<Rightarrow> repo_error + instances" where
  "inst_List flt t = query flt ''list'' t"

text \<open>The columns of \<open>listColumns\<close>; the other columns of the result have their zero value.\<close>

definition listColumns :: "stack_instance \<Rightarrow> stack_instance" where
  "listColumns r = zero_instance\<lparr>si_id := si_id r, si_name := si_name r,
     si_namespace := si_namespace r, si_owner_id := si_owner_id r,
     si_stack_definition_id := si_stack_definition_id r, si_branch := si_branch r,
     si_cluster_id := si_cluster_id r, si_status := si_status r,
     si_ttl_minutes := si_ttl_minutes r, si_created_at := si_created_at r,
     si_updated_at := si_updated_at r, si_last_deployed_at := si_last_deployed_at r,
     si_expires_at := si_expires_at r, si_stopped_at := si_stopped_at r,
     si_cleaned_at := si_cleaned_at r\<rparr>"

definition applyInstanceFilter :: "stack_instance_filter \<Rightarrow> stack_instance \<Rightarrow> bool" where
  "applyInstanceFilter f r \<longleftrightarrow>
     (f_name f \<noteq> [] \<longrightarrow> si_name r = f_name f)
     \<and> (f_status f \<noteq> [] \<longrightarrow> si_status r = f_status f)
     \<and> (f_cluster_id f \<noteq> [] \<longrightarrow> si_cluster_id r = f_cluster_id f)
     \<and> (f_definition_id f \<noteq> [] \<longrightarrow> si_stack_definition_id r = f_definition_id f)
     \<and> (f_owner_id f \<noteq> [] \<longrightarrow> si_owner_id r = f_owner_id f)"

text \<open>\<open>ORDER BY created_at DESC LIMIT limit OFFSET offset\<close> over the filtered rows.\<close>

definition inst_ListPaged ::
  "fault \<Rightarrow> fault \<Rightarrow> stack_instance_filter \<Rightarrow> nat \<Rightarrow> nat \<Rightarrow> instances \<Rightarrow> repo_error + (instances \<times> nat)" where
  "inst_ListPaged flt flt2 f limit offset t =
     (case flt of
        Some e \<Rightarrow> Inl (DatabaseError ''count'' e)
      | None \<Rightarrow>
          (let rows = filter (applyInstanceFilter f) t in
           query flt2 ''list_paged''
             (take limit (drop offset (map listColumns (sort_key (\<lambda>r. - si_created_at r) rows))),
              length rows)))"

definition inst_ListByOwner :: "fault \<Rightarrow> string \<Rightarrow> instances \<Rightarrow> repo_error + instances" where
  "inst_ListByOwner flt owner t = query flt ''list_by_owner'' (filter (\<lambda>r. si_owner_id r = owner) t)"

definition inst_FindByName :: "fault \<Rightarrow> string \<Rightarrow> instances \<Rightarrow> repo_error + instances" where
  "inst_FindByName flt name t =
     query flt ''find_by_name'' (map listColumns (filter (\<lambda>r. si_name r = name) t))"

text \<open>
  A row counts for a cluster when it is assigned to it, or (\<open>includeUnassigned\<close>) to none.
  \<open>LOWER\<close> is the SQL function of the database, a parameter.
\<close>

definition on_cluster :: "string \<Rightarrow> bool \<Rightarrow> stack_instance \<Rightarrow> bool" where
  "on_cluster clusterID includeUnassigned r \<longleftrightarrow>
     si_cluster_id r = clusterID \<or> (includeUnassigned \<and> si_cluster_id r = [])"

definition inst_FindByNameOnCluster ::
  "(string \<Rightarrow> string) \<Rightarrow> fault \<Rightarrow> string \<Rightarrow> string \<Rightarrow> bool \<Rightarrow> instances \<Rightarrow> repo_error + instances" where
  "inst_FindByNameOnCluster LOWER flt name clusterID includeUnassigned t =
     query flt ''find_by_name_on_cluster''
       (map listColumns (sort_key si_created_at
          (filter (\<lambda>r. LOWER (si_name r) = LOWER name \<and> on_cluster clusterID includeUnassigned r) t)))"

text \<open>The grouping key of \<open>DuplicateInstanceNames\<close>: the effective cluster and the folded name.\<close>

definition name_group :: "(string \<Rightarrow> string) \<Rightarrow> string \<Rightarrow> stack_instance \<Rightarrow> string \<times> string" where
  "name_group LOWER defaultClusterID r =
     (if si_cluster_id r = [] then defaultClusterID else si_cluster_id r, LOWER (si_name r))"

definition inst_DuplicateInstanceNames ::
  "(string \<Rightarrow> string) \<Rightarrow> fault \<Rightarrow> string \<Rightarrow> instances \<Rightarrow> repo_error + (string \<times> string \<times> nat) list" where
  "inst_DuplicateInstanceNames LOWER flt defaultClusterID t =
     (let gs = map (name_group LOWER defaultClusterID) t in
      query flt ''duplicate_instance_names''
        (map (\<lambda>g. (fst g, snd g, count_list gs g))
           (filter (\<lambda>g. count_list gs g > 1) (sort (remdups gs)))))"

definition inst_FindByCluster :: "fault \<Rightarrow> string \<Rightarrow> instances \<Rightarrow> repo_error + instances" where
  "inst_FindByCluster flt clusterID t =
     query flt ''find_by_cluster'' (filter (\<lambda>r. si_cluster_id r = clusterID) t)"

text \<open>The first statement locks the user row; it reads nothing of this table.\<close>

definition inst_CountForInstanceLimit ::
  "fault \<Rightarrow> fault \<Rightarrow> string \<Rightarrow> string \<Rightarrow> bool \<Rightarrow> instances \<Rightarrow> repo_error + nat" where
  "inst_CountForInstanceLimit flt flt2 clusterID ownerID includeUnassigned t =
     (case flt of
        Some e \<Rightarrow> Inl (DatabaseError ''count_for_instance_limit'' e)
      | None \<Rightarrow> query flt2 ''count_for_instance_limit''
          (length (filter (\<lambda>r. si_owner_id r = ownerID \<and> on_cluster clusterID includeUnassigned r) t)))"

definition inst_CountAll :: "fault \<Rightarrow> instances \<Rightarrow> repo_error + nat" where
  "inst_CountAll flt t = query flt ''count_all'' (length t)"

definition inst_CountByStatus :: "fault \<Rightarrow> string \<Rightarrow> instances \<Rightarrow> repo_error + nat" where
  "inst_CountByStatus flt st t =
     query flt ''count_by_status'' (length (filter (\<lambda>r. si_status r = st) t))"

definition inst_CountByStatuses :: "fault \<Rightarrow> string list \<Rightarrow> instances \<Rightarrow> repo_error + nat" where
  "inst_CountByStatuses flt sts t =
     (if sts = [] then Inr 0
      else query flt ''count_by_statuses'' (length (filter (\<lambda>r. si_status r \<in> set sts) t)))"

definition inst_ExistsByDefinitionAndStatus ::
  "fault \<Rightarrow> string \<Rightarrow> string \<Rightarrow> instances \<Rightarrow> repo_error + bool" where
  "inst_ExistsByDefinitionAndStatus flt d st t =
     query flt ''exists_by_definition_and_status''
       (0 < length (filter (\<lambda>r. si_stack_definition_id r = d \<and> si_status r = st) t))"

definition inst_ListExpired :: "fault \<Rightarrow> gtime \<Rightarrow> instances \<Rightarrow> repo_error + instances" where
  "inst_ListExpired flt now t =
     query flt ''list_expired''
       (filter (\<lambda>r. si_status r \<in> {StackStatusRunning, StackStatusPartial}
                    \<and> (case si_expires_at r of None \<Rightarrow> False | Some x \<Rightarrow> x < now)) t)"

definition inst_ListExpiringSoon :: "fault \<Rightarrow> gtime \<Rightarrow> duration \<Rightarrow> instances \<Rightarrow> repo_error + instances" where
  "inst_ListExpiringSoon flt now threshold t =
     query flt ''list_expiring_soon''
       (sort_key (\<lambda>r. case si_expires_at r of None \<Rightarrow> 0 | Some x \<Rightarrow> x)
          (filter (\<lambda>r. si_status r \<in> {StackStatusRunning, StackStatusPartial}
                       \<and> (case si_expires_at r of None \<Rightarrow> False
                          | Some x \<Rightarrow> now < x \<and> x \<le> now + threshold)
                       \<and> si_expiry_warned_at r = None) t))"

definition inst_ListByStatus :: "fault \<Rightarrow> string \<Rightarrow> int \<Rightarrow> instances \<Rightarrow> repo_error + instances" where
  "inst_ListByStatus flt st limit t =
     (let rows = sort_key (\<lambda>r. - si_updated_at r) (filter (\<lambda>r. si_status r = st) t) in
      query flt ''list_by_status'' (if limit > 0 then take (nat limit) rows else rows))"

section \<open>Chunked lookups\<close>

definition instanceIDsPerQuery :: nat where
  "instanceIDsPerQuery = 500"

text \<open>The projection of \<open>FindByIDs\<close> (enough for access checks).\<close>

definition access_columns :: "stack_instance \<Rightarrow> stack_instance" where
  "access_columns r = zero_instance\<lparr>si_id := si_id r, si_owner_id := si_owner_id r,
     si_status := si_status r, si_namespace := si_namespace r, si_cluster_id := si_cluster_id r\<rparr>"

definition put_rows :: "('r \<Rightarrow> 'k) \<Rightarrow> ('r \<Rightarrow> 'v) \<Rightarrow> 'r list \<Rightarrow> ('k \<rightharpoonup> 'v) \<Rightarrow> ('k \<rightharpoonup> 'v)" where
  "put_rows k v rows m = foldl (\<lambda>m r. m(k r \<mapsto> v r)) m rows"

definition inst_FindByIDs ::
  "(nat \<Rightarrow> fault) \<Rightarrow> string list \<Rightarrow> instances \<Rightarrow> repo_error + (string \<rightharpoonup> stack_instance)" where
  "inst_FindByIDs flt ids t =
     chunk_loop flt ''find_by_ids''
       (\<lambda>c m. put_rows si_id access_columns (filter (\<lambda>r. si_id r \<in> set c) t) m)
       0 (chunks instanceIDsPerQuery ids) Map.empty"

text \<open>
  \<open>SELECT key, COUNT(*) ... WHERE key IN chunk GROUP BY key\<close>: one row per key of the chunk
  that occurs, with its count.
\<close>

definition group_counts :: "(stack_instance \<Rightarrow> string) \<Rightarrow> instances \<Rightarrow> string list \<Rightarrow> (string \<times> nat) list" where
  "group_counts key t c =
     (let ks = filter (\<lambda>k. k \<in> set c) (map key t) in map (\<lambda>k. (k, count_list ks k)) (remdups ks))"

definition inst_CountByDefinitionIDs ::
  "(nat \<Rightarrow> fault) \<Rightarrow> string list \<Rightarrow> instances \<Rightarrow> repo_error + (string \<rightharpoonup> nat)" where
  "inst_CountByDefinitionIDs flt ids t =
     (if ids = [] then Inr Map.empty
      else chunk_loop flt ''count_by_definition_ids''
        (\<lambda>c m. put_rows fst snd (group_counts si_stack_definition_id t c) m) 0 (chunks 500 ids) Map.empty)"

definition inst_CountByOwnerIDs ::
  "(nat \<Rightarrow> fault) \<Rightarrow> string list \<Rightarrow> instances \<Rightarrow> repo_error + (string \<rightharpoonup> nat)" where
  "inst_CountByOwnerIDs flt ids t =
     (if ids = [] then Inr Map.empty
      else chunk_loop flt ''count_by_owner_ids''
        (\<lambda>c m. put_rows fst snd (group_counts si_owner_id t c) m) 0 (chunks 500 ids) Map.empty)"

text \<open>\<open>result[key] = append(result[key], id)\<close> for every row of the chunk.\<close>

definition append_ids ::
  "(stack_instance \<Rightarrow> string) \<Rightarrow> instances \<Rightarrow> string list \<Rightarrow> (string \<rightharpoonup> string list) \<Rightarrow> (string \<rightharpoonup> string list)" where
  "append_ids key t c m =
     foldl (\<lambda>m r. m(key r \<mapsto> (case m (key r) of None \<Rightarrow> [] | Some xs \<Rightarrow> xs) @ [si_id r])) m
       (filter (\<lambda>r. key r \<in> set c) t)"

definition inst_ListIDsByDefinitionIDs ::
  "(nat \<Rightarrow> fault) \<Rightarrow> string list \<Rightarrow> instances \<Rightarrow> repo_error + (string \<rightharpoonup> string list)" where
  "inst_ListIDsByDefinitionIDs flt ids t =
     (if ids = [] then Inr Map.empty
      else chunk_loop flt ''list_ids_by_definition_ids'' (append_ids si_stack_definition_id t)
        0 (chunks 500 ids) Map.empty)"

definition inst_ListIDsByOwnerIDs ::
  "(nat \<Rightarrow> fault) \<Rightarrow> string list \<Rightarrow> instances \<Rightarrow> repo_error + (string \<rightharpoonup> string list)" where
  "inst_ListIDsByOwnerIDs flt ids t =
     (if ids = [] then Inr Map.empty
      else chunk_loop flt ''list_ids_by_owner_ids'' (append_ids si_owner_id t)
        0 (chunks 500 ids) Map.empty)"

section \<open>The row behind every operation\<close>

lemma inst_save_row:
  "row_of si_id j (inst_save inst t) =
    (if j = si_id inst
     then Some (case row_of si_id j t of
       None \<Rightarrow> inst\<lparr>si_expiry_warned_at := None, si_delete_after_clean := False\<rparr>
     | Some r \<Rightarrow> inst\<lparr>si_expiry_warned_at := si_expiry_warned_at r,
                      si_delete_after_clean := si_delete_after_clean r\<rparr>)
     else row_of si_id j t)"
  unfolding inst_save_def
  by (subst row_of_sql_save) (auto split: option.splits dest: row_of_SomeD)

lemma clear_warning_row:
  "row_of si_id j (clearExpiryWarningIfExpiryChanged inst t) =
     map_option (\<lambda>r. if si_id r = si_id inst \<and> si_expiry_warned_at r \<noteq> None
                       \<and> expiry_changed (si_expires_at inst) (si_expires_at r)
                     then r\<lparr>si_expiry_warned_at := None\<rparr> else r) (row_of si_id j t)"
  unfolding clearExpiryWarningIfExpiryChanged_def by (subst row_of_sql_update) auto

text \<open>What \<open>Update\<close> leaves of the stored warning mark.\<close>

definition kept_warning :: "stack_instance \<Rightarrow> stack_instance \<Rightarrow> gtime option" where
  "kept_warning inst r =
     (if expiry_changed (si_expires_at inst) (si_expires_at r) then None else si_expiry_warned_at r)"

lemma inst_Update_row:
  "row_of si_id j (snd (inst_Update None now inst t)) =
    (if j = si_id inst
     then Some (case row_of si_id j t of
       None \<Rightarrow> inst\<lparr>si_updated_at := now, si_expiry_warned_at := None, si_delete_after_clean := False\<rparr>
     | Some r \<Rightarrow> inst\<lparr>si_updated_at := now, si_expiry_warned_at := kept_warning inst r,
                      si_delete_after_clean := si_delete_after_clean r\<rparr>)
     else row_of si_id j t)"
  by (cases "row_of si_id j t")
    (auto simp: inst_Update_def Let_def inst_save_row clear_warning_row kept_warning_def
      dest: row_of_SomeD)

lemma inst_Update_fault [simp]: "snd (inst_Update (Some e) now inst t) = t"
  by (simp add: inst_Update_def Let_def)

lemma inst_Create_row:
  "fst (inst_Create flt now uuid inst t) = Inr inst' \<Longrightarrow>
   row_of si_id j (snd (inst_Create flt now uuid inst t)) =
     (if j = si_id inst' then Some inst' else row_of si_id j t)"
  by (auto simp: inst_Create_def Let_def row_of_append split: option.splits if_splits)

lemma inst_Delete_row:
  "fst (inst_Delete flt i t) = Inr () \<Longrightarrow>
   row_of si_id j (snd (inst_Delete flt i t)) = (if j = i then None else row_of si_id j t)"
  by (auto simp: inst_Delete_def row_of_filter_other row_of_filter_gone split: option.splits if_splits)

section \<open>The primary key survives every operation\<close>

lemma keyed_Create: "keyed si_id t \<Longrightarrow> keyed si_id (snd (inst_Create flt now uuid inst t))"
  by (auto simp: inst_Create_def Let_def keyed_snoc split: option.splits)

lemma keyed_clearWarning:
  "keyed si_id t \<Longrightarrow> keyed si_id (clearExpiryWarningIfExpiryChanged inst t)"
  unfolding clearExpiryWarningIfExpiryChanged_def by (subst keyed_sql_update) auto

lemma keyed_save: "keyed si_id t \<Longrightarrow> keyed si_id (inst_save inst t)"
  unfolding inst_save_def by (rule keyed_sql_save) auto

lemma keyed_Update: "keyed si_id t \<Longrightarrow> keyed si_id (snd (inst_Update flt now inst t))"
  by (auto simp: inst_Update_def Let_def keyed_save keyed_clearWarning split: option.splits)

lemma keyed_MarkCleanStart:
  "keyed si_id t \<Longrightarrow> keyed si_id (snd (inst_MarkCleanStart flt now i sts d t))"
  by (auto simp: inst_MarkCleanStart_def Let_def keyed_sql_update split: option.splits)

lemma keyed_MarkNamespaceError:
  "keyed si_id t \<Longrightarrow> keyed si_id (snd (inst_MarkNamespaceError flt clock i msg now t))"
  by (auto simp: inst_MarkNamespaceError_def Let_def keyed_sql_update split: option.splits)

lemma keyed_MarkStatus:
  "keyed si_id t \<Longrightarrow> keyed si_id (snd (inst_MarkStatus flt flt2 now i to from t))"
  by (auto simp: inst_MarkStatus_def Let_def keyed_sql_update split: option.splits)

lemma keyed_ClearDeleteAfterClean:
  "keyed si_id t \<Longrightarrow> keyed si_id (snd (inst_ClearDeleteAfterClean flt i t))"
  by (auto simp: inst_ClearDeleteAfterClean_def keyed_sql_update split: option.splits)

lemma keyed_MarkExpiryWarned:
  "keyed si_id t \<Longrightarrow> keyed si_id (snd (inst_MarkExpiryWarned flt i e w t))"
  by (auto simp: inst_MarkExpiryWarned_def Let_def keyed_sql_update split: option.splits)

lemma keyed_Delete: "keyed si_id t \<Longrightarrow> keyed si_id (snd (inst_Delete flt i t))"
  by (auto simp: inst_Delete_def keyed_filter split: option.splits)

lemmas keyed_instances = keyed_Create keyed_Update keyed_MarkCleanStart keyed_MarkNamespaceError
  keyed_MarkStatus keyed_ClearDeleteAfterClean keyed_MarkExpiryWarned keyed_Delete

section \<open>Conditional updates\<close>

text \<open>\<open>MarkCleanStart\<close> in terms of the one row it can touch.\<close>

definition clean_row :: "gtime \<Rightarrow> bool \<Rightarrow> stack_instance \<Rightarrow> stack_instance" where
  "clean_row now d r = r\<lparr>si_status := StackStatusCleaning, si_error_message := [], si_updated_at := now,
     si_delete_after_clean := (d \<or> si_delete_after_clean r)\<rparr>"

lemma clean_row_status [simp]: "si_status (clean_row now d r) \<notin> set CleanStatuses"
  by (simp add: clean_row_def CleanStatuses_def)

lemma clean_row_neq [simp]: "si_status r \<in> set CleanStatuses \<Longrightarrow> clean_row now d r \<noteq> r"
  using clean_row_status [of now d r] by metis

lemma MarkCleanStart_fault [simp]:
  "inst_MarkCleanStart (Some e) now i sts d t = (Inl (DatabaseError ''mark_clean_start'' e), t)"
  by (simp add: inst_MarkCleanStart_def Let_def)

lemma MarkCleanStart_cases:
  assumes "keyed si_id t"
  shows "inst_MarkCleanStart None now i CleanStatuses d t =
    (case row_of si_id i t of
       None \<Rightarrow> (Inl (if d then ErrDeleteConflict else ErrCleanConflict), t)
     | Some r \<Rightarrow>
         if si_status r \<in> set CleanStatuses \<and> (d \<or> \<not> si_delete_after_clean r)
         then (Inr (), sql_update (\<lambda>r. si_id r = i \<and> si_status r \<in> set CleanStatuses
                 \<and> (d \<or> \<not> si_delete_after_clean r)) (clean_row now d) t)
         else (Inl (if d then ErrDeleteConflict else ErrCleanConflict), t))"
proof -
  let ?p = "\<lambda>r. si_id r = i \<and> si_status r \<in> set CleanStatuses \<and> (d \<or> \<not> si_delete_after_clean r)"
  have "inst_MarkCleanStart None now i CleanStatuses d t =
    (if rows_changed ?p (clean_row now d) t = 0
     then (Inl (if d then ErrDeleteConflict else ErrCleanConflict), t)
     else (Inr (), sql_update ?p (clean_row now d) t))"
    unfolding inst_MarkCleanStart_def Let_def clean_row_def by simp
  moreover have "rows_changed ?p (clean_row now d) t =
    (case row_of si_id i t of None \<Rightarrow> 0 | Some r \<Rightarrow> if ?p r \<and> clean_row now d r \<noteq> r then 1 else 0)"
    by (rule rows_changed_keyed [OF assms]) auto
  ultimately show ?thesis
    by (auto split: option.splits dest: row_of_SomeD)
qed

lemma MarkCleanStart_row:
  assumes "keyed si_id t"
  shows "row_of si_id j (snd (inst_MarkCleanStart None now i CleanStatuses d t)) =
    map_option (\<lambda>r. if j = i \<and> si_status r \<in> set CleanStatuses \<and> (d \<or> \<not> si_delete_after_clean r)
                    then clean_row now d r else r) (row_of si_id j t)"
proof -
  have "row_of si_id j (sql_update (\<lambda>r. si_id r = i \<and> si_status r \<in> set CleanStatuses
      \<and> (d \<or> \<not> si_delete_after_clean r)) (clean_row now d) t) =
    map_option (\<lambda>r. if si_id r = i \<and> si_status r \<in> set CleanStatuses \<and> (d \<or> \<not> si_delete_after_clean r)
                    then clean_row now d r else r) (row_of si_id j t)"
    by (rule row_of_sql_update) (simp add: clean_row_def)
  then show ?thesis
    by (cases "row_of si_id j t")
      (auto simp: MarkCleanStart_cases [OF assms] split: option.splits dest: row_of_SomeD)
qed

text \<open>One caller of \<open>MarkCleanStart\<close> for instance \<open>i\<close>: its fault, its clock, clean or delete.\<close>

definition clean_start_run :: "string \<Rightarrow> fault \<times> gtime \<times> bool \<Rightarrow> instances \<Rightarrow> bool \<times> instances" where
  "clean_start_run i c t =
     (let res = inst_MarkCleanStart (fst c) (fst (snd c)) i CleanStatuses (snd (snd c)) t
      in (\<exists>u. fst res = Inr u, snd res))"

definition clean_startable :: "string \<Rightarrow> instances \<Rightarrow> bool" where
  "clean_startable i t \<longleftrightarrow> (\<exists>r. row_of si_id i t = Some r \<and> si_status r \<in> set CleanStatuses)"

interpretation clean_start: one_winner "clean_start_run i" "clean_startable i" "keyed si_id"
proof
  fix s :: instances and c :: "fault \<times> gtime \<times> bool"
  assume k: "keyed si_id s"
  note run = clean_start_run_def Let_def clean_startable_def
    MarkCleanStart_cases [OF k] MarkCleanStart_row [OF k]
  show "fst (clean_start_run i c s) \<Longrightarrow> clean_startable i s"
    by (cases "fst c") (auto simp: run split: option.splits if_splits)
  show "fst (clean_start_run i c s) \<Longrightarrow> \<not> clean_startable i (snd (clean_start_run i c s))"
    by (cases "fst c"; cases "row_of si_id i s")
      (auto simp: clean_start_run_def Let_def clean_startable_def MarkCleanStart_row [OF k]
         MarkCleanStart_cases [OF k, THEN arg_cong [where f = fst]] split: if_splits)
  show "\<not> fst (clean_start_run i c s) \<Longrightarrow> snd (clean_start_run i c s) = s"
    by (cases "fst c") (auto simp: run split: option.splits if_splits)
  show "keyed si_id (snd (clean_start_run i c s))"
    using k by (simp add: clean_start_run_def Let_def keyed_MarkCleanStart)
qed

lemma MarkExpiryWarned_cases:
  assumes "keyed si_id t"
  shows "inst_MarkExpiryWarned None i e w t =
    (case row_of si_id i t of
       None \<Rightarrow> (Inr False, t)
     | Some r \<Rightarrow>
         if si_expiry_warned_at r = None
            \<and> (case si_expires_at r of None \<Rightarrow> False
               | Some x \<Rightarrow> e - expiryMatchTolerance < x \<and> x < e + expiryMatchTolerance)
         then (Inr True, sql_update (\<lambda>r. si_id r = i \<and> si_expiry_warned_at r = None
                 \<and> (case si_expires_at r of None \<Rightarrow> False
                    | Some x \<Rightarrow> e - expiryMatchTolerance < x \<and> x < e + expiryMatchTolerance))
                 (\<lambda>r. r\<lparr>si_expiry_warned_at := Some w\<rparr>) t)
         else (Inr False, t))"
proof -
  let ?p = "\<lambda>r. si_id r = i \<and> si_expiry_warned_at r = None
                 \<and> (case si_expires_at r of None \<Rightarrow> False
                    | Some x \<Rightarrow> e - expiryMatchTolerance < x \<and> x < e + expiryMatchTolerance)"
  let ?f = "\<lambda>r. r\<lparr>si_expiry_warned_at := Some w\<rparr> :: stack_instance"
  have neq: "?f r \<noteq> r" if "si_expiry_warned_at r = None" for r
    using that by (metis (mono_tags) option.distinct(1) stack_instance.select_convs(5) stack_instance.surjective stack_instance.update_convs(5))
  have "rows_changed ?p ?f t =
    (case row_of si_id i t of None \<Rightarrow> 0 | Some r \<Rightarrow> if ?p r \<and> ?f r \<noteq> r then 1 else 0)"
    by (rule rows_changed_keyed [OF assms]) auto
  then have count: "rows_changed ?p ?f t =
    (case row_of si_id i t of None \<Rightarrow> 0 | Some r \<Rightarrow> if ?p r then 1 else 0)"
    using neq by (auto split: option.splits)
  have "sql_update ?p ?f t = t" if "rows_changed ?p ?f t = 0"
    using that by (rule rows_changed_0_update)
  with count show ?thesis
    unfolding inst_MarkExpiryWarned_def Let_def
    by (auto split: option.splits dest: row_of_SomeD)
qed

lemma MarkExpiryWarned_fault [simp]:
  "inst_MarkExpiryWarned (Some f) i e w t = (Inl (DatabaseError ''mark_expiry_warned'' f), t)"
  by (simp add: inst_MarkExpiryWarned_def Let_def)

text \<open>One expiry warner of instance \<open>i\<close>: its fault, the expiry it read, its clock.\<close>

definition expiry_warn_run :: "string \<Rightarrow> fault \<times> gtime \<times> gtime \<Rightarrow> instances \<Rightarrow> bool \<times> instances" where
  "expiry_warn_run i c t =
     (let res = inst_MarkExpiryWarned (fst c) i (fst (snd c)) (snd (snd c)) t
      in (fst res = Inr True, snd res))"

definition not_warned :: "string \<Rightarrow> instances \<Rightarrow> bool" where
  "not_warned i t \<longleftrightarrow> (\<exists>r. row_of si_id i t = Some r \<and> si_expiry_warned_at r = None)"

interpretation expiry_warn: one_winner "expiry_warn_run i" "not_warned i" "keyed si_id"
proof
  fix s :: instances and c :: "fault \<times> gtime \<times> gtime"
  assume k: "keyed si_id s"
  note run = expiry_warn_run_def Let_def not_warned_def MarkExpiryWarned_cases [OF k]
  show "fst (expiry_warn_run i c s) \<Longrightarrow> not_warned i s"
    by (cases "fst c") (auto simp: run split: option.splits if_splits)
  show "fst (expiry_warn_run i c s) \<Longrightarrow> \<not> not_warned i (snd (expiry_warn_run i c s))"
    by (cases "fst c") (auto simp: run row_of_sql_update dest: row_of_SomeD
        split: option.splits if_splits)
  show "\<not> fst (expiry_warn_run i c s) \<Longrightarrow> snd (expiry_warn_run i c s) = s"
    by (cases "fst c") (auto simp: run split: option.splits if_splits)
  show "keyed si_id (snd (expiry_warn_run i c s))"
    using k by (simp add: expiry_warn_run_def Let_def keyed_MarkExpiryWarned)
qed

lemma MarkNamespaceError_blocked:
  assumes "keyed si_id t" and "row_of si_id i t = Some r" and "\<not> namespace_error_allowed now r"
  shows "inst_MarkNamespaceError None clock i msg now t = (Inr False, t)"
proof -
  have none: "\<not> (si_id x = i \<and> namespace_error_allowed now x)" if "x \<in> set t" for x
    using assms that row_of_Some_iff [OF assms(1), of i x] by auto
  then show ?thesis
    by (auto simp: inst_MarkNamespaceError_def Let_def rows_changed_def filter_empty_conv
        intro!: sql_update_id)
qed

section \<open>Chunked queries equal unchunked ones\<close>

lemma put_rows_keyed:
  "keyed k rows \<Longrightarrow>
   put_rows k v rows m x = (case row_of k x rows of None \<Rightarrow> m x | Some r \<Rightarrow> Some (v r))"
proof (induction rows arbitrary: m)
  case Nil
  then show ?case by (simp add: put_rows_def)
next
  case (Cons r rows)
  then have fresh: "row_of k (k r) rows = None" and "keyed k rows"
    by (auto simp: keyed_def row_of_None_iff)
  moreover have "put_rows k v (r # rows) m = put_rows k v rows (m(k r \<mapsto> v r))"
    by (simp add: put_rows_def)
  ultimately show ?case
    by (auto simp: Cons.IH split: option.splits)
qed

lemma fold_chunks:
  assumes "\<And>c m. q c m x = (if x \<in> set c then g (m x) else m x)"
    and "\<And>y. g (g y) = g y"
  shows "foldl (\<lambda>a c. q c a) m cs x = (if x \<in> set (concat cs) then g (m x) else m x)"
proof (induction cs arbitrary: m)
  case (Cons c cs)
  then show ?case using assms by auto
qed simp

lemma fold_chunks_distinct:
  assumes "\<And>c m. q c m x = (if x \<in> set c then g (m x) else m x)"
    and "distinct (concat cs)"
  shows "foldl (\<lambda>a c. q c a) m cs x = (if x \<in> set (concat cs) then g (m x) else m x)"
  using assms(2)
proof (induction cs arbitrary: m)
  case (Cons c cs)
  then show ?case using assms(1) by auto
qed simp

lemma row_of_filter_key:
  "row_of key x (filter (\<lambda>r. key r \<in> A) t) = (if x \<in> A then row_of key x t else None)"
  by (induction t) auto

lemma count_list_filter: "P x \<Longrightarrow> count_list (filter P xs) x = count_list xs x"
  by (induction xs) auto

lemma put_group_counts:
  "put_rows fst snd (group_counts key t c) m x =
     (if x \<in> set c then (if x \<in> key ` set t then Some (count_list (map key t) x) else m x) else m x)"
proof -
  let ?ks = "filter (\<lambda>k. k \<in> set c) (map key t)"
  let ?ps = "map (\<lambda>k. (k, count_list ?ks k)) (remdups ?ks)"
  have keyed: "keyed fst ?ps" by (simp add: keyed_def comp_def)
  have "row_of fst x ?ps = (if x \<in> set ?ks then Some (x, count_list ?ks x) else None)"
  proof (cases "x \<in> set ?ks")
    case True
    then show ?thesis by (subst row_of_Some_iff [OF keyed, THEN iffD2]) auto
  next
    case False
    then show ?thesis by (auto simp: row_of_None_iff image_image)
  qed
  moreover have "count_list ?ks x = count_list (map key t) x" if "x \<in> set c"
    using that by (rule count_list_filter)
  ultimately show ?thesis
    by (auto simp: group_counts_def Let_def put_rows_keyed [OF keyed])
qed

lemma append_ids_at:
  "append_ids key t c m x =
     (if x \<in> set c
      then (case map si_id (filter (\<lambda>r. key r = x) t) of
              [] \<Rightarrow> m x
            | ys \<Rightarrow> Some ((case m x of None \<Rightarrow> [] | Some xs \<Rightarrow> xs) @ ys))
      else m x)"
proof (induction t arbitrary: m)
  case Nil
  then show ?case by (simp add: append_ids_def)
next
  case (Cons r t)
  have step: "append_ids key (r # t) c m =
      append_ids key t c (if key r \<in> set c
        then m(key r \<mapsto> (case m (key r) of None \<Rightarrow> [] | Some xs \<Rightarrow> xs) @ [si_id r]) else m)"
    by (simp add: append_ids_def)
  show ?case
    by (auto simp: step Cons.IH split: list.splits option.splits)
qed

lemma pages_concat:
  "concat (map (\<lambda>i. take n (drop (i * n) xs)) [0..<k]) = take (k * n) xs"
proof (induction k)
  case (Suc k)
  then show ?case by (simp add: take_add [symmetric] add.commute)
qed simp

section \<open>Properties\<close>

text \<open>A row for the witnesses.\<close>

definition example_instance :: stack_instance where
  "example_instance = zero_instance\<lparr>si_id := ''i1'', si_stack_definition_id := ''d1'',
     si_status := StackStatusRunning, si_expires_at := Some (100 * Minute), si_owner_id := ''u1''\<rparr>"

lemma example_instance_simps [simp]:
  "si_id example_instance = ''i1''" "si_stack_definition_id example_instance = ''d1''"
  "si_status example_instance = StackStatusRunning"
  "si_expires_at example_instance = Some (100 * Minute)"
  "si_expiry_warned_at example_instance = None" "si_owner_id example_instance = ''u1''"
  "si_delete_after_clean example_instance = False"
  "si_post_deploy_hook_until example_instance = None"
  "si_last_deployed_at example_instance = None" "si_created_at example_instance = 0"
  by (simp_all add: example_instance_def zero_instance_def)

lemma example_clean_status: "StackStatusRunning \<in> set CleanStatuses"
  by (simp add: CleanStatuses_def)

lemma keyed_single [simp]: "keyed key [r]"
  by (simp add: keyed_def)

text \<open>C3. Of any sequence of clean and delete requests for one instance, whatever their clocks
  and faults, at most one starts the clean: the conditional update of \<open>MarkCleanStart\<close> decides.\<close>

theorem clean_start_at_most_one:
  "keyed si_id t \<Longrightarrow> winners (clean_start_run i) cs t \<le> 1"
  by (rule clean_start.at_most_one)

theorem clean_start_at_most_one_witness:
  "keyed si_id [example_instance] \<and>
   winners (clean_start_run ''i1'') [(None, 1, True), (None, 2, True), (None, 3, False)] [example_instance] = 1"
proof -
  have "winners (clean_start_run ''i1'') [(None, 1, True), (None, 2, True), (None, 3, False)] [example_instance] \<le> 1"
    by (rule clean_start_at_most_one) simp
  moreover have "fst (clean_start_run ''i1'' (None, 1, True) [example_instance])"
    by (simp add: clean_start_run_def Let_def MarkCleanStart_cases example_clean_status)
  ultimately show ?thesis
    by (simp add: winners_def Let_def)
qed

text \<open>A plain clean never takes over an instance that a delete marked
  (\<open>delete_after_clean\<close>): \<open>MarkCleanStart\<close> fails and changes nothing, whatever the status.\<close>

theorem plain_clean_keeps_delete:
  assumes "keyed si_id t" and "row_of si_id i t = Some r" and "si_delete_after_clean r"
  shows "inst_MarkCleanStart None now i CleanStatuses False t = (Inl ErrCleanConflict, t)"
  using assms by (simp add: MarkCleanStart_cases)

theorem plain_clean_keeps_delete_witness:
  "inst_MarkCleanStart None 5 ''i1'' CleanStatuses False [example_instance\<lparr>si_delete_after_clean := True\<rparr>]
     = (Inl ErrCleanConflict, [example_instance\<lparr>si_delete_after_clean := True\<rparr>])"
  by (rule plain_clean_keeps_delete [where r = "example_instance\<lparr>si_delete_after_clean := True\<rparr>"]) simp_all

text \<open>\<open>Update\<close> of a stored instance writes every column of the caller's copy except the two
  marks: \<open>delete_after_clean\<close> keeps its stored value, and \<open>expiry_warned_at\<close> keeps its stored
  value unless the update moves the expiry by a second or more (or sets or clears it), in which
  case it is cleared. No other row changes.\<close>

theorem Update_keeps_marks:
  assumes "row_of si_id (si_id inst) t = Some r"
  shows "row_of si_id j (snd (inst_Update None now inst t)) =
    (if j = si_id inst
     then Some (inst\<lparr>si_updated_at := now,
       si_expiry_warned_at := (if expiry_changed (si_expires_at inst) (si_expires_at r)
                               then None else si_expiry_warned_at r),
       si_delete_after_clean := si_delete_after_clean r\<rparr>)
     else row_of si_id j t)"
  using assms by (simp add: inst_Update_row kept_warning_def)

theorem Update_keeps_marks_witness:
  "row_of si_id ''i1'' (snd (inst_Update None 7 (example_instance\<lparr>si_status := StackStatusStopped\<rparr>)
      [example_instance\<lparr>si_delete_after_clean := True, si_expiry_warned_at := Some 3\<rparr>])) =
   Some (example_instance\<lparr>si_status := StackStatusStopped, si_updated_at := 7,
      si_expiry_warned_at := Some 3, si_delete_after_clean := True\<rparr>)"
  by (subst Update_keeps_marks
      [where r = "example_instance\<lparr>si_delete_after_clean := True, si_expiry_warned_at := Some 3\<rparr>"])
    (simp_all add: expiryMatchTolerance_def)

text \<open>Between two changes of the expiry, at most one expiry warner of any number of replicas
  is told to send the warning of an instance.\<close>

theorem expiry_warning_once:
  "keyed si_id t \<Longrightarrow> winners (expiry_warn_run i) cs t \<le> 1"
  by (rule expiry_warn.at_most_one)

theorem expiry_warning_once_witness:
  "keyed si_id [example_instance] \<and>
   winners (expiry_warn_run ''i1'') [(None, 100 * Minute, 1), (None, 100 * Minute, 2)] [example_instance] = 1"
proof -
  have "winners (expiry_warn_run ''i1'') [(None, 100 * Minute, 1), (None, 100 * Minute, 2)] [example_instance] \<le> 1"
    by (rule expiry_warning_once) simp
  moreover have "fst (expiry_warn_run ''i1'' (None, 100 * Minute, 1) [example_instance])"
    by (simp add: expiry_warn_run_def Let_def MarkExpiryWarned_cases expiryMatchTolerance_def)
  ultimately show ?thesis
    by (simp add: winners_def Let_def)
qed

text \<open>An update that moves the expiry of a stored instance arms the warning again: the next
  warner that read the new expiry is told to send it, although the old expiry was warned about.\<close>

theorem new_expiry_warns_again:
  assumes "keyed si_id t" and "row_of si_id (si_id inst) t = Some r"
    and "si_expires_at inst = Some e" and "expiry_changed (Some e) (si_expires_at r)"
  shows "fst (inst_MarkExpiryWarned None (si_id inst) e w (snd (inst_Update None now inst t))) = Inr True"
proof -
  have "keyed si_id (snd (inst_Update None now inst t))"
    using assms(1) by (rule keyed_Update)
  moreover have "row_of si_id (si_id inst) (snd (inst_Update None now inst t)) =
    Some (inst\<lparr>si_updated_at := now, si_expiry_warned_at := None,
               si_delete_after_clean := si_delete_after_clean r\<rparr>)"
    using assms(2-4) by (simp add: inst_Update_row kept_warning_def)
  ultimately show ?thesis
    using assms(3) by (simp add: MarkExpiryWarned_cases expiryMatchTolerance_def)
qed

theorem new_expiry_warns_again_witness:
  "fst (inst_MarkExpiryWarned None ''i1'' (300 * Minute) 9
      (snd (inst_Update None 8 (example_instance\<lparr>si_expires_at := Some (300 * Minute)\<rparr>)
         [example_instance\<lparr>si_expiry_warned_at := Some 3\<rparr>]))) = Inr True"
  using new_expiry_warns_again
    [where inst = "example_instance\<lparr>si_expires_at := Some (300 * Minute)\<rparr>"
      and t = "[example_instance\<lparr>si_expiry_warned_at := Some 3\<rparr>]"
      and r = "example_instance\<lparr>si_expiry_warned_at := Some 3\<rparr>" and e = "300 * Minute" and w = 9 and now = 8]
  by (simp add: expiryMatchTolerance_def)

text \<open>The k8s status watcher never overwrites the status of an operation: when the stored row
  is neither running nor partial, nor stabilizing without active blocking hooks,
  \<open>MarkNamespaceError\<close> reports that nothing changed and changes nothing.\<close>

theorem namespace_error_respects_operations:
  assumes "keyed si_id t" and "row_of si_id i t = Some r"
    and "si_status r \<notin> {StackStatusRunning, StackStatusPartial}"
    and "si_status r = StackStatusStabilizing \<Longrightarrow> \<exists>u. si_post_deploy_hook_until r = Some u \<and> now \<le> u"
  shows "inst_MarkNamespaceError None clock i msg now t = (Inr False, t)"
proof (rule MarkNamespaceError_blocked [OF assms(1,2)])
  show "\<not> namespace_error_allowed now r"
    using assms(3,4) by (auto simp: namespace_error_allowed_def split: option.splits)
qed

theorem namespace_error_respects_operations_witness:
  "inst_MarkNamespaceError None 5 ''i1'' ''pods'' 4
     [example_instance\<lparr>si_status := StackStatusStabilizing, si_post_deploy_hook_until := Some 9\<rparr>]
   = (Inr False, [example_instance\<lparr>si_status := StackStatusStabilizing, si_post_deploy_hook_until := Some 9\<rparr>])"
  by (rule namespace_error_respects_operations [where
        r = "example_instance\<lparr>si_status := StackStatusStabilizing, si_post_deploy_hook_until := Some 9\<rparr>"])
    simp_all

text \<open>The batch lookup in chunks of 500 is the batch lookup: the map of \<open>FindByIDs\<close> has
  exactly the requested rows that exist, projected to the access columns.\<close>

theorem FindByIDs_unchunked:
  assumes "keyed si_id t"
  shows "inst_FindByIDs (\<lambda>_. None) ids t =
    Inr (\<lambda>x. if x \<in> set ids then map_option access_columns (row_of si_id x t) else None)"
proof -
  let ?q = "\<lambda>c m. put_rows si_id access_columns (filter (\<lambda>r. si_id r \<in> set c) t) m"
  have "foldl (\<lambda>m c. ?q c m) Map.empty (chunks instanceIDsPerQuery ids) x =
      (if x \<in> set ids then map_option access_columns (row_of si_id x t) else None)" for x
  proof -
    let ?g = "\<lambda>y. case row_of si_id x t of None \<Rightarrow> y | Some r \<Rightarrow> Some (access_columns r)"
    have "foldl (\<lambda>m c. ?q c m) Map.empty (chunks instanceIDsPerQuery ids) x =
        (if x \<in> set (concat (chunks instanceIDsPerQuery ids)) then ?g None else None)"
      by (rule fold_chunks)
        (auto simp: put_rows_keyed keyed_filter assms row_of_filter_key split: option.splits)
    then show ?thesis
      by (simp add: concat_chunks instanceIDsPerQuery_def split: option.splits)
  qed
  then show ?thesis by (auto simp: inst_FindByIDs_def chunk_loop_ok)
qed

theorem FindByIDs_unchunked_witness:
  "inst_FindByIDs (\<lambda>_. None) [''i1'', ''i2''] [example_instance] =
     Inr (\<lambda>x. if x \<in> {''i1'', ''i2''} then map_option access_columns (row_of si_id x [example_instance]) else None)"
  using FindByIDs_unchunked [of "[example_instance]" "[''i1'', ''i2'']"] by simp

text \<open>The chunked instance counts per definition are exact for every input, duplicates
  included: a definition is in the map when an instance uses it, with the number of its
  instances.\<close>

theorem CountByDefinitionIDs_exact:
  "inst_CountByDefinitionIDs (\<lambda>_. None) ids t =
     Inr (\<lambda>d. if d \<in> set ids \<and> d \<in> si_stack_definition_id ` set t
              then Some (count_list (map si_stack_definition_id t) d) else None)"
proof -
  have "foldl (\<lambda>m c. put_rows fst snd (group_counts si_stack_definition_id t c) m) Map.empty (chunks 500 ids) x =
      (if x \<in> set ids \<and> x \<in> si_stack_definition_id ` set t
       then Some (count_list (map si_stack_definition_id t) x) else None)" for x
  proof -
    let ?g = "\<lambda>y. if x \<in> si_stack_definition_id ` set t
                  then Some (count_list (map si_stack_definition_id t) x) else y"
    have "foldl (\<lambda>m c. put_rows fst snd (group_counts si_stack_definition_id t c) m) Map.empty (chunks 500 ids) x =
        (if x \<in> set (concat (chunks 500 ids)) then ?g None else None)"
      by (rule fold_chunks) (simp_all add: put_group_counts)
    then show ?thesis by (simp add: concat_chunks)
  qed
  then show ?thesis
    by (cases "ids = []") (auto simp: inst_CountByDefinitionIDs_def chunk_loop_ok)
qed

text \<open>For distinct definition identifiers the chunked listing of instance identifiers returns,
  per definition, the identifiers of all its instances in table order and nothing else. The
  distinctness matters: an identifier in two chunks would be appended twice.\<close>

theorem ListIDsByDefinitionIDs_exact:
  assumes "distinct ids"
  shows "inst_ListIDsByDefinitionIDs (\<lambda>_. None) ids t =
    Inr (\<lambda>d. if d \<in> set ids \<and> d \<in> si_stack_definition_id ` set t
             then Some (map si_id (filter (\<lambda>r. si_stack_definition_id r = d) t)) else None)"
proof -
  have "foldl (\<lambda>m c. append_ids si_stack_definition_id t c m) Map.empty (chunks 500 ids) x =
      (if x \<in> set ids \<and> x \<in> si_stack_definition_id ` set t
       then Some (map si_id (filter (\<lambda>r. si_stack_definition_id r = x) t)) else None)" for x
  proof -
    let ?g = "\<lambda>y. case map si_id (filter (\<lambda>r. si_stack_definition_id r = x) t) of
        [] \<Rightarrow> y | ys \<Rightarrow> Some ((case y of None \<Rightarrow> [] | Some xs \<Rightarrow> xs) @ ys)"
    have "foldl (\<lambda>m c. append_ids si_stack_definition_id t c m) Map.empty (chunks 500 ids) x =
        (if x \<in> set (concat (chunks 500 ids)) then ?g None else None)"
      by (rule fold_chunks_distinct) (simp_all add: append_ids_at concat_chunks assms)
    moreover have "x \<in> si_stack_definition_id ` set t \<longleftrightarrow> filter (\<lambda>r. si_stack_definition_id r = x) t \<noteq> []"
      by (auto simp: filter_empty_conv)
    ultimately show ?thesis
      by (auto simp: concat_chunks split: list.splits)
  qed
  then show ?thesis
    by (cases "ids = []") (auto simp: inst_ListIDsByDefinitionIDs_def chunk_loop_ok)
qed

theorem ListIDsByDefinitionIDs_exact_witness:
  "inst_ListIDsByDefinitionIDs (\<lambda>_. None) [''d1'', ''d2''] [example_instance] =
    Inr (\<lambda>d. if d \<in> {''d1'', ''d2''} \<and> d = ''d1''
             then Some (map si_id (filter (\<lambda>r. si_stack_definition_id r = d) [example_instance])) else None)"
  using ListIDsByDefinitionIDs_exact [of "[''d1'', ''d2'']" "[example_instance]"]
  by (simp cong: if_cong)

text \<open>The pages of \<open>ListPaged\<close> over an unchanged table partition the matching rows: read one
  after the other they give the whole filtered list, newest first, every row once, and each page
  reports the total number of matching rows. The query orders by the creation time alone, so the
  rows must differ in it: the database may order equal times differently for every page.\<close>

theorem ListPaged_pages:
  assumes "keyed si_created_at (filter (applyInstanceFilter f) t)"
    and "length (filter (applyInstanceFilter f) t) \<le> k * n"
  shows "concat (map (\<lambda>i. fst (projr (inst_ListPaged None None f n (i * n) t))) [0..<k]) =
      map listColumns (sort_key (\<lambda>r. - si_created_at r) (filter (applyInstanceFilter f) t))
    \<and> (\<forall>i. snd (projr (inst_ListPaged None None f n (i * n) t)) = length (filter (applyInstanceFilter f) t))"
  using assms by (simp add: inst_ListPaged_def query_def Let_def pages_concat)

theorem ListPaged_pages_witness:
  "concat (map (\<lambda>i. fst (projr (inst_ListPaged None None
       \<lparr>f_name = [], f_status = StackStatusRunning, f_cluster_id = [], f_definition_id = [], f_owner_id = []\<rparr>
       1 (i * 1) [example_instance]))) [0..<2]) = [listColumns example_instance]"
  using ListPaged_pages [of "\<lparr>f_name = [], f_status = StackStatusRunning, f_cluster_id = [],
      f_definition_id = [], f_owner_id = []\<rparr>" "[example_instance]" 2 1]
  by (simp add: applyInstanceFilter_def keyed_def)

text \<open>An update with a stale copy brings a deleted instance back: after a successful delete,
  \<open>Update\<close> (GORM's \<open>Save\<close>) of the same identifier inserts the row again, without its marks.\<close>

theorem stale_Update_resurrects:
  assumes "fst (inst_Delete flt (si_id inst) t) = Inr ()"
  shows "row_of si_id (si_id inst) (snd (inst_Delete flt (si_id inst) t)) = None
    \<and> row_of si_id (si_id inst) (snd (inst_Update None now inst (snd (inst_Delete flt (si_id inst) t)))) =
      Some (inst\<lparr>si_updated_at := now, si_expiry_warned_at := None, si_delete_after_clean := False\<rparr>)"
  by (simp add: inst_Update_row inst_Delete_row [OF assms])

theorem stale_Update_resurrects_witness:
  "row_of si_id ''i1'' (snd (inst_Update None 9 example_instance (snd (inst_Delete None ''i1'' [example_instance])))) \<noteq> None"
  using stale_Update_resurrects [of None example_instance "[example_instance]" 9]
  by (simp add: inst_Delete_def)

end
