(* ===== verification/DeployLogs.thy ===== *)
theory DeployLogs
  imports Instances
begin

text \<open>
  Deployment logs: the row \<open>deployment_logs\<close> (\<open>internal/models/deployment_log.go\<close>) and the
  repository \<open>GORMDeploymentLogRepository\<close> (\<open>internal/database/deployment_log_repository.go\<close>):
  the conditional writes of a running log, keyset and offset pagination, the highlights of the
  history view and the deploy statistics. \<open>ORDER BY started_at DESC\<close> without a second column
  leaves the order of equal start times to the database; the model keeps table order there.
\<close>

section \<open>Data\<close>

abbreviation DeployActionDeploy :: string where "DeployActionDeploy \<equiv> ''deploy''"
abbreviation DeployActionStop :: string where "DeployActionStop \<equiv> ''stop''"
abbreviation DeployActionClean :: string where "DeployActionClean \<equiv> ''clean''"
abbreviation DeployActionRollback :: string where "DeployActionRollback \<equiv> ''rollback''"

abbreviation DeployLogRunning :: string where "DeployLogRunning \<equiv> ''running''"
abbreviation DeployLogSuccess :: string where "DeployLogSuccess \<equiv> ''success''"
abbreviation DeployLogError :: string where "DeployLogError \<equiv> ''error''"
abbreviation DeployLogPartial :: string where "DeployLogPartial \<equiv> ''partial''"

record deployment_log =
  dl_started_at :: gtime
  dl_completed_at :: "gtime option"
  dl_id :: string
  dl_stack_instance_id :: string
  dl_action :: string
  dl_status :: string
  dl_output :: string
  dl_error_message :: string
  dl_values_snapshot :: string
  dl_target_log_id :: string
  dl_branch :: string
  dl_chart_versions :: string
  dl_user_id :: string
  dl_replica_id :: string
  dl_deadline_at :: "gtime option"

type_synonym logs = "deployment_log list"

definition zero_log :: deployment_log where
  "zero_log = \<lparr>dl_started_at = zero_time, dl_completed_at = None, dl_id = [],
     dl_stack_instance_id = [], dl_action = [], dl_status = [], dl_output = [],
     dl_error_message = [], dl_values_snapshot = [], dl_target_log_id = [], dl_branch = [],
     dl_chart_versions = [], dl_user_id = [], dl_replica_id = [], dl_deadline_at = None\<rparr>"

definition IsDeployLogAction :: "string \<Rightarrow> bool" where
  "IsDeployLogAction a \<longleftrightarrow>
     a \<in> {DeployActionDeploy, DeployActionRollback, DeployActionStop, DeployActionClean}"

definition IsDeployLogStatus :: "string \<Rightarrow> bool" where
  "IsDeployLogStatus s \<longleftrightarrow> s \<in> {DeployLogRunning, DeployLogSuccess, DeployLogError, DeployLogPartial}"

definition MaxDeployLogPageSize :: int where
  "MaxDeployLogPageSize = 100"

record deployment_log_filters =
  df_instance_id :: string
  df_cursor :: string
  df_actions :: "string list"
  df_statuses :: "string list"
  df_limit :: int
  df_offset :: int
  df_summary :: bool

record deployment_log_result =
  dr_data :: logs
  dr_total :: int
  dr_next_cursor :: string

record deploy_log_highlights =
  h_running :: "deployment_log option"
  h_current :: "deployment_log option"
  h_latest_failure :: "deployment_log option"

record deploy_log_summary =
  ds_last_deploy_at :: "gtime option"
  ds_instance_id :: string
  ds_user_id :: string
  ds_deploy_count :: nat
  ds_success_count :: nat
  ds_error_count :: nat

section \<open>Single-row operations\<close>

definition stamp_log :: "gtime \<Rightarrow> string \<Rightarrow> deployment_log \<Rightarrow> deployment_log" where
  "stamp_log now uuid l =
     l\<lparr>dl_id := (if dl_id l = [] then uuid else dl_id l),
       dl_started_at := (if dl_started_at l = zero_time then now else dl_started_at l)\<rparr>"

definition log_Create ::
  "fault \<Rightarrow> gtime \<Rightarrow> string \<Rightarrow> deployment_log \<Rightarrow> logs \<Rightarrow> (repo_error + deployment_log) \<times> logs" where
  "log_Create flt now uuid l t =
     (let l' = stamp_log now uuid l
      in case flt of
           Some e \<Rightarrow> (Inl (DatabaseError ''create'' e), t)
         | None \<Rightarrow>
             if row_of dl_id (dl_id l') t \<noteq> None
             then (Inl (DatabaseError ''create'' (ErrDriver ''Duplicate entry'')), t)
             else (Inr l', t @ [l']))"

definition log_FindByID :: "fault \<Rightarrow> string \<Rightarrow> logs \<Rightarrow> repo_error + deployment_log" where
  "log_FindByID flt i t =
     (case flt of
        Some e \<Rightarrow> Inl (DatabaseError ''find_by_id'' e)
      | None \<Rightarrow> (case row_of dl_id i t of
                   None \<Rightarrow> Inl (DatabaseError ''find_by_id'' ErrNotFound)
                 | Some r \<Rightarrow> Inr r))"

text \<open>
  The shape of the three conditional writes: an \<open>UPDATE\<close> of the running row, and when it
  changed no row a second statement that counts the running row, since MySQL does not count a
  row whose values stay the same.
\<close>

definition running_log :: "string \<Rightarrow> deployment_log \<Rightarrow> bool" where
  "running_log i l \<longleftrightarrow> dl_id l = i \<and> dl_status l = DeployLogRunning"

definition update_running ::
  "string \<Rightarrow> fault \<Rightarrow> fault \<Rightarrow> string \<Rightarrow> (deployment_log \<Rightarrow> bool) \<Rightarrow> (deployment_log \<Rightarrow> deployment_log)
   \<Rightarrow> logs \<Rightarrow> (repo_error + unit) \<times> logs" where
  "update_running op flt flt2 i extra f t =
     (let p = (\<lambda>l. running_log i l \<and> extra l); t' = sql_update p f t
      in case flt of
           Some e \<Rightarrow> (Inl (DatabaseError op e), t)
         | None \<Rightarrow>
             if rows_changed p f t > 0 then (Inr (), t')
             else (case flt2 of
                     Some e \<Rightarrow> (Inl (DatabaseError op e), t')
                   | None \<Rightarrow> (if length (filter (running_log i) t') > 0 then (Inr (), t')
                              else (Inl ErrDeployLogNotRunning, t'))))"

definition log_Update ::
  "fault \<Rightarrow> fault \<Rightarrow> deployment_log \<Rightarrow> logs \<Rightarrow> (repo_error + unit) \<times> logs" where
  "log_Update flt flt2 l t =
     update_running ''update'' flt flt2 (dl_id l) (\<lambda>_. True) (\<lambda>r. l\<lparr>dl_id := dl_id r\<rparr>) t"

definition log_ExtendDeadline ::
  "fault \<Rightarrow> fault \<Rightarrow> string \<Rightarrow> gtime \<Rightarrow> logs \<Rightarrow> (repo_error + unit) \<times> logs" where
  "log_ExtendDeadline flt flt2 i deadline t =
     update_running ''extend_deadline'' flt flt2 i
       (\<lambda>l. case dl_deadline_at l of None \<Rightarrow> True | Some d \<Rightarrow> d < deadline)
       (\<lambda>l. l\<lparr>dl_deadline_at := Some deadline\<rparr>) t"

definition log_UpdateRunningOutput ::
  "fault \<Rightarrow> fault \<Rightarrow> string \<Rightarrow> string \<Rightarrow> logs \<Rightarrow> (repo_error + unit) \<times> logs" where
  "log_UpdateRunningOutput flt flt2 i out t =
     update_running ''update_running_output'' flt flt2 i (\<lambda>_. True) (\<lambda>l. l\<lparr>dl_output := out\<rparr>) t"

section \<open>Lists\<close>

definition newest_first :: "logs \<Rightarrow> logs" where
  "newest_first ls = sort_key (\<lambda>l. - dl_started_at l) ls"

definition log_ListByInstance :: "fault \<Rightarrow> string \<Rightarrow> logs \<Rightarrow> repo_error + logs" where
  "log_ListByInstance flt i t =
     query flt ''list_by_instance'' (newest_first (filter (\<lambda>l. dl_stack_instance_id l = i) t))"

definition log_GetLatestByInstance :: "fault \<Rightarrow> string \<Rightarrow> logs \<Rightarrow> repo_error + deployment_log" where
  "log_GetLatestByInstance flt i t =
     (case flt of
        Some e \<Rightarrow> Inl (DatabaseError ''get_latest'' e)
      | None \<Rightarrow> (case newest_first (filter (\<lambda>l. dl_stack_instance_id l = i) t) of
                   [] \<Rightarrow> Inl (DatabaseError ''get_latest'' ErrNotFound)
                 | l # _ \<Rightarrow> Inr l))"

text \<open>The small columns of \<open>ListLatestByActions\<close>.\<close>

definition latest_columns :: "deployment_log \<Rightarrow> deployment_log" where
  "latest_columns l = zero_log\<lparr>dl_id := dl_id l, dl_stack_instance_id := dl_stack_instance_id l,
     dl_action := dl_action l, dl_status := dl_status l, dl_replica_id := dl_replica_id l,
     dl_started_at := dl_started_at l, dl_completed_at := dl_completed_at l,
     dl_deadline_at := dl_deadline_at l, dl_target_log_id := dl_target_log_id l,
     dl_branch := dl_branch l\<rparr>"

definition log_ListLatestByActions ::
  "fault \<Rightarrow> string \<Rightarrow> string list \<Rightarrow> int \<Rightarrow> logs \<Rightarrow> repo_error + logs" where
  "log_ListLatestByActions flt i actions limit t =
     query flt ''list_latest_by_actions''
       (map latest_columns (take (nat (if limit \<le> 0 then 1 else limit))
          (newest_first (filter (\<lambda>l. dl_stack_instance_id l = i \<and> dl_action l \<in> set actions) t))))"

definition log_CountByAction :: "fault \<Rightarrow> gtime \<Rightarrow> string \<Rightarrow> logs \<Rightarrow> repo_error + nat" where
  "log_CountByAction flt now action t =
     query flt ''count_by_action''
       (length (filter (\<lambda>l. dl_action l = action \<and> now - 90 * 24 * Hour \<le> dl_started_at l) t))"

subsection \<open>Pagination\<close>

text \<open>
  A cursor is the base64 text of \<open><RFC 3339 time>|<id>\<close>. Base64 and the time format are those of
  Go's standard library, passed as a codec; \<open>codec_ok\<close> is what the library documents.
\<close>

record cursor_codec =
  b64_encode :: "string \<Rightarrow> string"
  b64_decode :: "string \<Rightarrow> string option"
  fmt_time :: "gtime \<Rightarrow> string"
  parse_time :: "string \<Rightarrow> gtime option"

definition codec_ok :: "cursor_codec \<Rightarrow> bool" where
  "codec_ok c \<longleftrightarrow>
     (\<forall>s. b64_decode c (b64_encode c s) = Some s)
     \<and> (\<forall>s. s \<noteq> [] \<longrightarrow> b64_encode c s \<noteq> [])
     \<and> (\<forall>ts. parse_time c (fmt_time c ts) = Some ts)
     \<and> (\<forall>ts. fmt_time c ts \<noteq> [] \<and> CHR ''|'' \<notin> set (fmt_time c ts))"

definition encodeDeployLogCursor :: "cursor_codec \<Rightarrow> gtime \<Rightarrow> string \<Rightarrow> string" where
  "encodeDeployLogCursor c ts i = b64_encode c (fmt_time c ts @ ''|'' @ i)"

text \<open>\<open>strings.SplitN(s, "|", 2)\<close>.\<close>

definition splitN2 :: "char \<Rightarrow> string \<Rightarrow> string list" where
  "splitN2 sep s =
     (if sep \<in> set s
      then [takeWhile (\<lambda>x. x \<noteq> sep) s, tl (dropWhile (\<lambda>x. x \<noteq> sep) s)]
      else [s])"

definition decodeDeployLogCursor :: "cursor_codec \<Rightarrow> string \<Rightarrow> string + (gtime \<times> string)" where
  "decodeDeployLogCursor c cursor =
     (case b64_decode c cursor of
        None \<Rightarrow> Inl ''invalid cursor encoding''
      | Some data \<Rightarrow>
          (case splitN2 (CHR ''|'') data of
             [ts, i] \<Rightarrow>
               if ts = [] \<or> i = [] then Inl ''invalid cursor format''
               else (case parse_time c ts of
                       None \<Rightarrow> Inl ''invalid cursor timestamp''
                     | Some t \<Rightarrow> Inr (t, i))
           | _ \<Rightarrow> Inl ''invalid cursor format''))"

definition deployLogSummaryColumns :: "deployment_log \<Rightarrow> deployment_log" where
  "deployLogSummaryColumns l = zero_log\<lparr>dl_id := dl_id l, dl_stack_instance_id := dl_stack_instance_id l,
     dl_action := dl_action l, dl_status := dl_status l, dl_branch := dl_branch l,
     dl_error_message := dl_error_message l, dl_target_log_id := dl_target_log_id l,
     dl_user_id := dl_user_id l, dl_started_at := dl_started_at l,
     dl_completed_at := dl_completed_at l\<rparr>"

definition base_query :: "deployment_log_filters \<Rightarrow> deployment_log \<Rightarrow> bool" where
  "base_query f l \<longleftrightarrow>
     dl_stack_instance_id l = df_instance_id f
     \<and> (df_actions f \<noteq> [] \<longrightarrow> dl_action l \<in> set (df_actions f))
     \<and> (df_statuses f \<noteq> [] \<longrightarrow> dl_status l \<in> set (df_statuses f))"

definition select_columns :: "deployment_log_filters \<Rightarrow> deployment_log \<Rightarrow> deployment_log" where
  "select_columns f l = (if df_summary f then deployLogSummaryColumns l else l)"

text \<open>\<open>ORDER BY started_at DESC, id DESC\<close>.\<close>

definition keyset_order :: "logs \<Rightarrow> logs" where
  "keyset_order ls = rev (sort_key (\<lambda>l. (dl_started_at l, dl_id l)) ls)"

definition before_cursor :: "gtime \<Rightarrow> string \<Rightarrow> deployment_log \<Rightarrow> bool" where
  "before_cursor ts i l \<longleftrightarrow> dl_started_at l < ts \<or> (dl_started_at l = ts \<and> dl_id l < i)"

definition page_limit :: "int \<Rightarrow> nat" where
  "page_limit limit = nat (min (if limit \<le> 0 then 50 else limit) MaxDeployLogPageSize)"

definition log_ListByInstancePaginated ::
  "cursor_codec \<Rightarrow> fault \<Rightarrow> fault \<Rightarrow> deployment_log_filters \<Rightarrow> logs \<Rightarrow> repo_error + deployment_log_result" where
  "log_ListByInstancePaginated c flt flt2 f t =
     (let limit = page_limit (df_limit f); rows = filter (base_query f) t in
      if df_cursor f \<noteq> [] then
        (case decodeDeployLogCursor c (df_cursor f) of
           Inl _ \<Rightarrow> Inl (DatabaseError ''list_by_instance'' ErrValidation)
         | Inr (ts, i) \<Rightarrow>
             (case flt of
                Some e \<Rightarrow> Inl (DatabaseError ''list_by_instance'' e)
              | None \<Rightarrow>
                  (let found = map (select_columns f) (take (limit + 1)
                         (keyset_order (filter (before_cursor ts i) rows)));
                       data = take limit found
                   in Inr \<lparr>dr_data = data, dr_total = -1,
                           dr_next_cursor =
                             (if length found > limit
                              then encodeDeployLogCursor c (dl_started_at (data ! (limit - 1))) (dl_id (data ! (limit - 1)))
                              else [])\<rparr>)))
      else
        (case flt of
           Some e \<Rightarrow> Inl (DatabaseError ''count'' e)
         | None \<Rightarrow>
             (case flt2 of
                Some e \<Rightarrow> Inl (DatabaseError ''list_by_instance'' e)
              | None \<Rightarrow>
                  (let total = length rows;
                       data = map (select_columns f) (take limit (drop (nat (df_offset f)) (keyset_order rows)))
                   in Inr \<lparr>dr_data = data, dr_total = int total,
                           dr_next_cursor =
                             (if data \<noteq> [] \<and> df_offset f + int (length data) < int total
                              then encodeDeployLogCursor c (dl_started_at (last data)) (dl_id (last data))
                              else [])\<rparr>))))"

text \<open>A client that follows \<open>next_cursor\<close>; \<open>fuel\<close> bounds the number of pages.\<close>

fun walk_pages :: "cursor_codec \<Rightarrow> nat \<Rightarrow> deployment_log_filters \<Rightarrow> logs \<Rightarrow> logs option" where
  "walk_pages c 0 f t = None"
| "walk_pages c (Suc fuel) f t =
     (case log_ListByInstancePaginated c None None f t of
        Inl _ \<Rightarrow> None
      | Inr r \<Rightarrow>
          if dr_next_cursor r = [] then Some (dr_data r)
          else map_option (\<lambda>rest. dr_data r @ rest)
                 (walk_pages c fuel (f\<lparr>df_cursor := dr_next_cursor r\<rparr>) t))"

subsection \<open>Highlights\<close>

definition newestSummaryRow :: "fault \<Rightarrow> (deployment_log \<Rightarrow> bool) \<Rightarrow> logs \<Rightarrow> repo_error + deployment_log option" where
  "newestSummaryRow flt p t =
     query flt ''history_highlights''
       (case keyset_order (filter p t) of [] \<Rightarrow> None | l # _ \<Rightarrow> Some (deployLogSummaryColumns l))"

definition log_HistoryHighlights ::
  "fault \<Rightarrow> fault \<Rightarrow> fault \<Rightarrow> fault \<Rightarrow> string \<Rightarrow> logs \<Rightarrow> repo_error + deploy_log_highlights" where
  "log_HistoryHighlights flt1 flt2 flt3 flt4 i t =
     (case newestSummaryRow flt1 (\<lambda>l. dl_stack_instance_id l = i \<and> dl_status l = DeployLogRunning) t of
        Inl e \<Rightarrow> Inl e
      | Inr running \<Rightarrow>
     (case newestSummaryRow flt2
             (\<lambda>l. dl_stack_instance_id l = i \<and> dl_action l \<in> {DeployActionDeploy, DeployActionRollback}
                  \<and> dl_status l \<in> {DeployLogSuccess, DeployLogPartial}) t of
        Inl e \<Rightarrow> Inl e
      | Inr lastGood \<Rightarrow>
     (case (case lastGood of
              None \<Rightarrow> Inr None
            | Some g \<Rightarrow>
                if dl_action g = DeployActionDeploy then Inr (Some g)
                else if dl_target_log_id g \<noteq> []
                then newestSummaryRow flt3 (\<lambda>l. dl_id l = dl_target_log_id g \<and> dl_stack_instance_id l = i) t
                else Inr None) of
        Inl e \<Rightarrow> Inl e
      | Inr current \<Rightarrow>
     (case newestSummaryRow flt4
             (\<lambda>l. dl_stack_instance_id l = i \<and> dl_status l = DeployLogError
                  \<and> (case lastGood of None \<Rightarrow> True | Some g \<Rightarrow> dl_started_at l > dl_started_at g)) t of
        Inl e \<Rightarrow> Inl e
      | Inr failure \<Rightarrow>
          Inr \<lparr>h_running = running, h_current = current, h_latest_failure = failure\<rparr>))))"

subsection \<open>Statistics\<close>

definition last_activity :: "logs \<Rightarrow> gtime option" where
  "last_activity ls =
     (if ls = [] then None
      else Some (Max (set (map (\<lambda>l. case dl_completed_at l of None \<Rightarrow> dl_started_at l | Some c \<Rightarrow> c) ls))))"

definition summary_cutoff :: "gtime \<Rightarrow> gtime" where
  "summary_cutoff now = now - 90 * 24 * Hour"

definition log_SummarizeByInstance ::
  "fault \<Rightarrow> fault \<Rightarrow> gtime \<Rightarrow> string \<Rightarrow> logs \<Rightarrow> repo_error + deploy_log_summary" where
  "log_SummarizeByInstance flt flt2 now i t =
     (let ds = filter (\<lambda>l. dl_stack_instance_id l = i \<and> dl_action l = DeployActionDeploy
                           \<and> summary_cutoff now \<le> dl_started_at l) t;
          ls = filter (\<lambda>l. dl_stack_instance_id l = i \<and> summary_cutoff now \<le> dl_started_at l) t
      in case flt of
           Some e \<Rightarrow> Inl (DatabaseError ''summarize_by_instance'' e)
         | None \<Rightarrow> query flt2 ''summarize_by_instance''
             \<lparr>ds_last_deploy_at = last_activity ls, ds_instance_id = i, ds_user_id = [],
              ds_deploy_count = length ds,
              ds_success_count = length (filter (\<lambda>l. dl_status l = DeployLogSuccess) ds),
              ds_error_count = length (filter (\<lambda>l. dl_status l \<in> {DeployLogError, DeployLogPartial}) ds)\<rparr>)"

text \<open>\<open>GROUP BY\<close> one column: the rows of a chunk, grouped by their key.\<close>

definition group_summaries ::
  "(deployment_log \<Rightarrow> string) \<Rightarrow> (string \<Rightarrow> logs \<Rightarrow> deploy_log_summary) \<Rightarrow> logs \<Rightarrow> deploy_log_summary list" where
  "group_summaries key mk rows = map (\<lambda>k. mk k (filter (\<lambda>l. key l = k) rows)) (remdups (map key rows))"

definition batch_summary :: "string \<Rightarrow> logs \<Rightarrow> deploy_log_summary" where
  "batch_summary i ls =
     \<lparr>ds_last_deploy_at = last_activity ls, ds_instance_id = i, ds_user_id = [],
      ds_deploy_count = length (filter (\<lambda>l. dl_action l = DeployActionDeploy) ls),
      ds_success_count = length (filter (\<lambda>l. dl_action l = DeployActionDeploy \<and> dl_status l = DeployLogSuccess) ls),
      ds_error_count = length (filter (\<lambda>l. dl_action l = DeployActionDeploy
                                            \<and> dl_status l \<in> {DeployLogError, DeployLogPartial}) ls)\<rparr>"

definition summarizeBatchChunk ::
  "gtime \<Rightarrow> logs \<Rightarrow> string list \<Rightarrow> (string \<rightharpoonup> deploy_log_summary) \<Rightarrow> (string \<rightharpoonup> deploy_log_summary)" where
  "summarizeBatchChunk cutoff t c m =
     put_rows ds_instance_id id
       (group_summaries dl_stack_instance_id batch_summary
          (filter (\<lambda>l. dl_stack_instance_id l \<in> set c \<and> cutoff \<le> dl_started_at l) t)) m"

definition log_SummarizeBatch ::
  "(nat \<Rightarrow> fault) \<Rightarrow> gtime \<Rightarrow> string list \<Rightarrow> logs \<Rightarrow> repo_error + (string \<rightharpoonup> deploy_log_summary)" where
  "log_SummarizeBatch flt now ids t =
     (if ids = [] then Inr Map.empty
      else chunk_loop flt ''summarize_batch'' (summarizeBatchChunk (summary_cutoff now) t)
             0 (chunks 500 ids) Map.empty)"

definition user_summary :: "string \<Rightarrow> logs \<Rightarrow> deploy_log_summary" where
  "user_summary u ls =
     \<lparr>ds_last_deploy_at = last_activity ls, ds_instance_id = [], ds_user_id = u,
      ds_deploy_count = length ls,
      ds_success_count = length (filter (\<lambda>l. dl_status l = DeployLogSuccess) ls),
      ds_error_count = length (filter (\<lambda>l. dl_status l \<in> {DeployLogError, DeployLogPartial}) ls)\<rparr>"

definition log_SummarizeByUsers ::
  "(nat \<Rightarrow> fault) \<Rightarrow> string list \<Rightarrow> logs \<Rightarrow> repo_error + (string \<rightharpoonup> deploy_log_summary)" where
  "log_SummarizeByUsers flt ids t =
     chunk_loop flt ''summarize_by_users''
       (\<lambda>c m. put_rows ds_user_id id
          (group_summaries dl_user_id user_summary
             (filter (\<lambda>l. dl_user_id l \<in> set c \<and> dl_action l = DeployActionDeploy) t)) m)
       0 (chunks 500 ids) Map.empty"

section \<open>The running log and its conditional writes\<close>

lemma update_running_fault [simp]:
  "update_running op (Some e) flt2 i x f t = (Inl (DatabaseError op e), t)"
  by (simp add: update_running_def Let_def)

lemma update_running_table:
  "snd (update_running op flt flt2 i x f t) =
     (case flt of Some e \<Rightarrow> t | None \<Rightarrow> sql_update (\<lambda>l. running_log i l \<and> x l) f t)"
  by (auto simp: update_running_def Let_def split: option.splits)

lemma update_running_row:
  assumes "\<And>l. running_log i l \<Longrightarrow> dl_id (f l) = dl_id l"
  shows "row_of dl_id j (snd (update_running op flt flt2 i x f t)) =
    (case flt of Some e \<Rightarrow> row_of dl_id j t
     | None \<Rightarrow> map_option (\<lambda>l. if running_log i l \<and> x l then f l else l) (row_of dl_id j t))"
proof -
  have "sql_update (\<lambda>l. running_log i l \<and> x l) f t =
      sql_update (\<lambda>l. running_log i l \<and> x l) (\<lambda>l. if running_log i l then f l else l) t"
    by (auto simp: sql_update_def)
  moreover have "row_of dl_id j (sql_update (\<lambda>l. running_log i l \<and> x l)
      (\<lambda>l. if running_log i l then f l else l) t) =
    map_option (\<lambda>l. if running_log i l \<and> x l then f l else l) (row_of dl_id j t)"
    using assms by (subst row_of_sql_update) (auto intro!: option.map_cong)
  ultimately show ?thesis
    by (simp add: update_running_table split: option.splits)
qed

lemma keyed_update_running:
  assumes "\<And>l. running_log i l \<Longrightarrow> dl_id (f l) = dl_id l" and "keyed dl_id t"
  shows "keyed dl_id (snd (update_running op flt flt2 i x f t))"
proof -
  have "map dl_id (sql_update (\<lambda>l. running_log i l \<and> x l) f t) = map dl_id t"
    using assms(1) by (auto simp: sql_update_def)
  with assms(2) show ?thesis
    by (auto simp: update_running_table keyed_def split: option.splits)
qed

lemma update_running_ok:
  assumes "keyed dl_id t"
    and "\<And>l. running_log i l \<Longrightarrow> dl_id (f l) = i"
  shows "fst (update_running op None None i x f t) =
    (case row_of dl_id i t of
       None \<Rightarrow> Inl ErrDeployLogNotRunning
     | Some l \<Rightarrow> if dl_status l = DeployLogRunning then Inr () else Inl ErrDeployLogNotRunning)"
proof -
  let ?p = "\<lambda>l. running_log i l \<and> x l"
  have running: "(filter (running_log i) t \<noteq> []) \<longleftrightarrow>
      (\<exists>l. row_of dl_id i t = Some l \<and> dl_status l = DeployLogRunning)"
    by (auto simp: filter_empty_conv running_log_def row_of_Some_iff [OF assms(1)])
  have count: "rows_changed ?p f t =
      (case row_of dl_id i t of None \<Rightarrow> 0 | Some l \<Rightarrow> if ?p l \<and> f l \<noteq> l then 1 else 0)"
    by (rule rows_changed_keyed [OF assms(1)]) (simp add: running_log_def)
  show ?thesis
  proof (cases "rows_changed ?p f t = 0")
    case True
    then have "sql_update ?p f t = t" by (rule rows_changed_0_update)
    with True show ?thesis
      using running by (auto simp: update_running_def Let_def split: option.splits)
  next
    case False
    with count show ?thesis
      by (auto simp: update_running_def Let_def running_log_def split: option.splits if_splits)
  qed
qed

lemma update_running_fail_keeps:
  "fst (update_running op flt flt2 i x f t) = Inl e \<Longrightarrow> snd (update_running op flt flt2 i x f t) = t"
  by (auto simp: update_running_def Let_def rows_changed_0_update split: option.splits if_splits)

lemmas log_writes = log_Update_def log_ExtendDeadline_def log_UpdateRunningOutput_def

lemma running_id: "running_log i l \<Longrightarrow> dl_id l = i"
  by (simp add: running_log_def)

lemma keyed_log_Create: "keyed dl_id t \<Longrightarrow> keyed dl_id (snd (log_Create flt now uuid l t))"
  by (auto simp: log_Create_def Let_def keyed_snoc split: option.splits)

lemma keyed_log_Update: "keyed dl_id t \<Longrightarrow> keyed dl_id (snd (log_Update flt flt2 l t))"
  by (simp add: log_writes keyed_update_running)

lemma keyed_log_ExtendDeadline:
  "keyed dl_id t \<Longrightarrow> keyed dl_id (snd (log_ExtendDeadline flt flt2 i d t))"
  by (simp add: log_writes keyed_update_running)

lemma log_Update_ok:
  assumes "keyed dl_id t"
  shows "fst (log_Update None None l t) =
    (case row_of dl_id (dl_id l) t of
       None \<Rightarrow> Inl ErrDeployLogNotRunning
     | Some r \<Rightarrow> if dl_status r = DeployLogRunning then Inr () else Inl ErrDeployLogNotRunning)"
  unfolding log_Update_def by (rule update_running_ok [OF assms]) (simp add: running_log_def)

lemma log_Update_row:
  "row_of dl_id j (snd (log_Update flt flt2 l t)) =
    (case flt of Some e \<Rightarrow> row_of dl_id j t
     | None \<Rightarrow> map_option (\<lambda>r. if j = dl_id l \<and> dl_status r = DeployLogRunning then l else r) (row_of dl_id j t))"
  unfolding log_Update_def
  by (subst update_running_row)
    (auto simp: running_log_def split: option.splits dest: row_of_SomeD intro!: option.map_cong)

text \<open>The log writes as one family, to state what holds of all of them.\<close>

datatype log_write =
    WUpdate fault fault deployment_log
  | WExtendDeadline fault fault string gtime
  | WUpdateRunningOutput fault fault string string

fun apply_write :: "log_write \<Rightarrow> logs \<Rightarrow> (repo_error + unit) \<times> logs" where
  "apply_write (WUpdate flt flt2 l) t = log_Update flt flt2 l t"
| "apply_write (WExtendDeadline flt flt2 i d) t = log_ExtendDeadline flt flt2 i d t"
| "apply_write (WUpdateRunningOutput flt flt2 i out) t = log_UpdateRunningOutput flt flt2 i out t"

lemma apply_write_closed_row:
  assumes "row_of dl_id i t = Some l" and "dl_status l \<noteq> DeployLogRunning"
  shows "row_of dl_id i (snd (apply_write w t)) = Some l"
proof (cases w)
  case (WUpdate flt flt2 l')
  with assms show ?thesis by (simp add: log_Update_row split: option.splits)
next
  case (WExtendDeadline flt flt2 i' d)
  with assms show ?thesis
    by (simp add: log_ExtendDeadline_def update_running_row running_log_def split: option.splits)
next
  case (WUpdateRunningOutput flt flt2 i' out)
  with assms show ?thesis
    by (simp add: log_UpdateRunningOutput_def update_running_row running_log_def split: option.splits)
qed

fun apply_writes :: "log_write list \<Rightarrow> logs \<Rightarrow> logs" where
  "apply_writes [] t = t"
| "apply_writes (w # ws) t = apply_writes ws (snd (apply_write w t))"

text \<open>One writer that ends log \<open>i\<close> with a final state.\<close>

definition close_run :: "string \<Rightarrow> fault \<times> fault \<times> deployment_log \<Rightarrow> logs \<Rightarrow> bool \<times> logs" where
  "close_run i c t =
     (let l = snd (snd c) in
      if dl_id l = i \<and> dl_status l \<noteq> DeployLogRunning
      then (let res = log_Update (fst c) (fst (snd c)) l t in (\<exists>u. fst res = Inr u, snd res))
      else (False, t))"

definition log_open :: "string \<Rightarrow> logs \<Rightarrow> bool" where
  "log_open i t \<longleftrightarrow> (\<exists>l. row_of dl_id i t = Some l \<and> dl_status l = DeployLogRunning)"

lemma log_Update_wins:
  assumes "keyed dl_id t" and "fst (log_Update flt flt2 l t) = Inr u"
  shows "flt = None \<and> log_open (dl_id l) t"
proof -
  have flt: "flt = None"
    using assms(2) by (cases flt) (auto simp: log_Update_def)
  have "filter (running_log (dl_id l)) t \<noteq> [] \<or> rows_changed (running_log (dl_id l)) (\<lambda>r. l\<lparr>dl_id := dl_id r\<rparr>) t > 0"
  proof (cases "rows_changed (running_log (dl_id l)) (\<lambda>r. l\<lparr>dl_id := dl_id r\<rparr>) t = 0")
    case True
    then have "sql_update (running_log (dl_id l)) (\<lambda>r. l\<lparr>dl_id := dl_id r\<rparr>) t = t"
      by (rule rows_changed_0_update)
    with assms(2) True flt show ?thesis
      by (auto simp: log_Update_def update_running_def Let_def split: option.splits if_splits)
  qed simp
  then have "\<exists>r\<in>set t. running_log (dl_id l) r"
    by (auto simp: rows_changed_def filter_empty_conv)
  with flt show ?thesis
    by (auto simp: log_open_def running_log_def row_of_Some_iff [OF assms(1)])
qed

interpretation log_close: one_winner "close_run i" "log_open i" "keyed dl_id"
proof
  fix s :: logs and c :: "fault \<times> fault \<times> deployment_log"
  assume k: "keyed dl_id s"
  show "fst (close_run i c s) \<Longrightarrow> log_open i s"
    using log_Update_wins [OF k] by (auto simp: close_run_def Let_def split: if_splits)
  show "fst (close_run i c s) \<Longrightarrow> \<not> log_open i (snd (close_run i c s))"
    using log_Update_wins [OF k]
    by (fastforce simp: close_run_def Let_def log_open_def log_Update_row split: if_splits option.splits)
  show "\<not> fst (close_run i c s) \<Longrightarrow> snd (close_run i c s) = s"
  proof (cases "fst (log_Update (fst c) (fst (snd c)) (snd (snd c)) s)")
    case (Inl e)
    then show ?thesis
      by (auto simp: close_run_def Let_def log_Update_def dest: update_running_fail_keeps)
  qed (auto simp: close_run_def Let_def)
  show "keyed dl_id (snd (close_run i c s))"
    using k by (simp add: close_run_def Let_def keyed_log_Update)
qed


section \<open>Example data\<close>

definition example_codec :: cursor_codec where
  "example_codec = \<lparr>b64_encode = id, b64_decode = Some,
     fmt_time = (\<lambda>ts. (if ts < 0 then CHR ''-'' else CHR ''+'') # replicate (nat \<bar>ts\<bar>) (CHR ''1'')),
     parse_time = (\<lambda>s. case s of [] \<Rightarrow> None
                        | x # ds \<Rightarrow> Some (if x = CHR ''-'' then - int (length ds) else int (length ds)))\<rparr>"

lemma codec_ok_example: "codec_ok example_codec"
  by (simp add: codec_ok_def example_codec_def)

definition example_log :: "string \<Rightarrow> gtime \<Rightarrow> string \<Rightarrow> deployment_log" where
  "example_log i ts st = zero_log\<lparr>dl_id := i, dl_stack_instance_id := ''i1'', dl_action := DeployActionDeploy,
     dl_status := st, dl_started_at := ts\<rparr>"

lemma example_log_simps [simp]:
  "dl_id (example_log i ts st) = i" "dl_stack_instance_id (example_log i ts st) = ''i1''"
  "dl_action (example_log i ts st) = DeployActionDeploy" "dl_status (example_log i ts st) = st"
  "dl_started_at (example_log i ts st) = ts" "dl_completed_at (example_log i ts st) = None"
  "dl_deadline_at (example_log i ts st) = None" "dl_replica_id (example_log i ts st) = []"
  "dl_user_id (example_log i ts st) = []"
  by (simp_all add: example_log_def zero_log_def)

section \<open>Keyset order and cursors\<close>

lemma select_columns_key [simp]:
  "dl_started_at (select_columns f l) = dl_started_at l" "dl_id (select_columns f l) = dl_id l"
  by (simp_all add: select_columns_def deployLogSummaryColumns_def)

definition log_key :: "deployment_log \<Rightarrow> gtime \<times> string" where
  "log_key l = (dl_started_at l, dl_id l)"

lemma before_cursor_key: "before_cursor (dl_started_at k) (dl_id k) l \<longleftrightarrow> log_key l < log_key k"
  by (auto simp: before_cursor_def log_key_def less_prod_def')

lemma keyset_order_filter: "keyset_order (filter p t) = filter p (keyset_order t)"
  by (simp add: keyset_order_def rev_filter [symmetric] filter_sort)

lemma set_keyset_order [simp]: "set (keyset_order t) = set t"
  by (simp add: keyset_order_def)

lemma length_keyset_order [simp]: "length (keyset_order t) = length t"
  by (simp add: keyset_order_def)

lemma keyset_order_strict:
  assumes "keyed dl_id t"
  shows "sorted_wrt (\<lambda>a b. log_key b < log_key a) (keyset_order t)"
proof -
  let ?s = "sort_key log_key t"
  have "distinct (map dl_id t)" using assms by (simp add: keyed_def)
  then have "distinct t" "inj_on dl_id (set t)" by (auto simp: distinct_map)
  then have "inj_on log_key (set t)"
    by (auto simp: inj_on_def log_key_def)
  then have "distinct (map log_key ?s)"
    using \<open>distinct t\<close> by (simp add: distinct_map)
  moreover have "sorted (map log_key ?s)" by simp
  ultimately have "sorted_wrt (<) (map log_key ?s)" by (simp add: strict_sorted_iff)
  then have "sorted_wrt (\<lambda>a b. log_key a < log_key b) ?s" by (simp add: sorted_wrt_map)
  then show ?thesis
    by (simp add: keyset_order_def log_key_def [abs_def] sorted_wrt_rev)
qed

lemma filter_below_drop:
  assumes "sorted_wrt (\<lambda>a b. log_key b < log_key a) s" and "k < length s"
  shows "filter (\<lambda>l. log_key l < log_key (s ! k)) s = drop (Suc k) s"
  using assms
proof (induction s arbitrary: k)
  case Nil
  then show ?case by simp
next
  case (Cons a s)
  show ?case
  proof (cases k)
    case 0
    with Cons.prems show ?thesis by (auto simp: filter_id_conv)
  next
    case (Suc j)
    with Cons.prems have "log_key (s ! j) < log_key a" by simp
    with Suc Cons show ?thesis by (auto simp: not_less_iff_gr_or_eq)
  qed
qed

lemma splitN2_sep: "sep \<notin> set a \<Longrightarrow> splitN2 sep (a @ sep # b) = [a, b]"
  by (simp add: splitN2_def takeWhile_append dropWhile_append)

lemma decode_encode:
  assumes "codec_ok c" and "i \<noteq> []"
  shows "decodeDeployLogCursor c (encodeDeployLogCursor c ts i) = Inr (ts, i)"
  using assms by (simp add: decodeDeployLogCursor_def encodeDeployLogCursor_def codec_ok_def splitN2_sep)

lemma encode_nonempty: "codec_ok c \<Longrightarrow> encodeDeployLogCursor c ts i \<noteq> []"
  by (simp add: encodeDeployLogCursor_def codec_ok_def)

lemma page_limit_bounds: "0 < page_limit n \<and> page_limit n \<le> 100"
  by (auto simp: page_limit_def MaxDeployLogPageSize_def)

text \<open>The page a cursor asks for is the next stretch of the ordered history.\<close>

lemma cursor_page:
  assumes c: "codec_ok c" and k: "keyed dl_id t" and ids: "\<forall>l\<in>set t. dl_id l \<noteq> []"
    and s: "s = keyset_order (filter (base_query f) t)" and n: "n < length s"
    and cur: "df_cursor f = encodeDeployLogCursor c (dl_started_at (s ! n)) (dl_id (s ! n))"
    and m: "m = page_limit (df_limit f)"
  shows "log_ListByInstancePaginated c None flt2 f t =
    Inr \<lparr>dr_data = map (select_columns f) (take m (drop (Suc n) s)), dr_total = -1,
         dr_next_cursor = (if m < length s - Suc n
           then encodeDeployLogCursor c (dl_started_at (s ! (n + m))) (dl_id (s ! (n + m))) else [])\<rparr>"
proof -
  have m0: "0 < m" using page_limit_bounds m by simp
  have "s ! n \<in> set (filter (base_query f) t)" using n s by (metis nth_mem set_keyset_order)
  then have "dl_id (s ! n) \<noteq> []" using ids by auto
  then have dec: "decodeDeployLogCursor c (df_cursor f) = Inr (dl_started_at (s ! n), dl_id (s ! n))"
    using c cur by (simp add: decode_encode)
  have "keyset_order (filter (before_cursor (dl_started_at (s ! n)) (dl_id (s ! n))) (filter (base_query f) t))
      = filter (\<lambda>l. log_key l < log_key (s ! n)) s"
    by (simp add: keyset_order_filter s before_cursor_key [abs_def] del: filter_filter)
  also have "\<dots> = drop (Suc n) s"
    using keyset_order_strict [OF keyed_filter [OF k]] n by (simp add: filter_below_drop s)
  finally have rows: "keyset_order (filter (before_cursor (dl_started_at (s ! n)) (dl_id (s ! n)))
      (filter (base_query f) t)) = drop (Suc n) s" .
  from arg_cong [OF rows, of length]
  have len: "length (filter (before_cursor (dl_started_at (s ! n)) (dl_id (s ! n)))
      (filter (base_query f) t)) = length s - Suc n"
    by (simp del: filter_filter)
  have "df_cursor f \<noteq> []" using cur encode_nonempty [OF c] by simp
  moreover have "take m (map (select_columns f) (take (m + 1) (drop (Suc n) s))) ! (m - 1) =
      select_columns f (s ! (n + m))" if "m < length s - Suc n"
    using that m0 by simp
  ultimately show ?thesis
    using dec rows len m0
    by (auto simp: log_ListByInstancePaginated_def Let_def m [symmetric] take_map min_def
        simp del: filter_filter)
qed

lemma cursor_irrelevant [simp]:
  "base_query (f\<lparr>df_cursor := x\<rparr>) = base_query f"
  "select_columns (f\<lparr>df_cursor := x\<rparr>) = select_columns f"
  by (auto simp: base_query_def select_columns_def fun_eq_iff)

lemma walk_from:
  assumes c: "codec_ok c" and k: "keyed dl_id t" and ids: "\<forall>l\<in>set t. dl_id l \<noteq> []"
    and s: "s = keyset_order (filter (base_query f) t)" and n: "n < length s"
    and cur: "df_cursor f = encodeDeployLogCursor c (dl_started_at (s ! n)) (dl_id (s ! n))"
    and fuel: "length s - Suc n < fuel"
  shows "walk_pages c fuel f t = Some (map (select_columns f) (drop (Suc n) s))"
  using s n cur fuel
proof (induction fuel arbitrary: f n)
  case 0
  then show ?case by simp
next
  case (Suc fuel)
  let ?m = "page_limit (df_limit f)"
  have m0: "0 < ?m" using page_limit_bounds by simp
  note page = cursor_page [OF c k ids Suc.prems(1-3) refl, of None]
  show ?case
  proof (cases "?m < length s - Suc n")
    case True
    let ?f = "f\<lparr>df_cursor := encodeDeployLogCursor c (dl_started_at (s ! (n + ?m))) (dl_id (s ! (n + ?m)))\<rparr>"
    have "walk_pages c fuel ?f t = Some (map (select_columns ?f) (drop (Suc (n + ?m)) s))"
      using True Suc.prems(1,4) m0 by (intro Suc.IH) auto
    moreover have "take ?m (drop (Suc n) s) @ drop (Suc (n + ?m)) s = drop (Suc n) s"
      by (metis add.commute add_Suc_right append_take_drop_id drop_drop)
    ultimately show ?thesis
      using True page encode_nonempty [OF c] by (simp add: map_append [symmetric] del: map_append)
  next
    case False
    with page show ?thesis by simp
  qed
qed

text \<open>C23. The history, read page by page along \<open>next_cursor\<close> from the first page on, is the whole
  history: every log of the instance that matches the filters, once, newest first, ties broken by
  the identifier, whatever the page size; and the walk ends.\<close>

theorem history_walk_complete:
  assumes c: "codec_ok c" and k: "keyed dl_id t" and ids: "\<forall>l\<in>set t. dl_id l \<noteq> []"
    and f: "df_cursor f = []" "df_offset f = 0" and fuel: "length t < fuel"
  shows "walk_pages c fuel f t = Some (map (select_columns f) (keyset_order (filter (base_query f) t)))"
proof -
  define s where s: "s = keyset_order (filter (base_query f) t)"
  let ?m = "page_limit (df_limit f)"
  have m0: "0 < ?m" using page_limit_bounds by simp
  have len: "length s = length (filter (base_query f) t)" by (simp add: s)
  obtain fu where fu: "fuel = Suc fu" using fuel by (cases fuel) auto
  have le: "length s \<le> length t" by (simp add: s)
  show ?thesis
  proof (cases "?m < length s")
    case True
    then have last: "last (take ?m s) = s ! (?m - 1)" using m0 by (subst last_conv_nth) auto
    let ?f = "f\<lparr>df_cursor := encodeDeployLogCursor c (dl_started_at (s ! (?m - 1))) (dl_id (s ! (?m - 1)))\<rparr>"
    have "walk_pages c fu ?f t = Some (map (select_columns ?f) (drop (Suc (?m - 1)) s))"
      using True m0 fuel fu le by (intro walk_from [OF c k ids]) (simp_all add: s [symmetric])
    moreover have "log_ListByInstancePaginated c None None f t =
        Inr \<lparr>dr_data = map (select_columns f) (take ?m s), dr_total = int (length s),
             dr_next_cursor = df_cursor ?f\<rparr>"
      using True m0 f last by (auto simp: log_ListByInstancePaginated_def Let_def s [symmetric] len [symmetric] last_map)
    ultimately show ?thesis
      using m0 encode_nonempty [OF c] by (simp add: fu s [symmetric] map_append [symmetric] del: map_append)
  next
    case False
    then have "log_ListByInstancePaginated c None None f t =
        Inr \<lparr>dr_data = map (select_columns f) s, dr_total = int (length s), dr_next_cursor = []\<rparr>"
      using f by (auto simp: log_ListByInstancePaginated_def Let_def s [symmetric] len [symmetric])
    then show ?thesis by (simp add: fu s [symmetric])
  qed
qed

theorem history_walk_complete_witness:
  "walk_pages example_codec 4
      \<lparr>df_instance_id = ''i1'', df_cursor = [], df_actions = [], df_statuses = [], df_limit = 1, df_offset = 0, df_summary = False\<rparr>
      [example_log ''a'' 1 DeployLogSuccess, example_log ''c'' 2 DeployLogSuccess, example_log ''b'' 2 DeployLogSuccess] =
    Some [example_log ''c'' 2 DeployLogSuccess, example_log ''b'' 2 DeployLogSuccess, example_log ''a'' 1 DeployLogSuccess]"
  using history_walk_complete [OF codec_ok_example,
      of "[example_log ''a'' 1 DeployLogSuccess, example_log ''c'' 2 DeployLogSuccess, example_log ''b'' 2 DeployLogSuccess]"
         "\<lparr>df_instance_id = ''i1'', df_cursor = [], df_actions = [], df_statuses = [], df_limit = 1, df_offset = 0, df_summary = False\<rparr>" 4]
  by (simp add: keyed_def base_query_def keyset_order_def select_columns_def cong: if_cong)

section \<open>Properties of the conditional writes\<close>

text \<open>C4. A deployment log that has ended never changes again: no sequence of updates, deadline
  extensions and output writes, by whatever replicas and with whatever database failures, changes
  any column of its row.\<close>

theorem closed_log_immutable:
  assumes "row_of dl_id i t = Some l" and "dl_status l \<noteq> DeployLogRunning"
  shows "row_of dl_id i (apply_writes ws t) = Some l"
  using assms by (induction ws arbitrary: t) (simp_all add: apply_write_closed_row)

theorem closed_log_immutable_witness:
  "row_of dl_id ''a'' (apply_writes [WUpdate None None (example_log ''a'' 9 DeployLogError), WExtendDeadline None None ''a'' 7]
      [example_log ''a'' 1 DeployLogSuccess]) = Some (example_log ''a'' 1 DeployLogSuccess)"
  by (rule closed_log_immutable) simp_all

text \<open>Of any number of writers that end the same deployment log with a final state, at most one
  succeeds.\<close>

theorem log_closed_at_most_once:
  assumes "keyed dl_id t"
  shows "winners (close_run i) ws t \<le> 1"
  using assms by (rule log_close.at_most_one)

theorem log_closed_at_most_once_witness:
  "winners (close_run ''a'') [(None, None, example_log ''a'' 1 DeployLogSuccess), (None, None, example_log ''a'' 1 DeployLogError)]
     [example_log ''a'' 1 DeployLogRunning] \<le> 1"
  by (rule log_closed_at_most_once) (simp add: keyed_def)

text \<open>Extending a deadline never shortens it and touches nothing else: when the write succeeds
  the log is running and its deadline afterwards is the later of the stored and the requested one,
  and when the log is not running nothing changes and the caller is told so.\<close>

theorem ExtendDeadline_max:
  assumes "keyed dl_id t" and "row_of dl_id i t = Some l"
  shows "log_ExtendDeadline None None i d t =
    (if dl_status l = DeployLogRunning
     then (Inr (), sql_update (\<lambda>r. dl_id r = i) (\<lambda>r. r\<lparr>dl_deadline_at :=
             Some (case dl_deadline_at r of None \<Rightarrow> d | Some e \<Rightarrow> max d e)\<rparr>) t)
     else (Inl ErrDeployLogNotRunning, t))"
proof -
  let ?x = "\<lambda>r. case dl_deadline_at r of None \<Rightarrow> True | Some e \<Rightarrow> e < d"
  let ?f = "\<lambda>r. r\<lparr>dl_deadline_at := Some d\<rparr>"
  have same: "r = l" if "r \<in> set t" "dl_id r = i" for r
    using assms that by (metis row_of_Some_iff option.inject)
  have res: "fst (log_ExtendDeadline None None i d t) =
      (if dl_status l = DeployLogRunning then Inr () else Inl ErrDeployLogNotRunning)"
    unfolding log_ExtendDeadline_def
    by (subst update_running_ok [OF assms(1)]) (simp_all add: assms(2) running_log_def)
  have tab: "snd (log_ExtendDeadline None None i d t) = sql_update (\<lambda>r. running_log i r \<and> ?x r) ?f t"
    by (simp add: log_ExtendDeadline_def update_running_table)
  show ?thesis
  proof (cases "dl_status l = DeployLogRunning")
    case True
    have "sql_update (\<lambda>r. running_log i r \<and> ?x r) ?f t =
        sql_update (\<lambda>r. dl_id r = i) (\<lambda>r. r\<lparr>dl_deadline_at :=
             Some (case dl_deadline_at r of None \<Rightarrow> d | Some e \<Rightarrow> max d e)\<rparr>) t"
      unfolding sql_update_def
    proof (rule map_cong [OF refl], goal_cases)
      case (1 r)
      with same True show ?case
        by (cases "dl_deadline_at r") (auto simp: running_log_def max_def)
    qed
    with res tab True show ?thesis by (simp add: prod_eq_iff)
  next
    case False
    then have "sql_update (\<lambda>r. running_log i r \<and> ?x r) ?f t = t"
      using same by (intro sql_update_id) (auto simp: running_log_def)
    with res tab False show ?thesis by (simp add: prod_eq_iff)
  qed
qed

theorem ExtendDeadline_max_witness:
  "log_ExtendDeadline None None ''a'' 7 [example_log ''a'' 1 DeployLogError] =
     (Inl ErrDeployLogNotRunning, [example_log ''a'' 1 DeployLogError])"
  using ExtendDeadline_max [of "[example_log ''a'' 1 DeployLogError]" "''a''" "example_log ''a'' 1 DeployLogError" 7]
  by (simp add: keyed_def)

section \<open>Statistics and highlights\<close>

lemma put_group_summaries:
  assumes "\<And>k ls. ident (mk k ls) = k"
  shows "put_rows ident id (group_summaries key mk rows) m x =
    (if x \<in> key ` set rows then Some (mk x (filter (\<lambda>l. key l = x) rows)) else m x)"
proof -
  let ?g = "group_summaries key mk rows"
  have keyed: "keyed ident ?g"
    by (simp add: keyed_def group_summaries_def comp_def assms)
  have "row_of ident x ?g = (if x \<in> key ` set rows then Some (mk x (filter (\<lambda>l. key l = x) rows)) else None)"
  proof (cases "x \<in> key ` set rows")
    case True
    then show ?thesis
      by (subst row_of_Some_iff [OF keyed, THEN iffD2]) (auto simp: group_summaries_def assms)
  next
    case False
    then show ?thesis by (auto simp: row_of_None_iff group_summaries_def assms)
  qed
  then show ?thesis by (simp add: put_rows_keyed [OF keyed])
qed

text \<open>The batch statistics agree with the single-instance statistics: for every list of
  instance identifiers, of whatever length and with whatever duplicates, the batch has an entry
  for exactly the requested instances with a log in the 90-day window, and the entry is what
  \<open>SummarizeByInstance\<close> returns for that instance.\<close>

theorem SummarizeBatch_exact:
  "log_SummarizeBatch (\<lambda>_. None) now ids t =
     Inr (\<lambda>i. if i \<in> set ids \<and> (\<exists>l\<in>set t. dl_stack_instance_id l = i \<and> summary_cutoff now \<le> dl_started_at l)
              then Some (projr (log_SummarizeByInstance None None now i t)) else None)"
proof -
  let ?has = "\<lambda>i. \<exists>l\<in>set t. dl_stack_instance_id l = i \<and> summary_cutoff now \<le> dl_started_at l"
  let ?q = "\<lambda>c m. summarizeBatchChunk (summary_cutoff now) t c m"
  have step: "?q c m i = (if i \<in> set c then (if ?has i
       then Some (projr (log_SummarizeByInstance None None now i t)) else m i) else m i)" for c m i
  proof -
    have rows: "filter (\<lambda>l. dl_stack_instance_id l = i)
          (filter (\<lambda>l. dl_stack_instance_id l \<in> set c \<and> summary_cutoff now \<le> dl_started_at l) t) =
        filter (\<lambda>l. dl_stack_instance_id l = i \<and> summary_cutoff now \<le> dl_started_at l) t" if "i \<in> set c"
      using that by (auto intro: filter_cong)
    have same: "batch_summary i (filter (\<lambda>l. dl_stack_instance_id l = i \<and> summary_cutoff now \<le> dl_started_at l) t) =
        projr (log_SummarizeByInstance None None now i t)"
      by (simp add: batch_summary_def log_SummarizeByInstance_def query_def Let_def conj_ac)
    have "?q c m i = (if i \<in> dl_stack_instance_id ` set (filter (\<lambda>l. dl_stack_instance_id l \<in> set c
            \<and> summary_cutoff now \<le> dl_started_at l) t)
        then Some (batch_summary i (filter (\<lambda>l. dl_stack_instance_id l = i)
          (filter (\<lambda>l. dl_stack_instance_id l \<in> set c \<and> summary_cutoff now \<le> dl_started_at l) t))) else m i)"
      unfolding summarizeBatchChunk_def by (rule put_group_summaries) (simp add: batch_summary_def)
    then show ?thesis using rows same by (cases "i \<in> set c") (auto simp del: filter_filter)
  qed
  have "foldl (\<lambda>m c. ?q c m) Map.empty (chunks 500 ids) i =
      (if i \<in> set ids \<and> ?has i then Some (projr (log_SummarizeByInstance None None now i t)) else None)" for i
  proof -
    let ?g = "\<lambda>y. if ?has i then Some (projr (log_SummarizeByInstance None None now i t)) else y"
    have "foldl (\<lambda>m c. ?q c m) Map.empty (chunks 500 ids) i =
        (if i \<in> set (concat (chunks 500 ids)) then ?g None else None)"
      by (rule fold_chunks) (auto simp: step)
    then show ?thesis by (simp add: concat_chunks)
  qed
  then show ?thesis
    by (cases "ids = []") (auto simp: log_SummarizeBatch_def chunk_loop_ok)
qed

lemma keyset_order_hd:
  assumes "keyset_order t = l # ls"
  shows "l \<in> set t \<and> (\<forall>r\<in>set t. dl_started_at r \<le> dl_started_at l)"
proof -
  let ?k = "\<lambda>l. (dl_started_at l, dl_id l)"
  have "set t = set (l # ls)" using assms set_keyset_order by metis
  moreover have "sorted (map ?k (rev (l # ls)))"
    using assms by (simp add: keyset_order_def flip: assms)
  ultimately show ?thesis
    by (auto simp: sorted_append less_eq_prod_def)
qed

lemma newestSummaryRow_None:
  "newestSummaryRow None p t = Inr None \<longleftrightarrow> (\<forall>l\<in>set t. \<not> p l)"
proof -
  have "keyset_order (filter p t) = [] \<longleftrightarrow> filter p t = []"
    by (metis length_0_conv length_keyset_order)
  then show ?thesis
    by (auto simp: newestSummaryRow_def query_def filter_empty_conv split: list.splits)
qed

lemma newestSummaryRow_Some:
  assumes "newestSummaryRow None p t = Inr (Some s)"
  obtains l where "l \<in> set t" "p l" "s = deployLogSummaryColumns l"
    "\<forall>r\<in>set t. p r \<longrightarrow> dl_started_at r \<le> dl_started_at l"
proof -
  from assms obtain l ls where "keyset_order (filter p t) = l # ls" "s = deployLogSummaryColumns l"
    by (auto simp: newestSummaryRow_def query_def split: list.splits)
  moreover from keyset_order_hd [OF this(1)]
  have "l \<in> set t \<and> p l \<and> (\<forall>r\<in>set t. p r \<longrightarrow> dl_started_at r \<le> dl_started_at l)" by simp
  ultimately show ?thesis using that by blast
qed

lemma newestSummaryRow_total: "\<exists>r. newestSummaryRow None p t = Inr r"
  by (simp add: newestSummaryRow_def query_def)

lemma summary_columns_simps [simp]:
  "dl_started_at (deployLogSummaryColumns l) = dl_started_at l"
  "dl_status (deployLogSummaryColumns l) = dl_status l"
  "dl_action (deployLogSummaryColumns l) = dl_action l"
  "dl_id (deployLogSummaryColumns l) = dl_id l"
  by (simp_all add: deployLogSummaryColumns_def)

text \<open>A deploy or rollback of the instance that ended well.\<close>

definition good_deploy :: "string \<Rightarrow> deployment_log \<Rightarrow> bool" where
  "good_deploy i l \<longleftrightarrow> dl_stack_instance_id l = i \<and> dl_action l \<in> {DeployActionDeploy, DeployActionRollback}
     \<and> dl_status l \<in> {DeployLogSuccess, DeployLogPartial}"

definition failed_log :: "string \<Rightarrow> deployment_log \<Rightarrow> bool" where
  "failed_log i l \<longleftrightarrow> dl_stack_instance_id l = i \<and> dl_status l = DeployLogError"

lemma highlights_failure_cases:
  assumes "log_HistoryHighlights None None None None i t = Inr h"
  obtains (fresh) "\<forall>l\<in>set t. \<not> good_deploy i l"
      "newestSummaryRow None (failed_log i) t = Inr (h_latest_failure h)"
    | (after) g where "g \<in> set t" "good_deploy i g"
      "\<forall>r\<in>set t. good_deploy i r \<longrightarrow> dl_started_at r \<le> dl_started_at g"
      "newestSummaryRow None (\<lambda>l. failed_log i l \<and> dl_started_at g < dl_started_at l) t = Inr (h_latest_failure h)"
proof -
  have good: "newestSummaryRow None (\<lambda>l. dl_stack_instance_id l = i \<and> dl_action l \<in> {DeployActionDeploy, DeployActionRollback}
      \<and> dl_status l \<in> {DeployLogSuccess, DeployLogPartial}) t = newestSummaryRow None (good_deploy i) t"
    by (simp add: good_deploy_def [abs_def])
  obtain lg where lg: "newestSummaryRow None (good_deploy i) t = Inr lg"
    using newestSummaryRow_total by blast
  have fail: "newestSummaryRow None (\<lambda>l. dl_stack_instance_id l = i \<and> dl_status l = DeployLogError
      \<and> (case lg of None \<Rightarrow> True | Some g \<Rightarrow> dl_started_at l > dl_started_at g)) t = Inr (h_latest_failure h)"
    using assms lg unfolding log_HistoryHighlights_def good
    by (auto split: sum.splits option.splits if_splits)
  show thesis
  proof (cases lg)
    case None
    with lg fail show ?thesis
      by (intro fresh) (simp_all add: newestSummaryRow_None failed_log_def [abs_def])
  next
    case (Some s)
    with lg obtain g where g: "g \<in> set t" "good_deploy i g" "s = deployLogSummaryColumns g"
      "\<forall>r\<in>set t. good_deploy i r \<longrightarrow> dl_started_at r \<le> dl_started_at g"
      by (auto elim: newestSummaryRow_Some)
    with Some fail show ?thesis by (intro after) (simp_all add: failed_log_def conj_assoc)
  qed
qed

text \<open>The ``latest failure'' banner of the history view is right: it is empty exactly when every
  failed operation of the instance was followed by a deploy or rollback that ended well, and what
  it shows is a failed operation newer than every such deploy or rollback and not older than any
  other failed operation.\<close>

theorem latest_failure_correct:
  assumes "log_HistoryHighlights None None None None i t = Inr h"
  shows "(h_latest_failure h = None \<longleftrightarrow>
      (\<forall>e\<in>set t. failed_log i e \<longrightarrow> (\<exists>g\<in>set t. good_deploy i g \<and> dl_started_at e \<le> dl_started_at g)))
    \<and> (\<forall>s. h_latest_failure h = Some s \<longrightarrow>
      (\<exists>e\<in>set t. s = deployLogSummaryColumns e \<and> failed_log i e
        \<and> (\<forall>r\<in>set t. good_deploy i r \<longrightarrow> dl_started_at r < dl_started_at e)
        \<and> (\<forall>r\<in>set t. failed_log i r \<longrightarrow> dl_started_at r \<le> dl_started_at e)))"
  using assms
proof (cases rule: highlights_failure_cases)
  case fresh
  then show ?thesis
    by (cases "h_latest_failure h") (auto simp: newestSummaryRow_None elim!: newestSummaryRow_Some)
next
  case (after g)
  show ?thesis
  proof (cases "h_latest_failure h")
    case None
    with after(4) have "\<forall>e\<in>set t. failed_log i e \<longrightarrow> dl_started_at e \<le> dl_started_at g"
      by (simp add: newestSummaryRow_None not_less)
    with None after(1,2) show ?thesis by auto
  next
    case (Some s)
    with after(4) obtain e where e: "e \<in> set t" "failed_log i e" "dl_started_at g < dl_started_at e"
      "s = deployLogSummaryColumns e"
      "\<forall>r\<in>set t. failed_log i r \<and> dl_started_at g < dl_started_at r \<longrightarrow> dl_started_at r \<le> dl_started_at e"
      by (auto elim: newestSummaryRow_Some)
    have good: "\<forall>r\<in>set t. good_deploy i r \<longrightarrow> dl_started_at r < dl_started_at e"
      using after(3) e(3) by fastforce
    have top: "\<forall>r\<in>set t. failed_log i r \<longrightarrow> dl_started_at r \<le> dl_started_at e"
      using e(3,5) by fastforce
    from good e(1,2) have "\<not> (\<forall>e\<in>set t. failed_log i e \<longrightarrow> (\<exists>g\<in>set t. good_deploy i g \<and> dl_started_at e \<le> dl_started_at g))"
      by (auto simp: not_le)
    with Some e(1,2,4) good top show ?thesis by auto
  qed
qed

theorem latest_failure_correct_witness:
  "h_latest_failure (projr (log_HistoryHighlights None None None None ''i1''
      [example_log ''a'' 1 DeployLogError, example_log ''b'' 2 DeployLogSuccess])) = None"
  using latest_failure_correct [of "''i1''" "[example_log ''a'' 1 DeployLogError, example_log ''b'' 2 DeployLogSuccess]"
      "projr (log_HistoryHighlights None None None None ''i1''
        [example_log ''a'' 1 DeployLogError, example_log ''b'' 2 DeployLogSuccess])"]
  by (simp add: log_HistoryHighlights_def newestSummaryRow_def query_def keyset_order_def)

end
