(* ===== verification/GoStrings.thy ===== *)
theory GoStrings
  imports Prelude
begin

text \<open>
  The string functions of Go's standard library that the modelled code uses: \<open>strings.HasPrefix\<close>,
  \<open>strings.Contains\<close>, \<open>strings.ContainsAny\<close>, \<open>strings.Index\<close>, \<open>strings.Cut\<close>, \<open>strings.Join\<close>, \<open>strings.Fields\<close>,
  \<open>strings.TrimRight\<close> (one byte), \<open>strings.TrimSpace\<close> and \<open>strings.ToLower\<close> (ASCII), and the verbs
  \<open>%d\<close> and \<open>%q\<close> of \<open>fmt\<close> and \<open>time.Duration.String\<close>. A Go string is a list of bytes.
\<close>

definition HasPrefix :: "string \<Rightarrow> string \<Rightarrow> bool" where
  "HasPrefix s p \<longleftrightarrow> take (length p) s = p"

definition TrimPrefix :: "string \<Rightarrow> string \<Rightarrow> string" where
  "TrimPrefix s p = (if HasPrefix s p then drop (length p) s else s)"

fun Contains :: "string \<Rightarrow> string \<Rightarrow> bool" where
  "Contains [] sub = (sub = [])"
| "Contains (x # xs) sub = (HasPrefix (x # xs) sub \<or> Contains xs sub)"

text \<open>\<open>strings.Index(s, ":")\<close>, the position of the first occurrence of a byte.\<close>

fun IndexByte :: "char \<Rightarrow> string \<Rightarrow> nat option" where
  "IndexByte c [] = None"
| "IndexByte c (x # xs) = (if x = c then Some 0 else map_option Suc (IndexByte c xs))"

fun Join :: "string list \<Rightarrow> string \<Rightarrow> string" where
  "Join [] sep = []"
| "Join [x] sep = x"
| "Join (x # y # xs) sep = x @ sep @ Join (y # xs) sep"

definition is_space :: "char \<Rightarrow> bool" where
  "is_space c \<longleftrightarrow> of_char c \<in> {9, 10, 11, 12, 13, 32 :: nat}"

function Fields :: "string \<Rightarrow> string list" where
  "Fields s =
     (let s' = dropWhile is_space s
      in if s' = [] then []
         else takeWhile (\<lambda>c. \<not> is_space c) s' # Fields (dropWhile (\<lambda>c. \<not> is_space c) s'))"
  by pat_completeness auto
termination
proof (relation "measure length", simp)
  fix s s' :: string
  assume s': "s' = dropWhile is_space s" "s' \<noteq> []"
  then obtain x xs where x: "s' = x # xs" "\<not> is_space x"
    by (metis hd_dropWhile list.exhaust_sel)
  have "length (dropWhile (\<lambda>c. \<not> is_space c) s') \<le> length xs"
    using x by (simp add: length_dropWhile_le)
  also have "length xs < length s"
    using x(1) s'(1) length_dropWhile_le [of is_space s] by simp
  finally show "(dropWhile (\<lambda>c. \<not> is_space c) s', s) \<in> measure length" by simp
qed

declare Fields.simps [simp del]

text \<open>\<open>%d\<close> of a non-negative number.\<close>

fun digits :: "nat \<Rightarrow> string" where
  "digits n = (if n < 10 then [char_of (48 + n)] else digits (n div 10) @ [char_of (48 + n mod 10)])"

declare digits.simps [simp del]

text \<open>
  \<open>%q\<close>: the string in double quotes, with quotes, backslashes and control bytes escaped; the bytes
  of a multi-byte character stay as they are.
\<close>

definition hex_digit :: "nat \<Rightarrow> char" where
  "hex_digit n = (if n < 10 then char_of (48 + n) else char_of (87 + n))"

definition quote_byte :: "char \<Rightarrow> string" where
  "quote_byte c =
     (let n = of_char c :: nat in
      if n = 34 then [char_of (92 :: nat), char_of (34 :: nat)]
      else if n = 92 then [char_of (92 :: nat), char_of (92 :: nat)]
      else if n = 7 then char_of (92 :: nat) # ''a''
      else if n = 8 then char_of (92 :: nat) # ''b''
      else if n = 9 then char_of (92 :: nat) # ''t''
      else if n = 10 then char_of (92 :: nat) # ''n''
      else if n = 11 then char_of (92 :: nat) # ''v''
      else if n = 12 then char_of (92 :: nat) # ''f''
      else if n = 13 then char_of (92 :: nat) # ''r''
      else if n < 32 \<or> n = 127 then char_of (92 :: nat) # ''x'' @ [hex_digit (n div 16), hex_digit (n mod 16)]
      else [c])"

definition go_quote :: "string \<Rightarrow> string" where
  "go_quote s = char_of (34 :: nat) # concat (map quote_byte s) @ [char_of (34 :: nat)]"

definition TrimRight :: "string \<Rightarrow> char \<Rightarrow> string" where
  "TrimRight s c = rev (dropWhile (\<lambda>x. x = c) (rev s))"

definition TrimSpace :: "string \<Rightarrow> string" where
  "TrimSpace s = rev (dropWhile is_space (rev (dropWhile is_space s)))"

definition ContainsAny :: "string \<Rightarrow> string \<Rightarrow> bool" where
  "ContainsAny s cs \<longleftrightarrow> list_ex (\<lambda>c. c \<in> set cs) s"

fun Cut :: "string \<Rightarrow> string \<Rightarrow> (string \<times> string) option" where
  "Cut [] sep = (if sep = [] then Some ([], []) else None)"
| "Cut (x # xs) sep =
     (if HasPrefix (x # xs) sep then Some ([], drop (length sep) (x # xs))
      else map_option (\<lambda>p. (x # fst p, snd p)) (Cut xs sep))"

definition ToLower :: "string \<Rightarrow> string" where
  "ToLower s = map (\<lambda>c. if 65 \<le> (of_char c :: nat) \<and> (of_char c :: nat) \<le> 90 then char_of ((of_char c :: nat) + 32) else c) s"

text \<open>
  \<open>time.Duration.String\<close> of a duration that is not negative: hours, minutes and seconds, or one
  smaller unit below a second; the fraction without trailing zeros.
\<close>

definition pad_zeros :: "nat \<Rightarrow> string \<Rightarrow> string" where
  "pad_zeros n s = replicate (n - length s) (char_of (48 :: nat)) @ s"

definition fraction :: "nat \<Rightarrow> nat \<Rightarrow> string" where
  "fraction places n =
     (if n = 0 then [] else ''.'' @ TrimRight (pad_zeros places (digits n)) (char_of (48 :: nat)))"

definition Duration_String :: "duration \<Rightarrow> string" where
  "Duration_String d =
     (let n = nat d in
      if n = 0 then ''0s''
      else if n < 1000 then digits n @ ''ns''
      else if n < 1000000 then digits (n div 1000) @ fraction 3 (n mod 1000) @ map char_of [194 :: nat, 181] @ ''s''
      else if n < 1000000000 then digits (n div 1000000) @ fraction 6 (n mod 1000000) @ ''ms''
      else (let secs = n div 1000000000; mins = secs div 60
            in (if mins div 60 > 0 then digits (mins div 60) @ ''h'' else [])
               @ (if mins > 0 then digits (mins mod 60) @ ''m'' else [])
               @ digits (secs mod 60) @ fraction 9 (n mod 1000000000) @ ''s''))"

lemma HasPrefix_append [simp]: "HasPrefix (p @ s) p"
  by (simp add: HasPrefix_def)

lemma TrimPrefix_append [simp]: "TrimPrefix (p @ s) p = s"
  by (simp add: TrimPrefix_def)

lemma Contains_Nil [simp]: "Contains s []"
  by (induction s) (simp_all add: HasPrefix_def)

lemma Contains_iff: "Contains s sub \<longleftrightarrow> (\<exists>a b. s = a @ sub @ b)"
proof (induction s)
  case Nil
  then show ?case by auto
next
  case (Cons x xs)
  have "HasPrefix (x # xs) sub \<longleftrightarrow> (\<exists>b. x # xs = sub @ b)"
    unfolding HasPrefix_def by (metis append_eq_conv_conj append_take_drop_id)
  then show ?case using Cons
    by (auto simp: Cons_eq_append_conv)
qed

lemma IndexByte_Some:
  "IndexByte c s = Some i \<Longrightarrow> i < length s \<and> s ! i = c \<and> c \<notin> set (take i s)"
  by (induction s arbitrary: i) (auto split: if_splits)

lemma Fields_no_space: "x \<in> set (Fields s) \<Longrightarrow> x \<noteq> [] \<and> (\<forall>c\<in>set x. \<not> is_space c)"
proof (induction s rule: Fields.induct)
  case (1 s)
  let ?s' = "dropWhile is_space s"
  show ?case
  proof (cases "?s' = []")
    case True
    with 1 show ?thesis by (simp add: Fields.simps [of s])
  next
    case False
    then have "\<not> is_space (hd ?s')" by (simp add: hd_dropWhile)
    with False have "takeWhile (\<lambda>c. \<not> is_space c) ?s' \<noteq> []"
      by (cases ?s') auto
    moreover have "x = takeWhile (\<lambda>c. \<not> is_space c) ?s'
        \<or> x \<in> set (Fields (dropWhile (\<lambda>c. \<not> is_space c) ?s'))"
      using 1(2) False by (auto simp: Fields.simps [of s] Let_def split: if_splits)
    ultimately show ?thesis
      using 1(1) [OF refl False] set_takeWhileD by metis
  qed
qed

lemma HasPrefix_iff: "HasPrefix s p \<longleftrightarrow> (\<exists>r. s = p @ r)"
  unfolding HasPrefix_def by (metis append_eq_conv_conj append_take_drop_id)

lemma TrimRight_idem [simp]: "TrimRight (TrimRight s c) c = TrimRight s c"
  by (simp add: TrimRight_def dropWhile_idem)

lemma TrimRight_prefix: "\<exists>r. s = TrimRight s c @ r"
proof -
  have "rev s = takeWhile (\<lambda>x. x = c) (rev s) @ dropWhile (\<lambda>x. x = c) (rev s)" by simp
  then have "s = rev (dropWhile (\<lambda>x. x = c) (rev s)) @ rev (takeWhile (\<lambda>x. x = c) (rev s))"
    by (metis rev_append rev_rev_ident)
  then show ?thesis unfolding TrimRight_def by blast
qed

lemma TrimRight_last: "TrimRight s c = [] \<or> last (TrimRight s c) \<noteq> c"
  unfolding TrimRight_def using hd_dropWhile [of "\<lambda>x. x = c" "rev s"] by (auto simp: last_rev)

lemma TrimSpace_id: "\<not> list_ex is_space s \<Longrightarrow> TrimSpace s = s"
proof -
  assume "\<not> list_ex is_space s"
  then have "dropWhile is_space s = s" "dropWhile is_space (rev s) = rev s"
    by (auto simp: list_ex_iff dropWhile_eq_self_iff hd_rev)
  then show ?thesis by (simp add: TrimSpace_def)
qed

lemma Cut_Some: "Cut s sep = Some (a, b) \<Longrightarrow> s = a @ sep @ b"
  by (induction s arbitrary: a) (auto simp: HasPrefix_iff split: if_splits)

end
