(* ===== verification/World.thy ===== *)
theory World
  imports DeployLogs GoStrings
begin

text \<open>
  The state the deployer works on and the way it reaches it. The database is a record of tables;
  a process has its own memory (\<open>logActions\<close>, \<open>logTriggers\<close>, the live outputs) and emits events
  (WebSocket messages, hook calls, notifications, audit entries, metrics). Every call of a
  repository names its call site: before the call the other processes may have changed the
  database in any way (\<open>io_env\<close>), and the call may fail (\<open>io_fault\<close>). A failed transaction changes
  nothing (\<open>internal/database/tx_runner.go\<close>).
\<close>

section \<open>Database\<close>

record replica_heartbeat =
  hb_last_seen :: gtime
  hb_id :: string

text \<open>The columns of \<open>stack_definitions\<close> that the instance delete reads.\<close>

record stack_definition =
  sd_id :: string
  sd_name :: string
  sd_description :: string
  sd_owner_id :: string
  sd_source_template_id :: string
  sd_source_template_version :: string
  sd_default_branch :: string
  sd_owner_instance_id :: string
  sd_created_at :: gtime
  sd_updated_at :: gtime

text \<open>A row of a table that belongs to an instance or a definition: its parent and its own key.\<close>

type_synonym child_row = "string \<times> string"

record db =
  d_instances :: instances
  d_logs :: logs
  d_heartbeats :: "replica_heartbeat list"
  d_branch_overrides :: "child_row list"
  d_value_overrides :: "child_row list"
  d_quota_overrides :: "child_row list"
  d_followers :: "child_row list"
  d_action_runs :: "child_row list"
  d_definitions :: "stack_definition list"
  d_chart_configs :: "child_row list"

definition empty_db :: db where
  "empty_db = \<lparr>d_instances = [], d_logs = [], d_heartbeats = [], d_branch_overrides = [],
     d_value_overrides = [], d_quota_overrides = [], d_followers = [], d_action_runs = [],
     d_definitions = [], d_chart_configs = []\<rparr>"

section \<open>Process\<close>

record hook_trigger =
  tr_type :: string
  tr_id :: string
  tr_name :: string

abbreviation TriggerUser :: string where "TriggerUser \<equiv> ''user''"
abbreviation TriggerCleanupPolicy :: string where "TriggerCleanupPolicy \<equiv> ''cleanup-policy''"

record live_output =
  lo_buf :: string
  lo_full :: bool
  lo_dirty :: bool

record interrupt_audit =
  ia_entity_id :: string
  ia_action :: string
  ia_details :: string
  ia_timestamp :: gtime

text \<open>
  What leaves the process: a status message (instance, status, log, error message, action), a log
  line, the deletion of an instance, a hook call (event, instance snapshot, log, start time,
  metadata, trigger), a notification (instance, type, title, text, trigger, site URL), an audit
  entry, a count of the interrupt metric (action, event) and the message that an instance expired.
\<close>

datatype event =
    StatusMsg string string string string string
  | LogLine string string string
  | InstanceDeletedMsg string string
  | HookFired string stack_instance string gtime "(string \<times> string) list" "hook_trigger option"
  | Notified string string string string "hook_trigger option" string
  | Audited interrupt_audit
  | InterruptMetric string string
  | InstanceExpiredMsg stack_instance

record world =
  w_db :: db
  w_log_actions :: "string \<rightharpoonup> string"
  w_triggers :: "string \<rightharpoonup> hook_trigger"
  w_live :: "(string \<times> live_output) list"
  w_events :: "event list"

definition emit :: "event \<Rightarrow> world \<Rightarrow> world" where
  "emit e w = w\<lparr>w_events := w_events w @ [e]\<rparr>"

section \<open>Calls\<close>

record io =
  io_now :: gtime
  io_fault :: "string \<Rightarrow> fault"
  io_env :: "string \<Rightarrow> db \<Rightarrow> db"

definition quiet :: "gtime \<Rightarrow> io" where
  "quiet now = \<lparr>io_now = now, io_fault = (\<lambda>_. None), io_env = (\<lambda>_ d. d)\<rparr>"

text \<open>A read, a write and a transaction at a call site.\<close>

definition db_read :: "io \<Rightarrow> string \<Rightarrow> (fault \<Rightarrow> db \<Rightarrow> 'r) \<Rightarrow> world \<Rightarrow> 'r \<times> world" where
  "db_read io site f w =
     (let d = io_env io site (w_db w) in (f (io_fault io site) d, w\<lparr>w_db := d\<rparr>))"

definition db_write :: "io \<Rightarrow> string \<Rightarrow> (db \<Rightarrow> 'r \<times> db) \<Rightarrow> world \<Rightarrow> 'r \<times> world" where
  "db_write io site f w =
     (let res = f (io_env io site (w_db w)) in (fst res, w\<lparr>w_db := snd res\<rparr>))"

definition RunInTx :: "fault \<Rightarrow> (repo_error \<Rightarrow> 'e) \<Rightarrow> (db \<Rightarrow> ('e + 'a) \<times> db) \<Rightarrow> db \<Rightarrow> ('e + 'a) \<times> db" where
  "RunInTx flt wrap body d =
     (case body d of
        (Inl e, _) \<Rightarrow> (Inl e, d)
      | (Inr x, d') \<Rightarrow>
          (case flt of
             Some c \<Rightarrow> (Inl (wrap (DatabaseError ''transaction'' c)), d)
           | None \<Rightarrow> (Inr x, d')))"

definition in_tx :: "io \<Rightarrow> string \<Rightarrow> (repo_error \<Rightarrow> 'e) \<Rightarrow> (db \<Rightarrow> ('e + 'a) \<times> db) \<Rightarrow> world \<Rightarrow> ('e + 'a) \<times> world" where
  "in_tx io site wrap body = db_write io site (RunInTx (io_fault io site) wrap body)"

text \<open>A statement on one table, as an operation on the database.\<close>

definition on_instances :: "(instances \<Rightarrow> 'r \<times> instances) \<Rightarrow> db \<Rightarrow> 'r \<times> db" where
  "on_instances f d = (let res = f (d_instances d) in (fst res, d\<lparr>d_instances := snd res\<rparr>))"

definition on_logs :: "(logs \<Rightarrow> 'r \<times> logs) \<Rightarrow> db \<Rightarrow> 'r \<times> db" where
  "on_logs f d = (let res = f (d_logs d) in (fst res, d\<lparr>d_logs := snd res\<rparr>))"

text \<open>Two steps of a transaction: the second runs when the first succeeds.\<close>

definition tx_then :: "(db \<Rightarrow> ('e + 'a) \<times> db) \<Rightarrow> ('a \<Rightarrow> db \<Rightarrow> ('e + 'b) \<times> db) \<Rightarrow> db \<Rightarrow> ('e + 'b) \<times> db" where
  "tx_then f g d = (case f d of (Inl e, d') \<Rightarrow> (Inl e, d') | (Inr x, d') \<Rightarrow> g x d')"

definition map_err :: "('e \<Rightarrow> 'f) \<Rightarrow> ('e + 'a) \<times> 's \<Rightarrow> ('f + 'a) \<times> 's" where
  "map_err f res = (case fst res of Inl e \<Rightarrow> Inl (f e) | Inr x \<Rightarrow> Inr x, snd res)"

section \<open>Heartbeats\<close>

text \<open>
  \<open>internal/database/replica_heartbeat_repository.go\<close>. The statements use the clock of the
  database server, passed as \<open>dbnow\<close>; an age is cut to milliseconds (\<open>dbNowMinus\<close>).
\<close>

definition dbNowMinus :: "gtime \<Rightarrow> duration \<Rightarrow> gtime" where
  "dbNowMinus dbnow age = dbnow - (age div 1000000) * 1000000"

definition hb_Beat :: "fault \<Rightarrow> gtime \<Rightarrow> string \<Rightarrow> replica_heartbeat list \<Rightarrow> (db_cause + unit) \<times> replica_heartbeat list" where
  "hb_Beat flt dbnow i t =
     (case flt of
        Some e \<Rightarrow> (Inl e, t)
      | None \<Rightarrow> (Inr (), sql_save hb_id (\<lambda>h. h\<lparr>hb_last_seen := dbnow\<rparr>) \<lparr>hb_last_seen = dbnow, hb_id = i\<rparr> i t))"

definition hb_SeenWithin ::
  "fault \<Rightarrow> gtime \<Rightarrow> string list \<Rightarrow> duration \<Rightarrow> replica_heartbeat list \<Rightarrow> db_cause + (string \<Rightarrow> bool)" where
  "hb_SeenWithin flt dbnow ids maxAge t =
     (if ids = [] then Inr (\<lambda>_. False)
      else case flt of
             Some e \<Rightarrow> Inl e
           | None \<Rightarrow> Inr (\<lambda>i. i \<in> set (map hb_id
               (filter (\<lambda>h. hb_id h \<in> set ids \<and> dbNowMinus dbnow maxAge \<le> hb_last_seen h) t))))"

definition hb_Remove :: "fault \<Rightarrow> string \<Rightarrow> replica_heartbeat list \<Rightarrow> (db_cause + unit) \<times> replica_heartbeat list" where
  "hb_Remove flt i t =
     (case flt of Some e \<Rightarrow> (Inl e, t) | None \<Rightarrow> (Inr (), filter (\<lambda>h. hb_id h \<noteq> i) t))"

definition hb_DeleteOlderThan ::
  "fault \<Rightarrow> gtime \<Rightarrow> duration \<Rightarrow> replica_heartbeat list \<Rightarrow> (db_cause + nat) \<times> replica_heartbeat list" where
  "hb_DeleteOlderThan flt dbnow maxAge t =
     (case flt of
        Some e \<Rightarrow> (Inl e, t)
      | None \<Rightarrow>
          (Inr (length (filter (\<lambda>h. hb_last_seen h < dbNowMinus dbnow maxAge) t)),
           filter (\<lambda>h. \<not> hb_last_seen h < dbNowMinus dbnow maxAge) t))"

text \<open>\<open>staleHeartbeatCond\<close>: the replica has no heartbeat within \<open>staleAfter\<close>.\<close>

definition staleHeartbeatCond :: "gtime \<Rightarrow> duration \<Rightarrow> replica_heartbeat list \<Rightarrow> string \<Rightarrow> bool" where
  "staleHeartbeatCond dbnow staleAfter t replica \<longleftrightarrow>
     \<not> list_ex (\<lambda>h. hb_id h = replica \<and> dbNowMinus dbnow staleAfter \<le> hb_last_seen h) t"

section \<open>Lemmas\<close>

lemma quiet_simps [simp]:
  "io_now (quiet n) = n" "io_fault (quiet n) s = None" "io_env (quiet n) s d = d"
  by (simp_all add: quiet_def)

lemma emit_simps [simp]:
  "w_db (emit e w) = w_db w" "w_log_actions (emit e w) = w_log_actions w"
  "w_triggers (emit e w) = w_triggers w" "w_live (emit e w) = w_live w"
  "w_events (emit e w) = w_events w @ [e]"
  by (simp_all add: emit_def)

lemma db_read_simps [simp]:
  "fst (db_read io s f w) = f (io_fault io s) (io_env io s (w_db w))"
  "w_db (snd (db_read io s f w)) = io_env io s (w_db w)"
  "w_events (snd (db_read io s f w)) = w_events w"
  "w_log_actions (snd (db_read io s f w)) = w_log_actions w"
  "w_triggers (snd (db_read io s f w)) = w_triggers w"
  "w_live (snd (db_read io s f w)) = w_live w"
  by (simp_all add: db_read_def Let_def)

lemma db_write_simps [simp]:
  "fst (db_write io s g w) = fst (g (io_env io s (w_db w)))"
  "w_db (snd (db_write io s g w)) = snd (g (io_env io s (w_db w)))"
  "w_events (snd (db_write io s g w)) = w_events w"
  "w_log_actions (snd (db_write io s g w)) = w_log_actions w"
  "w_triggers (snd (db_write io s g w)) = w_triggers w"
  "w_live (snd (db_write io s g w)) = w_live w"
  by (simp_all add: db_write_def Let_def)

lemma RunInTx_fail: "fst (RunInTx flt wrap body d) = Inl e \<Longrightarrow> snd (RunInTx flt wrap body d) = d"
  by (auto simp: RunInTx_def split: prod.splits sum.splits option.splits)

lemma RunInTx_ok:
  assumes "fst (RunInTx flt wrap body d) = Inr x"
  shows "flt = None \<and> RunInTx flt wrap body d = body d"
  using assms by (auto simp: RunInTx_def split: prod.splits sum.splits option.splits)

lemma on_instances_simps [simp]:
  "fst (on_instances f d) = fst (f (d_instances d))"
  "d_instances (snd (on_instances f d)) = snd (f (d_instances d))"
  "d_logs (snd (on_instances f d)) = d_logs d"
  "d_heartbeats (snd (on_instances f d)) = d_heartbeats d"
  by (simp_all add: on_instances_def Let_def)

lemma on_logs_simps [simp]:
  "fst (on_logs g d) = fst (g (d_logs d))"
  "d_logs (snd (on_logs g d)) = snd (g (d_logs d))"
  "d_instances (snd (on_logs g d)) = d_instances d"
  "d_heartbeats (snd (on_logs g d)) = d_heartbeats d"
  by (simp_all add: on_logs_def Let_def)

lemma map_err_simps [simp]:
  "snd (map_err f res) = snd res"
  "fst (map_err f res) = Inr x \<longleftrightarrow> fst res = Inr x"
  "fst (map_err f res) = Inl e' \<longleftrightarrow> (\<exists>e. fst res = Inl e \<and> e' = f e)"
  by (auto simp: map_err_def split: sum.splits)

lemma tx_then_Inr:
  "fst (tx_then f g d) = Inr y \<longleftrightarrow> (\<exists>x. fst (f d) = Inr x \<and> fst (g x (snd (f d))) = Inr y)"
  by (auto simp: tx_then_def split: prod.splits sum.splits)

lemma tx_ok:
  assumes "fst (tx_then f g d) = Inr y"
  obtains x where "fst (f d) = Inr x" "tx_then f g d = g x (snd (f d))" "fst (g x (snd (f d))) = Inr y"
  using assms by (cases "f d") (auto simp: tx_then_def split: sum.splits)

lemma tx_then_snd:
  "fst (f d) = Inr x \<Longrightarrow> tx_then f g d = g x (snd (f d))"
  by (cases "f d") (auto simp: tx_then_def)

lemma tx_then_Inl:
  "fst (f d) = Inl e \<Longrightarrow> tx_then f g d = (Inl e, snd (f d))"
  by (cases "f d") (auto simp: tx_then_def)

text \<open>A heartbeat protects its replica for \<open>staleAfter\<close>.\<close>

lemma staleHeartbeatCond_iff:
  "staleHeartbeatCond dbnow staleAfter t r \<longleftrightarrow>
     (\<forall>h\<in>set t. hb_id h = r \<longrightarrow> hb_last_seen h < dbNowMinus dbnow staleAfter)"
  by (auto simp: staleHeartbeatCond_def list_ex_iff not_le)

section \<open>Example data\<close>

definition example_world :: "instances \<Rightarrow> logs \<Rightarrow> replica_heartbeat list \<Rightarrow> world" where
  "example_world is ls hbs = \<lparr>w_db = empty_db\<lparr>d_instances := is, d_logs := ls, d_heartbeats := hbs\<rparr>,
     w_log_actions = Map.empty, w_triggers = Map.empty, w_live = [], w_events = []\<rparr>"

lemma example_world_simps [simp]:
  "d_instances (w_db (example_world is ls hbs)) = is" "d_logs (w_db (example_world is ls hbs)) = ls"
  "d_heartbeats (w_db (example_world is ls hbs)) = hbs" "w_events (example_world is ls hbs) = []"
  by (simp_all add: example_world_def)

end
