(* ===== verification/Recovery.thy ===== *)
theory Recovery
  imports World
begin

text \<open>
  The leader's recovery of interrupted operations (\<open>internal/deployer/interrupt_recovery.go\<close>) and
  its repository (\<open>internal/database/interrupted_operation_repository.go\<close>): the candidates, the
  transaction that ends one operation under an optimistic lock, and the check that runs over all
  candidates while other replicas go on working on the same database.
\<close>

section \<open>Data\<close>

definition InterruptedOperationMessage :: "string \<Rightarrow> string" where
  "InterruptedOperationMessage action =
     ''Interrupted: the server that ran this operation stopped. '' @
     (if action = DeployActionStop then ''Stop again.''
      else if action = DeployActionClean then ''Clean again.''
      else ''Deploy again.'')"

record interrupt_request =
  ir_log_started_at :: gtime
  ir_now :: gtime
  ir_instance_updated_at :: gtime
  ir_log_id :: string
  ir_instance_id :: string
  ir_replica_id :: string
  ir_stale_after :: duration
  ir_instance_status :: string
  ir_message :: string

record interrupt_result =
  ix_log_closed :: bool
  ix_instance_updated :: bool

datatype interrupt_error = InterruptConflict | InterruptFailed db_cause

record recovery_config =
  rc_self_id :: string
  rc_stale_after :: duration
  rc_audit :: bool
  rc_hub :: bool
  rc_notifier :: bool

definition isInProgressStatus :: "string \<Rightarrow> bool" where
  "isInProgressStatus s \<longleftrightarrow>
     s \<in> {StackStatusQueued, StackStatusDeploying, StackStatusStabilizing, StackStatusStopping, StackStatusCleaning}"

abbreviation interruptBatch :: nat where "interruptBatch \<equiv> 100"
abbreviation heartbeatRetention :: duration where "heartbeatRetention \<equiv> Hour"

section \<open>Repository\<close>

definition interrupt_candidate :: "gtime \<Rightarrow> gtime \<Rightarrow> string \<Rightarrow> duration \<Rightarrow> replica_heartbeat list \<Rightarrow> deployment_log \<Rightarrow> bool" where
  "interrupt_candidate dbnow now selfID staleAfter hbs l \<longleftrightarrow>
     dl_status l = DeployLogRunning
     \<and> (case dl_deadline_at l of None \<Rightarrow> False | Some d \<Rightarrow> d < now)
     \<and> dl_replica_id l \<noteq> [] \<and> dl_replica_id l \<noteq> selfID
     \<and> staleHeartbeatCond dbnow staleAfter hbs (dl_replica_id l)"

definition candidate_columns :: "deployment_log \<Rightarrow> deployment_log" where
  "candidate_columns l = zero_log\<lparr>dl_id := dl_id l, dl_stack_instance_id := dl_stack_instance_id l,
     dl_action := dl_action l, dl_status := dl_status l, dl_started_at := dl_started_at l,
     dl_replica_id := dl_replica_id l, dl_deadline_at := dl_deadline_at l\<rparr>"

definition ListInterruptCandidates ::
  "fault \<Rightarrow> gtime \<Rightarrow> gtime \<Rightarrow> string \<Rightarrow> duration \<Rightarrow> nat \<Rightarrow> db \<Rightarrow> db_cause + logs" where
  "ListInterruptCandidates flt dbnow now selfID staleAfter limit d =
     (case flt of
        Some e \<Rightarrow> Inl e
      | None \<Rightarrow> Inr (map candidate_columns (take limit (sort_key dl_started_at
          (filter (interrupt_candidate dbnow now selfID staleAfter (d_heartbeats d)) (d_logs d))))))"

text \<open>The three statements of the transaction.\<close>

definition close_log_cond :: "gtime \<Rightarrow> interrupt_request \<Rightarrow> replica_heartbeat list \<Rightarrow> deployment_log \<Rightarrow> bool" where
  "close_log_cond dbnow req hbs l \<longleftrightarrow>
     dl_id l = ir_log_id req \<and> dl_status l = DeployLogRunning \<and> dl_replica_id l = ir_replica_id req
     \<and> staleHeartbeatCond dbnow (ir_stale_after req) hbs (dl_replica_id l)"

definition close_log_set :: "interrupt_request \<Rightarrow> deployment_log \<Rightarrow> deployment_log" where
  "close_log_set req l = l\<lparr>dl_status := DeployLogError, dl_error_message := ir_message req,
     dl_completed_at := Some (ir_now req)\<rparr>"

definition newer_log_cond :: "interrupt_request \<Rightarrow> deployment_log \<Rightarrow> bool" where
  "newer_log_cond req l \<longleftrightarrow>
     dl_stack_instance_id l = ir_instance_id req \<and> dl_id l \<noteq> ir_log_id req
     \<and> ir_log_started_at req < dl_started_at l"

definition interrupt_instance_cond :: "interrupt_request \<Rightarrow> stack_instance \<Rightarrow> bool" where
  "interrupt_instance_cond req s \<longleftrightarrow>
     si_id s = ir_instance_id req \<and> si_status s = ir_instance_status req
     \<and> si_updated_at s = ir_instance_updated_at req"

definition interrupt_instance_set :: "interrupt_request \<Rightarrow> stack_instance \<Rightarrow> stack_instance" where
  "interrupt_instance_set req s = s\<lparr>si_status := StackStatusError, si_error_message := ir_message req,
     si_post_deploy_hook_until := None, si_delete_after_clean := False, si_updated_at := ir_now req\<rparr>"

definition interrupt_body ::
  "fault \<Rightarrow> fault \<Rightarrow> fault \<Rightarrow> gtime \<Rightarrow> interrupt_request \<Rightarrow> db \<Rightarrow> (interrupt_error + interrupt_result) \<times> db" where
  "interrupt_body flt1 flt2 flt3 dbnow req d =
     (let p = close_log_cond dbnow req (d_heartbeats d);
          logs' = sql_update p (close_log_set req) (d_logs d);
          q = interrupt_instance_cond req;
          insts' = sql_update q (interrupt_instance_set req) (d_instances d);
          d1 = d\<lparr>d_logs := logs'\<rparr>
      in case flt1 of
           Some e \<Rightarrow> (Inl (InterruptFailed e), d)
         | None \<Rightarrow>
             if rows_changed p (close_log_set req) (d_logs d) = 0
             then (Inr \<lparr>ix_log_closed = False, ix_instance_updated = False\<rparr>, d1)
             else if ir_instance_status req = []
             then (Inr \<lparr>ix_log_closed = True, ix_instance_updated = False\<rparr>, d1)
             else (case flt2 of
                     Some e \<Rightarrow> (Inl (InterruptFailed e), d1)
                   | None \<Rightarrow>
                       if length (filter (newer_log_cond req) logs') > 0
                       then (Inr \<lparr>ix_log_closed = True, ix_instance_updated = False\<rparr>, d1)
                       else (case flt3 of
                               Some e \<Rightarrow> (Inl (InterruptFailed e), d1)
                             | None \<Rightarrow>
                                 if rows_changed q (interrupt_instance_set req) (d_instances d) = 0
                                 then (Inl InterruptConflict, d1)
                                 else (Inr \<lparr>ix_log_closed = True, ix_instance_updated = True\<rparr>,
                                       d1\<lparr>d_instances := insts'\<rparr>))))"

fun repo_cause :: "repo_error \<Rightarrow> db_cause" where
  "repo_cause (DatabaseError op c) = c"
| "repo_cause _ = ErrDriver []"

definition InterruptOperation ::
  "fault \<Rightarrow> fault \<Rightarrow> fault \<Rightarrow> fault \<Rightarrow> gtime \<Rightarrow> interrupt_request \<Rightarrow> db \<Rightarrow> (interrupt_error + interrupt_result) \<times> db" where
  "InterruptOperation flt1 flt2 flt3 commit dbnow req =
     RunInTx commit (\<lambda>e. InterruptFailed (repo_cause e)) (interrupt_body flt1 flt2 flt3 dbnow req)"

section \<open>Worker\<close>

definition interrupt_audit_entry :: "deployment_log \<Rightarrow> bool \<Rightarrow> gtime \<Rightarrow> interrupt_audit" where
  "interrupt_audit_entry l updated now =
     \<lparr>ia_entity_id = dl_stack_instance_id l, ia_action = ''interrupted'',
      ia_details = ''Operation '' @ dl_action l @ '' (deploy log '' @ dl_id l @ '') interrupted: replica ''
        @ dl_replica_id l @ '' stopped'' @ (if updated then ''; instance set to error'' else []),
      ia_timestamp = now\<rparr>"

definition recovery_audit :: "recovery_config \<Rightarrow> io \<Rightarrow> deployment_log \<Rightarrow> bool \<Rightarrow> gtime \<Rightarrow> world \<Rightarrow> world" where
  "recovery_audit cfg io l updated now w =
     (if rc_audit cfg \<and> io_fault io ''audit'' = None
      then emit (Audited (interrupt_audit_entry l updated now)) w else w)"

definition recovery_broadcast :: "recovery_config \<Rightarrow> deployment_log \<Rightarrow> string \<Rightarrow> world \<Rightarrow> world" where
  "recovery_broadcast cfg l message w =
     (if rc_hub cfg
      then emit (StatusMsg (dl_stack_instance_id l) StackStatusError (dl_id l) message (dl_action l)) w
      else w)"

definition recovery_notify :: "recovery_config \<Rightarrow> stack_instance \<Rightarrow> string \<Rightarrow> string \<Rightarrow> world \<Rightarrow> world" where
  "recovery_notify cfg inst action message w =
     (let note = (\<lambda>ty title text. emit (Notified (si_id inst) ty title text None []) w) in
      if \<not> rc_notifier cfg then w
      else if action = DeployActionRollback
      then note ''rollback.error'' ''Rollback failed'' (''Rollback of '' @ si_name inst @ '' failed: '' @ message)
      else if action = DeployActionStop
      then note ''stop.error'' ''Stop failed'' (''Stopping '' @ si_name inst @ '' failed: '' @ message)
      else if action = DeployActionClean
      then note ''clean.error'' ''Cleanup failed'' (''Cleanup of '' @ si_name inst @ '' failed: '' @ message)
      else note ''deployment.error'' ''Deployment failed'' (''Deployment of '' @ si_name inst @ '' failed: '' @ message))"

definition interrupt_req :: "recovery_config \<Rightarrow> deployment_log \<Rightarrow> gtime \<Rightarrow> stack_instance option \<Rightarrow> interrupt_request" where
  "interrupt_req cfg l now inst =
     (let lock = (case inst of None \<Rightarrow> None | Some s \<Rightarrow> if isInProgressStatus (si_status s) then Some s else None)
      in \<lparr>ir_log_started_at = dl_started_at l, ir_now = now,
          ir_instance_updated_at = (case lock of None \<Rightarrow> zero_time | Some s \<Rightarrow> si_updated_at s),
          ir_log_id = dl_id l, ir_instance_id = dl_stack_instance_id l, ir_replica_id = dl_replica_id l,
          ir_stale_after = rc_stale_after cfg,
          ir_instance_status = (case lock of None \<Rightarrow> [] | Some s \<Rightarrow> si_status s),
          ir_message = InterruptedOperationMessage (dl_action l)\<rparr>)"

definition interrupt :: "recovery_config \<Rightarrow> io \<Rightarrow> gtime \<Rightarrow> deployment_log \<Rightarrow> gtime \<Rightarrow> world \<Rightarrow> bool \<times> world" where
  "interrupt cfg io dbnow l now w =
     (let r1 = db_read io ''find_instance'' (\<lambda>flt d. inst_FindByID flt (dl_stack_instance_id l) (d_instances d)) w;
          w1 = snd r1
      in case (case fst r1 of
                 Inr s \<Rightarrow> Some (Some s)
               | Inl e \<Rightarrow> if repo_cause e = ErrNotFound then Some None else None) of
           None \<Rightarrow> (False, w1)
         | Some inst \<Rightarrow>
             (let req = interrupt_req cfg l now inst;
                  r2 = db_write io ''interrupt'' (InterruptOperation (io_fault io ''close_log'')
                         (io_fault io ''count_newer'') (io_fault io ''update_instance'') (io_fault io ''commit'') dbnow req) w1;
                  w2 = snd r2
              in case fst r2 of
                   Inl e \<Rightarrow> (False, w2)
                 | Inr res \<Rightarrow>
                     if \<not> ix_log_closed res then (False, w2)
                     else (let w3 = recovery_audit cfg io l (ix_instance_updated res) now
                                      (emit (InterruptMetric (dl_action l) ''recovered'') w2)
                           in (True,
                               case inst of
                                 Some s \<Rightarrow>
                                   if ix_instance_updated res
                                   then recovery_notify cfg s (dl_action l) (ir_message req)
                                          (recovery_broadcast cfg l (ir_message req) w3)
                                   else w3
                               | None \<Rightarrow> w3))))"

text \<open>The loop of \<open>recover\<close>; \<open>ctx_done i\<close> says whether the context ended before candidate \<open>i\<close>.\<close>

fun recover_loop ::
  "recovery_config \<Rightarrow> (nat \<Rightarrow> io) \<Rightarrow> (nat \<Rightarrow> gtime) \<Rightarrow> (nat \<Rightarrow> bool) \<Rightarrow> gtime \<Rightarrow> nat \<Rightarrow> logs \<Rightarrow> nat \<Rightarrow> world \<Rightarrow> nat \<times> world" where
  "recover_loop cfg ios dbnow ctx_done now i [] closed w = (closed, w)"
| "recover_loop cfg ios dbnow ctx_done now i (l # ls) closed w =
     (if ctx_done i then (closed, w)
      else if dl_replica_id l = [] \<or> dl_replica_id l = rc_self_id cfg
      then recover_loop cfg ios dbnow ctx_done now (Suc i) ls closed w
      else (let res = interrupt cfg (ios i) (dbnow i) l now w
            in recover_loop cfg ios dbnow ctx_done now (Suc i) ls
                 (if fst res then Suc closed else closed) (snd res)))"

definition recover ::
  "recovery_config \<Rightarrow> io \<Rightarrow> gtime \<Rightarrow> (nat \<Rightarrow> io) \<Rightarrow> (nat \<Rightarrow> gtime) \<Rightarrow> (nat \<Rightarrow> bool) \<Rightarrow> gtime \<Rightarrow> world \<Rightarrow> nat \<times> world" where
  "recover cfg io dbnow0 ios dbnow ctx_done now w =
     (let r = db_read io ''candidates'' (\<lambda>flt. ListInterruptCandidates flt dbnow0 now (rc_self_id cfg)
                (rc_stale_after cfg) interruptBatch) w
      in case fst r of
           Inl e \<Rightarrow> (0, snd r)
         | Inr ls \<Rightarrow> recover_loop cfg ios dbnow ctx_done now 0 ls 0 (snd r))"

definition RunOnce ::
  "recovery_config \<Rightarrow> io \<Rightarrow> gtime \<Rightarrow> (nat \<Rightarrow> io) \<Rightarrow> (nat \<Rightarrow> gtime) \<Rightarrow> (nat \<Rightarrow> bool) \<Rightarrow> gtime \<Rightarrow> gtime \<Rightarrow> world \<Rightarrow> nat \<times> world" where
  "RunOnce cfg io dbnow0 ios dbnow ctx_done now dbnow_end w =
     (let r = recover cfg io dbnow0 ios dbnow ctx_done now w
      in (fst r, snd (db_write io ''heartbeat_cleanup'' (\<lambda>d.
            let res = hb_DeleteOlderThan (io_fault io ''heartbeat_cleanup'') dbnow_end heartbeatRetention (d_heartbeats d)
            in (fst res, d\<lparr>d_heartbeats := snd res\<rparr>)) (snd r))))"

section \<open>The transaction\<close>

lemma close_log_set_simps [simp]:
  "dl_id (close_log_set req l) = dl_id l" "dl_status (close_log_set req l) = DeployLogError"
  "dl_replica_id (close_log_set req l) = dl_replica_id l"
  "dl_stack_instance_id (close_log_set req l) = dl_stack_instance_id l"
  "dl_started_at (close_log_set req l) = dl_started_at l"
  by (simp_all add: close_log_set_def)

lemma interrupt_instance_set_simps [simp]:
  "si_id (interrupt_instance_set req s) = si_id s" "si_status (interrupt_instance_set req s) = StackStatusError"
  "si_delete_after_clean (interrupt_instance_set req s) = False"
  by (simp_all add: interrupt_instance_set_def)

lemma close_log_changes: "close_log_cond dbnow req hbs l \<Longrightarrow> close_log_set req l \<noteq> l"
proof
  assume "close_log_cond dbnow req hbs l" "close_log_set req l = l"
  then have "dl_status l = DeployLogRunning" "dl_status l = DeployLogError"
    by (simp add: close_log_cond_def, metis close_log_set_simps(2))
  then show False by simp
qed

lemma close_count:
  "rows_changed (close_log_cond dbnow req hbs) (close_log_set req) t = 0 \<longleftrightarrow>
     (\<forall>l\<in>set t. \<not> close_log_cond dbnow req hbs l)"
  using close_log_changes by (auto simp: rows_changed_0_iff)

lemma newer_after_close:
  "filter (newer_log_cond req) (sql_update p (close_log_set req) t) = [] \<longleftrightarrow>
     (\<forall>l\<in>set t. \<not> newer_log_cond req l)"
  by (induction t) (auto simp: sql_update_def newer_log_cond_def)

text \<open>The four ways the transaction ends.\<close>

lemma InterruptOperation_cases:
  fixes flt1 flt2 flt3 commit dbnow req d
  defines "res \<equiv> InterruptOperation flt1 flt2 flt3 commit dbnow req d"
  obtains (failed) e where "fst res = Inl e" "snd res = d"
    | (kept) "fst res = Inr \<lparr>ix_log_closed = False, ix_instance_updated = False\<rparr>" "snd res = d"
        "\<forall>l\<in>set (d_logs d). \<not> close_log_cond dbnow req (d_heartbeats d) l"
    | (log_only) "fst res = Inr \<lparr>ix_log_closed = True, ix_instance_updated = False\<rparr>"
        "snd res = d\<lparr>d_logs := sql_update (close_log_cond dbnow req (d_heartbeats d)) (close_log_set req) (d_logs d)\<rparr>"
        "\<exists>l\<in>set (d_logs d). close_log_cond dbnow req (d_heartbeats d) l"
        "ir_instance_status req = [] \<or> (\<exists>l\<in>set (d_logs d). newer_log_cond req l)"
    | (both) "fst res = Inr \<lparr>ix_log_closed = True, ix_instance_updated = True\<rparr>"
        "snd res = d\<lparr>d_logs := sql_update (close_log_cond dbnow req (d_heartbeats d)) (close_log_set req) (d_logs d),
           d_instances := sql_update (interrupt_instance_cond req) (interrupt_instance_set req) (d_instances d)\<rparr>"
        "\<exists>l\<in>set (d_logs d). close_log_cond dbnow req (d_heartbeats d) l"
        "ir_instance_status req \<noteq> []" "\<forall>l\<in>set (d_logs d). \<not> newer_log_cond req l"
        "\<exists>s\<in>set (d_instances d). interrupt_instance_cond req s"
proof (cases "fst res")
  case (Inl e)
  then have "snd res = d" unfolding res_def InterruptOperation_def by (rule RunInTx_fail)
  with Inl show ?thesis by (rule failed)
next
  case (Inr r)
  let ?p = "close_log_cond dbnow req (d_heartbeats d)"
  from Inr have body: "res = interrupt_body flt1 flt2 flt3 dbnow req d"
    unfolding res_def InterruptOperation_def by (metis RunInTx_ok)
  have f1: "flt1 = None"
    using Inr body by (cases flt1) (auto simp: interrupt_body_def Let_def)
  have none: "sql_update ?p (close_log_set req) (d_logs d) = d_logs d"
    if "\<forall>l\<in>set (d_logs d). \<not> ?p l"
    using that by (intro sql_update_id) auto
  consider "\<forall>l\<in>set (d_logs d). \<not> ?p l"
    | "\<exists>l\<in>set (d_logs d). ?p l" "ir_instance_status req = [] \<or> (\<exists>l\<in>set (d_logs d). newer_log_cond req l)"
    | "\<exists>l\<in>set (d_logs d). ?p l" "ir_instance_status req \<noteq> []" "\<forall>l\<in>set (d_logs d). \<not> newer_log_cond req l"
    by blast
  then show ?thesis
  proof cases
    case 1
    with body f1 none Inr show ?thesis
      by (intro kept) (auto simp: interrupt_body_def Let_def close_count)
  next
    case 2
    then have n: "\<not> rows_changed ?p (close_log_set req) (d_logs d) = 0" by (simp add: close_count)
    have "ir_instance_status req = [] \<or> (flt2 = None
        \<and> filter (newer_log_cond req) (sql_update ?p (close_log_set req) (d_logs d)) \<noteq> [])"
      using 2(2) body f1 n Inr
      by (cases flt2) (auto simp: interrupt_body_def Let_def newer_after_close split: if_splits)
    with body f1 n have "res = (Inr \<lparr>ix_log_closed = True, ix_instance_updated = False\<rparr>,
        d\<lparr>d_logs := sql_update ?p (close_log_set req) (d_logs d)\<rparr>)"
      by (auto simp: interrupt_body_def Let_def)
    with 2 show ?thesis by (intro log_only) simp_all
  next
    case 3
    then have n: "\<not> rows_changed ?p (close_log_set req) (d_logs d) = 0"
        "filter (newer_log_cond req) (sql_update ?p (close_log_set req) (d_logs d)) = []"
      by (simp_all add: close_count newer_after_close)
    with body f1 Inr 3(2) have r: "flt2 = None" "flt3 = None"
        "\<not> rows_changed (interrupt_instance_cond req) (interrupt_instance_set req) (d_instances d) = 0"
      by (auto simp: interrupt_body_def Let_def split: option.splits if_splits)
    have "\<exists>s\<in>set (d_instances d). interrupt_instance_cond req s"
      using r(3) by (auto simp: rows_changed_0_iff)
    with body f1 n r 3 show ?thesis
      by (intro both) (auto simp: interrupt_body_def Let_def)
  qed
qed

section \<open>One operation\<close>

lemma candidate_columns_simps [simp]:
  "dl_id (candidate_columns l) = dl_id l" "dl_replica_id (candidate_columns l) = dl_replica_id l"
  "dl_stack_instance_id (candidate_columns l) = dl_stack_instance_id l"
  "dl_started_at (candidate_columns l) = dl_started_at l" "dl_action (candidate_columns l) = dl_action l"
  by (simp_all add: candidate_columns_def)

lemma interrupt_req_simps [simp]:
  "ir_log_id (interrupt_req cfg l now inst) = dl_id l"
  "ir_replica_id (interrupt_req cfg l now inst) = dl_replica_id l"
  "ir_instance_id (interrupt_req cfg l now inst) = dl_stack_instance_id l"
  "ir_stale_after (interrupt_req cfg l now inst) = rc_stale_after cfg"
  "ir_log_started_at (interrupt_req cfg l now inst) = dl_started_at l"
  by (simp_all add: interrupt_req_def Let_def)

lemma recovery_effects_db [simp]:
  "w_db (recovery_audit cfg io l u now w) = w_db w"
  "w_db (recovery_broadcast cfg l m w) = w_db w"
  "w_db (recovery_notify cfg inst a m w) = w_db w"
  by (simp_all add: recovery_audit_def recovery_broadcast_def recovery_notify_def Let_def)

text \<open>
  What \<open>interrupt\<close> does to the database: nothing of its own when the read fails, else the
  transaction on the state it meets.
\<close>

lemma interrupt_db:
  fixes cfg io dbnow l now w
  defines "d1 \<equiv> io_env io ''find_instance'' (w_db w)"
  obtains (unread) "interrupt cfg io dbnow l now w = (False, snd (interrupt cfg io dbnow l now w))"
      "w_db (snd (interrupt cfg io dbnow l now w)) = d1" "w_events (snd (interrupt cfg io dbnow l now w)) = w_events w"
      "io_fault io ''find_instance'' \<noteq> None"
    | (tx) inst res where
      "res = InterruptOperation (io_fault io ''close_log'') (io_fault io ''count_newer'')
         (io_fault io ''update_instance'') (io_fault io ''commit'') dbnow (interrupt_req cfg l now inst)
         (io_env io ''interrupt'' d1)"
      "case inst of None \<Rightarrow> True | Some s \<Rightarrow> inst_FindByID (io_fault io ''find_instance'') (dl_stack_instance_id l) (d_instances d1) = Inr s"
      "w_db (snd (interrupt cfg io dbnow l now w)) = snd res"
      "fst (interrupt cfg io dbnow l now w) \<longleftrightarrow> (\<exists>r. fst res = Inr r \<and> ix_log_closed r)"
      "\<not> fst (interrupt cfg io dbnow l now w) \<Longrightarrow> w_events (snd (interrupt cfg io dbnow l now w)) = w_events w"
proof -
  let ?f = "inst_FindByID (io_fault io ''find_instance'') (dl_stack_instance_id l) (d_instances d1)"
  let ?i = "case ?f of Inr s \<Rightarrow> Some (Some s) | Inl e \<Rightarrow> if repo_cause e = ErrNotFound then Some None else None"
  show thesis
  proof (cases ?i)
    case None
    then have "io_fault io ''find_instance'' \<noteq> None"
      by (auto simp: inst_FindByID_def split: option.splits)
    with None show ?thesis by (intro unread) (simp_all add: interrupt_def Let_def d1_def)
  next
    case (Some inst)
    let ?res = "InterruptOperation (io_fault io ''close_log'') (io_fault io ''count_newer'')
         (io_fault io ''update_instance'') (io_fault io ''commit'') dbnow (interrupt_req cfg l now inst)
         (io_env io ''interrupt'' d1)"
    have "case inst of None \<Rightarrow> True | Some s \<Rightarrow> ?f = Inr s"
      using Some by (auto split: sum.splits if_splits option.splits)
    with Some show ?thesis
      by (intro tx [of ?res inst])
        (auto simp: interrupt_def Let_def d1_def split: sum.splits option.splits if_splits)
  qed
qed

text \<open>C5. An operation whose process has a fresh heartbeat is never ended: when the database holds a
  heartbeat of the log's replica within \<open>staleAfter\<close> at the time of the transaction, however the
  other processes changed the database since the listing and whichever statements fail, the
  recovery changes nothing and tells nobody.\<close>

theorem interrupt_spares_live_replica:
  assumes "h \<in> set (d_heartbeats (io_env io ''interrupt'' (io_env io ''find_instance'' (w_db w))))"
    and "hb_id h = dl_replica_id l"
    and "dbNowMinus dbnow (rc_stale_after cfg) \<le> hb_last_seen h"
  shows "fst (interrupt cfg io dbnow l now w) = False
    \<and> w_events (snd (interrupt cfg io dbnow l now w)) = w_events w
    \<and> w_db (snd (interrupt cfg io dbnow l now w)) \<in>
        {io_env io ''find_instance'' (w_db w), io_env io ''interrupt'' (io_env io ''find_instance'' (w_db w))}"
proof -
  let ?d = "io_env io ''interrupt'' (io_env io ''find_instance'' (w_db w))"
  have fresh: "\<not> close_log_cond dbnow (interrupt_req cfg l now inst) (d_heartbeats ?d) r" for inst r
    using assms by (auto simp: close_log_cond_def staleHeartbeatCond_iff not_less)
  show ?thesis
  proof (cases rule: interrupt_db [of cfg io dbnow l now w])
    case unread
    then show ?thesis by (metis fst_conv insertCI)
  next
    case (tx inst res)
    from tx(1) have "snd res = ?d \<and> (\<forall>r. fst res = Inr r \<longrightarrow> \<not> ix_log_closed r)"
      using fresh
      by (cases rule: InterruptOperation_cases [of "io_fault io ''close_log''" "io_fault io ''count_newer''"
            "io_fault io ''update_instance''" "io_fault io ''commit''" dbnow "interrupt_req cfg l now inst" ?d]) auto
    with tx show ?thesis by simp
  qed
qed

theorem interrupt_spares_live_replica_witness:
  "fst (interrupt \<lparr>rc_self_id = ''me'', rc_stale_after = 120 * Second, rc_audit = True, rc_hub = True, rc_notifier = True\<rparr>
      (quiet 9) (500 * Second) (example_log ''a'' 1 DeployLogRunning\<lparr>dl_replica_id := ''r1''\<rparr>) 9
      (example_world [] [example_log ''a'' 1 DeployLogRunning\<lparr>dl_replica_id := ''r1''\<rparr>]
         [\<lparr>hb_last_seen = 450 * Second, hb_id = ''r1''\<rparr>])) = False"
  using interrupt_spares_live_replica [of "\<lparr>hb_last_seen = 450 * Second, hb_id = ''r1''\<rparr>" "quiet 9"
      "example_world [] [example_log ''a'' 1 DeployLogRunning\<lparr>dl_replica_id := ''r1''\<rparr>]
         [\<lparr>hb_last_seen = 450 * Second, hb_id = ''r1''\<rparr>]"
      "example_log ''a'' 1 DeployLogRunning\<lparr>dl_replica_id := ''r1''\<rparr>" "500 * Second"
      "\<lparr>rc_self_id = ''me'', rc_stale_after = 120 * Second, rc_audit = True, rc_hub = True, rc_notifier = True\<rparr>" 9]
  by (simp add: dbNowMinus_def)

text \<open>A newer operation owns the instance: when a log of the instance started later than the
  interrupted one, the recovery changes no row of the instance table, whatever it does to the
  log.\<close>

theorem interrupt_keeps_newer_operation:
  assumes "l' \<in> set (d_logs (io_env io ''interrupt'' (io_env io ''find_instance'' (w_db w))))"
    and "dl_stack_instance_id l' = dl_stack_instance_id l" and "dl_id l' \<noteq> dl_id l"
    and "dl_started_at l < dl_started_at l'"
  shows "d_instances (w_db (snd (interrupt cfg io dbnow l now w))) \<in>
    {d_instances (io_env io ''find_instance'' (w_db w)),
     d_instances (io_env io ''interrupt'' (io_env io ''find_instance'' (w_db w)))}"
proof (cases rule: interrupt_db [of cfg io dbnow l now w])
  case unread
  then show ?thesis by simp
next
  case (tx inst res)
  let ?d = "io_env io ''interrupt'' (io_env io ''find_instance'' (w_db w))"
  have "newer_log_cond (interrupt_req cfg l now inst) l'"
    using assms by (simp add: newer_log_cond_def)
  then have "d_instances (snd res) = d_instances ?d"
    using assms(1) unfolding tx(1)
    by (cases rule: InterruptOperation_cases [of "io_fault io ''close_log''" "io_fault io ''count_newer''"
          "io_fault io ''update_instance''" "io_fault io ''commit''" dbnow "interrupt_req cfg l now inst" ?d]) auto
  with tx show ?thesis by simp
qed

theorem interrupt_keeps_newer_operation_witness:
  "d_instances (w_db (snd (interrupt \<lparr>rc_self_id = ''me'', rc_stale_after = 120 * Second, rc_audit = True, rc_hub = True, rc_notifier = True\<rparr>
      (quiet 9) 500 (example_log ''a'' 1 DeployLogRunning) 9
      (example_world [example_instance] [example_log ''a'' 1 DeployLogRunning, example_log ''b'' 2 DeployLogRunning] [])))) = [example_instance]"
  using interrupt_keeps_newer_operation [of "example_log ''b'' 2 DeployLogRunning" "quiet 9"
      "example_world [example_instance] [example_log ''a'' 1 DeployLogRunning, example_log ''b'' 2 DeployLogRunning] []"
      "example_log ''a'' 1 DeployLogRunning"
      "\<lparr>rc_self_id = ''me'', rc_stale_after = 120 * Second, rc_audit = True, rc_hub = True, rc_notifier = True\<rparr>" 500 9]
  by simp

text \<open>The transaction is all or nothing and respects the optimistic lock: when it reports an
  error or an open log, the database is as before; when it closes the log, exactly that log row is
  ended, and the instance row changes only if it still has the status and the update time that the
  caller read and no newer operation exists.\<close>

theorem InterruptOperation_all_or_nothing:
  assumes "InterruptOperation flt1 flt2 flt3 commit dbnow req d = (res, d')"
  shows "(\<forall>e. res = Inl e \<longrightarrow> d' = d)
    \<and> (\<forall>r. res = Inr r \<longrightarrow> \<not> ix_log_closed r \<longrightarrow> d' = d)
    \<and> (\<forall>r. res = Inr r \<longrightarrow> ix_log_closed r \<longrightarrow>
        d_logs d' = sql_update (close_log_cond dbnow req (d_heartbeats d)) (close_log_set req) (d_logs d)
        \<and> (\<not> ix_instance_updated r \<longrightarrow> d_instances d' = d_instances d)
        \<and> (ix_instance_updated r \<longrightarrow>
             d_instances d' = sql_update (interrupt_instance_cond req) (interrupt_instance_set req) (d_instances d)
             \<and> (\<exists>s\<in>set (d_instances d). si_id s = ir_instance_id req \<and> si_status s = ir_instance_status req
                   \<and> si_updated_at s = ir_instance_updated_at req)
             \<and> (\<forall>l\<in>set (d_logs d). \<not> newer_log_cond req l)))"
  using assms
  by (cases rule: InterruptOperation_cases [of flt1 flt2 flt3 commit dbnow req d])
    (auto simp: interrupt_instance_cond_def)

theorem InterruptOperation_all_or_nothing_witness:
  "snd (InterruptOperation None None (Some ErrConnectionFailed) None 500
      (interrupt_req \<lparr>rc_self_id = ''me'', rc_stale_after = 1, rc_audit = True, rc_hub = True, rc_notifier = True\<rparr>
         (example_log ''a'' 1 DeployLogRunning) 9 (Some (example_instance\<lparr>si_status := StackStatusDeploying\<rparr>)))
      (w_db (example_world [example_instance] [example_log ''a'' 1 DeployLogRunning] []))) =
    w_db (example_world [example_instance] [example_log ''a'' 1 DeployLogRunning] [])"
  using InterruptOperation_all_or_nothing [of None None "Some ErrConnectionFailed" None 500
      "interrupt_req \<lparr>rc_self_id = ''me'', rc_stale_after = 1, rc_audit = True, rc_hub = True, rc_notifier = True\<rparr>
         (example_log ''a'' 1 DeployLogRunning) 9 (Some (example_instance\<lparr>si_status := StackStatusDeploying\<rparr>))"
      "w_db (example_world [example_instance] [example_log ''a'' 1 DeployLogRunning] [])"
      "Inl (InterruptFailed ErrConnectionFailed)"
      "snd (InterruptOperation None None (Some ErrConnectionFailed) None 500
      (interrupt_req \<lparr>rc_self_id = ''me'', rc_stale_after = 1, rc_audit = True, rc_hub = True, rc_notifier = True\<rparr>
         (example_log ''a'' 1 DeployLogRunning) 9 (Some (example_instance\<lparr>si_status := StackStatusDeploying\<rparr>)))
      (w_db (example_world [example_instance] [example_log ''a'' 1 DeployLogRunning] [])))"]
  by (simp add: InterruptOperation_def RunInTx_def interrupt_body_def Let_def rows_changed_def close_log_cond_def
      interrupt_req_def isInProgressStatus_def newer_log_cond_def staleHeartbeatCond_def sql_update_def close_log_set_def prod_eq_iff)

section \<open>A whole check\<close>

lemma InterruptOperation_quiet:
  assumes "ir_instance_status req \<noteq> [] \<Longrightarrow>
    \<exists>s\<in>set (d_instances d). interrupt_instance_cond req s \<and> interrupt_instance_set req s \<noteq> s"
  shows "\<exists>r. fst (InterruptOperation None None None None dbnow req d) = Inr r"
proof -
  have "ir_instance_status req = [] \<or> rows_changed (interrupt_instance_cond req) (interrupt_instance_set req) (d_instances d) \<noteq> 0"
    using assms by (auto simp: rows_changed_0_iff)
  then show ?thesis
    by (auto simp: InterruptOperation_def RunInTx_def interrupt_body_def Let_def)
qed

lemma interrupt_instance_changes:
  "isInProgressStatus (si_status s) \<Longrightarrow> interrupt_instance_set req s \<noteq> s"
proof
  assume "isInProgressStatus (si_status s)" "interrupt_instance_set req s = s"
  then have "isInProgressStatus StackStatusError" by (metis interrupt_instance_set_simps(2))
  then show False by (simp add: isInProgressStatus_def)
qed

text \<open>A log that one undisturbed step of the recovery must end.\<close>

definition endable :: "recovery_config \<Rightarrow> gtime \<Rightarrow> db \<Rightarrow> deployment_log \<Rightarrow> bool" where
  "endable cfg dbnow d l \<longleftrightarrow>
     (\<exists>r. row_of dl_id (dl_id l) (d_logs d) = Some r \<and> dl_status r = DeployLogRunning
        \<and> dl_replica_id r = dl_replica_id l)
     \<and> staleHeartbeatCond dbnow (rc_stale_after cfg) (d_heartbeats d) (dl_replica_id l)"

lemma interrupt_quiet:
  assumes "keyed si_id (d_instances (w_db w))" and "keyed dl_id (d_logs (w_db w))" and "endable cfg dbnow (w_db w) l"
  shows "fst (interrupt cfg (quiet n) dbnow l now w)
    \<and> keyed si_id (d_instances (w_db (snd (interrupt cfg (quiet n) dbnow l now w))))
    \<and> d_heartbeats (w_db (snd (interrupt cfg (quiet n) dbnow l now w))) = d_heartbeats (w_db w)
    \<and> (\<exists>f. (\<forall>x. dl_id (f x) = dl_id x \<and> dl_status (f x) = DeployLogError) \<and>
        d_logs (w_db (snd (interrupt cfg (quiet n) dbnow l now w))) = sql_update (\<lambda>x. dl_id x = dl_id l) f (d_logs (w_db w)))"
proof (cases rule: interrupt_db [of cfg "quiet n" dbnow l now w])
  case unread
  then show ?thesis by simp
next
  case (tx inst res)
  let ?req = "interrupt_req cfg l now inst" and ?d = "w_db w"
  from assms(3) obtain r where r: "row_of dl_id (dl_id l) (d_logs ?d) = Some r" "dl_status r = DeployLogRunning"
      "dl_replica_id r = dl_replica_id l"
    and stale: "staleHeartbeatCond dbnow (rc_stale_after cfg) (d_heartbeats ?d) (dl_replica_id l)"
    by (auto simp: endable_def)
  have cond: "close_log_cond dbnow ?req (d_heartbeats ?d) x \<longleftrightarrow> dl_id x = dl_id l" if "x \<in> set (d_logs ?d)" for x
  proof -
    have "dl_id x = dl_id l \<Longrightarrow> x = r"
      using that r(1) row_of_Some_iff [OF assms(2), of "dl_id l" x] by simp
    with r stale show ?thesis by (auto simp: close_log_cond_def dest: row_of_SomeD)
  qed
  have upd: "sql_update (close_log_cond dbnow ?req (d_heartbeats ?d)) (close_log_set ?req) (d_logs ?d) =
      sql_update (\<lambda>x. dl_id x = dl_id l) (close_log_set ?req) (d_logs ?d)"
    using cond by (auto simp: sql_update_def)
  have some: "\<exists>x\<in>set (d_logs ?d). close_log_cond dbnow ?req (d_heartbeats ?d) x"
    using cond r(1) row_of_SomeD by metis
  have lock: "\<exists>s\<in>set (d_instances ?d). interrupt_instance_cond ?req s \<and> interrupt_instance_set ?req s \<noteq> s"
    if "ir_instance_status ?req \<noteq> []"
  proof -
    from that obtain s where s: "inst = Some s" "isInProgressStatus (si_status s)"
      by (auto simp: interrupt_req_def Let_def split: option.splits if_splits)
    with tx(2) have "row_of si_id (dl_stack_instance_id l) (d_instances ?d) = Some s"
      by (auto simp: inst_FindByID_def split: option.splits)
    then have "s \<in> set (d_instances ?d)" "si_id s = dl_stack_instance_id l" by (auto dest: row_of_SomeD)
    with s interrupt_instance_changes show ?thesis
      by (intro bexI [of _ s]) (auto simp: interrupt_instance_cond_def interrupt_req_def)
  qed
  have res: "res = InterruptOperation None None None None dbnow ?req ?d" using tx(1) by simp
  obtain rr where "fst res = Inr rr" using InterruptOperation_quiet [OF lock] res by blast
  then have out: "ix_log_closed rr \<and> d_heartbeats (snd res) = d_heartbeats ?d
      \<and> keyed si_id (d_instances (snd res))
      \<and> d_logs (snd res) = sql_update (\<lambda>x. dl_id x = dl_id l) (close_log_set ?req) (d_logs ?d)"
    using some assms(1) unfolding res
    by (cases rule: InterruptOperation_cases [of None None None None dbnow ?req ?d])
      (auto simp: upd keyed_sql_update)
  with \<open>fst res = Inr rr\<close> tx show ?thesis
    by (auto intro!: exI [of _ "close_log_set ?req"])
qed

lemma stale_mono: "a \<le> b \<Longrightarrow> staleHeartbeatCond a st hbs r \<Longrightarrow> staleHeartbeatCond b st hbs r"
  by (force simp: staleHeartbeatCond_iff dbNowMinus_def)

lemma endable_mono: "a \<le> b \<Longrightarrow> endable cfg a d l \<Longrightarrow> endable cfg b d l"
  by (auto simp: endable_def intro: stale_mono)

lemma endable_other:
  assumes "d_logs d' = sql_update (\<lambda>x. dl_id x = i) f (d_logs d)" "d_heartbeats d' = d_heartbeats d"
    and "\<forall>x. dl_id (f x) = dl_id x" and "dl_id l \<noteq> i" and "endable cfg a d l"
  shows "endable cfg a d' l"
proof -
  have "row_of dl_id (dl_id l) (d_logs d') = row_of dl_id (dl_id l) (d_logs d)"
    using assms(1,3,4) by (cases "row_of dl_id (dl_id l) (d_logs d)") (auto simp: row_of_sql_update dest: row_of_SomeD)
  with assms show ?thesis by (simp add: endable_def)
qed

lemma recover_loop_quiet:
  assumes "\<forall>i. \<exists>n. ios i = quiet n" and "\<forall>i. dbnow0 \<le> dbnow i"
    and "keyed si_id (d_instances (w_db w))" and "keyed dl_id (d_logs (w_db w))" and "distinct (map dl_id ls)"
    and "\<forall>l\<in>set ls. endable cfg dbnow0 (w_db w) l \<and> dl_replica_id l \<noteq> [] \<and> dl_replica_id l \<noteq> rc_self_id cfg"
  shows "fst (recover_loop cfg ios dbnow (\<lambda>_. False) now i ls closed w) = closed + length ls
    \<and> d_heartbeats (w_db (snd (recover_loop cfg ios dbnow (\<lambda>_. False) now i ls closed w))) = d_heartbeats (w_db w)
    \<and> (\<forall>r\<in>set (d_logs (w_db (snd (recover_loop cfg ios dbnow (\<lambda>_. False) now i ls closed w)))).
         if dl_id r \<in> dl_id ` set ls then dl_status r = DeployLogError else r \<in> set (d_logs (w_db w)))"
  using assms(3-)
proof (induction ls arbitrary: i closed w)
  case Nil
  then show ?case by simp
next
  case (Cons l ls)
  obtain n where n: "ios i = quiet n" using assms(1) by blast
  let ?w = "snd (interrupt cfg (ios i) (dbnow i) l now w)"
  have here: "endable cfg (dbnow i) (w_db w) l"
    using Cons.prems(4) assms(2) by (auto intro: endable_mono [of dbnow0])
  obtain f where step: "fst (interrupt cfg (ios i) (dbnow i) l now w)"
      "keyed si_id (d_instances (w_db ?w))" "d_heartbeats (w_db ?w) = d_heartbeats (w_db w)"
      "d_logs (w_db ?w) = sql_update (\<lambda>x. dl_id x = dl_id l) f (d_logs (w_db w))"
      "\<forall>x. dl_id (f x) = dl_id x \<and> dl_status (f x) = DeployLogError"
    using interrupt_quiet [OF Cons.prems(1,2) here, of n now, folded n] by blast
  have key: "keyed dl_id (d_logs (w_db ?w))"
    using step(4,5) Cons.prems(2) by (simp add: keyed_sql_update)
  have rest: "\<forall>l'\<in>set ls. endable cfg dbnow0 (w_db ?w) l' \<and> dl_replica_id l' \<noteq> [] \<and> dl_replica_id l' \<noteq> rc_self_id cfg"
  proof
    fix l' assume l': "l' \<in> set ls"
    with Cons.prems(3) have "dl_id l' \<noteq> dl_id l" by (auto simp: image_iff)
    with l' Cons.prems(4) step(5) show "endable cfg dbnow0 (w_db ?w) l' \<and> dl_replica_id l' \<noteq> [] \<and> dl_replica_id l' \<noteq> rc_self_id cfg"
      by (auto intro: endable_other [OF step(4,3)])
  qed
  have loop: "recover_loop cfg ios dbnow (\<lambda>_. False) now i (l # ls) closed w =
      recover_loop cfg ios dbnow (\<lambda>_. False) now (Suc i) ls (Suc closed) ?w"
    using Cons.prems(4) step(1) by (simp add: Let_def)
  have IH: "fst (recover_loop cfg ios dbnow (\<lambda>_. False) now (Suc i) ls (Suc closed) ?w) = Suc closed + length ls
    \<and> d_heartbeats (w_db (snd (recover_loop cfg ios dbnow (\<lambda>_. False) now (Suc i) ls (Suc closed) ?w))) = d_heartbeats (w_db ?w)
    \<and> (\<forall>r\<in>set (d_logs (w_db (snd (recover_loop cfg ios dbnow (\<lambda>_. False) now (Suc i) ls (Suc closed) ?w)))).
         if dl_id r \<in> dl_id ` set ls then dl_status r = DeployLogError else r \<in> set (d_logs (w_db ?w)))"
    using Cons.prems(3) by (intro Cons.IH step(2) key rest) simp
  have first: "\<forall>r\<in>set (d_logs (w_db ?w)). if dl_id r = dl_id l then dl_status r = DeployLogError else r \<in> set (d_logs (w_db w))"
    using step(4,5) by (auto simp: set_sql_update)
  have "\<forall>r\<in>set (d_logs (w_db (snd (recover_loop cfg ios dbnow (\<lambda>_. False) now (Suc i) ls (Suc closed) ?w)))).
      if dl_id r \<in> dl_id ` set (l # ls) then dl_status r = DeployLogError else r \<in> set (d_logs (w_db w))"
  proof
    fix r assume r: "r \<in> set (d_logs (w_db (snd (recover_loop cfg ios dbnow (\<lambda>_. False) now (Suc i) ls (Suc closed) ?w))))"
    show "if dl_id r \<in> dl_id ` set (l # ls) then dl_status r = DeployLogError else r \<in> set (d_logs (w_db w))"
    proof (cases "dl_id r \<in> dl_id ` set ls")
      case True
      with IH r show ?thesis by auto
    next
      case False
      with IH r have "r \<in> set (d_logs (w_db ?w))" by auto
      with first have "if dl_id r = dl_id l then dl_status r = DeployLogError else r \<in> set (d_logs (w_db w))" by blast
      with False show ?thesis by (auto split: if_splits)
    qed
  qed
  with IH step(3) show ?case unfolding loop by simp
qed

lemma candidates_of:
  assumes "ListInterruptCandidates None dbnow now self st limit d = Inr ls"
    and "length (filter (interrupt_candidate dbnow now self st (d_heartbeats d)) (d_logs d)) \<le> limit"
  shows "dl_id ` set ls = dl_id ` {l \<in> set (d_logs d). interrupt_candidate dbnow now self st (d_heartbeats d) l}"
    and "keyed dl_id (d_logs d) \<Longrightarrow> distinct (map dl_id ls)"
    and "length ls = length (filter (interrupt_candidate dbnow now self st (d_heartbeats d)) (d_logs d))"
    and "l \<in> set ls \<Longrightarrow> \<exists>r\<in>set (d_logs d). interrupt_candidate dbnow now self st (d_heartbeats d) r \<and> l = candidate_columns r"
proof -
  let ?c = "filter (interrupt_candidate dbnow now self st (d_heartbeats d)) (d_logs d)"
  have ls: "ls = map candidate_columns (sort_key dl_started_at ?c)"
    using assms by (simp add: ListInterruptCandidates_def)
  show "dl_id ` set ls = dl_id ` {l \<in> set (d_logs d). interrupt_candidate dbnow now self st (d_heartbeats d) l}"
    by (simp add: ls image_image)
  show "length ls = length ?c" by (simp add: ls)
  show "l \<in> set ls \<Longrightarrow> \<exists>r\<in>set (d_logs d). interrupt_candidate dbnow now self st (d_heartbeats d) r \<and> l = candidate_columns r"
    by (auto simp: ls)
  assume "keyed dl_id (d_logs d)"
  then have "keyed dl_id ?c" by (rule keyed_filter)
  then have "distinct (map dl_id (sort_key dl_started_at ?c))"
    by (simp add: keyed_def distinct_map)
  then show "distinct (map dl_id ls)" by (simp add: ls comp_def)
qed

text \<open>C25. One undisturbed check ends every interrupted operation: when at most 100 logs qualify,
  nothing fails and the database clock does not go back, the check reports exactly their number and
  afterwards no log of a stopped replica is past its deadline and still running.\<close>

theorem recover_complete:
  assumes "keyed si_id (d_instances (w_db w))" and "keyed dl_id (d_logs (w_db w))"
    and "length (filter (interrupt_candidate dbnow0 now (rc_self_id cfg) (rc_stale_after cfg)
           (d_heartbeats (w_db w))) (d_logs (w_db w))) \<le> 100"
    and "\<forall>i. dbnow0 \<le> dbnow i"
    and "recover cfg (quiet now) dbnow0 (\<lambda>_. quiet now) dbnow (\<lambda>_. False) now w = (n, w')"
  shows "n = length (filter (interrupt_candidate dbnow0 now (rc_self_id cfg) (rc_stale_after cfg)
           (d_heartbeats (w_db w))) (d_logs (w_db w)))
    \<and> filter (interrupt_candidate dbnow0 now (rc_self_id cfg) (rc_stale_after cfg) (d_heartbeats (w_db w')))
        (d_logs (w_db w')) = []"
proof -
  let ?cand = "interrupt_candidate dbnow0 now (rc_self_id cfg) (rc_stale_after cfg) (d_heartbeats (w_db w))"
  obtain ls where ls: "ListInterruptCandidates None dbnow0 now (rc_self_id cfg) (rc_stale_after cfg) 100 (w_db w) = Inr ls"
    by (auto simp: ListInterruptCandidates_def)
  note cs = candidates_of [OF ls assms(3)]
  have rec: "recover_loop cfg (\<lambda>_. quiet now) dbnow (\<lambda>_. False) now 0 ls 0 w = (n, w')"
    using assms(5) ls by (simp add: recover_def Let_def db_read_def)
  have "endable cfg dbnow0 (w_db w) l \<and> dl_replica_id l \<noteq> [] \<and> dl_replica_id l \<noteq> rc_self_id cfg" if "l \<in> set ls" for l
    using cs(4) [OF that] row_of_Some_iff [OF assms(2)] by (fastforce simp: endable_def interrupt_candidate_def)
  then have "\<forall>l\<in>set ls. endable cfg dbnow0 (w_db w) l \<and> dl_replica_id l \<noteq> [] \<and> dl_replica_id l \<noteq> rc_self_id cfg"
    by blast
  note post = recover_loop_quiet [where i = 0 and closed = 0 and now = now and ios = "\<lambda>_. quiet now" and dbnow = dbnow,
      OF _ assms(4) assms(1,2) cs(2) [OF assms(2)] this, unfolded rec, simplified]
  have hb: "d_heartbeats (w_db w') = d_heartbeats (w_db w)" and n: "n = length ls"
    and rows: "\<forall>r\<in>set (d_logs (w_db w')). if dl_id r \<in> dl_id ` set ls then dl_status r = DeployLogError else r \<in> set (d_logs (w_db w))"
    using post by blast+
  have "\<not> ?cand r" if "r \<in> set (d_logs (w_db w'))" for r
  proof
    assume r: "?cand r"
    then have "dl_id r \<notin> dl_id ` set ls" using rows that by (auto simp: interrupt_candidate_def split: if_splits)
    with rows that have "r \<in> set (d_logs (w_db w))" by auto
    with r cs(1) \<open>dl_id r \<notin> dl_id ` set ls\<close> show False by blast
  qed
  with n hb cs(3) show ?thesis by (simp add: filter_empty_conv)
qed

theorem recover_complete_witness:
  "filter (interrupt_candidate 500 9 ''me'' 1 [])
     (d_logs (w_db (snd (recover \<lparr>rc_self_id = ''me'', rc_stale_after = 1, rc_audit = True, rc_hub = True, rc_notifier = True\<rparr>
        (quiet 9) 500 (\<lambda>_. quiet 9) (\<lambda>_. 500) (\<lambda>_. False) 9
        (example_world [example_instance] [example_log ''a'' 1 DeployLogRunning\<lparr>dl_replica_id := ''r1'', dl_deadline_at := Some 5\<rparr>] []))))) = []"
proof -
  let ?cfg = "\<lparr>rc_self_id = ''me'', rc_stale_after = 1, rc_audit = True, rc_hub = True, rc_notifier = True\<rparr>"
  let ?w = "example_world [example_instance] [example_log ''a'' 1 DeployLogRunning\<lparr>dl_replica_id := ''r1'', dl_deadline_at := Some 5\<rparr>] []"
  have "d_heartbeats (w_db (snd (recover ?cfg (quiet 9) 500 (\<lambda>_. quiet 9) (\<lambda>_. 500) (\<lambda>_. False) 9 ?w))) = []"
    by (simp add: recover_def db_read_def db_write_def ListInterruptCandidates_def interrupt_candidate_def staleHeartbeatCond_def
        interrupt_def Let_def inst_FindByID_def InterruptOperation_def RunInTx_def interrupt_body_def rows_changed_def close_log_cond_def
        interrupt_req_def isInProgressStatus_def newer_log_cond_def sql_update_def close_log_set_def)
  then show ?thesis
    using recover_complete [of ?w 500 9 ?cfg "\<lambda>_. 500"
        "fst (recover ?cfg (quiet 9) 500 (\<lambda>_. quiet 9) (\<lambda>_. 500) (\<lambda>_. False) 9 ?w)"
        "snd (recover ?cfg (quiet 9) 500 (\<lambda>_. quiet 9) (\<lambda>_. 500) (\<lambda>_. False) 9 ?w)"]
    by (simp add: interrupt_candidate_def)
qed

end
