(* ===== verification/InstanceDelete.thy ===== *)
theory InstanceDelete
  imports World
begin

text \<open>
  The delete of a stack instance (\<open>internal/database/instance_delete.go\<close>): one transaction removes
  the instance with the rows that belong to it, then a second, best-effort step removes the
  definition that quick deploy created for it when no instance uses it any more.
\<close>

section \<open>Operations\<close>

definition without_parent :: "string \<Rightarrow> child_row list \<Rightarrow> child_row list" where
  "without_parent i rows = filter (\<lambda>r. fst r \<noteq> i) rows"

definition delete_step :: "string \<Rightarrow> fault \<Rightarrow> (db \<Rightarrow> db) \<Rightarrow> db \<Rightarrow> (repo_error + unit) \<times> db" where
  "delete_step op flt f d = (case flt of Some e \<Rightarrow> (Inl (DatabaseError op e), d) | None \<Rightarrow> (Inr (), f d))"

text \<open>A missing quota override is not an error of the instance delete.\<close>

definition quota_Delete :: "fault \<Rightarrow> string \<Rightarrow> db \<Rightarrow> (repo_error + unit) \<times> db" where
  "quota_Delete flt i d =
     (case flt of
        Some e \<Rightarrow> (Inl (DatabaseError ''Delete'' e), d)
      | None \<Rightarrow>
          if filter (\<lambda>r. fst r = i) (d_quota_overrides d) = []
          then (Inl (DatabaseError ''Delete'' ErrNotFound), d)
          else (Inr (), d\<lparr>d_quota_overrides := without_parent i (d_quota_overrides d)\<rparr>))"

definition ignore_not_found :: "(repo_error + unit) \<times> db \<Rightarrow> (repo_error + unit) \<times> db" where
  "ignore_not_found res =
     (case fst res of Inl (DatabaseError op ErrNotFound) \<Rightarrow> (Inr (), snd res) | _ \<Rightarrow> res)"

definition DeleteInstanceRecord :: "(string \<Rightarrow> fault) \<Rightarrow> stack_instance \<Rightarrow> db \<Rightarrow> (repo_error + unit) \<times> db" where
  "DeleteInstanceRecord flt inst =
     (let i = si_id inst in
      tx_then (delete_step ''delete_by_instance'' (flt ''branch_override'')
                 (\<lambda>d. d\<lparr>d_branch_overrides := without_parent i (d_branch_overrides d)\<rparr>))
        (\<lambda>_. tx_then (delete_step ''delete_by_instance'' (flt ''value_override'')
                 (\<lambda>d. d\<lparr>d_value_overrides := without_parent i (d_value_overrides d)\<rparr>))
        (\<lambda>_. tx_then (\<lambda>d. ignore_not_found (quota_Delete (flt ''quota_override'') i d))
        (\<lambda>_. tx_then (on_instances (inst_Delete (flt ''instance'') i))
        (\<lambda>_. tx_then (delete_step ''delete_followers_by_instance'' (flt ''follower'')
                 (\<lambda>d. d\<lparr>d_followers := without_parent i (d_followers d)\<rparr>))
        (\<lambda>_. delete_step ''delete_action_runs'' (flt ''action_run'')
                 (\<lambda>d. d\<lparr>d_action_runs := without_parent i (d_action_runs d)\<rparr>)))))))"

definition def_FindByID :: "string \<Rightarrow> fault \<Rightarrow> string \<Rightarrow> db \<Rightarrow> repo_error + stack_definition" where
  "def_FindByID op flt i d =
     (case flt of
        Some e \<Rightarrow> Inl (DatabaseError op e)
      | None \<Rightarrow> (case row_of sd_id i (d_definitions d) of
                   None \<Rightarrow> Inl (DatabaseError op ErrNotFound)
                 | Some s \<Rightarrow> Inr s))"

definition def_Delete :: "fault \<Rightarrow> string \<Rightarrow> db \<Rightarrow> (repo_error + unit) \<times> db" where
  "def_Delete flt i d =
     (case flt of
        Some e \<Rightarrow> (Inl (DatabaseError ''delete'' e), d)
      | None \<Rightarrow>
          if row_of sd_id i (d_definitions d) = None then (Inl (DatabaseError ''delete'' ErrNotFound), d)
          else (Inr (), d\<lparr>d_definitions := filter (\<lambda>s. sd_id s \<noteq> i) (d_definitions d)\<rparr>))"

fun is_not_found :: "repo_error \<Rightarrow> bool" where
  "is_not_found (DatabaseError op ErrNotFound) = True"
| "is_not_found _ = False"

definition CleanupOwnedDefinition :: "(string \<Rightarrow> fault) \<Rightarrow> stack_instance \<Rightarrow> db \<Rightarrow> (repo_error + unit) \<times> db" where
  "CleanupOwnedDefinition flt inst d =
     (if si_stack_definition_id inst = [] then (Inr (), d)
      else case def_FindByID ''find_by_id_for_update'' (flt ''lock_definition'') (si_stack_definition_id inst) d of
             Inl e \<Rightarrow> (if is_not_found e then (Inr (), d) else (Inl e, d))
           | Inr s \<Rightarrow>
               if sd_owner_instance_id s = [] then (Inr (), d)
               else
                 (case (if sd_owner_instance_id s \<noteq> si_id inst
                        then (case inst_FindByID (flt ''find_owner'') (sd_owner_instance_id s) (d_instances d) of
                                Inr _ \<Rightarrow> Inr False
                              | Inl e \<Rightarrow> if is_not_found e then Inr True else Inl e)
                        else Inr True) of
                    Inl e \<Rightarrow> (Inl e, d)
                  | Inr False \<Rightarrow> (Inr (), d)
                  | Inr True \<Rightarrow>
                      (case inst_CountByDefinitionIDs (\<lambda>_. flt ''count_instances'') [sd_id s] (d_instances d) of
                         Inl e \<Rightarrow> (Inl e, d)
                       | Inr counts \<Rightarrow>
                           if (case counts (sd_id s) of None \<Rightarrow> 0 | Some n \<Rightarrow> n) > 0 then (Inr (), d)
                           else tx_then (delete_step ''delete_by_definition'' (flt ''charts'')
                                   (\<lambda>d. d\<lparr>d_chart_configs := without_parent (sd_id s) (d_chart_configs d)\<rparr>))
                                  (\<lambda>_. def_Delete (flt ''definition'') (sd_id s)) d)))"

definition cleanupOwnedDefinitionIfOwned :: "io \<Rightarrow> stack_instance \<Rightarrow> world \<Rightarrow> (repo_error + unit) \<times> world" where
  "cleanupOwnedDefinitionIfOwned io inst w =
     (if si_stack_definition_id inst = [] then (Inr (), w)
      else (let r = in_tx io ''read_owner'' id (\<lambda>d.
                  (case def_FindByID ''find_by_id'' (io_fault io ''find_definition'') (si_stack_definition_id inst) d of
                     Inl e \<Rightarrow> (if is_not_found e then Inr False else Inl e)
                   | Inr s \<Rightarrow> Inr (sd_owner_instance_id s \<noteq> []), d)) w
            in case fst r of
                 Inl e \<Rightarrow> (Inl e, snd r)
               | Inr owned \<Rightarrow>
                   if \<not> owned then (Inr (), snd r)
                   else in_tx io ''cleanup_definition'' id (CleanupOwnedDefinition (io_fault io) inst) (snd r)))"

text \<open>The second step is best effort: its error is only logged.\<close>

definition DeleteInstanceWithOwnedDefinition :: "io \<Rightarrow> stack_instance \<Rightarrow> world \<Rightarrow> (repo_error + unit) \<times> world" where
  "DeleteInstanceWithOwnedDefinition io inst w =
     (let r = in_tx io ''delete_instance'' id (DeleteInstanceRecord (io_fault io) inst) w
      in case fst r of
           Inl e \<Rightarrow> (Inl e, snd r)
         | Inr _ \<Rightarrow> (Inr (), snd (cleanupOwnedDefinitionIfOwned io inst (snd r))))"

section \<open>The instance and its rows\<close>

definition child_tables :: "db \<Rightarrow> child_row list list" where
  "child_tables d = [d_branch_overrides d, d_value_overrides d, d_quota_overrides d, d_followers d, d_action_runs d]"

lemma ignore_not_found_simps:
  "snd (ignore_not_found res) = snd res"
  by (auto simp: ignore_not_found_def split: sum.splits repo_error.splits db_cause.splits)

lemma quota_step:
  assumes "fst (ignore_not_found (quota_Delete flt i d)) = Inr u" and "flt \<noteq> Some ErrNotFound"
  shows "snd (ignore_not_found (quota_Delete flt i d)) = d\<lparr>d_quota_overrides := without_parent i (d_quota_overrides d)\<rparr>"
proof -
  have "without_parent i rows = rows" if "filter (\<lambda>r. fst r = i) rows = []" for rows
    using that by (auto simp: without_parent_def filter_empty_conv filter_id_conv)
  with assms show ?thesis
    by (auto simp: quota_Delete_def ignore_not_found_def split: option.splits if_splits db_cause.splits)
qed

lemma delete_step_ok:
  "fst (delete_step op flt f d) = Inr u \<longleftrightarrow> flt = None"
  "flt = None \<Longrightarrow> snd (delete_step op flt f d) = f d"
  by (auto simp: delete_step_def split: option.splits)

lemma inst_Delete_ok: "fst (inst_Delete flt i t) = Inr u \<Longrightarrow> snd (inst_Delete flt i t) = filter (\<lambda>r. si_id r \<noteq> i) t"
  by (auto simp: inst_Delete_def split: option.splits if_splits)

lemma DeleteInstanceRecord_ok:
  assumes ok: "fst (DeleteInstanceRecord flt inst d) = Inr u" and "flt ''quota_override'' \<noteq> Some ErrNotFound"
  shows "snd (DeleteInstanceRecord flt inst d) =
    d\<lparr>d_branch_overrides := without_parent (si_id inst) (d_branch_overrides d),
      d_value_overrides := without_parent (si_id inst) (d_value_overrides d),
      d_quota_overrides := without_parent (si_id inst) (d_quota_overrides d),
      d_instances := filter (\<lambda>r. si_id r \<noteq> si_id inst) (d_instances d),
      d_followers := without_parent (si_id inst) (d_followers d),
      d_action_runs := without_parent (si_id inst) (d_action_runs d)\<rparr>"
  using ok unfolding DeleteInstanceRecord_def Let_def
  by (elim tx_ok) (simp add: delete_step_ok quota_step [OF _ assms(2)] on_instances_def Let_def inst_Delete_ok)

text \<open>The second step touches the definition and its charts only.\<close>

definition keeps_instances :: "db \<Rightarrow> db \<Rightarrow> bool" where
  "keeps_instances d d' \<longleftrightarrow>
     d_instances d' = d_instances d \<and> d_logs d' = d_logs d \<and> child_tables d' = child_tables d"

lemma keeps_instances_refl [simp]: "keeps_instances d d"
  by (simp add: keeps_instances_def)

lemma CleanupOwnedDefinition_frame: "keeps_instances d (snd (CleanupOwnedDefinition flt inst d))"
proof -
  have "keeps_instances d (snd (tx_then (delete_step op f1 (\<lambda>d. d\<lparr>d_chart_configs := without_parent i (d_chart_configs d)\<rparr>))
      (\<lambda>_. def_Delete f2 i) d))" for op f1 f2 i
    by (auto simp: keeps_instances_def child_tables_def tx_then_def delete_step_def def_Delete_def split: option.splits)
  then show ?thesis
    by (auto simp: CleanupOwnedDefinition_def split: sum.splits if_splits bool.splits)
qed

lemma in_tx_snd:
  "w_db (snd (in_tx io s wrap body w)) = snd (RunInTx (io_fault io s) wrap body (io_env io s (w_db w)))"
  "fst (in_tx io s wrap body w) = fst (RunInTx (io_fault io s) wrap body (io_env io s (w_db w)))"
  by (simp_all add: in_tx_def)

lemma RunInTx_snd_cases: "snd (RunInTx flt wrap body d) = d \<or> snd (RunInTx flt wrap body d) = snd (body d)"
  by (auto simp: RunInTx_def split: prod.splits sum.splits option.splits)

lemma cleanup_frame:
  assumes "\<And>s d. io_env io s d = d"
  shows "keeps_instances (w_db w) (w_db (snd (cleanupOwnedDefinitionIfOwned io inst w)))"
proof -
  let ?body = "\<lambda>d. (case def_FindByID ''find_by_id'' (io_fault io ''find_definition'') (si_stack_definition_id inst) d of
       Inl e \<Rightarrow> (if is_not_found e then Inr False else Inl e) | Inr s \<Rightarrow> Inr (sd_owner_instance_id s \<noteq> []), d)"
  let ?w1 = "snd (in_tx io ''read_owner'' id ?body w)"
  have w1: "w_db ?w1 = w_db w"
    using RunInTx_snd_cases [of "io_fault io ''read_owner''" id ?body "w_db w"] assms
    by (simp only: in_tx_snd) auto
  have "keeps_instances (w_db w) (w_db (snd (in_tx io ''cleanup_definition'' id (CleanupOwnedDefinition (io_fault io) inst) v)))"
    if "w_db v = w_db w" for v
    using RunInTx_snd_cases [of "io_fault io ''cleanup_definition''" id "CleanupOwnedDefinition (io_fault io) inst" "w_db w"]
      CleanupOwnedDefinition_frame [of "w_db w" "io_fault io" inst]
    by (auto simp: in_tx_snd assms that)
  then show ?thesis
    using w1 by (auto simp: cleanupOwnedDefinitionIfOwned_def Let_def split: sum.splits)
qed

lemma delete_instance_effect:
  assumes env: "\<And>s d. io_env io s d = d" and nf: "io_fault io ''quota_override'' \<noteq> Some ErrNotFound"
    and run: "DeleteInstanceWithOwnedDefinition io inst w = (res, w')"
  shows "(\<forall>e. res = Inl e \<longrightarrow> w_db w' = w_db w)
    \<and> (res = Inr () \<longrightarrow>
        d_instances (w_db w') = filter (\<lambda>r. si_id r \<noteq> si_id inst) (d_instances (w_db w))
        \<and> child_tables (w_db w') = map (without_parent (si_id inst)) (child_tables (w_db w))
        \<and> d_logs (w_db w') = d_logs (w_db w))"
proof -
  let ?r = "in_tx io ''delete_instance'' id (DeleteInstanceRecord (io_fault io) inst) w"
  let ?tx = "RunInTx (io_fault io ''delete_instance'') id (DeleteInstanceRecord (io_fault io) inst) (w_db w)"
  have r: "fst ?r = fst ?tx" "w_db (snd ?r) = snd ?tx" by (simp_all add: in_tx_snd env)
  show ?thesis
  proof (cases "fst ?tx")
    case (Inl e)
    with r RunInTx_fail [OF Inl] run show ?thesis
      by (auto simp: DeleteInstanceWithOwnedDefinition_def Let_def)
  next
    case (Inr u)
    then have body: "?tx = DeleteInstanceRecord (io_fault io) inst (w_db w)" by (metis RunInTx_ok)
    have fr: "keeps_instances (snd ?tx) (w_db w')"
      using run r Inr cleanup_frame [OF env, of "snd ?r" inst]
      by (auto simp: DeleteInstanceWithOwnedDefinition_def Let_def)
    have "fst (DeleteInstanceRecord (io_fault io) inst (w_db w)) = Inr u" using Inr body by simp
    from DeleteInstanceRecord_ok [OF this nf] body have d: "d_instances (snd ?tx) = filter (\<lambda>r. si_id r \<noteq> si_id inst) (d_instances (w_db w))"
        "child_tables (snd ?tx) = map (without_parent (si_id inst)) (child_tables (w_db w))"
        "d_logs (snd ?tx) = d_logs (w_db w)"
      by (simp_all add: child_tables_def)
    with fr run r Inr show ?thesis
      by (auto simp: keeps_instances_def DeleteInstanceWithOwnedDefinition_def Let_def)
  qed
qed

text \<open>Deleting an instance is all or nothing and leaves no orphans: when the delete reports an
  error the database is unchanged, and when it reports success the instance row and every branch,
  value and quota override, follower and action run of it are gone while all other instances and
  all deployment logs stay; a failure of the definition cleanup never turns into a failure of the
  delete.\<close>

theorem delete_instance_complete:
  assumes env: "\<And>s d. io_env io s d = d" and nf: "io_fault io ''quota_override'' \<noteq> Some ErrNotFound"
    and run: "DeleteInstanceWithOwnedDefinition io inst w = (res, w')"
  shows "(\<forall>e. res = Inl e \<longrightarrow> w_db w' = w_db w)
    \<and> (res = Inr () \<longrightarrow>
        d_instances (w_db w') = filter (\<lambda>r. si_id r \<noteq> si_id inst) (d_instances (w_db w))
        \<and> child_tables (w_db w') = map (without_parent (si_id inst)) (child_tables (w_db w))
        \<and> d_logs (w_db w') = d_logs (w_db w))"
  using assms by (rule delete_instance_effect)

theorem delete_instance_complete_witness:
  "child_tables (w_db (snd (DeleteInstanceWithOwnedDefinition (quiet 9) example_instance
     ((example_world [example_instance] [] [])\<lparr>w_db := empty_db\<lparr>d_instances := [example_instance],
        d_followers := [(''i1'', ''u2''), (''i2'', ''u2'')], d_value_overrides := [(''i1'', ''v1'')]\<rparr>\<rparr>)))) =
   [[], [], [], [(''i2'', ''u2'')], []]"
proof -
  let ?w = "(example_world [example_instance] [] [])\<lparr>w_db := empty_db\<lparr>d_instances := [example_instance],
        d_followers := [(''i1'', ''u2''), (''i2'', ''u2'')], d_value_overrides := [(''i1'', ''v1'')]\<rparr>\<rparr>"
  have "fst (DeleteInstanceWithOwnedDefinition (quiet 9) example_instance ?w) = Inr ()"
    by (simp add: DeleteInstanceWithOwnedDefinition_def in_tx_def db_write_def RunInTx_def Let_def DeleteInstanceRecord_def
        tx_then_def delete_step_def ignore_not_found_def quota_Delete_def on_instances_def inst_Delete_def empty_db_def)
  then show ?thesis
    using delete_instance_complete [of "quiet 9" example_instance ?w "Inr ()"
        "snd (DeleteInstanceWithOwnedDefinition (quiet 9) example_instance ?w)"]
    by (simp add: prod_eq_iff child_tables_def without_parent_def empty_db_def)
qed

lemma delete_record_quiet:
  assumes "si_id inst \<in> si_id ` set (d_instances d)"
  shows "fst (DeleteInstanceRecord (\<lambda>_. None) inst d) = Inr ()"
proof -
  have "filter (\<lambda>r. si_id r = si_id inst) (d_instances d) \<noteq> []"
    using assms by (auto simp: filter_empty_conv)
  then show ?thesis
    by (auto simp: DeleteInstanceRecord_def Let_def tx_then_Inr delete_step_def on_instances_def inst_Delete_def
        ignore_not_found_def quota_Delete_def)
qed

lemma delete_quiet:
  assumes "si_id inst \<in> si_id ` set (d_instances (w_db w))"
  shows "fst (DeleteInstanceWithOwnedDefinition (quiet n) inst w) = Inr ()"
    and "d_instances (w_db (snd (DeleteInstanceWithOwnedDefinition (quiet n) inst w))) =
      filter (\<lambda>r. si_id r \<noteq> si_id inst) (d_instances (w_db w))"
    and "d_logs (w_db (snd (DeleteInstanceWithOwnedDefinition (quiet n) inst w))) = d_logs (w_db w)"
proof -
  have f: "io_fault (quiet n) = (\<lambda>_. None)" by (simp add: fun_eq_iff)
  show ok: "fst (DeleteInstanceWithOwnedDefinition (quiet n) inst w) = Inr ()"
    using delete_record_quiet [OF assms]
    by (auto simp: DeleteInstanceWithOwnedDefinition_def Let_def in_tx_snd RunInTx_def f split: prod.splits)
  from delete_instance_effect [of "quiet n" inst w "Inr ()" "snd (DeleteInstanceWithOwnedDefinition (quiet n) inst w)"] ok
  show "d_instances (w_db (snd (DeleteInstanceWithOwnedDefinition (quiet n) inst w))) =
      filter (\<lambda>r. si_id r \<noteq> si_id inst) (d_instances (w_db w))"
    and "d_logs (w_db (snd (DeleteInstanceWithOwnedDefinition (quiet n) inst w))) = d_logs (w_db w)"
    by (simp_all add: prod_eq_iff)
qed

lemma count_one_definition:
  assumes "inst_CountByDefinitionIDs (\<lambda>_. flt) [x] t = Inr m"
  shows "(case m x of None \<Rightarrow> 0 | Some n \<Rightarrow> n) = count_list (map si_stack_definition_id t) x"
proof -
  have "flt = None" using assms
    by (cases flt) (auto simp: inst_CountByDefinitionIDs_def chunks.simps)
  with assms have "m = put_rows fst snd (group_counts si_stack_definition_id t [x]) Map.empty"
    by (simp add: inst_CountByDefinitionIDs_def chunks.simps)
  then show ?thesis by (auto simp: put_group_counts count_list_0_iff)
qed

text \<open>The cleanup of quick deploy definitions never takes a definition from anybody: whatever
  instance was deleted and whichever statements fail, a definition stays when a user created it,
  when an instance still uses it, or when it belongs to another instance that still exists.\<close>

theorem cleanup_keeps_used_definition:
  assumes "keyed sd_id (d_definitions d)" and "s \<in> set (d_definitions d)"
    and "sd_owner_instance_id s = []
      \<or> sd_id s \<in> si_stack_definition_id ` set (d_instances d)
      \<or> (sd_owner_instance_id s \<noteq> si_id inst \<and> sd_owner_instance_id s \<in> si_id ` set (d_instances d)
          \<and> flt ''find_owner'' \<noteq> Some ErrNotFound)"
  shows "s \<in> set (d_definitions (snd (CleanupOwnedDefinition flt inst d)))"
proof (rule ccontr)
  assume gone: "s \<notin> set (d_definitions (snd (CleanupOwnedDefinition flt inst d)))"
  define c where "c = CleanupOwnedDefinition flt inst d"
  have moved: "snd c \<noteq> d" using gone assms(2) c_def by auto
  obtain s' where s': "def_FindByID ''find_by_id_for_update'' (flt ''lock_definition'') (si_stack_definition_id inst) d = Inr s'"
    using moved unfolding c_def CleanupOwnedDefinition_def by (auto split: sum.splits if_splits)
  have own: "sd_owner_instance_id s' \<noteq> []"
    using moved s' unfolding c_def CleanupOwnedDefinition_def by (auto split: if_splits)
  have other: "sd_owner_instance_id s' \<noteq> si_id inst \<Longrightarrow>
      \<exists>e. inst_FindByID (flt ''find_owner'') (sd_owner_instance_id s') (d_instances d) = Inl e \<and> is_not_found e"
    using moved s' own unfolding c_def CleanupOwnedDefinition_def by (auto split: sum.splits if_splits)
  obtain m where m: "inst_CountByDefinitionIDs (\<lambda>_. flt ''count_instances'') [sd_id s'] (d_instances d) = Inr m"
      "(case m (sd_id s') of None \<Rightarrow> 0 | Some n \<Rightarrow> n) = (0::nat)"
    using moved s' own unfolding c_def CleanupOwnedDefinition_def
    by (auto split: sum.splits if_splits bool.splits)
  have unused: "sd_id s' \<notin> si_stack_definition_id ` set (d_instances d)"
    using m count_one_definition [OF m(1)] by (auto simp: count_list_0_iff)
  have "d_definitions (snd c) = d_definitions d \<or> d_definitions (snd c) = filter (\<lambda>x. sd_id x \<noteq> sd_id s') (d_definitions d)"
    using s' unfolding c_def CleanupOwnedDefinition_def
    by (auto simp: tx_then_def delete_step_def def_Delete_def split: sum.splits if_splits bool.splits option.splits)
  with gone assms(2) have "sd_id s = sd_id s'" by (auto simp: c_def)
  moreover have "s' \<in> set (d_definitions d)"
    using s' by (auto simp: def_FindByID_def split: option.splits dest: row_of_SomeD)
  ultimately have "s = s'"
    using assms(2) row_of_Some_iff [OF assms(1), of "sd_id s" s] row_of_Some_iff [OF assms(1), of "sd_id s" s'] by simp
  with assms(3) own unused have "sd_owner_instance_id s \<noteq> si_id inst"
      "sd_owner_instance_id s \<in> si_id ` set (d_instances d)" "flt ''find_owner'' \<noteq> Some ErrNotFound" by auto
  with other \<open>s = s'\<close> show False
    by (auto simp: inst_FindByID_def row_of_None_iff split: option.splits elim!: is_not_found.elims)
qed

definition example_definition :: "string \<Rightarrow> string \<Rightarrow> stack_definition" where
  "example_definition i owner =
     \<lparr>sd_id = i, sd_name = ''web'', sd_description = [], sd_owner_id = ''u1'', sd_source_template_id = [],
      sd_source_template_version = [], sd_default_branch = [], sd_owner_instance_id = owner, sd_created_at = 0, sd_updated_at = 0\<rparr>"

theorem cleanup_keeps_used_definition_witness:
  "(example_definition ''d1'' ''i9'') \<in>
    set (d_definitions (snd (CleanupOwnedDefinition (\<lambda>_. None) (example_instance\<lparr>si_id := ''i9''\<rparr>)
      (empty_db\<lparr>d_instances := [example_instance], d_definitions := [(example_definition ''d1'' ''i9'')]\<rparr>))))"
  by (rule cleanup_keeps_used_definition) (simp_all add: empty_db_def example_definition_def)

end
