(* ===== verification/OpErrors.thy ===== *)
theory OpErrors
  imports GoStrings
begin

text \<open>
  The errors of deployer operations and what users see of them: Go error values with their
  wrapping (\<open>fmt.Errorf\<close> with \<open>%w\<close>, the hook errors of \<open>internal/hooks/errors.go\<close>, the pod event
  error of \<open>internal/deployer/pod_events.go\<close>), \<open>hooks.UserMessage\<close>, and \<open>sanitizeDeployError\<close>,
  \<open>isTimeoutError\<close> and \<open>truncateString\<close> of \<open>internal/deployer/manager.go\<close>.
\<close>

section \<open>Error values\<close>

datatype sentinel =
    ErrInvalidQuota
  | ErrDeployInterrupted
  | ErrPostDeployNotStarted
  | ErrDeployCancelled
  | ErrStopInterrupted
  | DeadlineExceeded
  | ErrScopeUnknown

datatype goerr =
    EText string
  | ESentinel sentinel
  | EWrap string goerr string
  | EPodEvent goerr string
  | EHookFailed string goerr
  | EHookDenied string string
  | EHookRedirect nat

fun sentinel_text :: "sentinel \<Rightarrow> string" where
  "sentinel_text ErrInvalidQuota = ''invalid resource quota''"
| "sentinel_text ErrDeployInterrupted = ''Interrupted by a server restart. Deploy again.''"
| "sentinel_text ErrPostDeployNotStarted =
     ''The post-deploy steps did not run: the stack could not be read. Deploy again.''"
| "sentinel_text ErrDeployCancelled = ''deploy cancelled''"
| "sentinel_text ErrStopInterrupted = ''Interrupted by a server restart. Stop again.''"
| "sentinel_text DeadlineExceeded = ''context deadline exceeded''"
| "sentinel_text ErrScopeUnknown = ''could not check where the hook applies: the template of the instance is unknown''"

text \<open>\<open>Error()\<close>.\<close>

fun err_text :: "goerr \<Rightarrow> string" where
  "err_text (EText s) = s"
| "err_text (ESentinel s) = sentinel_text s"
| "err_text (EWrap pre e post) = pre @ err_text e @ post"
| "err_text (EPodEvent e event) = err_text e @ '' (pod event: '' @ event @ '')''"
| "err_text (EHookFailed hook e) = ''hook '' @ go_quote hook @ '' failed (failure_policy=fail): '' @ err_text e"
| "err_text (EHookDenied hook message) = message"
| "err_text (EHookRedirect code) =
     ''hook returned status '' @ digits code @ '' (redirect; redirects are not followed)''"

fun err_unwrap :: "goerr \<Rightarrow> goerr option" where
  "err_unwrap (EWrap pre e post) = Some e"
| "err_unwrap (EPodEvent e event) = Some e"
| "err_unwrap (EHookFailed hook e) = Some e"
| "err_unwrap _ = None"

text \<open>The chain that \<open>errors.Is\<close> and \<open>errors.As\<close> walk, outermost error first.\<close>

fun err_chain :: "goerr \<Rightarrow> goerr list" where
  "err_chain (EWrap pre e post) = EWrap pre e post # err_chain e"
| "err_chain (EPodEvent e event) = EPodEvent e event # err_chain e"
| "err_chain (EHookFailed hook e) = EHookFailed hook e # err_chain e"
| "err_chain e = [e]"

definition errors_Is :: "goerr \<Rightarrow> sentinel \<Rightarrow> bool" where
  "errors_Is e s \<longleftrightarrow> ESentinel s \<in> set (err_chain e)"

fun as_pod_event :: "goerr list \<Rightarrow> (goerr \<times> string) option" where
  "as_pod_event [] = None"
| "as_pod_event (EPodEvent e event # es) = Some (e, event)"
| "as_pod_event (e # es) = as_pod_event es"

fun as_failed :: "goerr list \<Rightarrow> string option" where
  "as_failed [] = None"
| "as_failed (EHookFailed hook e # es) = Some hook"
| "as_failed (e # es) = as_failed es"

fun as_denied :: "goerr list \<Rightarrow> (string \<times> string) option" where
  "as_denied [] = None"
| "as_denied (EHookDenied hook message # es) = Some (hook, message)"
| "as_denied (e # es) = as_denied es"

fun as_redirect :: "goerr list \<Rightarrow> nat option" where
  "as_redirect [] = None"
| "as_redirect (EHookRedirect code # es) = Some code"
| "as_redirect (e # es) = as_redirect es"

section \<open>User messages of hook errors\<close>

abbreviation maxDenyMessageLen :: nat where "maxDenyMessageLen \<equiv> 500"

definition sanitizeDenyMessage :: "string \<Rightarrow> string" where
  "sanitizeDenyMessage msg =
     (let m1 = Join (Fields msg) '' '';
          m2 = (if length m1 > maxDenyMessageLen
                then take maxDenyMessageLen m1 @ [char_of (226 :: nat), char_of (128 :: nat), char_of (166 :: nat)]
                else m1)
      in if m2 = [] then ''subscriber denied'' else m2)"

definition UserMessage :: "goerr \<Rightarrow> string \<Rightarrow> string \<Rightarrow> string" where
  "UserMessage err event operation =
     (let ch = err_chain err;
          hook = (case as_failed ch of None \<Rightarrow> [] | Some h \<Rightarrow> h)
      in case as_denied ch of
           Some (h, message) \<Rightarrow>
             event @ '' hook '' @ go_quote (if hook = [] then h else hook) @ '' denied the '' @ operation
               @ '': '' @ sanitizeDenyMessage message
         | None \<Rightarrow>
             if hook \<noteq> [] \<and> errors_Is err ErrScopeUnknown
             then event @ '' hook '' @ go_quote hook @ '' failed (could not check where it applies; try again)''
             else if hook \<noteq> [] \<and> as_redirect ch \<noteq> None
             then event @ '' hook '' @ go_quote hook @ '' failed (the subscriber answered with a redirect)''
             else if hook \<noteq> []
             then event @ '' hook '' @ go_quote hook @ '' failed (unreachable or timed out)''
             else event @ '' hook failed'')"

section \<open>Errors of an operation\<close>

abbreviation maxInstanceErrorLen :: nat where "maxInstanceErrorLen \<equiv> 256"
abbreviation maxLogErrorLen :: nat where "maxLogErrorLen \<equiv> 1024"
abbreviation maxOutputLen :: nat where "maxOutputLen \<equiv> 65536"

definition truncateString :: "string \<Rightarrow> nat \<Rightarrow> string" where
  "truncateString s maxLen =
     (if length s \<le> maxLen then s
      else if maxLen \<le> 3 then take maxLen s
      else take (maxLen - 3) s @ ''...'')"

definition isPostDeployHookError :: "goerr \<Rightarrow> bool" where
  "isPostDeployHookError err \<longleftrightarrow>
     HasPrefix (err_text err) ''post-deploy hook'' \<and> as_failed (err_chain err) \<noteq> None"

definition isTimeoutError :: "goerr option \<Rightarrow> bool" where
  "isTimeoutError err \<longleftrightarrow>
     (case err of
        None \<Rightarrow> False
      | Some e \<Rightarrow> errors_Is e DeadlineExceeded
                  \<or> Contains (err_text e) ''timed out'' \<or> Contains (err_text e) ''deadline exceeded'')"

definition sanitize_prefixes :: "string list" where
  "sanitize_prefixes =
     [''pre-deploy hook'', ''pre-rollback hook'', ''post-deploy hook'',
      ''deploying chart '', ''uninstalling chart '', ''deleting namespace '', ''creating temp directory'',
      ''scaling down '', ''scaling up '', ''waiting for MySQL'', ''running PVC cleanup'',
      ''getting history for chart '', ''rolling back chart '']"

fun sanitize_by_prefix :: "string list \<Rightarrow> string \<Rightarrow> string" where
  "sanitize_by_prefix [] msg = ''deployment operation failed''"
| "sanitize_by_prefix (p # ps) msg =
     (if HasPrefix msg p
      then (case IndexByte (CHR '':'') msg of
              Some i \<Rightarrow> if i > 0 then take i msg @ '': operation failed'' else p @ ''operation failed''
            | None \<Rightarrow> p @ ''operation failed'')
      else sanitize_by_prefix ps msg)"

lemma as_pod_event_size: "as_pod_event (err_chain e) = Some (e', ev) \<Longrightarrow> size e' < size e"
  by (induction e) auto

function sanitizeDeployError :: "goerr \<Rightarrow> string" where
  "sanitizeDeployError err =
     (case as_pod_event (err_chain err) of
        Some (e, event) \<Rightarrow> sanitizeDeployError e @ '' (pod event: '' @ event @ '')''
      | None \<Rightarrow>
          (let msg = err_text err in
           if HasPrefix msg ''pre-deploy hook'' \<and> as_failed (err_chain err) \<noteq> None
           then UserMessage err ''pre-deploy'' ''deployment''
           else if isPostDeployHookError err
           then UserMessage err ''post-deploy'' ''deployment''
           else if HasPrefix msg ''all charts failed'' \<or> HasPrefix msg ''partial deploy''
             \<or> errors_Is err ErrInvalidQuota \<or> errors_Is err ErrDeployInterrupted \<or> errors_Is err ErrPostDeployNotStarted
             \<or> errors_Is err ErrDeployCancelled \<or> errors_Is err ErrStopInterrupted
           then msg
           else sanitize_by_prefix sanitize_prefixes msg))"
  by pat_completeness auto
termination
  by (relation "measure size") (auto dest: as_pod_event_size)

declare sanitizeDeployError.simps [simp del]

section \<open>Properties\<close>

lemma truncateString_length: "length (truncateString s n) \<le> n"
  by (auto simp: truncateString_def min_def)

lemma truncateString_keeps: "length s \<le> n \<Longrightarrow> truncateString s n = s"
  by (simp add: truncateString_def)

text \<open>The text of an error up to its first colon.\<close>

definition head_text :: "string \<Rightarrow> string" where
  "head_text s = takeWhile (\<lambda>c. c \<noteq> CHR '':'') s"

lemma IndexByte_takeWhile:
  "IndexByte c s = (if c \<in> set s then Some (length (takeWhile (\<lambda>x. x \<noteq> c) s)) else None)"
  by (induction s) auto

lemma HasPrefix_head:
  assumes "CHR '':'' \<notin> set p"
  shows "HasPrefix s p \<longleftrightarrow> HasPrefix (head_text s) p"
proof
  assume "HasPrefix s p"
  then have s: "s = p @ drop (length p) s"
    by (metis HasPrefix_def append_take_drop_id)
  have "head_text s = p @ head_text (drop (length p) s)"
    using assms by (subst s) (simp add: head_text_def takeWhile_append)
  then show "HasPrefix (head_text s) p" by simp
next
  assume "HasPrefix (head_text s) p"
  then have "head_text s = p @ drop (length p) (head_text s)"
    by (metis HasPrefix_def append_take_drop_id)
  moreover have "s = head_text s @ dropWhile (\<lambda>c. c \<noteq> CHR '':'') s"
    by (simp add: head_text_def)
  ultimately show "HasPrefix s p" by (metis HasPrefix_append append_assoc)
qed

lemma sanitize_by_prefix_head:
  assumes "head_text a = head_text b" and "CHR '':'' \<in> set a" and "CHR '':'' \<in> set b"
    and "\<forall>p\<in>set ps. CHR '':'' \<notin> set p"
  shows "sanitize_by_prefix ps a = sanitize_by_prefix ps b"
  using assms(4)
proof (induction ps)
  case Nil
  then show ?case by simp
next
  case (Cons p ps)
  have pre: "HasPrefix a p = HasPrefix b p"
    using Cons.prems assms(1) HasPrefix_head [of p a] HasPrefix_head [of p b] by simp
  have idx: "IndexByte (CHR '':'') a = IndexByte (CHR '':'') b"
    using assms by (simp add: IndexByte_takeWhile head_text_def)
  have "take (length (head_text a)) a = head_text a" "take (length (head_text b)) b = head_text b"
    unfolding head_text_def by (metis append_eq_conv_conj takeWhile_dropWhile_id)+
  with assms(1) have tk: "take (length (head_text a)) a = take (length (head_text a)) b" by simp
  have ia: "IndexByte (CHR '':'') a = Some (length (head_text a))"
    using assms(2) by (simp add: IndexByte_takeWhile head_text_def)
  with idx have ib: "IndexByte (CHR '':'') b = Some (length (head_text a))" by simp
  have "sanitize_by_prefix ps a = sanitize_by_prefix ps b" using Cons by simp
  with pre ia ib tk show ?case by simp
qed

text \<open>An error that is not one of the user-safe kinds: its text can hold cluster names, URLs or
  credentials.\<close>

definition raw_error :: "goerr \<Rightarrow> bool" where
  "raw_error e \<longleftrightarrow>
     as_pod_event (err_chain e) = None \<and> as_failed (err_chain e) = None
     \<and> \<not> HasPrefix (err_text e) ''all charts failed'' \<and> \<not> HasPrefix (err_text e) ''partial deploy''
     \<and> (\<forall>s\<in>{ErrInvalidQuota, ErrDeployInterrupted, ErrPostDeployNotStarted, ErrDeployCancelled, ErrStopInterrupted}.
          \<not> errors_Is e s)"

lemma sanitize_no_pod:
  assumes "as_pod_event (err_chain e) = None"
  shows "sanitizeDeployError e =
    (if HasPrefix (err_text e) ''pre-deploy hook'' \<and> as_failed (err_chain e) \<noteq> None
     then UserMessage e ''pre-deploy'' ''deployment''
     else if isPostDeployHookError e then UserMessage e ''post-deploy'' ''deployment''
     else if HasPrefix (err_text e) ''all charts failed'' \<or> HasPrefix (err_text e) ''partial deploy''
       \<or> errors_Is e ErrInvalidQuota \<or> errors_Is e ErrDeployInterrupted \<or> errors_Is e ErrPostDeployNotStarted
       \<or> errors_Is e ErrDeployCancelled \<or> errors_Is e ErrStopInterrupted
     then err_text e
     else sanitize_by_prefix sanitize_prefixes (err_text e))"
  using assms by (subst sanitizeDeployError.simps) (simp add: Let_def)

lemma sanitize_raw: "raw_error e \<Longrightarrow> sanitizeDeployError e = sanitize_by_prefix sanitize_prefixes (err_text e)"
  by (simp add: raw_error_def sanitize_no_pod isPostDeployHookError_def)

text \<open>What users see of a raw operation error does not depend on anything after its first
  colon: two such errors with the same text up to the colon are shown as the same message, so
  command output, URLs and credentials in the wrapped error cannot reach the instance or the log
  message.\<close>

theorem sanitize_hides_details:
  assumes "raw_error e1" and "raw_error e2"
    and "head_text (err_text e1) = head_text (err_text e2)"
    and "CHR '':'' \<in> set (err_text e1)" and "CHR '':'' \<in> set (err_text e2)"
  shows "sanitizeDeployError e1 = sanitizeDeployError e2"
proof -
  have "\<forall>p\<in>set sanitize_prefixes. CHR '':'' \<notin> set p" by (simp add: sanitize_prefixes_def)
  from sanitize_by_prefix_head [OF assms(3-5) this] show ?thesis
    by (simp only: sanitize_raw [OF assms(1)] sanitize_raw [OF assms(2)])
qed

theorem sanitize_hides_details_witness:
  "sanitizeDeployError (EWrap ''deploying chart web: '' (EText ''helm failed: token=abc'') []) =
   sanitizeDeployError (EWrap ''deploying chart web: '' (EText ''exit status 1'') [])"
  by (rule sanitize_hides_details) (simp_all add: raw_error_def errors_Is_def HasPrefix_def head_text_def)

text \<open>The message of a failed hook never shows the transport error, which can hold the
  subscriber URL: for a hook that did not deny, the text is the same for every pair of transport
  errors.\<close>

theorem hook_message_hides_transport:
  assumes "event \<in> {''pre-deploy'', ''post-deploy''}"
  shows "sanitizeDeployError (EWrap (event @ '' hook: '') (EHookFailed hook (EText t1)) []) =
         sanitizeDeployError (EWrap (event @ '' hook: '') (EHookFailed hook (EText t2)) [])"
proof -
  have "UserMessage (EWrap a (EHookFailed hook (EText t1)) []) ev op = UserMessage (EWrap a (EHookFailed hook (EText t2)) []) ev op"
    for a ev op by (simp add: UserMessage_def errors_Is_def)
  with assms show ?thesis
    by (elim insertE emptyE) (simp_all add: sanitize_no_pod isPostDeployHookError_def HasPrefix_def)
qed

theorem hook_message_hides_transport_witness:
  "sanitizeDeployError (EWrap (''pre-deploy'' @ '' hook: '') (EHookFailed ''ci'' (EText ''dial tcp 10.0.0.1'')) []) =
   sanitizeDeployError (EWrap (''pre-deploy'' @ '' hook: '') (EHookFailed ''ci'' (EText ''refused'')) [])"
  by (rule hook_message_hides_transport) simp

end
