(* ===== verification/LiveOutput.thy ===== *)
theory LiveOutput
  imports World OpErrors
begin

text \<open>
  The streamed output of the running operations of one process
  (\<open>internal/deployer/live_output.go\<close>): lines are collected per deployment log up to
  \<open>maxOutputLen\<close> bytes and written to the log row every few seconds while the log is running. The
  Go map of buffers is an association list; its order stands for the iteration order.
\<close>

section \<open>Operations\<close>

definition empty_live :: live_output where
  "empty_live = \<lparr>lo_buf = [], lo_full = False, lo_dirty = False\<rparr>"

definition newline :: char where
  "newline = char_of (10 :: nat)"

definition live_put :: "string \<Rightarrow> live_output \<Rightarrow> (string \<times> live_output) list \<Rightarrow> (string \<times> live_output) list" where
  "live_put i lo m = (if i \<in> fst ` set m then map (\<lambda>p. if fst p = i then (i, lo) else p) m else m @ [(i, lo)])"

definition append_line :: "string \<Rightarrow> live_output \<Rightarrow> live_output" where
  "append_line line lo =
     (if lo_full lo then lo
      else if length (lo_buf lo) + length line + 1 > maxOutputLen then lo\<lparr>lo_full := True\<rparr>
      else lo\<lparr>lo_buf := lo_buf lo @ line @ [newline], lo_dirty := True\<rparr>)"

definition appendLiveOutput :: "string \<Rightarrow> string \<Rightarrow> world \<Rightarrow> world" where
  "appendLiveOutput logID line w =
     (if logID = [] then w
      else w\<lparr>w_live := live_put logID
               (append_line line (case map_of (w_live w) logID of None \<Rightarrow> empty_live | Some lo \<Rightarrow> lo)) (w_live w)\<rparr>)"

definition dropLiveOutput :: "string \<Rightarrow> world \<Rightarrow> world" where
  "dropLiveOutput logID w = w\<lparr>w_live := filter (\<lambda>p. fst p \<noteq> logID) (w_live w)\<rparr>"

definition mark_dirty :: "string \<Rightarrow> world \<Rightarrow> world" where
  "mark_dirty logID w =
     (case map_of (w_live w) logID of
        None \<Rightarrow> w
      | Some lo \<Rightarrow> w\<lparr>w_live := live_put logID (lo\<lparr>lo_dirty := True\<rparr>) (w_live w)\<rparr>)"

text \<open>The write of one pending buffer: sites \<open>live_output\<close> and \<open>live_output_count\<close>.\<close>

definition flush_one :: "io \<Rightarrow> string \<times> string \<Rightarrow> world \<Rightarrow> world" where
  "flush_one io p w =
     (let r = db_write io ''live_output'' (on_logs (log_UpdateRunningOutput (io_fault io ''live_output'')
                (io_fault io ''live_output_count'') (fst p) (snd p))) w
      in case fst r of
           Inr _ \<Rightarrow> snd r
         | Inl ErrDeployLogNotRunning \<Rightarrow> dropLiveOutput (fst p) (snd r)
         | Inl _ \<Rightarrow> mark_dirty (fst p) (snd r))"

fun flush_all :: "(nat \<Rightarrow> io) \<Rightarrow> nat \<Rightarrow> (string \<times> string) list \<Rightarrow> world \<Rightarrow> world" where
  "flush_all ios i [] w = w"
| "flush_all ios i (p # ps) w = flush_all ios (Suc i) ps (flush_one (ios i) p w)"

definition pending_outputs :: "(string \<times> live_output) list \<Rightarrow> (string \<times> string) list" where
  "pending_outputs m = map (\<lambda>p. (fst p, lo_buf (snd p))) (filter (\<lambda>p. lo_dirty (snd p)) m)"

definition flushLiveOutputs :: "(nat \<Rightarrow> io) \<Rightarrow> world \<Rightarrow> bool \<times> world" where
  "flushLiveOutputs ios w =
     (let todo = pending_outputs (w_live w);
          w1 = w\<lparr>w_live := map (\<lambda>p. (fst p, (snd p)\<lparr>lo_dirty := False\<rparr>)) (w_live w)\<rparr>;
          w2 = flush_all ios 0 todo w1
      in (w_live w2 \<noteq> [], w2))"

section \<open>Lemmas\<close>

definition live_ok :: "world \<Rightarrow> bool" where
  "live_ok w \<longleftrightarrow> (\<forall>p\<in>set (w_live w). length (lo_buf (snd p)) \<le> maxOutputLen)"

lemma append_line_bound: "length (lo_buf lo) \<le> maxOutputLen \<Longrightarrow> length (lo_buf (append_line line lo)) \<le> maxOutputLen"
  by (simp add: append_line_def)

lemma set_live_put: "set (live_put i lo m) \<subseteq> insert (i, lo) (set m)"
  by (auto simp: live_put_def)

lemma live_ok_put:
  "live_ok w \<Longrightarrow> length (lo_buf lo) \<le> maxOutputLen \<Longrightarrow> live_ok (w\<lparr>w_live := live_put i lo (w_live w)\<rparr>)"
  using set_live_put by (fastforce simp: live_ok_def)

lemma live_ok_lookup: "live_ok w \<Longrightarrow> map_of (w_live w) i = Some lo \<Longrightarrow> length (lo_buf lo) \<le> maxOutputLen"
  by (fastforce simp: live_ok_def dest!: map_of_SomeD)

lemma live_ok_append: "live_ok w \<Longrightarrow> live_ok (appendLiveOutput i line w)"
  unfolding appendLiveOutput_def
  by (auto intro!: live_ok_put append_line_bound simp: empty_live_def live_ok_lookup split: option.splits)

lemma live_ok_drop: "live_ok w \<Longrightarrow> live_ok (dropLiveOutput i w)"
  by (simp add: live_ok_def dropLiveOutput_def)

lemma live_ok_mark: "live_ok w \<Longrightarrow> live_ok (mark_dirty i w)"
  unfolding mark_dirty_def
  by (auto intro!: live_ok_put simp: live_ok_lookup split: option.splits)

lemma live_ok_flush_one: "live_ok w \<Longrightarrow> live_ok (flush_one io p w)"
proof -
  assume w: "live_ok w"
  let ?r = "db_write io ''live_output'' (on_logs (log_UpdateRunningOutput (io_fault io ''live_output'')
                (io_fault io ''live_output_count'') (fst p) (snd p))) w"
  have "live_ok (snd ?r)" using w by (simp add: live_ok_def)
  then show ?thesis
    by (auto simp: flush_one_def Let_def live_ok_drop live_ok_mark split: sum.splits repo_error.splits)
qed

lemma live_ok_flush_all: "live_ok w \<Longrightarrow> live_ok (flush_all ios i ps w)"
  by (induction ps arbitrary: i w) (simp_all add: live_ok_flush_one)

lemma live_ok_clean: "live_ok w \<Longrightarrow> live_ok (w\<lparr>w_live := map (\<lambda>p. (fst p, (snd p)\<lparr>lo_dirty := False\<rparr>)) (w_live w)\<rparr>)"
  by (simp add: live_ok_def)

lemma live_ok_flush: "live_ok w \<Longrightarrow> live_ok (snd (flushLiveOutputs ios w))"
  by (simp add: flushLiveOutputs_def Let_def live_ok_flush_all live_ok_clean)

lemma db_dropLive [simp]: "w_db (dropLiveOutput i w) = w_db w"
  by (simp add: dropLiveOutput_def)

lemma db_markDirty [simp]: "w_db (mark_dirty i w) = w_db w"
  by (simp add: mark_dirty_def split: option.splits)

lemma db_flush_one:
  "w_db (flush_one io p w) = snd (on_logs (log_UpdateRunningOutput (io_fault io ''live_output'')
      (io_fault io ''live_output_count'') (fst p) (snd p)) (io_env io ''live_output'' (w_db w)))"
  by (auto simp: flush_one_def Let_def split: sum.splits repo_error.splits)

text \<open>The live output of an operation never exceeds \<open>maxOutputLen\<close> bytes: appending any line
  (also one that does not fit) and flushing, with whatever database failures, keep every buffer
  within the bound.\<close>

theorem live_output_bounded:
  assumes "live_ok w"
  shows "live_ok (appendLiveOutput i line w)
    \<and> live_ok (dropLiveOutput i w) \<and> live_ok (snd (flushLiveOutputs ios w))"
  using assms by (simp add: live_ok_append live_ok_drop live_ok_flush)

theorem live_output_bounded_witness:
  "live_ok (appendLiveOutput ''a'' ''line'' (example_world [] [] []))"
  using live_output_bounded [of "example_world [] [] []" "''a''" "''line''"]
  by (simp add: live_ok_def example_world_def)

text \<open>A late flush never touches the result of an operation: when the row of a log has ended,
  flushing the live outputs, in whatever order and with whatever failures, leaves that row as it
  is.\<close>

theorem flush_keeps_closed_log:
  assumes "\<And>k s d. io_env (ios k) s d = d"
    and "row_of dl_id i (d_logs (w_db w)) = Some l" and "dl_status l \<noteq> DeployLogRunning"
  shows "row_of dl_id i (d_logs (w_db (snd (flushLiveOutputs ios w)))) = Some l"
proof -
  have "row_of dl_id i (d_logs (w_db (flush_all ios k ps v))) = Some l"
    if "row_of dl_id i (d_logs (w_db v)) = Some l" for k ps v
    using that
  proof (induction ps arbitrary: k v)
    case (Cons p ps)
    have "row_of dl_id i (d_logs (w_db (flush_one (ios k) p v))) = Some l"
      using apply_write_closed_row [OF Cons.prems assms(3), of "WUpdateRunningOutput (io_fault (ios k) ''live_output'')
          (io_fault (ios k) ''live_output_count'') (fst p) (snd p)"]
      by (simp add: db_flush_one assms(1))
    then show ?case using Cons.IH by simp
  qed simp
  with assms(2) show ?thesis by (simp add: flushLiveOutputs_def Let_def)
qed

theorem flush_keeps_closed_log_witness:
  "row_of dl_id ''a'' (d_logs (w_db (snd (flushLiveOutputs (\<lambda>_. quiet 1)
      (appendLiveOutput ''a'' ''late'' (example_world [] [example_log ''a'' 1 DeployLogError] [])))))) =
    Some (example_log ''a'' 1 DeployLogError)"
  by (rule flush_keeps_closed_log) (simp_all add: appendLiveOutput_def)

end
