(* ===== verification/Manager.thy ===== *)
theory Manager
  imports LiveOutput InstanceDelete Recovery
begin

text \<open>
  The deploy manager (\<open>internal/deployer/manager.go\<close>, \<open>deadline.go\<close>, \<open>broadcast.go\<close>): its
  configuration, the time budgets, the status broadcasts, and the start of a deploy, stop, clean
  and rollback. Each start checks the caller, resolves the cluster, writes the deployment log and
  the instance (in one transaction when a transaction runner is configured), broadcasts the new
  status and hands a job to a goroutine.
\<close>

section \<open>Data\<close>

record chart_config =
  cc_id :: string
  cc_stack_definition_id :: string
  cc_chart_name :: string
  cc_repository_url :: string
  cc_source_repo_url :: string
  cc_build_pipeline_id :: string
  cc_chart_path :: string
  cc_chart_version :: string
  cc_default_values :: string
  cc_deploy_order :: int
  cc_created_at :: gtime

record chart_deploy_info =
  ci_config :: chart_config
  ci_values :: string
  ci_branch :: string

text \<open>
  The cluster registry as the manager uses it (interface \<open>ClusterResolver\<close>): each call returns an
  error text or its result; a helm executor is its timeout (none for a nil executor), a Kubernetes
  client is present or not, and the phase of a namespace is asked through the client.
\<close>

record cluster_registry =
  cr_resolve :: "string \<Rightarrow> string + string"
  cr_helm :: "string \<Rightarrow> string + duration option"
  cr_k8s :: "string \<Rightarrow> string + bool"
  cr_phase :: "string \<Rightarrow> string + string"

record manager =
  m_registry :: "cluster_registry option"
  m_replica_id :: string
  m_tx :: bool
  m_hub :: bool
  m_notifier :: bool
  m_hooks :: bool
  m_heartbeats :: bool
  m_shutting_down :: bool
  m_stabilize_timeout :: duration
  m_hook_total :: "string \<Rightarrow> duration"
  m_hook_blocking :: "string \<Rightarrow> duration option"

datatype manager_error =
    RequestCancelled
  | ServerShuttingDown
  | NoClusterRegistry
  | ResolvingCluster string
  | GettingClusterClients string
  | HelmExecutorNil
  | GettingK8sClient string
  | CheckingNamespacePhase string
  | NamespaceTerminatingError string
  | CreatingLog repo_error
  | UpdatingInstance repo_error
  | TransactionFailed repo_error

record job =
  j_instance :: stack_instance
  j_log :: deployment_log
  j_charts :: "chart_deploy_info list"
  j_helm_timeout :: duration
  j_prev_status :: string
  j_prev_error :: string

text \<open>A caller: whether its context has ended, and the trigger it carries.\<close>

record caller =
  ca_cancelled :: bool
  ca_trigger :: "hook_trigger option"

section \<open>Chart versions\<close>

text \<open>\<open>json.Marshal\<close> of a Go map of strings: the keys in order, HTML characters escaped.\<close>

definition json_byte :: "char \<Rightarrow> string" where
  "json_byte c =
     (let n = of_char c :: nat; bs = char_of (92 :: nat) in
      if n = 34 \<or> n = 92 then [bs, c]
      else if n = 8 then bs # ''b'' else if n = 12 then bs # ''f''
      else if n = 10 then bs # ''n'' else if n = 13 then bs # ''r'' else if n = 9 then bs # ''t''
      else if n < 32 \<or> n = 60 \<or> n = 62 \<or> n = 38
      then bs # ''u00'' @ [hex_digit (n div 16), hex_digit (n mod 16)]
      else [c])"

definition json_string :: "string \<Rightarrow> string" where
  "json_string s = char_of (34 :: nat) # concat (map json_byte s) @ [char_of (34 :: nat)]"

definition json_object :: "(string \<times> string) list \<Rightarrow> string" where
  "json_object m =
     ''{'' @ Join (map (\<lambda>p. json_string (fst p) @ '':'' @ json_string (snd p)) (sort_key fst m)) '','' @ ''}''"

definition map_put :: "string \<Rightarrow> string \<Rightarrow> (string \<times> string) list \<Rightarrow> (string \<times> string) list" where
  "map_put k v m = (if k \<in> fst ` set m then map (\<lambda>p. if fst p = k then (k, v) else p) m else m @ [(k, v)])"

definition chartVersionsJSON :: "chart_deploy_info list \<Rightarrow> string" where
  "chartVersionsJSON charts =
     (let m = foldl (\<lambda>m c. if cc_chart_version (ci_config c) \<noteq> []
                           then map_put (cc_chart_name (ci_config c)) (cc_chart_version (ci_config c)) m else m) [] charts
      in if m = [] then [] else json_object m)"

section \<open>Time budgets\<close>

abbreviation DeadlineMargin :: duration where "DeadlineMargin \<equiv> 5 * Minute"
abbreviation chartTimeoutMargin :: duration where "chartTimeoutMargin \<equiv> Minute"
abbreviation blockingPhaseMargin :: duration where "blockingPhaseMargin \<equiv> Minute"
abbreviation uninstallWaitMargin :: duration where "uninstallWaitMargin \<equiv> 10 * Second"

abbreviation EventPreDeploy :: string where "EventPreDeploy \<equiv> ''pre-deploy''"
abbreviation EventPreRollback :: string where "EventPreRollback \<equiv> ''pre-rollback''"
abbreviation EventPostDeploy :: string where "EventPostDeploy \<equiv> ''post-deploy''"

definition helmTimeoutOf :: "duration option \<Rightarrow> duration" where
  "helmTimeoutOf helm = (case helm of None \<Rightarrow> 5 * Minute | Some t \<Rightarrow> t)"

definition deployBudget :: "duration \<Rightarrow> nat \<Rightarrow> duration" where
  "deployBudget helmTimeout charts = int (if charts < 1 then 1 else charts) * helmTimeout + chartTimeoutMargin"

definition preSlotBudget :: "manager \<Rightarrow> string \<Rightarrow> duration" where
  "preSlotBudget m action =
     (if action = DeployActionDeploy then m_hook_total m EventPreDeploy
      else if action = DeployActionRollback then m_hook_total m EventPreRollback
      else 0)"

definition runBudget :: "manager \<Rightarrow> string \<Rightarrow> duration \<Rightarrow> nat \<Rightarrow> duration" where
  "runBudget m action helmTimeout charts =
     (if action = DeployActionDeploy
      then deployBudget helmTimeout charts + m_stabilize_timeout m
           + (case m_hook_blocking m EventPostDeploy of None \<Rightarrow> 0 | Some t \<Rightarrow> t + blockingPhaseMargin)
      else if action = DeployActionRollback
      then deployBudget helmTimeout charts + m_stabilize_timeout m
      else helmTimeout + chartTimeoutMargin)"

definition operationDeadline :: "manager \<Rightarrow> gtime \<Rightarrow> string \<Rightarrow> duration option \<Rightarrow> nat \<Rightarrow> gtime" where
  "operationDeadline m start action helm charts =
     start + (preSlotBudget m action + runBudget m action (helmTimeoutOf helm) charts + DeadlineMargin)"

text \<open>\<open>uninstallWaitTimeout\<close>: \<open>left\<close> is the time until the deadline of the context, if it has one.\<close>

definition uninstallWaitTimeout :: "duration \<Rightarrow> duration option \<Rightarrow> duration" where
  "uninstallWaitTimeout defaultUninstallTimeout left =
     (case left of
        None \<Rightarrow> defaultUninstallTimeout
      | Some l \<Rightarrow>
          (let t = l - uninstallWaitMargin in
           if t > defaultUninstallTimeout then defaultUninstallTimeout
           else if t < Second then Second else t))"

text \<open>
  \<open>extendDeadline\<close>: false when the recovery ended the log while the operation waited for its slot.
  The copy of the log that the goroutine holds follows the stored deadline.
\<close>

definition later_deadline :: "gtime \<Rightarrow> deployment_log \<Rightarrow> deployment_log" where
  "later_deadline d l =
     (case dl_deadline_at l of
        None \<Rightarrow> l\<lparr>dl_deadline_at := Some d\<rparr>
      | Some e \<Rightarrow> if d > e then l\<lparr>dl_deadline_at := Some d\<rparr> else l)"

definition extendDeadline ::
  "manager \<Rightarrow> io \<Rightarrow> deployment_log \<Rightarrow> duration option \<Rightarrow> nat \<Rightarrow> world \<Rightarrow> (bool \<times> deployment_log) \<times> world" where
  "extendDeadline m io l helm charts w =
     (let d = io_now io + (runBudget m (dl_action l) (helmTimeoutOf helm) charts + DeadlineMargin);
          r = db_write io ''extend_deadline'' (on_logs (log_ExtendDeadline (io_fault io ''extend_deadline'')
                (io_fault io ''extend_deadline_count'') (dl_id l) d)) w
      in case fst r of
           Inl ErrDeployLogNotRunning \<Rightarrow>
             ((False, l),
              (emit (InterruptMetric (dl_action l) ''queued_cancelled'') (snd r))
                \<lparr>w_log_actions := (w_log_actions (snd r))(dl_id l := None)\<rparr>)
         | Inl _ \<Rightarrow> ((True, l), snd r)
         | Inr _ \<Rightarrow> ((True, later_deadline d l), snd r))"

section \<open>Messages\<close>

definition delete_action :: "string \<Rightarrow> world \<Rightarrow> world" where
  "delete_action logID w = w\<lparr>w_log_actions := (w_log_actions w)(logID := None)\<rparr>"

definition logAction :: "string \<Rightarrow> string \<Rightarrow> world \<Rightarrow> string \<times> world" where
  "logAction logID status w =
     (let action = (case w_log_actions w logID of None \<Rightarrow> [] | Some a \<Rightarrow> a)
      in (action, if isInProgressStatus status then w else delete_action logID w))"

definition broadcastStatusWithError :: "manager \<Rightarrow> string \<Rightarrow> string \<Rightarrow> string \<Rightarrow> string \<Rightarrow> world \<Rightarrow> world" where
  "broadcastStatusWithError m instanceID status logID message w =
     (if \<not> m_hub m then w
      else (let r = logAction logID status w in emit (StatusMsg instanceID status logID message (fst r)) (snd r)))"

definition broadcastStatus :: "manager \<Rightarrow> string \<Rightarrow> string \<Rightarrow> string \<Rightarrow> world \<Rightarrow> world" where
  "broadcastStatus m instanceID status logID = broadcastStatusWithError m instanceID status logID []"

definition broadcastLog :: "manager \<Rightarrow> string \<Rightarrow> string \<Rightarrow> string \<Rightarrow> world \<Rightarrow> world" where
  "broadcastLog m instanceID logID line w =
     (let w' = appendLiveOutput logID line w in if m_hub m then emit (LogLine instanceID logID line) w' else w')"

definition broadcastInstanceDeleted :: "manager \<Rightarrow> string \<Rightarrow> string \<Rightarrow> world \<Rightarrow> world" where
  "broadcastInstanceDeleted m instanceID logID w =
     (if m_hub m then emit (InstanceDeletedMsg instanceID logID) w else w)"

definition triggerFor :: "string \<Rightarrow> world \<Rightarrow> hook_trigger option" where
  "triggerFor logID w = (if logID = [] then None else w_triggers w logID)"

definition rememberTrigger :: "caller \<Rightarrow> string \<Rightarrow> world \<Rightarrow> world" where
  "rememberTrigger c logID w =
     (let t = (case ca_trigger c of
                 Some t \<Rightarrow> if tr_type t = [] then \<lparr>tr_type = TriggerUser, tr_id = [], tr_name = []\<rparr> else t
               | None \<Rightarrow> \<lparr>tr_type = TriggerUser, tr_id = [], tr_name = []\<rparr>)
      in w\<lparr>w_triggers := (w_triggers w)(logID \<mapsto> t)\<rparr>)"

definition notifyInstance :: "manager \<Rightarrow> string \<Rightarrow> string \<Rightarrow> string \<Rightarrow> string \<Rightarrow> string \<Rightarrow> string \<Rightarrow> world \<Rightarrow> world" where
  "notifyInstance m instanceID notifType title message logID siteURL w =
     (if m_notifier m then emit (Notified instanceID notifType title message (triggerFor logID w) siteURL) w else w)"

text \<open>A post event: the error of a subscriber is ignored.\<close>

definition fireDeployHook ::
  "manager \<Rightarrow> io \<Rightarrow> string \<Rightarrow> stack_instance \<Rightarrow> string \<Rightarrow> gtime \<Rightarrow> (string \<times> string) list \<Rightarrow> world \<Rightarrow> world" where
  "fireDeployHook m io event inst logID startedAt meta w =
     (if m_hooks m
      then emit (HookFired event inst logID (if startedAt = zero_time then io_now io else startedAt) meta
                   (triggerFor logID w)) w
      else w)"

section \<open>Starting an operation\<close>

text \<open>The checks that all four starts share, in their order.\<close>

definition checkCaller :: "manager \<Rightarrow> caller \<Rightarrow> manager_error + cluster_registry" where
  "checkCaller m c =
     (if ca_cancelled c then Inl RequestCancelled
      else if m_shutting_down m then Inl ServerShuttingDown
      else case m_registry m of None \<Rightarrow> Inl NoClusterRegistry | Some r \<Rightarrow> Inr r)"

definition resolveHelm :: "cluster_registry \<Rightarrow> string \<Rightarrow> manager_error + (string \<times> duration)" where
  "resolveHelm r cluster =
     (case cr_resolve r cluster of
        Inl e \<Rightarrow> Inl (ResolvingCluster e)
      | Inr cid \<Rightarrow>
          (case cr_helm r cid of
             Inl e \<Rightarrow> Inl (GettingClusterClients e)
           | Inr None \<Rightarrow> Inl HelmExecutorNil
           | Inr (Some t) \<Rightarrow> Inr (cid, t)))"

definition sort_up :: "chart_deploy_info list \<Rightarrow> chart_deploy_info list" where
  "sort_up charts = sort_key (\<lambda>c. cc_deploy_order (ci_config c)) charts"

definition sort_down :: "chart_deploy_info list \<Rightarrow> chart_deploy_info list" where
  "sort_down charts = sort_key (\<lambda>c. - cc_deploy_order (ci_config c)) charts"

text \<open>
  The log first, then the full row of the instance, in one transaction or as two statements.
\<close>

definition create_log :: "io \<Rightarrow> deployment_log \<Rightarrow> db \<Rightarrow> (manager_error + unit) \<times> db" where
  "create_log io l d =
     (let r = on_logs (log_Create (io_fault io ''create_log'') (io_now io) [] l) d
      in (case fst r of Inl e \<Rightarrow> Inl (CreatingLog e) | Inr _ \<Rightarrow> Inr (), snd r))"

definition update_instance :: "io \<Rightarrow> stack_instance \<Rightarrow> db \<Rightarrow> (manager_error + unit) \<times> db" where
  "update_instance io inst d =
     (let r = on_instances (inst_Update (io_fault io ''update_instance'') (io_now io) inst) d
      in (case fst r of Inl e \<Rightarrow> Inl (UpdatingInstance e) | Inr _ \<Rightarrow> Inr (), snd r))"

definition write_start :: "manager \<Rightarrow> io \<Rightarrow> deployment_log \<Rightarrow> stack_instance \<Rightarrow> world \<Rightarrow> (manager_error + unit) \<times> world" where
  "write_start m io l inst w =
     (if m_tx m
      then in_tx io ''start'' TransactionFailed (tx_then (create_log io l) (\<lambda>_. update_instance io inst)) w
      else (let r = db_write io ''create_log'' (create_log io l) w
            in case fst r of
                 Inl e \<Rightarrow> (Inl e, snd r)
               | Inr _ \<Rightarrow> db_write io ''update_instance'' (update_instance io inst) (snd r)))"

definition new_log :: "manager \<Rightarrow> gtime \<Rightarrow> string \<Rightarrow> string \<Rightarrow> string \<Rightarrow> duration \<Rightarrow> nat \<Rightarrow> deployment_log" where
  "new_log m now logID instanceID action timeout charts =
     zero_log\<lparr>dl_id := logID, dl_stack_instance_id := instanceID, dl_action := action,
       dl_status := DeployLogRunning, dl_replica_id := m_replica_id m,
       dl_deadline_at := Some (operationDeadline m now action (Some timeout) charts), dl_started_at := now\<rparr>"

definition store_action :: "deployment_log \<Rightarrow> world \<Rightarrow> world" where
  "store_action l w = w\<lparr>w_log_actions := (w_log_actions w)(dl_id l \<mapsto> dl_action l)\<rparr>"

definition Deploy ::
  "manager \<Rightarrow> io \<Rightarrow> caller \<Rightarrow> string \<Rightarrow> stack_instance \<Rightarrow> chart_deploy_info list \<Rightarrow> string \<Rightarrow> world
   \<Rightarrow> (manager_error + string \<times> job) \<times> world" where
  "Deploy m io c logID inst charts userID w =
     (case checkCaller m c of
        Inl e \<Rightarrow> (Inl e, w)
      | Inr reg \<Rightarrow>
     (case resolveHelm reg (si_cluster_id inst) of
        Inl e \<Rightarrow> (Inl e, w)
      | Inr (cid, timeout) \<Rightarrow>
     (case cr_k8s reg cid of
        Inl e \<Rightarrow> (Inl (GettingK8sClient e), w)
      | Inr k8s \<Rightarrow>
     (case (if k8s then cr_phase reg (si_namespace inst) else Inr []) of
        Inl e \<Rightarrow> (Inl (CheckingNamespacePhase e), w)
      | Inr phase \<Rightarrow>
          if phase = ''Terminating'' then (Inl (NamespaceTerminatingError (si_namespace inst)), w)
          else
            (let l = (new_log m (io_now io) logID (si_id inst) DeployActionDeploy timeout (length charts))
                       \<lparr>dl_chart_versions := chartVersionsJSON charts, dl_branch := si_branch inst, dl_user_id := userID\<rparr>;
                 inst' = inst\<lparr>si_status := StackStatusDeploying, si_error_message := [], si_stopped_at := None,
                              si_cleaned_at := None, si_post_deploy_hook_until := None\<rparr>;
                 r = write_start m io l inst' (store_action l w)
             in case fst r of
                  Inl e \<Rightarrow> (Inl e, snd r)
                | Inr _ \<Rightarrow>
                    (Inr (logID, \<lparr>j_instance = inst', j_log = l, j_charts = sort_up charts, j_helm_timeout = timeout,
                                   j_prev_status = [], j_prev_error = []\<rparr>),
                     rememberTrigger c logID (broadcastStatus m (si_id inst) StackStatusDeploying logID (snd r))))))))"

definition StopWithCharts ::
  "manager \<Rightarrow> io \<Rightarrow> caller \<Rightarrow> string \<Rightarrow> stack_instance \<Rightarrow> chart_deploy_info list \<Rightarrow> world
   \<Rightarrow> (manager_error + string \<times> job) \<times> world" where
  "StopWithCharts m io c logID inst charts w =
     (case checkCaller m c of
        Inl e \<Rightarrow> (Inl e, w)
      | Inr reg \<Rightarrow>
     (case resolveHelm reg (si_cluster_id inst) of
        Inl e \<Rightarrow> (Inl e, w)
      | Inr (cid, timeout) \<Rightarrow>
          (let l = new_log m (io_now io) logID (si_id inst) DeployActionStop timeout (length charts);
               inst' = inst\<lparr>si_status := StackStatusStopping, si_error_message := []\<rparr>;
               r = write_start m io l inst' (store_action l w)
           in case fst r of
                Inl e \<Rightarrow> (Inl e, snd r)
              | Inr _ \<Rightarrow>
                  (Inr (logID, \<lparr>j_instance = inst', j_log = l, j_charts = sort_down charts, j_helm_timeout = timeout,
                                 j_prev_status = [], j_prev_error = []\<rparr>),
                   rememberTrigger c logID (broadcastStatus m (si_id inst) StackStatusStopping logID (snd r))))))"

text \<open>
  The start of a clean: the conditional update of the instance decides before the log exists. A
  failed start removes the action entry of the log again.
\<close>

definition markCleanStart :: "io \<Rightarrow> string \<Rightarrow> bool \<Rightarrow> db \<Rightarrow> (manager_error + unit) \<times> db" where
  "markCleanStart io instanceID forDelete d =
     (let r = on_instances (inst_MarkCleanStart (io_fault io ''mark_clean'') (io_now io) instanceID CleanStatuses forDelete) d
      in (case fst r of Inl e \<Rightarrow> Inl (UpdatingInstance e) | Inr _ \<Rightarrow> Inr (), snd r))"

definition write_clean_start ::
  "manager \<Rightarrow> io \<Rightarrow> deployment_log \<Rightarrow> string \<Rightarrow> bool \<Rightarrow> world \<Rightarrow> (manager_error + unit) \<times> world" where
  "write_clean_start m io l instanceID forDelete w =
     (if m_tx m
      then in_tx io ''start'' TransactionFailed (tx_then (markCleanStart io instanceID forDelete) (\<lambda>_. create_log io l)) w
      else (let r = db_write io ''mark_clean'' (markCleanStart io instanceID forDelete) w
            in case fst r of
                 Inl e \<Rightarrow> (Inl e, snd r)
               | Inr _ \<Rightarrow> db_write io ''create_log'' (create_log io l) (snd r)))"

definition startClean ::
  "manager \<Rightarrow> io \<Rightarrow> caller \<Rightarrow> string \<Rightarrow> stack_instance \<Rightarrow> chart_config list \<Rightarrow> bool \<Rightarrow> world
   \<Rightarrow> (manager_error + string \<times> job) \<times> world" where
  "startClean m io c logID inst charts forDelete w =
     (case checkCaller m c of
        Inl e \<Rightarrow> (Inl e, w)
      | Inr reg \<Rightarrow>
     (case resolveHelm reg (si_cluster_id inst) of
        Inl e \<Rightarrow> (Inl e, w)
      | Inr (cid, timeout) \<Rightarrow>
     (case cr_k8s reg cid of
        Inl e \<Rightarrow> (Inl (GettingK8sClient e), w)
      | Inr k8s \<Rightarrow>
          (let l = new_log m (io_now io) logID (si_id inst) DeployActionClean timeout (length charts);
               inst' = inst\<lparr>si_status := StackStatusCleaning, si_error_message := [], si_delete_after_clean := forDelete\<rparr>;
               r = write_clean_start m io l (si_id inst) forDelete (store_action l w)
           in case fst r of
                Inl e \<Rightarrow> (Inl e, delete_action logID (snd r))
              | Inr _ \<Rightarrow>
                  (Inr (logID, \<lparr>j_instance = inst', j_log = l,
                                 j_charts = sort_down (map (\<lambda>ch. \<lparr>ci_config = ch, ci_values = [], ci_branch = []\<rparr>) charts),
                                 j_helm_timeout = timeout, j_prev_status = [], j_prev_error = []\<rparr>),
                   rememberTrigger c logID (broadcastStatus m (si_id inst) StackStatusCleaning logID (snd r)))))))"

definition Clean where "Clean m io c logID inst charts = startClean m io c logID inst charts False"

definition CleanForDelete where "CleanForDelete m io c logID inst charts = startClean m io c logID inst charts True"

text \<open>The branch of the revision that a one-revision rollback goes to.\<close>

definition nth_success :: "logs \<Rightarrow> nat \<Rightarrow> string" where
  "nth_success ls want =
     (let good = filter (\<lambda>l. dl_status l = DeployLogSuccess) ls
      in if 0 < want \<and> want \<le> length good then dl_branch (good ! (want - 1)) else [])"

definition previousRevisionBranch :: "io \<Rightarrow> string \<Rightarrow> world \<Rightarrow> string \<times> world" where
  "previousRevisionBranch io instanceID w =
     (let r = db_read io ''previous_revision'' (\<lambda>flt d. log_ListLatestByActions flt instanceID
                [DeployActionDeploy, DeployActionRollback] 20 (d_logs d)) w
      in (case fst r of
            Inl _ \<Rightarrow> []
          | Inr [] \<Rightarrow> []
          | Inr (l # ls) \<Rightarrow> nth_success (l # ls) (if dl_status l \<noteq> DeployLogSuccess then 1 else 2),
          snd r))"

record rollback_request =
  rr_instance :: stack_instance
  rr_charts :: "chart_deploy_info list"
  rr_target_log_id :: string
  rr_target_values :: "(string \<times> string) list"
  rr_target_branch :: string

definition rollback_branch :: "rollback_request \<Rightarrow> string \<Rightarrow> string" where
  "rollback_branch req previousBranch =
     (if rr_target_branch req \<noteq> [] then rr_target_branch req
      else if previousBranch \<noteq> [] then previousBranch
      else si_branch (rr_instance req))"

definition Rollback ::
  "manager \<Rightarrow> io \<Rightarrow> caller \<Rightarrow> string \<Rightarrow> rollback_request \<Rightarrow> world \<Rightarrow> (manager_error + string \<times> job) \<times> world" where
  "Rollback m io c logID req w =
     (let inst = rr_instance req in
      case checkCaller m c of
        Inl e \<Rightarrow> (Inl e, w)
      | Inr reg \<Rightarrow>
     (case resolveHelm reg (si_cluster_id inst) of
        Inl e \<Rightarrow> (Inl e, w)
      | Inr (cid, timeout) \<Rightarrow>
          (let pb = (if rr_target_values req = [] then previousRevisionBranch io (si_id inst) w else ([], w));
               l = (new_log m (io_now io) logID (si_id inst) DeployActionRollback timeout (length (rr_charts req)))
                     \<lparr>dl_target_log_id := rr_target_log_id req, dl_branch := rollback_branch req (fst pb)\<rparr>;
               inst' = inst\<lparr>si_status := StackStatusDeploying, si_error_message := []\<rparr>;
               r = write_start m io l inst' (store_action l (snd pb))
           in case fst r of
                Inl e \<Rightarrow> (Inl e, snd r)
              | Inr _ \<Rightarrow>
                  (Inr (logID, \<lparr>j_instance = inst', j_log = l, j_charts = sort_up (rr_charts req), j_helm_timeout = timeout,
                                 j_prev_status = si_status inst, j_prev_error = si_error_message inst\<rparr>),
                   rememberTrigger c logID (broadcastStatus m (si_id inst) StackStatusDeploying logID (snd r))))))"

section \<open>Lemmas\<close>

lemma checkCaller_Inr:
  "checkCaller m c = Inr reg \<longleftrightarrow> \<not> ca_cancelled c \<and> \<not> m_shutting_down m \<and> m_registry m = Some reg"
  by (auto simp: checkCaller_def split: option.splits)

lemma message_db [simp]:
  "w_db (delete_action i w) = w_db w" "w_db (store_action l w) = w_db w"
  "w_db (rememberTrigger c i w) = w_db w" "w_db (appendLiveOutput i line w) = w_db w"
  by (simp_all add: delete_action_def store_action_def rememberTrigger_def appendLiveOutput_def Let_def)

lemma broadcast_db [simp]:
  "w_db (broadcastStatusWithError m i st l msg w) = w_db w"
  "w_db (broadcastStatus m i st l w) = w_db w"
  "w_db (broadcastLog m i l line w) = w_db w"
  "w_db (broadcastInstanceDeleted m i l w) = w_db w"
  "w_db (notifyInstance m i ty ti msg l u w) = w_db w"
  "w_db (fireDeployHook m io ev inst l s meta w) = w_db w"
  by (simp_all add: broadcastStatusWithError_def broadcastStatus_def broadcastLog_def broadcastInstanceDeleted_def
      notifyInstance_def fireDeployHook_def logAction_def Let_def)

lemma create_log_ok:
  assumes "fst (create_log io l d) = Inr u" and "dl_id l \<noteq> []" and "dl_started_at l \<noteq> zero_time"
  shows "snd (create_log io l d) = d\<lparr>d_logs := d_logs d @ [l]\<rparr>"
    and "row_of dl_id (dl_id l) (d_logs d) = None"
  using assms by (auto simp: create_log_def Let_def log_Create_def stamp_log_def on_logs_def split: option.splits if_splits)

lemma update_instance_ok:
  assumes "fst (update_instance io inst d) = Inr u"
  shows "io_fault io ''update_instance'' = None"
    and "snd (update_instance io inst d) = d\<lparr>d_instances := snd (inst_Update None (io_now io) inst (d_instances d))\<rparr>"
  using assms by (auto simp: update_instance_def Let_def on_instances_def inst_Update_def split: option.splits)

text \<open>What a successful start of a deploy, stop or rollback leaves behind, for the callers that use
  transactions.\<close>

lemma write_start_tx:
  assumes "m_tx m" and ok: "fst (write_start m io l inst w) = Inr u" and l: "dl_id l \<noteq> []" "dl_started_at l \<noteq> zero_time"
  shows "w_db (snd (write_start m io l inst w)) = (io_env io ''start'' (w_db w))
      \<lparr>d_logs := d_logs (io_env io ''start'' (w_db w)) @ [l],
       d_instances := snd (inst_Update None (io_now io) inst (d_instances (io_env io ''start'' (w_db w))))\<rparr>
    \<and> row_of dl_id (dl_id l) (d_logs (io_env io ''start'' (w_db w))) = None"
proof -
  let ?d = "io_env io ''start'' (w_db w)"
  let ?body = "tx_then (create_log io l) (\<lambda>_. update_instance io inst)"
  have "fst (RunInTx (io_fault io ''start'') TransactionFailed ?body ?d) = Inr u"
    using ok assms(1) by (simp add: write_start_def in_tx_def)
  then have run: "RunInTx (io_fault io ''start'') TransactionFailed ?body ?d = ?body ?d" and body: "fst (?body ?d) = Inr u"
    by (metis RunInTx_ok)+
  from body have "snd (?body ?d) = ?d\<lparr>d_logs := d_logs ?d @ [l],
      d_instances := snd (inst_Update None (io_now io) inst (d_instances ?d))\<rparr> \<and> row_of dl_id (dl_id l) (d_logs ?d) = None"
  proof (elim tx_ok)
    fix x
    assume a: "fst (create_log io l ?d) = Inr x" "?body ?d = update_instance io inst (snd (create_log io l ?d))"
      "fst (update_instance io inst (snd (create_log io l ?d))) = Inr u"
    show ?thesis
      unfolding a(2) using update_instance_ok(2) [OF a(3)] create_log_ok [OF a(1) l] by simp
  qed
  with run assms(1) show ?thesis by (simp add: write_start_def in_tx_def)
qed

lemma write_start_fail_tx:
  assumes "m_tx m" and "fst (write_start m io l inst w) = Inl e"
  shows "w_db (snd (write_start m io l inst w)) = io_env io ''start'' (w_db w)"
  using assms RunInTx_fail by (fastforce simp: write_start_def in_tx_def)

section \<open>Example data\<close>

definition example_registry :: cluster_registry where
  "example_registry = \<lparr>cr_resolve = (\<lambda>c. Inr ''c1''), cr_helm = (\<lambda>c. Inr (Some (5 * Minute))),
     cr_k8s = (\<lambda>c. Inr True), cr_phase = (\<lambda>n. Inr ''Active'')\<rparr>"

definition example_manager :: manager where
  "example_manager = \<lparr>m_registry = Some example_registry, m_replica_id = ''r1'', m_tx = True, m_hub = True,
     m_notifier = True, m_hooks = True, m_heartbeats = True, m_shutting_down = False, m_stabilize_timeout = Minute,
     m_hook_total = (\<lambda>_. Minute), m_hook_blocking = (\<lambda>_. None)\<rparr>"

section \<open>Properties\<close>

lemma new_log_simps [simp]:
  "dl_id (new_log m now i inst a t n) = i" "dl_started_at (new_log m now i inst a t n) = now"
  "dl_status (new_log m now i inst a t n) = DeployLogRunning" "dl_stack_instance_id (new_log m now i inst a t n) = inst"
  "dl_action (new_log m now i inst a t n) = a" "dl_replica_id (new_log m now i inst a t n) = m_replica_id m"
  "dl_deadline_at (new_log m now i inst a t n) = Some (operationDeadline m now a (Some t) n)"
  by (simp_all add: new_log_def)

text \<open>The two ways a start ends, for the job it hands over.\<close>

definition started :: "io \<Rightarrow> string \<Rightarrow> string \<Rightarrow> string \<Rightarrow> job \<Rightarrow> db \<Rightarrow> db \<Rightarrow> bool" where
  "started io logID instanceID status j d d' \<longleftrightarrow>
     row_of dl_id logID (d_logs d) = None \<and> d_logs d' = d_logs d @ [j_log j]
     \<and> dl_id (j_log j) = logID \<and> dl_status (j_log j) = DeployLogRunning \<and> dl_stack_instance_id (j_log j) = instanceID
     \<and> (\<exists>s. row_of si_id instanceID (d_instances d') = Some s \<and> si_status s = status \<and> si_error_message s = [])
     \<and> (\<forall>k. k \<noteq> instanceID \<longrightarrow> row_of si_id k (d_instances d') = row_of si_id k (d_instances d))"

lemma started_by_write_start:
  assumes "m_tx m" "fst (write_start m io l inst w) = Inr u" "dl_id l = logID" "logID \<noteq> []" "dl_started_at l \<noteq> zero_time"
    "dl_status l = DeployLogRunning" "dl_stack_instance_id l = si_id inst" "si_status inst = status" "si_error_message inst = []"
    "j_log j = l" "instanceID = si_id inst"
  shows "started io logID instanceID status j (io_env io ''start'' (w_db w)) (w_db (snd (write_start m io l inst w)))"
  using write_start_tx [OF assms(1,2)] assms(3-)
  by (auto simp: started_def inst_Update_row split: option.splits)

text \<open>C26. Starting a deploy or a stop is all or nothing: when the start returns an error, the
  instance and log tables are as the other processes left them and no goroutine gets a job; when it
  returns a log, that log is new, running, of this instance and the only new row, the instance has
  the status of the operation without an error message, and no other instance changed.\<close>

theorem start_all_or_nothing:
  assumes "m_tx m" and "logID \<noteq> []" and "io_now io \<noteq> zero_time"
    and "(status, res, w') \<in>
      {(StackStatusDeploying, Deploy m io c logID inst charts userID w),
       (StackStatusStopping, StopWithCharts m io c logID inst charts w)}"
  shows "(\<forall>e. res = Inl e \<longrightarrow> w_db w' \<in> {w_db w, io_env io ''start'' (w_db w)})
    \<and> (\<forall>k j. res = Inr (k, j) \<longrightarrow> k = logID
          \<and> started io logID (si_id inst) status j (io_env io ''start'' (w_db w)) (w_db w'))"
proof -
  have dep: "case Deploy m io c logID inst charts userID w of (res, w') \<Rightarrow>
      (\<forall>e. res = Inl e \<longrightarrow> w_db w' \<in> {w_db w, io_env io ''start'' (w_db w)})
      \<and> (\<forall>k j. res = Inr (k, j) \<longrightarrow> k = logID
          \<and> started io logID (si_id inst) StackStatusDeploying j (io_env io ''start'' (w_db w)) (w_db w'))"
    using assms(1-3)
    by (auto simp: Deploy_def Let_def write_start_fail_tx split: sum.splits prod.splits if_splits
        intro!: started_by_write_start [of m io _ _ "store_action _ w", simplified])
  have stop: "case StopWithCharts m io c logID inst charts w of (res, w') \<Rightarrow>
      (\<forall>e. res = Inl e \<longrightarrow> w_db w' \<in> {w_db w, io_env io ''start'' (w_db w)})
      \<and> (\<forall>k j. res = Inr (k, j) \<longrightarrow> k = logID
          \<and> started io logID (si_id inst) StackStatusStopping j (io_env io ''start'' (w_db w)) (w_db w'))"
    using assms(1-3)
    by (auto simp: StopWithCharts_def Let_def write_start_fail_tx split: sum.splits prod.splits if_splits
        intro!: started_by_write_start [of m io _ _ "store_action _ w", simplified])
  from dep stop assms(4) show ?thesis by auto
qed

theorem start_all_or_nothing_witness:
  "case StopWithCharts example_manager (quiet 7) \<lparr>ca_cancelled = False, ca_trigger = None\<rparr> ''n1'' example_instance []
      (example_world [example_instance] [] []) of (res, w') \<Rightarrow>
    (\<forall>e. res = Inl e \<longrightarrow> w_db w' \<in> {w_db (example_world [example_instance] [] []), io_env (quiet 7) ''start'' (w_db (example_world [example_instance] [] []))})
    \<and> (\<forall>k j. res = Inr (k, j) \<longrightarrow> k = ''n1''
          \<and> started (quiet 7) ''n1'' (si_id example_instance) StackStatusStopping j
              (io_env (quiet 7) ''start'' (w_db (example_world [example_instance] [] []))) (w_db w'))"
  using start_all_or_nothing [of example_manager "''n1''" "quiet 7" StackStatusStopping
      "fst (StopWithCharts example_manager (quiet 7) \<lparr>ca_cancelled = False, ca_trigger = None\<rparr> ''n1'' example_instance []
        (example_world [example_instance] [] []))"
      "snd (StopWithCharts example_manager (quiet 7) \<lparr>ca_cancelled = False, ca_trigger = None\<rparr> ''n1'' example_instance []
        (example_world [example_instance] [] []))"
      "\<lparr>ca_cancelled = False, ca_trigger = None\<rparr>" example_instance "[]" "[]" "example_world [example_instance] [] []"]
  by (auto simp: example_manager_def split: prod.splits)

lemma markCleanStart_ok:
  assumes "fst (markCleanStart io i forDelete d) = Inr u"
  shows "snd (markCleanStart io i forDelete d) =
      d\<lparr>d_instances := snd (inst_MarkCleanStart None (io_now io) i CleanStatuses forDelete (d_instances d))\<rparr>
    \<and> fst (inst_MarkCleanStart None (io_now io) i CleanStatuses forDelete (d_instances d)) = Inr ()"
  using assms by (cases "io_fault io ''mark_clean''")
    (auto simp: markCleanStart_def on_instances_def Let_def MarkCleanStart_fault split: sum.splits)

lemma write_clean_start_tx:
  assumes "m_tx m" and ok: "fst (write_clean_start m io l i forDelete w) = Inr u" and l: "dl_id l \<noteq> []" "dl_started_at l \<noteq> zero_time"
  shows "w_db (snd (write_clean_start m io l i forDelete w)) = (io_env io ''start'' (w_db w))
      \<lparr>d_instances := snd (inst_MarkCleanStart None (io_now io) i CleanStatuses forDelete (d_instances (io_env io ''start'' (w_db w)))),
       d_logs := d_logs (io_env io ''start'' (w_db w)) @ [l]\<rparr>
    \<and> fst (inst_MarkCleanStart None (io_now io) i CleanStatuses forDelete (d_instances (io_env io ''start'' (w_db w)))) = Inr ()
    \<and> row_of dl_id (dl_id l) (d_logs (io_env io ''start'' (w_db w))) = None"
proof -
  let ?d = "io_env io ''start'' (w_db w)"
  let ?body = "tx_then (markCleanStart io i forDelete) (\<lambda>_. create_log io l)"
  have "fst (RunInTx (io_fault io ''start'') TransactionFailed ?body ?d) = Inr u"
    using ok assms(1) by (simp add: write_clean_start_def in_tx_def)
  then have run: "RunInTx (io_fault io ''start'') TransactionFailed ?body ?d = ?body ?d" and body: "fst (?body ?d) = Inr u"
    by (metis RunInTx_ok)+
  from body have "snd (?body ?d) = ?d\<lparr>d_instances := snd (inst_MarkCleanStart None (io_now io) i CleanStatuses forDelete (d_instances ?d)),
        d_logs := d_logs ?d @ [l]\<rparr>
      \<and> fst (inst_MarkCleanStart None (io_now io) i CleanStatuses forDelete (d_instances ?d)) = Inr ()
      \<and> row_of dl_id (dl_id l) (d_logs ?d) = None"
  proof (elim tx_ok)
    fix x
    assume a: "fst (markCleanStart io i forDelete ?d) = Inr x" "?body ?d = create_log io l (snd (markCleanStart io i forDelete ?d))"
      "fst (create_log io l (snd (markCleanStart io i forDelete ?d))) = Inr u"
    show ?thesis
      unfolding a(2) using markCleanStart_ok [OF a(1)] create_log_ok [OF a(3) l] by simp
  qed
  with run assms(1) show ?thesis by (simp add: write_clean_start_def in_tx_def)
qed

lemma write_clean_start_fail_tx:
  assumes "m_tx m" and "fst (write_clean_start m io l i forDelete w) = Inl e"
  shows "w_db (snd (write_clean_start m io l i forDelete w)) = io_env io ''start'' (w_db w)"
  using assms RunInTx_fail by (fastforce simp: write_clean_start_def in_tx_def)

text \<open>A clean (or the clean of a delete) starts only from a status that allows it and leaves no
  trace otherwise: on an error no row changed and no action entry of the log is left; on success
  the stored status was running, partial, stopped or error, a plain clean met no delete mark, and
  the instance is now cleaning, marked for the delete exactly when this is a delete (or it already
  was).\<close>

theorem startClean_guarded:
  assumes "m_tx m" and "logID \<noteq> []" and "io_now io \<noteq> zero_time"
    and "startClean m io c logID inst charts forDelete w = (res, w')"
    and "keyed si_id (d_instances (io_env io ''start'' (w_db w)))"
    and "w_log_actions w logID = None"
  shows "(\<forall>e. res = Inl e \<longrightarrow> w_db w' \<in> {w_db w, io_env io ''start'' (w_db w)} \<and> w_log_actions w' logID = None)
    \<and> (\<forall>k j. res = Inr (k, j) \<longrightarrow>
        (\<exists>s s'. row_of si_id (si_id inst) (d_instances (io_env io ''start'' (w_db w))) = Some s
           \<and> si_status s \<in> {StackStatusRunning, StackStatusPartial, StackStatusStopped, StackStatusError}
           \<and> (forDelete \<or> \<not> si_delete_after_clean s)
           \<and> row_of si_id (si_id inst) (d_instances (w_db w')) = Some s'
           \<and> si_status s' = StackStatusCleaning \<and> si_delete_after_clean s' = (forDelete \<or> si_delete_after_clean s)
           \<and> d_logs (w_db w') = d_logs (io_env io ''start'' (w_db w)) @ [j_log j]))"
proof (cases res)
  case (Inl e)
  with assms show ?thesis
    by (auto simp: startClean_def Let_def write_clean_start_fail_tx delete_action_def split: sum.splits prod.splits)
next
  case (Inr kj)
  from Inr assms(4) obtain reg cid t k8s where r: "checkCaller m c = Inr reg" "resolveHelm reg (si_cluster_id inst) = Inr (cid, t)"
      "cr_k8s reg cid = Inr k8s"
    by (auto simp: startClean_def split: sum.splits prod.splits)
  let ?l = "new_log m (io_now io) logID (si_id inst) DeployActionClean t (length charts)"
  let ?r = "write_clean_start m io ?l (si_id inst) forDelete (store_action ?l w)"
  from Inr r assms(4) have ok: "fst ?r = Inr ()" and w': "w_db w' = w_db (snd ?r)" and j: "j_log (snd kj) = ?l"
    by (auto simp: startClean_def Let_def split: sum.splits)
  from write_clean_start_tx [OF assms(1) ok] assms(2,3)
  have d: "w_db w' = (io_env io ''start'' (w_db w))
      \<lparr>d_instances := snd (inst_MarkCleanStart None (io_now io) (si_id inst) CleanStatuses forDelete (d_instances (io_env io ''start'' (w_db w)))),
       d_logs := d_logs (io_env io ''start'' (w_db w)) @ [?l]\<rparr>"
    and win: "fst (inst_MarkCleanStart None (io_now io) (si_id inst) CleanStatuses forDelete (d_instances (io_env io ''start'' (w_db w)))) = Inr ()"
    by (simp_all add: w')
  from win obtain s where s: "row_of si_id (si_id inst) (d_instances (io_env io ''start'' (w_db w))) = Some s"
      "si_status s \<in> set CleanStatuses" "forDelete \<or> \<not> si_delete_after_clean s"
    by (auto simp: MarkCleanStart_cases [OF assms(5)] split: option.splits if_splits)
  then have "row_of si_id (si_id inst) (d_instances (w_db w')) = Some (clean_row (io_now io) forDelete s)"
    by (simp add: d MarkCleanStart_row [OF assms(5)])
  with s Inr d j show ?thesis by (auto simp: CleanStatuses_def clean_row_def)
qed

theorem startClean_guarded_witness:
  "w_db (snd (startClean example_manager (quiet 7) \<lparr>ca_cancelled = False, ca_trigger = None\<rparr> ''n1''
      (example_instance\<lparr>si_status := StackStatusRunning\<rparr>) [] True
      (example_world [example_instance\<lparr>si_status := StackStatusDeploying\<rparr>] [] []))) =
    w_db (example_world [example_instance\<lparr>si_status := StackStatusDeploying\<rparr>] [] [])"
proof -
  let ?w = "example_world [example_instance\<lparr>si_status := StackStatusDeploying\<rparr>] [] []"
  let ?r = "startClean example_manager (quiet 7) \<lparr>ca_cancelled = False, ca_trigger = None\<rparr> ''n1''
      (example_instance\<lparr>si_status := StackStatusRunning\<rparr>) [] True ?w"
  have "m_tx example_manager" "''n1'' \<noteq> []" "io_now (quiet 7) \<noteq> zero_time" "?r = (fst ?r, snd ?r)"
      "keyed si_id (d_instances (io_env (quiet 7) ''start'' (w_db ?w)))" "w_log_actions ?w ''n1'' = None"
    by (simp_all add: example_manager_def example_world_def)
  note guarded = startClean_guarded [OF this]
  show ?thesis
  proof (cases "fst ?r")
    case (Inl e)
    with guarded show ?thesis by auto
  next
    case (Inr kj)
    then have "fst ?r = Inr (fst kj, snd kj)" by simp
    with guarded show ?thesis by fastforce
  qed
qed

lemma extendDeadline_effect:
  assumes "keyed dl_id (d_logs (w_db w))" and "log_open (dl_id l) (d_logs (w_db w))"
    and "D = now + (runBudget m (dl_action l) (helmTimeoutOf helm) charts + DeadlineMargin)"
  shows "fst (extendDeadline m (quiet now) l helm charts w) = (True, later_deadline D l)"
    and "w_db (snd (extendDeadline m (quiet now) l helm charts w)) =
      (w_db w)\<lparr>d_logs := snd (log_ExtendDeadline None None (dl_id l) D (d_logs (w_db w)))\<rparr>"
proof -
  have "fst (log_ExtendDeadline None None (dl_id l) D (d_logs (w_db w))) = Inr ()"
    using assms(2) unfolding log_ExtendDeadline_def
    by (subst update_running_ok [OF assms(1)]) (auto simp: log_open_def running_log_def)
  then show "fst (extendDeadline m (quiet now) l helm charts w) = (True, later_deadline D l)"
    and "w_db (snd (extendDeadline m (quiet now) l helm charts w)) =
      (w_db w)\<lparr>d_logs := snd (log_ExtendDeadline None None (dl_id l) D (d_logs (w_db w)))\<rparr>"
    by (simp_all add: extendDeadline_def Let_def assms(3) on_logs_def)
qed

text \<open>An operation within its time budget is never a candidate of the recovery: once the
  operation got its slot and its deadline was extended, no check at a time up to the end of its run
  budget, by any leader and with any heartbeat table, picks its log.\<close>

theorem budget_protects_operation:
  assumes "keyed dl_id (d_logs (w_db w))" and "log_open (dl_id l) (d_logs (w_db w))"
    and "extendDeadline m (quiet now) l helm charts w = ((ok, l'), w')"
    and "t \<le> now + runBudget m (dl_action l) (helmTimeoutOf helm) charts + DeadlineMargin"
  shows "ok \<and> (\<forall>r\<in>set (d_logs (w_db w')). dl_id r = dl_id l \<longrightarrow> \<not> interrupt_candidate dbnow t self stale hbs r)"
proof -
  define D where D: "D = now + (runBudget m (dl_action l) (helmTimeoutOf helm) charts + DeadlineMargin)"
  obtain r0 where r0: "row_of dl_id (dl_id l) (d_logs (w_db w)) = Some r0" "dl_status r0 = DeployLogRunning"
    using assms(2) by (auto simp: log_open_def)
  have "ok" and logs: "d_logs (w_db w') = snd (log_ExtendDeadline None None (dl_id l) D (d_logs (w_db w)))"
    using extendDeadline_effect [OF assms(1,2) D] assms(3) by simp_all
  have key: "keyed dl_id (d_logs (w_db w'))" using assms(1) by (simp add: logs keyed_log_ExtendDeadline)
  have row: "row_of dl_id (dl_id l) (d_logs (w_db w')) =
      Some (if case dl_deadline_at r0 of None \<Rightarrow> True | Some e \<Rightarrow> e < D then r0\<lparr>dl_deadline_at := Some D\<rparr> else r0)"
    using r0 by (auto simp: logs log_ExtendDeadline_def update_running_row running_log_def dest: row_of_SomeD)
  have "t \<le> D" using assms(4) unfolding D by simp
  then have "\<not> interrupt_candidate dbnow t self stale hbs r" if "r \<in> set (d_logs (w_db w'))" "dl_id r = dl_id l" for r
  proof -
    from that row_of_Some_iff [OF key, of "dl_id l" r] row
    have "r = (if case dl_deadline_at r0 of None \<Rightarrow> True | Some e \<Rightarrow> e < D then r0\<lparr>dl_deadline_at := Some D\<rparr> else r0)"
      by simp
    then show ?thesis using \<open>t \<le> D\<close>
      by (cases "dl_deadline_at r0") (auto simp: interrupt_candidate_def split: if_splits)
  qed
  with \<open>ok\<close> show ?thesis by blast
qed

theorem budget_protects_operation_witness:
  "\<not> interrupt_candidate 900 (6 * Minute) ''leader'' 1 [] (the (row_of dl_id ''a''
      (d_logs (w_db (snd (extendDeadline example_manager (quiet 9) (example_log ''a'' 1 DeployLogRunning) None 1
        (example_world [example_instance] [example_log ''a'' 1 DeployLogRunning] [])))))))"
proof -
  let ?w = "example_world [example_instance] [example_log ''a'' 1 DeployLogRunning] []"
  let ?e = "extendDeadline example_manager (quiet 9) (example_log ''a'' 1 DeployLogRunning) None 1 ?w"
  have "keyed dl_id (d_logs (w_db ?w))" "log_open (dl_id (example_log ''a'' 1 DeployLogRunning)) (d_logs (w_db ?w))"
      "?e = ((fst (fst ?e), snd (fst ?e)), snd ?e)"
      "6 * Minute \<le> 9 + runBudget example_manager (dl_action (example_log ''a'' 1 DeployLogRunning)) (helmTimeoutOf None) 1 + DeadlineMargin"
    by (simp_all add: log_open_def runBudget_def deployBudget_def helmTimeoutOf_def example_manager_def)
  note protects = budget_protects_operation [OF this, of 900 "''leader''" 1 "[]"]
  have "row_of dl_id ''a'' (d_logs (w_db (snd ?e))) \<noteq> None"
    by (simp add: extendDeadline_def Let_def log_ExtendDeadline_def update_running_row split: sum.splits repo_error.splits)
  then obtain r where "row_of dl_id ''a'' (d_logs (w_db (snd ?e))) = Some r" by blast
  with protects show ?thesis by (auto dest: row_of_SomeD)
qed

end
