(* ===== verification/Finalize.thy ===== *)
theory Finalize
  imports Manager
begin

text \<open>
  The end of an operation (\<open>internal/deployer/manager.go\<close>, \<open>rollback_target.go\<close>,
  \<open>operation_wait.go\<close>): who owns an instance, the conditional final write of the log and the
  instance, and the finalizers of deploy, stop, clean and rollback. Every database call has its own
  call site, so other processes may act between any two of them.
\<close>

section \<open>Ownership\<close>

definition allLogActions :: "string list" where
  "allLogActions = [DeployActionDeploy, DeployActionStop, DeployActionClean, DeployActionRollback]"

datatype ownership = ownershipOwned | ownershipLost | ownershipUnknown

definition newer_in :: "string \<Rightarrow> string \<Rightarrow> fault \<Rightarrow> db \<Rightarrow> bool" where
  "newer_in instanceID logID flt d =
     (case log_ListLatestByActions flt instanceID allLogActions 1 (d_logs d) of
        Inr (l # _) \<Rightarrow> dl_id l \<noteq> logID
      | _ \<Rightarrow> False)"

definition newerOperation :: "io \<Rightarrow> string \<Rightarrow> string \<Rightarrow> world \<Rightarrow> bool \<times> world" where
  "newerOperation io instanceID logID = db_read io ''newer_operation'' (newer_in instanceID logID)"

definition find_instance :: "io \<Rightarrow> string \<Rightarrow> string \<Rightarrow> world \<Rightarrow> (repo_error + stack_instance) \<times> world" where
  "find_instance io site instanceID = db_read io site (\<lambda>flt d. inst_FindByID flt instanceID (d_instances d))"

definition instanceOwnership ::
  "io \<Rightarrow> string \<Rightarrow> string \<Rightarrow> string list \<Rightarrow> world \<Rightarrow> (ownership \<times> stack_instance option) \<times> world" where
  "instanceOwnership io instanceID logID okStatuses w =
     (let r = find_instance io ''ownership'' instanceID w
      in case fst r of
           Inl _ \<Rightarrow> ((ownershipUnknown, None), snd r)
         | Inr inst \<Rightarrow>
             if si_status inst \<notin> set okStatuses then ((ownershipLost, Some inst), snd r)
             else (let n = newerOperation io instanceID logID (snd r)
                   in ((if fst n then ownershipLost else ownershipOwned, Some inst), snd n)))"

definition ownsInstance :: "io \<Rightarrow> string \<Rightarrow> string \<Rightarrow> string list \<Rightarrow> world \<Rightarrow> (bool \<times> string) \<times> world" where
  "ownsInstance io instanceID logID okStatuses w =
     (let r = instanceOwnership io instanceID logID okStatuses w
      in (case fst r of
            (ownershipUnknown, _) \<Rightarrow> (False, ''unknown'')
          | (_, None) \<Rightarrow> (False, ''unknown'')
          | (st, Some inst) \<Rightarrow> (st = ownershipOwned, si_status inst), snd r))"

definition installsOwned :: "io \<Rightarrow> string \<Rightarrow> string \<Rightarrow> world \<Rightarrow> (bool \<times> string) \<times> world" where
  "installsOwned io instanceID logID w =
     (let n = newerOperation io instanceID logID w
      in if \<not> fst n then ((True, []), snd n)
         else (let r = find_instance io ''installs_owned'' instanceID (snd n)
               in case fst r of
                    Inr inst \<Rightarrow> ((False, si_status inst), snd r)
                  | Inl _ \<Rightarrow> ((False, ''unknown''), snd r)))"

text \<open>
  \<open>markStabilizing\<close>: no error, a read error, or the instance was taken (status, and whether the
  status itself shows it).
\<close>

datatype stabilize_result = StabilizeOk | StabilizeUnread repo_error | InstanceTaken string bool

definition markStabilizing :: "io \<Rightarrow> string \<Rightarrow> string \<Rightarrow> world \<Rightarrow> stabilize_result \<times> world" where
  "markStabilizing io instanceID logID w =
     (let r = find_instance io ''ownership'' instanceID w
      in case fst r of
           Inl e \<Rightarrow> (StabilizeUnread e, snd r)
         | Inr inst \<Rightarrow>
             (let mine = (si_status inst = StackStatusDeploying \<or> si_status inst = StackStatusStabilizing);
                  n = (if mine then newerOperation io instanceID logID (snd r) else (True, snd r))
              in if fst n then (InstanceTaken (si_status inst) (\<not> mine), snd n)
                 else (let k = db_write io ''mark_status'' (on_instances (inst_MarkStatus (io_fault io ''mark_status'')
                                 (io_fault io ''mark_status_read'') (io_now io) instanceID StackStatusStabilizing
                                 [StackStatusDeploying, StackStatusStabilizing])) (snd n)
                       in case fst k of
                            Inl _ \<Rightarrow> (StabilizeOk, snd k)
                          | Inr True \<Rightarrow> (StabilizeOk, snd k)
                          | Inr False \<Rightarrow>
                              (let f = find_instance io ''current_status'' instanceID (snd k)
                               in (InstanceTaken (case fst f of Inr i \<Rightarrow> si_status i | Inl _ \<Rightarrow> ''unknown'') True, snd f)))))"

section \<open>The final write\<close>

definition warnLogNotRunning :: "deployment_log \<Rightarrow> world \<Rightarrow> world" where
  "warnLogNotRunning l w = emit (InterruptMetric (dl_action l) ''late_finalize_skipped'') w"

definition update_log :: "io \<Rightarrow> string \<Rightarrow> deployment_log \<Rightarrow> db \<Rightarrow> (repo_error + unit) \<times> db" where
  "update_log io site l = on_logs (log_Update (io_fault io site) (io_fault io (site @ ''_count'')) l)"

definition fallbackLogUpdate :: "io \<Rightarrow> deployment_log \<Rightarrow> world \<Rightarrow> bool \<times> world" where
  "fallbackLogUpdate io l w =
     (let r = db_write io ''fallback_log'' (update_log io ''fallback_log'' l) (dropLiveOutput (dl_id l) w)
      in case fst r of
           Inl ErrDeployLogNotRunning \<Rightarrow> (False, warnLogNotRunning l (snd r))
         | _ \<Rightarrow> (True, snd r))"

definition final_body :: "io \<Rightarrow> deployment_log \<Rightarrow> stack_instance \<Rightarrow> db \<Rightarrow> (repo_error + unit) \<times> db" where
  "final_body io l inst =
     tx_then (update_log io ''final_log'' l)
       (\<lambda>_ d. let r = on_instances (inst_Update (io_fault io ''final_instance'') (io_now io) inst) d
              in (case fst r of Inl e \<Rightarrow> Inl e | Inr _ \<Rightarrow> Inr (), snd r))"

definition writeFinal :: "manager \<Rightarrow> io \<Rightarrow> stack_instance option \<Rightarrow> deployment_log \<Rightarrow> world \<Rightarrow> bool \<times> world" where
  "writeFinal m io instance l w =
     (let w0 = dropLiveOutput (dl_id l) w
      in case instance of
           None \<Rightarrow> fallbackLogUpdate io l w0
         | Some inst \<Rightarrow>
             if m_tx m
             then (let r = in_tx io ''final_tx'' id (final_body io l inst) w0
                   in case fst r of
                        Inr _ \<Rightarrow> (True, snd r)
                      | Inl ErrDeployLogNotRunning \<Rightarrow> (False, warnLogNotRunning l (snd r))
                      | Inl _ \<Rightarrow> fallbackLogUpdate io l (snd r))
             else (let r = fallbackLogUpdate io l w0
                   in if \<not> fst r then (False, snd r)
                      else (True, snd (db_write io ''final_instance'' (on_instances
                              (inst_Update (io_fault io ''final_instance'') (io_now io) inst)) (snd r)))))"

section \<open>Deploy\<close>

text \<open>How a deploy ended; a partial deploy always carries the error that names the failed charts.\<close>

datatype deploy_outcome = DeploySucceeded | DeployFailed goerr | DeployPartial goerr

abbreviation EventDeployFinalized :: string where "EventDeployFinalized \<equiv> ''deploy-finalized''"
abbreviation EventDeployTimeout :: string where "EventDeployTimeout \<equiv> ''deploy-timeout''"
abbreviation EventStopCompleted :: string where "EventStopCompleted \<equiv> ''stop-completed''"
abbreviation EventCleanCompleted :: string where "EventCleanCompleted \<equiv> ''clean-completed''"
abbreviation EventRollbackCompleted :: string where "EventRollbackCompleted \<equiv> ''rollback-completed''"
abbreviation EventPostRollback :: string where "EventPostRollback \<equiv> ''post-rollback''"
abbreviation EventPostInstanceDelete :: string where "EventPostInstanceDelete \<equiv> ''post-instance-delete''"
abbreviation EventDeleteCompleted :: string where "EventDeleteCompleted \<equiv> ''delete-completed''"

definition msgFinalizeInstanceUnreadable :: string where
  "msgFinalizeInstanceUnreadable =
     ''The deploy ended, but the stack could not be read. Check the stack status and deploy again.''"

definition ended_log :: "gtime \<Rightarrow> string \<Rightarrow> deployment_log \<Rightarrow> deployment_log" where
  "ended_log now output l = l\<lparr>dl_output := truncateString output maxOutputLen, dl_completed_at := Some now\<rparr>"

definition log_error :: "string \<Rightarrow> string \<Rightarrow> deployment_log \<Rightarrow> deployment_log" where
  "log_error status sanitized l = l\<lparr>dl_status := status, dl_error_message := truncateString sanitized maxLogErrorLen\<rparr>"

definition deploy_log_result :: "deploy_outcome \<Rightarrow> string \<Rightarrow> bool \<Rightarrow> deployment_log \<Rightarrow> deployment_log" where
  "deploy_log_result out lastDeployedValues concurrentOp l =
     (case out of
        DeploySucceeded \<Rightarrow> l\<lparr>dl_status := DeployLogSuccess, dl_values_snapshot := lastDeployedValues\<rparr>
      | DeployFailed e \<Rightarrow>
          log_error DeployLogError (sanitizeDeployError e)
            (if concurrentOp then l\<lparr>dl_values_snapshot := lastDeployedValues\<rparr> else l)
      | DeployPartial e \<Rightarrow>
          log_error DeployLogPartial (sanitizeDeployError e) (l\<lparr>dl_values_snapshot := lastDeployedValues\<rparr>))"

definition deploy_instance_result :: "deploy_outcome \<Rightarrow> gtime \<Rightarrow> string \<Rightarrow> stack_instance \<Rightarrow> stack_instance" where
  "deploy_instance_result out now lastDeployedValues inst0 =
     (let inst = inst0\<lparr>si_post_deploy_hook_until := None\<rparr> in
      case out of
        DeployFailed e \<Rightarrow>
          inst\<lparr>si_status := StackStatusError,
               si_error_message := truncateString (sanitizeDeployError e) maxInstanceErrorLen\<rparr>
      | DeployPartial e \<Rightarrow>
          inst\<lparr>si_status := StackStatusPartial,
               si_error_message := truncateString (sanitizeDeployError e) maxInstanceErrorLen,
               si_last_deployed_at := Some now, si_last_deployed_values := lastDeployedValues\<rparr>
      | DeploySucceeded \<Rightarrow>
          inst\<lparr>si_status := StackStatusRunning, si_error_message := [],
               si_last_deployed_at := Some now, si_last_deployed_values := lastDeployedValues\<rparr>)"

fun notify_ignored :: "manager \<Rightarrow> stack_instance \<Rightarrow> string \<Rightarrow> (string \<times> goerr) list \<Rightarrow> world \<Rightarrow> world" where
  "notify_ignored m inst logID [] w = w"
| "notify_ignored m inst logID (f # fs) w =
     notify_ignored m inst logID fs
       (notifyInstance m (si_id inst) ''deployment.warning'' (''Post-deploy step '' @ fst f @ '' failed'')
          (''Deployment of '' @ si_name inst @ '': '' @ UserMessage (EHookFailed (fst f) (snd f)) EventPostDeploy ''deployment'')
          logID [] w)"

definition finalize_metadata :: "string \<Rightarrow> (string \<times> goerr) list \<Rightarrow> (string \<times> string) list" where
  "finalize_metadata readinessWarning ignored =
     (if readinessWarning \<noteq> [] then [(''readiness'', ''timeout''), (''readiness_warning'', readinessWarning)] else [])
     @ (if ignored \<noteq> [] then [(''post_deploy_failed'', Join (map fst ignored) '','')] else [])"

definition notify_deploy :: "manager \<Rightarrow> io \<Rightarrow> deploy_outcome \<Rightarrow> stack_instance \<Rightarrow> deployment_log \<Rightarrow> string \<Rightarrow> world \<Rightarrow> world" where
  "notify_deploy m io out inst l siteURL w =
     (case out of
        DeployFailed e \<Rightarrow>
          if isTimeoutError (Some e) \<and> \<not> isPostDeployHookError e \<and> \<not> errors_Is e ErrDeployInterrupted
          then fireDeployHook m io EventDeployTimeout inst (dl_id l) (dl_started_at l) []
                 (notifyInstance m (si_id inst) ''deploy.timeout'' ''Deployment timed out''
                    (''Deployment of '' @ si_name inst @ '' exceeded the timeout threshold'') (dl_id l) [] w)
          else notifyInstance m (si_id inst) ''deployment.error'' ''Deployment failed''
                 (''Deployment of '' @ si_name inst @ '' failed: '' @ si_error_message inst) (dl_id l) [] w
      | DeployPartial e \<Rightarrow>
          notifyInstance m (si_id inst) ''deployment.partial'' ''Deployment partially succeeded''
            (''Deployment of '' @ si_name inst @ '' partially succeeded: '' @ si_error_message inst) (dl_id l) siteURL w
      | DeploySucceeded \<Rightarrow>
          notifyInstance m (si_id inst) ''deployment.success'' ''Deployment succeeded''
            (''Deployment of '' @ si_name inst @ '' completed successfully'') (dl_id l) siteURL w)"

definition finalizeDeployWith ::
  "manager \<Rightarrow> io \<Rightarrow> string \<Rightarrow> deployment_log \<Rightarrow> string \<Rightarrow> deploy_outcome \<Rightarrow> string \<Rightarrow> string \<Rightarrow> (string \<times> goerr) list
   \<Rightarrow> string \<Rightarrow> world \<Rightarrow> world" where
  "finalizeDeployWith m io instanceID l0 output out lastDeployedValues readinessWarning ignored siteURL w =
     (let now = io_now io; r = find_instance io ''finalize'' instanceID w; l = ended_log now output l0
      in case fst r of
           Inl _ \<Rightarrow> snd (fallbackLogUpdate io (l\<lparr>dl_status := DeployLogError,
                            dl_error_message := msgFinalizeInstanceUnreadable\<rparr>) (snd r))
         | Inr inst \<Rightarrow>
             (let taken = (si_status inst \<noteq> StackStatusDeploying \<and> si_status inst \<noteq> StackStatusStabilizing);
                  n = (if taken then (True, snd r) else newerOperation io instanceID (dl_id l) (snd r))
              in if fst n
                 then snd (writeFinal m io None (deploy_log_result out lastDeployedValues True l) (delete_action (dl_id l) (snd n)))
                 else
                   (let inst' = deploy_instance_result out now lastDeployedValues inst;
                        l' = deploy_log_result out lastDeployedValues False l;
                        f = writeFinal m io (Some inst') l' (snd n)
                    in if \<not> fst f then delete_action (dl_id l) (snd f)
                       else
                         (let w1 = broadcastStatusWithError m instanceID (si_status inst') (dl_id l) (si_error_message inst') (snd f);
                              w2 = (case out of DeployFailed _ \<Rightarrow> w1
                                    | _ \<Rightarrow> fireDeployHook m io EventPostDeploy inst' (dl_id l) (dl_started_at l) [] w1);
                              w3 = fireDeployHook m io EventDeployFinalized inst' (dl_id l) (dl_started_at l)
                                     (finalize_metadata readinessWarning ignored) w2
                          in notify_deploy m io out inst' l' siteURL (notify_ignored m inst' (dl_id l) ignored w3)))))"

definition finalizeDeploy where
  "finalizeDeploy m io instanceID l output out lastDeployedValues readinessWarning =
     finalizeDeployWith m io instanceID l output out lastDeployedValues readinessWarning [] []"

definition cancelDeployAfterPreHook ::
  "manager \<Rightarrow> io \<Rightarrow> string \<Rightarrow> deployment_log \<Rightarrow> string \<Rightarrow> string \<Rightarrow> string \<Rightarrow> world \<Rightarrow> world" where
  "cancelDeployAfterPreHook m io instanceID l hookOutput current lastDeployedValues w =
     (let e = EWrap [] (ESentinel ErrDeployCancelled)
                ('': another operation changed the instance (status '' @ current @ '') during the pre-deploy hook'')
      in finalizeDeploy m io instanceID l (hookOutput @ ''WARNING: '' @ err_text e @ [newline]) (DeployFailed e)
           lastDeployedValues [] (broadcastLog m instanceID (dl_id l) (''WARNING: '' @ err_text e) w))"

section \<open>Stop\<close>

definition cleanupPolicyTrigger :: "string \<Rightarrow> world \<Rightarrow> hook_trigger option" where
  "cleanupPolicyTrigger logID w =
     (case triggerFor logID w of
        None \<Rightarrow> None
      | Some t \<Rightarrow> if tr_type t = TriggerCleanupPolicy then Some t else None)"

definition policyActionMessage :: "string \<Rightarrow> string \<Rightarrow> hook_trigger \<Rightarrow> string" where
  "policyActionMessage name done policy =
     (if tr_name policy = []
      then ''Stack '' @ name @ '' has been '' @ done @ '' by a cleanup policy''
      else ''Stack '' @ name @ '' has been '' @ done @ '' by cleanup policy '' @ go_quote (tr_name policy))"

definition stop_result :: "goerr option \<Rightarrow> gtime \<Rightarrow> stack_instance \<Rightarrow> deployment_log \<Rightarrow> stack_instance \<times> deployment_log" where
  "stop_result stopErr now inst0 l =
     (let inst = inst0\<lparr>si_post_deploy_hook_until := None\<rparr> in
      case stopErr of
        Some e \<Rightarrow>
          (inst\<lparr>si_status := StackStatusError,
                si_error_message := truncateString (sanitizeDeployError e) maxInstanceErrorLen\<rparr>,
           log_error DeployLogError (sanitizeDeployError e) l)
      | None \<Rightarrow>
          (inst\<lparr>si_status := StackStatusStopped, si_error_message := [], si_stopped_at := Some now\<rparr>,
           l\<lparr>dl_status := DeployLogSuccess\<rparr>))"

definition notify_stop :: "manager \<Rightarrow> goerr option \<Rightarrow> stack_instance \<Rightarrow> string \<Rightarrow> world \<Rightarrow> world" where
  "notify_stop m stopErr inst logID w =
     (case stopErr of
        Some _ \<Rightarrow> notifyInstance m (si_id inst) ''stop.error'' ''Stop failed''
                    (''Stopping '' @ si_name inst @ '' failed: '' @ si_error_message inst) logID [] w
      | None \<Rightarrow>
          (case cleanupPolicyTrigger logID w of
             Some p \<Rightarrow> notifyInstance m (si_id inst) ''cleanup.policy.stop'' ''Stack stopped by a cleanup policy''
                         (policyActionMessage (si_name inst) ''stopped'' p) logID [] w
           | None \<Rightarrow> notifyInstance m (si_id inst) ''deployment.stopped'' ''Stack stopped''
                       (''Stack '' @ si_name inst @ '' has been stopped'') logID [] w))"

definition finalizeStop ::
  "manager \<Rightarrow> io \<Rightarrow> string \<Rightarrow> deployment_log \<Rightarrow> string \<Rightarrow> goerr option \<Rightarrow> world \<Rightarrow> world" where
  "finalizeStop m io instanceID l0 output stopErr w =
     (let r = find_instance io ''finalize'' instanceID w
      in case fst r of
           Inl _ \<Rightarrow> snd r
         | Inr inst \<Rightarrow>
             (let res = stop_result stopErr (io_now io) inst (ended_log (io_now io) output l0);
                  f = writeFinal m io (Some (fst res)) (snd res) (snd r)
              in if \<not> fst f then delete_action (dl_id l0) (snd f)
                 else
                   (let w1 = broadcastStatusWithError m instanceID (si_status (fst res)) (dl_id l0) (si_error_message (fst res)) (snd f);
                        w2 = fireDeployHook m io EventStopCompleted (fst res) (dl_id l0) (dl_started_at l0) [] w1
                    in notify_stop m stopErr (fst res) (dl_id l0) w2)))"

definition cancelStopForNewerOperation ::
  "manager \<Rightarrow> io \<Rightarrow> string \<Rightarrow> deployment_log \<Rightarrow> string \<Rightarrow> world \<Rightarrow> world" where
  "cancelStopForNewerOperation m io instanceID l output w =
     (let msg = ''stop cancelled: a newer operation started on the instance while the stop waited'';
          w1 = broadcastLog m instanceID (dl_id l) (''WARNING: '' @ msg) w;
          l' = (ended_log (io_now io) (output @ ''WARNING: '' @ msg @ [newline]) l)
                 \<lparr>dl_status := DeployLogError, dl_error_message := msg\<rparr>
      in snd (writeFinal m io None l' (delete_action (dl_id l) w1)))"

section \<open>Clean\<close>

definition clear_delete_mark :: "io \<Rightarrow> string \<Rightarrow> world \<Rightarrow> world" where
  "clear_delete_mark io instanceID w =
     snd (db_write io ''clear_delete_mark'' (on_instances
            (inst_ClearDeleteAfterClean (io_fault io ''clear_delete_mark'') instanceID)) w)"

definition clean_result :: "goerr option \<Rightarrow> gtime \<Rightarrow> stack_instance \<Rightarrow> deployment_log \<Rightarrow> stack_instance \<times> deployment_log" where
  "clean_result cleanErr now inst0 l =
     (let inst = inst0\<lparr>si_post_deploy_hook_until := None\<rparr> in
      case cleanErr of
        Some e \<Rightarrow>
          (if si_delete_after_clean inst
           then inst\<lparr>si_status := StackStatusError, si_delete_after_clean := False,
                     si_error_message := truncateString (DeleteCleanFailedMessage @ '' '' @ sanitizeDeployError e) maxInstanceErrorLen\<rparr>
           else inst\<lparr>si_status := StackStatusError,
                     si_error_message := truncateString (sanitizeDeployError e) maxInstanceErrorLen\<rparr>,
           log_error DeployLogError (sanitizeDeployError e) l)
      | None \<Rightarrow>
          (inst\<lparr>si_status := StackStatusDraft, si_error_message := [], si_last_deployed_at := None,
                si_stopped_at := None, si_cleaned_at := Some now\<rparr>,
           l\<lparr>dl_status := DeployLogSuccess\<rparr>))"

text \<open>The delete after a successful clean, in a transaction when a runner is configured.\<close>

definition delete_after_clean :: "manager \<Rightarrow> io \<Rightarrow> stack_instance \<Rightarrow> world \<Rightarrow> (repo_error + unit) \<times> world" where
  "delete_after_clean m io inst w =
     (if m_tx m then DeleteInstanceWithOwnedDefinition io inst w
      else db_write io ''delete_instance'' (on_instances (inst_Delete (io_fault io ''delete_instance'') (si_id inst))) w)"

definition notify_clean :: "manager \<Rightarrow> io \<Rightarrow> goerr option \<Rightarrow> bool \<Rightarrow> stack_instance \<Rightarrow> deployment_log \<Rightarrow> world \<Rightarrow> world" where
  "notify_clean m io cleanErr deleted inst l w =
     (case cleanErr of
        Some _ \<Rightarrow> notifyInstance m (si_id inst) ''clean.error'' ''Cleanup failed''
                    (''Cleanup of '' @ si_name inst @ '' failed: '' @ si_error_message inst) (dl_id l) [] w
      | None \<Rightarrow>
          if deleted
          then (let message = (case cleanupPolicyTrigger (dl_id l) w of
                       Some p \<Rightarrow> if tr_name p \<noteq> []
                                 then ''Stack '' @ si_name inst @ '' has been deleted by cleanup policy '' @ go_quote (tr_name p)
                                 else ''Stack '' @ si_name inst @ '' has been deleted''
                     | None \<Rightarrow> ''Stack '' @ si_name inst @ '' has been deleted'')
                in fireDeployHook m io EventDeleteCompleted inst (dl_id l) (dl_started_at l) []
                     (fireDeployHook m io EventPostInstanceDelete inst (dl_id l) (dl_started_at l) []
                       (notifyInstance m (si_id inst) ''instance.deleted'' ''Stack deleted'' message (dl_id l) [] w)))
          else (case cleanupPolicyTrigger (dl_id l) w of
                  Some p \<Rightarrow> notifyInstance m (si_id inst) ''cleanup.policy.clean'' ''Stack cleaned by a cleanup policy''
                              (policyActionMessage (si_name inst) ''cleaned'' p @ '' and returned to draft'') (dl_id l) [] w
                | None \<Rightarrow> notifyInstance m (si_id inst) ''clean.completed'' ''Cleanup completed''
                            (''Stack '' @ si_name inst @ '' has been cleaned and returned to draft'') (dl_id l) [] w))"

definition finalizeClean ::
  "manager \<Rightarrow> io \<Rightarrow> string \<Rightarrow> deployment_log \<Rightarrow> string \<Rightarrow> goerr option \<Rightarrow> world \<Rightarrow> world" where
  "finalizeClean m io instanceID l0 output cleanErr w =
     (let r = find_instance io ''finalize'' instanceID w
      in case fst r of
           Inl _ \<Rightarrow> snd r
         | Inr inst0 \<Rightarrow>
             (let shouldDelete = si_delete_after_clean inst0;
                  res = clean_result cleanErr (io_now io) inst0 (ended_log (io_now io) output l0);
                  inst = fst res;
                  w0 = (if cleanErr \<noteq> None \<and> shouldDelete then clear_delete_mark io instanceID (snd r) else snd r);
                  f = writeFinal m io (Some inst) (snd res) w0
              in if \<not> fst f
                 then (let w1 = delete_action (dl_id l0) (snd f)
                       in if shouldDelete then clear_delete_mark io instanceID w1 else w1)
                 else
                   (let step =
                          (if cleanErr \<noteq> None
                           then (False, broadcastStatusWithError m instanceID StackStatusError (dl_id l0) (si_error_message inst) (snd f))
                           else if shouldDelete
                           then (let del = delete_after_clean m io inst (snd f)
                                 in case fst del of
                                      Inl _ \<Rightarrow> (False, broadcastStatus m instanceID StackStatusDraft (dl_id l0)
                                                          (clear_delete_mark io instanceID (snd del)))
                                    | Inr _ \<Rightarrow> (True, broadcastInstanceDeleted m instanceID (dl_id l0) (snd del)))
                           else (False, broadcastStatus m instanceID StackStatusDraft (dl_id l0) (snd f)));
                        w2 = fireDeployHook m io EventCleanCompleted inst (dl_id l0) (dl_started_at l0)
                               (if fst step then [(''operation'', ''delete'')] else []) (snd step)
                    in notify_clean m io cleanErr (fst step) inst l0 w2)))"

section \<open>Rollback\<close>

text \<open>\<open>unmarshal\<close> is \<open>json.Unmarshal\<close> of a JSON object of strings.\<close>

definition mergeRunningValues ::
  "(string \<Rightarrow> (string \<times> string) list option) \<Rightarrow> string \<Rightarrow> (string \<times> string) list \<Rightarrow> string" where
  "mergeRunningValues unmarshal previous applied =
     (if applied = [] then previous
      else (let base = (if previous = [] then [] else case unmarshal previous of None \<Rightarrow> [] | Some m \<Rightarrow> m)
            in json_object (foldl (\<lambda>m p. map_put (fst p) (snd p) m) base applied)))"

definition finalizeRollbackCancelled ::
  "manager \<Rightarrow> io \<Rightarrow> string \<Rightarrow> deployment_log \<Rightarrow> string \<Rightarrow> string \<Rightarrow> world \<Rightarrow> world" where
  "finalizeRollbackCancelled m io instanceID l output reason w =
     (let w1 = broadcastLog m instanceID (dl_id l) (''WARNING: '' @ reason) w;
          l' = log_error DeployLogError reason (ended_log (io_now io) (output @ ''WARNING: '' @ reason @ [newline]) l);
          f = writeFinal m io None l' w1;
          w2 = (if \<not> fst f then snd f
                else (let r = find_instance io ''cancelled_instance'' instanceID (snd f)
                      in case fst r of
                           Inl _ \<Rightarrow> snd r
                         | Inr inst \<Rightarrow> fireDeployHook m io EventRollbackCompleted inst (dl_id l) (dl_started_at l)
                                         [(''outcome'', ''cancelled'')] (snd r)))
      in delete_action (dl_id l) w2)"

definition finalizeRollbackRejected :: "manager \<Rightarrow> io \<Rightarrow> job \<Rightarrow> string \<Rightarrow> goerr \<Rightarrow> world \<Rightarrow> world" where
  "finalizeRollbackRejected m io job output hookErr w =
     (let instanceID = si_id (j_instance job); l0 = j_log job;
          reason = UserMessage hookErr EventPreRollback ''rollback'';
          w1 = broadcastLog m instanceID (dl_id l0) (''ERROR: '' @ reason) w;
          l = log_error DeployLogError reason (ended_log (io_now io) (output @ ''ERROR: '' @ reason @ [newline]) l0);
          own = ownsInstance io instanceID (dl_id l0) [StackStatusDeploying] w1;
          restore = fst (fst own);
          r = find_instance io ''rejected_instance'' instanceID (snd own);
          w2 = (case fst r of
                  Inl _ \<Rightarrow> snd (fallbackLogUpdate io l (snd r))
                | Inr inst0 \<Rightarrow>
                    (let inst = (if restore
                                 then inst0\<lparr>si_status := j_prev_status job, si_error_message := j_prev_error job\<rparr> else inst0);
                         f = writeFinal m io (if restore then Some inst else None) l (snd r)
                     in if \<not> fst f then snd f
                        else (let w3 = (if restore
                                        then broadcastStatusWithError m instanceID (si_status inst) (dl_id l0) (si_error_message inst) (snd f)
                                        else snd f)
                              in notifyInstance m (si_id inst) ''rollback.error'' ''Rollback rejected''
                                   (''Rollback of '' @ si_name inst @ '' was rejected: '' @ reason) (dl_id l0) []
                                   (fireDeployHook m io EventRollbackCompleted inst (dl_id l0) (dl_started_at l0)
                                      [(''outcome'', ''rejected'')] w3))))
      in delete_action (dl_id l0) w2)"

definition rollback_result ::
  "(string \<Rightarrow> (string \<times> string) list option) \<Rightarrow> goerr option \<Rightarrow> (string \<times> string) list \<Rightarrow> gtime \<Rightarrow> stack_instance \<Rightarrow> deployment_log
   \<Rightarrow> stack_instance \<times> deployment_log" where
  "rollback_result unmarshal rollbackErr applied now inst0 l =
     (let inst = inst0\<lparr>si_post_deploy_hook_until := None\<rparr>;
          running = mergeRunningValues unmarshal (si_last_deployed_values inst) applied
      in case rollbackErr of
           Some e \<Rightarrow>
             (inst\<lparr>si_status := StackStatusError,
                   si_error_message := truncateString (sanitizeDeployError e) maxInstanceErrorLen,
                   si_last_deployed_values := running\<rparr>,
              log_error DeployLogError (sanitizeDeployError e) l)
         | None \<Rightarrow>
             (inst\<lparr>si_status := StackStatusRunning, si_error_message := [], si_last_deployed_at := Some now,
                   si_cleaned_at := None, si_last_deployed_values := running\<rparr>,
              if applied = [] then l\<lparr>dl_status := DeployLogSuccess\<rparr>
              else l\<lparr>dl_status := DeployLogSuccess, dl_values_snapshot := running\<rparr>))"

definition finalizeRollback ::
  "(string \<Rightarrow> (string \<times> string) list option) \<Rightarrow> manager \<Rightarrow> io \<Rightarrow> string \<Rightarrow> deployment_log \<Rightarrow> string \<Rightarrow> goerr option
   \<Rightarrow> (string \<times> string) list \<Rightarrow> string \<Rightarrow> world \<Rightarrow> world" where
  "finalizeRollback unmarshal m io instanceID l0 output rollbackErr applied siteURL w =
     (let r = find_instance io ''finalize'' instanceID w
      in case fst r of
           Inl _ \<Rightarrow> snd r
         | Inr inst0 \<Rightarrow>
             (let l = ended_log (io_now io) output l0;
                  own = ownsInstance io instanceID (dl_id l0) [StackStatusDeploying, StackStatusStabilizing] (snd r)
              in if \<not> fst (fst own)
                 then finalizeRollbackCancelled m io instanceID l output
                        (''rollback result not applied to the instance: another operation changed it (status ''
                           @ snd (fst own) @ '')'') (snd own)
                 else
                   (let res = rollback_result unmarshal rollbackErr applied (io_now io) inst0 l;
                        f = writeFinal m io (Some (fst res)) (snd res) (snd own)
                    in if \<not> fst f then delete_action (dl_id l0) (snd f)
                       else
                         (let inst = fst res;
                              w1 = broadcastStatusWithError m instanceID (si_status inst) (dl_id l0) (si_error_message inst) (snd f);
                              w2 = fireDeployHook m io EventRollbackCompleted inst (dl_id l0) (dl_started_at l0)
                                     [(''outcome'', if rollbackErr = None then ''succeeded'' else ''failed'')] w1
                          in if rollbackErr = None
                             then notifyInstance m (si_id inst) ''rollback.completed'' ''Rollback completed''
                                    (''Stack '' @ si_name inst @ '' has been rolled back successfully'') (dl_id l0) siteURL
                                    (fireDeployHook m io EventPostRollback inst (dl_id l0) (dl_started_at l0) [] w2)
                             else notifyInstance m (si_id inst) ''rollback.error'' ''Rollback failed''
                                    (''Rollback of '' @ si_name inst @ '' failed: '' @ si_error_message inst) (dl_id l0) [] w2))))"

section \<open>Lemmas\<close>

text \<open>No other process acts during the call; the log statements do not fail.\<close>

definition calm :: "io \<Rightarrow> bool" where
  "calm io \<longleftrightarrow> (\<forall>s d. io_env io s d = d)"

definition log_writes_work :: "io \<Rightarrow> bool" where
  "log_writes_work io \<longleftrightarrow> (\<forall>s\<in>{''final_log'', ''final_log_count'', ''fallback_log'', ''fallback_log_count''}. io_fault io s = None)"

lemma calmD [simp]: "calm io \<Longrightarrow> io_env io s d = d"
  by (simp add: calm_def)

lemma calm_quiet [simp]: "calm (quiet n)" "log_writes_work (quiet n)"
  by (simp_all add: calm_def log_writes_work_def)

lemma log_writes_workD [simp]:
  "log_writes_work io \<Longrightarrow> io_fault io ''final_log'' = None" "log_writes_work io \<Longrightarrow> io_fault io ''final_log_count'' = None"
  "log_writes_work io \<Longrightarrow> io_fault io ''fallback_log'' = None" "log_writes_work io \<Longrightarrow> io_fault io ''fallback_log_count'' = None"
  by (simp_all add: log_writes_work_def)

lemma dropLive_simps [simp]:
  "w_events (dropLiveOutput i w) = w_events w" "w_log_actions (dropLiveOutput i w) = w_log_actions w"
  "w_events (delete_action i w) = w_events w" "w_events (store_action l w) = w_events w"
  by (simp_all add: dropLiveOutput_def delete_action_def store_action_def)

lemma find_instance_simps [simp]:
  "w_db (snd (find_instance io s i w)) = io_env io s (w_db w)"
  "w_events (snd (find_instance io s i w)) = w_events w"
  "fst (find_instance io s i w) = inst_FindByID (io_fault io s) i (d_instances (io_env io s (w_db w)))"
  by (simp_all add: find_instance_def)

lemma newerOperation_simps [simp]:
  "w_db (snd (newerOperation io i l w)) = io_env io ''newer_operation'' (w_db w)"
  "w_events (snd (newerOperation io i l w)) = w_events w"
  "fst (newerOperation io i l w) = newer_in i l (io_fault io ''newer_operation'') (io_env io ''newer_operation'' (w_db w))"
  by (simp_all add: newerOperation_def)

lemma ownsInstance_frame [simp]:
  assumes "calm io"
  shows "w_db (snd (ownsInstance io i l ok w)) = w_db w" "w_events (snd (ownsInstance io i l ok w)) = w_events w"
  using assms by (auto simp: ownsInstance_def instanceOwnership_def Let_def split: sum.splits)

lemma result_ids [simp]:
  "dl_id (ended_log now out l) = dl_id l" "dl_id (log_error st msg l) = dl_id l"
  "dl_id (deploy_log_result o' v c l) = dl_id l" "dl_id (snd (stop_result e now inst l)) = dl_id l"
  "dl_id (snd (clean_result e now inst l)) = dl_id l" "dl_id (snd (rollback_result um e ap now inst l)) = dl_id l"
  "si_id (deploy_instance_result o' now v inst) = si_id inst" "si_id (fst (stop_result e now inst l)) = si_id inst"
  "si_id (fst (clean_result e now inst l)) = si_id inst" "si_id (fst (rollback_result um e ap now inst l)) = si_id inst"
  by (auto simp: ended_log_def log_error_def deploy_log_result_def stop_result_def clean_result_def rollback_result_def
      deploy_instance_result_def Let_def split: deploy_outcome.splits option.splits)

text \<open>A log that is not running refuses the final write.\<close>

lemma update_log_closed:
  assumes "keyed dl_id (d_logs d)" and "\<not> log_open (dl_id l) (d_logs d)"
    and "io_fault io site = None" and "io_fault io (site @ ''_count'') = None"
  shows "update_log io site l d = (Inl ErrDeployLogNotRunning, d)"
proof -
  have f: "fst (log_Update None None l (d_logs d)) = Inl ErrDeployLogNotRunning"
    using assms(1,2) by (auto simp: log_Update_ok log_open_def split: option.splits)
  then have "snd (log_Update None None l (d_logs d)) = d_logs d"
    unfolding log_Update_def by (rule update_running_fail_keeps)
  with f assms(3,4) show ?thesis by (simp add: update_log_def on_logs_def Let_def)
qed

lemma fallback_closed:
  assumes "calm io" "log_writes_work io" "keyed dl_id (d_logs (w_db w))" "\<not> log_open (dl_id l) (d_logs (w_db w))"
  shows "fst (fallbackLogUpdate io l w) = False" "w_db (snd (fallbackLogUpdate io l w)) = w_db w"
    "w_events (snd (fallbackLogUpdate io l w)) = w_events w @ [InterruptMetric (dl_action l) ''late_finalize_skipped'']"
  using assms update_log_closed [of "w_db w" l io "''fallback_log''"]
  by (simp_all add: fallbackLogUpdate_def warnLogNotRunning_def Let_def)

lemma writeFinal_closed:
  assumes "calm io" "log_writes_work io" "keyed dl_id (d_logs (w_db w))" "\<not> log_open (dl_id l) (d_logs (w_db w))"
  shows "fst (writeFinal m io inst l w) = False" "w_db (snd (writeFinal m io inst l w)) = w_db w"
    "w_events (snd (writeFinal m io inst l w)) = w_events w @ [InterruptMetric (dl_action l) ''late_finalize_skipped'']"
proof -
  have "RunInTx (io_fault io ''final_tx'') id (final_body io l x) (w_db w) = (Inl ErrDeployLogNotRunning, w_db w)" for x
    using assms update_log_closed [of "w_db w" l io "''final_log''"]
    by (simp add: RunInTx_def final_body_def tx_then_def)
  then show "fst (writeFinal m io inst l w) = False" "w_db (snd (writeFinal m io inst l w)) = w_db w"
    "w_events (snd (writeFinal m io inst l w)) = w_events w @ [InterruptMetric (dl_action l) ''late_finalize_skipped'']"
    using assms fallback_closed [of io "dropLiveOutput (dl_id l) w" l]
    by (auto simp: writeFinal_def in_tx_def warnLogNotRunning_def Let_def split: option.splits)
qed

text \<open>Events that tell users or subscribers nothing about the result.\<close>

fun silent :: "event \<Rightarrow> bool" where
  "silent (InterruptMetric a e) = True"
| "silent (LogLine i l line) = True"
| "silent _ = False"

definition says_nothing :: "world \<Rightarrow> world \<Rightarrow> bool" where
  "says_nothing w w' \<longleftrightarrow> (\<exists>es. w_events w' = w_events w @ es \<and> list_all silent es)"

lemma broadcastLog_events:
  "w_events (broadcastLog m i l line w) = w_events w @ (if m_hub m then [LogLine i l line] else [])"
  by (simp add: broadcastLog_def appendLiveOutput_def Let_def)

lemma late_deploy:
  assumes "calm io" "log_writes_work io" "keyed dl_id (d_logs (w_db w))" "\<not> log_open (dl_id l) (d_logs (w_db w))"
  shows "w_db (finalizeDeployWith m io i l out o' v rw ign url w) = w_db w
    \<and> says_nothing w (finalizeDeployWith m io i l out o' v rw ign url w)"
  using assms
  by (simp add: finalizeDeployWith_def says_nothing_def Let_def fallback_closed writeFinal_closed split: sum.splits)

lemma late_stop:
  assumes "calm io" "log_writes_work io" "keyed dl_id (d_logs (w_db w))" "\<not> log_open (dl_id l) (d_logs (w_db w))"
  shows "w_db (finalizeStop m io i l out e w) = w_db w \<and> says_nothing w (finalizeStop m io i l out e w)"
  using assms
  by (simp add: finalizeStop_def says_nothing_def Let_def writeFinal_closed split: sum.splits)

lemma late_rollback_cancelled:
  assumes "calm io" "log_writes_work io" "keyed dl_id (d_logs (w_db w))" "\<not> log_open (dl_id l) (d_logs (w_db w))"
  shows "w_db (finalizeRollbackCancelled m io i l out r w) = w_db w
    \<and> says_nothing w (finalizeRollbackCancelled m io i l out r w)"
  using assms
  by (simp add: finalizeRollbackCancelled_def says_nothing_def Let_def writeFinal_closed broadcastLog_events)

lemma late_rollback:
  assumes "calm io" "log_writes_work io" "keyed dl_id (d_logs (w_db w))" "\<not> log_open (dl_id l) (d_logs (w_db w))"
  shows "w_db (finalizeRollback um m io i l out e ap url w) = w_db w
    \<and> says_nothing w (finalizeRollback um m io i l out e ap url w)"
proof -
  let ?w = "snd (ownsInstance io i (dl_id l) [StackStatusDeploying, StackStatusStabilizing] (snd (find_instance io ''finalize'' i w)))"
  have w: "w_db ?w = w_db w" "w_events ?w = w_events w" using assms(1) by simp_all
  have "w_db (finalizeRollbackCancelled m io i (ended_log (io_now io) out l) out r ?w) = w_db w
      \<and> says_nothing w (finalizeRollbackCancelled m io i (ended_log (io_now io) out l) out r ?w)" for r
    using late_rollback_cancelled [of io ?w "ended_log (io_now io) out l" m i out r] assms w
    by (simp add: says_nothing_def)
  with assms w show ?thesis
    by (simp add: finalizeRollback_def Let_def writeFinal_closed split: sum.splits)
      (simp add: says_nothing_def writeFinal_closed)
qed

text \<open>An operation that the recovery ended cannot come back: when its log is no longer running,
  the finalizers of deploy, stop and rollback change no row of any table and send no status
  message, hook call or notification, whatever the operation's result was and whatever the
  instance looks like.\<close>

theorem late_finalize_writes_nothing:
  assumes "calm io" and "log_writes_work io" and "keyed dl_id (d_logs (w_db w))"
    and "\<not> log_open (dl_id l) (d_logs (w_db w))"
    and "w' \<in> {finalizeDeployWith m io i l out o' v rw ign url w, finalizeStop m io i l out e w,
               finalizeRollback um m io i l out e ap url w}"
  shows "w_db w' = w_db w \<and> says_nothing w w'"
  using assms late_deploy late_stop late_rollback by fastforce

theorem late_finalize_writes_nothing_witness:
  "w_db (finalizeStop example_manager (quiet 9) ''i1'' (example_log ''a'' 1 DeployLogRunning) ''done'' None
      (example_world [example_instance] [example_log ''a'' 1 DeployLogError] [])) =
    w_db (example_world [example_instance] [example_log ''a'' 1 DeployLogError] [])"
  by (rule late_finalize_writes_nothing [where m = example_manager and io = "quiet 9" and i = "''i1''"
        and l = "example_log ''a'' 1 DeployLogRunning" and out = "''done''" and e = None, THEN conjunct1])
    (simp_all add: log_open_def)

section \<open>Newer operations\<close>

lemma newest_first_hd:
  assumes "newest_first ls = x # xs"
  shows "x \<in> set ls \<and> (\<forall>y\<in>set ls. dl_started_at y \<le> dl_started_at x)"
proof -
  have s: "sorted (map (\<lambda>l. - dl_started_at l) (newest_first ls))" by (simp add: newest_first_def)
  have "set (newest_first ls) = set ls" by (simp add: newest_first_def)
  with s assms show ?thesis by (auto simp del: set_sort)
qed

definition newer_exists :: "string \<Rightarrow> string \<Rightarrow> logs \<Rightarrow> bool" where
  "newer_exists instanceID logID ls \<longleftrightarrow>
     (\<exists>l'\<in>set ls. dl_stack_instance_id l' = instanceID \<and> dl_action l' \<in> set allLogActions \<and> dl_id l' \<noteq> logID
        \<and> (\<forall>r\<in>set ls. dl_id r = logID \<longrightarrow> dl_started_at r < dl_started_at l'))"

lemma newer_in_exists:
  assumes "newer_exists instanceID logID (d_logs d)"
  shows "newer_in instanceID logID None d"
proof -
  let ?ls = "filter (\<lambda>l. dl_stack_instance_id l = instanceID \<and> dl_action l \<in> set allLogActions) (d_logs d)"
  from assms obtain l' where l': "l' \<in> set ?ls" "dl_id l' \<noteq> logID"
      "\<forall>r\<in>set (d_logs d). dl_id r = logID \<longrightarrow> dl_started_at r < dl_started_at l'"
    by (auto simp: newer_exists_def)
  then obtain x xs where x: "newest_first ?ls = x # xs"
    by (cases "newest_first ?ls") (auto simp: newest_first_def dest: arg_cong [where f = set])
  with newest_first_hd [OF x] l' have "dl_id x \<noteq> logID" by fastforce
  with x show ?thesis
    by (simp add: newer_in_def log_ListLatestByActions_def query_def latest_columns_def)
qed

lemma insort_key_map: "insort_key k (f x) (map f xs) = map f (insort_key (\<lambda>x. k (f x)) x xs)"
  by (induction xs) auto

lemma sort_key_map: "sort_key k (map f xs) = map f (sort_key (\<lambda>x. k (f x)) xs)"
  by (induction xs) (simp_all add: insort_key_map)

text \<open>Moving the deadline of a log does not change which operation is the newest.\<close>

lemma newer_in_deadline:
  "newer_in i lg flt (d\<lparr>d_logs := snd (log_ExtendDeadline None None j D (d_logs d))\<rparr>) = newer_in i lg flt d"
proof -
  define f where "f = (\<lambda>l. if running_log j l \<and> (case dl_deadline_at l of None \<Rightarrow> True | Some e \<Rightarrow> e < D)
      then l\<lparr>dl_deadline_at := Some D\<rparr> else l)"
  have keep: "dl_stack_instance_id (f l) = dl_stack_instance_id l" "dl_action (f l) = dl_action l"
      "dl_started_at (f l) = dl_started_at l" "dl_id (f l) = dl_id l" for l
    by (simp_all add: f_def)
  have logs: "snd (log_ExtendDeadline None None j D (d_logs d)) = map f (d_logs d)"
    by (auto simp: log_ExtendDeadline_def update_running_def sql_update_def f_def Let_def)
  have first: "newest_first (filter (\<lambda>l. dl_stack_instance_id l = i \<and> dl_action l \<in> A) (map f ls)) =
      map f (newest_first (filter (\<lambda>l. dl_stack_instance_id l = i \<and> dl_action l \<in> A) ls))" for A ls
    by (simp add: newest_first_def sort_key_map filter_map comp_def keep)
  show ?thesis
    by (cases "newest_first (filter (\<lambda>l. dl_stack_instance_id l = i \<and> dl_action l \<in> set allLogActions) (d_logs d))")
      (simp_all add: newer_in_def log_ListLatestByActions_def query_def logs first latest_columns_def keep split: option.splits)
qed

lemma update_log_instances [simp]: "d_instances (snd (update_log io s l d)) = d_instances d"
  by (simp add: update_log_def)

lemma fallback_instances [simp]:
  "calm io \<Longrightarrow> d_instances (w_db (snd (fallbackLogUpdate io l w))) = d_instances (w_db w)"
  by (auto simp: fallbackLogUpdate_def warnLogNotRunning_def Let_def split: sum.splits repo_error.splits)

lemma writeFinal_None_instances [simp]:
  "calm io \<Longrightarrow> d_instances (w_db (snd (writeFinal m io None l w))) = d_instances (w_db w)"
  by (simp add: writeFinal_def Let_def)

lemma rollback_cancelled_instances:
  "calm io \<Longrightarrow> d_instances (w_db (finalizeRollbackCancelled m io i l out r w)) = d_instances (w_db w)"
  by (auto simp: finalizeRollbackCancelled_def Let_def split: sum.splits)

lemma ownsInstance_newer:
  assumes "calm io" "io_fault io ''newer_operation'' = None" "newer_exists i logID (d_logs (w_db w))"
  shows "\<not> fst (fst (ownsInstance io i logID ok w))"
  using assms newer_in_exists [of i logID "w_db w"]
  by (auto simp: ownsInstance_def instanceOwnership_def Let_def split: sum.splits)



section \<open>Results\<close>

lemma writeFinal_open:
  assumes "keyed dl_id (d_logs (w_db w))" and "log_open (dl_id l) (d_logs (w_db w))"
  shows "fst (writeFinal m (quiet n) (Some inst) l w)"
    and "w_db (snd (writeFinal m (quiet n) (Some inst) l w)) =
      (w_db w)\<lparr>d_logs := snd (log_Update None None l (d_logs (w_db w))),
               d_instances := snd (inst_Update None n inst (d_instances (w_db w)))\<rparr>"
proof -
  have ok: "fst (log_Update None None l (d_logs (w_db w))) = Inr ()"
    using assms by (auto simp: log_Update_ok log_open_def)
  then show "fst (writeFinal m (quiet n) (Some inst) l w)"
    and "w_db (snd (writeFinal m (quiet n) (Some inst) l w)) =
      (w_db w)\<lparr>d_logs := snd (log_Update None None l (d_logs (w_db w))),
               d_instances := snd (inst_Update None n inst (d_instances (w_db w)))\<rparr>"
    by (simp_all add: writeFinal_def in_tx_def RunInTx_def final_body_def tx_then_def update_log_def on_logs_def
        on_instances_def inst_Update_def fallbackLogUpdate_def Let_def)
qed

lemma notify_ignored_db [simp]: "w_db (notify_ignored m inst l fs w) = w_db w"
  by (induction fs arbitrary: w) simp_all

lemma notify_db [simp]:
  "w_db (notify_deploy m io out inst l u w) = w_db w" "w_db (notify_stop m e inst l' w) = w_db w"
  "w_db (notify_clean m io e del inst l w) = w_db w"
  by (simp_all add: notify_deploy_def notify_stop_def notify_clean_def Let_def split: deploy_outcome.splits option.splits)

fun final_statuses :: "deploy_outcome \<Rightarrow> string \<times> string" where
  "final_statuses DeploySucceeded = (StackStatusRunning, DeployLogSuccess)"
| "final_statuses (DeployFailed e) = (StackStatusError, DeployLogError)"
| "final_statuses (DeployPartial e) = (StackStatusPartial, DeployLogPartial)"

lemma deploy_result_statuses:
  "si_status (deploy_instance_result out now v inst) = fst (final_statuses out)"
  "dl_status (deploy_log_result out v c l) = snd (final_statuses out)"
  by (cases out; simp add: deploy_instance_result_def deploy_log_result_def log_error_def Let_def)+

lemma deploy_result_bounds:
  "length (si_error_message (deploy_instance_result out now v inst)) \<le> maxInstanceErrorLen"
  "length (dl_error_message l) \<le> maxLogErrorLen \<Longrightarrow> length (dl_error_message (deploy_log_result out v c l)) \<le> maxLogErrorLen"
  "length (dl_output (deploy_log_result out v c (ended_log now output l))) \<le> maxOutputLen"
  by (cases out; auto simp: deploy_instance_result_def deploy_log_result_def log_error_def ended_log_def Let_def
      truncateString_length)+

lemma finalizeDeploy_effect:
  assumes "keyed si_id (d_instances (w_db w))" and "keyed dl_id (d_logs (w_db w))"
    and "row_of si_id i (d_instances (w_db w)) = Some inst"
    and "si_status inst \<in> {StackStatusDeploying, StackStatusStabilizing}"
    and "log_open (dl_id l) (d_logs (w_db w))" and "dl_error_message l = []"
    and "\<not> newer_in i (dl_id l) None (w_db w)"
    and "w' = finalizeDeployWith m (quiet now) i l output out v rw ign url w"
  shows "\<exists>s r. row_of si_id i (d_instances (w_db w')) = Some s \<and> row_of dl_id (dl_id l) (d_logs (w_db w')) = Some r
    \<and> (si_status s, dl_status r) = final_statuses out
    \<and> si_post_deploy_hook_until s = None \<and> dl_completed_at r = Some now
    \<and> length (si_error_message s) \<le> 256 \<and> length (dl_error_message r) \<le> 1024 \<and> length (dl_output r) \<le> 65536
    \<and> (\<forall>j. j \<noteq> i \<longrightarrow> row_of si_id j (d_instances (w_db w')) = row_of si_id j (d_instances (w_db w)))
    \<and> (\<forall>j. j \<noteq> dl_id l \<longrightarrow> row_of dl_id j (d_logs (w_db w')) = row_of dl_id j (d_logs (w_db w)))"
proof -
  let ?l = "deploy_log_result out v False (ended_log now output l)"
  let ?inst = "deploy_instance_result out now v inst"
  have id: "si_id inst = i" using assms(3) by (auto dest: row_of_SomeD)
  have db: "w_db w' = (w_db w)\<lparr>d_logs := snd (log_Update None None ?l (d_logs (w_db w))),
      d_instances := snd (inst_Update None now ?inst (d_instances (w_db w)))\<rparr>"
    using assms(2-8) writeFinal_open [of _ ?l]
    by (auto simp: finalizeDeployWith_def inst_FindByID_def Let_def split: deploy_outcome.splits)
  obtain r0 where r0: "row_of dl_id (dl_id l) (d_logs (w_db w)) = Some r0" "dl_status r0 = DeployLogRunning"
    using assms(5) by (auto simp: log_open_def)
  let ?s = "?inst\<lparr>si_updated_at := now, si_expiry_warned_at := kept_warning ?inst inst,
      si_delete_after_clean := si_delete_after_clean inst\<rparr>"
  have "row_of si_id i (d_instances (w_db w')) = Some ?s"
    using id assms(3) by (simp add: db inst_Update_row)
  moreover have "row_of dl_id (dl_id l) (d_logs (w_db w')) = Some ?l"
    using r0 by (simp add: db log_Update_row)
  moreover have "si_post_deploy_hook_until ?s = None" "dl_completed_at ?l = Some now"
    by (cases out; simp add: deploy_instance_result_def deploy_log_result_def log_error_def ended_log_def Let_def)+
  moreover have "length (dl_error_message ?l) \<le> 1024"
    using deploy_result_bounds(2) assms(6) by (simp add: ended_log_def)
  moreover have "\<forall>j. j \<noteq> i \<longrightarrow> row_of si_id j (d_instances (w_db w')) = row_of si_id j (d_instances (w_db w))"
    using id by (simp add: db inst_Update_row)
  moreover have "\<forall>j. j \<noteq> dl_id l \<longrightarrow> row_of dl_id j (d_logs (w_db w')) = row_of dl_id j (d_logs (w_db w))"
    by (simp add: db log_Update_row option.map_ident)
  moreover have "(si_status ?s, dl_status ?l) = final_statuses out"
    by (simp add: deploy_result_statuses)
  moreover have "length (si_error_message ?s) \<le> 256" "length (dl_output ?l) \<le> 65536"
    using deploy_result_bounds(1,3) by simp_all
  ultimately show ?thesis by blast
qed

text \<open>A deploy that still owns its instance writes its result once and consistently: afterwards
  the instance is running, partial or in error exactly as the deploy ended, the log has ended with
  the matching status, its output and both error messages fit their columns, and every other log
  and instance is as before.\<close>

theorem finalizeDeploy_result:
  assumes "keyed si_id (d_instances (w_db w))" and "keyed dl_id (d_logs (w_db w))"
    and "row_of si_id i (d_instances (w_db w)) = Some inst"
    and "si_status inst \<in> {StackStatusDeploying, StackStatusStabilizing}"
    and "log_open (dl_id l) (d_logs (w_db w))" and "dl_error_message l = []"
    and "\<not> newer_in i (dl_id l) None (w_db w)"
    and "w' = finalizeDeployWith m (quiet now) i l output out v rw ign url w"
  shows "\<exists>s r. row_of si_id i (d_instances (w_db w')) = Some s \<and> row_of dl_id (dl_id l) (d_logs (w_db w')) = Some r
    \<and> (si_status s, dl_status r) = final_statuses out
    \<and> si_post_deploy_hook_until s = None \<and> dl_completed_at r = Some now
    \<and> length (si_error_message s) \<le> 256 \<and> length (dl_error_message r) \<le> 1024 \<and> length (dl_output r) \<le> 65536
    \<and> (\<forall>j. j \<noteq> i \<longrightarrow> row_of si_id j (d_instances (w_db w')) = row_of si_id j (d_instances (w_db w)))
    \<and> (\<forall>j. j \<noteq> dl_id l \<longrightarrow> row_of dl_id j (d_logs (w_db w')) = row_of dl_id j (d_logs (w_db w)))"
  using assms by (rule finalizeDeploy_effect)

theorem finalizeDeploy_result_witness:
  "\<exists>s (r :: deployment_log). row_of si_id ''i1'' (d_instances (w_db (finalizeDeployWith example_manager (quiet 9) ''i1''
        (example_log ''a'' 1 DeployLogRunning) ''out'' DeploySucceeded [] [] [] []
        (example_world [example_instance\<lparr>si_status := StackStatusDeploying\<rparr>] [example_log ''a'' 1 DeployLogRunning] [])))) = Some s
     \<and> (si_status s, dl_status r) = final_statuses DeploySucceeded"
proof -
  let ?w = "example_world [example_instance\<lparr>si_status := StackStatusDeploying\<rparr>] [example_log ''a'' 1 DeployLogRunning] []"
  have e: "dl_error_message (example_log ''a'' 1 DeployLogRunning) = []" by (simp add: example_log_def zero_log_def)
  have n: "\<not> newer_in ''i1'' (dl_id (example_log ''a'' 1 DeployLogRunning)) None (w_db ?w)"
    by (simp add: newer_in_def log_ListLatestByActions_def query_def newest_first_def allLogActions_def latest_columns_def)
  have "keyed si_id (d_instances (w_db ?w))" "keyed dl_id (d_logs (w_db ?w))"
    "row_of si_id ''i1'' (d_instances (w_db ?w)) = Some (example_instance\<lparr>si_status := StackStatusDeploying\<rparr>)"
    "si_status (example_instance\<lparr>si_status := StackStatusDeploying\<rparr>) \<in> {StackStatusDeploying, StackStatusStabilizing}"
    "log_open (dl_id (example_log ''a'' 1 DeployLogRunning)) (d_logs (w_db ?w))"
    by (simp_all add: log_open_def)
  from finalizeDeploy_result [OF this e n refl, of example_manager 9 "''out''" DeploySucceeded "[]" "[]" "[]" "[]"]
  obtain s and r :: deployment_log where "row_of si_id ''i1'' (d_instances (w_db (finalizeDeployWith example_manager (quiet 9) ''i1''
        (example_log ''a'' 1 DeployLogRunning) ''out'' DeploySucceeded [] [] [] [] ?w))) = Some s"
      "(si_status s, dl_status r) = final_statuses DeploySucceeded"
    by (elim exE conjE) (erule (1) that)
  then show ?thesis by (intro exI conjI)
qed

lemma fallback_open_closes:
  assumes "calm io" "log_writes_work io" "keyed dl_id (d_logs (w_db w))" "dl_status l \<noteq> DeployLogRunning"
  shows "\<not> log_open (dl_id l) (d_logs (w_db (snd (fallbackLogUpdate io l w))))"
proof -
  have "w_db (snd (fallbackLogUpdate io l w)) = snd (update_log io ''fallback_log'' l (w_db w))"
    using assms(1) by (auto simp: fallbackLogUpdate_def warnLogNotRunning_def Let_def split: sum.splits repo_error.splits)
  with assms show ?thesis
    by (auto simp: update_log_def log_open_def log_Update_row split: if_splits)
qed

text \<open>When the instance cannot be read at the end of the operation, a deploy still ends its log,
  but a stop, clean or rollback leaves the database as it is: its log stays running, and since its
  process is alive no recovery ends it.\<close>

theorem unreadable_instance_leaves_log_running:
  assumes "calm io" and "log_writes_work io" and "io_fault io ''finalize'' = Some c"
    and "keyed dl_id (d_logs (w_db w))" and "log_open (dl_id l) (d_logs (w_db w))"
  shows "\<not> log_open (dl_id l) (d_logs (w_db (finalizeDeployWith m io i l out o' v rw ign url w)))
    \<and> log_open (dl_id l) (d_logs (w_db (finalizeStop m io i l out e w)))
    \<and> log_open (dl_id l) (d_logs (w_db (finalizeClean m io i l out e w)))
    \<and> log_open (dl_id l) (d_logs (w_db (finalizeRollback um m io i l out e ap url w)))"
proof -
  have "inst_FindByID (io_fault io ''finalize'') i t = Inl (DatabaseError ''find_by_id'' c)" for t
    using assms(3) by (simp add: inst_FindByID_def)
  then show ?thesis
    using assms fallback_open_closes [of io "snd (find_instance io ''finalize'' i w)"
        "(ended_log (io_now io) out l)\<lparr>dl_status := DeployLogError, dl_error_message := msgFinalizeInstanceUnreadable\<rparr>"]
    by (simp add: finalizeDeployWith_def finalizeStop_def finalizeClean_def finalizeRollback_def Let_def)
qed

theorem unreadable_instance_leaves_log_running_witness:
  "log_open ''a'' (d_logs (w_db (finalizeStop example_manager
      ((quiet 9)\<lparr>io_fault := (\<lambda>s. if s = ''finalize'' then Some ErrConnectionFailed else None)\<rparr>)
      ''i1'' (example_log ''a'' 1 DeployLogRunning) [] None (example_world [example_instance] [example_log ''a'' 1 DeployLogRunning] []))))"
  using unreadable_instance_leaves_log_running [of "(quiet 9)\<lparr>io_fault := (\<lambda>s. if s = ''finalize'' then Some ErrConnectionFailed else None)\<rparr>"
      ErrConnectionFailed "example_world [example_instance] [example_log ''a'' 1 DeployLogRunning] []" "example_log ''a'' 1 DeployLogRunning"
      example_manager "''i1''" "[]" DeploySucceeded "[]" "[]" "[]" "[]" None "\<lambda>_. None" "[]"]
  by (simp add: calm_def log_writes_work_def log_open_def quiet_def)

lemma clear_mark_db:
  "w_db (clear_delete_mark (quiet n) i w) =
     (w_db w)\<lparr>d_instances := sql_update (\<lambda>r. si_id r = i) (\<lambda>r. r\<lparr>si_delete_after_clean := False\<rparr>) (d_instances (w_db w))\<rparr>"
  by (simp add: clear_delete_mark_def inst_ClearDeleteAfterClean_def on_instances_def Let_def)

lemma clean_result_log [simp]:
  "dl_status (snd (clean_result e now inst l)) = (if e = None then DeployLogSuccess else DeployLogError)"
  by (cases e) (simp_all add: clean_result_def log_error_def Let_def)

lemma finalizeClean_delete_effect:
  assumes "keyed si_id (d_instances (w_db w))" and "keyed dl_id (d_logs (w_db w))"
    and "row_of si_id i (d_instances (w_db w)) = Some inst" and "si_delete_after_clean inst"
    and "log_open (dl_id l) (d_logs (w_db w))"
  shows "row_of si_id i (d_instances (w_db (finalizeClean m (quiet now) i l out None w))) = None
    \<and> map_option dl_status (row_of dl_id (dl_id l) (d_logs (w_db (finalizeClean m (quiet now) i l out None w)))) = Some DeployLogSuccess
    \<and> (\<exists>s. row_of si_id i (d_instances (w_db (finalizeClean m (quiet now) i l out (Some e) w))) = Some s
        \<and> si_status s = StackStatusError \<and> \<not> si_delete_after_clean s
        \<and> HasPrefix (si_error_message s) DeleteCleanFailedMessage)"
proof -
  have id: "si_id inst = i" using assms(3) by (auto dest: row_of_SomeD)
  let ?ok = "clean_result None now inst (ended_log now out l)"
  let ?f = "writeFinal m (quiet now) (Some (fst ?ok)) (snd ?ok) (snd (find_instance (quiet now) ''finalize'' i w))"
  have f: "fst ?f" "w_db (snd ?f) = (w_db w)\<lparr>d_logs := snd (log_Update None None (snd ?ok) (d_logs (w_db w))),
      d_instances := snd (inst_Update None now (fst ?ok) (d_instances (w_db w)))\<rparr>"
    using writeFinal_open [of "snd (find_instance (quiet now) ''finalize'' i w)" "snd ?ok"] assms by simp_all
  have "row_of si_id i (d_instances (w_db (snd ?f))) \<noteq> None"
    using id by (simp add: f inst_Update_row)
  then have mem: "si_id (fst ?ok) \<in> si_id ` set (d_instances (w_db (snd ?f)))"
    using id by (simp add: row_of_None_iff)
  let ?del = "delete_after_clean m (quiet now) (fst ?ok) (snd ?f)"
  have del: "fst ?del = Inr ()" "row_of si_id i (d_instances (w_db (snd ?del))) = None" "d_logs (w_db (snd ?del)) = d_logs (w_db (snd ?f))"
    using delete_quiet [OF mem, of now] mem id
    by (auto simp: delete_after_clean_def inst_Delete_def filter_empty_conv row_of_filter_gone split: if_splits)
  obtain r0 where r0: "row_of dl_id (dl_id l) (d_logs (w_db w)) = Some r0" "dl_status r0 = DeployLogRunning"
    using assms(5) by (auto simp: log_open_def)
  have success: "w_db (finalizeClean m (quiet now) i l out None w) = w_db (snd ?del)"
    using assms(3,4) f(1) del(1) by (simp add: finalizeClean_def inst_FindByID_def Let_def)
  let ?ko = "clean_result (Some e) now inst (ended_log now out l)"
  let ?w0 = "clear_delete_mark (quiet now) i (snd (find_instance (quiet now) ''finalize'' i w))"
  let ?g = "writeFinal m (quiet now) (Some (fst ?ko)) (snd ?ko) ?w0"
  have g: "fst ?g" "d_instances (w_db (snd ?g)) = snd (inst_Update None now (fst ?ko) (d_instances (w_db ?w0)))"
    using writeFinal_open [of ?w0 "snd ?ko"] assms by (simp_all add: clear_mark_db)
  have failure: "w_db (finalizeClean m (quiet now) i l out (Some e) w) = w_db (snd ?g)"
    using assms(3,4) g(1) by (simp add: finalizeClean_def inst_FindByID_def Let_def)
  have row0: "row_of si_id i (d_instances (w_db ?w0)) = Some (inst\<lparr>si_delete_after_clean := False\<rparr>)"
    using assms(3) id by (simp add: clear_mark_db row_of_sql_update)
  have ko: "si_status (fst ?ko) = StackStatusError" "HasPrefix (si_error_message (fst ?ko)) DeleteCleanFailedMessage"
    using assms(4) by (auto simp: clean_result_def Let_def truncateString_def HasPrefix_def DeleteCleanFailedMessage_def min_def)
  have "\<exists>s. row_of si_id i (d_instances (w_db (snd ?g))) = Some s \<and> si_status s = StackStatusError
      \<and> \<not> si_delete_after_clean s \<and> HasPrefix (si_error_message s) DeleteCleanFailedMessage"
    using id row0 ko by (simp add: g inst_Update_row)
  moreover have "map_option dl_status (row_of dl_id (dl_id l) (d_logs (w_db (snd ?f)))) = Some DeployLogSuccess"
    using r0 by (simp add: f log_Update_row)
  ultimately show ?thesis using del success failure by simp
qed

text \<open>The clean of a delete ends in one of two ways. When the clean succeeded the instance row is
  gone and the log has ended with success; when it failed the instance stays, in error, with a
  message that says it was not deleted, and without the delete mark, so that no later clean deletes
  it.\<close>

theorem finalizeClean_for_delete:
  assumes "keyed si_id (d_instances (w_db w))" and "keyed dl_id (d_logs (w_db w))"
    and "row_of si_id i (d_instances (w_db w)) = Some inst" and "si_delete_after_clean inst"
    and "log_open (dl_id l) (d_logs (w_db w))"
  shows "row_of si_id i (d_instances (w_db (finalizeClean m (quiet now) i l out None w))) = None
    \<and> map_option dl_status (row_of dl_id (dl_id l) (d_logs (w_db (finalizeClean m (quiet now) i l out None w)))) = Some DeployLogSuccess
    \<and> (\<exists>s. row_of si_id i (d_instances (w_db (finalizeClean m (quiet now) i l out (Some e) w))) = Some s
        \<and> si_status s = StackStatusError \<and> \<not> si_delete_after_clean s
        \<and> HasPrefix (si_error_message s) DeleteCleanFailedMessage)"
  using assms by (rule finalizeClean_delete_effect)

theorem finalizeClean_for_delete_witness:
  "row_of si_id ''i1'' (d_instances (w_db (finalizeClean example_manager (quiet 9) ''i1'' (example_log ''a'' 1 DeployLogRunning) [] None
      (example_world [example_instance\<lparr>si_status := StackStatusCleaning, si_delete_after_clean := True\<rparr>]
        [example_log ''a'' 1 DeployLogRunning] [])))) = None"
  by (rule finalizeClean_for_delete [THEN conjunct1, of _ _ "example_instance\<lparr>si_status := StackStatusCleaning, si_delete_after_clean := True\<rparr>"])
    (simp_all add: log_open_def)

text \<open>The finalizer of a clean does not check for a newer operation: when a deploy started after
  the clean of a delete and the instance is already deploying, the end of the clean still deletes
  the instance under the running deploy.\<close>

theorem clean_deletes_under_newer_deploy:
  assumes "keyed si_id (d_instances (w_db w))" and "keyed dl_id (d_logs (w_db w))"
    and "row_of si_id i (d_instances (w_db w)) = Some inst" and "si_delete_after_clean inst"
    and "log_open (dl_id l) (d_logs (w_db w))"
    and "si_status inst = StackStatusDeploying" and "newer_exists i (dl_id l) (d_logs (w_db w))"
  shows "row_of si_id i (d_instances (w_db (finalizeClean m (quiet now) i l out None w))) = None"
  using finalizeClean_delete_effect [OF assms(1-5)] by blast

theorem clean_deletes_under_newer_deploy_witness:
  "row_of si_id ''i1'' (d_instances (w_db (finalizeClean example_manager (quiet 9) ''i1'' (example_log ''a'' 1 DeployLogRunning) [] None
      (example_world [example_instance\<lparr>si_status := StackStatusDeploying, si_delete_after_clean := True\<rparr>]
        [example_log ''a'' 1 DeployLogRunning, example_log ''b'' 2 DeployLogRunning] [])))) = None"
  by (rule clean_deletes_under_newer_deploy [of _ _ "example_instance\<lparr>si_status := StackStatusDeploying, si_delete_after_clean := True\<rparr>"])
    (simp_all add: log_open_def newer_exists_def allLogActions_def keyed_def)

end
