(* ===== verification/Execute.thy ===== *)
theory Execute
  imports Finalize
begin

text \<open>
  The goroutines of a stop and a clean (\<open>executeStopWithCharts\<close>, \<open>executeClean\<close> in
  \<open>internal/deployer/manager.go\<close>) and the wait of a stop for earlier operations
  (\<open>internal/deployer/operation_wait.go\<close>). What Helm and Kubernetes answer is a parameter: a
  command returns its output and an optional error.
\<close>

section \<open>Waiting for earlier operations\<close>

definition helmLogActions :: "string list" where
  "helmLogActions = [DeployActionDeploy, DeployActionRollback]"

abbreviation replica_StaleAfter :: duration where "replica_StaleAfter \<equiv> 2 * Minute"
abbreviation earlierOperationReadBudget :: duration where "earlierOperationReadBudget \<equiv> 2 * Minute"

definition awaited_log :: "deployment_log \<Rightarrow> gtime \<Rightarrow> deployment_log \<Rightarrow> bool" where
  "awaited_log stopLog now l \<longleftrightarrow>
     dl_id l \<noteq> dl_id stopLog \<and> dl_status l = DeployLogRunning \<and> dl_started_at l \<le> dl_started_at stopLog
     \<and> (case dl_deadline_at l of None \<Rightarrow> False | Some d \<Rightarrow> now < d)"

definition runningEarlierLog :: "logs \<Rightarrow> deployment_log \<Rightarrow> gtime \<Rightarrow> deployment_log option" where
  "runningEarlierLog ls stopLog now = find (awaited_log stopLog now) ls"

definition withoutLog :: "logs \<Rightarrow> string \<Rightarrow> logs" where
  "withoutLog ls i = filter (\<lambda>l. dl_id l \<noteq> i) ls"

definition replicaAlive :: "manager \<Rightarrow> gtime \<Rightarrow> string \<Rightarrow> fault \<Rightarrow> db \<Rightarrow> db_cause + bool" where
  "replicaAlive m dbnow replicaID flt d =
     (if replicaID = [] \<or> replicaID = m_replica_id m \<or> \<not> m_heartbeats m then Inr True
      else case hb_SeenWithin flt dbnow [replicaID] replica_StaleAfter (d_heartbeats d) of
             Inl e \<Rightarrow> Inl e
           | Inr seen \<Rightarrow> Inr (seen replicaID))"

lemma runningEarlierLog_shrinks:
  "runningEarlierLog ls stopLog now = Some l \<Longrightarrow> length (withoutLog ls (dl_id l)) < length ls"
  unfolding runningEarlierLog_def withoutLog_def find_Some_iff
  by (auto intro: length_filter_less [OF nth_mem])

text \<open>The loop over the candidates: a candidate of a stopped replica is skipped.\<close>

function earlier_loop :: "manager \<Rightarrow> gtime \<Rightarrow> gtime \<Rightarrow> fault \<Rightarrow> db \<Rightarrow> deployment_log \<Rightarrow> logs \<Rightarrow> db_cause + deployment_log option" where
  "earlier_loop m now dbnow flt d stopLog ls =
     (case runningEarlierLog ls stopLog now of
        None \<Rightarrow> Inr None
      | Some l \<Rightarrow>
          (case replicaAlive m dbnow (dl_replica_id l) flt d of
             Inl e \<Rightarrow> Inl e
           | Inr True \<Rightarrow> Inr (Some l)
           | Inr False \<Rightarrow> earlier_loop m now dbnow flt d stopLog (withoutLog ls (dl_id l))))"
  by pat_completeness auto
termination
  by (relation "measure (\<lambda>(m, now, dbnow, flt, d, stopLog, ls). length ls)") (auto simp: runningEarlierLog_shrinks)

declare earlier_loop.simps [simp del]

definition runningEarlierOperation ::
  "manager \<Rightarrow> io \<Rightarrow> gtime \<Rightarrow> string \<Rightarrow> deployment_log \<Rightarrow> world \<Rightarrow> (db_cause + deployment_log option) \<times> world" where
  "runningEarlierOperation m io dbnow instanceID stopLog w =
     (let r = db_read io ''earlier_operations'' (\<lambda>flt d.
                case log_ListLatestByActions flt instanceID helmLogActions (int (length helmLogActions) + 1) (d_logs d) of
                  Inl e \<Rightarrow> Inl (repo_cause e)
                | Inr ls \<Rightarrow> earlier_loop m (io_now io) dbnow (io_fault io ''heartbeats'') d stopLog ls) w
      in r)"

text \<open>
  One round of the wait: the calls of the round, the database clock, and whether the server shuts
  down before the next tick. The list of rounds is what the world offers; when it ends the stop is
  still waiting.
\<close>

record wait_round =
  wr_io :: io
  wr_dbnow :: gtime
  wr_shutdown :: bool

fun wait_loop ::
  "manager \<Rightarrow> string \<Rightarrow> deployment_log \<Rightarrow> wait_round list \<Rightarrow> gtime option \<Rightarrow> string \<Rightarrow> world \<Rightarrow> (string \<times> world) option" where
  "wait_loop m instanceID stopLog [] failingSince waitLine w = None"
| "wait_loop m instanceID stopLog (r # rs) failingSince waitLine w =
     (let now = io_now (wr_io r); res = runningEarlierOperation m (wr_io r) (wr_dbnow r) instanceID stopLog w
      in case fst res of
           Inl e \<Rightarrow>
             (let since = (case failingSince of None \<Rightarrow> now | Some t \<Rightarrow> t)
              in if now - since \<ge> earlierOperationReadBudget \<or> wr_shutdown r then Some (waitLine, snd res)
                 else wait_loop m instanceID stopLog rs (Some since) waitLine (snd res))
         | Inr None \<Rightarrow> Some (waitLine, snd res)
         | Inr (Some l) \<Rightarrow>
             (let line = ''Waiting for the running '' @ dl_action l @ '' (log '' @ dl_id l @ '') to end before the uninstall'';
                  next = (if waitLine = [] then (line @ [newline], broadcastLog m instanceID (dl_id stopLog) line (snd res))
                          else (waitLine, snd res))
              in if wr_shutdown r then Some next
                 else wait_loop m instanceID stopLog rs None (fst next) (snd next)))"

definition waitForEarlierOperations ::
  "manager \<Rightarrow> string \<Rightarrow> deployment_log \<Rightarrow> wait_round list \<Rightarrow> world \<Rightarrow> (string \<times> world) option" where
  "waitForEarlierOperations m instanceID stopLog rs w = wait_loop m instanceID stopLog rs None [] w"

section \<open>Uninstalling\<close>

text \<open>
  Helm as the goroutines use it: an uninstall request gives an output and an error, if any. \<open>left\<close>
  is the time that the context of the operation still has when a release is uninstalled.
\<close>

type_synonym command = "string \<times> goerr option"

record uninstall_request =
  ur_release :: string
  ur_namespace :: string
  ur_timeout :: duration
  ur_no_wait :: bool

abbreviation defaultUninstallTimeout :: duration where "defaultUninstallTimeout \<equiv> 5 * Minute"

definition stop_uninstall :: "string \<Rightarrow> (string \<Rightarrow> duration) \<Rightarrow> string \<Rightarrow> uninstall_request" where
  "stop_uninstall namespace left release =
     \<lparr>ur_release = release, ur_namespace = namespace,
      ur_timeout = uninstallWaitTimeout defaultUninstallTimeout (Some (left release)), ur_no_wait = False\<rparr>"

definition clean_uninstall :: "string \<Rightarrow> string \<Rightarrow> uninstall_request" where
  "clean_uninstall namespace release =
     \<lparr>ur_release = release, ur_namespace = namespace, ur_timeout = 0, ur_no_wait = True\<rparr>"

definition chart_header :: "string \<Rightarrow> string \<Rightarrow> string" where
  "chart_header name output = ''=== Chart: '' @ name @ '' ==='' @ [newline] @ output @ [newline]"

definition removed_line :: "string \<Rightarrow> string" where
  "removed_line name = ''Release '' @ go_quote name @ '' already removed, skipping'' @ [newline]"

text \<open>A failed command of a release that exists; the error of Helm names a missing release in its output.\<close>

definition uninstall_failed :: "command \<Rightarrow> bool" where
  "uninstall_failed res \<longleftrightarrow> snd res \<noteq> None \<and> \<not> Contains (fst res) ''not found''"

text \<open>The loop of a stop: the first failed uninstall of an existing release ends it.\<close>

record stop_loop_result =
  sl_output :: string
  sl_error :: "goerr option"
  sl_world :: world

fun stop_loop ::
  "manager \<Rightarrow> bool \<Rightarrow> string \<Rightarrow> string \<Rightarrow> (string \<Rightarrow> uninstall_request) \<Rightarrow> (uninstall_request \<Rightarrow> command)
   \<Rightarrow> chart_deploy_info list \<Rightarrow> string \<Rightarrow> world \<Rightarrow> stop_loop_result" where
  "stop_loop m streaming instanceID logID request helm [] out w = \<lparr>sl_output = out, sl_error = None, sl_world = w\<rparr>"
| "stop_loop m streaming instanceID logID request helm (c # cs) out w =
     (let name = cc_chart_name (ci_config c); res = helm (request name);
          out1 = out @ chart_header name (fst res);
          w1 = (if streaming then w else broadcastLog m instanceID logID (fst res) w)
      in case snd res of
           None \<Rightarrow> stop_loop m streaming instanceID logID request helm cs out1 w1
         | Some e \<Rightarrow>
             if Contains (fst res) ''not found''
             then stop_loop m streaming instanceID logID request helm cs (out1 @ removed_line name) w1
             else (let err = EWrap (''uninstalling chart '' @ go_quote name @ '': '') e []
                   in \<lparr>sl_output = out1 @ ''ERROR: '' @ err_text err @ [newline], sl_error = Some err, sl_world = w1\<rparr>))"

text \<open>\<open>drop_trigger\<close>: the deferred removal of the trigger of the log.\<close>

definition drop_trigger :: "string \<Rightarrow> world \<Rightarrow> world" where
  "drop_trigger logID w = w\<lparr>w_triggers := (w_triggers w)(logID := None)\<rparr>"

text \<open>The goroutine of a stop. \<open>shutdown\<close>: the server shut down during the wait.\<close>

definition executeStopWithCharts ::
  "manager \<Rightarrow> wait_round list \<Rightarrow> bool \<Rightarrow> io \<Rightarrow> bool \<Rightarrow> (string \<Rightarrow> duration) \<Rightarrow> (uninstall_request \<Rightarrow> command) \<Rightarrow> job \<Rightarrow> world
   \<Rightarrow> world option" where
  "executeStopWithCharts m rounds shutdown io streaming left helm job w =
     (let instanceID = si_id (j_instance job); l = j_log job; namespace = si_namespace (j_instance job)
      in case waitForEarlierOperations m instanceID l rounds w of
           None \<Rightarrow> None
         | Some (waitOutput, w1) \<Rightarrow> Some (drop_trigger (dl_id l)
            (if shutdown then finalizeStop m io instanceID l waitOutput (Some (ESentinel ErrStopInterrupted)) w1
             else (let n = newerOperation io instanceID (dl_id l) w1
                   in if fst n then cancelStopForNewerOperation m io instanceID l waitOutput (snd n)
                      else (let e = extendDeadline m io l (Some (j_helm_timeout job)) (length (j_charts job)) (snd n)
                            in if \<not> fst (fst e) then snd e
                               else (let s = stop_loop m streaming instanceID (dl_id l) (stop_uninstall namespace left) helm
                                               (j_charts job) waitOutput (snd e)
                                     in finalizeStop m io instanceID (snd (fst e)) (sl_output s) (sl_error s) (sl_world s)))))))"

text \<open>The loop of a clean goes on after a failed uninstall and counts the failures.\<close>

record clean_loop_result =
  cl_output :: string
  cl_failed :: nat
  cl_world :: world

fun clean_loop ::
  "manager \<Rightarrow> bool \<Rightarrow> string \<Rightarrow> string \<Rightarrow> (string \<Rightarrow> uninstall_request) \<Rightarrow> (uninstall_request \<Rightarrow> command)
   \<Rightarrow> chart_deploy_info list \<Rightarrow> string \<Rightarrow> nat \<Rightarrow> world \<Rightarrow> clean_loop_result" where
  "clean_loop m streaming instanceID logID request helm [] out n w = \<lparr>cl_output = out, cl_failed = n, cl_world = w\<rparr>"
| "clean_loop m streaming instanceID logID request helm (c # cs) out n w =
     (let name = cc_chart_name (ci_config c); res = helm (request name);
          out1 = out @ chart_header name (fst res);
          w1 = (if streaming then w else broadcastLog m instanceID logID (fst res) w)
      in case snd res of
           None \<Rightarrow> clean_loop m streaming instanceID logID request helm cs out1 n w1
         | Some e \<Rightarrow>
             if Contains (fst res) ''not found''
             then clean_loop m streaming instanceID logID request helm cs (out1 @ removed_line name) n w1
             else clean_loop m streaming instanceID logID request helm cs
                    (out1 @ ''ERROR: uninstalling chart '' @ go_quote name @ '': '' @ err_text e @ [newline]) (Suc n) w1)"

text \<open>\<open>deleteNamespace\<close>: no client, or the result of the namespace delete.\<close>

definition clean_namespace :: "goerr option option \<Rightarrow> string \<Rightarrow> string \<Rightarrow> nat \<Rightarrow> nat \<Rightarrow> string \<times> goerr option" where
  "clean_namespace deleteNamespace namespace out failed charts =
     (case deleteNamespace of
        Some (Some e) \<Rightarrow>
          (let err = EWrap (''deleting namespace '' @ go_quote namespace @ '': '') e []
           in (out @ ''ERROR: '' @ err_text err @ [newline], Some err))
      | ns \<Rightarrow>
          (let out1 = (if ns = None then out else out @ ''=== Namespace '' @ namespace @ '' deleted ==='' @ [newline])
           in (if failed > 0
               then out1 @ ''WARNING: '' @ digits failed @ '' of '' @ digits charts
                      @ '' charts failed to uninstall (namespace deletion cleaned up remaining resources)'' @ [newline]
               else out1, None)))"

definition executeClean ::
  "manager \<Rightarrow> io \<Rightarrow> bool \<Rightarrow> (uninstall_request \<Rightarrow> command) \<Rightarrow> goerr option option \<Rightarrow> job \<Rightarrow> world \<Rightarrow> world" where
  "executeClean m io streaming helm deleteNamespace job w =
     (let instanceID = si_id (j_instance job); l = j_log job; namespace = si_namespace (j_instance job);
          e = extendDeadline m io l (Some (j_helm_timeout job)) (length (j_charts job)) w
      in drop_trigger (dl_id l)
          (if \<not> fst (fst e) then clear_delete_mark io instanceID (snd e)
           else (let s = clean_loop m streaming instanceID (dl_id l) (clean_uninstall namespace) helm (j_charts job) [] 0 (snd e);
                     c = clean_namespace deleteNamespace namespace (cl_output s) (cl_failed s) (length (j_charts job))
                 in finalizeClean m io instanceID (snd (fst e)) (fst c) (snd c) (cl_world s))))"

section \<open>Lemmas\<close>

lemma drop_trigger_db [simp]: "w_db (drop_trigger i w) = w_db w"
  by (simp add: drop_trigger_def)

lemma stop_loop_db [simp]: "w_db (sl_world (stop_loop m st i lg rq h cs out w)) = w_db w"
  by (cases st; induction cs arbitrary: out w) (auto simp: Let_def split: option.splits)

lemma clean_loop_db [simp]: "w_db (cl_world (clean_loop m st i lg rq h cs out n w)) = w_db w"
  by (cases st; induction cs arbitrary: out n w) (auto simp: Let_def split: option.splits)

definition chart_result :: "(string \<Rightarrow> uninstall_request) \<Rightarrow> (uninstall_request \<Rightarrow> command) \<Rightarrow> chart_deploy_info \<Rightarrow> command" where
  "chart_result request helm c = helm (request (cc_chart_name (ci_config c)))"

lemma stop_loop_error:
  "sl_error (stop_loop m st i lg rq h cs out w) =
     (case find (\<lambda>c. uninstall_failed (chart_result rq h c)) cs of
        None \<Rightarrow> None
      | Some c \<Rightarrow> Some (EWrap (''uninstalling chart '' @ go_quote (cc_chart_name (ci_config c)) @ '': '')
                         (the (snd (chart_result rq h c))) []))"
  by (cases st; induction cs arbitrary: out w)
    (auto simp: uninstall_failed_def chart_result_def Let_def split: option.splits)

lemma clean_loop_failed:
  "cl_failed (clean_loop m st i lg rq h cs out n w) =
     n + length (filter (\<lambda>c. uninstall_failed (chart_result rq h c)) cs)"
  by (cases st; induction cs arbitrary: out n w)
    (auto simp: uninstall_failed_def chart_result_def Let_def split: option.splits)

lemma later_deadline_simps [simp]:
  "dl_id (later_deadline d l) = dl_id l" "dl_status (later_deadline d l) = dl_status l"
  "dl_action (later_deadline d l) = dl_action l"
  by (auto simp: later_deadline_def split: option.splits)

lemma log_open_ExtendDeadline [simp]:
  "log_open j (snd (log_ExtendDeadline None None i d t)) \<longleftrightarrow> log_open j t"
proof -
  have "row_of dl_id j (snd (log_ExtendDeadline None None i d t)) =
      map_option (\<lambda>l. if running_log i l \<and> (case dl_deadline_at l of None \<Rightarrow> True | Some e \<Rightarrow> e < d)
                      then l\<lparr>dl_deadline_at := Some d\<rparr> else l) (row_of dl_id j t)"
    unfolding log_ExtendDeadline_def by (subst update_running_row) auto
  then show ?thesis by (cases "row_of dl_id j t") (simp_all add: log_open_def)
qed

text \<open>The end of a stop that got this far, seen from the tables.\<close>

lemma finalizeStop_effect:
  assumes "keyed dl_id (d_logs (w_db w))" and "row_of si_id i (d_instances (w_db w)) = Some inst"
    and "log_open (dl_id l) (d_logs (w_db w))"
  shows "map_option si_status (row_of si_id i (d_instances (w_db (finalizeStop m (quiet now) i l out e w)))) =
      Some (if e = None then StackStatusStopped else StackStatusError)"
    and "map_option dl_status (row_of dl_id (dl_id l) (d_logs (w_db (finalizeStop m (quiet now) i l out e w)))) =
      Some (if e = None then DeployLogSuccess else DeployLogError)"
proof -
  have id: "si_id inst = i" using assms(2) by (auto dest: row_of_SomeD)
  let ?r = "stop_result e now inst (ended_log now out l)"
  let ?f = "writeFinal m (quiet now) (Some (fst ?r)) (snd ?r) (snd (find_instance (quiet now) ''finalize'' i w))"
  have f: "fst ?f" "w_db (snd ?f) = (w_db w)\<lparr>d_logs := snd (log_Update None None (snd ?r) (d_logs (w_db w))),
      d_instances := snd (inst_Update None now (fst ?r) (d_instances (w_db w)))\<rparr>"
    using writeFinal_open [of "snd (find_instance (quiet now) ''finalize'' i w)" "snd ?r"] assms by simp_all
  have db: "w_db (finalizeStop m (quiet now) i l out e w) = w_db (snd ?f)"
    using assms(2) f(1) by (simp add: finalizeStop_def inst_FindByID_def Let_def)
  obtain r0 where r0: "row_of dl_id (dl_id l) (d_logs (w_db w)) = Some r0" "dl_status r0 = DeployLogRunning"
    using assms(3) by (auto simp: log_open_def)
  have st: "si_status (fst ?r) = (if e = None then StackStatusStopped else StackStatusError)"
      "dl_status (snd ?r) = (if e = None then DeployLogSuccess else DeployLogError)"
    by (cases e; simp add: stop_result_def log_error_def Let_def)+
  show "map_option si_status (row_of si_id i (d_instances (w_db (finalizeStop m (quiet now) i l out e w)))) =
      Some (if e = None then StackStatusStopped else StackStatusError)"
    using id assms(2) by (simp add: db f inst_Update_row st)
  show "map_option dl_status (row_of dl_id (dl_id l) (d_logs (w_db (finalizeStop m (quiet now) i l out e w)))) =
      Some (if e = None then DeployLogSuccess else DeployLogError)"
    using r0 by (simp add: db f log_Update_row st)
qed

section \<open>Properties\<close>

text \<open>C21. A stop tells the truth. When the wait for earlier operations is over, no newer operation
  took the instance and the log still runs, the goroutine ends the log and sets the instance to
  stopped exactly when every chart was uninstalled or its release was already gone; otherwise both
  end in error.\<close>

theorem stop_completes:
  assumes "waitForEarlierOperations m (si_id (j_instance job)) (j_log job) rounds w = Some (waitOutput, w1)"
    and "keyed dl_id (d_logs (w_db w1))" and "row_of si_id (si_id (j_instance job)) (d_instances (w_db w1)) = Some inst"
    and "log_open (dl_id (j_log job)) (d_logs (w_db w1))"
    and "\<not> newer_in (si_id (j_instance job)) (dl_id (j_log job)) None (w_db w1)"
    and "ok = list_all (\<lambda>c. \<not> uninstall_failed (chart_result (stop_uninstall (si_namespace (j_instance job)) left) helm c)) (j_charts job)"
  shows "\<exists>w'. executeStopWithCharts m rounds False (quiet now) streaming left helm job w = Some w'
    \<and> map_option si_status (row_of si_id (si_id (j_instance job)) (d_instances (w_db w'))) =
        Some (if ok then StackStatusStopped else StackStatusError)
    \<and> map_option dl_status (row_of dl_id (dl_id (j_log job)) (d_logs (w_db w'))) =
        Some (if ok then DeployLogSuccess else DeployLogError)"
proof -
  let ?i = "si_id (j_instance job)" and ?l = "j_log job"
  let ?n = "snd (newerOperation (quiet now) ?i (dl_id ?l) w1)"
  let ?e = "extendDeadline m (quiet now) ?l (Some (j_helm_timeout job)) (length (j_charts job)) ?n"
  have n: "w_db ?n = w_db w1" by simp
  define D where "D = now + (runBudget m (dl_action ?l) (helmTimeoutOf (Some (j_helm_timeout job))) (length (j_charts job)) + DeadlineMargin)"
  have e: "fst ?e = (True, later_deadline D ?l)"
      "w_db (snd ?e) = (w_db w1)\<lparr>d_logs := snd (log_ExtendDeadline None None (dl_id ?l) D (d_logs (w_db w1)))\<rparr>"
    using extendDeadline_effect [where w = ?n and l = ?l and D = D and m = m and now = now] assms(2,4) unfolding D_def n by simp_all
  let ?s = "stop_loop m streaming ?i (dl_id ?l) (stop_uninstall (si_namespace (j_instance job)) left) helm (j_charts job) waitOutput (snd ?e)"
  have run: "executeStopWithCharts m rounds False (quiet now) streaming left helm job w =
      Some (drop_trigger (dl_id ?l) (finalizeStop m (quiet now) ?i (later_deadline D ?l) (sl_output ?s) (sl_error ?s) (sl_world ?s)))"
    using assms(1,5) e(1) by (simp add: executeStopWithCharts_def Let_def)
  have ok: "sl_error ?s = None \<longleftrightarrow> ok"
    using assms(6) find_None_iff [of "\<lambda>c. uninstall_failed (chart_result (stop_uninstall (si_namespace (j_instance job)) left) helm c)" "j_charts job"]
    by (auto simp: stop_loop_error list_all_iff split: option.splits)
  have w: "keyed dl_id (d_logs (w_db (sl_world ?s)))" "row_of si_id ?i (d_instances (w_db (sl_world ?s))) = Some inst"
      "log_open (dl_id (later_deadline D ?l)) (d_logs (w_db (sl_world ?s)))"
    using assms(2-4) by (simp_all add: e(2) keyed_log_ExtendDeadline)
  show ?thesis
    using finalizeStop_effect [OF w, of m now "sl_output ?s" "sl_error ?s"] by (simp add: run ok)
qed

definition example_chart :: "string \<Rightarrow> int \<Rightarrow> chart_deploy_info" where
  "example_chart name order =
     \<lparr>ci_config = \<lparr>cc_id = name, cc_stack_definition_id = ''d1'', cc_chart_name = name, cc_repository_url = [], cc_source_repo_url = [],
        cc_build_pipeline_id = [], cc_chart_path = [], cc_chart_version = [], cc_default_values = [], cc_deploy_order = order,
        cc_created_at = 0\<rparr>, ci_values = [], ci_branch = []\<rparr>"

definition example_job :: "stack_instance \<Rightarrow> deployment_log \<Rightarrow> job" where
  "example_job inst l = \<lparr>j_instance = inst, j_log = l,
     j_charts = [example_chart ''web'' 1], j_helm_timeout = 5 * Minute, j_prev_status = [], j_prev_error = []\<rparr>"

lemma example_job_simps [simp]:
  "j_instance (example_job inst l) = inst" "j_log (example_job inst l) = l"
  by (simp_all add: example_job_def)

theorem stop_completes_witness:
  "\<exists>w'. executeStopWithCharts example_manager [\<lparr>wr_io = quiet 8, wr_dbnow = 8, wr_shutdown = False\<rparr>] False (quiet 9) True
      (\<lambda>_. Minute) (\<lambda>r. (''boom'', Some (EText ''exit status 1''))) (example_job example_instance (example_log ''a'' 1 DeployLogRunning))
      (example_world [example_instance] [example_log ''a'' 1 DeployLogRunning] []) = Some w'
    \<and> map_option si_status (row_of si_id ''i1'' (d_instances (w_db w'))) = Some StackStatusError"
proof -
  let ?l = "example_log ''a'' 1 DeployLogRunning"
  let ?w = "example_world [example_instance] [?l] []"
  let ?rs = "[\<lparr>wr_io = quiet 8, wr_dbnow = 8, wr_shutdown = False\<rparr>]"
  let ?job = "example_job example_instance ?l"
  let ?h = "\<lambda>r :: uninstall_request. (''boom'', Some (EText ''exit status 1''))"
  have none: "earlier_loop example_manager 8 8 None (w_db ?w) ?l [latest_columns ?l] = Inr None"
    by (subst earlier_loop.simps) (simp add: runningEarlierLog_def awaited_log_def latest_columns_def)
  have wait: "waitForEarlierOperations example_manager (si_id (j_instance ?job)) (j_log ?job) ?rs ?w = Some ([], ?w)"
    using none by (simp add: waitForEarlierOperations_def runningEarlierOperation_def db_read_def Let_def log_ListLatestByActions_def
        query_def newest_first_def helmLogActions_def)
  have ok: "False = list_all (\<lambda>c. \<not> uninstall_failed (chart_result (stop_uninstall (si_namespace (j_instance ?job)) (\<lambda>_. Minute)) ?h c)) (j_charts ?job)"
    by (simp add: uninstall_failed_def chart_result_def example_job_def HasPrefix_def)
  have n: "\<not> newer_in (si_id (j_instance ?job)) (dl_id (j_log ?job)) None (w_db ?w)"
    by (simp add: newer_in_def log_ListLatestByActions_def query_def newest_first_def allLogActions_def latest_columns_def)
  show ?thesis
    using stop_completes [OF wait _ _ _ n ok, of example_instance 9 True] by (auto simp: log_open_def)
qed

text \<open>The decision of one round of the wait.\<close>

definition holds_up :: "manager \<Rightarrow> gtime \<Rightarrow> gtime \<Rightarrow> db \<Rightarrow> deployment_log \<Rightarrow> deployment_log \<Rightarrow> bool" where
  "holds_up m now dbnow d stopLog l \<longleftrightarrow>
     dl_id l \<noteq> dl_id stopLog \<and> dl_status l = DeployLogRunning \<and> dl_started_at l \<le> dl_started_at stopLog
     \<and> (\<exists>deadline. dl_deadline_at l = Some deadline \<and> now < deadline)
     \<and> replicaAlive m dbnow (dl_replica_id l) None d = Inr True"

lemma holds_up_iff:
  "holds_up m now dbnow d stopLog l \<longleftrightarrow> awaited_log stopLog now l \<and> replicaAlive m dbnow (dl_replica_id l) None d = Inr True"
  by (auto simp: holds_up_def awaited_log_def split: option.splits)

lemma replicaAlive_None: "\<exists>b. replicaAlive m dbnow r None d = Inr b"
  by (auto simp: replicaAlive_def hb_SeenWithin_def)

lemma earlier_loop_reads: "earlier_loop m now dbnow None d stopLog ls \<noteq> Inl e"
proof (induction m now dbnow "None :: fault" d stopLog ls rule: earlier_loop.induct)
  case (1 m now dbnow d stopLog ls)
  show ?case
  proof (cases "runningEarlierLog ls stopLog now")
    case (Some l)
    obtain b where "replicaAlive m dbnow (dl_replica_id l) None d = Inr b" using replicaAlive_None by blast
    with 1 Some show ?thesis by (subst earlier_loop.simps) (cases b; simp)
  qed (simp add: earlier_loop.simps)
qed

lemma earlier_loop_correct:
  assumes "inj_on dl_id (set ls)"
  shows "case earlier_loop m now dbnow None d stopLog ls of
      Inl e \<Rightarrow> False
    | Inr None \<Rightarrow> \<not> list_ex (holds_up m now dbnow d stopLog) ls
    | Inr (Some l) \<Rightarrow> l \<in> set ls \<and> holds_up m now dbnow d stopLog l"
  using assms
proof (induction m now dbnow "None :: fault" d stopLog ls rule: earlier_loop.induct)
  case (1 m now dbnow d stopLog ls)
  show ?case
  proof (cases "runningEarlierLog ls stopLog now")
    case None
    then have "\<not> list_ex (holds_up m now dbnow d stopLog) ls"
      by (auto simp: runningEarlierLog_def find_None_iff list_ex_iff holds_up_iff)
    with None show ?thesis by (simp add: earlier_loop.simps)
  next
    case (Some l)
    then have l: "l \<in> set ls" "awaited_log stopLog now l"
      by (auto simp: runningEarlierLog_def find_Some_iff)
    obtain b where b: "replicaAlive m dbnow (dl_replica_id l) None d = Inr b"
      using replicaAlive_None by blast
    show ?thesis
    proof (cases b)
      case True
      with Some b l show ?thesis by (subst earlier_loop.simps) (simp add: holds_up_iff)
    next
      case False
      have inj: "inj_on dl_id (set (withoutLog ls (dl_id l)))"
        using 1(2) by (auto simp: withoutLog_def inj_on_def)
      have eq: "earlier_loop m now dbnow None d stopLog ls = earlier_loop m now dbnow None d stopLog (withoutLog ls (dl_id l))"
        using Some b False by (subst earlier_loop.simps) simp
      have "dl_id x \<noteq> dl_id l" if "x \<in> set ls" "holds_up m now dbnow d stopLog x" for x
        using that l b False inj_onD [OF 1(2), of x l] by (auto simp: holds_up_iff)
      then have "list_ex (holds_up m now dbnow d stopLog) ls \<longleftrightarrow> list_ex (holds_up m now dbnow d stopLog) (withoutLog ls (dl_id l))"
        by (auto simp: list_ex_iff withoutLog_def)
      with 1(1) [OF Some b] False inj show ?thesis
        by (auto simp: eq withoutLog_def split: sum.splits option.splits)
    qed
  qed
qed

text \<open>The logs that a round looks at: the three newest deploys and rollbacks of the instance.\<close>

definition recent_helm_logs :: "string \<Rightarrow> db \<Rightarrow> logs" where
  "recent_helm_logs i d = map latest_columns (take 3 (newest_first
     (filter (\<lambda>l. dl_stack_instance_id l = i \<and> dl_action l \<in> set helmLogActions) (d_logs d))))"

lemma recent_helm_logs_inj:
  assumes "keyed dl_id (d_logs d)"
  shows "inj_on dl_id (set (recent_helm_logs i d))"
proof -
  have "distinct (map dl_id (newest_first (filter P (d_logs d))))" for P
    using assms by (auto simp: keyed_def newest_first_def distinct_map intro: inj_on_subset)
  then have "distinct (map dl_id (recent_helm_logs i d))"
    by (simp add: recent_helm_logs_def latest_columns_def comp_def flip: take_map)
  then show ?thesis by (simp add: distinct_map)
qed

definition reads_work :: "io \<Rightarrow> bool" where
  "reads_work io \<longleftrightarrow> io_fault io ''earlier_operations'' = None \<and> io_fault io ''heartbeats'' = None"

lemma round_reads:
  assumes "reads_work io"
  shows "fst (runningEarlierOperation m io dbnow i stopLog w) =
      earlier_loop m (io_now io) dbnow None (io_env io ''earlier_operations'' (w_db w)) stopLog
        (recent_helm_logs i (io_env io ''earlier_operations'' (w_db w)))"
    and "w_db (snd (runningEarlierOperation m io dbnow i stopLog w)) = io_env io ''earlier_operations'' (w_db w)"
  using assms
  by (simp_all add: runningEarlierOperation_def reads_work_def log_ListLatestByActions_def query_def recent_helm_logs_def
      helmLogActions_def Let_def)

lemma wait_loop_clear:
  assumes "wait_loop m i stopLog rs since line w = Some (out, w1)"
    and "list_all (\<lambda>r. \<not> wr_shutdown r \<and> reads_work (wr_io r)) rs" and "keyed dl_id (d_logs (w_db w1))"
  shows "\<exists>r\<in>set rs. \<not> list_ex (holds_up m (io_now (wr_io r)) (wr_dbnow r) (w_db w1) stopLog) (recent_helm_logs i (w_db w1))"
  using assms
proof (induction rs arbitrary: since line w)
  case (Cons r rs)
  let ?d = "io_env (wr_io r) ''earlier_operations'' (w_db w)"
  have r: "reads_work (wr_io r)" "\<not> wr_shutdown r" using Cons.prems(2) by simp_all
  note reads = round_reads [OF r(1), of m "wr_dbnow r" i stopLog w]
  let ?res = "fst (runningEarlierOperation m (wr_io r) (wr_dbnow r) i stopLog w)"
  show ?case
  proof (cases "?res = Inr None")
    case True
    with Cons.prems(1) have "w_db w1 = ?d" by (auto simp: Let_def reads)
    with True reads(1) Cons.prems(3)
      earlier_loop_correct [OF recent_helm_logs_inj [where d = ?d and i = i], where m = m and now = "io_now (wr_io r)"
        and dbnow = "wr_dbnow r" and d = ?d and stopLog = stopLog]
    show ?thesis by (auto split: sum.splits)
  next
    case False
    then obtain since' line' w' where "wait_loop m i stopLog rs since' line' w' = Some (out, w1)"
      using Cons.prems(1) r(2) earlier_loop_reads
      by (auto simp: reads Let_def split: sum.splits option.splits if_splits)
    with Cons.IH Cons.prems(2,3) show ?thesis by simp
  qed
qed simp


text \<open>A log past its deadline does not hold up a stop.\<close>

lemma past_deadline_clear:
  assumes "\<And>l. l \<in> set (d_logs d) \<Longrightarrow> dl_stack_instance_id l = i \<Longrightarrow> dl_status l = DeployLogRunning
      \<Longrightarrow> (case dl_deadline_at l of None \<Rightarrow> True | Some e \<Rightarrow> e \<le> now)"
  shows "earlier_loop m now dbnow flt d' stopLog (recent_helm_logs i d) = Inr None"
proof -
  have mem: "\<exists>l\<in>set (d_logs d). x = latest_columns l \<and> dl_stack_instance_id l = i" if "x \<in> set (recent_helm_logs i d)" for x
    using that in_set_takeD unfolding recent_helm_logs_def newest_first_def by fastforce
  have "\<not> awaited_log stopLog now x" if "x \<in> set (recent_helm_logs i d)" for x
    using mem [OF that] assms by (fastforce simp: awaited_log_def latest_columns_def split: option.splits)
  then have "runningEarlierLog (recent_helm_logs i d) stopLog now = None"
    by (auto simp: runningEarlierLog_def find_None_iff)
  then show ?thesis by (simp add: earlier_loop.simps)
qed

lemma wait_loop_ends:
  assumes "r \<in> set rs" and "list_all (\<lambda>r. calm (wr_io r)) rs"
    and "wr_shutdown r \<or> reads_work (wr_io r) \<and>
      (\<forall>l\<in>set (d_logs (w_db w)). dl_stack_instance_id l = i \<longrightarrow> dl_status l = DeployLogRunning \<longrightarrow>
         (case dl_deadline_at l of None \<Rightarrow> True | Some e \<Rightarrow> e \<le> io_now (wr_io r)))"
  shows "\<exists>out w1. wait_loop m i stopLog rs since line w = Some (out, w1)"
  using assms
proof (induction rs arbitrary: since line w)
  case (Cons x rs)
  have db: "w_db (snd (runningEarlierOperation m (wr_io x) (wr_dbnow x) i stopLog w)) = w_db w"
    using Cons.prems(2) by (simp add: runningEarlierOperation_def Let_def)
  show ?case
  proof (cases "x = r")
    case False
    with Cons.prems have "\<exists>out w1. wait_loop m i stopLog rs since' line' w' = Some (out, w1)" if "w_db w' = w_db w" for since' line' w'
      using that by (intro Cons.IH) auto
    with db show ?thesis by (auto simp: Let_def split: sum.splits option.splits)
  next
    case True
    show ?thesis
    proof (cases "wr_shutdown r")
      case False
      with Cons.prems(3) True round_reads(1) [of "wr_io x" m "wr_dbnow x" i stopLog w] Cons.prems(2)
      have "fst (runningEarlierOperation m (wr_io x) (wr_dbnow x) i stopLog w) = Inr None"
        by (simp add: past_deadline_clear)
      then show ?thesis by (simp add: Let_def)
    qed (use True in \<open>auto simp: Let_def split: sum.splits option.splits\<close>)
  qed
qed simp

text \<open>The wait of a stop is bounded: when no other process writes, the wait returns at the latest
  at a round with working reads whose clock has passed the deadline of every running log of the
  instance, or at a shutdown, however many rounds fail before.\<close>

theorem stop_wait_bounded:
  assumes "r \<in> set rounds" and "list_all (\<lambda>r. calm (wr_io r)) rounds"
    and "wr_shutdown r \<or> reads_work (wr_io r) \<and>
      (\<forall>l\<in>set (d_logs (w_db w)). dl_stack_instance_id l = i \<longrightarrow> dl_status l = DeployLogRunning \<longrightarrow>
         (case dl_deadline_at l of None \<Rightarrow> True | Some e \<Rightarrow> e \<le> io_now (wr_io r)))"
  shows "\<exists>out w1. waitForEarlierOperations m i stopLog rounds w = Some (out, w1)"
  using assms unfolding waitForEarlierOperations_def by (rule wait_loop_ends)

definition example_round :: "gtime \<Rightarrow> wait_round" where
  "example_round now = \<lparr>wr_io = quiet now, wr_dbnow = now, wr_shutdown = False\<rparr>"

lemma example_round_simps [simp]:
  "wr_io (example_round t) = quiet t" "wr_dbnow (example_round t) = t" "\<not> wr_shutdown (example_round t)"
  by (simp_all add: example_round_def)

theorem stop_wait_bounded_witness:
  "\<exists>out w1. waitForEarlierOperations example_manager ''i1'' (example_log ''s'' 5 DeployLogRunning) [example_round 8, example_round 20]
     (example_world [] [(example_log ''a'' 1 DeployLogRunning)\<lparr>dl_deadline_at := Some 15\<rparr>] []) = Some (out, w1)"
  by (rule stop_wait_bounded [where r = "example_round 20"]) (simp_all add: reads_work_def)


text \<open>The end of a clean of an instance without a delete mark.\<close>

lemma finalizeClean_plain_effect:
  assumes "keyed dl_id (d_logs (w_db w))" and "row_of si_id i (d_instances (w_db w)) = Some inst"
    and "\<not> si_delete_after_clean inst" and "log_open (dl_id l) (d_logs (w_db w))"
  shows "map_option si_status (row_of si_id i (d_instances (w_db (finalizeClean m (quiet now) i l out e w)))) =
      Some (if e = None then StackStatusDraft else StackStatusError)"
    and "map_option dl_status (row_of dl_id (dl_id l) (d_logs (w_db (finalizeClean m (quiet now) i l out e w)))) =
      Some (if e = None then DeployLogSuccess else DeployLogError)"
proof -
  have id: "si_id inst = i" using assms(2) by (auto dest: row_of_SomeD)
  let ?r = "clean_result e now inst (ended_log now out l)"
  let ?f = "writeFinal m (quiet now) (Some (fst ?r)) (snd ?r) (snd (find_instance (quiet now) ''finalize'' i w))"
  have f: "fst ?f" "w_db (snd ?f) = (w_db w)\<lparr>d_logs := snd (log_Update None None (snd ?r) (d_logs (w_db w))),
      d_instances := snd (inst_Update None now (fst ?r) (d_instances (w_db w)))\<rparr>"
    using writeFinal_open [of "snd (find_instance (quiet now) ''finalize'' i w)" "snd ?r"] assms by simp_all
  have db: "w_db (finalizeClean m (quiet now) i l out e w) = w_db (snd ?f)"
    using assms(2,3) f(1) by (auto simp: finalizeClean_def inst_FindByID_def Let_def split: option.splits)
  obtain r0 where r0: "row_of dl_id (dl_id l) (d_logs (w_db w)) = Some r0" "dl_status r0 = DeployLogRunning"
    using assms(4) by (auto simp: log_open_def)
  have st: "si_status (fst ?r) = (if e = None then StackStatusDraft else StackStatusError)"
    using assms(3) by (cases e) (simp_all add: clean_result_def Let_def)
  show "map_option si_status (row_of si_id i (d_instances (w_db (finalizeClean m (quiet now) i l out e w)))) =
      Some (if e = None then StackStatusDraft else StackStatusError)"
    using id assms(2) by (simp add: db f inst_Update_row st)
  show "map_option dl_status (row_of dl_id (dl_id l) (d_logs (w_db (finalizeClean m (quiet now) i l out e w)))) =
      Some (if e = None then DeployLogSuccess else DeployLogError)"
    using r0 by (simp add: db f log_Update_row)
qed

lemma clean_namespace_error:
  "snd (clean_namespace ns namespace out failed n) = None \<longleftrightarrow> (\<forall>e. ns \<noteq> Some (Some e))"
  by (auto simp: clean_namespace_def Let_def split: option.splits)

text \<open>The result of a clean is the result of the namespace delete alone: whatever each uninstall
  answered, the instance returns to draft and the log ends with success exactly when the delete of
  the namespace did not fail, which includes a cluster without a Kubernetes client, where no
  namespace is deleted at all.\<close>

theorem clean_completes:
  assumes "keyed dl_id (d_logs (w_db w))" and "row_of si_id (si_id (j_instance job)) (d_instances (w_db w)) = Some inst"
    and "\<not> si_delete_after_clean inst" and "log_open (dl_id (j_log job)) (d_logs (w_db w))"
    and "w' = executeClean m (quiet now) streaming helm deleteNamespace job w"
    and "ok = (\<forall>e. deleteNamespace \<noteq> Some (Some e))"
  shows "map_option si_status (row_of si_id (si_id (j_instance job)) (d_instances (w_db w'))) =
        Some (if ok then StackStatusDraft else StackStatusError)
    \<and> map_option dl_status (row_of dl_id (dl_id (j_log job)) (d_logs (w_db w'))) =
        Some (if ok then DeployLogSuccess else DeployLogError)"
proof -
  let ?i = "si_id (j_instance job)" and ?l = "j_log job" and ?ns = "si_namespace (j_instance job)"
  let ?e = "extendDeadline m (quiet now) ?l (Some (j_helm_timeout job)) (length (j_charts job)) w"
  define D where "D = now + (runBudget m (dl_action ?l) (helmTimeoutOf (Some (j_helm_timeout job))) (length (j_charts job)) + DeadlineMargin)"
  note e = extendDeadline_effect [OF assms(1,4) D_def]
  let ?s = "clean_loop m streaming ?i (dl_id ?l) (clean_uninstall ?ns) helm (j_charts job) [] 0 (snd ?e)"
  let ?c = "clean_namespace deleteNamespace ?ns (cl_output ?s) (cl_failed ?s) (length (j_charts job))"
  have run: "w_db w' = w_db (finalizeClean m (quiet now) ?i (later_deadline D ?l) (fst ?c) (snd ?c) (cl_world ?s))"
    using e(1) by (simp add: assms(5) executeClean_def Let_def)
  have w: "keyed dl_id (d_logs (w_db (cl_world ?s)))" "row_of si_id ?i (d_instances (w_db (cl_world ?s))) = Some inst"
      "log_open (dl_id (later_deadline D ?l)) (d_logs (w_db (cl_world ?s)))"
    using assms(1,2,4) by (simp_all add: e(2) keyed_log_ExtendDeadline)
  show ?thesis
    using finalizeClean_plain_effect [OF w(1,2) assms(3) w(3), of m now "fst ?c" "snd ?c"]
    by (simp add: run clean_namespace_error assms(6))
qed

theorem clean_completes_witness:
  "map_option si_status (row_of si_id ''i1'' (d_instances (w_db (executeClean example_manager (quiet 9) True
      (\<lambda>_. (''boom'', Some (EText ''exit status 1''))) None (example_job example_instance (example_log ''a'' 1 DeployLogRunning))
      (example_world [example_instance] [example_log ''a'' 1 DeployLogRunning] []))))) = Some StackStatusDraft"
proof -
  let ?w = "example_world [example_instance] [example_log ''a'' 1 DeployLogRunning] []"
  let ?job = "example_job example_instance (example_log ''a'' 1 DeployLogRunning)"
  have h: "keyed dl_id (d_logs (w_db ?w))" "row_of si_id (si_id (j_instance ?job)) (d_instances (w_db ?w)) = Some example_instance"
      "log_open (dl_id (j_log ?job)) (d_logs (w_db ?w))"
    by (simp_all add: log_open_def)
  have "\<not> si_delete_after_clean example_instance" by (simp add: example_instance_def zero_instance_def)
  from clean_completes [OF h(1,2) this h(3) refl refl, of example_manager 9 True "\<lambda>_. (''boom'', Some (EText ''exit status 1''))" None]
  show ?thesis by simp
qed

end
