(* ===== verification/ChartSource.thy ===== *)
theory ChartSource
  imports GoStrings
begin

text \<open>
  The allowlist of chart repositories (\<open>internal/models/chart_source.go\<close>). The check is made when a
  chart config is stored and again when the chart is installed; \<open>ChartReference\<close> builds what Helm
  gets. The process-wide allowlist (\<open>ALLOWED_CHART_REPOS\<close>) is an argument.
\<close>

section \<open>Model\<close>

abbreviation slash :: char where "slash \<equiv> CHR ''/''"
abbreviation dots :: string where "dots \<equiv> ''..''"
abbreviation scheme_sep :: string where "scheme_sep \<equiv> ''://''"

definition blanks :: string where
  "blanks = map char_of [32 :: nat, 9, 13, 10]"

definition prefix_stops :: string where
  "prefix_stops = blanks @ ''?#@'' @ [char_of (92 :: nat)]"

definition location_stops :: string where
  "location_stops = blanks @ [char_of (92 :: nat)]"

text \<open>Why an allowlist entry or a chart location is refused.\<close>

datatype prefix_error = NoScheme string | BadScheme string | BadCharacters string

datatype source_error = PathNotRelative | NoLocation | LocationCharacters | NotAllowed string

definition NormalizeChartSourcePrefix :: "string \<Rightarrow> prefix_error + string" where
  "NormalizeChartSourcePrefix raw =
     (let p = TrimRight (TrimSpace raw) slash
      in case Cut p scheme_sep of
           None \<Rightarrow> Inl (NoScheme raw)
         | Some (scheme, rest) \<Rightarrow>
             if scheme = [] \<or> rest = [] then Inl (NoScheme raw)
             else if ToLower scheme \<notin> {''oci'', ''https'', ''http''} then Inl (BadScheme raw)
             else if ContainsAny p prefix_stops \<or> Contains p dots then Inl (BadCharacters raw)
             else Inr p)"

definition ChartReference :: "string \<Rightarrow> string \<Rightarrow> string \<Rightarrow> string \<times> string" where
  "ChartReference repositoryURL chartPath chartName =
     (let chartRef = (if chartPath = [] then chartName else chartPath)
      in if HasPrefix repositoryURL ''oci://'' then (TrimRight repositoryURL slash @ ''/'' @ chartRef, [])
         else (chartRef, repositoryURL))"

definition chartLocation :: "string \<Rightarrow> string \<Rightarrow> string \<Rightarrow> source_error + string" where
  "chartLocation repositoryURL chartPath chartName =
     (let repo = TrimSpace repositoryURL; ref = (if chartPath = [] then chartName else chartPath)
      in if repo \<noteq> [] \<and> (Contains ref scheme_sep \<or> HasPrefix ref ''/'') then Inl PathNotRelative
         else (let location = (if repo = [] then ref else TrimRight repo slash @ ''/'' @ ref)
               in if location = [] then Inl NoLocation
                  else if Contains location dots \<or> ContainsAny location location_stops then Inl LocationCharacters
                  else Inr location))"

definition under_prefix :: "string \<Rightarrow> string \<Rightarrow> bool" where
  "under_prefix location prefix \<longleftrightarrow> location = prefix \<or> HasPrefix location (prefix @ ''/'')"

definition checkChartSource :: "string list \<Rightarrow> string \<Rightarrow> string \<Rightarrow> string \<Rightarrow> source_error option" where
  "checkChartSource allowed repositoryURL chartPath chartName =
     (if allowed = [] then None
      else case chartLocation repositoryURL chartPath chartName of
             Inl e \<Rightarrow> Some e
           | Inr location \<Rightarrow> if list_ex (under_prefix location) allowed then None else Some (NotAllowed location))"

definition source_error_text :: "source_error \<Rightarrow> string" where
  "source_error_text e =
     ''chart source not allowed: '' @
     (case e of
        PathNotRelative \<Rightarrow> ''chart_path must be relative to repository_url''
      | NoLocation \<Rightarrow> ''no chart location''
      | LocationCharacters \<Rightarrow>
          (let q = [char_of (39 :: nat)] in
           ''chart location must not contain '' @ q @ ''..'' @ q @ '', '' @ q @ [char_of (92 :: nat)] @ q @ '' or whitespace'')
      | NotAllowed location \<Rightarrow> go_quote location @ '' is not in an allowed chart repository'')"

section \<open>Lemmas\<close>

text \<open>What Helm resolves for a reference and a \<open>--repo\<close> value.\<close>

definition helm_location :: "string \<times> string \<Rightarrow> string" where
  "helm_location r = (if snd r = [] then fst r else TrimRight (snd r) slash @ ''/'' @ fst r)"

lemma chartLocation_helm:
  assumes "chartLocation repo path name = Inr location" and "\<not> list_ex is_space repo"
  shows "helm_location (ChartReference repo path name) = location"
  using assms TrimSpace_id [OF assms(2)]
  by (auto simp: chartLocation_def ChartReference_def helm_location_def HasPrefix_def Let_def split: if_splits)

section \<open>Properties\<close>



text \<open>The check compares the joined location and not the repository that Helm reads: with an
  allowlist of one sub-path of a host, a chart whose repository is the parent, outside the
  allowlist, passes when its chart path starts with the sub-path, and Helm gets the parent as its
  repository.\<close>

theorem parent_repository_passes:
  assumes "chartLocation repo (sub @ ''/'' @ chart) name = Inr (repo @ ''/'' @ sub @ ''/'' @ chart)"
    and "\<not> HasPrefix repo ''oci://''"
  shows "checkChartSource [repo @ ''/'' @ sub] repo (sub @ ''/'' @ chart) name = None
    \<and> ChartReference repo (sub @ ''/'' @ chart) name = (sub @ ''/'' @ chart, repo)
    \<and> \<not> under_prefix repo (repo @ ''/'' @ sub)"
  using assms
  by (simp add: checkChartSource_def ChartReference_def under_prefix_def HasPrefix_iff Let_def)

theorem parent_repository_passes_witness:
  "checkChartSource [''https://c.example'' @ ''/'' @ ''team''] ''https://c.example'' (''team'' @ ''/'' @ ''web'') ''web'' = None"
proof -
  have "chartLocation ''https://c.example'' (''team'' @ ''/'' @ ''web'') ''web'' =
      Inr (''https://c.example'' @ ''/'' @ ''team'' @ ''/'' @ ''web'')" by code_simp
  moreover have "\<not> HasPrefix ''https://c.example'' ''oci://''" by code_simp
  ultimately show ?thesis by (rule parent_repository_passes [THEN conjunct1])
qed

end
