(* ===== verification/Quota.thy ===== *)
theory Quota
  imports GoStrings
begin

text \<open>
  Namespace quotas (\<open>internal/models/quota_merge.go\<close>, \<open>resource_quota.go\<close>,
  \<open>instance_quota_override.go\<close>): the cluster quota, the override of an instance, their merge, the
  validation of the merged quota and the cap for users who may only lower a quota. The quantity
  parser of Kubernetes (\<open>resource.ParseQuantity\<close>) is a parameter: it gives the value of a quantity
  in its smallest unit (nano), so \<open>Cmp\<close> and \<open>Sign\<close> are those of the integers. The getters of
  \<open>quotaQuantityFields\<close> are the functions \<open>quota_get\<close> and \<open>override_get\<close> of a field name.
\<close>

section \<open>Data\<close>

datatype quota_field =
    CPURequest
  | CPULimit
  | MemoryRequest
  | MemoryLimit
  | StorageLimit
  | EphemeralStorageLimit
  | ContainerCPURequest
  | ContainerCPULimit
  | ContainerCPUMax
  | ContainerMemoryRequest
  | ContainerMemoryLimit
  | ContainerMemoryMax
  | ContainerEphemeralStorageRequest
  | ContainerEphemeralStorageLimit

record resource_quota_config =
  rq_created_at :: gtime
  rq_updated_at :: gtime
  rq_id :: string
  rq_cluster_id :: string
  rq_cpu_request :: string
  rq_cpu_limit :: string
  rq_memory_request :: string
  rq_memory_limit :: string
  rq_storage_limit :: string
  rq_ephemeral_storage_limit :: string
  rq_container_cpu_request :: string
  rq_container_cpu_limit :: string
  rq_container_cpu_max :: string
  rq_container_memory_request :: string
  rq_container_memory_limit :: string
  rq_container_memory_max :: string
  rq_container_ephemeral_storage_request :: string
  rq_container_ephemeral_storage_limit :: string
  rq_pod_limit :: int

record instance_quota_override =
  qo_created_at :: gtime
  qo_updated_at :: gtime
  qo_id :: string
  qo_stack_instance_id :: string
  qo_cpu_request :: string
  qo_cpu_limit :: string
  qo_memory_request :: string
  qo_memory_limit :: string
  qo_storage_limit :: string
  qo_ephemeral_storage_limit :: string
  qo_container_cpu_request :: string
  qo_container_cpu_limit :: string
  qo_container_cpu_max :: string
  qo_container_memory_request :: string
  qo_container_memory_limit :: string
  qo_container_memory_max :: string
  qo_container_ephemeral_storage_request :: string
  qo_container_ephemeral_storage_limit :: string
  qo_pod_limit :: "int option"

definition quotaQuantityFields :: "quota_field list" where
  "quotaQuantityFields = [CPURequest, CPULimit, MemoryRequest, MemoryLimit, StorageLimit,
     EphemeralStorageLimit, ContainerCPURequest, ContainerCPULimit, ContainerCPUMax, ContainerMemoryRequest,
     ContainerMemoryLimit, ContainerMemoryMax, ContainerEphemeralStorageRequest, ContainerEphemeralStorageLimit]"

primrec field_name :: "quota_field \<Rightarrow> string" where
  "field_name CPURequest = ''cpu_request''"
| "field_name CPULimit = ''cpu_limit''"
| "field_name MemoryRequest = ''memory_request''"
| "field_name MemoryLimit = ''memory_limit''"
| "field_name StorageLimit = ''storage_limit''"
| "field_name EphemeralStorageLimit = ''ephemeral_storage_limit''"
| "field_name ContainerCPURequest = ''container_cpu_request''"
| "field_name ContainerCPULimit = ''container_cpu_limit''"
| "field_name ContainerCPUMax = ''container_cpu_max''"
| "field_name ContainerMemoryRequest = ''container_memory_request''"
| "field_name ContainerMemoryLimit = ''container_memory_limit''"
| "field_name ContainerMemoryMax = ''container_memory_max''"
| "field_name ContainerEphemeralStorageRequest = ''container_ephemeral_storage_request''"
| "field_name ContainerEphemeralStorageLimit = ''container_ephemeral_storage_limit''"

primrec quota_get :: "quota_field \<Rightarrow> resource_quota_config \<Rightarrow> string" where
  "quota_get CPURequest q = rq_cpu_request q"
| "quota_get CPULimit q = rq_cpu_limit q"
| "quota_get MemoryRequest q = rq_memory_request q"
| "quota_get MemoryLimit q = rq_memory_limit q"
| "quota_get StorageLimit q = rq_storage_limit q"
| "quota_get EphemeralStorageLimit q = rq_ephemeral_storage_limit q"
| "quota_get ContainerCPURequest q = rq_container_cpu_request q"
| "quota_get ContainerCPULimit q = rq_container_cpu_limit q"
| "quota_get ContainerCPUMax q = rq_container_cpu_max q"
| "quota_get ContainerMemoryRequest q = rq_container_memory_request q"
| "quota_get ContainerMemoryLimit q = rq_container_memory_limit q"
| "quota_get ContainerMemoryMax q = rq_container_memory_max q"
| "quota_get ContainerEphemeralStorageRequest q = rq_container_ephemeral_storage_request q"
| "quota_get ContainerEphemeralStorageLimit q = rq_container_ephemeral_storage_limit q"

primrec quota_put :: "quota_field \<Rightarrow> string \<Rightarrow> resource_quota_config \<Rightarrow> resource_quota_config" where
  "quota_put CPURequest v q = q\<lparr>rq_cpu_request := v\<rparr>"
| "quota_put CPULimit v q = q\<lparr>rq_cpu_limit := v\<rparr>"
| "quota_put MemoryRequest v q = q\<lparr>rq_memory_request := v\<rparr>"
| "quota_put MemoryLimit v q = q\<lparr>rq_memory_limit := v\<rparr>"
| "quota_put StorageLimit v q = q\<lparr>rq_storage_limit := v\<rparr>"
| "quota_put EphemeralStorageLimit v q = q\<lparr>rq_ephemeral_storage_limit := v\<rparr>"
| "quota_put ContainerCPURequest v q = q\<lparr>rq_container_cpu_request := v\<rparr>"
| "quota_put ContainerCPULimit v q = q\<lparr>rq_container_cpu_limit := v\<rparr>"
| "quota_put ContainerCPUMax v q = q\<lparr>rq_container_cpu_max := v\<rparr>"
| "quota_put ContainerMemoryRequest v q = q\<lparr>rq_container_memory_request := v\<rparr>"
| "quota_put ContainerMemoryLimit v q = q\<lparr>rq_container_memory_limit := v\<rparr>"
| "quota_put ContainerMemoryMax v q = q\<lparr>rq_container_memory_max := v\<rparr>"
| "quota_put ContainerEphemeralStorageRequest v q = q\<lparr>rq_container_ephemeral_storage_request := v\<rparr>"
| "quota_put ContainerEphemeralStorageLimit v q = q\<lparr>rq_container_ephemeral_storage_limit := v\<rparr>"

primrec override_get :: "quota_field \<Rightarrow> instance_quota_override \<Rightarrow> string" where
  "override_get CPURequest r = qo_cpu_request r"
| "override_get CPULimit r = qo_cpu_limit r"
| "override_get MemoryRequest r = qo_memory_request r"
| "override_get MemoryLimit r = qo_memory_limit r"
| "override_get StorageLimit r = qo_storage_limit r"
| "override_get EphemeralStorageLimit r = qo_ephemeral_storage_limit r"
| "override_get ContainerCPURequest r = qo_container_cpu_request r"
| "override_get ContainerCPULimit r = qo_container_cpu_limit r"
| "override_get ContainerCPUMax r = qo_container_cpu_max r"
| "override_get ContainerMemoryRequest r = qo_container_memory_request r"
| "override_get ContainerMemoryLimit r = qo_container_memory_limit r"
| "override_get ContainerMemoryMax r = qo_container_memory_max r"
| "override_get ContainerEphemeralStorageRequest r = qo_container_ephemeral_storage_request r"
| "override_get ContainerEphemeralStorageLimit r = qo_container_ephemeral_storage_limit r"

definition quotaOrderRules :: "(quota_field \<times> quota_field) list" where
  "quotaOrderRules = [(CPURequest, CPULimit),
     (MemoryRequest, MemoryLimit),
     (ContainerCPURequest, ContainerCPULimit),
     (ContainerCPULimit, ContainerCPUMax),
     (ContainerCPURequest, ContainerCPUMax),
     (ContainerMemoryRequest, ContainerMemoryLimit),
     (ContainerMemoryLimit, ContainerMemoryMax),
     (ContainerMemoryRequest, ContainerMemoryMax),
     (ContainerEphemeralStorageRequest, ContainerEphemeralStorageLimit),
     (ContainerCPURequest, CPURequest),
     (ContainerCPURequest, CPULimit),
     (ContainerCPULimit, CPULimit),
     (ContainerMemoryRequest, MemoryRequest),
     (ContainerMemoryRequest, MemoryLimit),
     (ContainerMemoryLimit, MemoryLimit),
     (ContainerEphemeralStorageRequest, EphemeralStorageLimit),
     (ContainerEphemeralStorageLimit, EphemeralStorageLimit)]"

definition zero_quota :: resource_quota_config where
  "zero_quota = \<lparr>rq_created_at = zero_time, rq_updated_at = zero_time, rq_id = [], rq_cluster_id = [],
     rq_cpu_request = [], rq_cpu_limit = [], rq_memory_request = [], rq_memory_limit = [], rq_storage_limit = [], rq_ephemeral_storage_limit = [], rq_container_cpu_request = [],
     rq_container_cpu_limit = [], rq_container_cpu_max = [], rq_container_memory_request = [], rq_container_memory_limit = [], rq_container_memory_max = [], rq_container_ephemeral_storage_request = [], rq_container_ephemeral_storage_limit = [], rq_pod_limit = 0\<rparr>"

definition zero_override :: instance_quota_override where
  "zero_override = \<lparr>qo_created_at = zero_time, qo_updated_at = zero_time, qo_id = [], qo_stack_instance_id = [],
     qo_cpu_request = [], qo_cpu_limit = [], qo_memory_request = [], qo_memory_limit = [], qo_storage_limit = [], qo_ephemeral_storage_limit = [], qo_container_cpu_request = [],
     qo_container_cpu_limit = [], qo_container_cpu_max = [], qo_container_memory_request = [], qo_container_memory_limit = [], qo_container_memory_max = [], qo_container_ephemeral_storage_request = [], qo_container_ephemeral_storage_limit = [], qo_pod_limit = None\<rparr>"

section \<open>Merge\<close>

definition IsEmpty :: "resource_quota_config \<Rightarrow> bool" where
  "IsEmpty q \<longleftrightarrow> rq_pod_limit q = 0 \<and> list_all (\<lambda>f. quota_get f q = []) quotaQuantityFields"

definition base_quota :: "resource_quota_config option \<Rightarrow> resource_quota_config" where
  "base_quota cluster = (case cluster of None \<Rightarrow> zero_quota | Some c \<Rightarrow> c)"

definition merge_fields :: "instance_quota_override \<Rightarrow> quota_field list \<Rightarrow> resource_quota_config \<Rightarrow> resource_quota_config" where
  "merge_fields ov fs merged =
     foldl (\<lambda>q f. if override_get f ov \<noteq> [] then quota_put f (override_get f ov) q else q) merged fs"

definition MergeQuotaOverride :: "resource_quota_config option \<Rightarrow> instance_quota_override option \<Rightarrow> resource_quota_config" where
  "MergeQuotaOverride cluster override =
     (case override of
        None \<Rightarrow> base_quota cluster
      | Some ov \<Rightarrow>
          (let merged = merge_fields ov quotaQuantityFields (base_quota cluster)
           in case qo_pod_limit ov of None \<Rightarrow> merged | Some n \<Rightarrow> merged\<lparr>rq_pod_limit := n\<rparr>))"

text \<open>Where a value comes from: the API names and the names of the messages.\<close>

definition quota_source :: "resource_quota_config \<Rightarrow> instance_quota_override option \<Rightarrow> quota_field \<Rightarrow> string" where
  "quota_source c override f =
     (if (case override of None \<Rightarrow> False | Some ov \<Rightarrow> override_get f ov \<noteq> []) then ''override''
      else if quota_get f c \<noteq> [] then ''cluster'' else ''none'')"

definition pod_source :: "resource_quota_config \<Rightarrow> instance_quota_override option \<Rightarrow> string" where
  "pod_source c override =
     (if (case override of None \<Rightarrow> False | Some ov \<Rightarrow> qo_pod_limit ov \<noteq> None) then ''override''
      else if rq_pod_limit c \<noteq> 0 then ''cluster'' else ''none'')"

definition QuotaSources :: "resource_quota_config option \<Rightarrow> instance_quota_override option \<Rightarrow> (string \<times> string) list" where
  "QuotaSources cluster override =
     map (\<lambda>f. (field_name f, quota_source (base_quota cluster) override f)) quotaQuantityFields
     @ [(''pod_limit'', pod_source (base_quota cluster) override)]"

section \<open>Validation\<close>

abbreviation quotaSourceCluster :: string where "quotaSourceCluster \<equiv> ''cluster quota''"
abbreviation quotaSourceOverride :: string where "quotaSourceOverride \<equiv> ''instance override''"

record effective_quota_field =
  ef_qty :: int
  ef_value :: string
  ef_source :: string

datatype quota_error =
    InvalidQuantity quota_field string string
  | NegativeQuantity quota_field string string
  | Exceeds quota_field effective_quota_field quota_field effective_quota_field
  | NegativePodLimit int string

definition effective_value :: "resource_quota_config \<Rightarrow> instance_quota_override option \<Rightarrow> quota_field \<Rightarrow> (string \<times> string) option" where
  "effective_value c override f =
     (case override of
        Some ov \<Rightarrow>
          if override_get f ov \<noteq> [] then Some (override_get f ov, quotaSourceOverride)
          else if quota_get f c \<noteq> [] then Some (quota_get f c, quotaSourceCluster) else None
      | None \<Rightarrow> if quota_get f c \<noteq> [] then Some (quota_get f c, quotaSourceCluster) else None)"

fun effective_fields ::
  "(string \<Rightarrow> int option) \<Rightarrow> resource_quota_config \<Rightarrow> instance_quota_override option \<Rightarrow> quota_field list
   \<Rightarrow> (quota_field \<rightharpoonup> effective_quota_field) \<Rightarrow> quota_error + (quota_field \<rightharpoonup> effective_quota_field)" where
  "effective_fields parse c override [] effective = Inr effective"
| "effective_fields parse c override (f # fs) effective =
     (case effective_value c override f of
        None \<Rightarrow> effective_fields parse c override fs effective
      | Some (v, src) \<Rightarrow>
          (case parse v of
             None \<Rightarrow> Inl (InvalidQuantity f v src)
           | Some n \<Rightarrow>
               if n < 0 then Inl (NegativeQuantity f v src)
               else effective_fields parse c override fs
                      (effective(f \<mapsto> \<lparr>ef_qty = n, ef_value = v, ef_source = src\<rparr>))))"

fun check_rules :: "(quota_field \<rightharpoonup> effective_quota_field) \<Rightarrow> (quota_field \<times> quota_field) list \<Rightarrow> quota_error option" where
  "check_rules effective [] = None"
| "check_rules effective ((a, b) # rules) =
     (case (effective a, effective b) of
        (Some low, Some high) \<Rightarrow>
          if ef_qty low > ef_qty high then Some (Exceeds a low b high) else check_rules effective rules
      | _ \<Rightarrow> check_rules effective rules)"

definition effective_pods :: "resource_quota_config \<Rightarrow> instance_quota_override option \<Rightarrow> int \<times> string" where
  "effective_pods c override =
     (case override of
        None \<Rightarrow> (rq_pod_limit c, quotaSourceCluster)
      | Some ov \<Rightarrow> (case qo_pod_limit ov of None \<Rightarrow> (rq_pod_limit c, quotaSourceCluster) | Some n \<Rightarrow> (n, quotaSourceOverride)))"

definition ValidateEffectiveQuota ::
  "(string \<Rightarrow> int option) \<Rightarrow> resource_quota_config option \<Rightarrow> instance_quota_override option \<Rightarrow> quota_error option" where
  "ValidateEffectiveQuota parse cluster override =
     (let c = base_quota cluster
      in case effective_fields parse c override quotaQuantityFields Map.empty of
           Inl e \<Rightarrow> Some e
         | Inr effective \<Rightarrow>
             (case check_rules effective quotaOrderRules of
                Some e \<Rightarrow> Some e
              | None \<Rightarrow>
                  (let p = effective_pods c override
                   in if fst p < 0 then Some (NegativePodLimit (fst p) (snd p)) else None)))"

section \<open>The cap for owners\<close>

datatype cap_error =
    CapInvalidQuantity quota_field string
  | AboveCluster quota_field string string
  | PodsUnlimited int
  | PodsAboveCluster int int

definition field_above ::
  "(string \<Rightarrow> int option) \<Rightarrow> resource_quota_config \<Rightarrow> instance_quota_override \<Rightarrow> instance_quota_override \<Rightarrow> quota_field \<Rightarrow> cap_error option" where
  "field_above parse c ov existing f =
     (if override_get f ov = [] \<or> quota_get f c = [] then None
      else case parse (quota_get f c) of
             None \<Rightarrow> None
           | Some cap \<Rightarrow>
               (case parse (override_get f ov) of
                  None \<Rightarrow> Some (CapInvalidQuantity f (override_get f ov))
                | Some qty \<Rightarrow>
                    if qty \<le> cap then None
                    else if override_get f existing \<noteq> [] \<and> parse (override_get f existing) = Some qty then None
                    else Some (AboveCluster f (override_get f ov) (quota_get f c))))"

fun first_error :: "('a \<Rightarrow> 'e option) \<Rightarrow> 'a list \<Rightarrow> 'e option" where
  "first_error g [] = None"
| "first_error g (x # xs) = (case g x of None \<Rightarrow> first_error g xs | Some e \<Rightarrow> Some e)"

definition pods_above :: "resource_quota_config \<Rightarrow> instance_quota_override \<Rightarrow> instance_quota_override \<Rightarrow> cap_error option" where
  "pods_above c ov existing =
     (case qo_pod_limit ov of
        None \<Rightarrow> None
      | Some pods \<Rightarrow>
          if rq_pod_limit c > 0
          then if qo_pod_limit existing = Some pods then None
               else if pods = 0 then Some (PodsUnlimited (rq_pod_limit c))
               else if pods > rq_pod_limit c then Some (PodsAboveCluster pods (rq_pod_limit c)) else None
          else None)"

definition CheckOverrideWithinClusterQuota ::
  "(string \<Rightarrow> int option) \<Rightarrow> resource_quota_config option \<Rightarrow> instance_quota_override option \<Rightarrow> instance_quota_override option
   \<Rightarrow> cap_error option" where
  "CheckOverrideWithinClusterQuota parse cluster override existing =
     (case (cluster, override) of
        (Some c, Some ov) \<Rightarrow>
          (let ex = (case existing of None \<Rightarrow> zero_override | Some e \<Rightarrow> e)
           in case first_error (field_above parse c ov ex) quotaQuantityFields of
                Some e \<Rightarrow> Some e
              | None \<Rightarrow> pods_above c ov ex)
      | _ \<Rightarrow> None)"

section \<open>Lemmas\<close>

text \<open>
  A family of fields of a structure that are independent of each other: what is read after a write.
  Writing a selection of them one after the other changes exactly the selected ones.
\<close>

locale field_family =
  fixes get :: "'f \<Rightarrow> 's \<Rightarrow> 'v" and put :: "'f \<Rightarrow> 'v \<Rightarrow> 's \<Rightarrow> 's"
  assumes get_put: "get f (put g v s) = (if f = g then v else get f s)"
begin

lemma get_write_all:
  "get f (foldl (\<lambda>s g. if P g then put g (h g) s else s) s gs) = (if f \<in> set gs \<and> P f then h f else get f s)"
  by (induction gs arbitrary: s) (auto simp: get_put)

end

interpretation quota: field_family quota_get quota_put
proof
  show "quota_get f (quota_put g v q) = (if f = g then v else quota_get f q)" for f g v q
    by (cases f; cases g; simp)
qed

lemma all_quota_fields [simp]: "f \<in> set quotaQuantityFields"
  by (cases f) (simp_all add: quotaQuantityFields_def)

lemma distinct_quota_fields: "distinct quotaQuantityFields"
  by (simp add: quotaQuantityFields_def)

lemma quota_get_pods [simp]: "quota_get f (q\<lparr>rq_pod_limit := n\<rparr>) = quota_get f q"
  by (cases f) simp_all

lemma merge_get:
  "quota_get f (MergeQuotaOverride cluster override) =
     (case effective_value (base_quota cluster) override f of None \<Rightarrow> [] | Some (v, src) \<Rightarrow> v)"
  by (auto simp: MergeQuotaOverride_def merge_fields_def quota.get_write_all effective_value_def Let_def split: option.splits)

lemma quota_put_pods [simp]: "rq_pod_limit (quota_put f v q) = rq_pod_limit q"
  by (cases f) simp_all

lemma merge_fields_pods [simp]: "rq_pod_limit (merge_fields ov fs q) = rq_pod_limit q"
  unfolding merge_fields_def by (induction fs arbitrary: q) simp_all

lemma merge_pods: "rq_pod_limit (MergeQuotaOverride cluster override) = fst (effective_pods (base_quota cluster) override)"
  by (simp add: MergeQuotaOverride_def effective_pods_def Let_def split: option.splits)

lemma effective_value_Some: "effective_value c ov f = Some (v, src) \<Longrightarrow> v \<noteq> []"
  by (auto simp: effective_value_def split: option.splits if_splits)

text \<open>A quota that Kubernetes accepts: well-formed quantities that are not negative, in order.\<close>

definition set_quantity :: "(string \<Rightarrow> int option) \<Rightarrow> resource_quota_config \<Rightarrow> quota_field \<Rightarrow> int option" where
  "set_quantity parse q f = (if quota_get f q = [] then None else parse (quota_get f q))"

definition quota_valid :: "(string \<Rightarrow> int option) \<Rightarrow> resource_quota_config \<Rightarrow> bool" where
  "quota_valid parse q \<longleftrightarrow>
     (\<forall>f. quota_get f q \<noteq> [] \<longrightarrow> (\<exists>n\<ge>0. parse (quota_get f q) = Some n))
     \<and> (\<forall>(a, b)\<in>set quotaOrderRules. \<forall>x y. set_quantity parse q a = Some x \<longrightarrow> set_quantity parse q b = Some y \<longrightarrow> x \<le> y)
     \<and> 0 \<le> rq_pod_limit q"

definition field_ok :: "(string \<Rightarrow> int option) \<Rightarrow> resource_quota_config \<Rightarrow> instance_quota_override option \<Rightarrow> quota_field \<Rightarrow> bool" where
  "field_ok parse c ov f \<longleftrightarrow>
     (case effective_value c ov f of None \<Rightarrow> True | Some (v, src) \<Rightarrow> (case parse v of None \<Rightarrow> False | Some n \<Rightarrow> 0 \<le> n))"

lemma effective_fields_result:
  assumes "distinct fs"
  shows "case effective_fields parse c ov fs m of
      Inl e \<Rightarrow> \<exists>f\<in>set fs. \<not> field_ok parse c ov f
    | Inr eff \<Rightarrow> (\<forall>f\<in>set fs. field_ok parse c ov f) \<and>
        (\<forall>f. map_option ef_qty (eff f) =
           (if f \<in> set fs \<and> effective_value c ov f \<noteq> None
            then parse (fst (the (effective_value c ov f))) else map_option ef_qty (m f)))"
  using assms
proof (induction fs arbitrary: m)
  case (Cons f fs)
  show ?case
  proof (cases "effective_value c ov f")
    case None
    with Cons show ?thesis by (fastforce simp: field_ok_def split: sum.splits)
  next
    case (Some p)
    obtain v src where p: "p = (v, src)" by force
    show ?thesis
    proof (cases "parse v")
      case None
      with Some p show ?thesis by (simp add: field_ok_def)
    next
      case (Some n)
      note n = this
      show ?thesis
      proof (cases "n < 0")
        case True
        with n \<open>effective_value c ov f = Some p\<close> p show ?thesis by (simp add: field_ok_def)
      next
        case False
        define m' where "m' = m(f \<mapsto> \<lparr>ef_qty = n, ef_value = v, ef_source = src\<rparr>)"
        have m': "map_option ef_qty (m' g) = (if g = f then Some n else map_option ef_qty (m g))" for g
          by (simp add: m'_def)
        have step: "effective_fields parse c ov (f # fs) m = effective_fields parse c ov fs m'"
          using n False \<open>effective_value c ov f = Some p\<close> p by (simp add: m'_def)
        have "field_ok parse c ov f" using n False \<open>effective_value c ov f = Some p\<close> p by (simp add: field_ok_def)
        with Cons.IH [of m'] Cons.prems n \<open>effective_value c ov f = Some p\<close> p show ?thesis
          unfolding step by (cases "effective_fields parse c ov fs m'") (auto simp: m')
      qed
    qed
  qed
qed simp

lemma check_rules_None:
  "check_rules eff rules = None \<longleftrightarrow>
     (\<forall>(a, b)\<in>set rules. \<forall>x y. map_option ef_qty (eff a) = Some x \<longrightarrow> map_option ef_qty (eff b) = Some y \<longrightarrow> x \<le> y)"
  by (induction eff rules rule: check_rules.induct) (auto split: option.splits)

lemma set_quantity_merge:
  "set_quantity parse (MergeQuotaOverride cluster ov) f =
     (case effective_value (base_quota cluster) ov f of None \<Rightarrow> None | Some (v, src) \<Rightarrow> parse v)"
  by (auto simp: set_quantity_def merge_get split: option.splits dest: effective_value_Some)

lemma field_ok_merge:
  "field_ok parse (base_quota cluster) ov f \<longleftrightarrow>
     (quota_get f (MergeQuotaOverride cluster ov) \<noteq> [] \<longrightarrow>
        (\<exists>n\<ge>0. parse (quota_get f (MergeQuotaOverride cluster ov)) = Some n))"
  by (auto simp: field_ok_def merge_get split: option.splits dest: effective_value_Some)

section \<open>Properties\<close>

text \<open>C24. The validation before a deploy decides exactly whether the quota that will be applied is
  valid: it passes if and only if the merge of the cluster quota and the override has well-formed,
  non-negative quantities in the required order and a pod limit that is not negative, although it
  reads the two inputs and never the merge.\<close>

theorem validate_decides_merged_quota:
  "ValidateEffectiveQuota parse cluster override = None \<longleftrightarrow> quota_valid parse (MergeQuotaOverride cluster override)"
proof (cases "effective_fields parse (base_quota cluster) override quotaQuantityFields Map.empty")
  case (Inl e)
  with effective_fields_result [OF distinct_quota_fields, of parse "base_quota cluster" override Map.empty]
  obtain f where "\<not> field_ok parse (base_quota cluster) override f" by auto
  then have "\<not> quota_valid parse (MergeQuotaOverride cluster override)"
    unfolding field_ok_merge quota_valid_def by blast
  with Inl show ?thesis by (simp add: ValidateEffectiveQuota_def Let_def)
next
  case (Inr eff)
  with effective_fields_result [OF distinct_quota_fields, of parse "base_quota cluster" override Map.empty]
  have ok: "\<And>f. field_ok parse (base_quota cluster) override f"
    and qty: "\<And>f. map_option ef_qty (eff f) = set_quantity parse (MergeQuotaOverride cluster override) f"
    by (auto simp: set_quantity_merge split: option.splits)
  have "ValidateEffectiveQuota parse cluster override = None \<longleftrightarrow>
      check_rules eff quotaOrderRules = None \<and> 0 \<le> rq_pod_limit (MergeQuotaOverride cluster override)"
    using Inr by (auto simp: ValidateEffectiveQuota_def merge_pods Let_def split: option.splits)
  then show ?thesis
    using ok unfolding quota_valid_def field_ok_merge check_rules_None qty by blast
qed

lemma first_error_None: "first_error g xs = None \<longleftrightarrow> (\<forall>x\<in>set xs. g x = None)"
  by (induction xs) (auto split: option.splits)

text \<open>An owner cannot raise a quota: when an override passes the cap, every quantity of the merged
  quota that the cluster quota limits is at most the cluster's value or the value of the stored
  override (a grant of an administrator that is kept), and the pod limit is not lifted.\<close>

theorem override_capped:
  assumes "CheckOverrideWithinClusterQuota parse (Some c) (Some ov) existing = None"
    and "q = MergeQuotaOverride (Some c) (Some ov)"
    and "set_quantity parse c f = Some cap" and "set_quantity parse q f = Some n"
    and "0 < rq_pod_limit c"
  shows "(n \<le> cap \<or> (\<exists>e. existing = Some e \<and> parse (override_get f e) = Some n))
    \<and> (rq_pod_limit q \<noteq> 0 \<and> rq_pod_limit q \<le> rq_pod_limit c
       \<or> (\<exists>e. existing = Some e \<and> qo_pod_limit e = Some (rq_pod_limit q)))"
proof -
  let ?ex = "case existing of None \<Rightarrow> zero_override | Some e \<Rightarrow> e"
  have zero: "override_get g zero_override = []" "qo_pod_limit zero_override = None" for g
    by (cases g; simp add: zero_override_def)+
  have f: "field_above parse c ov ?ex f = None" and p: "pods_above c ov ?ex = None"
    using assms(1) by (auto simp: CheckOverrideWithinClusterQuota_def Let_def first_error_None split: option.splits)
  have get: "quota_get f q = (if override_get f ov \<noteq> [] then override_get f ov else quota_get f c)"
    by (auto simp: assms(2) merge_get effective_value_def base_quota_def)
  have "n \<le> cap \<or> (\<exists>e. existing = Some e \<and> parse (override_get f e) = Some n)"
  proof (cases "override_get f ov = []")
    case True
    with get assms(3,4) show ?thesis by (simp add: set_quantity_def split: if_splits)
  next
    case False
    with get assms(3,4) f show ?thesis
      by (cases existing) (auto simp: set_quantity_def field_above_def zero split: if_splits)
  qed
  moreover have "rq_pod_limit q = (case qo_pod_limit ov of None \<Rightarrow> rq_pod_limit c | Some k \<Rightarrow> k)"
    by (simp add: assms(2) merge_pods effective_pods_def base_quota_def split: option.splits)
  ultimately show ?thesis
    using p assms(5) by (cases existing) (auto simp: pods_above_def zero split: option.splits if_splits)
qed

definition example_quantity :: "string \<Rightarrow> int option" where
  "example_quantity s = (if s = ''1'' then Some 1 else if s = ''2'' then Some 2 else None)"

theorem override_capped_witness:
  "CheckOverrideWithinClusterQuota example_quantity (Some (zero_quota\<lparr>rq_cpu_limit := ''2'', rq_pod_limit := 5\<rparr>))
     (Some (zero_override\<lparr>qo_cpu_limit := ''1''\<rparr>)) None = None
   \<and> rq_pod_limit (MergeQuotaOverride (Some (zero_quota\<lparr>rq_cpu_limit := ''2'', rq_pod_limit := 5\<rparr>))
         (Some (zero_override\<lparr>qo_cpu_limit := ''1''\<rparr>))) \<le> 5"
proof -
  let ?c = "zero_quota\<lparr>rq_cpu_limit := ''2'', rq_pod_limit := 5\<rparr>" and ?o = "zero_override\<lparr>qo_cpu_limit := ''1''\<rparr>"
  have check: "CheckOverrideWithinClusterQuota example_quantity (Some ?c) (Some ?o) None = None"
    by (simp add: CheckOverrideWithinClusterQuota_def quotaQuantityFields_def field_above_def pods_above_def example_quantity_def
        zero_quota_def zero_override_def)
  have q: "set_quantity example_quantity ?c CPULimit = Some 2"
      "set_quantity example_quantity (MergeQuotaOverride (Some ?c) (Some ?o)) CPULimit = Some 1"
    unfolding set_quantity_merge by (simp_all add: effective_value_def base_quota_def example_quantity_def set_quantity_def)
  have "0 < rq_pod_limit ?c" by simp
  from override_capped [OF check refl q this] check show ?thesis by simp
qed

end
