(* ===== verification/HookProgress.thy ===== *)
theory HookProgress
  imports LiveOutput
begin

text \<open>
  The progress lines of a hook (\<open>internal/deployer/hook_progress.go\<close>): a buffer that keeps the last
  bytes of what a hook reported, for the output of the deployment log.
\<close>

section \<open>Model\<close>

record hook_progress =
  hp_buf :: string
  hp_max :: nat
  hp_dropped :: nat

definition newHookProgress :: "nat \<Rightarrow> hook_progress" where
  "newHookProgress maxLen = \<lparr>hp_buf = [], hp_max = maxLen, hp_dropped = 0\<rparr>"

text \<open>\<open>utf8.RuneStart\<close>: not a continuation byte.\<close>

definition RuneStart :: "char \<Rightarrow> bool" where
  "RuneStart c \<longleftrightarrow> (of_char c :: nat) div 64 \<noteq> 2"

definition tailCut :: "string \<Rightarrow> nat \<Rightarrow> nat" where
  "tailCut s maxLen =
     (let cut = length s - maxLen
      in if cut = 0 then 0
         else if s ! (cut - 1) = newline then cut
         else case IndexByte newline (drop cut s) of
                Some i \<Rightarrow> if cut + i + 1 < length s then cut + i + 1
                          else cut + length (takeWhile (\<lambda>c. \<not> RuneStart c) (drop cut s))
              | None \<Rightarrow> cut + length (takeWhile (\<lambda>c. \<not> RuneStart c) (drop cut s)))"

definition hp_add :: "hook_progress \<Rightarrow> string \<Rightarrow> hook_progress" where
  "hp_add p line =
     (let s = hp_buf p @ line @ [newline]
      in if length s \<le> 2 * hp_max p then p\<lparr>hp_buf := s\<rparr>
         else (let cut = tailCut s (hp_max p)
               in p\<lparr>hp_dropped := hp_dropped p + cut, hp_buf := drop cut s\<rparr>))"

definition hp_String :: "hook_progress \<Rightarrow> string" where
  "hp_String p =
     (let cut = tailCut (hp_buf p) (hp_max p); dropped = hp_dropped p + cut
      in if dropped = 0 then hp_buf p
         else ''[hook output truncated: first '' @ digits dropped @ '' bytes not kept]'' @ [newline] @ drop cut (hp_buf p))"

section \<open>Lemmas\<close>

text \<open>The text of all lines, and a place in it where no line or character is cut in half.\<close>

definition whole_text :: "string list \<Rightarrow> string" where
  "whole_text lines = concat (map (\<lambda>l. l @ [newline]) lines)"

definition clean_cut :: "string \<Rightarrow> nat \<Rightarrow> bool" where
  "clean_cut s k \<longleftrightarrow> k = 0 \<or> s ! (k - 1) = newline \<or> RuneStart (s ! k)"

lemma tailCut_bounds: "length s - tailCut s n \<le> n \<and> tailCut s n \<le> length s"
proof -
  have "length (takeWhile (\<lambda>c. \<not> RuneStart c) (drop (length s - n) s)) \<le> length s - (length s - n)"
    using length_takeWhile_le [of "\<lambda>c. \<not> RuneStart c" "drop (length s - n) s"] by simp
  then show ?thesis by (auto simp: tailCut_def Let_def split: option.splits)
qed

lemma tailCut_clean:
  assumes "s = [] \<or> last s = newline"
  shows "clean_cut s (tailCut s n)"
proof -
  let ?c = "length s - n"
  let ?k = "?c + length (takeWhile (\<lambda>c. \<not> RuneStart c) (drop ?c s))"
  have rune: "clean_cut s ?k" if "0 < ?c"
  proof (cases "?k < length s")
    case True
    then have "RuneStart (drop ?c s ! length (takeWhile (\<lambda>c. \<not> RuneStart c) (drop ?c s)))"
      using nth_length_takeWhile [of "\<lambda>c. \<not> RuneStart c" "drop ?c s"] by simp
    with True show ?thesis by (simp add: clean_cut_def)
  next
    case False
    then have "?k = length s" using length_takeWhile_le [of "\<lambda>c. \<not> RuneStart c" "drop ?c s"] by simp
    moreover have "s \<noteq> []" using that by auto
    ultimately show ?thesis using assms by (simp add: clean_cut_def last_conv_nth)
  qed
  show ?thesis
  proof (cases "?c = 0 \<or> s ! (?c - 1) = newline")
    case True
    then show ?thesis by (auto simp: tailCut_def clean_cut_def Let_def)
  next
    case False
    show ?thesis
    proof (cases "IndexByte newline (drop ?c s)")
      case None
      with False rune show ?thesis by (simp add: tailCut_def Let_def)
    next
      case (Some i)
      from IndexByte_Some [OF this] have "s ! (?c + i) = newline" by simp
      with Some False rune show ?thesis by (auto simp: tailCut_def clean_cut_def Let_def)
    qed
  qed
qed

text \<open>The buffer is the end of the text; the rest was counted.\<close>

definition progress_of :: "string list \<Rightarrow> nat \<Rightarrow> hook_progress \<Rightarrow> bool" where
  "progress_of lines n p \<longleftrightarrow>
     hp_max p = n \<and> hp_dropped p \<le> length (whole_text lines) \<and> hp_buf p = drop (hp_dropped p) (whole_text lines)
     \<and> clean_cut (whole_text lines) (hp_dropped p) \<and> length (hp_buf p) \<le> 2 * n"

lemma whole_text_simps [simp]:
  "whole_text [] = []" "whole_text (ls @ [l]) = whole_text ls @ l @ [newline]"
  by (simp_all add: whole_text_def)

lemma clean_cut_append:
  assumes "clean_cut s k" "k \<le> length s" "s = [] \<or> last s = newline"
  shows "clean_cut (s @ t) k"
proof (cases "k < length s")
  case True
  with assms show ?thesis by (auto simp: clean_cut_def nth_append)
next
  case False
  with assms show ?thesis by (cases s rule: rev_cases) (auto simp: clean_cut_def nth_append)
qed

lemma clean_cut_drop:
  assumes "clean_cut s k" "clean_cut (drop k s) c" "k \<le> length s" "c \<le> length s - k"
  shows "clean_cut s (k + c)"
  using assms by (cases "c = 0") (auto simp: clean_cut_def)

lemma whole_text_last: "whole_text ls = [] \<or> last (whole_text ls) = newline"
  by (cases ls rule: rev_cases) simp_all

lemma hp_add_progress:
  assumes "progress_of lines n p"
  shows "progress_of (lines @ [l]) n (hp_add p l)"
proof -
  let ?T = "whole_text lines" and ?s = "hp_buf p @ l @ [newline]"
  have p: "hp_max p = n" "hp_dropped p \<le> length ?T" "hp_buf p = drop (hp_dropped p) ?T" "clean_cut ?T (hp_dropped p)"
    using assms by (simp_all add: progress_of_def)
  have s: "?s = drop (hp_dropped p) (whole_text (lines @ [l]))" using p by simp
  have clean: "clean_cut (whole_text (lines @ [l])) (hp_dropped p)"
    using clean_cut_append [OF p(4,2) whole_text_last] by simp
  have len: "hp_dropped p \<le> length (whole_text (lines @ [l]))" using p(2) by simp
  show ?thesis
  proof (cases "length ?s \<le> 2 * n")
    case True
    with p s clean len show ?thesis by (simp add: progress_of_def hp_add_def Let_def)
  next
    case False
    let ?c = "tailCut ?s n"
    have b: "length ?s - ?c \<le> n" "?c \<le> length ?s" using tailCut_bounds [of ?s n] by simp_all
    have k: "clean_cut (drop (hp_dropped p) (whole_text (lines @ [l]))) ?c"
      using tailCut_clean [of ?s n] unfolding s [symmetric] by simp
    have c: "?c \<le> length (whole_text (lines @ [l])) - hp_dropped p" using b(2) p(2,3) by simp
    have "clean_cut (whole_text (lines @ [l])) (hp_dropped p + ?c)"
      by (rule clean_cut_drop [OF clean k len c])
    moreover have "drop c ?s = drop (hp_dropped p + c) (whole_text (lines @ [l]))" for c
      by (simp only: s drop_drop add.commute)
    moreover have "hp_add p l = p\<lparr>hp_dropped := hp_dropped p + ?c, hp_buf := drop ?c ?s\<rparr>"
      using False p(1) by (simp add: hp_add_def Let_def)
    moreover have "length ?s = length (whole_text (lines @ [l])) - hp_dropped p" by (simp only: s length_drop)
    ultimately show ?thesis using p(1) b c len by (simp add: progress_of_def del: whole_text_simps)
  qed
qed

lemma progress_foldl: "progress_of lines n (foldl hp_add (newHookProgress n) lines)"
proof (induction lines rule: rev_induct)
  case Nil
  then show ?case by (simp add: progress_of_def newHookProgress_def clean_cut_def)
next
  case (snoc l lines)
  then show ?case by (simp add: hp_add_progress)
qed

lemma progress_tail:
  fixes lines :: "string list" and n :: nat
  defines "p \<equiv> foldl hp_add (newHookProgress n) lines"
  defines "k \<equiv> hp_dropped p + tailCut (hp_buf p) n"
  shows "hp_String p =
      (if k = 0 then whole_text lines
       else ''[hook output truncated: first '' @ digits k @ '' bytes not kept]'' @ [newline] @ drop k (whole_text lines))
    \<and> length (drop k (whole_text lines)) \<le> n \<and> clean_cut (whole_text lines) k \<and> length (hp_buf p) \<le> 2 * n"
proof -
  have inv: "progress_of lines n p" unfolding p_def by (rule progress_foldl)
  let ?T = "whole_text lines"
  have p: "hp_max p = n" "hp_dropped p \<le> length ?T" "hp_buf p = drop (hp_dropped p) ?T" "clean_cut ?T (hp_dropped p)"
      "length (hp_buf p) \<le> 2 * n"
    using inv unfolding progress_of_def by blast+
  have b: "length (hp_buf p) - tailCut (hp_buf p) n \<le> n" "tailCut (hp_buf p) n \<le> length (hp_buf p)"
    using tailCut_bounds [of "hp_buf p" n] by simp_all
  have l: "hp_buf p = [] \<or> last (hp_buf p) = newline"
    using whole_text_last [of lines] p(3) by (cases "hp_dropped p < length ?T") (auto simp: last_drop)
  have "clean_cut (drop (hp_dropped p) ?T) (tailCut (hp_buf p) n)"
    using tailCut_clean [OF l, of n] p(3) by simp
  with clean_cut_drop [OF p(4) this p(2)] b(2) p(2,3) have "clean_cut ?T k" by (simp add: k_def)
  moreover have dr: "drop (tailCut (hp_buf p) n) (hp_buf p) = drop k ?T"
    unfolding k_def by (simp only: p(3) drop_drop add.commute)
  moreover have "length (drop k ?T) \<le> n" using b p(3) by (simp add: k_def)
  moreover have "hp_buf p = ?T" if "k = 0" using that p(3) by (simp add: k_def)
  moreover have "hp_String p = (if k = 0 then hp_buf p
      else ''[hook output truncated: first '' @ digits k @ '' bytes not kept]'' @ [newline] @ drop (tailCut (hp_buf p) n) (hp_buf p))"
    by (simp add: hp_String_def k_def p(1) Let_def)
  ultimately show ?thesis using p(5) by (simp only: dr split: if_split) blast
qed

section \<open>Property\<close>

text \<open>Whatever lines a hook reports, the text kept for the log is the whole report or a header with
  the exact number of missing bytes and the rest of the report, of at most the allowed length, that
  starts at a line start or at a character start; and the buffer never holds more than twice that
  length.\<close>

theorem hook_progress_keeps_tail:
  "let p = foldl hp_add (newHookProgress n) lines; k = hp_dropped p + tailCut (hp_buf p) n
   in hp_String p =
        (if k = 0 then whole_text lines
         else ''[hook output truncated: first '' @ digits k @ '' bytes not kept]'' @ [newline] @ drop k (whole_text lines))
      \<and> length (drop k (whole_text lines)) \<le> n \<and> clean_cut (whole_text lines) k \<and> length (hp_buf p) \<le> 2 * n"
  unfolding Let_def by (rule progress_tail)

end
