(* ===== verification/DeployPhases.thy ===== *)
theory DeployPhases
  imports Execute HookProgress
begin

text \<open>
  The phases of a deploy that wait for something outside: the pre-deploy hook and its ownership
  watch (\<open>internal/deployer/hook_watch.go\<close>), the readiness wait (\<open>awaitReadiness\<close> in
  \<open>manager.go\<close>), the primary URL (\<open>site_url.go\<close>) and the blocking post-deploy hooks
  (\<open>post_deploy_blocking.go\<close>). What a subscriber or the cluster answers, and the ticks of a watch
  that fall into a phase, are parameters.
\<close>

section \<open>The ownership watch\<close>

definition hookPhaseOwned :: "string \<Rightarrow> string \<Rightarrow> string list \<Rightarrow> io \<Rightarrow> world \<Rightarrow> (bool \<times> string) \<times> world" where
  "hookPhaseOwned instanceID logID okStatuses io w =
     (let r = find_instance io ''hook_watch'' instanceID w
      in case fst r of
           Inl _ \<Rightarrow> ((True, []), snd r)
         | Inr inst \<Rightarrow>
             if si_status inst \<notin> set okStatuses then ((False, si_status inst), snd r)
             else (let n = newerOperation io instanceID logID (snd r)
                   in ((\<not> fst n, si_status inst), snd n)))"

text \<open>The watch: the ticks until its context ends; the first tick that finds the instance lost ends it.\<close>

fun watchOwnership :: "(io \<Rightarrow> world \<Rightarrow> (bool \<times> string) \<times> world) \<Rightarrow> io list \<Rightarrow> world \<Rightarrow> string option \<times> world" where
  "watchOwnership owned [] w = (None, w)"
| "watchOwnership owned (t # ticks) w =
     (let r = owned t w
      in if fst (fst r) then watchOwnership owned ticks (snd r) else (Some (snd (fst r)), snd r))"

fun broadcast_lines :: "manager \<Rightarrow> string \<Rightarrow> string \<Rightarrow> string list \<Rightarrow> world \<Rightarrow> world" where
  "broadcast_lines m instanceID logID [] w = w"
| "broadcast_lines m instanceID logID (l # ls) w = broadcast_lines m instanceID logID ls (broadcastLog m instanceID logID l w)"

record pre_hook =
  ph_ticks :: "io list"
  ph_lines :: "string list"
  ph_error :: "goerr option"

record pre_hook_result =
  pr_err :: "goerr option"
  pr_lost :: "string option"

definition firePreHook ::
  "manager \<Rightarrow> io \<Rightarrow> string \<Rightarrow> stack_instance \<Rightarrow> deployment_log \<Rightarrow> (string \<times> string) list \<Rightarrow> pre_hook \<Rightarrow> world
   \<Rightarrow> pre_hook_result \<times> world" where
  "firePreHook m io event inst l meta h w =
     (if \<not> m_hooks m then (\<lparr>pr_err = None, pr_lost = None\<rparr>, w)
      else (let w1 = fireDeployHook m io event inst (dl_id l) (dl_started_at l) meta w;
                w2 = broadcast_lines m (si_id inst) (dl_id l) (ph_lines h) w1;
                r = watchOwnership (hookPhaseOwned (si_id inst) (dl_id l) [StackStatusDeploying]) (ph_ticks h) w2
            in (\<lparr>pr_err = ph_error h, pr_lost = fst r\<rparr>, snd r)))"

text \<open>The progress lines kept for the log output; without hooks no line is reported.\<close>

abbreviation maxHookProgressLen :: nat where "maxHookProgressLen \<equiv> 16 * 1024"

definition hook_output :: "manager \<Rightarrow> pre_hook \<Rightarrow> string" where
  "hook_output m h =
     (if m_hooks m then hp_String (foldl hp_add (newHookProgress maxHookProgressLen) (ph_lines h)) else [])"

definition ownsAfterPreHook :: "io \<Rightarrow> string \<Rightarrow> string \<Rightarrow> world \<Rightarrow> (bool \<times> string) \<times> world" where
  "ownsAfterPreHook io instanceID logID = ownsInstance io instanceID logID [StackStatusDeploying]"

section \<open>Readiness\<close>

abbreviation StatusHealthy :: string where "StatusHealthy \<equiv> ''healthy''"

record namespace_status =
  ns_status :: string
  ns_ingresses :: "(string \<times> string) list"

datatype readiness_error =
    ReadinessInterrupted
  | ReadinessTaken string bool
  | ReadinessUnread repo_error
  | ReadinessTimeout

definition taken_cause :: "string \<Rightarrow> bool \<Rightarrow> string" where
  "taken_cause status statusChanged =
     (if statusChanged then ''instance status changed to '' @ status else ''another operation started'')"

definition taken_by :: "string \<Rightarrow> bool \<Rightarrow> string" where
  "taken_by status statusChanged =
     (if statusChanged then ''another operation changed the instance (status '' @ status @ '')''
      else ''another operation started'')"

text \<open>
  One turn of the readiness loop: a tick with the status that the cluster returned (none for a failed
  read), the end of the time, or a shutdown with the last status read.
\<close>

datatype poll = PollTick io "namespace_status option" | PollTimeout | PollShutdown "namespace_status option"

definition readinessAfterShutdown ::
  "manager \<Rightarrow> string \<Rightarrow> string \<Rightarrow> namespace_status option \<Rightarrow> namespace_status option \<Rightarrow> world
   \<Rightarrow> (namespace_status option \<times> readiness_error option) \<times> world" where
  "readinessAfterShutdown m instanceID logID st lastStatus w =
     (case st of
        None \<Rightarrow> ((lastStatus, Some ReadinessInterrupted), w)
      | Some s \<Rightarrow>
          if ns_status s = StatusHealthy
          then ((Some s, None), broadcastLog m instanceID logID ''All pods healthy'' w)
          else ((Some s, Some ReadinessInterrupted), w))"

fun await_loop ::
  "manager \<Rightarrow> string \<Rightarrow> string \<Rightarrow> poll list \<Rightarrow> namespace_status option \<Rightarrow> world
   \<Rightarrow> ((namespace_status option \<times> readiness_error option) \<times> world) option" where
  "await_loop m instanceID logID [] lastStatus w = None"
| "await_loop m instanceID logID (PollTimeout # ps) lastStatus w =
     Some ((lastStatus, Some ReadinessTimeout),
       broadcastLog m instanceID logID (''WARNING: readiness timeout after '' @ Duration_String (m_stabilize_timeout m)) w)"
| "await_loop m instanceID logID (PollShutdown st # ps) lastStatus w =
     Some (readinessAfterShutdown m instanceID logID st lastStatus w)"
| "await_loop m instanceID logID (PollTick io st # ps) lastStatus w =
     (let own = hookPhaseOwned instanceID logID [StackStatusStabilizing] io w
      in if \<not> fst (fst own)
         then (let current = snd (fst own); changed = (current \<noteq> StackStatusStabilizing)
               in Some ((lastStatus, Some (ReadinessTaken current changed)),
                    broadcastLog m instanceID logID (''Stabilization aborted: '' @ taken_cause current changed) (snd own)))
         else case st of
                None \<Rightarrow> await_loop m instanceID logID ps lastStatus (snd own)
              | Some s \<Rightarrow>
                  if ns_status s = StatusHealthy
                  then Some ((Some s, None), broadcastLog m instanceID logID ''All pods healthy'' (snd own))
                  else await_loop m instanceID logID ps (Some s) (snd own))"

text \<open>\<open>early\<close>: the server shut down before the wait, with the status read then.\<close>

definition awaitReadiness ::
  "manager \<Rightarrow> io \<Rightarrow> string \<Rightarrow> string \<Rightarrow> namespace_status option option \<Rightarrow> poll list \<Rightarrow> world
   \<Rightarrow> ((namespace_status option \<times> readiness_error option) \<times> world) option" where
  "awaitReadiness m io instanceID logID early polls w =
     (case early of
        Some st \<Rightarrow> Some (readinessAfterShutdown m instanceID logID st None w)
      | None \<Rightarrow>
          (let k = markStabilizing io instanceID logID w
           in case fst k of
                StabilizeUnread e \<Rightarrow>
                  Some ((None, Some (ReadinessUnread e)), snd k)
              | InstanceTaken status changed \<Rightarrow>
                  Some ((None, Some (ReadinessTaken status changed)),
                    broadcastLog m instanceID logID (''Stabilization aborted: '' @ taken_cause status changed) (snd k))
              | StabilizeOk \<Rightarrow>
                  await_loop m instanceID logID polls None
                    (broadcastLog m instanceID logID ''Helm charts installed, waiting for pods to become ready...''
                      (broadcastStatus m instanceID StackStatusStabilizing logID (snd k)))))"

definition primaryURL :: "namespace_status option \<Rightarrow> string" where
  "primaryURL st =
     (case st of
        None \<Rightarrow> []
      | Some s \<Rightarrow> (case ns_ingresses s of [] \<Rightarrow> [] | (host, url) # _ \<Rightarrow> if host = [] then [] else url))"

definition siteURLFor :: "manager \<Rightarrow> bool \<Rightarrow> string \<Rightarrow> namespace_status option \<Rightarrow> bool \<Rightarrow> namespace_status option \<Rightarrow> string" where
  "siteURLFor m k8s namespace lastStatus readinessRan read =
     (if \<not> m_notifier m \<or> \<not> k8s \<or> namespace = [] then []
      else if readinessRan then primaryURL lastStatus
      else primaryURL read)"

text \<open>The text of the error that the caller of the wait reports as a warning.\<close>

definition readiness_text :: "manager \<Rightarrow> readiness_error \<Rightarrow> string" where
  "readiness_text m e =
     (case e of
        ReadinessInterrupted \<Rightarrow> sentinel_text ErrDeployInterrupted
      | ReadinessTaken status changed \<Rightarrow> ''stabilization aborted: '' @ taken_cause status changed
      | ReadinessUnread err \<Rightarrow> ''find instance for stabilize: '' @ repo_text err
      | ReadinessTimeout \<Rightarrow> ''readiness timeout after '' @ Duration_String (m_stabilize_timeout m))"

section \<open>Blocking post-deploy hooks\<close>

text \<open>
  What the dispatcher says of the blocking subscribers of an instance: whether one applies, the sum
  of their timeouts, the ticks of the watch during the calls, the names of the subscribers that
  started and their lines (in order), the failures that are ignored and the failure that is not.
  \<open>bh_shut_before\<close> and \<open>bh_shut_after\<close>: the server shut down before or during the calls.
\<close>

record blocking_hooks =
  bh_applies :: bool
  bh_timeout :: duration
  bh_shut_before :: bool
  bh_shut_after :: bool
  bh_ticks :: "io list"
  bh_lines :: "string list"
  bh_ignored :: "(string \<times> goerr) list"
  bh_error :: "goerr option"

record blocking_result =
  br_output :: string
  br_err :: "goerr option"
  br_ignored :: "(string \<times> goerr) list"
  br_cancelled :: "goerr option"

definition no_result :: blocking_result where
  "no_result = \<lparr>br_output = [], br_err = None, br_ignored = [], br_cancelled = None\<rparr>"

definition blockingNotStarted :: "manager \<Rightarrow> string \<Rightarrow> string \<Rightarrow> sentinel \<Rightarrow> world \<Rightarrow> blocking_result \<times> world" where
  "blockingNotStarted m instanceID logID e w =
     (let line = ''ERROR: '' @ sentinel_text e
      in (no_result\<lparr>br_err := Some (ESentinel e), br_output := line @ [newline]\<rparr>, broadcastLog m instanceID logID line w))"

text \<open>\<open>markBlockingPhase\<close> writes the row that was read at the start of the phase, whole.\<close>

definition markBlockingPhase :: "manager \<Rightarrow> io \<Rightarrow> duration \<Rightarrow> stack_instance \<Rightarrow> string \<Rightarrow> world \<Rightarrow> world" where
  "markBlockingPhase m io timeout inst logID w =
     (let inst' = inst\<lparr>si_status := StackStatusStabilizing,
                       si_post_deploy_hook_until := Some (io_now io + timeout + blockingPhaseMargin)\<rparr>;
          r = db_write io ''mark_blocking'' (on_instances (inst_Update (io_fault io ''mark_blocking'') (io_now io) inst')) w
      in case fst r of
           Inl _ \<Rightarrow> snd r
         | Inr _ \<Rightarrow> broadcastStatus m (si_id inst) StackStatusStabilizing logID (snd r))"

definition blockingPhaseOwned :: "string \<Rightarrow> string \<Rightarrow> io \<Rightarrow> world \<Rightarrow> (bool \<times> string) \<times> world" where
  "blockingPhaseOwned instanceID logID = hookPhaseOwned instanceID logID [StackStatusStabilizing, StackStatusDeploying]"

definition blocking_output :: "string list \<Rightarrow> string" where
  "blocking_output ls = hp_String (foldl hp_add (newHookProgress maxHookProgressLen) ls)"

text \<open>The end of the phase, after the calls: the lines of the result and the result itself.\<close>

definition blocking_outcome :: "blocking_hooks \<Rightarrow> string option \<Rightarrow> string list \<times> blocking_result" where
  "blocking_outcome h lost =
     (case lost of
        Some current \<Rightarrow>
          (let e = EWrap [] (ESentinel ErrDeployCancelled)
                     ('': another operation changed the instance (status '' @ current @ '') during the post-deploy hook'')
           in ([''WARNING: '' @ err_text e], no_result\<lparr>br_cancelled := Some e\<rparr>))
      | None \<Rightarrow>
          if bh_shut_after h
          then ([''ERROR: '' @ sentinel_text ErrDeployInterrupted], no_result\<lparr>br_err := Some (ESentinel ErrDeployInterrupted)\<rparr>)
          else (let warnings = map (\<lambda>f. ''WARNING: '' @ UserMessage (EHookFailed (fst f) (snd f)) EventPostDeploy ''deployment'') (bh_ignored h)
                in case bh_error h of
                     Some e \<Rightarrow>
                       (warnings @ [''ERROR: '' @ UserMessage e EventPostDeploy ''deployment''],
                        no_result\<lparr>br_ignored := bh_ignored h, br_err := Some (EWrap ''post-deploy hook: '' e [])\<rparr>)
                   | None \<Rightarrow> (warnings @ [''Post-deploy steps finished''], no_result\<lparr>br_ignored := bh_ignored h\<rparr>)))"

definition runBlockingPostDeploy ::
  "manager \<Rightarrow> io \<Rightarrow> io \<Rightarrow> blocking_hooks \<Rightarrow> string \<Rightarrow> deployment_log \<Rightarrow> (string \<times> string) list \<Rightarrow> world \<Rightarrow> blocking_result \<times> world" where
  "runBlockingPostDeploy m io io_after h instanceID l meta w =
     (if \<not> m_hooks m \<or> m_hook_blocking m EventPostDeploy = None then (no_result, w)
      else (let own = instanceOwnership io instanceID (dl_id l) [StackStatusDeploying, StackStatusStabilizing] w
            in case fst own of
                 (ownershipLost, _) \<Rightarrow> (no_result, snd own)
               | (ownershipOwned, Some inst) \<Rightarrow>
                   if \<not> bh_applies h then (no_result, snd own)
                   else if bh_shut_before h then blockingNotStarted m instanceID (dl_id l) ErrDeployInterrupted (snd own)
                   else
                     (let w1 = markBlockingPhase m io (bh_timeout h) inst (dl_id l) (snd own);
                          w2 = fireDeployHook m io EventPostDeploy (inst\<lparr>si_status := StackStatusStabilizing\<rparr>) (dl_id l) (dl_started_at l)
                                 (meta @ [(''blocking'', ''true'')]) w1;
                          w3 = broadcast_lines m instanceID (dl_id l) (bh_lines h) w2;
                          watch = watchOwnership (blockingPhaseOwned instanceID (dl_id l)) (bh_ticks h) w3;
                          check = (case fst watch of
                                     Some st \<Rightarrow> (Some st, snd watch)
                                   | None \<Rightarrow> (let r = blockingPhaseOwned instanceID (dl_id l) io_after (snd watch)
                                              in (if fst (fst r) then None else Some (snd (fst r)), snd r)));
                          res = blocking_outcome h (fst check)
                      in ((snd res)\<lparr>br_output := blocking_output (bh_lines h @ fst res)\<rparr>,
                          broadcast_lines m instanceID (dl_id l) (fst res) (snd check)))
               | _ \<Rightarrow> blockingNotStarted m instanceID (dl_id l)
                        (if bh_shut_before h then ErrDeployInterrupted else ErrPostDeployNotStarted) (snd own)))"

section \<open>Lemmas\<close>

lemma broadcast_lines_db [simp]: "w_db (broadcast_lines m i lg ls w) = w_db w"
  by (induction ls arbitrary: w) simp_all

lemma readinessAfterShutdown_db [simp]: "w_db (snd (readinessAfterShutdown m i lg st l w)) = w_db w"
  by (simp add: readinessAfterShutdown_def split: option.splits)

text \<open>A watch finds an instance lost only at a tick that found it lost.\<close>

lemma watchOwnership_owned:
  assumes "\<And>t w. t \<in> set ticks \<Longrightarrow> fst (fst (owned t w))"
  shows "fst (watchOwnership owned ticks w) = None"
  using assms by (induction ticks arbitrary: w) (simp_all add: Let_def)

section \<open>Properties\<close>

lemma await_loop_ends:
  assumes "list_ex (\<lambda>p. case p of PollTick io st \<Rightarrow> False | _ \<Rightarrow> True) polls"
  shows "\<exists>res w'. await_loop m i lg polls lst w = Some (res, w')"
  using assms
proof (induction polls arbitrary: lst w)
  case (Cons p ps)
  show ?case
  proof (cases p)
    case (PollTick io st)
    with Cons show ?thesis by (auto simp: Let_def split: option.splits)
  qed (auto simp: readinessAfterShutdown_def split: option.splits)
qed simp



text \<open>The mark of the blocking post-deploy phase can undo a stop: it writes back the row that was read
  before, so when another operation stored its own status in between, the instance shows
  stabilizing again, while the mark of the readiness wait leaves such a status alone.\<close>

theorem blocking_mark_overwrites_status:
  assumes "si_id inst = i" and "row_of si_id i (d_instances (io_env io ''mark_blocking'' (w_db w))) = Some other"
    and "io_fault io ''mark_blocking'' = None"
    and "si_status other \<notin> {StackStatusDeploying, StackStatusStabilizing}"
  shows "map_option si_status (row_of si_id i (d_instances (w_db (markBlockingPhase m io timeout inst lg w)))) = Some StackStatusStabilizing
    \<and> row_of si_id i (snd (inst_MarkStatus flt flt2 now i StackStatusStabilizing [StackStatusDeploying, StackStatusStabilizing]
          (d_instances (io_env io ''mark_blocking'' (w_db w))))) = Some other"
proof -
  have "w_db (markBlockingPhase m io timeout inst lg w) =
      snd (on_instances (inst_Update None (io_now io) (inst\<lparr>si_status := StackStatusStabilizing,
        si_post_deploy_hook_until := Some (io_now io + timeout + blockingPhaseMargin)\<rparr>)) (io_env io ''mark_blocking'' (w_db w)))"
    using assms(3) by (auto simp: markBlockingPhase_def Let_def split: sum.splits)
  then have "map_option si_status (row_of si_id i (d_instances (w_db (markBlockingPhase m io timeout inst lg w)))) = Some StackStatusStabilizing"
    using assms(1,2) by (simp add: inst_Update_row)
  moreover have "row_of si_id i (snd (inst_MarkStatus flt flt2 now i StackStatusStabilizing [StackStatusDeploying, StackStatusStabilizing]
      (d_instances (io_env io ''mark_blocking'' (w_db w))))) = Some other"
    using assms(2,4) by (auto simp: inst_MarkStatus_def row_of_sql_update Let_def split: option.splits)
  ultimately show ?thesis by blast
qed

theorem blocking_mark_overwrites_status_witness:
  "map_option si_status (row_of si_id ''i1'' (d_instances (w_db (markBlockingPhase example_manager (quiet 5) Minute
      (example_instance\<lparr>si_status := StackStatusDeploying\<rparr>) ''a'' (example_world [example_instance\<lparr>si_status := StackStatusStopping\<rparr>] [] [])))))
    = Some StackStatusStabilizing"
  by (rule blocking_mark_overwrites_status [where other = "example_instance\<lparr>si_status := StackStatusStopping\<rparr>", THEN conjunct1]) simp_all

end
