(* ===== verification/DeployRun.thy ===== *)
theory DeployRun
  imports DeployPhases ChartSource Quota
begin

text \<open>
  The goroutine of a deploy (\<open>executeDeploy\<close> in \<open>internal/deployer/manager.go\<close>) with the quota of
  the namespace (\<open>effectiveNamespaceQuota\<close>, \<open>applyNamespaceQuotas\<close>) and the recovery of a release
  that is stuck in a pending state (\<open>pending_release.go\<close>). The Kubernetes API, Helm and the file
  system answer through parameters.
\<close>

section \<open>Quota\<close>

text \<open>
  The quota repositories (a failed read counts as no row), the quantity parser, and the error text of
  a quota, which names the field, the value and the source.
\<close>

record quota_repos =
  qr_cluster :: "string \<Rightarrow> resource_quota_config option"
  qr_override :: "string \<Rightarrow> instance_quota_override option"
  qr_parse :: "string \<Rightarrow> int option"

definition quota_error_text :: "quota_error \<Rightarrow> string" where
  "quota_error_text e =
     (case e of
        InvalidQuantity f v src \<Rightarrow> field_name f @ '' '' @ go_quote v @ '' ('' @ src @ ''): invalid quantity''
      | NegativeQuantity f v src \<Rightarrow> field_name f @ '' '' @ v @ '' ('' @ src @ ''): must not be negative''
      | Exceeds a low b high \<Rightarrow>
          field_name a @ '' '' @ ef_value low @ '' ('' @ ef_source low @ '') exceeds the effective ''
            @ field_name b @ '' '' @ ef_value high @ '' ('' @ ef_source high @ '')''
      | NegativePodLimit n src \<Rightarrow> ''pod_limit -'' @ digits (nat (- n)) @ '' ('' @ src @ ''): must not be negative'')"

definition effectiveNamespaceQuota ::
  "manager \<Rightarrow> io \<Rightarrow> quota_repos \<Rightarrow> string \<Rightarrow> world \<Rightarrow> (goerr + string \<times> resource_quota_config \<times> bool) \<times> world" where
  "effectiveNamespaceQuota m io q instanceID w =
     (let r = find_instance io ''quota_instance'' instanceID w
      in (case fst r of
            Inl e \<Rightarrow> Inl (EWrap ''finding instance: '' (EText (repo_text e)) [])
          | Inr inst \<Rightarrow>
              (case (case m_registry m of None \<Rightarrow> Inl ''cluster registry is not configured'' | Some reg \<Rightarrow> cr_resolve reg (si_cluster_id inst)) of
                 Inl e \<Rightarrow> Inl (EWrap ''resolving cluster: '' (EText e) [])
               | Inr cid \<Rightarrow>
                   (let cluster = Some (base_quota (qr_cluster q cid)); override = qr_override q instanceID
                    in case ValidateEffectiveQuota (qr_parse q) cluster override of
                         Some e \<Rightarrow> Inl (EWrap [] (ESentinel ErrInvalidQuota) ('': '' @ quota_error_text e))
                       | None \<Rightarrow> Inr (cid, MergeQuotaOverride cluster override, override \<noteq> None))),
          snd r))"

section \<open>Kubernetes and Helm\<close>

text \<open>
  The calls of a deploy to the cluster: each returns an error text or none. \<open>kc_client\<close>: the cluster
  has a Kubernetes client at all.
\<close>

record role_binding_spec =
  rb_cluster_role :: string
  rb_sa_name :: string
  rb_sa_namespace :: string
  rb_name :: string

record registry_config =
  rc_url :: string
  rc_secret :: string
  rc_host :: string

record cluster_calls =
  kc_client :: bool
  kc_ensure_namespace :: "string option"
  kc_copy_secret :: "string option"
  kc_registry_secret :: "string option"
  kc_account_secret :: "string option"
  kc_role_binding :: "role_binding_spec \<Rightarrow> string option"
  kc_quota :: "string \<Rightarrow> string option"
  kc_limit_range :: "string option"
  kc_quota_client :: "string + bool"

record install_request =
  ir_release :: string
  ir_chart :: string
  ir_repo :: string
  ir_version :: string
  ir_values_file :: bool
  ir_namespace :: string
  ir_skip_crds :: bool
  ir_namespace_ready :: bool

record helm_calls =
  hc_streaming :: bool
  hc_login :: "string option"
  hc_history :: "string \<Rightarrow> (string + (nat \<times> string) list)"
  hc_delete_secret :: "string \<Rightarrow> string option"
  hc_install :: "install_request \<Rightarrow> command"

text \<open>The configuration of the manager that only a deploy uses.\<close>

record deploy_config =
  dc_allowed_sources :: "string list"
  dc_tls_source_ns :: string
  dc_tls_source_secret :: string
  dc_role_bindings :: "role_binding_spec list"
  dc_registry :: "registry_config option"
  dc_quotas :: "quota_repos option"

definition applyNamespaceQuotas :: "manager \<Rightarrow> io \<Rightarrow> quota_repos \<Rightarrow> cluster_calls \<Rightarrow> string \<Rightarrow> world \<Rightarrow> goerr option \<times> world" where
  "applyNamespaceQuotas m io q k instanceID w =
     (let r = effectiveNamespaceQuota m io q instanceID w
      in (case fst r of
            Inl e \<Rightarrow> Some e
          | Inr (cid, quota, _) \<Rightarrow>
              if IsEmpty quota then None
              else (case kc_quota_client k of
                      Inl e \<Rightarrow> Some (EWrap ''getting k8s client: '' (EText e) [])
                    | Inr False \<Rightarrow> Some (EText (''k8s client is nil for cluster '' @ cid))
                    | Inr True \<Rightarrow>
                        (case kc_quota k cid of
                           Some e \<Rightarrow> Some (EWrap ''ensuring resource quota: '' (EText e) [])
                         | None \<Rightarrow>
                             (case kc_limit_range k of
                                Some e \<Rightarrow> Some (EWrap ''ensuring limit range: '' (EText e) [])
                              | None \<Rightarrow> None))),
          snd r))"

definition applyQuotasForDeploy :: "manager \<Rightarrow> io \<Rightarrow> quota_repos \<Rightarrow> cluster_calls \<Rightarrow> string \<Rightarrow> world \<Rightarrow> string \<times> world" where
  "applyQuotasForDeploy m io q k instanceID w =
     (let r = applyNamespaceQuotas m io q k instanceID w
      in (case fst r of
            None \<Rightarrow> []
          | Some e \<Rightarrow> ''WARNING: failed to apply resource quotas: '' @ err_text e @ [newline],
          snd r))"

section \<open>Pending releases\<close>

definition pendingReleaseStatuses :: "string list" where
  "pendingReleaseStatuses = [''pending-install'', ''pending-upgrade'', ''pending-rollback'']"

definition helmReleaseSecretName :: "string \<Rightarrow> nat \<Rightarrow> string" where
  "helmReleaseSecretName releaseName revision = ''sh.helm.release.v1.'' @ releaseName @ ''.v'' @ digits revision"

text \<open>\<open>hc_delete_secret\<close>: the error of the delete, if any; a secret that is not found is none.\<close>

definition recoverPendingRelease :: "helm_calls \<Rightarrow> bool \<Rightarrow> string \<Rightarrow> string \<Rightarrow> string + string" where
  "recoverPendingRelease h k8s releaseName namespace =
     (if \<not> k8s then Inr []
      else case hc_history h releaseName of
             Inl _ \<Rightarrow> Inr []
           | Inr [] \<Rightarrow> Inr []
           | Inr revisions \<Rightarrow>
               (let latest = List.last revisions; secretName = helmReleaseSecretName releaseName (fst latest)
                in if ToLower (snd latest) \<notin> set pendingReleaseStatuses then Inr []
                   else case hc_delete_secret h secretName of
                          Some e \<Rightarrow> Inl (''deleting stuck helm revision secret '' @ namespace @ ''/'' @ secretName @ '': '' @ e)
                        | None \<Rightarrow>
                            Inr (''Recovered release '' @ go_quote releaseName @ '': revision '' @ digits (fst latest)
                                 @ '' was stuck in '' @ snd latest @ ''; removed that revision so the deploy can continue.'')))"

section \<open>Before the installs\<close>

definition warning :: "string \<Rightarrow> string option \<Rightarrow> string" where
  "warning what e = (case e of None \<Rightarrow> [] | Some t \<Rightarrow> ''WARNING: '' @ what @ '': '' @ t @ [newline])"

definition tls_output :: "deploy_config \<Rightarrow> cluster_calls \<Rightarrow> bool \<Rightarrow> string" where
  "tls_output cfg k nsReady =
     (if dc_tls_source_secret cfg \<noteq> [] \<and> dc_tls_source_ns cfg \<noteq> [] \<and> nsReady
      then warning ''failed to replicate wildcard TLS secret'' (kc_copy_secret k) else [])"

definition pull_secret_output :: "deploy_config \<Rightarrow> cluster_calls \<Rightarrow> bool \<Rightarrow> string" where
  "pull_secret_output cfg k nsReady =
     (case dc_registry cfg of
        None \<Rightarrow> []
      | Some r \<Rightarrow>
          if \<not> nsReady then []
          else (case kc_registry_secret k of
                  Some e \<Rightarrow> warning ''failed to provision image pull secret'' (Some e)
                | None \<Rightarrow>
                    ''Image pull secret '' @ go_quote (rc_secret r) @ '' provisioned for registry '' @ rc_url r @ [newline]
                    @ warning ''failed to patch default SA with imagePullSecret'' (kc_account_secret k)))"

definition role_binding_output :: "cluster_calls \<Rightarrow> string \<Rightarrow> nat \<Rightarrow> role_binding_spec \<Rightarrow> string" where
  "role_binding_output k namespace i spec =
     (if rb_cluster_role spec = [] \<or> rb_sa_name spec = [] \<or> rb_sa_namespace spec = []
      then ''WARNING: skipped incomplete NamespaceRoleBindingSpec at index '' @ digits i @ '' (clusterRole='' @ go_quote (rb_cluster_role spec)
             @ '' sa='' @ go_quote (rb_sa_namespace spec) @ ''/'' @ go_quote (rb_sa_name spec) @ '')'' @ [newline]
      else case kc_role_binding k spec of
             Some e \<Rightarrow> ''WARNING: failed to apply RoleBinding '' @ go_quote (rb_cluster_role spec) @ '': '' @ e @ [newline]
           | None \<Rightarrow> ''RoleBinding for ClusterRole '' @ go_quote (rb_cluster_role spec) @ '' (SA '' @ rb_sa_namespace spec @ ''/''
                       @ rb_sa_name spec @ '') applied to '' @ namespace @ [newline])"

definition role_bindings_output :: "deploy_config \<Rightarrow> cluster_calls \<Rightarrow> bool \<Rightarrow> string \<Rightarrow> string" where
  "role_bindings_output cfg k nsReady namespace =
     (if nsReady
      then concat (map (\<lambda>(i, spec). role_binding_output k namespace i spec)
                     (zip [0 ..< length (dc_role_bindings cfg)] (dc_role_bindings cfg)))
      else [])"

definition login_output :: "deploy_config \<Rightarrow> helm_calls \<Rightarrow> string" where
  "login_output cfg h =
     (case dc_registry cfg of
        None \<Rightarrow> []
      | Some r \<Rightarrow>
          (case hc_login h of
             Some e \<Rightarrow> warning ''helm registry login failed'' (Some e)
           | None \<Rightarrow> ''Helm registry login succeeded for '' @ (if rc_host r = [] then rc_url r else rc_host r) @ [newline]))"

record prepared =
  pp_ready :: bool
  pp_quota_pending :: bool
  pp_output :: string

definition prepare_namespace ::
  "manager \<Rightarrow> io \<Rightarrow> deploy_config \<Rightarrow> cluster_calls \<Rightarrow> helm_calls \<Rightarrow> string \<Rightarrow> string \<Rightarrow> world \<Rightarrow> prepared \<times> world" where
  "prepare_namespace m io cfg k h instanceID namespace w =
     (let nsReady = (kc_client k \<and> kc_ensure_namespace k = None);
          q = (case dc_quotas cfg of
                 None \<Rightarrow> ((False, []), w)
               | Some qr \<Rightarrow>
                   if nsReady
                   then (let r = applyQuotasForDeploy m io qr k instanceID w in ((fst r \<noteq> [], fst r), snd r))
                   else ((True, []), w))
      in (\<lparr>pp_ready = nsReady, pp_quota_pending = fst (fst q),
           pp_output = snd (fst q) @ tls_output cfg k nsReady @ pull_secret_output cfg k nsReady
             @ role_bindings_output cfg k nsReady namespace @ login_output cfg h\<rparr>, snd q))"

section \<open>The installs\<close>

text \<open>
  The calls around one chart: the check before it, the ticks of the watch during it, a failed write of
  its values file and the pod events that it shows.
\<close>

record chart_step =
  cs_io :: io
  cs_ticks :: "io list"
  cs_values_error :: "string option"
  cs_pod_lines :: string

text \<open>
  The state of the loop: the output, the failed charts, what the watch saw, the status found by the
  check before a chart (empty when the deploy still owns the instance), the requests sent to Helm.
\<close>

record install_state =
  is_output :: string
  is_failed :: "string list"
  is_lost :: "string option"
  is_taken :: string
  is_requests :: "install_request list"
  is_world :: world

definition watch_installs :: "string \<Rightarrow> string \<Rightarrow> io list \<Rightarrow> install_state \<Rightarrow> install_state" where
  "watch_installs instanceID logID ticks st =
     (case is_lost st of
        Some _ \<Rightarrow> st
      | None \<Rightarrow>
          (let r = watchOwnership (\<lambda>t. installsOwned t instanceID logID) ticks (is_world st)
           in st\<lparr>is_lost := fst r, is_world := snd r\<rparr>))"

definition install_request_of :: "bool \<Rightarrow> string \<Rightarrow> chart_deploy_info \<Rightarrow> install_request" where
  "install_request_of nsReady namespace c =
     (let cc = ci_config c; ref = ChartReference (cc_repository_url cc) (cc_chart_path cc) (cc_chart_name cc)
      in \<lparr>ir_release = cc_chart_name cc, ir_chart = fst ref, ir_repo = snd ref, ir_version = cc_chart_version cc,
          ir_values_file = (ci_values c \<noteq> []), ir_namespace = namespace, ir_skip_crds = True, ir_namespace_ready = nsReady\<rparr>)"

text \<open>One chart, after the check: the source, the values file, a stuck release and the install.\<close>

definition install_chart ::
  "manager \<Rightarrow> deploy_config \<Rightarrow> cluster_calls \<Rightarrow> helm_calls \<Rightarrow> bool \<Rightarrow> string \<Rightarrow> string \<Rightarrow> string \<Rightarrow> chart_step \<Rightarrow> chart_deploy_info
   \<Rightarrow> install_state \<Rightarrow> install_state" where
  "install_chart m cfg k h nsReady instanceID logID namespace s c st =
     (let cc = ci_config c; name = cc_chart_name cc
      in case checkChartSource (dc_allowed_sources cfg) (cc_repository_url cc) (cc_chart_path cc) name of
           Some e \<Rightarrow>
             (let line = ''ERROR: chart '' @ go_quote name @ '': '' @ source_error_text e
              in st\<lparr>is_output := is_output st @ chart_header name line, is_failed := is_failed st @ [name],
                    is_world := broadcastLog m instanceID logID line (is_world st)\<rparr>)
         | None \<Rightarrow>
      (case (if ci_values c = [] then None else cs_values_error s) of
           Some e \<Rightarrow> st\<lparr>is_output := is_output st @ chart_header name (''ERROR writing values: '' @ e), is_failed := is_failed st @ [name]\<rparr>
         | None \<Rightarrow>
             (let rec = recoverPendingRelease h (kc_client k) name namespace;
                  w1 = (case rec of Inr msg \<Rightarrow> if msg = [] then is_world st else broadcastLog m instanceID logID msg (is_world st)
                        | Inl _ \<Rightarrow> is_world st);
                  out1 = is_output st @ (case rec of Inl e \<Rightarrow> ''WARNING: '' @ e @ [newline]
                           | Inr msg \<Rightarrow> if msg = [] then [] else msg @ [newline]);
                  req = install_request_of nsReady namespace c;
                  res = hc_install h req;
                  out2 = out1 @ chart_header name (fst res) @ cs_pod_lines s;
                  w2 = (if hc_streaming h then w1 else broadcastLog m instanceID logID (fst res) w1)
              in case snd res of
                   None \<Rightarrow> st\<lparr>is_output := out2, is_requests := is_requests st @ [req], is_world := w2\<rparr>
                 | Some e \<Rightarrow>
                     st\<lparr>is_output := out2 @ ''ERROR: deploying chart '' @ go_quote name @ '': '' @ err_text e @ [newline],
                        is_failed := is_failed st @ [name], is_requests := is_requests st @ [req], is_world := w2\<rparr>)))"

fun install_loop ::
  "manager \<Rightarrow> deploy_config \<Rightarrow> cluster_calls \<Rightarrow> helm_calls \<Rightarrow> bool \<Rightarrow> string \<Rightarrow> string \<Rightarrow> string \<Rightarrow> (nat \<Rightarrow> chart_step) \<Rightarrow> nat
   \<Rightarrow> chart_deploy_info list \<Rightarrow> install_state \<Rightarrow> install_state" where
  "install_loop m cfg k h nsReady instanceID logID namespace steps n [] st = st"
| "install_loop m cfg k h nsReady instanceID logID namespace steps n (c # cs) st =
     (let own = installsOwned (cs_io (steps n)) instanceID logID (is_world st)
      in if \<not> fst (fst own) then st\<lparr>is_taken := snd (fst own), is_world := snd own\<rparr>
         else install_loop m cfg k h nsReady instanceID logID namespace steps (Suc n) cs
                (watch_installs instanceID logID (cs_ticks (steps n))
                  (install_chart m cfg k h nsReady instanceID logID namespace (steps n) c (st\<lparr>is_world := snd own\<rparr>))))"

section \<open>The goroutine\<close>

text \<open>\<open>withPodEvent\<close>: the most relevant pod problem goes into the error.\<close>

definition withPodEvent :: "goerr option \<Rightarrow> string \<Rightarrow> goerr option" where
  "withPodEvent err event = (case err of None \<Rightarrow> None | Some e \<Rightarrow> if event = [] then Some e else Some (EPodEvent e event))"

definition failed_charts_error :: "string list \<Rightarrow> nat \<Rightarrow> goerr option" where
  "failed_charts_error failed charts =
     (if failed = [] then None
      else if length failed = charts then Some (EText (''all charts failed to deploy: '' @ Join failed '', ''))
      else Some (EText (''partial deploy '' @ map char_of [226 :: nat, 128, 148] @ '' failed charts: '' @ Join failed '', '')))"

text \<open>
  What the world offers a deploy: the calls of its phases (start, readiness, post-deploy hooks and the
  check after them, end), the pre-deploy hook, the temporary directory, the charts, the pod events
  (lines and most relevant problem), the readiness wait, the status read for the site URL, and the
  blocking hooks.
\<close>

record deploy_env =
  de_io :: io
  de_io_ready :: io
  de_io_block :: io
  de_io_after :: io
  de_io_final :: io
  de_hook :: pre_hook
  de_tmp_error :: "string option"
  de_steps :: "nat \<Rightarrow> chart_step"
  de_pod_lines :: string
  de_pod_event :: string
  de_early :: "namespace_status option option"
  de_polls :: "poll list"
  de_read_status :: "namespace_status option"
  de_blocking :: blocking_hooks

definition hook_metadata :: "deploy_config \<Rightarrow> (string \<times> string) list" where
  "hook_metadata cfg = (case dc_registry cfg of None \<Rightarrow> [] | Some r \<Rightarrow> [(''registry_url'', rc_url r)])"

text \<open>The quota check before the pre-deploy hook: only an invalid quota ends the deploy.\<close>

definition quota_rejection :: "manager \<Rightarrow> io \<Rightarrow> deploy_config \<Rightarrow> string \<Rightarrow> world \<Rightarrow> goerr option \<times> world" where
  "quota_rejection m io cfg instanceID w =
     (case dc_quotas cfg of
        None \<Rightarrow> (None, w)
      | Some q \<Rightarrow>
          (let r = effectiveNamespaceQuota m io q instanceID w
           in (case fst r of Inl e \<Rightarrow> if errors_Is e ErrInvalidQuota then Some e else None | Inr _ \<Rightarrow> None, snd r)))"

text \<open>The readiness wait and what its result does to the deploy: the error, the warning, the output.\<close>

record ready_result =
  rr_error :: "goerr option"
  rr_warning :: string
  rr_output :: string
  rr_last :: "namespace_status option"

definition deploy_readiness ::
  "manager \<Rightarrow> deploy_env \<Rightarrow> string \<Rightarrow> string \<Rightarrow> world \<Rightarrow> (ready_result \<times> world) option" where
  "deploy_readiness m e instanceID logID w =
     (case awaitReadiness m (de_io_ready e) instanceID logID (de_early e) (de_polls e) w of
        None \<Rightarrow> None
      | Some ((st, err), w1) \<Rightarrow> Some
          (case err of
             None \<Rightarrow> (\<lparr>rr_error = None, rr_warning = [], rr_output = [], rr_last = st\<rparr>, w1)
           | Some ReadinessInterrupted \<Rightarrow>
               (let line = ''ERROR: '' @ sentinel_text ErrDeployInterrupted
                in (\<lparr>rr_error = Some (ESentinel ErrDeployInterrupted), rr_warning = [], rr_output = line @ [newline], rr_last = st\<rparr>,
                    broadcastLog m instanceID logID line w1))
           | Some (ReadinessTaken status changed) \<Rightarrow>
               (let e = EWrap [] (ESentinel ErrDeployCancelled) ('': '' @ taken_by status changed @ '' during the readiness wait'');
                    line = ''WARNING: '' @ err_text e
                in (\<lparr>rr_error = Some e, rr_warning = [], rr_output = line @ [newline], rr_last = st\<rparr>,
                    broadcastLog m instanceID logID line w1))
           | Some err' \<Rightarrow>
               (\<lparr>rr_error = None, rr_warning = readiness_text m err', rr_output = [], rr_last = st\<rparr>, w1)))"

text \<open>From the end of the installs to the end of the deploy.\<close>

definition deploy_error_after :: "goerr option \<Rightarrow> string \<Rightarrow> goerr option" where
  "deploy_error_after err event =
     (case err of
        Some x \<Rightarrow> if errors_Is x ErrDeployInterrupted then Some x else withPodEvent (Some x) event
      | None \<Rightarrow> None)"

definition outcome_of :: "goerr option \<Rightarrow> bool \<Rightarrow> deploy_outcome" where
  "outcome_of err partial =
     (case err of None \<Rightarrow> DeploySucceeded | Some e \<Rightarrow> if partial then DeployPartial e else DeployFailed e)"

definition finish_deploy ::
  "manager \<Rightarrow> deploy_config \<Rightarrow> cluster_calls \<Rightarrow> deploy_env \<Rightarrow> bool \<Rightarrow> stack_instance \<Rightarrow> deployment_log \<Rightarrow> nat \<Rightarrow> string
   \<Rightarrow> string list \<Rightarrow> string \<Rightarrow> world \<Rightarrow> world option" where
  "finish_deploy m cfg k e quotaPending inst l charts lastDeployedValues failed out0 w0 =
     (let instanceID = si_id inst; logID = dl_id l;
          err0 = failed_charts_error failed charts;
          q = (case dc_quotas cfg of
                 Some qr \<Rightarrow> if quotaPending \<and> length failed < charts then applyQuotasForDeploy m (de_io_ready e) qr k instanceID w0 else ([], w0)
               | None \<Rightarrow> ([], w0));
          ran = (err0 = None \<and> 0 < m_stabilize_timeout m \<and> kc_client k);
          ready = (if ran then deploy_readiness m e instanceID logID (snd q)
                   else Some (\<lparr>rr_error = None, rr_warning = [], rr_output = [], rr_last = None\<rparr>, snd q))
      in case ready of
           None \<Rightarrow> None
         | Some (r, w1) \<Rightarrow>
             (let err1 = (if ran then rr_error r else err0);
                  siteURL = (if err1 = None \<or> length failed < charts
                             then siteURLFor m (kc_client k) (si_namespace inst) (rr_last r) ran (de_read_status e) else []);
                  err2 = deploy_error_after err1 (de_pod_event e);
                  warning = (if rr_warning r \<noteq> [] \<and> de_pod_event e \<noteq> []
                             then rr_warning r @ '' (pod event: '' @ de_pod_event e @ '')'' else rr_warning r);
                  out1 = out0 @ fst q @ rr_output r @ de_pod_lines e
                         @ (if warning \<noteq> [] then ''WARNING: '' @ warning @ [newline] else []);
                  partial = (failed \<noteq> [] \<and> length failed < charts);
                  b = (if err2 = None \<or> partial
                       then runBlockingPostDeploy m (de_io_block e) (de_io_after e) (de_blocking e) instanceID l (hook_metadata cfg) w1
                       else (no_result, w1));
                  out2 = out1 @ br_output (fst b)
              in Some
                   (case br_cancelled (fst b) of
                      Some c \<Rightarrow> finalizeDeploy m (de_io_final e) instanceID l out2 (DeployFailed c) lastDeployedValues warning (snd b)
                    | None \<Rightarrow>
                        finalizeDeployWith m (de_io_final e) instanceID l out2
                          (case br_err (fst b) of Some x \<Rightarrow> DeployFailed x | None \<Rightarrow> outcome_of err2 partial)
                          lastDeployedValues warning (br_ignored (fst b)) siteURL (snd b))))"

text \<open>The charts, in order, and the end of a deploy that another operation took meanwhile.\<close>

definition installs_taken :: "install_state \<Rightarrow> string option" where
  "installs_taken st = (if is_taken st \<noteq> [] then Some (is_taken st) else is_lost st)"

definition run_installs ::
  "manager \<Rightarrow> deploy_config \<Rightarrow> cluster_calls \<Rightarrow> helm_calls \<Rightarrow> deploy_env \<Rightarrow> prepared \<Rightarrow> job \<Rightarrow> string \<Rightarrow> world \<Rightarrow> install_state" where
  "run_installs m cfg k h e p job out w =
     install_loop m cfg k h (pp_ready p) (si_id (j_instance job)) (dl_id (j_log job)) (si_namespace (j_instance job)) (de_steps e) 0 (j_charts job)
       \<lparr>is_output = out, is_failed = [], is_lost = None, is_taken = [], is_requests = [], is_world = w\<rparr>"

definition installs_cancelled :: "string \<Rightarrow> goerr" where
  "installs_cancelled status =
     EWrap [] (ESentinel ErrDeployCancelled) ('': another operation changed the instance (status '' @ status @ '') during the chart installs'')"

definition deploy_charts ::
  "manager \<Rightarrow> deploy_config \<Rightarrow> cluster_calls \<Rightarrow> helm_calls \<Rightarrow> deploy_env \<Rightarrow> job \<Rightarrow> string \<Rightarrow> string \<Rightarrow> world \<Rightarrow> world option" where
  "deploy_charts m cfg k h e job lastDeployedValues hookOutput w =
     (let inst = j_instance job; instanceID = si_id inst; l = j_log job; namespace = si_namespace inst
      in case de_tmp_error e of
           Some t \<Rightarrow> Some (finalizeDeploy m (de_io_final e) instanceID l hookOutput
                      (DeployFailed (EWrap ''creating temp directory: '' (EText t) [])) lastDeployedValues [] w)
         | None \<Rightarrow>
             (let p = prepare_namespace m (de_io e) cfg k h instanceID namespace w;
                  st = run_installs m cfg k h e (fst p) job (hookOutput @ pp_output (fst p)) (snd p)
              in case installs_taken st of
                   Some status \<Rightarrow>
                     (let err = installs_cancelled status; line = ''WARNING: '' @ err_text err
                      in Some (finalizeDeploy m (de_io_final e) instanceID l (is_output st @ de_pod_lines e @ line @ [newline])
                            (DeployFailed err) lastDeployedValues [] (broadcastLog m instanceID (dl_id l) line (is_world st))))
                 | None \<Rightarrow>
                     finish_deploy m cfg k e (pp_quota_pending (fst p)) inst l (length (j_charts job)) lastDeployedValues
                       (is_failed st) (is_output st) (is_world st)))"

definition executeDeploy ::
  "manager \<Rightarrow> deploy_config \<Rightarrow> cluster_calls \<Rightarrow> helm_calls \<Rightarrow> deploy_env \<Rightarrow> job \<Rightarrow> string \<Rightarrow> world \<Rightarrow> world option" where
  "executeDeploy m cfg k h e job lastDeployedValues w =
     (let inst = j_instance job; instanceID = si_id inst; l = j_log job; io = de_io e;
          q = quota_rejection m io cfg instanceID w
      in map_option (drop_trigger (dl_id l))
          (case fst q of
             Some err \<Rightarrow>
               (let line = ''ERROR: '' @ err_text err
                in Some (finalizeDeploy m (de_io_final e) instanceID l (line @ [newline]) (DeployFailed err) lastDeployedValues []
                     (broadcastLog m instanceID (dl_id l) line (snd q))))
           | None \<Rightarrow>
               (let hook = firePreHook m io EventPreDeploy inst l (hook_metadata cfg) (de_hook e) (snd q);
                    hookOutput = hook_output m (de_hook e)
                in case pr_lost (fst hook) of
                     Some status \<Rightarrow>
                       Some (cancelDeployAfterPreHook m (de_io_final e) instanceID l hookOutput status lastDeployedValues (snd hook))
                   | None \<Rightarrow>
                       (case pr_err (fst hook) of
                          Some herr \<Rightarrow>
                            (let reason = ''ERROR: '' @ UserMessage herr EventPreDeploy ''deployment''
                             in Some (finalizeDeploy m (de_io_final e) instanceID l (hookOutput @ reason @ [newline])
                                  (DeployFailed (EWrap ''pre-deploy hook: '' herr [])) lastDeployedValues []
                                  (broadcastLog m instanceID (dl_id l) reason (snd hook))))
                        | None \<Rightarrow>
                            (let own = ownsAfterPreHook io instanceID (dl_id l) (snd hook)
                             in if \<not> fst (fst own)
                                then Some (cancelDeployAfterPreHook m (de_io_final e) instanceID l hookOutput (snd (fst own))
                                       lastDeployedValues (snd own))
                                else
                                  (let x = extendDeadline m io l (Some (j_helm_timeout job)) (length (j_charts job)) (snd own)
                                   in if \<not> fst (fst x) then Some (snd x)
                                      else deploy_charts m cfg k h e (job\<lparr>j_log := snd (fst x)\<rparr>) lastDeployedValues hookOutput (snd x)))))))"

section \<open>Lemmas\<close>

lemma installs_owned_quiet:
  assumes "\<not> newer_in i lg None (w_db w)"
  shows "fst (fst (installsOwned (quiet t) i lg w))" "w_db (snd (installsOwned (quiet t) i lg w)) = w_db w"
  using assms by (simp_all add: installsOwned_def Let_def)

lemma watch_installs_quiet:
  assumes "\<not> newer_in i lg None (w_db w)" "list_all (\<lambda>t. \<exists>n. t = quiet n) ticks"
  shows "fst (watchOwnership (\<lambda>t. installsOwned t i lg) ticks w) = None
    \<and> w_db (snd (watchOwnership (\<lambda>t. installsOwned t i lg) ticks w)) = w_db w"
  using assms
proof (induction ticks arbitrary: w)
  case (Cons t ticks)
  then obtain n where t: "t = quiet n" by auto
  let ?w = "snd (installsOwned t i lg w)"
  have "fst (fst (installsOwned t i lg w))" "w_db ?w = w_db w"
    using installs_owned_quiet [OF Cons.prems(1), of n] t by simp_all
  with Cons.IH [of ?w] Cons.prems show ?case by (simp add: Let_def)
qed simp

text \<open>A chart that does not get installed: refused by the allowlist, no values file, or a Helm error.\<close>

definition chart_fails :: "deploy_config \<Rightarrow> helm_calls \<Rightarrow> bool \<Rightarrow> string \<Rightarrow> chart_step \<Rightarrow> chart_deploy_info \<Rightarrow> bool" where
  "chart_fails cfg h nsReady namespace s c \<longleftrightarrow>
     checkChartSource (dc_allowed_sources cfg) (cc_repository_url (ci_config c)) (cc_chart_path (ci_config c)) (cc_chart_name (ci_config c)) \<noteq> None
     \<or> (ci_values c \<noteq> [] \<and> cs_values_error s \<noteq> None)
     \<or> snd (hc_install h (install_request_of nsReady namespace c)) \<noteq> None"

lemma install_chart_effect:
  "w_db (is_world (install_chart m cfg k h r i lg ns s c st)) = w_db (is_world st)"
  "is_lost (install_chart m cfg k h r i lg ns s c st) = is_lost st"
  "is_taken (install_chart m cfg k h r i lg ns s c st) = is_taken st"
  "is_failed (install_chart m cfg k h r i lg ns s c st) =
     is_failed st @ (if chart_fails cfg h r ns s c then [cc_chart_name (ci_config c)] else [])"
  by (auto simp: install_chart_def chart_fails_def Let_def split: option.splits sum.splits if_splits)

definition calm_step :: "chart_step \<Rightarrow> bool" where
  "calm_step s \<longleftrightarrow> (\<exists>n. cs_io s = quiet n) \<and> list_all (\<lambda>t. \<exists>n. t = quiet n) (cs_ticks s)"

fun failing_charts :: "deploy_config \<Rightarrow> helm_calls \<Rightarrow> bool \<Rightarrow> string \<Rightarrow> (nat \<Rightarrow> chart_step) \<Rightarrow> nat \<Rightarrow> chart_deploy_info list \<Rightarrow> string list" where
  "failing_charts cfg h r ns steps n [] = []"
| "failing_charts cfg h r ns steps n (c # cs) =
     (if chart_fails cfg h r ns (steps n) c then [cc_chart_name (ci_config c)] else [])
     @ failing_charts cfg h r ns steps (Suc n) cs"

lemma install_loop_owned:
  assumes "\<not> newer_in i lg None (w_db (is_world st))" and "\<And>n. calm_step (steps n)" and "is_lost st = None"
  shows "is_failed (install_loop m cfg k h r i lg ns steps n cs st) = is_failed st @ failing_charts cfg h r ns steps n cs
    \<and> is_lost (install_loop m cfg k h r i lg ns steps n cs st) = None
    \<and> is_taken (install_loop m cfg k h r i lg ns steps n cs st) = is_taken st
    \<and> w_db (is_world (install_loop m cfg k h r i lg ns steps n cs st)) = w_db (is_world st)"
  using assms(1,3)
proof (induction cs arbitrary: n st)
  case (Cons c cs)
  obtain t where t: "cs_io (steps n) = quiet t" and ticks: "list_all (\<lambda>t. \<exists>n. t = quiet n) (cs_ticks (steps n))"
    using assms(2) unfolding calm_step_def by blast
  let ?own = "installsOwned (cs_io (steps n)) i lg (is_world st)"
  let ?a = "install_chart m cfg k h r i lg ns (steps n) c (st\<lparr>is_world := snd ?own\<rparr>)"
  let ?b = "watch_installs i lg (cs_ticks (steps n)) ?a"
  have own: "fst (fst ?own)" "w_db (snd ?own) = w_db (is_world st)"
    using installs_owned_quiet [where w = "is_world st" and i = i and lg = lg] Cons.prems(1) unfolding t by auto
  have a: "w_db (is_world ?a) = w_db (is_world st)" "is_lost ?a = None" "is_taken ?a = is_taken st"
      "is_failed ?a = is_failed st @ (if chart_fails cfg h r ns (steps n) c then [cc_chart_name (ci_config c)] else [])"
    using own Cons.prems(2) by (simp_all add: install_chart_effect)
  have "\<not> newer_in i lg None (w_db (is_world ?a))" using Cons.prems(1) a(1) by simp
  from watch_installs_quiet [OF this ticks] a
  have b: "w_db (is_world ?b) = w_db (is_world st)" "is_lost ?b = None" "is_taken ?b = is_taken st" "is_failed ?b = is_failed ?a"
    by (simp_all add: watch_installs_def Let_def)
  have step: "install_loop m cfg k h r i lg ns steps n (c # cs) st = install_loop m cfg k h r i lg ns steps (Suc n) cs ?b"
    using own by (simp add: Let_def)
  have pre: "\<not> newer_in i lg None (w_db (is_world ?b))" "is_lost ?b = None" using b Cons.prems(1) by simp_all
  show ?case
    unfolding step using Cons.IH [OF pre, of "Suc n"] a b by simp
qed simp

section \<open>Properties\<close>


definition example_step :: chart_step where
  "example_step = \<lparr>cs_io = quiet 5, cs_ticks = [quiet 6], cs_values_error = None, cs_pod_lines = []\<rparr>"

definition example_config :: deploy_config where
  "example_config = \<lparr>dc_allowed_sources = [], dc_tls_source_ns = [], dc_tls_source_secret = [], dc_role_bindings = [], dc_registry = None,
     dc_quotas = None\<rparr>"

definition example_cluster :: cluster_calls where
  "example_cluster = \<lparr>kc_client = True, kc_ensure_namespace = None, kc_copy_secret = None, kc_registry_secret = None, kc_account_secret = None,
     kc_role_binding = (\<lambda>_. None), kc_quota = (\<lambda>_. None), kc_limit_range = None, kc_quota_client = Inr True\<rparr>"

text \<open>A Helm that installs every release but one.\<close>

definition example_helm :: "string \<Rightarrow> helm_calls" where
  "example_helm bad = \<lparr>hc_streaming = True, hc_login = None, hc_history = (\<lambda>_. Inr []), hc_delete_secret = (\<lambda>_. None),
     hc_install = (\<lambda>r. (''done'', if ir_release r = bad then Some (EText ''exit status 1'') else None))\<rparr>"

definition example_env :: deploy_env where
  "example_env = \<lparr>de_io = quiet 4, de_io_ready = quiet 7, de_io_block = quiet 7, de_io_after = quiet 8, de_io_final = quiet 9,
     de_hook = \<lparr>ph_ticks = [], ph_lines = [], ph_error = None\<rparr>, de_tmp_error = None, de_steps = (\<lambda>_. example_step),
     de_pod_lines = [], de_pod_event = [], de_early = None, de_polls = [], de_read_status = None,
     de_blocking = \<lparr>bh_applies = False, bh_timeout = 0, bh_shut_before = False, bh_shut_after = False, bh_ticks = [], bh_lines = [],
       bh_ignored = [], bh_error = None\<rparr>\<rparr>"


lemma length_failing: "length (failing_charts cfg h r ns steps n cs) \<le> length cs"
  by (induction cs arbitrary: n) (auto simp: le_SucI)

lemma later_deadline_message [simp]: "dl_error_message (later_deadline d l) = dl_error_message l"
  by (auto simp: later_deadline_def split: option.splits)

text \<open>The statuses that the failed charts stand for: those of the instance and of the log.\<close>

definition deploy_statuses :: "nat \<Rightarrow> nat \<Rightarrow> string \<times> string" where
  "deploy_statuses failed charts =
     (if failed = 0 then (StackStatusRunning, DeployLogSuccess)
      else if failed = charts then (StackStatusError, DeployLogError)
      else (StackStatusPartial, DeployLogPartial))"

lemma finish_without_phases:
  assumes "\<not> m_hooks m" "m_stabilize_timeout m \<le> 0" "dc_quotas cfg = None" "length failed \<le> charts"
  shows "\<exists>out err rw ign url w1. finish_deploy m cfg k e qp inst l charts v failed out0 w =
      Some (finalizeDeployWith m (de_io_final e) (si_id inst) l out err v rw ign url w1)
    \<and> w_db w1 = w_db w \<and> final_statuses err = deploy_statuses (length failed) charts"
proof -
  have b: "runBlockingPostDeploy m io io' h i lg meta w = (no_result, w)" for io io' h i lg meta w
    using assms(1) by (simp add: runBlockingPostDeploy_def)
  have p: "errors_Is (EText t) ErrDeployInterrupted = False" for t by (simp add: errors_Is_def)
  show ?thesis
    using assms(2,3,4)
    by (cases "failed = []")
      (auto simp: finish_deploy_def failed_charts_error_def deploy_error_after_def withPodEvent_def outcome_of_def b p no_result_def
        deploy_statuses_def Let_def intro!: exI)
qed

text \<open>C6. A deploy tells the truth about its charts. Without hooks, quotas and readiness wait, and while no
  other operation interferes, the goroutine ends, and the instance and the log say running and
  success exactly when every chart passed the allowlist, got its values file and was installed by
  Helm; error when none was; and partial otherwise.\<close>

theorem deploy_tells_truth:
  assumes "keyed si_id (d_instances (w_db w))" and "keyed dl_id (d_logs (w_db w))"
    and "row_of si_id (si_id (j_instance job)) (d_instances (w_db w)) = Some inst" and "si_status inst = StackStatusDeploying"
    and "log_open (dl_id (j_log job)) (d_logs (w_db w))" and "dl_error_message (j_log job) = []"
    and "\<not> newer_in (si_id (j_instance job)) (dl_id (j_log job)) None (w_db w)"
    and "\<not> m_hooks m" and "m_stabilize_timeout m \<le> 0" and "dc_quotas cfg = None"
    and "de_io e = quiet now" and "de_io_final e = quiet now'" and "de_tmp_error e = None" and "\<And>n. calm_step (de_steps e n)"
    and "failed = failing_charts cfg h (kc_client k \<and> kc_ensure_namespace k = None) (si_namespace (j_instance job)) (de_steps e) 0 (j_charts job)"
  shows "\<exists>w' s r. executeDeploy m cfg k h e job v w = Some w'
    \<and> row_of si_id (si_id (j_instance job)) (d_instances (w_db w')) = Some s
    \<and> row_of dl_id (dl_id (j_log job)) (d_logs (w_db w')) = Some r
    \<and> (si_status s, dl_status r) = deploy_statuses (length failed) (length (j_charts job))"
proof -
  let ?i = "si_id (j_instance job)" and ?l = "j_log job" and ?ns = "si_namespace (j_instance job)"
  let ?own = "ownsAfterPreHook (quiet now) ?i (dl_id ?l) w"
  have own: "fst (fst ?own)" "w_db (snd ?own) = w_db w"
    using assms(3,4,7)
    by (simp_all add: ownsAfterPreHook_def ownsInstance_def instanceOwnership_def inst_FindByID_def Let_def)
  define D where "D = now + (runBudget m (dl_action ?l) (helmTimeoutOf (Some (j_helm_timeout job))) (length (j_charts job)) + DeadlineMargin)"
  let ?x = "extendDeadline m (quiet now) ?l (Some (j_helm_timeout job)) (length (j_charts job)) (snd ?own)"
  have x: "fst ?x = (True, later_deadline D ?l)"
      "w_db (snd ?x) = (w_db w)\<lparr>d_logs := snd (log_ExtendDeadline None None (dl_id ?l) D (d_logs (w_db w)))\<rparr>"
    using extendDeadline_effect [where w = "snd ?own" and l = ?l and D = D and m = m and now = now] assms(2,5) own(2)
    unfolding D_def by simp_all
  let ?job = "job\<lparr>j_log := later_deadline D ?l\<rparr>"
  let ?p = "prepare_namespace m (quiet now) cfg k h ?i ?ns (snd ?x)"
  have p: "snd ?p = snd ?x" "pp_ready (fst ?p) = (kc_client k \<and> kc_ensure_namespace k = None)"
    using assms(10) by (simp_all add: prepare_namespace_def Let_def)
  have newer: "\<not> newer_in ?i (dl_id ?l) None (w_db (snd ?x))" using assms(7) by (simp add: x(2) newer_in_deadline)
  let ?st = "run_installs m cfg k h e (fst ?p) ?job (hook_output m (de_hook e) @ pp_output (fst ?p)) (snd ?p)"
  have st: "is_failed ?st = failed" "installs_taken ?st = None" "w_db (is_world ?st) = w_db (snd ?x)"
    using install_loop_owned [where st = "\<lparr>is_output = hook_output m (de_hook e) @ pp_output (fst ?p), is_failed = [], is_lost = None,
        is_taken = [], is_requests = [], is_world = snd ?p\<rparr>" and steps = "de_steps e" and i = ?i and lg = "dl_id ?l"] newer assms(14)
    by (simp_all add: run_installs_def installs_taken_def p assms(15))
  have run: "executeDeploy m cfg k h e job v w = map_option (drop_trigger (dl_id ?l))
      (finish_deploy m cfg k e (pp_quota_pending (fst ?p)) (j_instance job) (later_deadline D ?l) (length (j_charts job)) v failed
        (is_output ?st) (is_world ?st))"
    using own(1) x(1) st assms(8,10,11,13)
    by (simp add: executeDeploy_def quota_rejection_def firePreHook_def deploy_charts_def Let_def)
  obtain out err rw ign url w1 where fin: "finish_deploy m cfg k e (pp_quota_pending (fst ?p)) (j_instance job) (later_deadline D ?l)
        (length (j_charts job)) v failed (is_output ?st) (is_world ?st) =
      Some (finalizeDeployWith m (quiet now') ?i (later_deadline D ?l) out err v rw ign url w1)"
      "w_db w1 = w_db (is_world ?st)" "final_statuses err = deploy_statuses (length failed) (length (j_charts job))"
    using finish_without_phases [OF assms(8,9,10), of failed "length (j_charts job)" k e "pp_quota_pending (fst ?p)" "j_instance job"
        "later_deadline D ?l" v "is_output ?st" "is_world ?st"] length_failing assms(12,15) by auto
  have hyps: "keyed si_id (d_instances (w_db w1))" "keyed dl_id (d_logs (w_db w1))" "row_of si_id ?i (d_instances (w_db w1)) = Some inst"
      "si_status inst \<in> {StackStatusDeploying, StackStatusStabilizing}" "log_open (dl_id (later_deadline D ?l)) (d_logs (w_db w1))"
      "dl_error_message (later_deadline D ?l) = []" "\<not> newer_in ?i (dl_id (later_deadline D ?l)) None (w_db w1)"
    using assms(1-7) newer st(3) by (simp_all add: fin(2) x(2) keyed_log_ExtendDeadline)
  from finalizeDeploy_effect [OF hyps refl, of m now' out err v rw ign url] fin(3) show ?thesis
    unfolding run fin(1) by (auto simp: later_deadline_simps)
qed

theorem deploy_tells_truth_witness:
  "\<exists>w' s r. executeDeploy (example_manager\<lparr>m_hooks := False, m_stabilize_timeout := 0\<rparr>) example_config example_cluster (example_helm ''db'')
      example_env ((example_job example_instance (example_log ''a'' 1 DeployLogRunning))\<lparr>j_charts := [example_chart ''db'' 1, example_chart ''web'' 2]\<rparr>)
      [] (example_world [example_instance\<lparr>si_status := StackStatusDeploying\<rparr>] [example_log ''a'' 1 DeployLogRunning] []) = Some w'
    \<and> row_of si_id ''i1'' (d_instances (w_db w')) = Some s \<and> row_of dl_id ''a'' (d_logs (w_db w')) = Some r
    \<and> (si_status s, dl_status r) = (StackStatusPartial, DeployLogPartial)"
proof -
  let ?l = "example_log ''a'' 1 DeployLogRunning" and ?inst = "example_instance\<lparr>si_status := StackStatusDeploying\<rparr>"
  let ?w = "example_world [?inst] [?l] []"
  let ?m = "example_manager\<lparr>m_hooks := False, m_stabilize_timeout := 0\<rparr>"
  define job where "job = (example_job example_instance ?l)\<lparr>j_charts := [example_chart ''db'' 1, example_chart ''web'' 2]\<rparr>"
  have job: "j_instance job = example_instance" "j_log job = ?l" "j_charts job = [example_chart ''db'' 1, example_chart ''web'' 2]"
    by (simp_all add: job_def)
  have steps: "calm_step (de_steps example_env n)" for n
    by (auto simp: calm_step_def example_env_def example_step_def)
  have newer: "\<not> newer_in (si_id (j_instance job)) (dl_id (j_log job)) None (w_db ?w)"
    by (simp add: job newer_in_def log_ListLatestByActions_def query_def newest_first_def allLogActions_def latest_columns_def)
  have fails: "[''db''] = failing_charts example_config (example_helm ''db'') (kc_client example_cluster \<and> kc_ensure_namespace example_cluster = None)
      (si_namespace (j_instance job)) (de_steps example_env) 0 (j_charts job)"
    by (simp add: job chart_fails_def example_chart_def example_config_def checkChartSource_def example_helm_def install_request_of_def
        example_env_def example_step_def Let_def)
  have rows: "row_of si_id (si_id (j_instance job)) (d_instances (w_db ?w)) = Some ?inst" "log_open (dl_id (j_log job)) (d_logs (w_db ?w))"
      "dl_error_message (j_log job) = []" "keyed si_id (d_instances (w_db ?w))" "keyed dl_id (d_logs (w_db ?w))"
    by (simp_all add: job log_open_def example_log_def zero_log_def)
  have env: "dc_quotas example_config = None" "de_io example_env = quiet 4" "de_io_final example_env = quiet 9" "de_tmp_error example_env = None"
    by (simp_all add: example_config_def example_env_def)
  show ?thesis
    using deploy_tells_truth [OF rows(4,5,1) _ rows(2,3) newer _ _ env steps fails, of ?m "[]"]
    unfolding job_def [symmetric] by (simp add: job deploy_statuses_def)
qed

end
