(* ===== verification/Values.thy ===== *)
theory Values
  imports GoStrings
begin

text \<open>
  The generation of Helm values (\<open>internal/helm/values_generator.go\<close>): the layers shared, default,
  override and locked values are merged key by key, then the template variables are substituted in all
  strings. The YAML library and the template engine are parameters (parser, encoder and
  renderer); a parsed document is a tree.
\<close>

section \<open>Image tags\<close>

text \<open>
  \<open>SanitizeImageTag\<close>. \<open>strings.ToLower\<close> maps two characters outside ASCII to ASCII letters: the
  Kelvin sign (bytes E2 84 AA) and the capital I with a dot (C4 B0). All other bytes outside ASCII stay outside and
  are removed below.
\<close>

fun lower_runes :: "string \<Rightarrow> string" where
  "lower_runes (a # b # c # s) =
     (if a = char_of (226 :: nat) \<and> b = char_of (132 :: nat) \<and> c = char_of (170 :: nat) then CHR ''k'' # lower_runes s
      else if a = char_of (196 :: nat) \<and> b = char_of (176 :: nat) then CHR ''i'' # lower_runes (c # s)
      else a # lower_runes (b # c # s))"
| "lower_runes [a, b] = (if a = char_of (196 :: nat) \<and> b = char_of (176 :: nat) then ''i'' else [a, b])"
| "lower_runes s = s"

definition replace_separators :: "string \<Rightarrow> string" where
  "replace_separators s = map (\<lambda>c. if c \<in> set ''/ _'' then CHR ''-'' else c) s"

definition tag_char :: "char \<Rightarrow> bool" where
  "tag_char c \<longleftrightarrow>
     (let n = of_char c :: nat in (97 \<le> n \<and> n \<le> 122) \<or> (48 \<le> n \<and> n \<le> 57) \<or> c = CHR ''-'' \<or> c = CHR ''.'')"

abbreviation maxTagLen :: nat where "maxTagLen \<equiv> 128"

definition SanitizeImageTag :: "string \<Rightarrow> string" where
  "SanitizeImageTag branch =
     (let cleaned = filter tag_char (replace_separators (ToLower (lower_runes branch)));
          tag = take maxTagLen (dropWhile (\<lambda>c. c \<in> set ''-.'') cleaned)
      in if tag = [] then ''latest'' else tag)"

section \<open>Values\<close>

text \<open>
  A YAML value as \<open>yaml.v3\<close> decodes it: null, a string, another scalar (by its text), a sequence or a
  mapping. A mapping is the list of its entries; a decoded mapping has each key once (\<open>wf_value\<close>).
\<close>

datatype yaml = YNull | YString string | YScalar string | YSeq "yaml list" | YMap "(string \<times> yaml) list"

type_synonym layer = "(string \<times> yaml) list"

fun wf_value :: "yaml \<Rightarrow> bool" where
  "wf_value (YSeq vs) = list_all wf_value vs"
| "wf_value (YMap m) = (distinct (map fst m) \<and> list_all (\<lambda>p. wf_value (snd p)) m)"
| "wf_value _ = True"

definition put_key :: "string \<Rightarrow> yaml \<Rightarrow> layer \<Rightarrow> layer" where
  "put_key k v m = (if k \<in> fst ` set m then map (\<lambda>p. if fst p = k then (k, v) else p) m else m @ [(k, v)])"

definition delete_key :: "string \<Rightarrow> layer \<Rightarrow> layer" where
  "delete_key k m = filter (\<lambda>p. fst p \<noteq> k) m"

text \<open>\<open>deepMerge\<close>: the entries of \<open>src\<close> one after the other.\<close>

function deepMerge :: "layer \<Rightarrow> layer \<Rightarrow> layer" where
  "deepMerge dst [] = dst"
| "deepMerge dst ((k, srcVal) # src) =
     deepMerge
       (if srcVal = YNull then delete_key k dst
        else case map_of dst k of
               None \<Rightarrow> put_key k srcVal dst
             | Some dstVal \<Rightarrow>
                 (case (srcVal, dstVal) of
                    (YMap srcMap, YMap dstMap) \<Rightarrow> put_key k (YMap (deepMerge dstMap srcMap)) dst
                  | _ \<Rightarrow> put_key k srcVal dst)) src"
  by pat_completeness auto
termination
  by (relation "measure (\<lambda>(dst, src). size_list (size_prod (\<lambda>_. 0) size) src)") auto

text \<open>\<open>parseYAML\<close>: no text is an empty mapping, and so is a document that is null.\<close>

definition parseYAML :: "(string \<Rightarrow> string + layer option) \<Rightarrow> string \<Rightarrow> string + layer" where
  "parseYAML unmarshal s =
     (if TrimSpace s = [] then Inr []
      else case unmarshal (TrimSpace s) of
             Inl e \<Rightarrow> Inl e
           | Inr None \<Rightarrow> Inr []
           | Inr (Some m) \<Rightarrow> Inr m)"

record template_vars =
  tv_branch :: string
  tv_image_tag :: string
  tv_namespace :: string
  tv_instance_name :: string
  tv_stack_name :: string
  tv_owner :: string

text \<open>
  \<open>substituteValue\<close> and \<open>substituteVars\<close>: \<open>render\<close> parses and executes a template, with the registered
  functions.
\<close>

fun substituteValue :: "(string \<Rightarrow> string + string) \<Rightarrow> yaml \<Rightarrow> string + yaml"
  and substituteVars :: "(string \<Rightarrow> string + string) \<Rightarrow> layer \<Rightarrow> string + layer"
  and substituteList :: "(string \<Rightarrow> string + string) \<Rightarrow> yaml list \<Rightarrow> string + yaml list" where
  "substituteValue render (YString s) =
     (if \<not> Contains s ''{{'' then Inr (YString s)
      else case render s of Inl e \<Rightarrow> Inl e | Inr t \<Rightarrow> Inr (YString t))"
| "substituteValue render (YMap m) = (case substituteVars render m of Inl e \<Rightarrow> Inl e | Inr m' \<Rightarrow> Inr (YMap m'))"
| "substituteValue render (YSeq vs) = (case substituteList render vs of Inl e \<Rightarrow> Inl e | Inr vs' \<Rightarrow> Inr (YSeq vs'))"
| "substituteValue render v = Inr v"
| "substituteVars render [] = Inr []"
| "substituteVars render ((k, v) # m) =
     (case substituteValue render v of
        Inl e \<Rightarrow> Inl (''key '' @ go_quote k @ '': '' @ e)
      | Inr v' \<Rightarrow> (case substituteVars render m of Inl e \<Rightarrow> Inl e | Inr m' \<Rightarrow> Inr ((k, v') # m')))"
| "substituteList render [] = Inr []"
| "substituteList render (v # vs) =
     (case substituteValue render v of
        Inl e \<Rightarrow> Inl e
      | Inr v' \<Rightarrow> (case substituteList render vs of Inl e \<Rightarrow> Inl e | Inr vs' \<Rightarrow> Inr (v' # vs')))"

record generate_params =
  gp_chart_name :: string
  gp_default_values :: string
  gp_locked_values :: string
  gp_override_values :: string
  gp_shared_values :: "string list"
  gp_chart_branch :: string
  gp_template_vars :: template_vars

fun merge_shared :: "(string \<Rightarrow> string + layer option) \<Rightarrow> string list \<Rightarrow> layer \<Rightarrow> layer" where
  "merge_shared unmarshal [] merged = merged"
| "merge_shared unmarshal (sv # svs) merged =
     merge_shared unmarshal svs (case parseYAML unmarshal sv of Inl _ \<Rightarrow> merged | Inr m \<Rightarrow> deepMerge merged m)"

definition merge_layers :: "(string \<Rightarrow> string + layer option) \<Rightarrow> generate_params \<Rightarrow> string + layer" where
  "merge_layers unmarshal p =
     (case parseYAML unmarshal (gp_default_values p) of
        Inl e \<Rightarrow> Inl (''parsing default values: '' @ e)
      | Inr defaults \<Rightarrow>
     (case parseYAML unmarshal (gp_override_values p) of
        Inl e \<Rightarrow> Inl (''parsing override values: '' @ e)
      | Inr overrides \<Rightarrow>
     (case parseYAML unmarshal (gp_locked_values p) of
        Inl e \<Rightarrow> Inl (''parsing locked values: '' @ e)
      | Inr locked \<Rightarrow>
          Inr (deepMerge (deepMerge (deepMerge (merge_shared unmarshal (gp_shared_values p) []) defaults) overrides) locked))))"

definition chart_vars :: "generate_params \<Rightarrow> template_vars" where
  "chart_vars p =
     (if gp_chart_branch p = [] then gp_template_vars p
      else (gp_template_vars p)\<lparr>tv_branch := gp_chart_branch p, tv_image_tag := SanitizeImageTag (gp_chart_branch p)\<rparr>)"

definition GenerateValues ::
  "(string \<Rightarrow> string + layer option) \<Rightarrow> (template_vars \<Rightarrow> string \<Rightarrow> string + string) \<Rightarrow> (layer \<Rightarrow> string + string) \<Rightarrow> generate_params
   \<Rightarrow> string + string" where
  "GenerateValues unmarshal render encode p =
     (case merge_layers unmarshal p of
        Inl e \<Rightarrow> Inl e
      | Inr merged \<Rightarrow>
          (case substituteVars (render (chart_vars p)) merged of
             Inl e \<Rightarrow> Inl (''substituting template variables: '' @ e)
           | Inr m \<Rightarrow> if m = [] then Inr (''{}'' @ [char_of (10 :: nat)]) else encode m))"

text \<open>\<open>GenerateAllValues\<close>: a later chart of the same name replaces the earlier one.\<close>

fun GenerateAllValues ::
  "(string \<Rightarrow> string + layer option) \<Rightarrow> (template_vars \<Rightarrow> string \<Rightarrow> string + string) \<Rightarrow> (layer \<Rightarrow> string + string)
   \<Rightarrow> generate_params list \<Rightarrow> (string \<rightharpoonup> string) \<Rightarrow> string + (string \<rightharpoonup> string)" where
  "GenerateAllValues unmarshal render encode [] result = Inr result"
| "GenerateAllValues unmarshal render encode (p # ps) result =
     (case GenerateValues unmarshal render encode p of
        Inl e \<Rightarrow> Inl (''generating values for chart '' @ go_quote (gp_chart_name p) @ '': '' @ e)
      | Inr data \<Rightarrow> GenerateAllValues unmarshal render encode ps (result(gp_chart_name p \<mapsto> data)))"

section \<open>Image tag lemmas\<close>

lemma lower_runes_ascii: "(\<forall>c\<in>set s. (of_char c :: nat) < 128) \<Longrightarrow> lower_runes s = s"
  by (induction s rule: lower_runes.induct) auto

lemma ToLower_id: "(\<forall>c\<in>set s. tag_char c) \<Longrightarrow> ToLower s = s"
  unfolding ToLower_def by (rule map_idI) (auto simp: tag_char_def Let_def)

lemma replace_separators_id: "(\<forall>c\<in>set s. tag_char c) \<Longrightarrow> replace_separators s = s"
  unfolding replace_separators_def by (rule map_idI) (auto simp: tag_char_def Let_def)

lemma tag_char_ascii: "tag_char c \<Longrightarrow> (of_char c :: nat) < 128"
  by (auto simp: tag_char_def Let_def)

definition valid_image_tag :: "string \<Rightarrow> bool" where
  "valid_image_tag t \<longleftrightarrow> t \<noteq> [] \<and> length t \<le> 128 \<and> list_all tag_char t \<and> hd t \<noteq> CHR ''-'' \<and> hd t \<noteq> CHR ''.''"

lemma SanitizeImageTag_fix: "valid_image_tag t \<Longrightarrow> SanitizeImageTag t = t"
proof -
  assume t: "valid_image_tag t"
  then have all: "\<forall>c\<in>set t. tag_char c" by (simp add: valid_image_tag_def list_all_iff)
  then have "lower_runes t = t" using tag_char_ascii lower_runes_ascii by blast
  moreover have "dropWhile (\<lambda>c. c \<in> set ''-.'') t = t"
    using t by (cases t) (auto simp: valid_image_tag_def)
  ultimately show ?thesis
    using all t by (cases t) (auto simp: SanitizeImageTag_def ToLower_id replace_separators_id Let_def valid_image_tag_def filter_id_conv)
qed

text \<open>C30. The image tag of a branch is always a valid Docker tag: not empty, at most 128 characters, of lower
  case letters, digits, dots and dashes, and neither a dot nor a dash first; and a valid tag in
  this form is its own tag, so deriving a tag twice changes nothing.\<close>

theorem image_tag_valid:
  "valid_image_tag (SanitizeImageTag branch) \<and> SanitizeImageTag (SanitizeImageTag branch) = SanitizeImageTag branch"
proof -
  let ?t = "take maxTagLen (dropWhile (\<lambda>c. c \<in> set ''-.'') (filter tag_char (replace_separators (ToLower (lower_runes branch)))))"
  have "list_all tag_char ?t"
    by (auto simp: list_all_iff dest!: in_set_takeD set_dropWhileD)
  moreover have "hd ?t \<notin> set ''-.''" if "?t \<noteq> []"
  proof -
    have "hd ?t = hd (dropWhile (\<lambda>c. c \<in> set ''-.'') (filter tag_char (replace_separators (ToLower (lower_runes branch)))))"
      using that by (simp add: hd_take)
    with that show ?thesis by (metis hd_dropWhile take_Nil)
  qed
  ultimately have "valid_image_tag (SanitizeImageTag branch)"
    by (auto simp: SanitizeImageTag_def valid_image_tag_def Let_def tag_char_def)
  with SanitizeImageTag_fix show ?thesis by blast
qed

section \<open>The merge, key by key\<close>

lemma map_of_set_entry:
  "map_of (map (\<lambda>p. if fst p = k then (k, v) else p) m) x
   = (if x = k then if k \<in> fst ` set m then Some v else None else map_of m x)"
proof (induction m)
  case (Cons p m)
  then show ?case by (cases p; cases "x = k") simp_all
qed simp

lemma map_of_put_key [simp]: "map_of (put_key k v m) x = (if x = k then Some v else map_of m x)"
proof (cases "k \<in> fst ` set m")
  case True
  then show ?thesis by (simp add: put_key_def map_of_set_entry)
next
  case False
  then have "map_of m k = None" by (simp add: map_of_eq_None_iff)
  with False show ?thesis by (simp add: put_key_def map_add_def split: option.splits)
qed

lemma map_of_delete_key [simp]: "map_of (delete_key k m) x = (if x = k then None else map_of m x)"
  by (induction m) (auto simp: delete_key_def)

lemma keys_put_key: "distinct (map fst m) \<Longrightarrow> distinct (map fst (put_key k v m))"
proof -
  assume m: "distinct (map fst m)"
  have keys: "map fst (map (\<lambda>p. if fst p = k then (k, v) else p) m) = map fst m"
    unfolding map_map by (rule map_cong) auto
  show "distinct (map fst (put_key k v m))"
  proof (cases "k \<in> fst ` set m")
    case True
    then have "put_key k v m = map (\<lambda>p. if fst p = k then (k, v) else p) m" by (simp only: put_key_def if_True)
    with keys m show ?thesis by (simp only:)
  next
    case False
    with m show ?thesis by (simp add: put_key_def)
  qed
qed

lemma keys_delete_key: "distinct (map fst m) \<Longrightarrow> distinct (map fst (delete_key k m))"
  by (simp add: delete_key_def distinct_map_filter)

text \<open>What the merge stores under one key, from the two values of the key.\<close>

definition merged_at :: "yaml option \<Rightarrow> yaml option \<Rightarrow> yaml option" where
  "merged_at d s =
     (case s of
        None \<Rightarrow> d
      | Some YNull \<Rightarrow> None
      | Some (YMap sm) \<Rightarrow> (case d of Some (YMap dm) \<Rightarrow> Some (YMap (deepMerge dm sm)) | _ \<Rightarrow> Some (YMap sm))
      | Some v \<Rightarrow> Some v)"

definition merge_entry :: "layer \<Rightarrow> string \<Rightarrow> yaml \<Rightarrow> layer" where
  "merge_entry dst k v =
     (case merged_at (map_of dst k) (Some v) of None \<Rightarrow> delete_key k dst | Some u \<Rightarrow> put_key k u dst)"

lemma deepMerge_Cons: "deepMerge dst ((k, v) # src) = deepMerge (merge_entry dst k v) src"
proof -
  have "(if v = YNull then delete_key k dst
        else case map_of dst k of
               None \<Rightarrow> put_key k v dst
             | Some dstVal \<Rightarrow>
                 (case (v, dstVal) of
                    (YMap srcMap, YMap dstMap) \<Rightarrow> put_key k (YMap (deepMerge dstMap srcMap)) dst
                  | _ \<Rightarrow> put_key k v dst)) = merge_entry dst k v"
    by (cases v; cases "map_of dst k"; cases "the (map_of dst k)") (simp_all add: merge_entry_def merged_at_def)
  then show ?thesis by simp
qed

declare deepMerge.simps(2) [simp del]

lemma deepMerge_lookup:
  "distinct (map fst src) \<Longrightarrow> map_of (deepMerge dst src) k = merged_at (map_of dst k) (map_of src k)"
proof (induction src arbitrary: dst)
  case (Cons p src)
  obtain x v where p: "p = (x, v)" by fastforce
  from Cons.prems p have x: "map_of src x = None" by (auto simp: map_of_eq_None_iff)
  have step: "map_of (merge_entry dst x v) k = (if k = x then merged_at (map_of dst x) (Some v) else map_of dst k)"
    by (simp add: merge_entry_def split: option.splits)
  have "map_of (deepMerge dst (p # src)) k = merged_at (map_of (merge_entry dst x v) k) (map_of src k)"
    using Cons by (simp add: p deepMerge_Cons)
  then show ?case using x step by (cases "k = x") (simp_all add: p merged_at_def)
qed (simp add: merged_at_def)

text \<open>The value at a path of keys.\<close>

fun at_path :: "string list \<Rightarrow> yaml \<Rightarrow> yaml option" where
  "at_path [] v = Some v"
| "at_path (k # ks) (YMap m) = (case map_of m k of None \<Rightarrow> None | Some v \<Rightarrow> at_path ks v)"
| "at_path (k # ks) _ = None"

definition leaf :: "yaml \<Rightarrow> bool" where
  "leaf v \<longleftrightarrow> v \<noteq> YNull \<and> (\<forall>m. v \<noteq> YMap m)"

text \<open>A layer says nothing about a path: on the way down every value is a mapping, until a key is missing.\<close>

fun silent_at :: "string list \<Rightarrow> layer \<Rightarrow> bool" where
  "silent_at [] m \<longleftrightarrow> False"
| "silent_at (k # ks) m \<longleftrightarrow>
     (case map_of m k of None \<Rightarrow> True | Some (YMap m') \<Rightarrow> ks \<noteq> [] \<and> silent_at ks m' | Some _ \<Rightarrow> False)"

lemma wf_sub:
  assumes "wf_value (YMap m)" "map_of m k = Some v"
  shows "wf_value v"
  using assms map_of_SomeD [OF assms(2)] by (auto simp: list_all_iff)

lemma merge_wins:
  assumes "at_path p (YMap src) = Some v" "leaf v" "wf_value (YMap src)"
  shows "at_path p (YMap (deepMerge dst src)) = Some v"
  using assms
proof (induction p arbitrary: dst src)
  case Nil
  then show ?case by (auto simp: leaf_def)
next
  case (Cons k ks)
  then obtain sv where sv: "map_of src k = Some sv" "at_path ks sv = Some v" by (auto split: option.splits)
  have wf: "distinct (map fst src)" "wf_value sv" using Cons.prems(3) wf_sub sv(1) by auto
  show ?case
  proof (cases sv)
    case (YMap sm)
    show ?thesis
    proof (cases "\<exists>dm. map_of dst k = Some (YMap dm)")
      case True
      then obtain dm where dm: "map_of dst k = Some (YMap dm)" by blast
      have "at_path ks (YMap (deepMerge dm sm)) = Some v"
        using Cons.IH [of sm dm] sv(2) Cons.prems(2) wf(2) YMap by simp
      with dm sv(1) YMap show ?thesis by (simp add: deepMerge_lookup [OF wf(1)] merged_at_def)
    next
      case False
      then have "merged_at (map_of dst k) (Some sv) = Some sv"
        using YMap by (auto simp: merged_at_def split: option.splits yaml.splits)
      with sv show ?thesis by (simp add: deepMerge_lookup [OF wf(1)])
    qed
  next
    case YNull
    then have "v = YNull" using sv(2) by (cases ks) simp_all
    with Cons.prems(2) show ?thesis by (simp add: leaf_def)
  qed (use sv in \<open>auto simp: deepMerge_lookup [OF wf(1)] merged_at_def\<close>)
qed

lemma merge_silent:
  assumes "silent_at p src" "at_path p (YMap dst) = Some v" "wf_value (YMap src)"
  shows "at_path p (YMap (deepMerge dst src)) = Some v"
  using assms
proof (induction p arbitrary: dst src)
  case (Cons k ks)
  then obtain dv where dv: "map_of dst k = Some dv" "at_path ks dv = Some v" by (auto split: option.splits)
  have wf: "distinct (map fst src)" using Cons.prems(3) by simp
  show ?case
  proof (cases "map_of src k")
    case None
    with dv show ?thesis by (simp add: deepMerge_lookup [OF wf] merged_at_def)
  next
    case (Some sv)
    then obtain sm where sm: "sv = YMap sm" "ks \<noteq> []" "silent_at ks sm"
      using Cons.prems(1) by (auto split: yaml.splits)
    then obtain dm where dm: "dv = YMap dm" using dv(2) by (cases dv; cases ks) auto
    have "at_path ks (YMap (deepMerge dm sm)) = Some v"
      using Cons.IH [of sm dm] sm(3) dv(2) dm wf_sub [OF Cons.prems(3) Some] sm(1) by simp
    with Some sm(1) dm dv(1) show ?thesis by (simp add: deepMerge_lookup [OF wf] merged_at_def)
  qed
qed simp

text \<open>The merge of decoded documents is a decoded document: no key twice.\<close>

lemma list_all_put_key: "list_all (\<lambda>p. P (snd p)) m \<Longrightarrow> P v \<Longrightarrow> list_all (\<lambda>p. P (snd p)) (put_key k v m)"
  by (auto simp: put_key_def list_all_iff)

lemma wf_put_key: "wf_value (YMap m) \<Longrightarrow> wf_value v \<Longrightarrow> wf_value (YMap (put_key k v m))"
  by (simp add: keys_put_key list_all_put_key)

lemma wf_delete_key: "wf_value (YMap m) \<Longrightarrow> wf_value (YMap (delete_key k m))"
  using keys_delete_key by (auto simp: delete_key_def list_all_iff)

lemma wf_deepMerge: "wf_value (YMap dst) \<Longrightarrow> wf_value (YMap src) \<Longrightarrow> wf_value (YMap (deepMerge dst src))"
proof (induction "size_list (size_prod (\<lambda>_. 0) size) src" arbitrary: dst src rule: less_induct)
  case less
  show ?case
  proof (cases src)
    case (Cons p rest)
    obtain k v where p: "p = (k, v)" by fastforce
    have src: "wf_value (YMap rest)" "wf_value v" using less.prems(2) Cons p by auto
    have "wf_value (YMap (deepMerge dm sm))" if "v = YMap sm" "map_of dst k = Some (YMap dm)" for sm dm
      using that Cons p src(2) wf_sub [OF less.prems(1) that(2)] by (intro less.hyps) auto
    then have "wf_value u" if "merged_at (map_of dst k) (Some v) = Some u" for u
      using that src(2) by (auto simp: merged_at_def split: yaml.splits option.splits)
    then have "wf_value (YMap (merge_entry dst k v))"
      unfolding merge_entry_def
      by (cases "merged_at (map_of dst k) (Some v)") (simp_all only: option.case wf_delete_key wf_put_key less.prems(1))
    with src(1) have "wf_value (YMap (deepMerge (merge_entry dst k v) rest))"
      using Cons p by (intro less.hyps) auto
    then show ?thesis by (simp only: Cons p deepMerge_Cons)
  qed (use less in simp)
qed

section \<open>Properties\<close>

lemma substitute_lookup:
  assumes "substituteVars render m = Inr m'" "map_of m k = Some v"
  shows "\<exists>v'. substituteValue render v = Inr v' \<and> map_of m' k = Some v'"
  using assms
proof (induction m arbitrary: m')
  case (Cons p m)
  then show ?case by (cases p) (auto split: sum.splits if_splits)
qed simp

lemma substitute_path:
  assumes "substituteVars render m = Inr m'" "at_path p (YMap m) = Some v"
  shows "\<exists>v'. substituteValue render v = Inr v' \<and> at_path p (YMap m') = Some v'"
  using assms
proof (induction p arbitrary: m m')
  case (Cons k ks)
  then obtain u where u: "map_of m k = Some u" "at_path ks u = Some v" by (auto split: option.splits)
  from substitute_lookup [OF Cons.prems(1) u(1)] obtain u' where u': "substituteValue render u = Inr u'" "map_of m' k = Some u'"
    by blast
  show ?case
  proof (cases ks)
    case Nil
    with u u' show ?thesis by simp
  next
    case (Cons a as)
    then obtain um where um: "u = YMap um" using u(2) by (cases u) auto
    with u'(1) obtain um' where "substituteVars render um = Inr um'" "u' = YMap um'" by (auto split: sum.splits)
    with Cons.IH [of um um'] u(2) um u'(2) show ?thesis by simp
  qed
qed auto

text \<open>The generated document has at a path the value of a layer, after the substitution.\<close>

definition generates ::
  "(template_vars \<Rightarrow> string \<Rightarrow> string + string) \<Rightarrow> (layer \<Rightarrow> string + string) \<Rightarrow> generate_params \<Rightarrow> string \<Rightarrow> string list \<Rightarrow> yaml \<Rightarrow> bool" where
  "generates render encode p out path v \<longleftrightarrow>
     (\<exists>m v'. encode m = Inr out \<and> substituteValue (render (chart_vars p)) v = Inr v' \<and> at_path path (YMap m) = Some v')"

lemma generates_at:
  assumes "GenerateValues unmarshal render encode p = Inr out" "merge_layers unmarshal p = Inr merged"
    "at_path path (YMap merged) = Some v" "path \<noteq> []"
  shows "generates render encode p out path v"
proof -
  from assms(1,2) obtain m where m: "substituteVars (render (chart_vars p)) merged = Inr m"
    "(if m = [] then Inr (''{}'' @ [char_of (10 :: nat)]) else encode m) = Inr out"
    by (auto simp: GenerateValues_def split: sum.splits)
  from substitute_path [OF m(1) assms(3)] obtain v' where v': "substituteValue (render (chart_vars p)) v = Inr v'"
    "at_path path (YMap m) = Some v'" by blast
  with assms(4) have "m \<noteq> []" by (cases path) auto
  with m(2) v' show ?thesis by (auto simp: generates_def)
qed

lemma merge_layers_Inr:
  assumes "parseYAML unmarshal (gp_default_values p) = Inr defaults" "parseYAML unmarshal (gp_override_values p) = Inr overrides"
    "parseYAML unmarshal (gp_locked_values p) = Inr locked"
  shows "merge_layers unmarshal p
    = Inr (deepMerge (deepMerge (deepMerge (merge_shared unmarshal (gp_shared_values p) []) defaults) overrides) locked)"
  using assms by (simp add: merge_layers_def)

lemma parse_wf:
  assumes "\<And>s m. unmarshal s = Inr (Some m) \<Longrightarrow> wf_value (YMap m)" "parseYAML unmarshal s = Inr m"
  shows "wf_value (YMap m)"
  using assms by (auto simp: parseYAML_def split: if_splits sum.splits option.splits simp del: wf_value.simps) simp_all

lemma leaf_path: "at_path path (YMap m) = Some v \<Longrightarrow> leaf v \<Longrightarrow> path \<noteq> []"
  by (cases path) (auto simp: leaf_def)

text \<open>Locked values win, then the overrides of the instance, then the defaults of the chart: when the generation
  succeeds, a value that the locked layer sets at a path is in the result, whatever the other layers
  say; a value of the override layer is there when the locked layer says nothing about the
  path, and a default when neither does. The parser of the YAML library is only required to return each
  key of a mapping once.\<close>

theorem higher_layer_wins:
  assumes gen: "GenerateValues unmarshal render encode p = Inr out"
    and yaml: "\<And>s m. unmarshal s = Inr (Some m) \<Longrightarrow> wf_value (YMap m)"
    and d: "parseYAML unmarshal (gp_default_values p) = Inr defaults"
    and o: "parseYAML unmarshal (gp_override_values p) = Inr overrides"
    and l: "parseYAML unmarshal (gp_locked_values p) = Inr locked" and v: "leaf v"
  shows "(at_path path (YMap locked) = Some v \<longrightarrow> generates render encode p out path v)
    \<and> (silent_at path locked \<and> at_path path (YMap overrides) = Some v \<longrightarrow> generates render encode p out path v)
    \<and> (silent_at path locked \<and> silent_at path overrides \<and> at_path path (YMap defaults) = Some v
        \<longrightarrow> generates render encode p out path v)"
proof -
  note at = generates_at [OF gen merge_layers_Inr [OF d o l]]
  have wf: "wf_value (YMap defaults)" "wf_value (YMap overrides)" "wf_value (YMap locked)"
    using parse_wf yaml d o l by blast+
  note wins = merge_wins [OF _ v]
  have "generates render encode p out path v" if "at_path path (YMap locked) = Some v"
    using at [OF wins [OF that wf(3)] leaf_path [OF that v]] .
  moreover have "generates render encode p out path v" if "silent_at path locked" "at_path path (YMap overrides) = Some v"
    using at [OF merge_silent [OF that(1) wins [OF that(2) wf(2)] wf(3)] leaf_path [OF that(2) v]] .
  moreover have "generates render encode p out path v"
    if "silent_at path locked" "silent_at path overrides" "at_path path (YMap defaults) = Some v"
    using at [OF merge_silent [OF that(1) merge_silent [OF that(2) wins [OF that(3) wf(1)] wf(2)] wf(3)] leaf_path [OF that(3) v]] .
  ultimately show ?thesis by blast
qed

definition example_params :: generate_params where
  "example_params = \<lparr>gp_chart_name = ''web'', gp_default_values = ''D'', gp_locked_values = ''L'', gp_override_values = ''O'',
     gp_shared_values = [], gp_chart_branch = [],
     gp_template_vars = \<lparr>tv_branch = ''main'', tv_image_tag = ''main'', tv_namespace = ''n'', tv_instance_name = ''i'',
       tv_stack_name = ''s'', tv_owner = ''o''\<rparr>\<rparr>"

definition example_yaml :: "string \<Rightarrow> string + layer option" where
  "example_yaml s =
     (if s = ''D'' then Inr (Some [(''a'', YMap [(''x'', YString ''1''), (''y'', YString ''2'')]), (''b'', YScalar ''3'')])
      else if s = ''O'' then Inr (Some [(''a'', YMap [(''x'', YString ''4'')])])
      else if s = ''L'' then Inr (Some [(''b'', YScalar ''5'')])
      else Inr None)"

lemma example_yaml_wf: "example_yaml s = Inr (Some m) \<Longrightarrow> wf_value (YMap m)"
  by (auto simp: example_yaml_def split: if_splits)

lemma example_yaml_parse:
  "parseYAML example_yaml ''D'' = Inr [(''a'', YMap [(''x'', YString ''1''), (''y'', YString ''2'')]), (''b'', YScalar ''3'')]"
  "parseYAML example_yaml ''O'' = Inr [(''a'', YMap [(''x'', YString ''4'')])]"
  "parseYAML example_yaml ''L'' = Inr [(''b'', YScalar ''5'')]"
  by (simp_all add: parseYAML_def TrimSpace_def is_space_def example_yaml_def)

theorem higher_layer_wins_witness:
  "generates (\<lambda>_. Inr) (\<lambda>m. Inr ''out'') example_params ''out'' [''b''] (YScalar ''5'')
   \<and> generates (\<lambda>_. Inr) (\<lambda>m. Inr ''out'') example_params ''out'' [''a'', ''x''] (YString ''4'')
   \<and> generates (\<lambda>_. Inr) (\<lambda>m. Inr ''out'') example_params ''out'' [''a'', ''y''] (YString ''2'')"
proof -
  have gen: "GenerateValues example_yaml (\<lambda>_. Inr) (\<lambda>m. Inr ''out'') example_params = Inr ''out''"
    by (simp add: GenerateValues_def merge_layers_def example_params_def example_yaml_parse deepMerge_Cons merge_entry_def
        merged_at_def put_key_def HasPrefix_def)
  have layers: "parseYAML example_yaml (gp_default_values example_params)
      = Inr [(''a'', YMap [(''x'', YString ''1''), (''y'', YString ''2'')]), (''b'', YScalar ''3'')]"
    "parseYAML example_yaml (gp_override_values example_params) = Inr [(''a'', YMap [(''x'', YString ''4'')])]"
    "parseYAML example_yaml (gp_locked_values example_params) = Inr [(''b'', YScalar ''5'')]"
    by (simp_all add: example_params_def example_yaml_parse)
  note r = higher_layer_wins [OF gen example_yaml_wf layers]
  show ?thesis
    using r [where v = "YScalar ''5''" and path = "[''b'']"] r [where v = "YString ''4''" and path = "[''a'', ''x'']"]
      r [where v = "YString ''2''" and path = "[''a'', ''y'']"]
    by (simp add: leaf_def)
qed

end
