(* ===== verification/Rollback.thy ===== *)
theory Rollback
  imports DeployRun Values
begin

text \<open>
  The goroutine of a rollback (\<open>executeRollback\<close> in \<open>internal/deployer/manager.go\<close>,
  \<open>internal/deployer/rollback_target.go\<close>): after the pre-rollback hook every release goes back one Helm
  revision, or to the values and versions of a target deploy; then the readiness wait and the finalizer.
\<close>

section \<open>Hook payload\<close>

definition ParseChartVersions :: "(string \<Rightarrow> (string \<times> string) list option) \<Rightarrow> string \<Rightarrow> (string \<times> string) list" where
  "ParseChartVersions unmarshal s = (if s = [] then [] else case unmarshal s of None \<Rightarrow> [] | Some m \<Rightarrow> m)"

record chart_ref =
  cr_name :: string
  cr_release_name :: string
  cr_version :: string
  cr_source_repo_url :: string
  cr_build_pipeline_id :: string
  cr_branch :: string
  cr_image_tag :: string

text \<open>\<open>m[k]\<close> of a Go map of strings: the zero value for a missing key.\<close>

definition lookup_string :: "(string \<times> string) list \<Rightarrow> string \<Rightarrow> string" where
  "lookup_string m k = (case map_of m k of None \<Rightarrow> [] | Some v \<Rightarrow> v)"

definition chart_version_for :: "(string \<times> string) list \<Rightarrow> chart_config \<Rightarrow> string" where
  "chart_version_for versions cc =
     (let v = lookup_string versions (cc_chart_name cc) in if v \<noteq> [] then v else cc_chart_version cc)"

definition chartRefsFor :: "chart_deploy_info list \<Rightarrow> string \<Rightarrow> (string \<times> string) list \<Rightarrow> chart_ref list" where
  "chartRefsFor charts defaultBranch versions =
     map (\<lambda>c. let cc = ci_config c; branch = (if ci_branch c = [] then defaultBranch else ci_branch c)
              in \<lparr>cr_name = cc_chart_name cc, cr_release_name = cc_chart_name cc, cr_version = chart_version_for versions cc,
                  cr_source_repo_url = cc_source_repo_url cc, cr_build_pipeline_id = cc_build_pipeline_id cc,
                  cr_branch = branch, cr_image_tag = SanitizeImageTag branch\<rparr>) charts"

definition rollbackHookOpts ::
  "rollback_request \<Rightarrow> (string \<times> string) list \<Rightarrow> registry_config option \<Rightarrow> string \<Rightarrow> chart_ref list \<times> (string \<times> string) list" where
  "rollbackHookOpts req targetVersions regCfg previousBranch =
     (let registry = (case regCfg of None \<Rightarrow> [] | Some r \<Rightarrow> [(''registry_url'', rc_url r)])
      in if rr_target_values req = []
         then (if previousBranch = []
               then (chartRefsFor (rr_charts req) (si_branch (rr_instance req)) [],
                     (''rollback_mode'', ''previous_revision'') # registry @ [(''branch_source'', ''current'')])
               else (chartRefsFor (map (\<lambda>c. c\<lparr>ci_branch := previousBranch\<rparr>) (rr_charts req)) previousBranch [],
                     (''rollback_mode'', ''previous_revision'') # registry @ [(''branch_source'', ''previous_deploy'')]))
         else (let branch = (if rr_target_branch req = [] then si_branch (rr_instance req) else rr_target_branch req);
                   targetCharts = map (\<lambda>c. c\<lparr>ci_branch := branch\<rparr>)
                     (filter (\<lambda>c. cc_chart_name (ci_config c) \<in> fst ` set (rr_target_values req)) (rr_charts req))
               in (chartRefsFor targetCharts branch targetVersions,
                   (''rollback_mode'', ''target'') # registry
                     @ [(''branch_source'', ''target_deploy''), (''target_log_id'', rr_target_log_id req), (''target_branch'', branch)])))"

section \<open>Calls\<close>

text \<open>
  Helm as a rollback uses it: the revisions of a release (at most two, ascending), the rollback to a
  revision and the values of a release. A target holds values and versions by chart name.
\<close>

record rollback_calls =
  rk_history :: "string \<Rightarrow> string + nat list"
  rk_rollback :: "string \<Rightarrow> nat \<Rightarrow> command"
  rk_values :: "string \<Rightarrow> string option"
  rk_pod_lines :: "string \<Rightarrow> string"

record rollback_target =
  tg_values :: "(string \<times> string) list"
  tg_versions :: "(string \<times> string) list"
  tg_registry :: "registry_config option"

text \<open>What the world offers a rollback: as for a deploy (\<open>deploy_env\<close>).\<close>

record rollback_env =
  rv_io :: io
  rv_io_ready :: io
  rv_io_final :: io
  rv_hook :: pre_hook
  rv_tmp_error :: "string option"
  rv_values_error :: "string \<Rightarrow> string option"
  rv_pod_lines :: string
  rv_pod_event :: string
  rv_early :: "namespace_status option option"
  rv_polls :: "poll list"
  rv_read_status :: "namespace_status option"

section \<open>One revision back\<close>

record rollback_state =
  rs_output :: string
  rs_error :: "goerr option"
  rs_done :: "chart_deploy_info list"
  rs_requests :: "(string \<times> nat) list"
  rs_world :: world

definition arrow :: string where
  "arrow = map char_of [226 :: nat, 134, 146]"

definition target_revision :: "bool \<Rightarrow> nat list \<Rightarrow> nat" where
  "target_revision recovered revisions = (if recovered then List.last revisions else hd revisions)"

fun revision_loop ::
  "manager \<Rightarrow> cluster_calls \<Rightarrow> helm_calls \<Rightarrow> rollback_calls \<Rightarrow> string \<Rightarrow> string \<Rightarrow> string \<Rightarrow> chart_deploy_info list \<Rightarrow> rollback_state
   \<Rightarrow> rollback_state" where
  "revision_loop m k h x instanceID logID namespace [] st = st"
| "revision_loop m k h x instanceID logID namespace (c # cs) st =
     (let name = cc_chart_name (ci_config c);
          rec = recoverPendingRelease h (kc_client k) name namespace;
          recovered = (case rec of Inr msg \<Rightarrow> msg \<noteq> [] | Inl _ \<Rightarrow> False);
          out1 = rs_output st @ (case rec of Inl e \<Rightarrow> ''WARNING: '' @ e @ [newline] | Inr msg \<Rightarrow> if msg = [] then [] else msg @ [newline]);
          w1 = (case rec of Inr msg \<Rightarrow> if msg = [] then rs_world st else broadcastLog m instanceID logID msg (rs_world st)
                | Inl _ \<Rightarrow> rs_world st)
      in case rk_history x name of
           Inl e \<Rightarrow>
             (let err = EWrap (''getting history for chart '' @ go_quote name @ '': '') (EText e) []
              in st\<lparr>rs_output := out1 @ ''ERROR: '' @ err_text err @ [newline], rs_error := Some err, rs_world := w1\<rparr>)
         | Inr revisions \<Rightarrow>
             if revisions = [] \<or> (length revisions < 2 \<and> \<not> recovered)
             then revision_loop m k h x instanceID logID namespace cs
                    (st\<lparr>rs_output := out1 @ ''=== Chart: '' @ name @ '' === (skipped: only '' @ digits (length revisions) @ '' revision)'' @ [newline],
                        rs_world := w1\<rparr>)
             else
               (let rev = target_revision recovered revisions; res = rk_rollback x name rev;
                    out2 = out1 @ ''=== Chart: '' @ name @ '' ('' @ arrow @ '' rev '' @ digits rev @ '') ==='' @ [newline] @ fst res @ [newline]
                      @ rk_pod_lines x name;
                    w2 = (if hc_streaming h then w1 else broadcastLog m instanceID logID (fst res) w1);
                    st' = st\<lparr>rs_requests := rs_requests st @ [(name, rev)], rs_world := w2\<rparr>
                in case snd res of
                     Some e \<Rightarrow>
                       (let err = EWrap (''rolling back chart '' @ go_quote name @ '' to revision '' @ digits rev @ '': '') e []
                        in st'\<lparr>rs_output := out2 @ ''ERROR: '' @ err_text err @ [newline], rs_error := Some err\<rparr>)
                   | None \<Rightarrow> revision_loop m k h x instanceID logID namespace cs (st'\<lparr>rs_output := out2, rs_done := rs_done st @ [c]\<rparr>)))"

fun collectChartValues :: "rollback_calls \<Rightarrow> chart_deploy_info list \<Rightarrow> (string \<times> string) list \<Rightarrow> (string \<times> string) list" where
  "collectChartValues x [] values = values"
| "collectChartValues x (c # cs) values =
     collectChartValues x cs
       (case rk_values x (cc_chart_name (ci_config c)) of
          None \<Rightarrow> values
        | Some v \<Rightarrow> if TrimSpace v = [] then values else map_put (cc_chart_name (ci_config c)) v values)"

section \<open>To a target\<close>

record target_state =
  ts_output :: string
  ts_applied :: "(string \<times> string) list"
  ts_error :: "goerr option"
  ts_requests :: "install_request list"
  ts_world :: world

definition target_request :: "bool \<Rightarrow> string \<Rightarrow> rollback_target \<Rightarrow> string \<Rightarrow> chart_config \<Rightarrow> install_request" where
  "target_request nsReady namespace tg values cc =
     (let ref = ChartReference (cc_repository_url cc) (cc_chart_path cc) (cc_chart_name cc)
      in \<lparr>ir_release = cc_chart_name cc, ir_chart = fst ref, ir_repo = snd ref, ir_version = chart_version_for (tg_versions tg) cc,
          ir_values_file = (values \<noteq> []), ir_namespace = namespace, ir_skip_crds = True, ir_namespace_ready = nsReady\<rparr>)"

fun target_loop ::
  "manager \<Rightarrow> deploy_config \<Rightarrow> cluster_calls \<Rightarrow> helm_calls \<Rightarrow> rollback_env \<Rightarrow> bool \<Rightarrow> string \<Rightarrow> deployment_log \<Rightarrow> string \<Rightarrow> rollback_target
   \<Rightarrow> chart_deploy_info list \<Rightarrow> target_state \<Rightarrow> target_state" where
  "target_loop m cfg k h e nsReady instanceID l namespace tg [] st = st"
| "target_loop m cfg k h e nsReady instanceID l namespace tg (c # cs) st =
     (let cc = ci_config c; name = cc_chart_name cc
      in case map_of (tg_values tg) name of
           None \<Rightarrow>
             target_loop m cfg k h e nsReady instanceID l namespace tg cs
               (st\<lparr>ts_output := ts_output st @ ''=== Chart: '' @ name @ '' === (skipped: not part of the target deploy; left unchanged)'' @ [newline]\<rparr>)
         | Some values \<Rightarrow>
      (case checkChartSource (dc_allowed_sources cfg) (cc_repository_url cc) (cc_chart_path cc) name of
           Some se \<Rightarrow> st\<lparr>ts_error := Some (EWrap (''chart '' @ go_quote name @ '': '') (EText (source_error_text se)) [])\<rparr>
         | None \<Rightarrow>
      (case (if values = [] then None else rv_values_error e name) of
           Some we \<Rightarrow> st\<lparr>ts_error := Some (EWrap (''writing values for chart '' @ go_quote name @ '': '') (EText we) [])\<rparr>
         | None \<Rightarrow>
             (let rec = recoverPendingRelease h (kc_client k) name namespace;
                  out1 = ts_output st @ (case rec of Inl e \<Rightarrow> ''WARNING: '' @ e @ [newline] | Inr msg \<Rightarrow> if msg = [] then [] else msg @ [newline]);
                  w1 = (case rec of Inr msg \<Rightarrow> if msg = [] then ts_world st else broadcastLog m instanceID (dl_id l) msg (ts_world st)
                        | Inl _ \<Rightarrow> ts_world st);
                  req = target_request nsReady namespace tg values cc;
                  res = hc_install h req;
                  out2 = out1 @ ''=== Chart: '' @ name @ '' (-> values of deploy '' @ dl_target_log_id l @ '', chart version ''
                    @ go_quote (ir_version req) @ '') ==='' @ [newline] @ fst res @ [newline];
                  w2 = (if hc_streaming h then w1 else broadcastLog m instanceID (dl_id l) (fst res) w1);
                  st' = st\<lparr>ts_output := out2, ts_requests := ts_requests st @ [req], ts_world := w2\<rparr>
              in case snd res of
                   Some e \<Rightarrow> st'\<lparr>ts_error := Some (EWrap (''rolling back chart '' @ go_quote name @ '' to deploy '' @ dl_target_log_id l @ '': '') e [])\<rparr>
                 | None \<Rightarrow> target_loop m cfg k h e nsReady instanceID l namespace tg cs (st'\<lparr>ts_applied := map_put name values (ts_applied st)\<rparr>)))))"

definition missing_output :: "chart_deploy_info list \<Rightarrow> rollback_target \<Rightarrow> string" where
  "missing_output charts tg =
     concat (map (\<lambda>name. ''WARNING: chart '' @ name @ '' is in the target deploy but not in the stack definition; skipped'' @ [newline])
       (sort (filter (\<lambda>name. name \<notin> (\<lambda>c. cc_chart_name (ci_config c)) ` set charts) (map fst (tg_values tg)))))"

definition rollbackToTarget ::
  "manager \<Rightarrow> deploy_config \<Rightarrow> cluster_calls \<Rightarrow> helm_calls \<Rightarrow> rollback_env \<Rightarrow> string \<Rightarrow> deployment_log \<Rightarrow> string \<Rightarrow> chart_deploy_info list
   \<Rightarrow> rollback_target \<Rightarrow> world \<Rightarrow> target_state" where
  "rollbackToTarget m cfg k h e instanceID l namespace charts tg w =
     (case rv_tmp_error e of
        Some t \<Rightarrow> \<lparr>ts_output = [], ts_applied = [], ts_error = Some (EWrap ''creating temp directory: '' (EText t) []),
                   ts_requests = [], ts_world = w\<rparr>
      | None \<Rightarrow>
          (let nsReady = (kc_client k \<and> kc_ensure_namespace k = None);
               q = (case dc_quotas cfg of
                      Some qr \<Rightarrow> if nsReady then applyQuotasForDeploy m (rv_io e) qr k instanceID w else ([], w)
                    | None \<Rightarrow> ([], w));
               login = (case tg_registry tg of
                          None \<Rightarrow> []
                        | Some _ \<Rightarrow> (case hc_login h of None \<Rightarrow> [] | Some t \<Rightarrow> ''WARNING: helm registry login failed: '' @ t @ [newline]));
               st = target_loop m cfg k h e nsReady instanceID l namespace tg charts
                      \<lparr>ts_output = fst q @ login, ts_applied = [], ts_error = None, ts_requests = [], ts_world = snd q\<rparr>
           in if ts_error st = None then st\<lparr>ts_output := ts_output st @ missing_output charts tg\<rparr> else st))"

section \<open>The goroutine\<close>

definition rollbackReadiness ::
  "manager \<Rightarrow> cluster_calls \<Rightarrow> rollback_env \<Rightarrow> string \<Rightarrow> string \<Rightarrow> string \<Rightarrow> goerr option \<Rightarrow> world \<Rightarrow> ((string \<times> string) \<times> world) option" where
  "rollbackReadiness m k e instanceID namespace logID rollbackErr w =
     (if rollbackErr \<noteq> None then Some (([], []), w)
      else if m_stabilize_timeout m \<le> 0 \<or> \<not> kc_client k
      then Some (([], siteURLFor m (kc_client k) namespace None False (rv_read_status e)), w)
      else map_option (\<lambda>((lastStatus, err), w1).
             ((case err of None \<Rightarrow> [] | Some x \<Rightarrow> ''WARNING: '' @ readiness_text m x @ [newline],
               siteURLFor m (kc_client k) namespace lastStatus True (rv_read_status e)), w1))
             (awaitReadiness m (rv_io_ready e) instanceID logID (rv_early e) (rv_polls e) w))"

definition rollbackCancelReason :: "string \<Rightarrow> string" where
  "rollbackCancelReason status =
     ''rollback cancelled: another operation changed the instance (status '' @ status @ '') during the pre-rollback hook''"

text \<open>From the end of the Helm calls: readiness, pod events, finalizer.\<close>

definition finish_rollback ::
  "(string \<Rightarrow> (string \<times> string) list option) \<Rightarrow> manager \<Rightarrow> cluster_calls \<Rightarrow> rollback_env \<Rightarrow> stack_instance \<Rightarrow> deployment_log \<Rightarrow> string
   \<Rightarrow> goerr option \<Rightarrow> (string \<times> string) list \<Rightarrow> world \<Rightarrow> world option" where
  "finish_rollback unmarshal m k e inst l output err applied w =
     map_option (\<lambda>(r, w1).
       finalizeRollback unmarshal m (rv_io_final e) (si_id inst) l (output @ rv_pod_lines e @ fst r)
         (withPodEvent err (rv_pod_event e)) applied (snd r) w1)
       (rollbackReadiness m k e (si_id inst) (si_namespace inst) (dl_id l) err w)"

definition rollback_charts ::
  "(string \<Rightarrow> (string \<times> string) list option) \<Rightarrow> manager \<Rightarrow> deploy_config \<Rightarrow> cluster_calls \<Rightarrow> helm_calls \<Rightarrow> rollback_calls \<Rightarrow> rollback_env
   \<Rightarrow> rollback_target option \<Rightarrow> job \<Rightarrow> string \<Rightarrow> world \<Rightarrow> world option" where
  "rollback_charts unmarshal m cfg k h x e target job hookOutput w =
     (let inst = j_instance job; l = j_log job
      in case target of
           Some tg \<Rightarrow>
             (let st = rollbackToTarget m cfg k h e (si_id inst) l (si_namespace inst) (j_charts job) tg w
              in finish_rollback unmarshal m k e inst l (hookOutput @ ts_output st) (ts_error st) (ts_applied st) (ts_world st))
         | None \<Rightarrow>
             (let st = revision_loop m k h x (si_id inst) (dl_id l) (si_namespace inst) (j_charts job)
                         \<lparr>rs_output = hookOutput, rs_error = None, rs_done = [], rs_requests = [], rs_world = w\<rparr>;
                  running = collectChartValues x (if rs_error st = None then j_charts job else rs_done st) []
              in finish_rollback unmarshal m k e inst l (rs_output st) (rs_error st) running (rs_world st)))"

definition executeRollback ::
  "(string \<Rightarrow> (string \<times> string) list option) \<Rightarrow> manager \<Rightarrow> deploy_config \<Rightarrow> cluster_calls \<Rightarrow> helm_calls \<Rightarrow> rollback_calls \<Rightarrow> rollback_env
   \<Rightarrow> rollback_target option \<Rightarrow> (string \<times> string) list \<Rightarrow> job \<Rightarrow> world \<Rightarrow> world option" where
  "executeRollback unmarshal m cfg k h x e target meta job w =
     (let inst = j_instance job; l = j_log job; instanceID = si_id inst; io = rv_io e;
          hook = firePreHook m io EventPreRollback inst l meta (rv_hook e) w;
          hookOutput = hook_output m (rv_hook e)
      in map_option (drop_trigger (dl_id l))
          (case pr_lost (fst hook) of
             Some status \<Rightarrow>
               Some (finalizeRollbackCancelled m (rv_io_final e) instanceID l hookOutput (rollbackCancelReason status) (snd hook))
           | None \<Rightarrow>
               (case pr_err (fst hook) of
                  Some err \<Rightarrow> Some (finalizeRollbackRejected m (rv_io_final e) job hookOutput err (snd hook))
                | None \<Rightarrow>
                    (let own = ownsAfterPreHook io instanceID (dl_id l) (snd hook)
                     in if \<not> fst (fst own)
                        then Some (finalizeRollbackCancelled m (rv_io_final e) instanceID l hookOutput
                                     (rollbackCancelReason (snd (fst own))) (snd own))
                        else
                          (let d = extendDeadline m io l (Some (j_helm_timeout job)) (length (j_charts job)) (snd own)
                           in if \<not> fst (fst d) then Some (snd d)
                              else rollback_charts unmarshal m cfg k h x e target (job\<lparr>j_log := snd (fst d)\<rparr>) hookOutput (snd d))))))"

section \<open>Lemmas\<close>

text \<open>A chart that a rollback by one revision handles: skipped because there is nothing to go back to, or rolled back.\<close>

definition stuck_release :: "cluster_calls \<Rightarrow> helm_calls \<Rightarrow> string \<Rightarrow> string \<Rightarrow> bool" where
  "stuck_release k h namespace name \<longleftrightarrow> (\<exists>msg. recoverPendingRelease h (kc_client k) name namespace = Inr msg \<and> msg \<noteq> [])"

definition rolls_back :: "cluster_calls \<Rightarrow> helm_calls \<Rightarrow> rollback_calls \<Rightarrow> string \<Rightarrow> chart_deploy_info \<Rightarrow> bool" where
  "rolls_back k h x namespace c \<longleftrightarrow>
     (let name = cc_chart_name (ci_config c); recovered = stuck_release k h namespace name
      in case rk_history x name of
           Inl _ \<Rightarrow> False
         | Inr revisions \<Rightarrow>
             revisions = [] \<or> (length revisions < 2 \<and> \<not> recovered)
             \<or> snd (rk_rollback x name (if recovered then List.last revisions else hd revisions)) = None)"

definition reaches_target :: "deploy_config \<Rightarrow> helm_calls \<Rightarrow> rollback_env \<Rightarrow> bool \<Rightarrow> string \<Rightarrow> rollback_target \<Rightarrow> chart_deploy_info \<Rightarrow> bool" where
  "reaches_target cfg h e nsReady namespace tg c \<longleftrightarrow>
     (let cc = ci_config c
      in case map_of (tg_values tg) (cc_chart_name cc) of
           None \<Rightarrow> True
         | Some values \<Rightarrow>
             checkChartSource (dc_allowed_sources cfg) (cc_repository_url cc) (cc_chart_path cc) (cc_chart_name cc) = None
             \<and> (values = [] \<or> rv_values_error e (cc_chart_name cc) = None)
             \<and> snd (hc_install h (target_request nsReady namespace tg values cc)) = None)"

lemma revision_loop_effect:
  assumes "rs_error st = None"
  shows "(rs_error (revision_loop m k h x i lg ns cs st) = None \<longleftrightarrow> list_all (rolls_back k h x ns) cs)
    \<and> w_db (rs_world (revision_loop m k h x i lg ns cs st)) = w_db (rs_world st)"
  using assms
proof (induction cs arbitrary: st)
  case (Cons c cs)
  have "stuck_release k h ns (cc_chart_name (ci_config c)) \<longleftrightarrow>
      (case recoverPendingRelease h (kc_client k) (cc_chart_name (ci_config c)) ns of Inr msg \<Rightarrow> msg \<noteq> [] | Inl _ \<Rightarrow> False)"
    by (auto simp: stuck_release_def split: sum.splits)
  with Cons show ?case
    by (simp add: rolls_back_def target_revision_def Let_def split: sum.splits option.splits)
qed simp

definition target_allows :: "deploy_config \<Rightarrow> bool \<Rightarrow> string \<Rightarrow> rollback_target \<Rightarrow> chart_deploy_info list \<Rightarrow> install_request \<Rightarrow> bool" where
  "target_allows cfg r ns tg cs req \<longleftrightarrow>
     (\<exists>c\<in>set cs. \<exists>vals. map_of (tg_values tg) (cc_chart_name (ci_config c)) = Some vals
        \<and> checkChartSource (dc_allowed_sources cfg) (cc_repository_url (ci_config c)) (cc_chart_path (ci_config c))
            (cc_chart_name (ci_config c)) = None
        \<and> req = target_request r ns tg vals (ci_config c))"

text \<open>What the loop does with one chart: it goes on, with or without a request, or ends with an error.\<close>

lemma target_step:
  fixes m cfg k h e r i l ns tg c cs st
  defines "run \<equiv> target_loop m cfg k h e r i l ns tg"
  obtains (goes_on) st' where "run (c # cs) st = run cs st'" "reaches_target cfg h e r ns tg c" "ts_error st' = ts_error st"
      "w_db (ts_world st') = w_db (ts_world st)"
      "\<And>req. req \<in> set (ts_requests st') \<Longrightarrow> req \<in> set (ts_requests st) \<or> target_allows cfg r ns tg [c] req"
  | (ends) "ts_error (run (c # cs) st) \<noteq> None" "\<not> reaches_target cfg h e r ns tg c"
      "w_db (ts_world (run (c # cs) st)) = w_db (ts_world st)"
      "\<And>req. req \<in> set (ts_requests (run (c # cs) st)) \<Longrightarrow> req \<in> set (ts_requests st) \<or> target_allows cfg r ns tg [c] req"
proof -
  let ?cc = "ci_config c"
  let ?name = "cc_chart_name ?cc"
  show thesis
  proof (cases "map_of (tg_values tg) ?name")
    case None
    then show thesis
      by (intro goes_on [of "st\<lparr>ts_output := ts_output st @ ''=== Chart: '' @ ?name @ '' === (skipped: not part of the target deploy; left unchanged)'' @ [newline]\<rparr>"])
        (simp_all add: run_def reaches_target_def Let_def)
  next
    case (Some vals)
    let ?check = "checkChartSource (dc_allowed_sources cfg) (cc_repository_url ?cc) (cc_chart_path ?cc) ?name"
    let ?bad = "if vals = [] then None else rv_values_error e ?name"
    let ?req = "target_request r ns tg vals ?cc"
    show thesis
    proof (cases "?check = None \<and> ?bad = None")
      case False
      with Some show thesis
        by (intro ends) (auto simp: run_def reaches_target_def Let_def split: option.splits if_splits)
    next
      case True
      then have ok: "?check = None" "?bad = None" by simp_all
      have here: "target_allows cfg r ns tg [c] ?req" using Some ok by (simp add: target_allows_def)
      define rec where "rec = recoverPendingRelease h (kc_client k) ?name ns"
      define w1 where "w1 = (case rec of Inr msg \<Rightarrow> if msg = [] then ts_world st else broadcastLog m i (dl_id l) msg (ts_world st) | Inl _ \<Rightarrow> ts_world st)"
      define w2 where "w2 = (if hc_streaming h then w1 else broadcastLog m i (dl_id l) (fst (hc_install h ?req)) w1)"
      have w2: "w_db w2 = w_db (ts_world st)"
        by (simp add: w2_def w1_def split: sum.splits)
      have loop: "\<exists>out. run (c # cs) st =
          (case snd (hc_install h ?req) of
             Some e \<Rightarrow> st\<lparr>ts_output := out, ts_requests := ts_requests st @ [?req], ts_world := w2,
               ts_error := Some (EWrap (''rolling back chart '' @ go_quote ?name @ '' to deploy '' @ dl_target_log_id l @ '': '') e [])\<rparr>
           | None \<Rightarrow> run cs (st\<lparr>ts_output := out, ts_requests := ts_requests st @ [?req], ts_world := w2,
               ts_applied := map_put ?name vals (ts_applied st)\<rparr>))"
        using Some ok by (auto simp: run_def Let_def w2_def w1_def rec_def split: option.splits)
      show thesis
      proof (cases "snd (hc_install h ?req)")
        case None
        with loop obtain out where "run (c # cs) st = run cs (st\<lparr>ts_output := out, ts_requests := ts_requests st @ [?req], ts_world := w2,
            ts_applied := map_put ?name vals (ts_applied st)\<rparr>)" by auto
        then show thesis
          by (rule goes_on) (use here w2 None ok Some in \<open>auto simp: reaches_target_def Let_def split: if_splits\<close>)
      next
        case err: (Some x)
        with loop here w2 Some show thesis
          by (intro ends) (auto simp: reaches_target_def Let_def)
      qed
    qed
  qed
qed

lemma target_loop_effect:
  assumes "ts_error st = None"
  shows "(ts_error (target_loop m cfg k h e r i l ns tg cs st) = None \<longleftrightarrow> list_all (reaches_target cfg h e r ns tg) cs)
    \<and> w_db (ts_world (target_loop m cfg k h e r i l ns tg cs st)) = w_db (ts_world st)"
  using assms
proof (induction cs arbitrary: st)
  case (Cons c cs)
  show ?case
  proof (rule target_step [of m cfg k h e r i l ns tg c cs st])
    fix st'
    assume "target_loop m cfg k h e r i l ns tg (c # cs) st = target_loop m cfg k h e r i l ns tg cs st'"
      "reaches_target cfg h e r ns tg c" "ts_error st' = ts_error st" "w_db (ts_world st') = w_db (ts_world st)"
    with Cons show ?thesis by (simp only: list.pred_inject) simp
  qed (simp del: target_loop.simps)
qed simp

lemma target_loop_requests:
  "req \<in> set (ts_requests (target_loop m cfg k h e r i l ns tg cs st)) \<Longrightarrow> req \<in> set (ts_requests st) \<or> target_allows cfg r ns tg cs req"
proof (induction cs arbitrary: st)
  case (Cons c cs)
  have more: "target_allows cfg r ns tg cs req \<or> target_allows cfg r ns tg [c] req \<Longrightarrow> target_allows cfg r ns tg (c # cs) req"
    by (auto simp: target_allows_def)
  show ?case
    by (rule target_step [of m cfg k h e r i l ns tg c cs st]) (metis Cons more)+
qed simp

lemma finish_rollback_effect:
  assumes "m_stabilize_timeout m \<le> 0"
  shows "\<exists>out url. finish_rollback um m k e inst l output err applied w
    = Some (finalizeRollback um m (rv_io_final e) (si_id inst) l out (withPodEvent err (rv_pod_event e)) applied url w)"
  using assms by (auto simp: finish_rollback_def rollbackReadiness_def)

lemma rollback_result_statuses:
  "(si_status (fst (rollback_result um err ap now inst l)), dl_status (snd (rollback_result um err ap now inst l)))
   = (if err = None then (StackStatusRunning, DeployLogSuccess) else (StackStatusError, DeployLogError))"
  by (auto simp: rollback_result_def log_error_def Let_def split: option.splits)

lemma finalizeRollback_effect:
  assumes "keyed dl_id (d_logs (w_db w))" and "row_of si_id i (d_instances (w_db w)) = Some inst"
    and "si_status inst \<in> {StackStatusDeploying, StackStatusStabilizing}"
    and "log_open (dl_id l) (d_logs (w_db w))" and "\<not> newer_in i (dl_id l) None (w_db w)"
    and "w' = finalizeRollback um m (quiet now) i l output err ap url w"
  shows "\<exists>s r. row_of si_id i (d_instances (w_db w')) = Some s \<and> row_of dl_id (dl_id l) (d_logs (w_db w')) = Some r
    \<and> (si_status s, dl_status r) = (if err = None then (StackStatusRunning, DeployLogSuccess) else (StackStatusError, DeployLogError))"
proof -
  let ?res = "rollback_result um err ap now inst (ended_log now output l)"
  have id: "si_id inst = i" using assms(2) by (auto dest: row_of_SomeD)
  have own: "fst (fst (ownsInstance (quiet now) i (dl_id l) [StackStatusDeploying, StackStatusStabilizing]
      (snd (find_instance (quiet now) ''finalize'' i w))))"
    using assms(2,3,5) by (auto simp: ownsInstance_def instanceOwnership_def inst_FindByID_def Let_def)
  have db: "w_db w' = (w_db w)\<lparr>d_logs := snd (log_Update None None (snd ?res) (d_logs (w_db w))),
      d_instances := snd (inst_Update None now (fst ?res) (d_instances (w_db w)))\<rparr>"
    using assms(1,2,4,6) own writeFinal_open [of "snd (ownsInstance (quiet now) i (dl_id l) [StackStatusDeploying, StackStatusStabilizing]
      (snd (find_instance (quiet now) ''finalize'' i w)))" "snd ?res" m now "fst ?res"]
    by (cases err) (simp_all add: finalizeRollback_def inst_FindByID_def Let_def)
  obtain r0 where r0: "row_of dl_id (dl_id l) (d_logs (w_db w)) = Some r0" "dl_status r0 = DeployLogRunning"
    using assms(4) by (auto simp: log_open_def)
  have "\<exists>s. row_of si_id i (d_instances (w_db w')) = Some s \<and> si_status s = si_status (fst ?res)"
    using id assms(2) by (simp add: db inst_Update_row)
  moreover have "row_of dl_id (dl_id l) (d_logs (w_db w')) = Some (snd ?res)"
    using r0 by (simp add: db log_Update_row)
  ultimately show ?thesis using rollback_result_statuses [of um err ap now inst "ended_log now output l"] by auto
qed

lemma withPodEvent_None [simp]: "withPodEvent err ev = None \<longleftrightarrow> err = None"
  by (auto simp: withPodEvent_def split: option.splits)

section \<open>Properties\<close>

text \<open>Whether Helm did what the rollback asked for, for every chart of the stack.\<close>

definition rollback_fine ::
  "deploy_config \<Rightarrow> cluster_calls \<Rightarrow> helm_calls \<Rightarrow> rollback_calls \<Rightarrow> rollback_env \<Rightarrow> rollback_target option \<Rightarrow> string \<Rightarrow> chart_deploy_info list \<Rightarrow> bool" where
  "rollback_fine cfg k h x e target namespace charts \<longleftrightarrow>
     (case target of
        None \<Rightarrow> list_all (rolls_back k h x namespace) charts
      | Some tg \<Rightarrow> rv_tmp_error e = None
          \<and> list_all (reaches_target cfg h e (kc_client k \<and> kc_ensure_namespace k = None) namespace tg) charts)"

lemma rollback_charts_effect:
  assumes "m_stabilize_timeout m \<le> 0" "dc_quotas cfg = None"
  shows "\<exists>out err ap url w1. rollback_charts um m cfg k h x e target job out0 w
      = Some (finalizeRollback um m (rv_io_final e) (si_id (j_instance job)) (j_log job) out err ap url w1)
    \<and> w_db w1 = w_db w \<and> (err = None \<longleftrightarrow> rollback_fine cfg k h x e target (si_namespace (j_instance job)) (j_charts job))"
proof (cases target)
  case None
  let ?st = "revision_loop m k h x (si_id (j_instance job)) (dl_id (j_log job)) (si_namespace (j_instance job)) (j_charts job)
    \<lparr>rs_output = out0, rs_error = None, rs_done = [], rs_requests = [], rs_world = w\<rparr>"
  have st: "w_db (rs_world ?st) = w_db w"
    "rs_error ?st = None \<longleftrightarrow> rollback_fine cfg k h x e target (si_namespace (j_instance job)) (j_charts job)"
    using revision_loop_effect [of "\<lparr>rs_output = out0, rs_error = None, rs_done = [], rs_requests = [], rs_world = w\<rparr>"] None
    by (simp_all add: rollback_fine_def)
  from None have "\<exists>ap. rollback_charts um m cfg k h x e target job out0 w
      = finish_rollback um m k e (j_instance job) (j_log job) (rs_output ?st) (rs_error ?st) ap (rs_world ?st)"
    by (auto simp: rollback_charts_def Let_def)
  with st finish_rollback_effect [OF assms(1)] show ?thesis by (metis withPodEvent_None)
next
  case (Some tg)
  let ?st = "rollbackToTarget m cfg k h e (si_id (j_instance job)) (j_log job) (si_namespace (j_instance job)) (j_charts job) tg w"
  have st: "w_db (ts_world ?st) = w_db w"
    "ts_error ?st = None \<longleftrightarrow> rollback_fine cfg k h x e target (si_namespace (j_instance job)) (j_charts job)"
    using target_loop_effect assms(2) Some
    by (auto simp: rollbackToTarget_def rollback_fine_def Let_def split: option.splits)
  from Some have "rollback_charts um m cfg k h x e target job out0 w
      = finish_rollback um m k e (j_instance job) (j_log job) (out0 @ ts_output ?st) (ts_error ?st) (ts_applied ?st) (ts_world ?st)"
    by (simp add: rollback_charts_def Let_def)
  with st finish_rollback_effect [OF assms(1)] show ?thesis by (metis withPodEvent_None)
qed

text \<open>C27. A rollback tells the truth. Without hooks, quotas and readiness wait, and while no other operation
  interferes, the goroutine ends, and the instance is running and the log successful exactly when Helm
  brought back every release: by one revision (a release with nothing to go back to is skipped), or to the
  values and versions of the target deploy; otherwise both say error.\<close>

theorem rollback_tells_truth:
  assumes "keyed dl_id (d_logs (w_db w))"
    and "row_of si_id (si_id (j_instance job)) (d_instances (w_db w)) = Some inst" and "si_status inst = StackStatusDeploying"
    and "log_open (dl_id (j_log job)) (d_logs (w_db w))"
    and "\<not> newer_in (si_id (j_instance job)) (dl_id (j_log job)) None (w_db w)"
    and "\<not> m_hooks m" and "m_stabilize_timeout m \<le> 0" and "dc_quotas cfg = None"
    and "rv_io e = quiet now" and "rv_io_final e = quiet now'"
  shows "\<exists>w' s r. executeRollback um m cfg k h x e target meta job w = Some w'
    \<and> row_of si_id (si_id (j_instance job)) (d_instances (w_db w')) = Some s
    \<and> row_of dl_id (dl_id (j_log job)) (d_logs (w_db w')) = Some r
    \<and> (si_status s, dl_status r) =
        (if rollback_fine cfg k h x e target (si_namespace (j_instance job)) (j_charts job)
         then (StackStatusRunning, DeployLogSuccess) else (StackStatusError, DeployLogError))"
proof -
  let ?i = "si_id (j_instance job)" and ?l = "j_log job"
  let ?own = "ownsAfterPreHook (quiet now) ?i (dl_id ?l) w"
  have own: "fst (fst ?own)" "w_db (snd ?own) = w_db w"
    using assms(2,3,5)
    by (simp_all add: ownsAfterPreHook_def ownsInstance_def instanceOwnership_def inst_FindByID_def Let_def)
  define D where "D = now + (runBudget m (dl_action ?l) (helmTimeoutOf (Some (j_helm_timeout job))) (length (j_charts job)) + DeadlineMargin)"
  let ?x = "extendDeadline m (quiet now) ?l (Some (j_helm_timeout job)) (length (j_charts job)) (snd ?own)"
  have x: "fst ?x = (True, later_deadline D ?l)"
      "w_db (snd ?x) = (w_db w)\<lparr>d_logs := snd (log_ExtendDeadline None None (dl_id ?l) D (d_logs (w_db w)))\<rparr>"
    using extendDeadline_effect [where w = "snd ?own" and l = ?l and D = D and m = m and now = now] assms(1,4) own(2)
    unfolding D_def by simp_all
  obtain out err ap url w1 where fin: "rollback_charts um m cfg k h x e target (job\<lparr>j_log := later_deadline D ?l\<rparr>) (hook_output m (rv_hook e)) (snd ?x)
      = Some (finalizeRollback um m (quiet now') ?i (later_deadline D ?l) out err ap url w1)"
    "w_db w1 = w_db (snd ?x)" "err = None \<longleftrightarrow> rollback_fine cfg k h x e target (si_namespace (j_instance job)) (j_charts job)"
    using rollback_charts_effect [OF assms(7,8), of um k h x e target "job\<lparr>j_log := later_deadline D ?l\<rparr>" "hook_output m (rv_hook e)" "snd ?x"]
      assms(10) by auto
  have run: "executeRollback um m cfg k h x e target meta job w
      = Some (drop_trigger (dl_id ?l) (finalizeRollback um m (quiet now') ?i (later_deadline D ?l) out err ap url w1))"
    using own(1) x(1) fin(1) assms(6,9) by (simp add: executeRollback_def firePreHook_def Let_def)
  have hyps: "keyed dl_id (d_logs (w_db w1))" "row_of si_id ?i (d_instances (w_db w1)) = Some inst"
      "si_status inst \<in> {StackStatusDeploying, StackStatusStabilizing}" "log_open (dl_id (later_deadline D ?l)) (d_logs (w_db w1))"
      "\<not> newer_in ?i (dl_id (later_deadline D ?l)) None (w_db w1)"
    using assms(1-5) by (simp_all add: fin(2) x(2) keyed_log_ExtendDeadline newer_in_deadline)
  from finalizeRollback_effect [OF hyps refl, of um m now' out err ap url] fin(3) show ?thesis
    unfolding run by (auto simp: later_deadline_simps)
qed

text \<open>A rollback to a target touches only what the target deploy had: every request to Helm is for a chart of the stack
  that the target contains and that passes the allowlist, in the version that the target recorded when it
  recorded one.\<close>

theorem target_rollback_confined:
  assumes "req \<in> set (ts_requests (rollbackToTarget m cfg k h e instanceID l namespace charts tg w))"
  shows "\<exists>c\<in>set charts. \<exists>vals. map_of (tg_values tg) (cc_chart_name (ci_config c)) = Some vals
    \<and> ir_release req = cc_chart_name (ci_config c) \<and> ir_namespace req = namespace
    \<and> checkChartSource (dc_allowed_sources cfg) (cc_repository_url (ci_config c)) (cc_chart_path (ci_config c)) (ir_release req) = None
    \<and> (\<forall>v. map_of (tg_versions tg) (ir_release req) = Some v \<and> v \<noteq> [] \<longrightarrow> ir_version req = v)"
proof -
  from assms have "\<exists>r st. ts_requests st = [] \<and> req \<in> set (ts_requests (target_loop m cfg k h e r instanceID l namespace tg charts st))"
    by (auto simp: rollbackToTarget_def Let_def split: option.splits if_splits) (metis target_state.simps)+
  then obtain r st where r: "ts_requests st = []" "req \<in> set (ts_requests (target_loop m cfg k h e r instanceID l namespace tg charts st))"
    by blast
  from target_loop_requests [OF r(2)] r(1) obtain c vals where
    "c \<in> set charts" "map_of (tg_values tg) (cc_chart_name (ci_config c)) = Some vals" "req = target_request r namespace tg vals (ci_config c)"
    "checkChartSource (dc_allowed_sources cfg) (cc_repository_url (ci_config c)) (cc_chart_path (ci_config c)) (cc_chart_name (ci_config c)) = None"
    by (auto simp: target_allows_def)
  then show ?thesis by (auto simp: target_request_def chart_version_for_def lookup_string_def Let_def intro!: bexI [of _ c])
qed

text \<open>A shutdown during the readiness wait is an error of a deploy but not of a rollback: with the same answers of the
  wait, the deploy ends with the error that it was interrupted, while the rollback is finalized without
  an error, so the instance shows running although nobody saw its pods ready.\<close>

theorem interrupted_rollback_succeeds:
  assumes "awaitReadiness m io (si_id inst) (dl_id l) early polls w = Some ((st, Some ReadinessInterrupted), w1)"
    and "0 < m_stabilize_timeout m" and "kc_client k"
    and "de_io_ready e = io" and "de_early e = early" and "de_polls e = polls"
    and "rv_io_ready r = io" and "rv_early r = early" and "rv_polls r = polls"
  shows "(\<exists>res w'. deploy_readiness m e (si_id inst) (dl_id l) w = Some (res, w') \<and> rr_error res = Some (ESentinel ErrDeployInterrupted))
    \<and> (\<exists>out url. finish_rollback um m k r inst l output None applied w
          = Some (finalizeRollback um m (rv_io_final r) (si_id inst) l out None applied url w1))"
  using assms by (auto simp: deploy_readiness_def finish_rollback_def rollbackReadiness_def withPodEvent_def Let_def)

section \<open>Examples\<close>

definition example_rollback_env :: rollback_env where
  "example_rollback_env = \<lparr>rv_io = quiet 4, rv_io_ready = quiet 7, rv_io_final = quiet 9, rv_hook = \<lparr>ph_ticks = [], ph_lines = [], ph_error = None\<rparr>,
     rv_tmp_error = None, rv_values_error = (\<lambda>_. None), rv_pod_lines = [], rv_pod_event = [], rv_early = None, rv_polls = [], rv_read_status = None\<rparr>"

definition example_rollback :: rollback_calls where
  "example_rollback = \<lparr>rk_history = (\<lambda>_. Inr [1, 2]),
     rk_rollback = (\<lambda>name rev. (''rolled back'', if name = ''db'' then Some (EText ''exit status 1'') else None)),
     rk_values = (\<lambda>_. None), rk_pod_lines = (\<lambda>_. [])\<rparr>"

theorem rollback_tells_truth_witness:
  "\<exists>w' s r. executeRollback (\<lambda>_. None) (example_manager\<lparr>m_hooks := False, m_stabilize_timeout := 0\<rparr>) example_config example_cluster (example_helm [])
      example_rollback example_rollback_env None [] ((example_job example_instance (example_log ''a'' 1 DeployLogRunning))\<lparr>j_charts := [example_chart ''db'' 1, example_chart ''web'' 2]\<rparr>)
      (example_world [example_instance\<lparr>si_status := StackStatusDeploying\<rparr>] [example_log ''a'' 1 DeployLogRunning] []) = Some w'
    \<and> row_of si_id ''i1'' (d_instances (w_db w')) = Some s \<and> row_of dl_id ''a'' (d_logs (w_db w')) = Some r
    \<and> (si_status s, dl_status r) = (StackStatusError, DeployLogError)"
proof -
  let ?l = "example_log ''a'' 1 DeployLogRunning" and ?inst = "example_instance\<lparr>si_status := StackStatusDeploying\<rparr>"
  let ?w = "example_world [?inst] [?l] []"
  define job where "job = (example_job example_instance ?l)\<lparr>j_charts := [example_chart ''db'' 1, example_chart ''web'' 2]\<rparr>"
  have job: "j_instance job = example_instance" "j_log job = ?l" "j_charts job = [example_chart ''db'' 1, example_chart ''web'' 2]"
    by (simp_all add: job_def)
  have newer: "\<not> newer_in (si_id (j_instance job)) (dl_id (j_log job)) None (w_db ?w)"
    by (simp add: job newer_in_def log_ListLatestByActions_def query_def newest_first_def allLogActions_def latest_columns_def)
  have rows: "keyed dl_id (d_logs (w_db ?w))" "row_of si_id (si_id (j_instance job)) (d_instances (w_db ?w)) = Some ?inst"
      "log_open (dl_id (j_log job)) (d_logs (w_db ?w))"
    by (simp_all add: job log_open_def)
  have env: "dc_quotas example_config = None" "rv_io example_rollback_env = quiet 4" "rv_io_final example_rollback_env = quiet 9"
    by (simp_all add: example_config_def example_rollback_env_def)
  have "\<not> rollback_fine example_config example_cluster (example_helm []) example_rollback example_rollback_env None
      (si_namespace (j_instance job)) (j_charts job)"
    by (simp add: rollback_fine_def job rolls_back_def stuck_release_def recoverPendingRelease_def example_helm_def example_rollback_def
        example_chart_def Let_def)
  then show ?thesis
    using rollback_tells_truth [OF rows(1,2) _ rows(3) newer _ _ env, where m = "example_manager\<lparr>m_hooks := False, m_stabilize_timeout := 0\<rparr>"
        and um = "\<lambda>_. None" and k = example_cluster and h = "example_helm []" and x = example_rollback and target = None and meta = "[]"]
    unfolding job_def [symmetric] by (simp add: job)
qed

definition example_target :: rollback_target where
  "example_target = \<lparr>tg_values = [(''web'', ''a: 1'')], tg_versions = [(''web'', ''1.2'')], tg_registry = None\<rparr>"

lemma example_target_request:
  "target_request True ''ns'' example_target ''a: 1'' (ci_config (example_chart ''web'' 2))
   \<in> set (ts_requests (rollbackToTarget example_manager example_config example_cluster (example_helm []) example_rollback_env ''i1''
       (example_log ''a'' 1 DeployLogRunning) ''ns'' [example_chart ''db'' 1, example_chart ''web'' 2] example_target (example_world [] [] [])))"
  by (simp add: rollbackToTarget_def example_rollback_env_def example_cluster_def example_config_def example_target_def example_chart_def
      checkChartSource_def recoverPendingRelease_def example_helm_def target_request_def Let_def)

theorem target_rollback_confined_witness:
  "ir_version (target_request True ''ns'' example_target ''a: 1'' (ci_config (example_chart ''web'' 2))) = ''1.2''"
  using target_rollback_confined [OF example_target_request]
  by (auto simp: example_target_def target_request_def example_chart_def Let_def)

lemma example_interrupted:
  "awaitReadiness example_manager (quiet 7) (si_id example_instance) (dl_id (example_log ''a'' 1 DeployLogRunning)) (Some None) [] (example_world [] [] [])
   = Some ((None, Some ReadinessInterrupted), example_world [] [] [])"
  by (simp add: awaitReadiness_def readinessAfterShutdown_def)

theorem interrupted_rollback_succeeds_witness:
  "\<exists>out url. finish_rollback (\<lambda>_. None) example_manager example_cluster (example_rollback_env\<lparr>rv_early := Some None\<rparr>) example_instance
      (example_log ''a'' 1 DeployLogRunning) [] None [] (example_world [] [] [])
    = Some (finalizeRollback (\<lambda>_. None) example_manager (quiet 9) ''i1'' (example_log ''a'' 1 DeployLogRunning) out None [] url (example_world [] [] []))"
  using interrupted_rollback_succeeds [OF example_interrupted, of example_cluster "example_env\<lparr>de_early := Some None\<rparr>"
      "example_rollback_env\<lparr>rv_early := Some None\<rparr>" "\<lambda>_. None" "[]" "[]"]
  by (simp add: example_manager_def example_cluster_def example_env_def example_rollback_env_def)

end
