(* ===== verification/Retention.thy ===== *)
theory Retention
  imports Manager "HOL-Library.Word" "HOL-Library.Multiset"
begin

text \<open>
  Log retention (\<open>internal/database/retention_repository.go\<close>, \<open>internal/retention/worker.go\<close>,
  \<open>internal/config/retention.go\<close>): the leader deletes old rows of five tables in batches. The
  deployment logs have keep rules: an instance that exists keeps the logs that a rollback, the
  history view and the drift check read. The contract of a table that can be deleted from in batches
  is the locale \<open>batch_scope\<close>; the deployment logs and the tables that only have an age interpret it.
\<close>

section \<open>Delete in batches\<close>

abbreviation DefaultRetentionBatchSize :: int where "DefaultRetentionBatchSize \<equiv> 1000"
abbreviation DefaultDeployLogRetentionBatchSize :: int where "DefaultDeployLogRetentionBatchSize \<equiv> 100"

datatype retention_error = ContextEnded | RetentionFailed repo_error

text \<open>
  What one round of the loop meets: whether the context has ended, what other processes write before
  the two statements, the clock of the database and a fault for each of them, the order in which the
  database returns the identifiers (the query has no \<open>ORDER BY\<close>), and whether the context ends in the pause.
\<close>

record 's batch_round =
  rb_cancelled :: bool
  rb_env_select :: "'s \<Rightarrow> 's"
  rb_now_select :: gtime
  rb_fault_select :: fault
  rb_order :: "string list \<Rightarrow> string list"
  rb_env_delete :: "'s \<Rightarrow> 's"
  rb_now_delete :: gtime
  rb_fault_delete :: fault
  rb_pause_ended :: bool

text \<open>The two statements of a batch on the rows of a table.\<close>

definition select_ids :: "('r \<Rightarrow> string) \<Rightarrow> ('r \<Rightarrow> bool) \<Rightarrow> 'r list \<Rightarrow> string list" where
  "select_ids key p t = map key (filter p t)"

definition delete_ids :: "('r \<Rightarrow> string) \<Rightarrow> ('r \<Rightarrow> bool) \<Rightarrow> string list \<Rightarrow> 'r list \<Rightarrow> 'r list" where
  "delete_ids key p ids t = filter (\<lambda>r. \<not> (p r \<and> key r \<in> set ids)) t"

definition batch_ids ::
  "('r \<Rightarrow> string) \<Rightarrow> ('s \<Rightarrow> 'r list) \<Rightarrow> (gtime \<Rightarrow> 's \<Rightarrow> 'r \<Rightarrow> bool) \<Rightarrow> nat \<Rightarrow> 's batch_round \<Rightarrow> 's \<Rightarrow> string list" where
  "batch_ids key rows selectScope batchSize r s =
     take batchSize (rb_order r (select_ids key (selectScope (rb_now_select r) s) (rows s)))"

text \<open>
  The loop over the rounds; \<open>None\<close> when the given rounds do not suffice. \<open>selectScope\<close> and
  \<open>deleteScope\<close> take the clock of their statement, \<open>rows\<close> and \<open>put\<close> give access to the table.
\<close>

fun batch_loop ::
  "('r \<Rightarrow> string) \<Rightarrow> ('s \<Rightarrow> 'r list) \<Rightarrow> ('r list \<Rightarrow> 's \<Rightarrow> 's) \<Rightarrow> (gtime \<Rightarrow> 's \<Rightarrow> 'r \<Rightarrow> bool) \<Rightarrow> (gtime \<Rightarrow> 's \<Rightarrow> 'r \<Rightarrow> bool)
   \<Rightarrow> nat \<Rightarrow> 's batch_round list \<Rightarrow> nat \<Rightarrow> 's \<Rightarrow> ((nat \<times> retention_error option) \<times> 's) option" where
  "batch_loop key rows put selectScope deleteScope batchSize [] removed s = None"
| "batch_loop key rows put selectScope deleteScope batchSize (r # rs) removed s =
     (if rb_cancelled r then Some ((removed, Some ContextEnded), s)
      else
        (let s1 = rb_env_select r s
         in case rb_fault_select r of
              Some e \<Rightarrow> Some ((removed, Some (RetentionFailed (DatabaseError ''retention_select'' e))), s1)
            | None \<Rightarrow>
                (let ids = batch_ids key rows selectScope batchSize r s1
                 in if ids = [] then Some ((removed, None), s1)
                    else
                      (let s2 = rb_env_delete r s1
                       in case rb_fault_delete r of
                            Some e \<Rightarrow> Some ((removed, Some (RetentionFailed (DatabaseError ''retention_delete'' e))), s2)
                          | None \<Rightarrow>
                              (let t = delete_ids key (deleteScope (rb_now_delete r) s2) ids (rows s2);
                                   removed' = removed + (length (rows s2) - length t);
                                   s3 = put t s2
                               in if length ids < batchSize then Some ((removed', None), s3)
                                  else if rb_pause_ended r then Some ((removed', Some ContextEnded), s3)
                                  else batch_loop key rows put selectScope deleteScope batchSize rs removed' s3)))))"

definition deleteInBatches where
  "deleteInBatches key rows put selectScope deleteScope batchSize rounds s =
     batch_loop key rows put selectScope deleteScope
       (nat (if batchSize \<le> 0 then DefaultRetentionBatchSize else batchSize)) rounds 0 s"

section \<open>Deployment logs\<close>

definition finishedDeployLogStatuses :: "string list" where
  "finishedDeployLogStatuses = [DeployLogSuccess, DeployLogError, DeployLogPartial]"

definition historyActions :: "string list" where
  "historyActions = [DeployActionDeploy, DeployActionRollback]"

text \<open>\<open>newer(a, b)\<close>: log \<open>a\<close> of the same instance started after \<open>b\<close>, ties by the identifier.\<close>

definition newer_log :: "deployment_log \<Rightarrow> deployment_log \<Rightarrow> bool" where
  "newer_log a b \<longleftrightarrow>
     dl_stack_instance_id a = dl_stack_instance_id b
     \<and> (dl_started_at b < dl_started_at a \<or> (dl_started_at a = dl_started_at b \<and> dl_id b < dl_id a))"

definition history_log :: "deployment_log \<Rightarrow> bool" where
  "history_log l \<longleftrightarrow> dl_action l \<in> set historyActions"

definition good_log :: "deployment_log \<Rightarrow> bool" where
  "good_log l \<longleftrightarrow> history_log l \<and> dl_status l = DeployLogSuccess"

definition deletable :: "db \<Rightarrow> deployment_log \<Rightarrow> bool" where
  "deletable d l \<longleftrightarrow>
     \<not> list_ex (\<lambda>si. si_id si = dl_stack_instance_id l) (d_instances d)
     \<or> \<not> history_log l
     \<or> (list_ex (\<lambda>nx. history_log nx \<and> newer_log nx l) (d_logs d)
        \<and> (dl_status l \<noteq> DeployLogSuccess
           \<or> ((dl_action l \<noteq> DeployActionDeploy
               \<or> list_ex (\<lambda>nd. dl_action nd = DeployActionDeploy \<and> dl_status nd = DeployLogSuccess \<and> newer_log nd l) (d_logs d))
              \<and> list_ex (\<lambda>n1. good_log n1 \<and> newer_log n1 l
                   \<and> list_ex (\<lambda>n2. good_log n2 \<and> newer_log n2 n1) (d_logs d)) (d_logs d))))"

definition finished_log :: "duration \<Rightarrow> gtime \<Rightarrow> deployment_log \<Rightarrow> bool" where
  "finished_log age dbnow l \<longleftrightarrow>
     dl_status l \<in> set finishedDeployLogStatuses \<and> dl_started_at l < dbNowMinus dbnow age"

definition put_logs :: "logs \<Rightarrow> db \<Rightarrow> db" where
  "put_logs t d = d\<lparr>d_logs := t\<rparr>"

definition expired_log :: "duration \<Rightarrow> gtime \<Rightarrow> db \<Rightarrow> deployment_log \<Rightarrow> bool" where
  "expired_log age dbnow d l \<longleftrightarrow> finished_log age dbnow l \<and> deletable d l"

definition DeleteDeploymentLogsOlderThan ::
  "duration \<Rightarrow> int \<Rightarrow> db batch_round list \<Rightarrow> db \<Rightarrow> ((nat \<times> retention_error option) \<times> db) option" where
  "DeleteDeploymentLogsOlderThan age batchSize rounds d =
     deleteInBatches dl_id d_logs put_logs (expired_log age) (\<lambda>dbnow _. finished_log age dbnow)
       (if batchSize \<le> 0 then DefaultDeployLogRetentionBatchSize else batchSize) rounds d"

section \<open>Tables that only have an age\<close>

text \<open>Audit logs, notifications, delivery logs and action runs: the identifier and the time of a row.\<close>

type_synonym aged_row = "string \<times> gtime"

definition aged :: "duration \<Rightarrow> gtime \<Rightarrow> aged_row list \<Rightarrow> aged_row \<Rightarrow> bool" where
  "aged age dbnow t r \<longleftrightarrow> snd r < dbNowMinus dbnow age"

definition put_rows_of :: "aged_row list \<Rightarrow> aged_row list \<Rightarrow> aged_row list" where
  "put_rows_of t s = t"

definition DeleteOlderThan ::
  "duration \<Rightarrow> int \<Rightarrow> aged_row list batch_round list \<Rightarrow> aged_row list
   \<Rightarrow> ((nat \<times> retention_error option) \<times> aged_row list) option" where
  "DeleteOlderThan age = deleteInBatches fst (\<lambda>t. t) put_rows_of (aged age) (aged age)"

section \<open>Configuration and worker\<close>

record retention_config =
  rt_err :: "string option"
  rt_interval :: duration
  rt_deploy_log_days :: int
  rt_audit_log_days :: int
  rt_notification_days :: int
  rt_delivery_log_days :: int
  rt_action_run_days :: int

abbreviation maxRetentionDays :: int where "maxRetentionDays \<equiv> 36500"

definition Enabled :: "retention_config \<Rightarrow> bool" where
  "Enabled c \<longleftrightarrow> rt_deploy_log_days c > 0 \<or> rt_audit_log_days c > 0 \<or> rt_notification_days c > 0
     \<or> rt_delivery_log_days c > 0 \<or> rt_action_run_days c > 0"

definition retention_settings :: "retention_config \<Rightarrow> (string \<times> int) list" where
  "retention_settings c =
     [(''DEPLOY_LOG_RETENTION_DAYS'', rt_deploy_log_days c), (''AUDIT_LOG_RETENTION_DAYS'', rt_audit_log_days c),
      (''NOTIFICATION_RETENTION_DAYS'', rt_notification_days c), (''DELIVERY_LOG_RETENTION_DAYS'', rt_delivery_log_days c),
      (''ACTION_RUN_RETENTION_DAYS'', rt_action_run_days c)]"

definition Validate :: "retention_config \<Rightarrow> string option" where
  "Validate c =
     (case rt_err c of
        Some e \<Rightarrow> Some e
      | None \<Rightarrow>
          (case find (\<lambda>s. snd s < 0 \<or> snd s > maxRetentionDays) (retention_settings c) of
             Some s \<Rightarrow> Some (fst s @ '' must be between 0 (keep forever) and 36500'')
           | None \<Rightarrow>
               if rt_interval c \<noteq> 0 \<and> rt_interval c < Minute
               then Some ''LOG_RETENTION_INTERVAL must be at least 1m'' else None))"

text \<open>\<open>time.Duration(t.days) * day\<close> in 64-bit arithmetic.\<close>

abbreviation retention_day :: int where "retention_day \<equiv> 24 * Hour"

definition retention_age :: "int \<Rightarrow> duration" where
  "retention_age days = sint ((word_of_int days :: 64 word) * word_of_int retention_day)"

text \<open>The five tables that the worker deletes from.\<close>

record retained =
  re_db :: db
  re_audit_logs :: "aged_row list"
  re_notifications :: "aged_row list"
  re_delivery_logs :: "aged_row list"
  re_action_runs :: "aged_row list"

text \<open>
  One run, table by table. \<open>ctx_done i\<close> says whether the leader term has ended before table \<open>i\<close>, and
  \<open>ctx_after i\<close> whether it has ended when the delete of table \<open>i\<close> returned an error.
\<close>

datatype retention_table = TableDeploymentLogs | TableAuditLogs | TableNotifications | TableDeliveryLogs | TableActionRuns

record retention_rounds =
  rr_logs :: "db batch_round list"
  rr_aged :: "retention_table \<Rightarrow> aged_row list batch_round list"

definition aged_table ::
  "(retained \<Rightarrow> aged_row list) \<Rightarrow> (aged_row list \<Rightarrow> retained \<Rightarrow> retained) \<Rightarrow> duration \<Rightarrow> int \<Rightarrow> aged_row list batch_round list
   \<Rightarrow> retained \<Rightarrow> ((nat \<times> retention_error option) \<times> retained) option" where
  "aged_table get upd age batchSize rounds s =
     map_option (\<lambda>r. (fst r, upd (snd r) s)) (DeleteOlderThan age batchSize rounds (get s))"

definition delete_table ::
  "retention_table \<Rightarrow> duration \<Rightarrow> int \<Rightarrow> retention_rounds \<Rightarrow> retained \<Rightarrow> ((nat \<times> retention_error option) \<times> retained) option" where
  "delete_table tb age batchSize rounds s =
     (case tb of
        TableDeploymentLogs \<Rightarrow>
          map_option (\<lambda>r. (fst r, s\<lparr>re_db := snd r\<rparr>)) (DeleteDeploymentLogsOlderThan age batchSize (rr_logs rounds) (re_db s))
      | TableAuditLogs \<Rightarrow> aged_table re_audit_logs (\<lambda>t. re_audit_logs_update (\<lambda>_. t)) age batchSize (rr_aged rounds tb) s
      | TableNotifications \<Rightarrow> aged_table re_notifications (\<lambda>t. re_notifications_update (\<lambda>_. t)) age batchSize (rr_aged rounds tb) s
      | TableDeliveryLogs \<Rightarrow> aged_table re_delivery_logs (\<lambda>t. re_delivery_logs_update (\<lambda>_. t)) age batchSize (rr_aged rounds tb) s
      | TableActionRuns \<Rightarrow> aged_table re_action_runs (\<lambda>t. re_action_runs_update (\<lambda>_. t)) age batchSize (rr_aged rounds tb) s)"

definition retention_days :: "retention_config \<Rightarrow> (retention_table \<times> int) list" where
  "retention_days c =
     [(TableDeploymentLogs, rt_deploy_log_days c), (TableAuditLogs, rt_audit_log_days c),
      (TableNotifications, rt_notification_days c), (TableDeliveryLogs, rt_delivery_log_days c),
      (TableActionRuns, rt_action_run_days c)]"

fun run_tables ::
  "(retention_table \<Rightarrow> bool) \<Rightarrow> (retention_table \<Rightarrow> bool) \<Rightarrow> int \<Rightarrow> retention_rounds \<Rightarrow> (retention_table \<times> int) list
   \<Rightarrow> (retention_table \<times> nat) list \<Rightarrow> retained \<Rightarrow> ((retention_table \<times> nat) list \<times> retained) option" where
  "run_tables ctx_done ctx_after batchSize rounds [] deleted s = Some (deleted, s)"
| "run_tables ctx_done ctx_after batchSize rounds ((tb, days) # ts) deleted s =
     (if days \<le> 0 then run_tables ctx_done ctx_after batchSize rounds ts deleted s
      else if ctx_done tb then Some (deleted, s)
      else case delete_table tb (retention_age days) batchSize rounds s of
             None \<Rightarrow> None
           | Some ((n, err), s') \<Rightarrow>
               if err \<noteq> None \<and> ctx_after tb then Some (deleted @ [(tb, n)], s')
               else run_tables ctx_done ctx_after batchSize rounds ts (deleted @ [(tb, n)]) s')"

definition retention_RunOnce ::
  "(retention_table \<Rightarrow> bool) \<Rightarrow> (retention_table \<Rightarrow> bool) \<Rightarrow> int \<Rightarrow> retention_rounds \<Rightarrow> retention_config \<Rightarrow> retained
   \<Rightarrow> ((retention_table \<times> nat) list \<times> retained) option" where
  "retention_RunOnce ctx_done ctx_after batchSize rounds c s =
     run_tables ctx_done ctx_after batchSize rounds (retention_days c) [] s"

section \<open>The contract of a batched delete\<close>

text \<open>Other processes rest and the answers of the database are some of the asked identifiers.\<close>

definition calm_round :: "'s batch_round \<Rightarrow> bool" where
  "calm_round r \<longleftrightarrow> rb_env_select r = id \<and> rb_env_delete r = id \<and> (\<forall>ids. mset (rb_order r ids) = mset ids)"

definition working_round :: "gtime \<Rightarrow> 's batch_round \<Rightarrow> bool" where
  "working_round dbnow r \<longleftrightarrow> calm_round r \<and> \<not> rb_cancelled r \<and> \<not> rb_pause_ended r
     \<and> rb_fault_select r = None \<and> rb_fault_delete r = None \<and> rb_now_select r = dbnow \<and> rb_now_delete r = dbnow"

lemma order_set: "calm_round r \<Longrightarrow> set (rb_order r ids) = set ids"
  by (metis calm_round_def set_mset_mset)

lemma order_length: "calm_round r \<Longrightarrow> length (rb_order r ids) = length ids"
  by (metis calm_round_def size_mset)

lemma order_distinct: "calm_round r \<Longrightarrow> distinct ids \<Longrightarrow> distinct (rb_order r ids)"
  by (metis calm_round_def mset_eq_imp_distinct_iff)

lemma keyed_select:
  assumes "keyed key t" "set ids \<subseteq> set (select_ids key p t)" "r \<in> set t" "key r \<in> set ids"
  shows "p r"
proof -
  from assms(2,4) obtain r' where "r' \<in> set t" "p r'" "key r' = key r"
    by (auto simp: select_ids_def)
  with assms(1,3) show ?thesis by (metis (mono_tags, lifting) row_of_Some_iff option.inject)
qed

lemma length_ids:
  assumes "keyed key t" "distinct ids" "set ids \<subseteq> key ` set t"
  shows "length (filter (\<lambda>r. key r \<in> set ids) t) = length ids"
proof -
  have "distinct (map key (filter (\<lambda>r. key r \<in> set ids) t))"
    using keyed_filter [OF assms(1)] by (simp add: keyed_def)
  moreover have "set (map key (filter (\<lambda>r. key r \<in> set ids) t)) = set ids"
    using assms(3) by auto
  ultimately have "length (map key (filter (\<lambda>r. key r \<in> set ids) t)) = length ids"
    using assms(2) by (metis distinct_card)
  then show ?thesis by simp
qed

locale batch_scope =
  fixes key :: "'r \<Rightarrow> string" and rows :: "'s \<Rightarrow> 'r list" and put :: "'r list \<Rightarrow> 's \<Rightarrow> 's"
    and sel :: "gtime \<Rightarrow> 's \<Rightarrow> 'r \<Rightarrow> bool" and del :: "gtime \<Rightarrow> 's \<Rightarrow> 'r \<Rightarrow> bool"
  assumes rows_put [simp]: "rows (put t s) = t"
    and put_put [simp]: "put t (put u s) = put t s"
    and put_rows [simp]: "put (rows s) s = s"
    and sel_del: "sel n s r \<Longrightarrow> del n s r"
    and sel_stable: "(\<And>r. r \<in> set (rows s) \<Longrightarrow> \<not> q r \<Longrightarrow> \<exists>m. sel m s r) \<Longrightarrow> r \<in> set (rows s) \<Longrightarrow> q r
      \<Longrightarrow> sel n (put (filter q (rows s)) s) r = sel n s r"
begin

text \<open>Whatever fails and whenever the run ends: every row that is gone was selected at some time.\<close>

lemma removes_selected:
  assumes "batch_loop key rows put sel del b rounds c s = Some (res, s')" "\<forall>r\<in>set rounds. calm_round r" "keyed key (rows s)"
  shows "\<exists>q. s' = put (filter q (rows s)) s \<and> (\<forall>r\<in>set (rows s). \<not> q r \<longrightarrow> (\<exists>x\<in>set rounds. sel (rb_now_select x) s r))"
  using assms
proof (induction rounds arbitrary: c s)
  case (Cons r rs)
  have stay: "\<exists>q. s = put (filter q (rows s)) s \<and> (\<forall>x\<in>set (rows s). \<not> q x \<longrightarrow> (\<exists>y\<in>set (r # rs). sel (rb_now_select y) s x))"
    by (rule exI [of _ "\<lambda>_. True"]) simp
  define ids where "ids = batch_ids key rows sel b r s"
  define q where "q = (\<lambda>x. \<not> (del (rb_now_delete r) s x \<and> key x \<in> set ids))"
  have calm: "calm_round r" "rb_env_select r = id" "rb_env_delete r = id" using Cons.prems(2) by (simp_all add: calm_round_def)
  have sub: "set ids \<subseteq> set (select_ids key (sel (rb_now_select r) s) (rows s))"
    unfolding ids_def batch_ids_def using order_set [OF calm(1)] by (metis set_take_subset)
  have gone: "sel (rb_now_select r) s x" if "x \<in> set (rows s)" "\<not> q x" for x
    using keyed_select [OF Cons.prems(3) sub that(1)] that(2) by (auto simp: q_def)
  have t: "delete_ids key (del (rb_now_delete r) s) ids (rows s) = filter q (rows s)"
    by (simp add: delete_ids_def q_def)
  show ?case
  proof (cases "rb_cancelled r \<or> rb_fault_select r \<noteq> None \<or> ids = [] \<or> rb_fault_delete r \<noteq> None")
    case True
    then have "s' = s"
      using Cons.prems(1) calm(2,3) by (auto simp: Let_def ids_def split: if_splits option.splits)
    with stay show ?thesis by simp
  next
    case False
    show ?thesis
    proof (cases "length ids < b \<or> rb_pause_ended r")
      case True
      then have "s' = put (filter q (rows s)) s"
        using False Cons.prems(1) calm(2,3) by (auto simp: Let_def t simp flip: ids_def split: if_splits)
      with gone show ?thesis by (intro exI [of _ q]) auto
    next
      case more: False
      let ?s = "put (filter q (rows s)) s"
      obtain c' where run: "batch_loop key rows put sel del b rs c' ?s = Some (res, s')"
        using False more Cons.prems(1) calm(2,3) by (auto simp: Let_def t simp flip: ids_def)
      have "keyed key (rows ?s)" using keyed_filter [OF Cons.prems(3)] by simp
      from Cons.IH [OF run _ this] Cons.prems(2) obtain q' where q': "s' = put (filter q' (rows ?s)) ?s" "\<forall>x\<in>set (rows ?s). \<not> q' x \<longrightarrow> (\<exists>y\<in>set rs. sel (rb_now_select y) ?s x)"
        by auto
      have "sel m ?s x = sel m s x" if "x \<in> set (rows s)" "q x" for m x
        using sel_stable [of s q] gone that by blast
      with q'(2) gone have "\<forall>x\<in>set (rows s). \<not> (q x \<and> q' x) \<longrightarrow> (\<exists>y\<in>set (r # rs). sel (rb_now_select y) s x)" by auto
      moreover have "s' = put (filter (\<lambda>x. q x \<and> q' x) (rows s)) s"
        using q'(1) by (simp add: conj_commute)
      ultimately show ?thesis by (intro exI [of _ "\<lambda>x. q x \<and> q' x"] conjI)
    qed
  qed
qed simp

text \<open>An undisturbed run with enough rounds is the one delete statement that MySQL does not accept.\<close>

lemma batches_are_one_delete:
  assumes "\<forall>r\<in>set rounds. working_round n r" "keyed key (rows s)" "0 < b"
    "length (filter (sel n s) (rows s)) < length rounds * b"
  shows "batch_loop key rows put sel del b rounds c s
    = Some ((c + length (filter (sel n s) (rows s)), None), put (filter (\<lambda>r. \<not> sel n s r) (rows s)) s)"
  using assms
proof (induction rounds arbitrary: c s)
  case (Cons r rs)
  define ids where "ids = batch_ids key rows sel b r s"
  define q where "q = (\<lambda>x. key x \<notin> set ids)"
  let ?s = "put (filter q (rows s)) s" and ?m = "length (filter (sel n s) (rows s))"
  have w: "calm_round r" "rb_env_select r = id" "rb_env_delete r = id" "\<not> rb_cancelled r" "\<not> rb_pause_ended r"
    "rb_fault_select r = None" "rb_fault_delete r = None" "rb_now_select r = n" "rb_now_delete r = n"
    using Cons.prems(1) by (simp_all add: working_round_def calm_round_def)
  have sub: "set ids \<subseteq> set (select_ids key (sel n s) (rows s))"
    unfolding ids_def batch_ids_def w using order_set [OF w(1)] by (metis set_take_subset)
  have dist: "distinct ids"
    using Cons.prems(2) order_distinct [OF w(1)] keyed_filter [OF Cons.prems(2)]
    by (simp add: ids_def batch_ids_def w select_ids_def keyed_def)
  have len: "length ids = min b ?m"
    by (simp add: ids_def batch_ids_def w order_length [OF w(1)] select_ids_def min.commute)
  have picked: "sel n s x" if "x \<in> set (rows s)" "\<not> q x" for x
    using keyed_select [OF Cons.prems(2) sub that(1)] that(2) by (auto simp: q_def)
  have t: "delete_ids key (del n s) ids (rows s) = filter q (rows s)"
    unfolding delete_ids_def q_def using picked sel_del by (intro filter_cong) (auto simp: q_def)
  have stable: "sel n ?s x = sel n s x" if "x \<in> set (rows s)" "q x" for x
    using sel_stable [of s q x n] picked that by blast
  have "set ids \<subseteq> key ` set (rows s)" using sub by (auto simp: select_ids_def)
  from length_ids [OF Cons.prems(2) dist this] sum_length_filter_compl [of q "rows s"]
  have gone: "length (rows s) - length (filter q (rows s)) = length ids"
    by (simp add: q_def)
  have split: "filter (sel n ?s) (filter q (rows s)) = filter (\<lambda>x. sel n s x \<and> q x) (rows s)"
    using stable by (auto intro!: filter_cong)
  have "length (filter (\<lambda>x. \<not> q x) (rows s)) = length ids"
    using gone sum_length_filter_compl [of q "rows s"] by simp
  moreover have "filter (\<lambda>x. \<not> q x) (rows s) = filter (\<lambda>x. \<not> q x) (filter (sel n s) (rows s))"
    using picked by (auto intro!: filter_cong)
  ultimately have left: "length (filter (\<lambda>x. sel n s x \<and> q x) (rows s)) = ?m - length ids"
    using sum_length_filter_compl [of q "filter (sel n s) (rows s)"] by (simp add: conj_commute)
  have rest: "filter (\<lambda>x. \<not> sel n ?s x) (filter q (rows s)) = filter (\<lambda>x. \<not> sel n s x) (rows s)"
    using stable picked by (auto intro!: filter_cong)
  show ?case
  proof (cases "ids = []")
    case True
    then have "?m = 0" using len Cons.prems(3) by (metis length_0_conv min_def not_gr_zero)
    then show ?thesis using True w by (simp add: Let_def flip: ids_def) (simp add: filter_id_conv filter_empty_conv)
  next
    case some: False
    show ?thesis
    proof (cases "length ids < b")
      case True
      then have "?m = length ids" using len by simp
      with left have none: "filter (\<lambda>x. sel n s x \<and> q x) (rows s) = []" by simp
      then have "filter q (rows s) = filter (\<lambda>x. \<not> sel n s x) (rows s)"
        using picked by (auto simp: filter_empty_conv intro!: filter_cong)
      with True some w gone t \<open>?m = length ids\<close> show ?thesis by (simp add: Let_def flip: ids_def)
    next
      case False
      then have "length ids = b" using len by simp
      then have "batch_loop key rows put sel del b (r # rs) c s = batch_loop key rows put sel del b rs (c + b) ?s"
        using some w gone t by (simp add: Let_def flip: ids_def)
      also have "\<dots> = Some ((c + b + length (filter (sel n ?s) (rows ?s)), None), put (filter (\<lambda>x. \<not> sel n ?s x) (rows ?s)) ?s)"
        using Cons.prems(1,3,4) keyed_filter [OF Cons.prems(2)] left split \<open>length ids = b\<close> len
        by (intro Cons.IH) simp_all
      finally show ?thesis using split left rest len \<open>length ids = b\<close> by simp
    qed
  qed
qed simp

end

section \<open>The keep rules\<close>

lemma newer_log_key: "newer_log a b \<longleftrightarrow> dl_stack_instance_id a = dl_stack_instance_id b \<and> log_key b < log_key a"
  by (auto simp: newer_log_def log_key_def)

lemma newest_exists:
  assumes "finite A" "A \<noteq> {}"
  obtains m where "m \<in> A" "\<And>x. x \<in> A \<Longrightarrow> \<not> newer_log x m"
proof -
  from assms have "Max (log_key ` A) \<in> log_key ` A" by simp
  then obtain m where m: "m \<in> A" "log_key m = Max (log_key ` A)" by force
  with assms have "log_key x \<le> log_key m" if "x \<in> A" for x using that by simp
  with m(1) show thesis by (intro that [of m]) (auto simp: newer_log_key not_less)
qed

text \<open>A log that deletable logs made deletable stays deletable when those are deleted: among the logs that
  make it deletable, the newest ones are protected themselves.\<close>

lemma witness_kept:
  assumes "x \<in> set (d_logs d)" "P x" "\<And>m. m \<in> set (d_logs d) \<Longrightarrow> P m \<Longrightarrow> (\<And>y. y \<in> set (d_logs d) \<Longrightarrow> P y \<Longrightarrow> \<not> newer_log y m) \<Longrightarrow> q m"
  shows "\<exists>m\<in>set (filter q (d_logs d)). P m"
proof -
  have "finite {m \<in> set (d_logs d). P m}" "{m \<in> set (d_logs d). P m} \<noteq> {}" using assms(1,2) by auto
  then obtain m where "m \<in> {m \<in> set (d_logs d). P m}" "\<And>y. y \<in> {m \<in> set (d_logs d). P m} \<Longrightarrow> \<not> newer_log y m"
    using newest_exists by blast
  then show ?thesis using assms(3) by auto
qed

lemma newer_log_trans: "newer_log a b \<Longrightarrow> newer_log b c \<Longrightarrow> newer_log a c"
  by (auto simp: newer_log_key)

text \<open>The three protected positions of an instance that exists.\<close>

definition has_instance :: "db \<Rightarrow> string \<Rightarrow> bool" where
  "has_instance d i \<longleftrightarrow> i \<in> si_id ` set (d_instances d)"

lemma newest_protected:
  assumes "has_instance d (dl_stack_instance_id m)" "history_log m"
    "\<And>y. y \<in> set (d_logs d) \<Longrightarrow> history_log y \<Longrightarrow> \<not> newer_log y m"
  shows "\<not> deletable d m"
  using assms by (auto simp: deletable_def list_ex_iff has_instance_def)

lemma newest_deploy_protected:
  assumes "has_instance d (dl_stack_instance_id m)" "dl_action m = DeployActionDeploy" "dl_status m = DeployLogSuccess"
    "\<And>y. y \<in> set (d_logs d) \<Longrightarrow> dl_action y = DeployActionDeploy \<Longrightarrow> dl_status y = DeployLogSuccess \<Longrightarrow> \<not> newer_log y m"
  shows "\<not> deletable d m"
  using assms by (auto simp: deletable_def list_ex_iff history_log_def historyActions_def has_instance_def)

lemma two_newest_protected:
  assumes "has_instance d (dl_stack_instance_id m)" "good_log m"
    "\<And>x y. x \<in> set (d_logs d) \<Longrightarrow> good_log x \<Longrightarrow> newer_log x m \<Longrightarrow> y \<in> set (d_logs d) \<Longrightarrow> good_log y \<Longrightarrow> \<not> newer_log y x"
  shows "\<not> deletable d m"
  using assms by (auto simp: deletable_def list_ex_iff good_log_def has_instance_def)

lemma newer_same_instance: "newer_log a b \<Longrightarrow> dl_stack_instance_id a = dl_stack_instance_id b"
  by (simp add: newer_log_def)

definition spares_protected :: "db \<Rightarrow> (deployment_log \<Rightarrow> bool) \<Rightarrow> bool" where
  "spares_protected d q \<longleftrightarrow> (\<forall>x\<in>set (d_logs d). \<not> q x \<longrightarrow> deletable d x)"

lemma kept_newest:
  assumes q: "spares_protected d q" "has_instance d (dl_stack_instance_id l)"
    and x: "x \<in> set (d_logs d)" "history_log x \<and> newer_log x l"
  shows "\<exists>m\<in>set (filter q (d_logs d)). history_log m \<and> newer_log m l"
  using x
proof (rule witness_kept)
  fix m
  assume m: "m \<in> set (d_logs d)" "history_log m \<and> newer_log m l"
    "\<And>y. y \<in> set (d_logs d) \<Longrightarrow> history_log y \<and> newer_log y l \<Longrightarrow> \<not> newer_log y m"
  have "\<not> deletable d m"
    using m q(2) by (intro newest_protected) (metis newer_same_instance, blast, metis newer_log_trans)
  with m(1) q(1) show "q m" by (auto simp: spares_protected_def)
qed

lemma kept_deploy:
  assumes q: "spares_protected d q" "has_instance d (dl_stack_instance_id l)"
    and x: "x \<in> set (d_logs d)" "dl_action x = DeployActionDeploy \<and> dl_status x = DeployLogSuccess \<and> newer_log x l"
  shows "\<exists>m\<in>set (filter q (d_logs d)). dl_action m = DeployActionDeploy \<and> dl_status m = DeployLogSuccess \<and> newer_log m l"
  using x
proof (rule witness_kept)
  fix m
  assume m: "m \<in> set (d_logs d)" "dl_action m = DeployActionDeploy \<and> dl_status m = DeployLogSuccess \<and> newer_log m l"
    "\<And>y. y \<in> set (d_logs d) \<Longrightarrow> dl_action y = DeployActionDeploy \<and> dl_status y = DeployLogSuccess \<and> newer_log y l
      \<Longrightarrow> \<not> newer_log y m"
  have "\<not> deletable d m"
    using m q(2) by (intro newest_deploy_protected) (metis newer_same_instance, blast, blast, metis newer_log_trans)
  with m(1) q(1) show "q m" by (auto simp: spares_protected_def)
qed

lemma kept_good:
  assumes q: "spares_protected d q" "has_instance d (dl_stack_instance_id b)"
    and x: "x \<in> set (d_logs d)" "good_log x \<and> newer_log x b"
  shows "\<exists>m\<in>set (filter q (d_logs d)). good_log m \<and> newer_log m b"
  using x
proof (rule witness_kept)
  fix m
  assume m: "m \<in> set (d_logs d)" "good_log m \<and> newer_log m b"
    "\<And>y. y \<in> set (d_logs d) \<Longrightarrow> good_log y \<and> newer_log y b \<Longrightarrow> \<not> newer_log y m"
  have "\<not> deletable d m"
    using m q(2) by (intro two_newest_protected) (metis newer_same_instance, blast, metis newer_log_trans)
  with m(1) q(1) show "q m" by (auto simp: spares_protected_def)
qed

lemma kept_second:
  assumes q: "spares_protected d q" "has_instance d (dl_stack_instance_id l)"
    and x: "x \<in> set (d_logs d)" "good_log x \<and> newer_log x l \<and> (\<exists>y\<in>set (d_logs d). good_log y \<and> newer_log y x)"
  shows "\<exists>m\<in>set (filter q (d_logs d)). good_log m \<and> newer_log m l \<and> (\<exists>y\<in>set (d_logs d). good_log y \<and> newer_log y m)"
  using x
proof (rule witness_kept)
  fix m
  assume m: "m \<in> set (d_logs d)" "good_log m \<and> newer_log m l \<and> (\<exists>y\<in>set (d_logs d). good_log y \<and> newer_log y m)"
    "\<And>y. y \<in> set (d_logs d) \<Longrightarrow> good_log y \<and> newer_log y l \<and> (\<exists>z\<in>set (d_logs d). good_log z \<and> newer_log z y) \<Longrightarrow> \<not> newer_log y m"
  have "\<not> deletable d m"
    using m q(2) by (intro two_newest_protected) (metis newer_same_instance, blast, metis newer_log_trans)
  with m(1) q(1) show "q m" by (auto simp: spares_protected_def)
qed

lemma kept_two:
  assumes q: "spares_protected d q" "has_instance d (dl_stack_instance_id l)"
    and "x \<in> set (d_logs d)" "good_log x" "newer_log x l" "y \<in> set (d_logs d)" "good_log y" "newer_log y x"
  shows "\<exists>m\<in>set (filter q (d_logs d)). good_log m \<and> newer_log m l \<and> (\<exists>y\<in>set (filter q (d_logs d)). good_log y \<and> newer_log y m)"
proof -
  obtain m y where m: "m \<in> set (filter q (d_logs d))" "good_log m" "newer_log m l" "y \<in> set (d_logs d)" "good_log y \<and> newer_log y m"
    using kept_second [OF q, of x] assms(3-) by blast
  have "has_instance d (dl_stack_instance_id m)" using q(2) newer_same_instance [OF m(3)] by simp
  from kept_good [OF q(1) this m(4,5)] m(1-3) show ?thesis by blast
qed

lemma deletable_kept:
  assumes q: "spares_protected d q" "has_instance d (dl_stack_instance_id l)" and del: "deletable d l"
  shows "deletable (put_logs (filter q (d_logs d)) d) l"
proof (cases "history_log l")
  case True
  have ex: "list_ex (\<lambda>si. si_id si = dl_stack_instance_id l) (d_instances d)"
    using q(2) by (auto simp: has_instance_def list_ex_iff)
  from del True ex obtain nx where nx: "nx \<in> set (d_logs d)" "history_log nx \<and> newer_log nx l"
    by (auto simp: deletable_def list_ex_iff)
  note newest = kept_newest [OF q nx]
  show ?thesis
  proof (cases "dl_status l = DeployLogSuccess")
    case good: True
    from del True ex good obtain x y where "x \<in> set (d_logs d)" "good_log x" "newer_log x l" "y \<in> set (d_logs d)" "good_log y" "newer_log y x"
      by (auto simp: deletable_def list_ex_iff)
    note two = kept_two [OF q this]
    from del True ex good have "dl_action l \<noteq> DeployActionDeploy
        \<or> (\<exists>m\<in>set (filter q (d_logs d)). dl_action m = DeployActionDeploy \<and> dl_status m = DeployLogSuccess \<and> newer_log m l)"
      using kept_deploy [OF q] by (auto simp: deletable_def list_ex_iff)
    with newest two show ?thesis by (simp add: deletable_def put_logs_def list_ex_iff)
  next
    case False
    with newest show ?thesis by (auto simp: deletable_def put_logs_def list_ex_iff)
  qed
qed (simp add: deletable_def)

lemma deletable_stable:
  assumes "spares_protected d q"
  shows "deletable (put_logs (filter q (d_logs d)) d) l = deletable d l"
proof (cases "has_instance d (dl_stack_instance_id l)")
  case True
  have "deletable d l" if "deletable (put_logs (filter q (d_logs d)) d) l"
    using that unfolding deletable_def put_logs_def list_ex_iff by fastforce
  with deletable_kept [OF assms True] show ?thesis by blast
qed (auto simp: deletable_def put_logs_def list_ex_iff has_instance_def image_iff)

interpretation log_batches: batch_scope dl_id d_logs put_logs "expired_log age" "\<lambda>n _. finished_log age n" for age
proof
  fix s :: db and q r n
  assume "\<And>r. r \<in> set (d_logs s) \<Longrightarrow> \<not> q r \<Longrightarrow> \<exists>m. expired_log age m s r"
  then have "spares_protected s q" by (auto simp: expired_log_def spares_protected_def)
  then show "expired_log age n (put_logs (filter q (d_logs s)) s) r = expired_log age n s r"
    using deletable_stable by (simp add: expired_log_def)
qed (simp_all add: put_logs_def expired_log_def)

interpretation aged_batches: batch_scope fst "\<lambda>t. t" put_rows_of "aged age" "aged age" for age
  by unfold_locales (simp_all add: put_rows_of_def aged_def)

section \<open>Properties\<close>

text \<open>The deploys and rollbacks of an instance, newest first, as the readers of the history order them.\<close>

definition instance_history :: "string \<Rightarrow> db \<Rightarrow> logs" where
  "instance_history i d = keyset_order (filter (\<lambda>l. history_log l \<and> dl_stack_instance_id l = i) (d_logs d))"

definition good_deploy_log :: "deployment_log \<Rightarrow> bool" where
  "good_deploy_log l \<longleftrightarrow> dl_action l = DeployActionDeploy \<and> dl_status l = DeployLogSuccess"

lemma good_deploy_history: "good_deploy_log l \<Longrightarrow> history_log l"
  by (simp add: good_deploy_log_def history_log_def historyActions_def)

lemma take_filter_prefix: "(\<And>x. x \<in> set (take n xs) \<Longrightarrow> q x) \<Longrightarrow> take n (filter q xs) = take n xs"
  by (induction xs arbitrary: n) (auto simp: take_Cons' split: if_splits)

text \<open>In a history (strictly ordered), nothing is newer than the first entry, and of the second entry
  only the first is newer.\<close>

lemma history_strict: "keyed dl_id (d_logs d) \<Longrightarrow> sorted_wrt (\<lambda>a b. log_key b < log_key a) (filter p (instance_history i d))"
  unfolding instance_history_def by (intro sorted_wrt_filter keyset_order_strict keyed_filter)

lemma first_newest:
  assumes "sorted_wrt (\<lambda>a b. log_key b < log_key a) h" "x \<in> set (take 1 h)" "y \<in> set h"
  shows "\<not> newer_log y x"
  using assms by (cases h) (auto simp: newer_log_key)

lemma two_newest:
  assumes "sorted_wrt (\<lambda>a b. log_key b < log_key a) h" "x \<in> set (take 2 h)" "y \<in> set h" "newer_log y x" "z \<in> set h"
  shows "\<not> newer_log z y"
proof (cases h)
  case (Cons a t)
  then show ?thesis using assms by (cases t) (auto simp: newer_log_key numeral_2_eq_2 dest: less_trans)
qed (use assms in simp)

lemma history_mem:
  "y \<in> set (instance_history i d) \<longleftrightarrow> y \<in> set (d_logs d) \<and> history_log y \<and> dl_stack_instance_id y = i"
  by (auto simp: instance_history_def)

lemma history_keeps:
  assumes "spares_protected d q" "\<And>x. x \<in> set (take n (filter p (instance_history i d))) \<Longrightarrow> \<not> deletable d x"
  shows "take n (filter p (instance_history i (put_logs (filter q (d_logs d)) d))) = take n (filter p (instance_history i d))"
proof -
  have "filter p (instance_history i (put_logs (filter q (d_logs d)) d)) = filter q (filter p (instance_history i d))"
    by (simp add: instance_history_def put_logs_def keyset_order_filter conj_ac)
  moreover have "q x" if "x \<in> set (take n (filter p (instance_history i d)))" for x
  proof -
    from that have "x \<in> set (d_logs d)" using in_set_takeD by (fastforce simp: history_mem)
    with assms that show ?thesis by (auto simp: spares_protected_def)
  qed
  ultimately show ?thesis using take_filter_prefix [of n "filter p (instance_history i d)" q] by (simp only:)
qed

lemma run_spares_protected:
  assumes "DeleteDeploymentLogsOlderThan age b rounds d = Some (res, d')" "\<forall>r\<in>set rounds. calm_round r" "keyed dl_id (d_logs d)"
  obtains q where "d' = put_logs (filter q (d_logs d)) d" "spares_protected d q"
    "\<And>l. l \<in> set (d_logs d) \<Longrightarrow> \<not> q l \<Longrightarrow> \<exists>r\<in>set rounds. finished_log age (rb_now_select r) l"
proof -
  from assms log_batches.removes_selected [OF _ assms(2,3)]
  obtain q where q: "d' = put_logs (filter q (d_logs d)) d"
    "\<forall>l\<in>set (d_logs d). \<not> q l \<longrightarrow> (\<exists>r\<in>set rounds. expired_log age (rb_now_select r) d l)"
    unfolding DeleteDeploymentLogsOlderThan_def deleteInBatches_def by blast
  then show thesis by (intro that [of q]) (auto simp: spares_protected_def expired_log_def)
qed

lemma newest_stays:
  assumes "spares_protected d q" "keyed dl_id (d_logs d)" "has_instance d i"
  shows "take 1 (instance_history i (put_logs (filter q (d_logs d)) d)) = take 1 (instance_history i d)"
proof -
  have "\<not> deletable d x" if x: "x \<in> set (take 1 (filter (\<lambda>_. True) (instance_history i d)))" for x
  proof -
    have "x \<in> set (filter (\<lambda>_. True) (instance_history i d))" using x in_set_takeD by metis
    then show ?thesis using first_newest [OF history_strict [OF assms(2)] x] assms(3)
      by (intro newest_protected) (auto simp: history_mem newer_log_def)
  qed
  from history_keeps [of d q 1 "\<lambda>_. True" i, OF assms(1) this] show ?thesis by simp
qed

lemma newest_deploy_stays:
  assumes "spares_protected d q" "keyed dl_id (d_logs d)" "has_instance d i"
  shows "take 1 (filter good_deploy_log (instance_history i (put_logs (filter q (d_logs d)) d)))
    = take 1 (filter good_deploy_log (instance_history i d))"
proof (rule history_keeps [OF assms(1)])
  fix x
  assume x: "x \<in> set (take 1 (filter good_deploy_log (instance_history i d)))"
  then have "x \<in> set (filter good_deploy_log (instance_history i d))" using in_set_takeD by metis
  then show "\<not> deletable d x"
    using first_newest [OF history_strict [OF assms(2)] x] assms(3) good_deploy_history
    by (intro newest_deploy_protected) (auto simp: history_mem newer_log_def good_deploy_log_def)
qed

lemma two_newest_stay:
  assumes "spares_protected d q" "keyed dl_id (d_logs d)" "has_instance d i"
  shows "take 2 (filter good_log (instance_history i (put_logs (filter q (d_logs d)) d)))
    = take 2 (filter good_log (instance_history i d))"
proof (rule history_keeps [OF assms(1)])
  fix x
  assume x: "x \<in> set (take 2 (filter good_log (instance_history i d)))"
  then have "x \<in> set (filter good_log (instance_history i d))" using in_set_takeD by metis
  then show "\<not> deletable d x"
    using two_newest [OF history_strict [OF assms(2)] x] assms(3)
    by (intro two_newest_protected) (auto simp: history_mem newer_log_def good_log_def)
qed

text \<open>C28. Retention never takes what a rollback or the history view needs: whatever the clocks, the batch size and
  the faults, and wherever the run ends, an instance that exists keeps its newest deploy or rollback,
  its newest successful deploy and its two newest successful deploys or rollbacks, and every running log
  stays.\<close>

theorem retention_keeps_history:
  assumes run: "DeleteDeploymentLogsOlderThan age b rounds d = Some (res, d')"
    and calm: "\<forall>r\<in>set rounds. calm_round r" and keyed: "keyed dl_id (d_logs d)" and inst: "has_instance d i"
  shows "take 1 (instance_history i d') = take 1 (instance_history i d)
    \<and> take 1 (filter good_deploy_log (instance_history i d')) = take 1 (filter good_deploy_log (instance_history i d))
    \<and> take 2 (filter good_log (instance_history i d')) = take 2 (filter good_log (instance_history i d))
    \<and> (\<forall>l\<in>set (d_logs d). dl_status l = DeployLogRunning \<longrightarrow> l \<in> set (d_logs d'))"
proof -
  obtain q where d': "d' = put_logs (filter q (d_logs d)) d" and q: "spares_protected d q"
    and old: "\<And>l. l \<in> set (d_logs d) \<Longrightarrow> \<not> q l \<Longrightarrow> \<exists>r\<in>set rounds. finished_log age (rb_now_select r) l"
    using run_spares_protected [OF run calm keyed] by metis
  have "l \<in> set (d_logs d')" if "l \<in> set (d_logs d)" "dl_status l = DeployLogRunning" for l
    using old [OF that(1)] that by (auto simp: d' put_logs_def finished_log_def finishedDeployLogStatuses_def)
  with newest_stays [OF q keyed inst] newest_deploy_stays [OF q keyed inst] two_newest_stay [OF q keyed inst]
  show ?thesis unfolding d' by blast
qed

text \<open>An example: three successful deploys of one instance, the newest first in the table.\<close>

definition retention_round :: "gtime \<Rightarrow> 's batch_round" where
  "retention_round n = \<lparr>rb_cancelled = False, rb_env_select = id, rb_now_select = n, rb_fault_select = None,
     rb_order = (\<lambda>ids. ids), rb_env_delete = id, rb_now_delete = n, rb_fault_delete = None, rb_pause_ended = False\<rparr>"

definition example_history :: db where
  "example_history = empty_db\<lparr>d_instances := [example_instance\<lparr>si_id := ''i''\<rparr>],
     d_logs := map (\<lambda>p. zero_log\<lparr>dl_id := fst p, dl_stack_instance_id := ''i'', dl_action := DeployActionDeploy,
       dl_status := DeployLogSuccess, dl_started_at := snd p\<rparr>) [(''c'', 3), (''b'', 2), (''a'', 1)]\<rparr>"

lemma retention_round_ok [simp]: "working_round n (retention_round n)" "calm_round (retention_round n)"
  by (simp_all add: working_round_def calm_round_def retention_round_def)

lemma example_history_keyed: "keyed dl_id (d_logs example_history)" "has_instance example_history ''i''"
  by (simp_all add: example_history_def keyed_def has_instance_def)

lemmas retention_eval = DeleteDeploymentLogsOlderThan_def deleteInBatches_def retention_round_def batch_ids_def select_ids_def
  delete_ids_def expired_log_def finished_log_def finishedDeployLogStatuses_def dbNowMinus_def deletable_def history_log_def
  historyActions_def good_log_def newer_log_def put_logs_def

lemma example_history_run:
  "DeleteDeploymentLogsOlderThan 1000000 2 [retention_round 2000000] example_history
   = Some ((1, None), put_logs (take 2 (d_logs example_history)) example_history)"
  by (simp add: retention_eval example_history_def)

theorem retention_keeps_history_witness:
  "take 2 (filter good_log (instance_history ''i'' (put_logs (take 2 (d_logs example_history)) example_history)))
     = take 2 (filter good_log (instance_history ''i'' example_history))"
  using retention_keeps_history [OF example_history_run _ example_history_keyed] by simp

text \<open>C29. Deleting in batches is one delete: without faults and other writers, for whatever batch size and in
  whatever order the database returns identifiers, the loop ends, reports the number of
  deleted rows and removes exactly the logs that the keep rules and the age allow on the table as it was at
  the start. Enough rounds are one more than the full batches.\<close>

theorem retention_is_one_delete:
  assumes "\<forall>r\<in>set rounds. working_round dbnow r" and "keyed dl_id (d_logs d)"
    and "length (filter (expired_log age dbnow d) (d_logs d))
      < length rounds * nat (if b \<le> 0 then DefaultDeployLogRetentionBatchSize else b)"
  shows "DeleteDeploymentLogsOlderThan age b rounds d
    = Some ((length (filter (expired_log age dbnow d) (d_logs d)), None),
            d\<lparr>d_logs := filter (\<lambda>l. \<not> expired_log age dbnow d l) (d_logs d)\<rparr>)"
  using log_batches.batches_are_one_delete [OF assms(1,2), of "nat (if b \<le> 0 then 100 else b)" age 0] assms(3)
  by (auto simp: DeleteDeploymentLogsOlderThan_def deleteInBatches_def put_logs_def)

theorem retention_is_one_delete_witness:
  "DeleteDeploymentLogsOlderThan 1000000 1 [retention_round 2000000, retention_round 2000000] example_history
   = Some ((1, None), example_history\<lparr>d_logs := take 2 (d_logs example_history)\<rparr>)"
proof -
  have "filter (expired_log 1000000 2000000 example_history) (d_logs example_history) = drop 2 (d_logs example_history)"
    "filter (\<lambda>l. \<not> expired_log 1000000 2000000 example_history l) (d_logs example_history) = take 2 (d_logs example_history)"
    "length (d_logs example_history) = 3"
    by (simp_all add: retention_eval example_history_def)
  then show ?thesis
    using retention_is_one_delete [of "[retention_round 2000000, retention_round 2000000]" 2000000 example_history 1000000 1]
      example_history_keyed(1) by simp
qed

text \<open>The age that the worker computes.\<close>

lemma retention_age_exact:
  assumes "0 \<le> days" "days \<le> maxRetentionDays"
  shows "retention_age days = days * retention_day"
proof -
  have "retention_age days = signed_take_bit 63 (days * retention_day)"
    unfolding retention_age_def of_int_mult [symmetric] by (simp only: signed_of_int) simp
  also have "\<dots> = days * retention_day"
    using assms by (intro signed_take_bit_int_eq_self) simp_all
  finally show ?thesis .
qed

lemma Validate_days:
  assumes "Validate c = None" "(tb, days) \<in> set (retention_days c)"
  shows "0 \<le> days \<and> days \<le> maxRetentionDays"
  using assms by (auto simp: Validate_def retention_days_def retention_settings_def find_None_iff split: option.splits if_splits)

lemma run_tables_keeps_db:
  assumes "run_tables ctx_done ctx_after b rounds ts deleted s = Some (res, s')" "TableDeploymentLogs \<notin> fst ` set ts"
  shows "re_db s' = re_db s"
  using assms
proof (induction ctx_done ctx_after b rounds ts deleted s rule: run_tables.induct)
  case (2 ctx_done ctx_after b rounds tb days ts deleted s)
  then have "tb \<noteq> TableDeploymentLogs" by auto
  then have "re_db (snd r) = re_db s" if "delete_table tb (retention_age days) b rounds s = Some r" for r
    using that by (cases tb) (auto simp: delete_table_def aged_table_def)
  moreover have "TableDeploymentLogs \<notin> fst ` set ts" using 2(4) by auto
  ultimately show ?case using 2(3)
    by (auto dest: 2(1,2) split: if_splits option.splits)
qed simp

text \<open>A validated retention never deletes a young deployment log: a log that started within the configured number
  of days before every clock reading of the run is still there afterwards, although the age is
  computed in 64-bit arithmetic.\<close>

theorem retention_spares_young_logs:
  assumes valid: "Validate c = None"
    and run: "retention_RunOnce ctx_done ctx_after b rounds c s = Some (res, s')"
    and calm: "\<forall>r\<in>set (rr_logs rounds). calm_round r" and keyed: "keyed dl_id (d_logs (re_db s))"
    and l: "l \<in> set (d_logs (re_db s))"
    and young: "\<forall>r\<in>set (rr_logs rounds). dbNowMinus (rb_now_select r) (rt_deploy_log_days c * retention_day) \<le> dl_started_at l"
  shows "l \<in> set (d_logs (re_db s'))"
proof -
  let ?days = "rt_deploy_log_days c" and ?rest = "tl (retention_days c)"
  have rest: "re_db s' = re_db u" if "run_tables ctx_done ctx_after b rounds ?rest del u = Some (res, s')" for del u
    using run_tables_keeps_db [OF that] by (simp add: retention_days_def)
  have "0 \<le> ?days \<and> ?days \<le> maxRetentionDays"
    using Validate_days [OF valid, of TableDeploymentLogs ?days] by (simp add: retention_days_def)
  then have age: "retention_age ?days = ?days * retention_day" by (simp add: retention_age_exact)
  have kept: "l \<in> set (d_logs d')"
    if "DeleteDeploymentLogsOlderThan (retention_age ?days) b (rr_logs rounds) (re_db s) = Some (r, d')" for r d'
  proof -
    note del = that
    obtain q where q: "d' = put_logs (filter q (d_logs (re_db s))) (re_db s)"
      "\<And>l. l \<in> set (d_logs (re_db s)) \<Longrightarrow> \<not> q l
        \<Longrightarrow> \<exists>r\<in>set (rr_logs rounds). finished_log (retention_age ?days) (rb_now_select r) l"
      using run_spares_protected [OF del calm keyed] by metis
    have "q l" using q(2) [OF l] young by (fastforce simp: finished_log_def age)
    with l q(1) show ?thesis by (simp add: put_logs_def)
  qed
  have days: "retention_days c = (TableDeploymentLogs, ?days) # ?rest" by (simp add: retention_days_def)
  show ?thesis
  proof (cases "?days \<le> 0 \<or> ctx_done TableDeploymentLogs")
    case True
    then have "re_db s' = re_db s"
      using run rest by (subst (asm) retention_RunOnce_def, subst (asm) days) (auto split: if_splits)
    with l show ?thesis by simp
  next
    case False
    then obtain r d' where "DeleteDeploymentLogsOlderThan (retention_age ?days) b (rr_logs rounds) (re_db s) = Some (r, d')"
      and "re_db s' = d'"
      using run rest by (subst (asm) retention_RunOnce_def, subst (asm) days)
        (auto simp: delete_table_def split: if_splits option.splits)
    with kept show ?thesis by simp
  qed
qed

definition example_retention :: retention_config where
  "example_retention = \<lparr>rt_err = None, rt_interval = Hour, rt_deploy_log_days = 180, rt_audit_log_days = 0,
     rt_notification_days = 0, rt_delivery_log_days = 0, rt_action_run_days = 0\<rparr>"

definition example_young :: deployment_log where
  "example_young = zero_log\<lparr>dl_id := ''y'', dl_stack_instance_id := ''i'', dl_action := DeployActionDeploy,
     dl_status := DeployLogSuccess, dl_started_at := 2 * retention_day\<rparr>"

definition example_retained :: retained where
  "example_retained = \<lparr>re_db = put_logs (example_young # d_logs example_history) example_history, re_audit_logs = [],
     re_notifications = [], re_delivery_logs = [], re_action_runs = []\<rparr>"

definition example_retention_rounds :: retention_rounds where
  "example_retention_rounds = \<lparr>rr_logs = [retention_round (181 * retention_day)], rr_aged = (\<lambda>_. [])\<rparr>"

lemma example_retention_run:
  "retention_RunOnce (\<lambda>_. False) (\<lambda>_. False) 0 example_retention_rounds example_retention example_retained
   = Some ([(TableDeploymentLogs, 2)], example_retained\<lparr>re_db := put_logs (take 2 (d_logs (re_db example_retained))) example_history\<rparr>)"
  by (simp add: retention_RunOnce_def retention_days_def example_retention_def delete_table_def retention_age_exact
      example_retained_def retention_eval example_history_def example_young_def example_retention_rounds_def)

theorem retention_spares_young_logs_witness:
  "example_young \<in> set (d_logs (put_logs (take 2 (d_logs (re_db example_retained))) example_history))"
proof -
  have "Validate example_retention = None" "keyed dl_id (d_logs (re_db example_retained))"
    "example_young \<in> set (d_logs (re_db example_retained))"
    by (simp_all add: Validate_def retention_settings_def example_retention_def example_retained_def keyed_def put_logs_def
        example_history_def example_young_def)
  from retention_spares_young_logs [OF this(1) example_retention_run _ this(2,3)] show ?thesis
    by (simp add: example_retention_rounds_def example_retention_def dbNowMinus_def example_young_def)
       (simp add: retention_round_def)
qed

end
