(* ===== verification/GoNumbers.thy ===== *)
theory GoNumbers
  imports GoStrings "HOL-Library.Word" "HOL-Library.Signed_Division" "HOL-Library.Log_Nat" Complex_Main
begin

text \<open>
  Numbers of Go's standard library that the modelled code uses: \<open>int\<close> arithmetic at 64 bits,
  \<open>strconv.Atoi\<close>, \<open>float64\<close> as the rational numbers with rounding to 53 significant bits,
  \<open>time.Duration.Hours\<close> and \<open>time.Time.Sub\<close>.
\<close>

section \<open>Integers\<close>

definition wrap64 :: "int \<Rightarrow> int" where
  "wrap64 x = sint (word_of_int x :: 64 word)"

definition digit_value :: "char \<Rightarrow> nat option" where
  "digit_value c = (let n = of_char c :: nat in if 48 \<le> n \<and> n \<le> 57 then Some (n - 48) else None)"

fun digits_value :: "string \<Rightarrow> nat \<Rightarrow> nat option" where
  "digits_value [] acc = Some acc"
| "digits_value (c # cs) acc = (case digit_value c of None \<Rightarrow> None | Some d \<Rightarrow> digits_value cs (10 * acc + d))"

text \<open>\<open>strconv.Atoi\<close>: an optional sign and decimal digits within 64 bits, an error otherwise.\<close>

definition Atoi :: "string \<Rightarrow> int option" where
  "Atoi s =
     (let neg = HasPrefix s ''-''; t = (if neg \<or> HasPrefix s ''+'' then tl s else s)
      in if t = [] then None
         else (case digits_value t 0 of
                 None \<Rightarrow> None
               | Some n \<Rightarrow> (let v = (if neg then - int n else int n)
                            in if - (2 ^ 63) \<le> v \<and> v < 2 ^ 63 then Some v else None)))"

section \<open>Floats\<close>

text \<open>\<open>binade x\<close> is the exponent of the leading bit of a positive number.\<close>

definition pow2 :: "int \<Rightarrow> rat" where
  "pow2 e = (if 0 \<le> e then 2 ^ nat e else 1 / 2 ^ nat (- e))"

definition binade :: "rat \<Rightarrow> int" where
  "binade x =
     (if 1 \<le> x then int (floorlog 2 (nat \<lfloor>x\<rfloor>)) - 1
      else - int (floorlog 2 (nat (\<lceil>1 / x\<rceil> - 1))))"

definition round_even :: "rat \<Rightarrow> int" where
  "round_even x =
     (let n = \<lfloor>x\<rfloor>; r = x - of_int n
      in if r < 1 / 2 then n else if 1 / 2 < r then n + 1 else if even n then n else n + 1)"

definition float64 :: "rat \<Rightarrow> rat" where
  "float64 x =
     (if x = 0 then 0
      else (let e = binade \<bar>x\<bar> - 52 in of_int (round_even (x / pow2 e)) * pow2 e))"

section \<open>Durations\<close>

definition Duration_Hours :: "duration \<Rightarrow> rat" where
  "Duration_Hours d =
     float64 (float64 (of_int (d sdiv Hour)) + float64 (float64 (of_int (d smod Hour)) / of_int Hour))"

definition Time_Sub :: "gtime \<Rightarrow> gtime \<Rightarrow> duration" where
  "Time_Sub t u = max (- (2 ^ 63)) (min (2 ^ 63 - 1) (t - u))"

section \<open>Lemmas\<close>

lemma wrap64_small: "- (2 ^ 63) \<le> x \<Longrightarrow> x < 2 ^ 63 \<Longrightarrow> wrap64 x = x"
  by (simp add: wrap64_def signed_of_int signed_take_bit_int_eq_self)

lemma round_even_near: "\<bar>of_int (round_even x) - x\<bar> \<le> 1 / 2"
proof -
  have "0 \<le> x - of_int \<lfloor>x\<rfloor>" "x - of_int \<lfloor>x\<rfloor> < 1" by linarith+
  then show ?thesis by (auto simp: round_even_def Let_def abs_le_iff)
qed

lemma round_even_ge: "of_int k \<le> x \<Longrightarrow> k \<le> round_even x"
proof -
  assume "of_int k \<le> x"
  then have "k \<le> \<lfloor>x\<rfloor>" by (simp add: le_floor_iff)
  then show ?thesis by (auto simp: round_even_def Let_def)
qed

lemma round_even_le: "x \<le> of_int k \<Longrightarrow> round_even x \<le> k"
proof -
  assume x: "x \<le> of_int k"
  then have f: "\<lfloor>x\<rfloor> \<le> k" by linarith
  show ?thesis
  proof (cases "\<lfloor>x\<rfloor> = k")
    case True
    then have "x = of_int k" using x by linarith
    then show ?thesis by (simp add: round_even_def)
  next
    case False
    with f show ?thesis by (auto simp: round_even_def Let_def)
  qed
qed

lemma round_even_int [simp]: "round_even (of_int k) = k"
  by (simp add: round_even_def)

lemma pow2_pos [simp]: "0 < pow2 e" "0 \<le> pow2 e" "pow2 e \<noteq> 0"
  by (simp_all add: pow2_def)

lemma pow2_mono: "a \<le> b \<Longrightarrow> pow2 a \<le> pow2 b"
proof -
  assume ab: "a \<le> b"
  have "(2 :: rat) ^ nat (- b) \<le> 2 ^ nat (- a)" "(2 :: rat) ^ nat a \<le> 2 ^ nat b" using ab by (intro power_increasing; simp)+
  moreover have "1 / 2 ^ n \<le> (1 :: rat)" "(1 :: rat) \<le> 2 ^ m" for n m by simp_all
  ultimately show ?thesis
    using ab order_trans [of "1 / 2 ^ nat (- a)" 1 "2 ^ nat b :: rat"] by (auto simp: pow2_def frac_le)
qed

lemma binade_less:
  assumes "0 < x" "x < 2 ^ k"
  shows "binade x < int k"
proof (cases "1 \<le> x")
  case True
  have "\<lfloor>x\<rfloor> < 2 ^ k" using assms(2) by (simp add: floor_less_iff)
  then have "nat \<lfloor>x\<rfloor> < 2 ^ k" using True by (simp add: nat_less_iff)
  then have "floorlog 2 (nat \<lfloor>x\<rfloor>) \<le> k" by (simp add: floorlog_le_iff)
  with True show ?thesis by (simp add: binade_def)
next
  case False
  then have "1 < 1 / x" using assms(1) by simp
  then have "2 \<le> \<lceil>1 / x\<rceil>" by linarith
  then have "0 < nat (\<lceil>1 / x\<rceil> - 1)" by simp
  then have "0 < floorlog 2 (nat (\<lceil>1 / x\<rceil> - 1))" by (simp add: floorlog_def)
  with False show ?thesis by (simp add: binade_def)
qed

lemma int_on_grid: "e \<le> 0 \<Longrightarrow> (of_int n / pow2 e :: rat) = of_int (n * 2 ^ nat (- e))"
  by (cases "e = 0") (simp_all add: pow2_def)

lemma float64_bounds:
  assumes "0 \<le> x" "x < 2 ^ 53" "of_int n \<le> x"
  shows "of_int n \<le> float64 x"
proof (cases "x = 0")
  case False
  define e where "e = binade \<bar>x\<bar> - 52"
  have e: "e \<le> 0" using binade_less [of x 53] assms False by (simp add: e_def)
  have "of_int (n * 2 ^ nat (- e)) \<le> x / pow2 e"
    using assms(3) unfolding int_on_grid [OF e, symmetric] by (simp add: divide_right_mono)
  then have "n * 2 ^ nat (- e) \<le> round_even (x / pow2 e)" by (rule round_even_ge)
  then have "(of_int (n * 2 ^ nat (- e)) :: rat) \<le> of_int (round_even (x / pow2 e))" by (simp only: of_int_le_iff)
  then have "of_int n / pow2 e * pow2 e \<le> of_int (round_even (x / pow2 e)) * pow2 e"
    unfolding int_on_grid [OF e, symmetric] by (rule mult_right_mono) simp
  then show ?thesis using False by (simp add: float64_def e_def Let_def)
qed (use assms in \<open>simp add: float64_def\<close>)

lemma float64_near:
  assumes "0 \<le> x" "x < 2 ^ k"
  shows "\<bar>float64 x - x\<bar> \<le> pow2 (int k - 53) / 2"
proof (cases "x = 0")
  case False
  define e where "e = binade \<bar>x\<bar> - 52"
  have e: "e \<le> int k - 53" using binade_less [of x k] assms False by (simp add: e_def)
  have "float64 x - x = (of_int (round_even (x / pow2 e)) - x / pow2 e) * pow2 e"
    using False by (simp add: float64_def e_def Let_def left_diff_distrib)
  then have "\<bar>float64 x - x\<bar> = \<bar>of_int (round_even (x / pow2 e)) - x / pow2 e\<bar> * pow2 e"
    by (simp add: abs_mult)
  also have "\<dots> \<le> 1 / 2 * pow2 e" by (intro mult_right_mono round_even_near) simp
  also have "\<dots> \<le> pow2 (int k - 53) / 2" using pow2_mono [OF e] by simp
  finally show ?thesis .
qed (simp add: float64_def)

lemma float64_int:
  assumes "0 \<le> n" "n < 2 ^ 53"
  shows "float64 (of_int n) = of_int n"
proof (cases "n = 0")
  case False
  define e where "e = binade \<bar>of_int n\<bar> - 52"
  have "(of_int n :: rat) < 2 ^ 53" using assms(2) by (metis of_int_less_iff of_int_numeral of_int_power)
  then have e: "e \<le> 0" using binade_less [of "of_int n" 53] assms(1) False by (simp add: e_def)
  have "float64 (of_int n) = of_int (round_even (of_int n / pow2 e)) * pow2 e"
    using False by (simp add: float64_def e_def Let_def)
  also have "\<dots> = of_int (n * 2 ^ nat (- e)) * pow2 e" by (simp only: int_on_grid [OF e] round_even_int)
  also have "\<dots> = of_int n" unfolding int_on_grid [OF e, symmetric] by simp
  finally show ?thesis .
qed (simp add: float64_def)

lemma float64_nonpos: "x \<le> 0 \<Longrightarrow> float64 x \<le> 0"
  using round_even_le [of "x / pow2 (binade \<bar>x\<bar> - 52)" 0]
  by (auto simp: float64_def Let_def divide_nonpos_pos mult_nonpos_nonneg)

text \<open>The hours of a duration: at least every whole hour that has passed, and off by less than a microsecond.\<close>

lemma hours_split:
  assumes "0 \<le> d" "d < 2 ^ 63"
  obtains h f :: rat where "Duration_Hours d = float64 (h + f)" "h = of_int (d div Hour)" "0 \<le> h + f" "h + f < 2 ^ 22"
    "h \<le> h + f" "\<bar>h + f - of_int d / of_int Hour\<bar> \<le> 1 / 2 ^ 54"
proof -
  define q :: rat where "q = of_int (d mod Hour) / of_int Hour"
  have dm: "0 \<le> d div Hour" "d div Hour < 2 ^ 22 - 1" "0 \<le> d mod Hour" "d mod Hour < Hour"
    using assms by (simp_all add: zdiv_mono1 div_less_iff_less_mult less_imp_le)
  have q: "0 \<le> q" "q < 1" using dm(3,4) by (simp_all add: q_def)
  have near: "\<bar>float64 q - q\<bar> \<le> 1 / 2 ^ 54" using float64_near [of q 0] q by (simp add: pow2_def)
  have pos: "0 \<le> float64 q" using float64_bounds [of q 0] q by simp
  have ints: "float64 (of_int (d div Hour)) = of_int (d div Hour)" "float64 (of_int (d mod Hour)) = of_int (d mod Hour)"
    using dm by (intro float64_int; simp)+
  have "(of_int d :: rat) = of_int (d div Hour) * of_int Hour + of_int (d mod Hour)"
    by (metis div_mult_mod_eq of_int_add of_int_mult)
  then have "(of_int d :: rat) / of_int Hour = (of_int (d div Hour) * of_int Hour + of_int (d mod Hour)) / of_int Hour"
    by (rule arg_cong)
  also have "\<dots> = of_int (d div Hour) + q" unfolding q_def by (subst add_divide_distrib) simp
  finally have d: "(of_int d :: rat) / of_int Hour = of_int (d div Hour) + q" .
  have small: "(of_int (d div Hour) :: rat) \<le> 2 ^ 22 - 2" using dm(2) by (metis (mono_tags) of_int_le_iff of_int_diff of_int_numeral of_int_power zle_diff1_eq diff_diff_eq one_add_one)
  show thesis
  proof (rule that [of "of_int (d div Hour)" "float64 q"])
    show "Duration_Hours d = float64 (of_int (d div Hour) + float64 q)"
      using assms(1) dm ints by (cases "d = 0") (simp_all add: Duration_Hours_def signed_divide_int_def signed_modulo_int_def q_def)
    show "of_int (d div Hour) + float64 q < 2 ^ 22"
      using add_mono [OF small abs_le_D1 [OF near]] q by simp
    show "\<bar>of_int (d div Hour) + float64 q - of_int d / of_int Hour\<bar> \<le> 1 / 2 ^ 54"
      unfolding d using near by (simp only: add_diff_cancel_left)
  qed (use pos dm in simp_all)
qed

lemma hours_at_least: "0 \<le> d \<Longrightarrow> d < 2 ^ 63 \<Longrightarrow> n * Hour \<le> d \<Longrightarrow> of_int n \<le> Duration_Hours d"
proof -
  assume d: "0 \<le> d" "d < 2 ^ 63" "n * Hour \<le> d"
  then have "n \<le> d div Hour" using zdiv_mono1 [of "n * Hour" d Hour] by simp
  then have n: "(of_int n :: rat) \<le> of_int (d div Hour)" by simp
  show ?thesis
  proof (rule hours_split [OF d(1,2)])
    fix h f :: rat
    assume "Duration_Hours d = float64 (h + f)" "h = of_int (d div Hour)" "0 \<le> h + f" "h + f < 2 ^ 22" "h \<le> h + f"
    with n show ?thesis by (simp add: float64_bounds)
  qed
qed

lemma hours_not_more:
  assumes "0 \<le> d" "d < 2 ^ 63" "of_int n \<le> Duration_Hours d"
  shows "n * Hour - 1000 < d"
proof (rule hours_split [OF assms(1,2)])
  fix h f :: rat
  assume h: "Duration_Hours d = float64 (h + f)" "0 \<le> h + f" "h + f < 2 ^ 22" "\<bar>h + f - of_int d / of_int Hour\<bar> \<le> 1 / 2 ^ 54"
  have "\<bar>float64 (h + f) - (h + f)\<bar> \<le> pow2 (- 31) / 2" using float64_near [of "h + f" 22] h(2,3) by simp
  then have "float64 (h + f) - (h + f) \<le> pow2 (- 31) / 2" by (rule abs_le_D1)
  then have "of_int n - pow2 (- 31) / 2 - 1 / 2 ^ 54 \<le> of_int d / of_int Hour"
    using abs_le_D1 [OF h(4)] assms(3) h(1) by simp
  then have "(of_int n - pow2 (- 31) / 2 - 1 / 2 ^ 54) * of_int Hour \<le> of_int d"
    by (simp add: field_simps)
  then have "of_int n * of_int Hour - 1000 < (of_int d :: rat)"
    by (simp add: pow2_def field_simps)
  then have "(of_int (n * Hour - 1000) :: rat) < of_int d" by simp
  then show ?thesis by (simp only: of_int_less_iff)
qed

end
