(* ===== verification/CleanupConditions.thy ===== *)
theory CleanupConditions
  imports GoNumbers Instances
begin

text \<open>
  \<open>scheduler/conditions.go\<close>: the condition of a cleanup policy, its parser and the match of an
  instance. Ages are compared in \<open>float64\<close> hours with a product of 64-bit integers, as the code does; the
  theorems relate the match to ages in nanoseconds.
\<close>

section \<open>Conditions\<close>

record instance_filter =
  fi_status :: string
  fi_idle_days :: int
  fi_age_days :: int
  fi_stopped_days :: int
  fi_cleaned_days :: int
  fi_ttl_expired :: bool
  fi_expires_within_hours :: int
  fi_has_stopped_days :: bool
  fi_has_cleaned_days :: bool
  fi_has_expires_within :: bool

definition empty_filter :: instance_filter where
  "empty_filter = \<lparr>fi_status = [], fi_idle_days = 0, fi_age_days = 0, fi_stopped_days = 0, fi_cleaned_days = 0,
     fi_ttl_expired = False, fi_expires_within_hours = 0, fi_has_stopped_days = False, fi_has_cleaned_days = False,
     fi_has_expires_within = False\<rparr>"

abbreviation maxExpiresWithinHours :: int where "maxExpiresWithinHours \<equiv> 365 * 24"

text \<open>\<open>strings.Split\<close> at a byte.\<close>

fun split_at :: "char \<Rightarrow> string \<Rightarrow> string list" where
  "split_at sep [] = [[]]"
| "split_at sep (x # xs) =
     (if x = sep then [] # split_at sep xs
      else case split_at sep xs of [] \<Rightarrow> [[x]] | p # ps \<Rightarrow> (x # p) # ps)"

text \<open>The key and the value of one part: \<open>strings.SplitN\<close> at the first colon, both trimmed.\<close>

definition condition_part :: "string \<Rightarrow> string \<times> string" where
  "condition_part part =
     (let s = TrimSpace part; k = takeWhile (\<lambda>c. c \<noteq> CHR '':'') s; rest = dropWhile (\<lambda>c. c \<noteq> CHR '':'') s
      in (TrimSpace k, TrimSpace (drop 1 rest)))"

definition parse_part :: "string \<Rightarrow> instance_filter \<Rightarrow> string + instance_filter" where
  "parse_part part f =
     (let key = fst (condition_part part); v = snd (condition_part part);
          invalid = Inl (''invalid '' @ key @ '' value: '' @ v)
      in if key = ''idle_days'' then (case Atoi v of None \<Rightarrow> invalid | Some days \<Rightarrow> Inr (f\<lparr>fi_idle_days := days\<rparr>))
         else if key = ''status'' then Inr (f\<lparr>fi_status := v\<rparr>)
         else if key = ''age_days'' then (case Atoi v of None \<Rightarrow> invalid | Some days \<Rightarrow> Inr (f\<lparr>fi_age_days := days\<rparr>))
         else if key = ''stopped_days''
         then (case Atoi v of None \<Rightarrow> invalid
               | Some days \<Rightarrow> if days < 0 then invalid else Inr (f\<lparr>fi_stopped_days := days, fi_has_stopped_days := True\<rparr>))
         else if key = ''cleaned_days''
         then (case Atoi v of None \<Rightarrow> invalid
               | Some days \<Rightarrow> if days < 0 then invalid else Inr (f\<lparr>fi_cleaned_days := days, fi_has_cleaned_days := True\<rparr>))
         else if key = ''ttl_expired'' then Inr (f\<lparr>fi_ttl_expired := True\<rparr>)
         else if key = ''expires_within_hours''
         then (let bad = Inl (''invalid expires_within_hours value: '' @ v @ '' (0 to 8760)'')
               in case Atoi v of None \<Rightarrow> bad
                  | Some hours \<Rightarrow> if hours < 0 \<or> maxExpiresWithinHours < hours then bad
                                  else Inr (f\<lparr>fi_expires_within_hours := hours, fi_has_expires_within := True\<rparr>))
         else Inl (''unknown condition key: '' @ key))"

fun parse_parts :: "string list \<Rightarrow> instance_filter \<Rightarrow> string + instance_filter" where
  "parse_parts [] f = Inr f"
| "parse_parts (p # ps) f = (case parse_part p f of Inl e \<Rightarrow> Inl e | Inr f' \<Rightarrow> parse_parts ps f')"

definition ParseCondition :: "string \<Rightarrow> string + instance_filter" where
  "ParseCondition condition = parse_parts (split_at (CHR '','') condition) empty_filter"

section \<open>Matching\<close>

text \<open>\<open>now.Sub(t).Hours() < float64(days*24)\<close>.\<close>

definition younger_than :: "gtime \<Rightarrow> gtime \<Rightarrow> int \<Rightarrow> bool" where
  "younger_than now t days \<longleftrightarrow> Duration_Hours (Time_Sub now t) < float64 (of_int (wrap64 (days * 24)))"

definition last_active :: "stack_instance \<Rightarrow> gtime" where
  "last_active inst = (case si_last_deployed_at inst of None \<Rightarrow> si_created_at inst | Some t \<Rightarrow> t)"

definition future_expiry :: "gtime \<Rightarrow> stack_instance \<Rightarrow> bool" where
  "future_expiry now inst \<longleftrightarrow>
     si_status inst \<in> {StackStatusRunning, StackStatusPartial} \<and> (case si_expires_at inst of None \<Rightarrow> False | Some x \<Rightarrow> now < x)"

definition matchesAt :: "instance_filter \<Rightarrow> stack_instance \<Rightarrow> gtime \<Rightarrow> bool" where
  "matchesAt f inst now \<longleftrightarrow>
     \<not> (fi_status f \<noteq> [] \<and> si_status inst \<noteq> fi_status f)
     \<and> \<not> (0 < fi_idle_days f \<and> (younger_than now (last_active inst) (fi_idle_days f) \<or> future_expiry now inst))
     \<and> \<not> (0 < fi_age_days f \<and> younger_than now (si_created_at inst) (fi_age_days f))
     \<and> \<not> (fi_has_stopped_days f \<and>
           (si_status inst \<noteq> StackStatusStopped
            \<or> (case si_stopped_at inst of None \<Rightarrow> True | Some t \<Rightarrow> younger_than now t (fi_stopped_days f))))
     \<and> \<not> (fi_has_cleaned_days f \<and>
           (si_status inst \<noteq> StackStatusDraft
            \<or> (case si_cleaned_at inst of None \<Rightarrow> True | Some t \<Rightarrow> younger_than now t (fi_cleaned_days f))))
     \<and> \<not> (fi_ttl_expired f \<and> (case si_expires_at inst of None \<Rightarrow> True | Some x \<Rightarrow> \<not> x < now))
     \<and> \<not> (fi_has_expires_within f \<and>
           (case si_expires_at inst of None \<Rightarrow> False | Some x \<Rightarrow> now + wrap64 (fi_expires_within_hours f * Hour) < x))"

section \<open>What a condition means\<close>

text \<open>
  An age in days, up to \<open>slack\<close> nanoseconds; \<open>sane_days\<close> are the days whose hours and nanoseconds fit 64
  bits, \<open>sane_time\<close> an instant not after now and within the 292 years of a duration.
\<close>

abbreviation Day :: duration where "Day \<equiv> 24 * Hour"

definition older_than :: "duration \<Rightarrow> gtime \<Rightarrow> gtime \<Rightarrow> int \<Rightarrow> bool" where
  "older_than slack now t days \<longleftrightarrow> days * Day - slack \<le> now - t"

definition sane_time :: "gtime \<Rightarrow> gtime \<Rightarrow> bool" where
  "sane_time now t \<longleftrightarrow> t \<le> now \<and> now - t < 2 ^ 63"

definition sane_days :: "int \<Rightarrow> bool" where
  "sane_days days \<longleftrightarrow> 0 \<le> days \<and> days \<le> 106751"

definition filter_holds :: "(gtime \<Rightarrow> int \<Rightarrow> bool) \<Rightarrow> instance_filter \<Rightarrow> stack_instance \<Rightarrow> gtime \<Rightarrow> bool" where
  "filter_holds old f inst now \<longleftrightarrow>
     (fi_status f \<noteq> [] \<longrightarrow> si_status inst = fi_status f)
     \<and> (0 < fi_idle_days f \<longrightarrow> old (last_active inst) (fi_idle_days f) \<and> \<not> future_expiry now inst)
     \<and> (0 < fi_age_days f \<longrightarrow> old (si_created_at inst) (fi_age_days f))
     \<and> (fi_has_stopped_days f \<longrightarrow> si_status inst = StackStatusStopped
          \<and> (\<exists>t. si_stopped_at inst = Some t \<and> old t (fi_stopped_days f)))
     \<and> (fi_has_cleaned_days f \<longrightarrow> si_status inst = StackStatusDraft
          \<and> (\<exists>t. si_cleaned_at inst = Some t \<and> old t (fi_cleaned_days f)))
     \<and> (fi_ttl_expired f \<longrightarrow> (\<exists>x. si_expires_at inst = Some x \<and> x < now))
     \<and> (fi_has_expires_within f \<longrightarrow> (\<forall>x. si_expires_at inst = Some x \<longrightarrow> x \<le> now + fi_expires_within_hours f * Hour))"

abbreviation filter_means :: "duration \<Rightarrow> instance_filter \<Rightarrow> stack_instance \<Rightarrow> gtime \<Rightarrow> bool" where
  "filter_means slack f inst now \<equiv> filter_holds (older_than slack now) f inst now"

definition sane_filter :: "instance_filter \<Rightarrow> bool" where
  "sane_filter f \<longleftrightarrow> (0 < fi_idle_days f \<longrightarrow> sane_days (fi_idle_days f)) \<and> (0 < fi_age_days f \<longrightarrow> sane_days (fi_age_days f))
     \<and> (fi_has_stopped_days f \<longrightarrow> sane_days (fi_stopped_days f)) \<and> (fi_has_cleaned_days f \<longrightarrow> sane_days (fi_cleaned_days f))
     \<and> (fi_has_expires_within f \<longrightarrow> 0 \<le> fi_expires_within_hours f \<and> fi_expires_within_hours f \<le> maxExpiresWithinHours)"

definition sane_instance :: "gtime \<Rightarrow> stack_instance \<Rightarrow> bool" where
  "sane_instance now inst \<longleftrightarrow> sane_time now (si_created_at inst)
     \<and> (\<forall>t. si_last_deployed_at inst = Some t \<or> si_stopped_at inst = Some t \<or> si_cleaned_at inst = Some t \<longrightarrow> sane_time now t)"

lemma younger_older:
  assumes "sane_time now t" "sane_days days"
  shows "older_than 0 now t days \<Longrightarrow> \<not> younger_than now t days"
    and "\<not> younger_than now t days \<Longrightarrow> older_than 1000 now t days"
proof -
  have sub: "Time_Sub now t = now - t" using assms(1) by (simp add: Time_Sub_def sane_time_def)
  have hours: "float64 (of_int (wrap64 (days * 24))) = of_int (days * 24)"
    using assms(2) wrap64_small [of "days * 24"] float64_int [of "days * 24"] by (simp add: sane_days_def)
  have d: "0 \<le> now - t" "now - t < 2 ^ 63" using assms(1) by (simp_all add: sane_time_def)
  show "\<not> younger_than now t days" if "older_than 0 now t days"
    using hours_at_least [OF d, of "days * 24"] that
    by (simp add: younger_than_def older_than_def sub hours not_less)
  show "older_than 1000 now t days" if "\<not> younger_than now t days"
    using hours_not_more [OF d, of "days * 24"] that
    by (simp add: younger_than_def older_than_def sub hours not_less)
qed

definition ages_of :: "instance_filter \<Rightarrow> stack_instance \<Rightarrow> (gtime \<times> int) set" where
  "ages_of f inst = (if 0 < fi_idle_days f then {(last_active inst, fi_idle_days f)} else {})
     \<union> (if 0 < fi_age_days f then {(si_created_at inst, fi_age_days f)} else {})
     \<union> (if fi_has_stopped_days f then (\<lambda>t. (t, fi_stopped_days f)) ` set_option (si_stopped_at inst) else {})
     \<union> (if fi_has_cleaned_days f then (\<lambda>t. (t, fi_cleaned_days f)) ` set_option (si_cleaned_at inst) else {})"

lemma filter_holds_mono:
  assumes "\<And>t n. (t, n) \<in> ages_of f inst \<Longrightarrow> old t n \<Longrightarrow> old' t n" "filter_holds old f inst now"
  shows "filter_holds old' f inst now"
proof -
  have "0 < fi_idle_days f \<Longrightarrow> old (last_active inst) (fi_idle_days f) \<Longrightarrow> old' (last_active inst) (fi_idle_days f)"
    and "0 < fi_age_days f \<Longrightarrow> old (si_created_at inst) (fi_age_days f) \<Longrightarrow> old' (si_created_at inst) (fi_age_days f)"
    and "\<And>t. fi_has_stopped_days f \<Longrightarrow> si_stopped_at inst = Some t \<Longrightarrow> old t (fi_stopped_days f) \<Longrightarrow> old' t (fi_stopped_days f)"
    and "\<And>t. fi_has_cleaned_days f \<Longrightarrow> si_cleaned_at inst = Some t \<Longrightarrow> old t (fi_cleaned_days f) \<Longrightarrow> old' t (fi_cleaned_days f)"
    by (rule assms(1), auto simp: ages_of_def)+
  with assms(2) show ?thesis unfolding filter_holds_def by blast
qed

lemma matchesAt_holds:
  assumes "fi_has_expires_within f \<Longrightarrow> wrap64 (fi_expires_within_hours f * Hour) = fi_expires_within_hours f * Hour"
  shows "matchesAt f inst now = filter_holds (\<lambda>t n. \<not> younger_than now t n) f inst now"
proof -
  have opt: "(case x of None \<Rightarrow> True | Some t \<Rightarrow> P t) \<longleftrightarrow> (\<forall>t. x = Some t \<longrightarrow> P t)"
    "(case x of None \<Rightarrow> False | Some t \<Rightarrow> P t) \<longleftrightarrow> (\<exists>t. x = Some t \<and> P t)" for x :: "gtime option" and P
    by (cases x; simp)+
  show ?thesis
    using assms unfolding matchesAt_def filter_holds_def opt
    by (cases "fi_has_expires_within f")
      (simp_all only: not_not de_Morgan_conj de_Morgan_disj imp_conv_disj not_ex not_all not_less not_le True_implies_equals
        simp_thms if_True if_False)
qed

lemma sane_ages:
  assumes "sane_filter f" "sane_instance now inst" "(t, n) \<in> ages_of f inst"
  shows "sane_time now t \<and> sane_days n"
  using assms by (auto simp: ages_of_def sane_filter_def sane_instance_def last_active_def split: if_splits option.splits)

lemma matches_means:
  assumes "sane_filter f" "sane_instance now inst"
  shows "filter_means 0 f inst now \<Longrightarrow> matchesAt f inst now" and "matchesAt f inst now \<Longrightarrow> filter_means 1000 f inst now"
proof -
  have "matchesAt f inst now = filter_holds (\<lambda>t n. \<not> younger_than now t n) f inst now"
    using assms(1) by (intro matchesAt_holds wrap64_small) (auto simp: sane_filter_def)
  then show "filter_means 0 f inst now \<Longrightarrow> matchesAt f inst now" and "matchesAt f inst now \<Longrightarrow> filter_means 1000 f inst now"
    using sane_ages [OF assms] younger_older by (auto elim!: filter_holds_mono [rotated])
qed

text \<open>What the parser guarantees of the numbers.\<close>

definition parsed_filter :: "instance_filter \<Rightarrow> bool" where
  "parsed_filter f \<longleftrightarrow> (fi_has_stopped_days f \<longrightarrow> 0 \<le> fi_stopped_days f) \<and> (fi_has_cleaned_days f \<longrightarrow> 0 \<le> fi_cleaned_days f)
     \<and> (fi_has_expires_within f \<longrightarrow> 0 \<le> fi_expires_within_hours f \<and> fi_expires_within_hours f \<le> maxExpiresWithinHours)"

lemma parse_part_parsed: "parse_part p f = Inr f' \<Longrightarrow> parsed_filter f \<Longrightarrow> parsed_filter f'"
  by (auto simp: parse_part_def Let_def parsed_filter_def split: if_splits option.splits)

lemma parse_parts_parsed: "parse_parts ps f = Inr f' \<Longrightarrow> parsed_filter f \<Longrightarrow> parsed_filter f'"
  by (induction ps arbitrary: f) (auto split: sum.splits intro: parse_part_parsed)

lemma ParseCondition_parsed: "ParseCondition c = Inr f \<Longrightarrow> parsed_filter f"
  unfolding ParseCondition_def by (erule parse_parts_parsed) (simp add: parsed_filter_def empty_filter_def)

definition days_fit :: "instance_filter \<Rightarrow> bool" where
  "days_fit f \<longleftrightarrow> fi_idle_days f \<le> 106751 \<and> fi_age_days f \<le> 106751 \<and> fi_stopped_days f \<le> 106751 \<and> fi_cleaned_days f \<le> 106751"

text \<open>The match of a parsed condition means what its keys say, although the code compares \<open>float64\<close> hours:
  with days up to 106751 (the nanoseconds of an age fit 64 bits) every instance that fulfils the condition to the
  nanosecond matches, and every instance that matches fulfils it up to one microsecond of age; a running or
  partial instance with a future expiry is never idle.\<close>

theorem condition_meaning:
  assumes "ParseCondition c = Inr f" "days_fit f" "sane_instance now inst"
  shows "(filter_means 0 f inst now \<longrightarrow> matchesAt f inst now) \<and> (matchesAt f inst now \<longrightarrow> filter_means 1000 f inst now)"
proof -
  have "sane_filter f"
    using ParseCondition_parsed [OF assms(1)] assms(2) by (auto simp: sane_filter_def parsed_filter_def days_fit_def sane_days_def)
  from matches_means [OF this assms(3)] show ?thesis by blast
qed

theorem condition_meaning_witness:
  "\<exists>f. ParseCondition ''status:stopped, stopped_days:3'' = Inr f
     \<and> matchesAt f (example_instance\<lparr>si_status := StackStatusStopped, si_created_at := 1, si_stopped_at := Some 5, si_last_deployed_at := None,
         si_cleaned_at := None\<rparr>) (5 + 3 * Day)"
proof -
  let ?inst = "example_instance\<lparr>si_status := StackStatusStopped, si_created_at := 1, si_stopped_at := Some 5, si_last_deployed_at := None,
         si_cleaned_at := None\<rparr>"
  let ?f = "empty_filter\<lparr>fi_status := StackStatusStopped, fi_stopped_days := 3, fi_has_stopped_days := True\<rparr>"
  have p: "ParseCondition ''status:stopped, stopped_days:3'' = Inr ?f"
    by (simp add: ParseCondition_def parse_part_def condition_part_def TrimSpace_def is_space_def Let_def Atoi_def HasPrefix_def
        digit_value_def empty_filter_def)
  have "days_fit ?f" "sane_instance (5 + 3 * Day) ?inst" "filter_means 0 ?f ?inst (5 + 3 * Day)"
    by (simp_all add: days_fit_def empty_filter_def sane_instance_def sane_time_def filter_holds_def older_than_def)
  with condition_meaning [OF p, of "5 + 3 * Day" ?inst] p show ?thesis by blast
qed

text \<open>The bound is needed and the code does not have it: \<open>idle_days\<close> and \<open>age_days\<close> accept any 64-bit number, and
  their product with 24 wraps, so the condition \<open>idle_days:384307168202282326\<close> matches a stack that was created this moment
  (every stack without a future expiry); so does every negative number of days.\<close>

theorem overflowing_days_match_all:
  "\<exists>f g. ParseCondition ''idle_days:384307168202282326'' = Inr f \<and> ParseCondition ''idle_days:-1'' = Inr g
     \<and> matchesAt f (inst\<lparr>si_created_at := now, si_last_deployed_at := None, si_expires_at := None\<rparr>) now
     \<and> matchesAt g (inst\<lparr>si_created_at := now, si_last_deployed_at := None, si_expires_at := None\<rparr>) now"
proof -
  let ?f = "empty_filter\<lparr>fi_idle_days := 384307168202282326\<rparr>" and ?g = "empty_filter\<lparr>fi_idle_days := - 1\<rparr>"
  have p: "ParseCondition ''idle_days:384307168202282326'' = Inr ?f" "ParseCondition ''idle_days:-1'' = Inr ?g"
    by (simp_all add: ParseCondition_def parse_part_def condition_part_def TrimSpace_def is_space_def Let_def Atoi_def HasPrefix_def
        digit_value_def empty_filter_def)
  have "wrap64 (384307168202282326 * 24) \<le> 0" by (simp add: wrap64_def signed_of_int signed_take_bit_eq_take_bit_minus)
  then have "\<not> younger_than now now 384307168202282326" for now
    using float64_nonpos [of "of_int (wrap64 (384307168202282326 * 24))"]
    by (simp add: younger_than_def Time_Sub_def Duration_Hours_def float64_def not_less)
  then show ?thesis
    using p by (auto simp: matchesAt_def empty_filter_def last_active_def future_expiry_def)
qed

end
