(* ===== verification/Statements.thy ===== *)
theory Statements
  imports Rollback Retention
begin

text \<open>
  Every operation of the model is a sequence of single statements. \<open>db_stmt\<close> are the effects of the
  statements of the repositories on the database, with the guards that their callers keep: a log is
  created running, ended with a final status and a completion time, and deleted when it has ended; an
  instance is stored with a status of the model. When the other replicas only issue statements (\<open>obeys\<close>),
  whole operations are sequences of statements too, with the statements of other replicas in between.
\<close>

section \<open>Statements\<close>

definition ended_row :: "deployment_log \<Rightarrow> bool" where
  "ended_row l \<longleftrightarrow> dl_status l \<in> set finishedDeployLogStatuses \<and> dl_completed_at l \<noteq> None"

definition fresh_row :: "deployment_log \<Rightarrow> bool" where
  "fresh_row l \<longleftrightarrow> dl_status l = DeployLogRunning \<and> dl_completed_at l = None"

inductive db_stmt :: "db \<Rightarrow> db \<Rightarrow> bool" where
  create_log: "fresh_row l \<Longrightarrow> db_stmt d (snd (on_logs (log_Create flt now uuid l) d))"
| end_log: "ended_row l \<Longrightarrow> db_stmt d (snd (on_logs (log_Update flt flt2 l) d))"
| extend_log: "db_stmt d (snd (on_logs (log_ExtendDeadline flt flt2 i deadline) d))"
| output_log: "db_stmt d (snd (on_logs (log_UpdateRunningOutput flt flt2 i out) d))"
| save_instance: "IsValidStackStatus (si_status inst) \<Longrightarrow> db_stmt d (snd (on_instances (inst_Update flt now inst) d))"
| mark_clean: "db_stmt d (snd (on_instances (inst_MarkCleanStart flt now i from del) d))"
| mark_status: "IsValidStackStatus to \<Longrightarrow> db_stmt d (snd (on_instances (inst_MarkStatus flt flt2 now i to from) d))"
| clear_mark: "db_stmt d (snd (on_instances (inst_ClearDeleteAfterClean flt i) d))"
| delete_instance: "db_stmt d (snd (on_instances (inst_Delete flt i) d))"
| create_instance: "IsValidStackStatus (si_status inst) \<Longrightarrow> db_stmt d (snd (on_instances (inst_Create flt now uuid inst) d))"
| namespace_error: "db_stmt d (snd (on_instances (inst_MarkNamespaceError flt clock i message now) d))"
| expiry_warned: "db_stmt d (snd (on_instances (inst_MarkExpiryWarned flt i expiresAt warnedAt) d))"
| interrupt_operation: "db_stmt d (snd (InterruptOperation flt1 flt2 flt3 commit dbnow req d))"
| delete_logs: "(\<And>l. l \<in> set (d_logs d) \<Longrightarrow> \<not> q l \<Longrightarrow> dl_status l \<noteq> DeployLogRunning)
    \<Longrightarrow> db_stmt d (put_logs (filter q (d_logs d)) d)"
| other_tables: "d_instances d' = d_instances d \<Longrightarrow> d_logs d' = d_logs d \<Longrightarrow> db_stmt d d'"

abbreviation stmts :: "db \<Rightarrow> db \<Rightarrow> bool" where "stmts \<equiv> db_stmt\<^sup>*\<^sup>*"

text \<open>The other replicas only issue statements.\<close>

definition obeys :: "io \<Rightarrow> bool" where
  "obeys io \<longleftrightarrow> (\<forall>s d. stmts d (io_env io s d))"

named_theorems stmts_intro \<open>the effect of a call is a sequence of statements\<close>

lemmas stmt_once = db_stmt.intros [THEN r_into_rtranclp [of db_stmt]]

lemma stmts_env [stmts_intro]: "obeys io \<Longrightarrow> stmts d d' \<Longrightarrow> stmts d (io_env io s d')"
  by (meson obeys_def rtranclp_trans)

lemma stmts_read [stmts_intro]: "obeys io \<Longrightarrow> stmts d (w_db w) \<Longrightarrow> stmts d (w_db (snd (db_read io s f w)))"
  by (simp add: stmts_env)

lemma stmts_write:
  assumes "\<And>d. stmts d (snd (g d))" "obeys io" "stmts d (w_db w)"
  shows "stmts d (w_db (snd (db_write io s g w)))"
  using assms by (simp add: stmts_env rtranclp_trans [OF _ assms(1)])

lemma stmts_tx: "(\<And>d. stmts d (snd (body d))) \<Longrightarrow> stmts d (snd (RunInTx flt wrap body d))"
  by (metis (no_types, lifting) RunInTx_fail RunInTx_ok old.sum.exhaust rtranclp.rtrancl_refl)

lemma stmts_in_tx:
  assumes "\<And>d. stmts d (snd (body d))" "obeys io" "stmts d (w_db w)"
  shows "stmts d (w_db (snd (in_tx io s wrap body w)))"
  unfolding in_tx_def using stmts_tx [OF assms(1)] assms(2,3) by (rule stmts_write)

lemma stmts_tx_then:
  assumes "\<And>d. stmts d (snd (f d))" "\<And>x d. stmts d (snd (g x d))"
  shows "stmts d (snd (tx_then f g d))"
proof (cases "f d")
  case (Pair r d')
  have "stmts d d'" using assms(1) [of d] Pair by simp
  then show ?thesis using assms(2) rtranclp_trans [of db_stmt d d'] by (cases r) (auto simp: tx_then_def Pair)
qed

section \<open>Starts\<close>

lemma stmts_create_log: "fresh_row l \<Longrightarrow> stmts d (snd (create_log io l d))"
  by (simp add: create_log_def Let_def stmt_once)

lemma stmts_update_instance: "IsValidStackStatus (si_status inst) \<Longrightarrow> stmts d (snd (update_instance io inst d))"
  by (simp add: update_instance_def Let_def stmt_once)

lemma stmts_write_start [stmts_intro]:
  assumes "obeys io" "fresh_row l" "IsValidStackStatus (si_status inst)" "stmts d (w_db w)"
  shows "stmts d (w_db (snd (write_start m io l inst w)))"
  using assms
  by (auto simp: write_start_def Let_def simp del: db_write_simps split: sum.splits
      intro!: stmts_in_tx stmts_tx_then stmts_write stmts_create_log stmts_update_instance)

lemma stmts_write_clean_start [stmts_intro]:
  assumes "obeys io" "fresh_row l" "stmts d (w_db w)"
  shows "stmts d (w_db (snd (write_clean_start m io l i del w)))"
proof -
  have "stmts d (snd (markCleanStart io i del d))" for d
    by (simp add: markCleanStart_def Let_def stmt_once)
  with assms show ?thesis
    by (auto simp: write_clean_start_def Let_def simp del: db_write_simps split: sum.splits
        intro!: stmts_in_tx stmts_tx_then stmts_write stmts_create_log)
qed

lemma new_log_fresh [simp]: "fresh_row (new_log m now i inst act t n)" "fresh_row (l\<lparr>dl_branch := b\<rparr>) = fresh_row l"
  "fresh_row (l\<lparr>dl_chart_versions := v\<rparr>) = fresh_row l" "fresh_row (l\<lparr>dl_user_id := u\<rparr>) = fresh_row l"
  "fresh_row (l\<lparr>dl_target_log_id := t'\<rparr>) = fresh_row l"
  by (simp_all add: fresh_row_def new_log_def zero_log_def)

lemma start_statuses [simp]: "IsValidStackStatus StackStatusDeploying" "IsValidStackStatus StackStatusStopping"
  "IsValidStackStatus StackStatusStabilizing" "IsValidStackStatus StackStatusRunning" "IsValidStackStatus StackStatusError"
  "IsValidStackStatus StackStatusPartial" "IsValidStackStatus StackStatusStopped" "IsValidStackStatus StackStatusDraft"
  "IsValidStackStatus StackStatusCleaning"
  by (simp_all add: IsValidStackStatus_def)

lemma stmts_Deploy: "obeys io \<Longrightarrow> stmts (w_db w) (w_db (snd (Deploy m io c lg inst charts u w)))"
  by (auto simp: Deploy_def Let_def split: sum.splits intro!: stmts_intro)

lemma stmts_StopWithCharts: "obeys io \<Longrightarrow> stmts (w_db w) (w_db (snd (StopWithCharts m io c lg inst charts w)))"
  by (auto simp: StopWithCharts_def Let_def split: sum.splits intro!: stmts_intro)

lemma stmts_startClean: "obeys io \<Longrightarrow> stmts (w_db w) (w_db (snd (startClean m io c lg inst charts del w)))"
  by (auto simp: startClean_def Let_def split: sum.splits intro!: stmts_intro)

lemma stmts_Rollback: "obeys io \<Longrightarrow> stmts (w_db w) (w_db (snd (Rollback m io c lg req w)))"
  by (auto simp: Rollback_def previousRevisionBranch_def Let_def split: sum.splits intro!: stmts_intro)

section \<open>Reads\<close>

lemma stmts_newerOperation [stmts_intro]:
  "obeys io \<Longrightarrow> stmts d (w_db w) \<Longrightarrow> stmts d (w_db (snd (newerOperation io i lg w)))"
  by (simp add: stmts_env)

lemma stmts_find_instance [stmts_intro]:
  "obeys io \<Longrightarrow> stmts d (w_db w) \<Longrightarrow> stmts d (w_db (snd (find_instance io s i w)))"
  by (simp add: stmts_env)

lemma stmts_instanceOwnership [stmts_intro]:
  "obeys io \<Longrightarrow> stmts d (w_db w) \<Longrightarrow> stmts d (w_db (snd (instanceOwnership io i lg ok w)))"
  by (auto simp: instanceOwnership_def Let_def split: sum.splits intro!: stmts_intro)

lemma stmts_ownsInstance [stmts_intro]:
  "obeys io \<Longrightarrow> stmts d (w_db w) \<Longrightarrow> stmts d (w_db (snd (ownsInstance io i lg ok w)))"
  by (simp add: ownsInstance_def Let_def stmts_intro)

lemma stmts_installsOwned [stmts_intro]:
  "obeys io \<Longrightarrow> stmts d (w_db w) \<Longrightarrow> stmts d (w_db (snd (installsOwned io i lg w)))"
  by (auto simp: installsOwned_def Let_def split: sum.splits intro!: stmts_intro)

lemma stmts_hookPhaseOwned [stmts_intro]:
  "obeys io \<Longrightarrow> stmts d (w_db w) \<Longrightarrow> stmts d (w_db (snd (hookPhaseOwned i lg ok io w)))"
  by (auto simp: hookPhaseOwned_def Let_def split: sum.splits prod.splits ownership.splits option.splits intro!: stmts_intro)

lemma stmts_mark_status [stmts_intro]:
  assumes "obeys io" "IsValidStackStatus to" "stmts d (w_db w)"
  shows "stmts d (w_db (snd (db_write io s (on_instances (inst_MarkStatus flt flt2 now i to from)) w)))"
  using assms by (intro stmts_write) (simp_all add: stmt_once)

lemma stmts_markStabilizing [stmts_intro]:
  assumes "obeys io" "stmts d (w_db w)"
  shows "stmts d (w_db (snd (markStabilizing io i lg w)))"
  using assms
  by (auto simp: markStabilizing_def Let_def simp del: db_write_simps find_instance_simps newerOperation_simps
      split: sum.splits bool.splits intro!: stmts_intro)

section \<open>Final writes\<close>

lemma stmts_update_log: "ended_row l \<Longrightarrow> stmts d (snd (update_log io s l d))"
  by (simp add: update_log_def stmt_once)

lemma dropLive_db [simp]: "w_db (dropLiveOutput i w) = w_db w"
  by (simp add: dropLiveOutput_def)

lemma warn_db [simp]: "w_db (warnLogNotRunning l w) = w_db w"
  by (simp add: warnLogNotRunning_def)

lemma stmts_fallback [stmts_intro]:
  assumes "obeys io" "ended_row l" "stmts d (w_db w)"
  shows "stmts d (w_db (snd (fallbackLogUpdate io l w)))"
proof -
  have "w_db (snd (fallbackLogUpdate io l w)) = w_db (snd (db_write io ''fallback_log'' (update_log io ''fallback_log'' l) (dropLiveOutput (dl_id l) w)))"
    by (simp add: fallbackLogUpdate_def Let_def split: sum.splits repo_error.splits)
  moreover have "stmts d \<dots>" using assms by (intro stmts_write stmts_update_log) simp_all
  ultimately show ?thesis by simp
qed

lemma stmts_final_body: "ended_row l \<Longrightarrow> IsValidStackStatus (si_status inst) \<Longrightarrow> stmts d (snd (final_body io l inst d))"
  unfolding final_body_def by (intro stmts_tx_then stmts_update_log) (simp_all add: Let_def stmt_once)

lemma stmts_writeFinal [stmts_intro]:
  assumes "obeys io" "ended_row l" "\<And>x. inst = Some x \<Longrightarrow> IsValidStackStatus (si_status x)" "stmts d (w_db w)"
  shows "stmts d (w_db (snd (writeFinal m io inst l w)))"
proof (cases inst)
  case None
  with assms show ?thesis by (simp add: writeFinal_def Let_def stmts_fallback)
next
  case (Some x)
  have tx: "stmts d (w_db (snd (in_tx io ''final_tx'' id (final_body io l x) (dropLiveOutput (dl_id l) w))))"
    using assms Some by (intro stmts_in_tx stmts_final_body) simp_all
  have two: "stmts d (w_db (snd (db_write io ''final_instance'' (on_instances (inst_Update (io_fault io ''final_instance'') (io_now io) x)) u)))"
    if "stmts d (w_db u)" for u
    using assms Some that by (intro stmts_write) (simp_all add: stmt_once)
  show ?thesis
    using assms(1,2,4) tx two [OF stmts_fallback]
    by (auto simp: writeFinal_def Some Let_def simp del: db_write_simps split: sum.splits repo_error.splits intro!: stmts_fallback)
qed

lemma ended_rows [simp]:
  "ended_row (l\<lparr>dl_status := DeployLogError, dl_error_message := msg\<rparr>) \<longleftrightarrow> dl_completed_at l \<noteq> None"
  "ended_row (log_error DeployLogError msg l) \<longleftrightarrow> dl_completed_at l \<noteq> None"
  "ended_row (deploy_log_result out v c l) \<longleftrightarrow> dl_completed_at l \<noteq> None"
  "ended_row (snd (stop_result e now inst l)) \<longleftrightarrow> dl_completed_at l \<noteq> None"
  "ended_row (snd (clean_result e now inst l)) \<longleftrightarrow> dl_completed_at l \<noteq> None"
  "ended_row (snd (rollback_result um e ap now inst l)) \<longleftrightarrow> dl_completed_at l \<noteq> None"
  "dl_completed_at (ended_log now output l) = Some now"
  by (auto simp: ended_row_def finishedDeployLogStatuses_def log_error_def deploy_log_result_def stop_result_def clean_result_def
      rollback_result_def ended_log_def Let_def split: deploy_outcome.splits option.splits)

lemma result_statuses [simp]:
  "IsValidStackStatus (si_status (deploy_instance_result out now v inst))"
  "IsValidStackStatus (si_status (fst (stop_result e now inst l)))"
  "IsValidStackStatus (si_status (fst (clean_result e now inst l)))"
  "IsValidStackStatus (si_status (fst (rollback_result um e ap now inst l)))"
  by (auto simp: deploy_instance_result_def stop_result_def clean_result_def rollback_result_def Let_def
      split: deploy_outcome.splits option.splits)

lemma notify_dbs [simp]:
  "w_db (notify_ignored m inst lg ign w) = w_db w" "w_db (notify_deploy m io out inst l url w) = w_db w"
  "w_db (notify_stop m e inst lg w) = w_db w" "w_db (notify_clean m io e del inst l w) = w_db w"
proof -
  show "w_db (notify_ignored m inst lg ign w) = w_db w"
    by (induction m inst lg ign w rule: notify_ignored.induct) simp_all
qed (auto simp: notify_deploy_def notify_stop_def notify_clean_def Let_def split: deploy_outcome.splits option.splits)

section \<open>Finalizers\<close>

lemma stmts_finalizeDeployWith [stmts_intro]:
  assumes "obeys io" "stmts d (w_db w)"
  shows "stmts d (w_db (finalizeDeployWith m io i l out o' v rw ign url w))"
  using assms
  by (auto simp: finalizeDeployWith_def Let_def simp del: find_instance_simps newerOperation_simps
      split: sum.splits deploy_outcome.splits intro!: stmts_intro)

lemma stmts_finalizeDeploy [stmts_intro]:
  "obeys io \<Longrightarrow> stmts d (w_db w) \<Longrightarrow> stmts d (w_db (finalizeDeploy m io i l out o' v rw w))"
  by (simp add: finalizeDeploy_def stmts_intro)

lemma stmts_finalizeStop [stmts_intro]:
  "obeys io \<Longrightarrow> stmts d (w_db w) \<Longrightarrow> stmts d (w_db (finalizeStop m io i l out e w))"
  by (auto simp: finalizeStop_def Let_def simp del: find_instance_simps split: sum.splits intro!: stmts_intro)

lemma stmts_cancelStop [stmts_intro]:
  "obeys io \<Longrightarrow> stmts d (w_db w) \<Longrightarrow> stmts d (w_db (cancelStopForNewerOperation m io i l out w))"
  by (auto simp: cancelStopForNewerOperation_def Let_def intro!: stmts_intro)

lemma stmts_clear_mark [stmts_intro]:
  "obeys io \<Longrightarrow> stmts d (w_db w) \<Longrightarrow> stmts d (w_db (clear_delete_mark io i w))"
  unfolding clear_delete_mark_def by (intro stmts_write) (simp_all add: stmt_once)

lemma stmts_other: "d_instances d' = d_instances d \<Longrightarrow> d_logs d' = d_logs d \<Longrightarrow> stmts d d'"
  by (rule r_into_rtranclp, rule other_tables)

lemma stmts_delete_step: "(\<And>d. d_instances (f d) = d_instances d \<and> d_logs (f d) = d_logs d) \<Longrightarrow> stmts d (snd (delete_step op flt f d))"
  by (rule stmts_other) (auto simp: delete_step_def split: option.splits)

lemma stmts_delete_record: "stmts d (snd (DeleteInstanceRecord flt inst d))"
  unfolding DeleteInstanceRecord_def Let_def
  by (intro stmts_tx_then stmts_delete_step)
    (auto simp: stmt_once ignore_not_found_simps quota_Delete_def split: option.splits intro!: stmts_other)

lemma stmts_cleanup_definition: "stmts d (snd (CleanupOwnedDefinition flt inst d))"
proof -
  have "stmts d (snd (tx_then (delete_step ''delete_by_definition'' (flt ''charts'')
       (\<lambda>d. d\<lparr>d_chart_configs := without_parent i (d_chart_configs d)\<rparr>)) (\<lambda>_. def_Delete (flt ''definition'') i) d))" for i
    by (intro stmts_tx_then stmts_delete_step)
      (auto simp: def_Delete_def split: option.splits intro!: stmts_other)
  then show ?thesis
    by (auto simp: CleanupOwnedDefinition_def Let_def split: sum.splits bool.splits option.splits)
qed

lemma stmts_delete_owned [stmts_intro]:
  assumes "obeys io" "stmts d (w_db w)"
  shows "stmts d (w_db (snd (DeleteInstanceWithOwnedDefinition io inst w)))"
proof -
  let ?r = "in_tx io ''delete_instance'' id (DeleteInstanceRecord (io_fault io) inst) w"
  have r: "stmts d (w_db (snd ?r))" using assms by (intro stmts_in_tx stmts_delete_record)
  have c: "stmts d (w_db (snd (cleanupOwnedDefinitionIfOwned io inst u)))" if "stmts d (w_db u)" for u
    using assms(1) that unfolding cleanupOwnedDefinitionIfOwned_def Let_def
    by (auto split: sum.splits bool.splits intro!: stmts_in_tx stmts_cleanup_definition)
  show ?thesis
    using r c [OF r] by (auto simp: DeleteInstanceWithOwnedDefinition_def Let_def split: sum.splits)
qed

lemma stmts_delete_after_clean [stmts_intro]:
  "obeys io \<Longrightarrow> stmts d (w_db w) \<Longrightarrow> stmts d (w_db (snd (delete_after_clean m io inst w)))"
  unfolding delete_after_clean_def by (auto simp del: db_write_simps intro!: stmts_write stmts_delete_owned simp: stmt_once)

lemma stmts_finalizeClean [stmts_intro]:
  assumes "obeys io" "stmts d (w_db w)"
  shows "stmts d (w_db (finalizeClean m io i l out e w))"
  using assms
  by (auto simp: finalizeClean_def Let_def simp del: find_instance_simps split: sum.splits intro!: stmts_intro)

lemma stmts_rollbackCancelled [stmts_intro]:
  "obeys io \<Longrightarrow> stmts d (w_db w) \<Longrightarrow> stmts d (w_db (finalizeRollbackCancelled m io i l out reason w))"
  by (auto simp: finalizeRollbackCancelled_def Let_def simp del: find_instance_simps split: sum.splits intro!: stmts_intro)

lemma stmts_rollbackRejected [stmts_intro]:
  "obeys io \<Longrightarrow> IsValidStackStatus (j_prev_status job) \<Longrightarrow> stmts d (w_db w)
    \<Longrightarrow> stmts d (w_db (finalizeRollbackRejected m io job out err w))"
  by (auto simp: finalizeRollbackRejected_def Let_def simp del: find_instance_simps split: sum.splits intro!: stmts_intro)

lemma stmts_finalizeRollback [stmts_intro]:
  "obeys io \<Longrightarrow> stmts d (w_db w) \<Longrightarrow> stmts d (w_db (finalizeRollback um m io i l out e ap url w))"
  by (auto simp: finalizeRollback_def Let_def simp del: find_instance_simps split: sum.splits intro!: stmts_intro)

section \<open>Goroutines\<close>

lemma stmts_extendDeadline [stmts_intro]:
  assumes "obeys io" "stmts d (w_db w)"
  shows "stmts d (w_db (snd (extendDeadline m io l helm n w)))"
proof -
  have "w_db (snd (extendDeadline m io l helm n w)) = w_db (snd (db_write io ''extend_deadline'' (on_logs (log_ExtendDeadline
      (io_fault io ''extend_deadline'') (io_fault io ''extend_deadline_count'') (dl_id l)
      (io_now io + (runBudget m (dl_action l) (helmTimeoutOf helm) n + DeadlineMargin)))) w))"
    by (auto simp: extendDeadline_def Let_def split: sum.splits repo_error.splits)
  moreover have "stmts d \<dots>" using assms by (intro stmts_write) (simp_all add: stmt_once)
  ultimately show ?thesis by simp
qed

lemma stmts_wait_loop:
  assumes "wait_loop m i l rs since line w = Some (line', w')" "\<forall>r\<in>set rs. obeys (wr_io r)" "stmts d (w_db w)"
  shows "stmts d (w_db w')"
  using assms
proof (induction m i l rs since line w rule: wait_loop.induct)
  case (2 m i l r rs since line w)
  have "stmts d (w_db (snd (runningEarlierOperation m (wr_io r) (wr_dbnow r) i l w)))"
    using "2.prems" by (simp add: runningEarlierOperation_def stmts_env)
  with 2 show ?case by (auto simp: Let_def split: sum.splits option.splits if_splits)
qed simp

lemma stmts_executeStop:
  assumes "executeStopWithCharts m rs sd io st left helm job w = Some w'" "obeys io" "\<forall>r\<in>set rs. obeys (wr_io r)"
  shows "stmts (w_db w) (w_db w')"
proof (cases "waitForEarlierOperations m (si_id (j_instance job)) (j_log job) rs w")
  case None
  with assms show ?thesis by (simp add: executeStopWithCharts_def Let_def)
next
  case (Some x)
  obtain out w1 where x: "x = (out, w1)" by (cases x)
  have w1: "stmts (w_db w) (w_db w1)"
    using Some assms(3) unfolding waitForEarlierOperations_def x by (rule stmts_wait_loop) simp
  with assms(1,2) Some x show ?thesis
    by (auto simp: executeStopWithCharts_def Let_def simp del: newerOperation_simps intro!: stmts_intro)
qed

lemma stmts_executeClean: "obeys io \<Longrightarrow> stmts (w_db w) (w_db (executeClean m io st helm ns job w))"
  by (auto simp: executeClean_def Let_def intro!: stmts_intro)

lemma stmts_watch [stmts_intro]:
  assumes "\<And>t w. t \<in> set ts \<Longrightarrow> stmts d (w_db w) \<Longrightarrow> stmts d (w_db (snd (owned t w)))" "stmts d (w_db w)"
  shows "stmts d (w_db (snd (watchOwnership owned ts w)))"
  using assms by (induction owned ts w rule: watchOwnership.induct) (auto simp: Let_def)

lemma stmts_firePreHook [stmts_intro]:
  "\<forall>t\<in>set (ph_ticks h). obeys t \<Longrightarrow> stmts d (w_db w) \<Longrightarrow> stmts d (w_db (snd (firePreHook m io ev inst l meta h w)))"
  by (auto simp: firePreHook_def Let_def intro!: stmts_intro)

fun poll_ios :: "poll list \<Rightarrow> io list" where
  "poll_ios [] = []"
| "poll_ios (PollTick io st # ps) = io # poll_ios ps"
| "poll_ios (PollTimeout # ps) = poll_ios ps"
| "poll_ios (PollShutdown st # ps) = poll_ios ps"

lemma stmts_await_loop:
  assumes "await_loop m i lg ps st w = Some (r, w')" "\<forall>io\<in>set (poll_ios ps). obeys io" "stmts d (w_db w)"
  shows "stmts d (w_db w')"
  using assms
proof (induction m i lg ps st w rule: await_loop.induct)
  case (4 m i lg io st ps lastStatus w)
  have "stmts d (w_db (snd (hookPhaseOwned i lg [StackStatusStabilizing] io w)))"
    using "4.prems" by (intro stmts_intro) simp_all
  with 4 show ?case by (auto simp: Let_def split: option.splits if_splits)
qed (auto simp: readinessAfterShutdown_def split: option.splits if_splits)

lemma stmts_awaitReadiness:
  assumes "awaitReadiness m io i lg early ps w = Some (r, w')" "\<forall>io\<in>set (poll_ios ps). obeys io" "obeys io"
    and "stmts d (w_db w)"
  shows "stmts d (w_db w')"
proof -
  have "stmts d (w_db (snd (markStabilizing io i lg w)))" using assms by (intro stmts_intro)
  then show ?thesis
    using assms
    by (auto simp: awaitReadiness_def Let_def readinessAfterShutdown_def split: option.splits stabilize_result.splits if_splits
        elim!: stmts_await_loop)
qed

lemma stmts_markBlocking [stmts_intro]:
  assumes "obeys io" "stmts d (w_db w)"
  shows "stmts d (w_db (markBlockingPhase m io tm inst lg w))"
proof -
  let ?inst = "inst\<lparr>si_status := StackStatusStabilizing, si_post_deploy_hook_until := Some (io_now io + tm + blockingPhaseMargin)\<rparr>"
  have "w_db (markBlockingPhase m io tm inst lg w) = w_db (snd (db_write io ''mark_blocking''
      (on_instances (inst_Update (io_fault io ''mark_blocking'') (io_now io) ?inst)) w))"
    by (auto simp: markBlockingPhase_def Let_def split: sum.splits)
  moreover have "stmts d \<dots>" using assms by (intro stmts_write) (simp_all add: stmt_once)
  ultimately show ?thesis by simp
qed

lemma stmts_blocking [stmts_intro]:
  assumes "obeys io" "obeys io'" "\<forall>t\<in>set (bh_ticks h). obeys t" "stmts d (w_db w)"
  shows "stmts d (w_db (snd (runBlockingPostDeploy m io io' h i l meta w)))"
  using assms
  by (auto simp: runBlockingPostDeploy_def Let_def blockingNotStarted_def blockingPhaseOwned_def
      split: ownership.splits option.splits prod.splits intro!: stmts_intro)

lemma stmts_quota [stmts_intro]:
  "obeys io \<Longrightarrow> stmts d (w_db w) \<Longrightarrow> stmts d (w_db (snd (effectiveNamespaceQuota m io q i w)))"
  "obeys io \<Longrightarrow> stmts d (w_db w) \<Longrightarrow> stmts d (w_db (snd (applyQuotasForDeploy m io q k i w)))"
  "obeys io \<Longrightarrow> stmts d (w_db w) \<Longrightarrow> stmts d (w_db (snd (quota_rejection m io cfg i w)))"
  "obeys io \<Longrightarrow> stmts d (w_db w) \<Longrightarrow> stmts d (w_db (snd (prepare_namespace m io cfg k h i ns w)))"
  by (auto simp: effectiveNamespaceQuota_def applyQuotasForDeploy_def applyNamespaceQuotas_def quota_rejection_def prepare_namespace_def
      Let_def split: option.splits intro!: stmts_env)

lemma install_chart_db [simp]: "w_db (is_world (install_chart m cfg k h r i lg ns s c st)) = w_db (is_world st)"
  by (auto simp: install_chart_def Let_def split: option.splits sum.splits)

lemma stmts_watch_installs [stmts_intro]:
  "\<forall>t\<in>set ts. obeys t \<Longrightarrow> stmts d (w_db (is_world st)) \<Longrightarrow> stmts d (w_db (is_world (watch_installs i lg ts st)))"
  by (auto simp: watch_installs_def Let_def split: option.splits intro!: stmts_intro)

lemma stmts_install_loop [stmts_intro]:
  assumes "\<forall>n. obeys (cs_io (steps n)) \<and> (\<forall>t\<in>set (cs_ticks (steps n)). obeys t)" "stmts d (w_db (is_world st))"
  shows "stmts d (w_db (is_world (install_loop m cfg k h r i lg ns steps n cs st)))"
  using assms
proof (induction cs arbitrary: n st)
  case (Cons c cs)
  have own: "stmts d (w_db (snd (installsOwned (cs_io (steps n)) i lg (is_world st))))"
    using Cons.prems by (intro stmts_intro) simp_all
  have "stmts d (w_db (is_world (watch_installs i lg (cs_ticks (steps n)) (install_chart m cfg k h r i lg ns (steps n) c
      (st\<lparr>is_world := snd (installsOwned (cs_io (steps n)) i lg (is_world st))\<rparr>)))))"
    using own Cons.prems(1) by (intro stmts_intro) simp_all
  with Cons.IH [OF Cons.prems(1)] own show ?case by (simp add: Let_def)
qed simp

text \<open>The calls that a deploy or a rollback makes.\<close>

definition deploy_ios :: "deploy_env \<Rightarrow> io set" where
  "deploy_ios e = {de_io e, de_io_ready e, de_io_block e, de_io_after e, de_io_final e} \<union> set (ph_ticks (de_hook e))
     \<union> (\<Union>n. insert (cs_io (de_steps e n)) (set (cs_ticks (de_steps e n)))) \<union> set (poll_ios (de_polls e)) \<union> set (bh_ticks (de_blocking e))"

definition rollback_ios :: "rollback_env \<Rightarrow> io set" where
  "rollback_ios e = {rv_io e, rv_io_ready e, rv_io_final e} \<union> set (ph_ticks (rv_hook e)) \<union> set (poll_ios (rv_polls e))"

lemma deploy_iosD:
  assumes "\<forall>io\<in>deploy_ios e. obeys io"
  shows "obeys (de_io e)" "obeys (de_io_ready e)" "obeys (de_io_block e)" "obeys (de_io_after e)" "obeys (de_io_final e)"
    "\<forall>t\<in>set (ph_ticks (de_hook e)). obeys t" "\<forall>n. obeys (cs_io (de_steps e n)) \<and> (\<forall>t\<in>set (cs_ticks (de_steps e n)). obeys t)"
    "\<forall>io\<in>set (poll_ios (de_polls e)). obeys io" "\<forall>t\<in>set (bh_ticks (de_blocking e)). obeys t"
  using assms by (auto simp: deploy_ios_def)

lemma rollback_iosD:
  assumes "\<forall>io\<in>rollback_ios e. obeys io"
  shows "obeys (rv_io e)" "obeys (rv_io_ready e)" "obeys (rv_io_final e)" "\<forall>t\<in>set (ph_ticks (rv_hook e)). obeys t"
    "\<forall>io\<in>set (poll_ios (rv_polls e)). obeys io"
  using assms by (auto simp: rollback_ios_def)

lemma stmts_deploy_readiness:
  assumes "deploy_readiness m e i lg w = Some (r, w')" "\<forall>io\<in>deploy_ios e. obeys io" "stmts d (w_db w)"
  shows "stmts d (w_db w')"
proof -
  obtain x y w1 where aw: "awaitReadiness m (de_io_ready e) i lg (de_early e) (de_polls e) w = Some ((x, y), w1)"
    using assms(1) by (auto simp: deploy_readiness_def split: option.splits)
  have "stmts d (w_db w1)" using aw deploy_iosD [OF assms(2)] assms(3) by (elim stmts_awaitReadiness) simp_all
  with assms(1) aw show ?thesis
    by (auto simp: deploy_readiness_def Let_def split: option.splits readiness_error.splits)
qed

lemma stmts_finish_deploy:
  assumes "finish_deploy m cfg k e qp inst l n v failed out w = Some w'" "\<forall>io\<in>deploy_ios e. obeys io" "stmts d (w_db w)"
  shows "stmts d (w_db w')"
proof -
  note ios = deploy_iosD [OF assms(2)]
  let ?q = "case dc_quotas cfg of Some qr \<Rightarrow> if qp \<and> length failed < n then applyQuotasForDeploy m (de_io_ready e) qr k (si_id inst) w else ([], w)
     | None \<Rightarrow> ([], w)"
  have q: "stmts d (w_db (snd ?q))" using ios(2) assms(3) by (auto split: option.splits intro!: stmts_intro)
  let ?ran = "failed_charts_error failed n = None \<and> 0 < m_stabilize_timeout m \<and> kc_client k"
  obtain r w1 where rdy: "(if ?ran then deploy_readiness m e (si_id inst) (dl_id l) (snd ?q)
       else Some (\<lparr>rr_error = None, rr_warning = [], rr_output = [], rr_last = None\<rparr>, snd ?q)) = Some (r, w1)"
    using assms(1) by (auto simp: finish_deploy_def Let_def split: option.splits)
  have w1: "stmts d (w_db w1)"
    using rdy q stmts_deploy_readiness [OF _ assms(2) q] by (auto split: if_splits)
  have final: "stmts d (w_db (case br_cancelled (fst b) of
        Some c \<Rightarrow> finalizeDeploy m (de_io_final e) (si_id inst) l out' (DeployFailed c) v wn (snd b)
      | None \<Rightarrow> finalizeDeployWith m (de_io_final e) (si_id inst) l out' res v wn ign url (snd b)))"
    if "stmts d (w_db (snd b))" for b out' wn res ign url
    using that ios(5) by (auto split: option.splits intro!: stmts_intro)
  have b: "stmts d (w_db (snd (if c then runBlockingPostDeploy m (de_io_block e) (de_io_after e) (de_blocking e) (si_id inst) l
        (hook_metadata cfg) w1 else (no_result, w1))))" for c
    using ios w1 by (auto intro!: stmts_intro)
  show ?thesis
    using assms(1) unfolding finish_deploy_def Let_def rdy option.case prod.case option.inject
    by (drule_tac sym, hypsubst, intro final b)
qed

lemma stmts_deploy_charts:
  assumes "deploy_charts m cfg k h e job v out w = Some w'" "\<forall>io\<in>deploy_ios e. obeys io" "stmts d (w_db w)"
  shows "stmts d (w_db w')"
proof -
  note ios = deploy_iosD [OF assms(2)]
  have st: "stmts d (w_db (is_world (run_installs m cfg k h e p job o' (snd (prepare_namespace m (de_io e) cfg k h i ns w)))))" for p o' i ns
    using ios assms(3) unfolding run_installs_def by (simp add: stmts_intro)
  show ?thesis
    using assms(1) ios(5) st assms(3) stmts_finish_deploy [OF _ assms(2) st]
    by (auto simp: deploy_charts_def Let_def split: option.splits intro!: stmts_intro)
qed

lemma stmts_executeDeploy:
  assumes "executeDeploy m cfg k h e job v w = Some w'" "\<forall>io\<in>deploy_ios e. obeys io"
  shows "stmts (w_db w) (w_db w')"
proof -
  note ios = deploy_iosD [OF assms(2)]
  let ?q = "quota_rejection m (de_io e) cfg (si_id (j_instance job)) w"
  let ?h = "firePreHook m (de_io e) EventPreDeploy (j_instance job) (j_log job) (hook_metadata cfg) (de_hook e) (snd ?q)"
  let ?own = "ownsAfterPreHook (de_io e) (si_id (j_instance job)) (dl_id (j_log job)) (snd ?h)"
  let ?x = "extendDeadline m (de_io e) (j_log job) (Some (j_helm_timeout job)) (length (j_charts job)) (snd ?own)"
  have q: "stmts (w_db w) (w_db (snd ?q))" using ios(1) by (intro stmts_intro) simp_all
  have h: "stmts (w_db w) (w_db (snd ?h))" using ios(6) q by (rule stmts_firePreHook)
  have own: "stmts (w_db w) (w_db (snd ?own))" unfolding ownsAfterPreHook_def using ios(1) h by (rule stmts_ownsInstance)
  have x: "stmts (w_db w) (w_db (snd ?x))" using ios(1) own by (rule stmts_extendDeadline)
  show ?thesis
    using assms(1) ios(5) q h own x stmts_deploy_charts [OF _ assms(2) x]
    by (auto simp: executeDeploy_def Let_def cancelDeployAfterPreHook_def split: option.splits if_splits intro!: stmts_intro)
qed

lemma target_loop_db [simp]: "w_db (ts_world (target_loop m cfg k h e r i l ns tg cs st)) = w_db (ts_world st)"
  by (induction cs arbitrary: st) (auto simp: Let_def split: option.splits sum.splits)

lemma revision_loop_db [simp]: "w_db (rs_world (revision_loop m k h x i lg ns cs st)) = w_db (rs_world st)"
  by (induction cs arbitrary: st) (auto simp: Let_def split: option.splits sum.splits)

lemma stmts_rollbackToTarget [stmts_intro]:
  assumes "\<forall>io\<in>rollback_ios e. obeys io" "stmts d (w_db w)"
  shows "stmts d (w_db (ts_world (rollbackToTarget m cfg k h e i l ns cs tg w)))"
proof -
  have "stmts d (w_db (snd (case dc_quotas cfg of Some qr \<Rightarrow> if r then applyQuotasForDeploy m (rv_io e) qr k i w else ([], w)
      | None \<Rightarrow> ([], w))))" for r
    using rollback_iosD(1) [OF assms(1)] assms(2) by (auto split: option.splits intro!: stmts_intro)
  then show ?thesis using assms(2) by (simp add: rollbackToTarget_def Let_def split: option.split)
qed

lemma stmts_finish_rollback:
  assumes "finish_rollback um m k e inst l out err ap w = Some w'" "\<forall>io\<in>rollback_ios e. obeys io" "stmts d (w_db w)"
  shows "stmts d (w_db w')"
proof -
  note ios = rollback_iosD [OF assms(2)]
  have ready: "stmts d (w_db w1)" if "rollbackReadiness m k e (si_id inst) (si_namespace inst) (dl_id l) err w = Some (r, w1)" for r w1
    using that assms(3) ios by (auto simp: rollbackReadiness_def split: if_splits elim!: stmts_awaitReadiness)
  with assms(1) ios(3) show ?thesis by (auto simp: finish_rollback_def intro!: stmts_intro)
qed

lemma stmts_executeRollback:
  assumes "executeRollback um m cfg k h x e target meta job w = Some w'" "\<forall>io\<in>rollback_ios e. obeys io"
    and "IsValidStackStatus (j_prev_status job)"
  shows "stmts (w_db w) (w_db w')"
proof -
  note ios = rollback_iosD [OF assms(2)]
  let ?h = "firePreHook m (rv_io e) EventPreRollback (j_instance job) (j_log job) meta (rv_hook e) w"
  let ?own = "ownsAfterPreHook (rv_io e) (si_id (j_instance job)) (dl_id (j_log job)) (snd ?h)"
  let ?x = "extendDeadline m (rv_io e) (j_log job) (Some (j_helm_timeout job)) (length (j_charts job)) (snd ?own)"
  have h: "stmts (w_db w) (w_db (snd ?h))" using ios(4) by (rule stmts_firePreHook) simp
  have own: "stmts (w_db w) (w_db (snd ?own))" unfolding ownsAfterPreHook_def using ios(1) h by (rule stmts_ownsInstance)
  have x: "stmts (w_db w) (w_db (snd ?x))" using ios(1) own by (rule stmts_extendDeadline)
  have charts: "stmts (w_db w) (w_db z)" if "rollback_charts um m cfg k h x e target job' out u = Some z" "stmts (w_db w) (w_db u)"
    for job' out u z
    using that assms(2) by (auto simp: rollback_charts_def Let_def split: option.splits intro: stmts_intro elim!: stmts_finish_rollback)
  show ?thesis
    using assms(1,3) ios(3) h own x charts [OF _ x]
    by (auto simp: executeRollback_def Let_def split: option.splits if_splits intro!: stmts_intro)
qed

section \<open>Workers\<close>

lemma stmts_flush:
  assumes "\<forall>n. obeys (ios n)"
  shows "stmts (w_db w) (w_db (snd (flushLiveOutputs ios w)))"
proof -
  have one: "stmts d (w_db (flush_one (ios n) p w))" if "stmts d (w_db w)" for d n p w
    unfolding db_flush_one using assms that
    by (meson output_log rtranclp.rtrancl_into_rtrancl stmts_env)
  have "stmts d (w_db (flush_all ios n ps w))" if "stmts d (w_db w)" for d n ps w
    using that by (induction ps arbitrary: n w) (simp_all add: one)
  then show ?thesis by (simp add: flushLiveOutputs_def Let_def)
qed

lemma recovery_dbs [simp]:
  "w_db (recovery_audit cfg io l u now w) = w_db w" "w_db (recovery_broadcast cfg l msg w) = w_db w"
  "w_db (recovery_notify cfg inst a msg w) = w_db w"
  by (simp_all add: recovery_audit_def recovery_broadcast_def recovery_notify_def Let_def)

lemma stmts_interrupt:
  assumes "obeys io" "stmts d (w_db w)"
  shows "stmts d (w_db (snd (interrupt cfg io dbnow l now w)))"
proof -
  have w: "stmts d (w_db (snd (db_write io ''interrupt'' (InterruptOperation f1 f2 f3 c dbnow req)
      (snd (db_read io ''find_instance'' g w)))))" for f1 f2 f3 c req and g :: "fault \<Rightarrow> db \<Rightarrow> repo_error + stack_instance"
    using assms by (intro stmts_write stmts_read) (simp_all add: stmt_once)
  show ?thesis
    using w stmts_read [OF assms]
    by (auto simp: interrupt_def Let_def simp del: db_write_simps db_read_simps split: sum.splits option.splits)
qed

lemma stmts_recover_loop:
  "\<forall>n. obeys (ios n) \<Longrightarrow> stmts d (w_db w) \<Longrightarrow> stmts d (w_db (snd (recover_loop cfg ios dbnow cd now i ls closed w)))"
  by (induction ls arbitrary: i closed w) (auto simp: Let_def stmts_interrupt)

lemma stmts_RunOnce:
  assumes "obeys io" "\<forall>n. obeys (ios n)"
  shows "stmts (w_db w) (w_db (snd (RunOnce cfg io dbnow0 ios dbnow cd now dbnow_end w)))"
proof -
  have "stmts (w_db w) (w_db (snd (recover cfg io dbnow0 ios dbnow cd now w)))"
    using assms by (auto simp: recover_def Let_def split: sum.splits intro!: stmts_recover_loop stmts_env)
  then have "stmts (w_db w) (w_db (snd (db_write io s (\<lambda>d. let res = hb_DeleteOlderThan flt dbnow_end age (d_heartbeats d)
      in (fst res, d\<lparr>d_heartbeats := snd res\<rparr>)) (snd (recover cfg io dbnow0 ios dbnow cd now w)))))" for s flt age
    using assms(1) by (intro stmts_write) (auto simp: Let_def intro!: stmts_other)
  then show ?thesis by (simp add: RunOnce_def Let_def)
qed

lemma stmts_log_batches:
  assumes "batch_loop dl_id d_logs put_logs sel (\<lambda>dbnow _. finished_log age dbnow) n rounds k d = Some (res, d')"
    and "\<forall>r\<in>set rounds. \<forall>d. stmts d (rb_env_select r d) \<and> stmts d (rb_env_delete r d)"
  shows "stmts d d'"
  using assms
proof (induction rounds arbitrary: k d)
  case (Cons r rounds)
  let ?d2 = "rb_env_delete r (rb_env_select r d)"
  have e: "stmts d (rb_env_select r d)" "stmts d ?d2" using Cons.prems(2) by (auto intro: rtranclp_trans)
  have "stmts ?d2 (put_logs (delete_ids dl_id (finished_log age (rb_now_delete r)) ids (d_logs ?d2)) ?d2)" for ids
    unfolding delete_ids_def
    by (intro r_into_rtranclp delete_logs) (auto simp: finished_log_def finishedDeployLogStatuses_def)
  then have "stmts d (put_logs (delete_ids dl_id (finished_log age (rb_now_delete r)) ids (d_logs ?d2)) ?d2)" for ids
    using e(2) rtranclp_trans by fast
  with e Cons show ?case
    by (auto simp: Let_def split: if_splits option.splits intro: rtranclp_trans)
qed simp

lemma stmts_retention:
  assumes "DeleteDeploymentLogsOlderThan age n rounds d = Some (res, d')"
    and "\<forall>r\<in>set rounds. \<forall>d. stmts d (rb_env_select r d) \<and> stmts d (rb_env_delete r d)"
  shows "stmts d d'"
  using assms unfolding DeleteDeploymentLogsOlderThan_def deleteInBatches_def by (rule stmts_log_batches)

end
