(* ===== verification/CleanupRun.thy ===== *)
theory CleanupRun
  imports CleanupConditions Statements
begin

text \<open>
  The cleanup of stacks: \<open>deployer/cleanup_executor.go\<close> and \<open>deployer/expiry_stopper.go\<close> (the actions),
  \<open>scheduler/scheduler.go\<close> (policy runs, their records, the catch-up of missed runs) and
  \<open>ttl/reaper.go\<close>, \<open>ttl/warner.go\<close> (expiry). The scheduler knows its executor by an interface; the locale
  \<open>action_executor\<close> states what a policy run relies on and is interpreted by the executor of the code.
\<close>

section \<open>The executor\<close>

abbreviation TriggerTTL :: string where "TriggerTTL \<equiv> ''ttl''"
abbreviation EventPreInstanceDelete :: string where "EventPreInstanceDelete \<equiv> ''pre-instance-delete''"

datatype exec_error =
    ExecCancelled
  | ExecBusy string string
  | ExecNoManager string
  | ExecHookStopped string
  | FindingDefinition repo_error
  | ListingCharts repo_error
  | NoCharts string
  | ExecConflict string
  | ExecManager manager_error
  | ExecDelete repo_error
  | UnknownAction string

type_synonym chart_lists = "string \<Rightarrow> repo_error + chart_config list"
type_synonym exec_result = "(exec_error option \<times> job option) \<times> world"

text \<open>The definition of an instance and its charts; \<open>chartsOf\<close> gives the charts of a definition.\<close>

definition definition_charts :: "chart_lists \<Rightarrow> io \<Rightarrow> stack_instance \<Rightarrow> world \<Rightarrow> (exec_error + string \<times> chart_config list) \<times> world" where
  "definition_charts chartsOf io inst w =
     (let r = db_read io ''find_definition'' (\<lambda>flt. def_FindByID ''find_by_id'' flt (si_stack_definition_id inst)) w
      in (case fst r of
            Inl e \<Rightarrow> Inl (FindingDefinition e)
          | Inr def \<Rightarrow> (case chartsOf (sd_id def) of Inl e \<Rightarrow> Inl (ListingCharts e) | Inr charts \<Rightarrow> Inr (sd_id def, charts)), snd r))"

definition resolveCharts :: "chart_lists \<Rightarrow> io \<Rightarrow> stack_instance \<Rightarrow> world \<Rightarrow> (exec_error + chart_config list) \<times> world" where
  "resolveCharts chartsOf io inst w =
     (let r = definition_charts chartsOf io inst w
      in (case fst r of
            Inl e \<Rightarrow> Inl e
          | Inr (def, charts) \<Rightarrow> if charts = [] then Inl (NoCharts def) else Inr charts, snd r))"

definition started_job :: "(manager_error + string \<times> job) \<times> world \<Rightarrow> exec_result" where
  "started_job r = (case fst r of Inl e \<Rightarrow> ((Some (ExecManager e), None), snd r) | Inr (lg, j) \<Rightarrow> ((None, Some j), snd r))"

definition StopInstance :: "manager \<Rightarrow> chart_lists \<Rightarrow> io \<Rightarrow> caller \<Rightarrow> string \<Rightarrow> stack_instance \<Rightarrow> world \<Rightarrow> exec_result" where
  "StopInstance m chartsOf io c logID inst w =
     (let r = resolveCharts chartsOf io inst w
      in case fst r of
           Inl e \<Rightarrow> ((Some e, None), snd r)
         | Inr charts \<Rightarrow> started_job (StopWithCharts m io c logID inst
                           (map (\<lambda>ch. \<lparr>ci_config = ch, ci_values = [], ci_branch = []\<rparr>) charts) (snd r)))"

definition CleanInstance :: "manager \<Rightarrow> chart_lists \<Rightarrow> io \<Rightarrow> caller \<Rightarrow> string \<Rightarrow> stack_instance \<Rightarrow> world \<Rightarrow> exec_result" where
  "CleanInstance m chartsOf io c logID inst w =
     (let r = resolveCharts chartsOf io inst w
      in case fst r of
           Inl e \<Rightarrow> ((Some e, None), snd r)
         | Inr charts \<Rightarrow> started_job (Clean m io c logID inst charts (snd r)))"

definition fireTriggered :: "manager \<Rightarrow> io \<Rightarrow> caller \<Rightarrow> string \<Rightarrow> stack_instance \<Rightarrow> world \<Rightarrow> world" where
  "fireTriggered m io c event inst w =
     (if m_hooks m then emit (HookFired event inst [] (io_now io) [] (ca_trigger c)) w else w)"

definition deleted_message :: "caller \<Rightarrow> stack_instance \<Rightarrow> string" where
  "deleted_message c inst =
     (case ca_trigger c of
        Some t \<Rightarrow> if tr_type t = TriggerCleanupPolicy \<and> tr_name t \<noteq> []
                  then ''Stack '' @ si_name inst @ '' has been deleted by cleanup policy '' @ go_quote (tr_name t)
                  else ''Stack '' @ si_name inst @ '' has been deleted''
      | None \<Rightarrow> ''Stack '' @ si_name inst @ '' has been deleted'')"

definition afterDelete :: "manager \<Rightarrow> io \<Rightarrow> caller \<Rightarrow> stack_instance \<Rightarrow> world \<Rightarrow> world" where
  "afterDelete m io c inst w =
     (let w1 = (if si_id inst = [] then w else broadcastInstanceDeleted m (si_id inst) [] w);
          w2 = fireTriggered m io c EventDeleteCompleted inst (fireTriggered m io c EventPostInstanceDelete inst w1);
          trigger = (case ca_trigger c of Some t \<Rightarrow> if tr_type t = [] then None else Some t | None \<Rightarrow> None)
      in if m_notifier m
         then emit (Notified (si_id inst) ''instance.deleted'' ''Stack deleted'' (deleted_message c inst) trigger []) w2 else w2)"

definition busy_statuses :: "string list" where
  "busy_statuses = [StackStatusRunning, StackStatusPartial, StackStatusDeploying, StackStatusStabilizing, StackStatusStopping,
     StackStatusCleaning, StackStatusQueued]"

text \<open>The two ways of a delete: a clean that deletes at its end, or the delete of the row at once.\<close>

definition delete_by_clean :: "manager \<Rightarrow> chart_lists \<Rightarrow> io \<Rightarrow> caller \<Rightarrow> string \<Rightarrow> stack_instance \<Rightarrow> world \<Rightarrow> exec_result" where
  "delete_by_clean m chartsOf io c logID inst w =
     (let r = definition_charts chartsOf io inst w
      in case fst r of
           Inl e \<Rightarrow> ((Some e, None), snd r)
         | Inr (def, charts) \<Rightarrow>
             (let s = CleanForDelete m io (c\<lparr>ca_cancelled := False\<rparr>) logID inst charts (snd r)
              in case fst s of
                   Inl (UpdatingInstance ErrDeleteConflict) \<Rightarrow> ((Some (ExecConflict (si_id inst)), None), snd s)
                 | _ \<Rightarrow> started_job s))"

definition delete_row :: "manager option \<Rightarrow> io \<Rightarrow> caller \<Rightarrow> stack_instance \<Rightarrow> world \<Rightarrow> exec_result" where
  "delete_row mo io c inst w =
     (let tx = (case mo of None \<Rightarrow> False | Some m \<Rightarrow> m_tx m);
          r = (if tx then DeleteInstanceWithOwnedDefinition io inst w
               else db_write io ''delete_instance'' (on_instances (inst_Delete (io_fault io ''delete_instance'') (si_id inst))) w)
      in case fst r of
           Inl e \<Rightarrow> ((Some (ExecDelete e), None), snd r)
         | Inr _ \<Rightarrow> ((None, None), case mo of None \<Rightarrow> snd r | Some m \<Rightarrow> afterDelete m io c inst (snd r)))"

text \<open>\<open>hookErr\<close>: the answer of the subscribers of \<open>pre-instance-delete\<close>.\<close>

definition DeleteInstance ::
  "manager option \<Rightarrow> chart_lists \<Rightarrow> io \<Rightarrow> caller \<Rightarrow> string \<Rightarrow> goerr option \<Rightarrow> stack_instance \<Rightarrow> world \<Rightarrow> exec_result" where
  "DeleteInstance mo chartsOf io c logID hookErr inst w =
     (if ca_cancelled c then ((Some ExecCancelled, None), w)
      else if si_status inst \<in> set busy_statuses then ((Some (ExecBusy (si_id inst) (si_status inst)), None), w)
      else
        (let needsClean = si_status inst \<in> {StackStatusStopped, StackStatusError}
         in case mo of
              None \<Rightarrow> if needsClean then ((Some (ExecNoManager (si_id inst)), None), w) else delete_row mo io c inst w
            | Some m \<Rightarrow>
                (let w1 = fireTriggered m io c EventPreInstanceDelete inst w
                 in case (if m_hooks m then hookErr else None) of
                      Some e \<Rightarrow> ((Some (ExecHookStopped (UserMessage e EventPreInstanceDelete ''delete'')), None), w1)
                    | None \<Rightarrow> if needsClean then delete_by_clean m chartsOf io c logID inst w1 else delete_row mo io c inst w1)))"

section \<open>Policy runs\<close>

record cleanup_policy =
  cp_created_at :: gtime
  cp_updated_at :: gtime
  cp_last_run_at :: "gtime option"
  cp_id :: string
  cp_name :: string
  cp_cluster_id :: string
  cp_action :: string
  cp_condition :: string
  cp_schedule :: string
  cp_enabled :: bool
  cp_dry_run :: bool

datatype cleanup_status = ResultSuccess | ResultError exec_error | ResultDryRun

record cleanup_result =
  cu_instance_id :: string
  cu_instance_name :: string
  cu_namespace :: string
  cu_owner_id :: string
  cu_action :: string
  cu_status :: cleanup_status

text \<open>
  What the world offers the turn of one instance: whether the context has ended before it, the clock, the
  calls, the identifier of a new log, whether the context has ended when the executor asks, the answer
  of the delete hook, and whether the context has ended when the action returned an error.
\<close>

record turn =
  tu_done :: bool
  tu_now :: gtime
  tu_io :: io
  tu_log_id :: string
  tu_cancelled :: bool
  tu_hook_error :: "goerr option"
  tu_done_after :: bool

type_synonym executor = "turn \<Rightarrow> hook_trigger \<Rightarrow> string \<Rightarrow> stack_instance \<Rightarrow> world \<Rightarrow> exec_result"

definition policyTrigger :: "cleanup_policy \<Rightarrow> hook_trigger" where
  "policyTrigger p = \<lparr>tr_type = TriggerCleanupPolicy, tr_id = cp_id p, tr_name = cp_name p\<rparr>"

text \<open>The executor of the code behind the three methods of the interface.\<close>

definition cleanup_executor :: "manager \<Rightarrow> chart_lists \<Rightarrow> executor" where
  "cleanup_executor m chartsOf t trigger action inst w =
     (let c = \<lparr>ca_cancelled = tu_cancelled t, ca_trigger = Some trigger\<rparr>
      in if action = ''stop'' then StopInstance m chartsOf (tu_io t) c (tu_log_id t) inst w
         else if action = ''clean'' then CleanInstance m chartsOf (tu_io t) c (tu_log_id t) inst w
         else if action = ''delete'' then DeleteInstance (Some m) chartsOf (tu_io t) c (tu_log_id t) (tu_hook_error t) inst w
         else ((Some (UnknownAction action), None), w))"

record scheduler =
  sc_executor :: "executor option"
  sc_audit :: bool
  sc_notifier :: bool
  sc_hooks :: bool

fun status_name :: "cleanup_status \<Rightarrow> string" where
  "status_name ResultSuccess = ''success''"
| "status_name (ResultError e) = ''error''"
| "status_name ResultDryRun = ''dry_run''"

definition createAuditEntry :: "scheduler \<Rightarrow> io \<Rightarrow> cleanup_policy \<Rightarrow> stack_instance \<Rightarrow> cleanup_status \<Rightarrow> world \<Rightarrow> world" where
  "createAuditEntry s io p inst st w =
     (if sc_audit s \<and> io_fault io ''audit'' = None
      then emit (Audited \<lparr>ia_entity_id = si_id inst, ia_action = ''cleanup_policy_executed'',
             ia_details = json_object [(''policy_id'', cp_id p), (''policy_name'', cp_name p), (''action'', cp_action p),
               (''status'', status_name st)],
             ia_timestamp = io_now io\<rparr>) w
      else w)"

record policy_run =
  pn_results :: "cleanup_result list"
  pn_jobs :: "job list"
  pn_interrupted :: bool
  pn_world :: world

definition cleanup_result_of :: "cleanup_policy \<Rightarrow> stack_instance \<Rightarrow> cleanup_status \<Rightarrow> cleanup_result" where
  "cleanup_result_of p inst st =
     \<lparr>cu_instance_id = si_id inst, cu_instance_name = si_name inst, cu_namespace = si_namespace inst, cu_owner_id = si_owner_id inst,
      cu_action = cp_action p, cu_status = st\<rparr>"

fun policy_loop ::
  "scheduler \<Rightarrow> cleanup_policy \<Rightarrow> bool \<Rightarrow> instance_filter \<Rightarrow> (nat \<Rightarrow> turn) \<Rightarrow> nat \<Rightarrow> stack_instance list \<Rightarrow> policy_run \<Rightarrow> policy_run" where
  "policy_loop s p dryRun f turns n [] run = run"
| "policy_loop s p dryRun f turns n (inst # insts) run =
     (let t = turns n in
      if tu_done t then run\<lparr>pn_interrupted := True\<rparr>
      else if \<not> matchesAt f inst (tu_now t) then policy_loop s p dryRun f turns (Suc n) insts run
      else
        (case (if dryRun then None else sc_executor s) of
           None \<Rightarrow>
             policy_loop s p dryRun f turns (Suc n) insts (run\<lparr>pn_results := pn_results run @ [cleanup_result_of p inst ResultDryRun]\<rparr>)
         | Some exec \<Rightarrow>
             (let r = exec t (policyTrigger p) (cp_action p) inst (pn_world run);
                  run1 = run\<lparr>pn_jobs := pn_jobs run @ (case snd (fst r) of None \<Rightarrow> [] | Some j \<Rightarrow> [j]), pn_world := snd r\<rparr>
              in if fst (fst r) \<noteq> None \<and> tu_done_after t then run1\<lparr>pn_interrupted := True\<rparr>
                 else (let st = (case fst (fst r) of None \<Rightarrow> ResultSuccess | Some e \<Rightarrow> ResultError e)
                       in policy_loop s p dryRun f turns (Suc n) insts
                            (run1\<lparr>pn_results := pn_results run @ [cleanup_result_of p inst st],
                                  pn_world := createAuditEntry s (tu_io t) p inst st (snd r)\<rparr>)))))"

datatype policy_error = ParsingCondition string | ListingInstances repo_error | FindingInstances repo_error

definition policy_instances :: "cleanup_policy \<Rightarrow> fault \<Rightarrow> db \<Rightarrow> policy_error + instances" where
  "policy_instances p flt d =
     (if cp_cluster_id p = ''all''
      then (case inst_List flt (d_instances d) of Inl e \<Rightarrow> Inl (ListingInstances e) | Inr t \<Rightarrow> Inr t)
      else (case inst_FindByCluster flt (cp_cluster_id p) (d_instances d) of Inl e \<Rightarrow> Inl (FindingInstances e) | Inr t \<Rightarrow> Inr t))"

definition executePolicyWithOptions ::
  "scheduler \<Rightarrow> io \<Rightarrow> (nat \<Rightarrow> turn) \<Rightarrow> cleanup_policy \<Rightarrow> bool \<Rightarrow> world \<Rightarrow> (policy_error + policy_run) \<times> world" where
  "executePolicyWithOptions s io turns p dryRun w =
     (case ParseCondition (cp_condition p) of
        Inl e \<Rightarrow> (Inl (ParsingCondition e), w)
      | Inr f \<Rightarrow>
          (let r = db_read io ''list_instances'' (policy_instances p) w
           in case fst r of
                Inl e \<Rightarrow> (Inl e, snd r)
              | Inr insts \<Rightarrow>
                  (let run = policy_loop s p dryRun f turns 0 insts
                               \<lparr>pn_results = [], pn_jobs = [], pn_interrupted = False, pn_world = snd r\<rparr>
                   in (Inr run, pn_world run))))"

section \<open>The record of a run\<close>

definition policy_FindByID :: "fault \<Rightarrow> string \<Rightarrow> cleanup_policy list \<Rightarrow> repo_error + cleanup_policy" where
  "policy_FindByID flt i t =
     (case flt of
        Some e \<Rightarrow> Inl (DatabaseError ''find_by_id'' e)
      | None \<Rightarrow> (case row_of cp_id i t of None \<Rightarrow> Inl (DatabaseError ''find_by_id'' ErrNotFound) | Some p \<Rightarrow> Inr p))"

definition policy_SetLastRunAt :: "fault \<Rightarrow> string \<Rightarrow> gtime \<Rightarrow> cleanup_policy list \<Rightarrow> (repo_error + unit) \<times> cleanup_policy list" where
  "policy_SetLastRunAt flt i now t =
     (let p = (\<lambda>r. cp_id r = i); f = (\<lambda>r. r\<lparr>cp_last_run_at := Some now\<rparr>)
      in case flt of
           Some e \<Rightarrow> (Inl (DatabaseError ''set_last_run_at'' e), t)
         | None \<Rightarrow> (if rows_changed p f t = 0 then Inl (DatabaseError ''set_last_run_at'' ErrNotFound) else Inr (), sql_update p f t))"

abbreviation maxMessageNames :: nat where "maxMessageNames \<equiv> 10"
abbreviation maxHookInstances :: nat where "maxHookInstances \<equiv> 200"
abbreviation maxHookErrorLen :: nat where "maxHookErrorLen \<equiv> 500"

definition joinNames :: "string list \<Rightarrow> nat \<Rightarrow> string" where
  "joinNames names limit =
     (if length names \<le> limit then Join names '', ''
      else Join (take limit names) '', '' @ '' and '' @ digits (length names - limit) @ '' more'')"

fun is_error :: "cleanup_status \<Rightarrow> bool" where
  "is_error (ResultError e) = True"
| "is_error _ = False"

text \<open>The title and the message of the summary.\<close>

definition policy_summary :: "cleanup_policy \<Rightarrow> cleanup_result list \<Rightarrow> string \<times> string" where
  "policy_summary p results =
     (let label = (if cp_dry_run p then '' (dry run)'' else []);
          names = map cu_instance_name (filter (\<lambda>r. \<not> is_error (cu_status r)) results);
          failed = length (filter (\<lambda>r. is_error (cu_status r)) results)
      in (''Cleanup policy '' @ go_quote (cp_name p) @ '' ran'' @ label,
          ''Policy '' @ go_quote (cp_name p) @ '' matched '' @ digits (length names) @ '' instance(s), action: '' @ cp_action p @ label
            @ (if names \<noteq> [] then '': '' @ joinNames names maxMessageNames else [])
            @ (if failed > 0 then '' ('' @ digits failed @ '' failed)'' else [])))"

definition ellipsis :: string where
  "ellipsis = map char_of [226 :: nat, 128, 166]"

fun rune_cut :: "string \<Rightarrow> nat \<Rightarrow> nat" where
  "rune_cut s 0 = 0"
| "rune_cut s (Suc n) = (if RuneStart (s ! Suc n) then Suc n else rune_cut s n)"

definition hookErrorText :: "string \<Rightarrow> string" where
  "hookErrorText msg =
     (let s = Join (Fields msg) '' ''
      in if length s > maxHookErrorLen then take (rune_cut s maxHookErrorLen) s @ ellipsis else s)"

record hook_instance =
  hi_id :: string
  hi_name :: string
  hi_namespace :: string
  hi_owner_id :: string
  hi_result :: string
  hi_error :: string

record cleanup_policy_run =
  cpr_policy :: cleanup_policy
  cpr_dry_run :: bool
  cpr_run :: string
  cpr_matched :: nat
  cpr_succeeded :: nat
  cpr_failed :: nat
  cpr_instances :: "hook_instance list"
  cpr_truncated :: bool

text \<open>\<open>error_text\<close> is \<open>Error()\<close> of the error of an action. The loop of \<open>buildPolicyRun\<close> over the results.\<close>

definition hook_instance_of :: "(exec_error \<Rightarrow> string) \<Rightarrow> cleanup_result \<Rightarrow> hook_instance" where
  "hook_instance_of error_text r =
     \<lparr>hi_id = cu_instance_id r, hi_name = cu_instance_name r, hi_namespace = cu_namespace r, hi_owner_id = cu_owner_id r,
      hi_result = status_name (cu_status r),
      hi_error = (case cu_status r of ResultError e \<Rightarrow> hookErrorText (error_text e) | _ \<Rightarrow> [])\<rparr>"

definition add_result :: "(exec_error \<Rightarrow> string) \<Rightarrow> cleanup_result \<Rightarrow> cleanup_policy_run \<Rightarrow> cleanup_policy_run" where
  "add_result error_text r out =
     (let out1 = (case cu_status r of
                    ResultSuccess \<Rightarrow> out\<lparr>cpr_succeeded := cpr_succeeded out + 1\<rparr>
                  | ResultError e \<Rightarrow> out\<lparr>cpr_failed := cpr_failed out + 1\<rparr>
                  | ResultDryRun \<Rightarrow> out)
      in if length (cpr_instances out1) \<ge> maxHookInstances then out1\<lparr>cpr_truncated := True\<rparr>
         else out1\<lparr>cpr_instances := cpr_instances out1 @ [hook_instance_of error_text r]\<rparr>)"

definition buildPolicyRun :: "(exec_error \<Rightarrow> string) \<Rightarrow> cleanup_policy \<Rightarrow> cleanup_result list \<Rightarrow> bool \<Rightarrow> string \<Rightarrow> cleanup_policy_run" where
  "buildPolicyRun error_text p results dryRun run =
     fold (add_result error_text) results
       \<lparr>cpr_policy = p, cpr_dry_run = dryRun, cpr_run = run, cpr_matched = length results, cpr_succeeded = 0, cpr_failed = 0,
        cpr_instances = [], cpr_truncated = False\<rparr>"

text \<open>
  A scheduled run: whether the term has ended before it, the read of the policy, the run itself, whether the
  term has ended after it, and the write of the time of the run. Other processes may edit the policies before
  either statement.
\<close>

record scheduled_env =
  se_done :: bool
  se_edit_before :: "cleanup_policy list \<Rightarrow> cleanup_policy list"
  se_find_fault :: fault
  se_io :: io
  se_turns :: "nat \<Rightarrow> turn"
  se_done_after :: bool
  se_edit_during :: "cleanup_policy list \<Rightarrow> cleanup_policy list"
  se_end :: gtime
  se_record_fault :: fault

record scheduled_run =
  sr_policies :: "cleanup_policy list"
  sr_world :: world
  sr_jobs :: "job list"
  sr_summary :: "(string \<times> string) option"
  sr_payload :: "cleanup_policy_run option"

definition executeScheduledPolicy ::
  "(exec_error \<Rightarrow> string) \<Rightarrow> scheduler \<Rightarrow> scheduled_env \<Rightarrow> string \<Rightarrow> cleanup_policy list \<Rightarrow> world \<Rightarrow> scheduled_run" where
  "executeScheduledPolicy error_text s e policyID t w =
     (let skip = (\<lambda>t w js. \<lparr>sr_policies = t, sr_world = w, sr_jobs = js, sr_summary = None, sr_payload = None\<rparr>)
      in if se_done e then skip t w []
         else (let t1 = se_edit_before e t
               in case policy_FindByID (se_find_fault e) policyID t1 of
                    Inl _ \<Rightarrow> skip t1 w []
                  | Inr p \<Rightarrow>
                      if \<not> cp_enabled p then skip t1 w []
                      else
                        (let r = executePolicyWithOptions s (se_io e) (se_turns e) p (cp_dry_run p) w;
                             results = (case fst r of Inl _ \<Rightarrow> [] | Inr run \<Rightarrow> pn_results run);
                             jobs = (case fst r of Inl _ \<Rightarrow> [] | Inr run \<Rightarrow> pn_jobs run);
                             interrupted = (case fst r of Inl _ \<Rightarrow> False | Inr run \<Rightarrow> pn_interrupted run);
                             t2 = se_edit_during e t1
                         in if se_done_after e \<or> interrupted then skip t2 (snd r) jobs
                            else (let t3 = snd (policy_SetLastRunAt (se_record_fault e) (cp_id p) (se_end e) t2);
                                      p' = p\<lparr>cp_last_run_at := Some (se_end e)\<rparr>
                                  in \<lparr>sr_policies = t3, sr_world = snd r, sr_jobs = jobs,
                                      sr_summary = (if sc_notifier s \<and> results \<noteq> [] then Some (policy_summary p' results) else None),
                                      sr_payload = (if sc_hooks s \<and> results \<noteq> []
                                        then Some (buildPolicyRun error_text p' results (cp_dry_run p') ''scheduled'') else None)\<rparr>))))"

section \<open>Missed runs\<close>

text \<open>
  A parsed cron expression: a fixed delay, or the function to the next time after a given one (none when
  there is no such time). The loop returns nothing when it does not end.
\<close>

datatype schedule = ConstantDelay duration | NextTime "gtime \<Rightarrow> gtime option"

abbreviation catchUpWindow :: duration where "catchUpWindow \<equiv> 5 * Minute"

partial_function (option) prev_loop :: "(gtime \<Rightarrow> gtime option) \<Rightarrow> gtime \<Rightarrow> gtime option \<Rightarrow> gtime option \<Rightarrow> gtime option option" where
  "prev_loop next now t prev =
     (case t of
        None \<Rightarrow> Some prev
      | Some x \<Rightarrow> if x < now then prev_loop next now (next x) (Some x) else Some prev)"

definition previousScheduledTime :: "(string \<Rightarrow> schedule option) \<Rightarrow> string \<Rightarrow> gtime \<Rightarrow> gtime option option" where
  "previousScheduledTime parse spec now =
     (case parse spec of
        None \<Rightarrow> Some None
      | Some (ConstantDelay d) \<Rightarrow> Some None
      | Some (NextTime next) \<Rightarrow> prev_loop next now (next (now - catchUpWindow)) None)"

text \<open>Whether the catch-up runs a policy that has a cron entry.\<close>

definition catches_up :: "(string \<Rightarrow> schedule option) \<Rightarrow> gtime \<Rightarrow> cleanup_policy \<Rightarrow> bool option" where
  "catches_up parse now p =
     map_option (\<lambda>prev. case prev of
         None \<Rightarrow> False
       | Some t \<Rightarrow> (case cp_last_run_at p of None \<Rightarrow> cp_created_at p | Some r \<Rightarrow> r) < t)
       (previousScheduledTime parse (cp_schedule p) now)"

section \<open>The contract of an executor\<close>

text \<open>
  What a policy run relies on: an action only issues statements (also while other replicas do), and an
  action that returns an error has started nothing.
\<close>

locale action_executor =
  fixes exec :: executor
  assumes issues: "obeys (tu_io t) \<Longrightarrow> stmts d (w_db w) \<Longrightarrow> stmts d (w_db (snd (exec t tr a inst w)))"
    and error_starts_nothing: "fst (fst (exec t tr a inst w)) = Some e \<Longrightarrow> snd (fst (exec t tr a inst w)) = None"
begin

lemma loop_issues:
  assumes "sc_executor s = Some exec" "\<forall>n. obeys (tu_io (turns n))" "stmts d (w_db (pn_world run))"
  shows "stmts d (w_db (pn_world (policy_loop s p dry f turns n insts run)))"
  using assms(3)
proof (induction insts arbitrary: n run)
  case (Cons inst insts)
  have "stmts d (w_db (snd (exec (turns n) (policyTrigger p) (cp_action p) inst (pn_world run))))"
    using assms(2) Cons.prems by (intro issues) simp_all
  with Cons assms(1) show ?case by (auto simp: Let_def createAuditEntry_def split: option.splits)
qed simp

lemma loop_jobs:
  assumes "sc_executor s = Some exec"
    and "length (pn_jobs run) \<le> length (filter (\<lambda>r. cu_status r = ResultSuccess) (pn_results run))"
  shows "let run' = policy_loop s p dry f turns n insts run
    in length (pn_jobs run') \<le> length (filter (\<lambda>r. cu_status r = ResultSuccess) (pn_results run'))"
  using assms(2)
proof (induction insts arbitrary: n run)
  case (Cons inst insts)
  have "fst (fst (exec (turns n) (policyTrigger p) (cp_action p) inst (pn_world run))) = Some e \<Longrightarrow>
      snd (fst (exec (turns n) (policyTrigger p) (cp_action p) inst (pn_world run))) = None" for e
    by (rule error_starts_nothing)
  with Cons assms(1) show ?case
    by (auto simp: Let_def cleanup_result_of_def split: option.splits)
qed simp

end

lemma stmts_definition_charts [stmts_intro]:
  "obeys io \<Longrightarrow> stmts d (w_db w) \<Longrightarrow> stmts d (w_db (snd (definition_charts chartsOf io inst w)))"
  "obeys io \<Longrightarrow> stmts d (w_db w) \<Longrightarrow> stmts d (w_db (snd (resolveCharts chartsOf io inst w)))"
  by (simp_all add: definition_charts_def resolveCharts_def Let_def stmts_env)

definition error_alone :: "exec_result \<Rightarrow> bool" where
  "error_alone r \<longleftrightarrow> fst (fst r) = None \<or> snd (fst r) = None"

lemma started_job_simps [simp]: "snd (started_job r) = snd r" "error_alone (started_job r)"
  by (auto simp: started_job_def error_alone_def split: sum.splits prod.splits)

lemma error_alone_simps [simp]: "error_alone ((None, j), w)" "error_alone ((e, None), w)"
  by (simp_all add: error_alone_def)

lemma errors_alone:
  "error_alone (StopInstance m chartsOf io c lg inst w)" "error_alone (CleanInstance m chartsOf io c lg inst w)"
  "error_alone (delete_by_clean m chartsOf io c lg inst w)" "error_alone (delete_row mo io c inst w)"
  by (simp_all add: StopInstance_def CleanInstance_def delete_by_clean_def delete_row_def Let_def
      split: sum.split manager_error.split repo_error.split prod.split)

lemma DeleteInstance_error_alone: "error_alone (DeleteInstance mo chartsOf io c lg he inst w)"
  by (simp add: DeleteInstance_def Let_def errors_alone split: option.split)

lemma stmts_started:
  assumes "obeys io" "stmts d (w_db w)"
  shows "stmts d (w_db (snd (StopWithCharts m io c lg inst charts w)))" "stmts d (w_db (snd (startClean m io c lg inst charts' del w)))"
  using assms stmts_StopWithCharts stmts_startClean by (meson rtranclp_trans)+

lemma after_delete_db [simp]: "w_db (afterDelete m io c inst w) = w_db w" "w_db (fireTriggered m io c ev inst w) = w_db w"
  by (simp_all add: afterDelete_def fireTriggered_def Let_def)

lemma stmts_DeleteInstance:
  assumes "obeys io" "stmts d (w_db w)"
  shows "stmts d (w_db (snd (DeleteInstance mo chartsOf io c lg he inst w)))"
proof -
  have row: "stmts d (w_db (snd (delete_row mo io c inst u)))" if "stmts d (w_db u)" for u
  proof -
    let ?del = "db_write io ''delete_instance'' (on_instances (inst_Delete (io_fault io ''delete_instance'') (si_id inst))) u"
    have "stmts d (w_db (snd ?del))" using assms(1) that by (intro stmts_write) (simp_all add: stmt_once)
    moreover have "stmts d (w_db (snd (DeleteInstanceWithOwnedDefinition io inst u)))" using assms(1) that by (rule stmts_delete_owned)
    ultimately show ?thesis
      by (auto simp: delete_row_def Let_def simp del: db_write_simps split: option.splits sum.splits)
  qed
  have clean: "stmts d (w_db (snd (delete_by_clean m chartsOf io c lg inst u)))" if "stmts d (w_db u)" for m u
    using assms(1) that
    by (auto simp: delete_by_clean_def CleanForDelete_def Let_def split: sum.splits manager_error.splits repo_error.splits
        intro!: stmts_started stmts_intro)
  show ?thesis
    using assms(2) row clean by (auto simp: DeleteInstance_def Let_def split: option.splits)
qed

interpretation cleanup: action_executor "cleanup_executor m chartsOf" for m chartsOf
proof
  show "stmts d (w_db (snd (cleanup_executor m chartsOf t tr a inst w)))" if "obeys (tu_io t)" "stmts d (w_db w)" for t d w tr a inst
    using that
    by (auto simp: cleanup_executor_def StopInstance_def CleanInstance_def Clean_def Let_def split: sum.splits
        intro!: stmts_started stmts_intro stmts_DeleteInstance)
  show "snd (fst (cleanup_executor m chartsOf t tr a inst w)) = None" if "fst (fst (cleanup_executor m chartsOf t tr a inst w)) = Some e" for t tr a inst w e
  proof -
    have "error_alone (cleanup_executor m chartsOf t tr a inst w)"
      by (simp add: cleanup_executor_def Let_def errors_alone DeleteInstance_error_alone)
    with that show ?thesis by (simp add: error_alone_def)
  qed
qed

lemma stmts_policy_run:
  assumes "sc_executor s = Some (cleanup_executor m chartsOf)" "obeys io" "\<forall>n. obeys (tu_io (turns n))"
  shows "stmts (w_db w) (w_db (snd (executePolicyWithOptions s io turns p dry w)))"
proof -
  have "stmts (w_db w) (w_db (snd (db_read io ''list_instances'' (policy_instances p) w)))"
    using assms(2) by (rule stmts_read) simp
  then show ?thesis
    using cleanup.loop_issues [OF assms(1,3)]
    by (auto simp: executePolicyWithOptions_def Let_def simp del: db_read_simps split: sum.splits)
qed

section \<open>Properties\<close>

text \<open>The instances a run acts on, and undisturbed turns at a fixed time.\<close>

definition undisturbed :: "gtime \<Rightarrow> turn \<Rightarrow> bool" where
  "undisturbed now t \<longleftrightarrow> \<not> tu_done t \<and> \<not> tu_done_after t \<and> tu_now t = now"

lemma loop_results:
  assumes "\<forall>n. undisturbed now (turns n)"
  shows "let run' = policy_loop s p dry f turns n insts run
    in map cu_instance_id (pn_results run') = map cu_instance_id (pn_results run) @ map si_id (filter (\<lambda>i. matchesAt f i now) insts)
     \<and> pn_interrupted run' = pn_interrupted run"
proof (induction insts arbitrary: n run)
  case (Cons inst insts)
  have "\<not> tu_done (turns n)" "\<not> tu_done_after (turns n)" "tu_now (turns n) = now"
    using assms by (auto simp: undisturbed_def)
  with Cons.IH show ?case by (auto simp: Let_def cleanup_result_of_def split: option.splits)
qed simp

lemma loop_dry:
  "pn_world (policy_loop s p True f turns n insts run) = pn_world run \<and> pn_jobs (policy_loop s p True f turns n insts run) = pn_jobs run
    \<and> (list_all (\<lambda>r. cu_status r = ResultDryRun) (pn_results run)
       \<longrightarrow> list_all (\<lambda>r. cu_status r = ResultDryRun) (pn_results (policy_loop s p True f turns n insts run)))"
  by (induction insts arbitrary: n run) (auto simp: Let_def cleanup_result_of_def)

text \<open>C33. A policy run covers exactly what its condition selects: an undisturbed run reports the matching instances of its
  clusters, each once and in the order of the list, whatever their actions return (an action that fails does
  not end the run), and it starts at most one operation for each success it reports.\<close>

theorem policy_run_covers_matches:
  assumes "executePolicyWithOptions s io turns p dry w = (Inr run, w')" "\<forall>n. undisturbed now (turns n)"
    and "sc_executor s = Some (cleanup_executor m chartsOf)"
  shows "\<exists>f insts. ParseCondition (cp_condition p) = Inr f
    \<and> policy_instances p (io_fault io ''list_instances'') (io_env io ''list_instances'' (w_db w)) = Inr insts
    \<and> map cu_instance_id (pn_results run) = map si_id (filter (\<lambda>i. matchesAt f i now) insts)
    \<and> \<not> pn_interrupted run
    \<and> length (pn_jobs run) \<le> length (filter (\<lambda>r. cu_status r = ResultSuccess) (pn_results run))"
proof -
  obtain f insts where f: "ParseCondition (cp_condition p) = Inr f"
    and i: "policy_instances p (io_fault io ''list_instances'') (io_env io ''list_instances'' (w_db w)) = Inr insts"
    and r: "run = policy_loop s p dry f turns 0 insts \<lparr>pn_results = [], pn_jobs = [], pn_interrupted = False,
      pn_world = snd (db_read io ''list_instances'' (policy_instances p) w)\<rparr>"
    using assms(1) by (auto simp: executePolicyWithOptions_def Let_def split: sum.splits)
  let ?start = "\<lparr>pn_results = [], pn_jobs = [], pn_interrupted = False, pn_world = snd (db_read io ''list_instances'' (policy_instances p) w)\<rparr>"
  show ?thesis
    using f i loop_results [OF assms(2), of s p dry f 0 insts ?start] cleanup.loop_jobs [OF assms(3), of ?start p dry f turns 0 insts]
    by (auto simp: Let_def r)
qed

text \<open>A dry run changes nothing: it writes no row, sends no event, starts no operation, and marks every reported
  instance as a dry run, also when an executor is configured.\<close>

theorem dry_run_changes_nothing:
  assumes "executePolicyWithOptions s io turns p True w = (Inr run, w')"
  shows "w_db w' = io_env io ''list_instances'' (w_db w) \<and> w_events w' = w_events w \<and> pn_jobs run = []
    \<and> list_all (\<lambda>r. cu_status r = ResultDryRun) (pn_results run)"
  using assms loop_dry by (auto simp: executePolicyWithOptions_def Let_def split: sum.splits)

lemma markCleanStart_ids: "map si_id (d_instances (snd (markCleanStart io i del d))) = map si_id (d_instances d)"
  by (auto simp: markCleanStart_def inst_MarkCleanStart_def Let_def split: option.splits)

lemma create_log_instances: "d_instances (snd (create_log io l d)) = d_instances d"
  by (simp add: create_log_def Let_def)

lemma clean_body_ids: "map si_id (d_instances (snd (tx_then (markCleanStart io i del) (\<lambda>_. create_log io l) d))) = map si_id (d_instances d)"
  using markCleanStart_ids [of io i del d] by (auto simp: tx_then_def create_log_instances split: prod.splits sum.splits)

lemma startClean_ids:
  assumes "calm io"
  shows "map si_id (d_instances (w_db (snd (startClean m io c lg inst charts del w)))) = map si_id (d_instances (w_db w))"
proof -
  have "map si_id (d_instances (snd (RunInTx flt wrap (tx_then (markCleanStart io i del) (\<lambda>_. create_log io l)) d))) = map si_id (d_instances d)"
    for flt i l d and wrap :: "repo_error \<Rightarrow> manager_error"
    using RunInTx_snd_cases [of flt wrap "tx_then (markCleanStart io i del) (\<lambda>_. create_log io l)" d] clean_body_ids by metis
  then have "map si_id (d_instances (w_db (snd (write_clean_start m io l i del u)))) = map si_id (d_instances (w_db u))" for l i u
    using assms markCleanStart_ids
    by (auto simp: write_clean_start_def in_tx_def Let_def create_log_instances split: sum.splits)
  then show ?thesis by (auto simp: startClean_def store_action_def Let_def split: sum.splits)
qed

lemma delete_by_clean_keeps:
  assumes "calm io"
  shows "map si_id (d_instances (w_db (snd (delete_by_clean m chartsOf io c lg inst w)))) = map si_id (d_instances (w_db w))
    \<and> (fst (fst (delete_by_clean m chartsOf io c lg inst w)) = None \<longrightarrow> snd (fst (delete_by_clean m chartsOf io c lg inst w)) \<noteq> None)"
proof -
  have r: "w_db (snd (definition_charts chartsOf io inst w)) = w_db w" using assms by (simp add: definition_charts_def Let_def)
  show ?thesis
    using startClean_ids [OF assms] r
    by (auto simp: delete_by_clean_def CleanForDelete_def started_job_def Let_def
        split: sum.splits manager_error.splits repo_error.splits prod.splits)
qed

text \<open>A delete by a policy never takes a stack away under an operation it knows of: an instance that is running or in
  an operation is refused and nothing changes; an instance that may still have resources in the cluster (stopped,
  error) keeps its row, which a clean removes at its end; and when a subscriber of the delete hook objects, the database
  is unchanged.\<close>

theorem policy_delete_guarded:
  assumes "DeleteInstance (Some m) chartsOf io c lg he inst w = ((err, job), w')"
    and "calm io"
  shows "(si_status inst \<in> set busy_statuses \<longrightarrow> err \<noteq> None \<and> w' = w)
    \<and> (si_status inst \<in> {StackStatusStopped, StackStatusError} \<longrightarrow>
         map si_id (d_instances (w_db w')) = map si_id (d_instances (w_db w)) \<and> (err = None \<longrightarrow> job \<noteq> None))
    \<and> (m_hooks m \<and> he \<noteq> None \<longrightarrow> err \<noteq> None \<and> w_db w' = w_db w)"
proof -
  have "busy_statuses = [StackStatusRunning, StackStatusPartial, StackStatusDeploying, StackStatusStabilizing, StackStatusStopping,
     StackStatusCleaning, StackStatusQueued]" by (simp add: busy_statuses_def)
  then show ?thesis
    using assms(1) delete_by_clean_keeps [OF assms(2), of m chartsOf c lg inst "fireTriggered m io c EventPreInstanceDelete inst w"]
    by (auto simp: DeleteInstance_def Let_def split: if_splits option.splits)
qed

text \<open>The times of a schedule as a set: \<open>next\<close> gives the least one after a given time, as the cron library documents.\<close>

definition schedule_of :: "gtime set \<Rightarrow> (gtime \<Rightarrow> gtime option) \<Rightarrow> bool" where
  "schedule_of S next \<longleftrightarrow> (\<forall>t. case next t of
       None \<Rightarrow> \<forall>y\<in>S. \<not> t < y
     | Some x \<Rightarrow> x \<in> S \<and> t < x \<and> (\<forall>y\<in>S. t < y \<longrightarrow> x \<le> y))"

lemma schedule_ofD:
  assumes "schedule_of S next"
  shows "next t = None \<Longrightarrow> y \<in> S \<Longrightarrow> y \<le> t" "next t = Some x \<Longrightarrow> x \<in> S \<and> t < x" "next t = Some x \<Longrightarrow> y \<in> S \<Longrightarrow> t < y \<Longrightarrow> x \<le> y"
  using assms unfolding schedule_of_def by (metis (no_types, lifting) option.simps(4) not_less, (metis (no_types, lifting) option.simps(5))+)

lemma prev_loop_latest:
  assumes "schedule_of S next"
  shows "\<exists>r. prev_loop next now (next t) prev = Some r
    \<and> r = (if \<exists>x\<in>S. t < x \<and> x < now then Some (Max {x\<in>S. t < x \<and> x < now}) else prev) \<and> finite {x\<in>S. t < x \<and> x < now}"
proof (induction "nat (now - t)" arbitrary: t prev rule: less_induct)
  case less
  have fin: "finite {x\<in>S. t < x \<and> x < now}" by (rule finite_subset [of _ "{t<..<now}"]) auto
  show ?case
  proof (cases "next t")
    case None
    with schedule_ofD(1) [OF assms None] fin show ?thesis by (subst prev_loop.simps) force
  next
    case (Some x)
    note x = schedule_ofD(2,3) [OF assms Some]
    show ?thesis
    proof (cases "x < now")
      case False
      with x Some fin show ?thesis by (subst prev_loop.simps) force
    next
      case True
      let ?T = "{y\<in>S. t < y \<and> y < now}" and ?X = "{y\<in>S. x < y \<and> y < now}"
      have f: "finite ?X" by (rule finite_subset [OF _ fin]) (use x in auto)
      have T: "?T = insert x ?X" using x True by force
      have m: "Max ?T = (if ?X = {} then x else Max ?X)"
      proof (cases "?X = {}")
        case False
        then have "Max ?X \<in> ?X" by (rule Max_in [OF f])
        then have "x \<le> Max ?X" by simp
        with False f show ?thesis unfolding T by (subst Max_insert) auto
      next
        case True
        then show ?thesis unfolding T by (simp only: True Max_singleton if_True)
      qed
      have "nat (now - x) < nat (now - t)" using x(1) True by simp
      from less.hyps [OF this, of "Some x"] have "prev_loop next now (next x) (Some x) = Some (Some (Max ?T))" unfolding m by auto
      moreover have "x \<in> ?T" using x(1) True by simp
      ultimately show ?thesis using Some True fin by (subst prev_loop.simps) auto
    qed
  qed
qed

text \<open>The catch-up of a new leader ends and finds exactly the missed runs: a policy is run at once if and only if its
  schedule has a time within the last five minutes, before now, and after its last run (its creation when it never ran). So
  a run that was recorded is not repeated, and one that a leader change swallowed is made up for.\<close>

theorem catch_up_exact:
  assumes "parse (cp_schedule p) = Some (NextTime next)" "schedule_of S next"
  shows "catches_up parse now p = Some (\<exists>x\<in>S. now - catchUpWindow < x \<and> x < now
     \<and> (case cp_last_run_at p of None \<Rightarrow> cp_created_at p | Some r \<Rightarrow> r) < x)"
proof -
  let ?W = "{x\<in>S. now - catchUpWindow < x \<and> x < now}" and ?ref = "case cp_last_run_at p of None \<Rightarrow> cp_created_at p | Some r \<Rightarrow> r"
  obtain r where r: "prev_loop next now (next (now - catchUpWindow)) None = Some r"
    and m: "r = (if \<exists>x\<in>S. now - catchUpWindow < x \<and> x < now then Some (Max ?W) else None)" and fin: "finite ?W"
    using prev_loop_latest [OF assms(2), of now "now - catchUpWindow" None] by blast
  have "?ref < Max ?W \<longleftrightarrow> (\<exists>x\<in>?W. ?ref < x)" if "?W \<noteq> {}" using Max_gr_iff [OF fin that] .
  then show ?thesis using r m assms(1) by (auto simp: catches_up_def previousScheduledTime_def)
qed

theorem catch_up_exact_witness:
  "catches_up (\<lambda>_. Some (NextTime (\<lambda>t. if t < 100 then Some 100 else None))) 200
     \<lparr>cp_created_at = 7, cp_updated_at = 7, cp_last_run_at = None, cp_id = ''p'', cp_name = ''nightly'', cp_cluster_id = ''all'', cp_action = ''stop'',
      cp_condition = ''idle_days:7'', cp_schedule = ''0 2 * * *'', cp_enabled = True, cp_dry_run = False\<rparr> = Some True"
proof -
  have "schedule_of {100} (\<lambda>t. if t < 100 then Some 100 else None)" by (auto simp: schedule_of_def)
  from catch_up_exact [OF _ this, of "\<lambda>_. Some (NextTime (\<lambda>t. if t < 100 then Some 100 else None))"
      "\<lparr>cp_created_at = 7, cp_updated_at = 7, cp_last_run_at = None, cp_id = ''p'', cp_name = ''nightly'', cp_cluster_id = ''all'', cp_action = ''stop'',
      cp_condition = ''idle_days:7'', cp_schedule = ''0 2 * * *'', cp_enabled = True, cp_dry_run = False\<rparr>" 200]
  show ?thesis by simp
qed

text \<open>The write of a run changes one column of one row.\<close>

lemma row_of_SetLastRunAt:
  "row_of cp_id j (snd (policy_SetLastRunAt None i now t)) = map_option (\<lambda>r. if j = i then r\<lparr>cp_last_run_at := Some now\<rparr> else r) (row_of cp_id j t)"
  by (cases "row_of cp_id j t") (auto simp: policy_SetLastRunAt_def Let_def row_of_sql_update dest: row_of_SomeD)

definition run_interrupted :: "(policy_error + policy_run) \<times> world \<Rightarrow> bool" where
  "run_interrupted r = (case fst r of Inl _ \<Rightarrow> False | Inr run \<Rightarrow> pn_interrupted run)"

text \<open>A scheduled run is recorded exactly when it was not cut short: the time of the run is then the last run of the
  policy, and every other column keeps what users wrote while the run went on (the policy may have been edited,
  renamed or disabled meanwhile); no other policy changes. A run that the end of the leadership interrupts is not
  recorded, so the next leader can make up for it.\<close>

theorem scheduled_run_recorded:
  assumes "\<not> se_done e" "policy_FindByID (se_find_fault e) i (se_edit_before e t) = Inr p" "cp_enabled p" "se_record_fault e = None"
  shows "row_of cp_id j (sr_policies (executeScheduledPolicy error_text s e i t w)) =
    map_option (\<lambda>q. if j = i \<and> \<not> se_done_after e \<and> \<not> run_interrupted (executePolicyWithOptions s (se_io e) (se_turns e) p (cp_dry_run p) w)
        then q\<lparr>cp_last_run_at := Some (se_end e)\<rparr> else q)
      (row_of cp_id j (se_edit_during e (se_edit_before e t)))"
proof -
  have "cp_id p = i" using assms(2) by (auto simp: policy_FindByID_def split: option.splits dest: row_of_SomeD)
  with assms show ?thesis
    by (auto simp: executeScheduledPolicy_def Let_def run_interrupted_def row_of_SetLastRunAt option.map_ident)
qed

lemma rune_cut_le: "rune_cut s n \<le> n"
  by (induction n) auto

lemma add_result_fields:
  "cpr_matched (add_result et r out) = cpr_matched out"
  "cpr_succeeded (add_result et r out) = cpr_succeeded out + (if cu_status r = ResultSuccess then 1 else 0)"
  "cpr_failed (add_result et r out) = cpr_failed out + (if is_error (cu_status r) then 1 else 0)"
  "cpr_instances (add_result et r out) = (if maxHookInstances \<le> length (cpr_instances out) then cpr_instances out
     else cpr_instances out @ [hook_instance_of et r])"
  "cpr_truncated (add_result et r out) \<longleftrightarrow> cpr_truncated out \<or> maxHookInstances \<le> length (cpr_instances out)"
  by (auto simp: add_result_def Let_def split: cleanup_status.splits)

lemma add_results:
  assumes "length (cpr_instances out) \<le> maxHookInstances"
  shows "let out' = fold (add_result et) rs out in
     cpr_matched out' = cpr_matched out
   \<and> cpr_succeeded out' = cpr_succeeded out + length (filter (\<lambda>r. cu_status r = ResultSuccess) rs)
   \<and> cpr_failed out' = cpr_failed out + length (filter (\<lambda>r. is_error (cu_status r)) rs)
   \<and> cpr_instances out' = take maxHookInstances (cpr_instances out @ map (hook_instance_of et) rs)
   \<and> (cpr_truncated out' \<longleftrightarrow> cpr_truncated out \<or> maxHookInstances < length (cpr_instances out) + length rs)"
  using assms
proof (induction rs arbitrary: out)
  case (Cons r rs)
  have "length (cpr_instances (add_result et r out)) \<le> maxHookInstances" using Cons.prems by (simp add: add_result_fields)
  from Cons.IH [OF this] Cons.prems show ?case by (auto simp: Let_def add_result_fields take_Cons')
qed simp

text \<open>The payload of a policy run counts truthfully and is bounded: it lists the first 200 results in order, says so
  when there are more, its counts cover all of them, and no error text is longer than 503 bytes.\<close>

theorem policy_payload_truthful:
  "let out = buildPolicyRun error_text p results dry kind in
     cpr_matched out = length results
   \<and> cpr_succeeded out + cpr_failed out + length (filter (\<lambda>r. cu_status r = ResultDryRun) results) = length results
   \<and> map hi_id (cpr_instances out) = take maxHookInstances (map cu_instance_id results)
   \<and> (cpr_truncated out \<longleftrightarrow> maxHookInstances < length results)
   \<and> list_all (\<lambda>x. length (hi_error x) \<le> maxHookErrorLen + 3) (cpr_instances out)"
proof -
  have parts: "length (filter (\<lambda>r. cu_status r = ResultSuccess) results) + length (filter (\<lambda>r. is_error (cu_status r)) results)
      + length (filter (\<lambda>r. cu_status r = ResultDryRun) results) = length results"
  proof (induction results)
    case (Cons r rs)
    then show ?case by (cases "cu_status r") auto
  qed simp
  have "length (hookErrorText msg) \<le> maxHookErrorLen + 3" for msg
    using rune_cut_le [of "Join (Fields msg) '' ''" maxHookErrorLen] by (auto simp: hookErrorText_def Let_def ellipsis_def)
  then have "list_all (\<lambda>x. length (hi_error x) \<le> maxHookErrorLen + 3) (map (hook_instance_of error_text) results)"
    by (auto simp: list_all_iff hook_instance_of_def split: cleanup_status.splits)
  then have "list_all (\<lambda>x. length (hi_error x) \<le> maxHookErrorLen + 3) (take maxHookInstances (map (hook_instance_of error_text) results))"
    by (auto simp: list_all_iff take_map dest!: in_set_takeD)
  then show ?thesis
    using add_results [of "\<lparr>cpr_policy = p, cpr_dry_run = dry, cpr_run = kind, cpr_matched = length results, cpr_succeeded = 0, cpr_failed = 0,
        cpr_instances = [], cpr_truncated = False\<rparr>" error_text results] parts
    by (simp add: buildPolicyRun_def Let_def take_map hook_instance_of_def comp_def)
qed

section \<open>Examples\<close>

definition example_policy :: cleanup_policy where
  "example_policy = \<lparr>cp_created_at = 7, cp_updated_at = 7, cp_last_run_at = None, cp_id = ''p'', cp_name = ''drafts'', cp_cluster_id = ''all'',
     cp_action = ''delete'', cp_condition = ''status:running'', cp_schedule = ''@daily'', cp_enabled = True, cp_dry_run = False\<rparr>"

definition example_turn :: turn where
  "example_turn = \<lparr>tu_done = False, tu_now = 50, tu_io = quiet 50, tu_log_id = ''l9'', tu_cancelled = False, tu_hook_error = None,
     tu_done_after = False\<rparr>"

definition example_scheduler :: scheduler where
  "example_scheduler = \<lparr>sc_executor = Some (cleanup_executor example_manager (\<lambda>_. Inr [])), sc_audit = True, sc_notifier = True, sc_hooks = True\<rparr>"

definition example_policy_run :: "bool \<Rightarrow> (policy_error + policy_run) \<times> world" where
  "example_policy_run dry = executePolicyWithOptions example_scheduler (quiet 50) (\<lambda>_. example_turn) example_policy dry
     (example_world [example_instance, example_instance\<lparr>si_id := ''i2'', si_status := StackStatusDraft\<rparr>] [] [])"

lemma example_filter: "ParseCondition ''status:running'' = Inr (empty_filter\<lparr>fi_status := ''running''\<rparr>)"
  by code_simp

lemma example_policy_results:
  "\<exists>run w. example_policy_run dry = (Inr run, w) \<and> map cu_instance_id (pn_results run) = [''i1'']
    \<and> map cu_status (pn_results run) = [if dry then ResultDryRun else ResultError (ExecBusy ''i1'' StackStatusRunning)]"
  by (simp add: example_policy_run_def executePolicyWithOptions_def example_policy_def example_filter db_read_def policy_instances_def
      inst_List_def query_def Let_def example_scheduler_def example_turn_def matchesAt_def empty_filter_def cleanup_result_of_def cleanup_executor_def
      DeleteInstance_def busy_statuses_def createAuditEntry_def)

theorem policy_run_covers_matches_witness:
  "\<exists>run w f. example_policy_run False = (Inr run, w) \<and> pn_results run \<noteq> [] \<and> \<not> pn_interrupted run
    \<and> map cu_instance_id (pn_results run) =
        map si_id (filter (\<lambda>i. matchesAt f i 50) [example_instance, example_instance\<lparr>si_id := ''i2'', si_status := StackStatusDraft\<rparr>])"
proof -
  obtain run w where r: "example_policy_run False = (Inr run, w)" and ids: "map cu_instance_id (pn_results run) = [''i1'']"
    using example_policy_results [of False] by (elim exE conjE) (rule that)
  let ?w = "example_world [example_instance, example_instance\<lparr>si_id := ''i2'', si_status := StackStatusDraft\<rparr>] [] []"
  have "\<forall>n::nat. undisturbed 50 example_turn" by (simp add: undisturbed_def example_turn_def)
  moreover have "sc_executor example_scheduler = Some (cleanup_executor example_manager (\<lambda>_. Inr []))" by (simp add: example_scheduler_def)
  ultimately obtain f insts where i: "policy_instances example_policy (io_fault (quiet 50) ''list_instances'')
      (io_env (quiet 50) ''list_instances'' (w_db ?w)) = Inr insts"
    and m: "map cu_instance_id (pn_results run) = map si_id (filter (\<lambda>i. matchesAt f i 50) insts)" and n: "\<not> pn_interrupted run"
    using policy_run_covers_matches [OF r [unfolded example_policy_run_def]] by metis
  have "insts = [example_instance, example_instance\<lparr>si_id := ''i2'', si_status := StackStatusDraft\<rparr>]"
    using i by (simp add: example_policy_def policy_instances_def inst_List_def query_def)
  with m have "map cu_instance_id (pn_results run) =
      map si_id (filter (\<lambda>i. matchesAt f i 50) [example_instance, example_instance\<lparr>si_id := ''i2'', si_status := StackStatusDraft\<rparr>])" by simp
  moreover have "pn_results run \<noteq> []" using ids by auto
  ultimately show ?thesis using r n by (intro exI conjI)
qed

theorem dry_run_changes_nothing_witness:
  "\<exists>run w. example_policy_run True = (Inr run, w) \<and> w_events w = [] \<and> pn_jobs run = [] \<and> pn_results run \<noteq> []
    \<and> list_all (\<lambda>r. cu_status r = ResultDryRun) (pn_results run)"
proof -
  obtain run w where r: "example_policy_run True = (Inr run, w)" and ids: "map cu_instance_id (pn_results run) = [''i1'']"
    using example_policy_results [of True] by (elim exE conjE) (rule that)
  from dry_run_changes_nothing [OF r [unfolded example_policy_run_def]] r ids show ?thesis by auto
qed

theorem policy_delete_guarded_witness:
  "fst (fst (DeleteInstance (Some example_manager) (\<lambda>_. Inr []) (quiet 50) \<lparr>ca_cancelled = False, ca_trigger = None\<rparr> ''l9'' None example_instance
     (example_world [example_instance] [] []))) \<noteq> None"
proof -
  let ?r = "DeleteInstance (Some example_manager) (\<lambda>_. Inr []) (quiet 50) \<lparr>ca_cancelled = False, ca_trigger = None\<rparr> ''l9'' None example_instance
     (example_world [example_instance] [] [])"
  have "calm (quiet 50)" by (simp add: calm_def)
  from policy_delete_guarded [OF _ this, of example_manager "\<lambda>_. Inr []" "\<lparr>ca_cancelled = False, ca_trigger = None\<rparr>" "''l9''" None
      example_instance "example_world [example_instance] [] []" "fst (fst ?r)" "snd (fst ?r)" "snd ?r"]
  show ?thesis by (simp add: busy_statuses_def)
qed

definition example_scheduled :: scheduled_env where
  "example_scheduled = \<lparr>se_done = False, se_edit_before = (\<lambda>t. t), se_find_fault = None, se_io = quiet 50, se_turns = (\<lambda>_. example_turn),
     se_done_after = False, se_edit_during = map (\<lambda>p. p\<lparr>cp_enabled := False\<rparr>), se_end = 60, se_record_fault = None\<rparr>"

theorem scheduled_run_recorded_witness:
  "row_of cp_id ''p'' (sr_policies (executeScheduledPolicy (\<lambda>_. ''busy'') example_scheduler example_scheduled ''p'' [example_policy]
     (example_world [] [] []))) = Some (example_policy\<lparr>cp_enabled := False, cp_last_run_at := Some 60\<rparr>)"
proof -
  have "policy_FindByID (se_find_fault example_scheduled) ''p'' (se_edit_before example_scheduled [example_policy]) = Inr example_policy"
    by (simp add: example_scheduled_def policy_FindByID_def example_policy_def)
  from scheduled_run_recorded [OF _ this, of "''p''" "\<lambda>_. ''busy''" example_scheduler "example_world [] [] []"]
  show ?thesis
    by (simp add: example_scheduled_def example_policy_def run_interrupted_def executePolicyWithOptions_def example_filter
        policy_instances_def inst_List_def query_def Let_def split: if_splits)
qed

lemma delete_ignores_status:
  assumes "w_db w = empty_db\<lparr>d_instances := [example_instance\<lparr>si_status := st\<rparr>], d_logs := ls\<rparr>"
  shows "fst (DeleteInstanceWithOwnedDefinition (quiet 50) (example_instance\<lparr>si_status := listed\<rparr>) w) = Inr ()"
    and "w_db (snd (DeleteInstanceWithOwnedDefinition (quiet 50) (example_instance\<lparr>si_status := listed\<rparr>) w)) = empty_db\<lparr>d_logs := ls\<rparr>"
  using assms
  by (simp_all add: DeleteInstanceWithOwnedDefinition_def in_tx_def db_write_def RunInTx_def DeleteInstanceRecord_def Let_def tx_then_def
      delete_step_def ignore_not_found_def quota_Delete_def on_instances_def inst_Delete_def cleanupOwnedDefinitionIfOwned_def
      def_FindByID_def without_parent_def empty_db_def)

text \<open>The delete of a draft looks at the listed copy only: a policy run that listed a stack as a draft deletes its row
  although a deploy has started since and is still running, where the clean of a stopped stack checks the status in the
  statement itself.\<close>

theorem policy_delete_ignores_newer_deploy:
  "let listed = example_instance\<lparr>si_status := StackStatusDraft\<rparr>;
       w = example_world [listed\<lparr>si_status := StackStatusDeploying\<rparr>] [example_log ''l1'' 40 DeployLogRunning] [];
       r = DeleteInstance (Some example_manager) (\<lambda>_. Inr []) (quiet 50) \<lparr>ca_cancelled = False, ca_trigger = None\<rparr> ''l9'' None listed w
   in fst (fst r) = None \<and> d_instances (w_db (snd r)) = [] \<and> d_logs (w_db (snd r)) = [example_log ''l1'' 40 DeployLogRunning]"
proof -
  let ?listed = "example_instance\<lparr>si_status := StackStatusDraft\<rparr>" and ?c = "\<lparr>ca_cancelled = False, ca_trigger = None\<rparr>"
  let ?w = "example_world [?listed\<lparr>si_status := StackStatusDeploying\<rparr>] [example_log ''l1'' 40 DeployLogRunning] []"
  let ?u = "fireTriggered example_manager (quiet 50) ?c EventPreInstanceDelete ?listed ?w"
  have "DeleteInstance (Some example_manager) (\<lambda>_. Inr []) (quiet 50) ?c ''l9'' None ?listed ?w
      = delete_row (Some example_manager) (quiet 50) ?c ?listed ?u"
    by (simp add: DeleteInstance_def busy_statuses_def Let_def)
  moreover have "w_db ?u = empty_db\<lparr>d_instances := [example_instance\<lparr>si_status := StackStatusDeploying\<rparr>],
      d_logs := [example_log ''l1'' 40 DeployLogRunning]\<rparr>"
    by (simp add: example_world_def empty_db_def)
  note delete_ignores_status [OF this, of StackStatusDraft]
  ultimately show ?thesis
    by (simp add: delete_row_def Let_def example_manager_def empty_db_def split: sum.split)
qed

end
