(* ===== verification/PolicySchedule.thy ===== *)
theory PolicySchedule
  imports CleanupRun "HOL-Library.AList"
begin

text \<open>
  The table of cleanup policies (\<open>database/cleanup_policy_repository.go\<close>, the check of \<open>models/validation.go\<close>), its edits by
  users (\<open>api/handlers/cleanup_policies.go\<close>), and the cron entries that the active scheduler keeps for it
  (\<open>scheduler/scheduler.go\<close>: activate, Reload, deactivate). The cron library is a parameter: which expressions it accepts and
  the identifiers it gives to new entries.
\<close>

section \<open>The table\<close>

type_synonym policies = "cleanup_policy list"

definition validCleanupActions :: "string list" where
  "validCleanupActions = [''stop'', ''clean'', ''delete'']"

text \<open>\<open>parse\<close> is \<open>cron.ParseStandard\<close>; the result is the text of the first complaint.\<close>

definition policy_Validate :: "(string \<Rightarrow> schedule option) \<Rightarrow> cleanup_policy \<Rightarrow> string option" where
  "policy_Validate parse p =
     (if cp_name p = [] then Some ''name is required''
      else if cp_action p \<notin> set validCleanupActions then Some ''action must be one of: stop, clean, delete''
      else if cp_condition p = [] then Some ''condition is required''
      else if cp_schedule p = [] then Some ''schedule is required''
      else if parse (cp_schedule p) = None then Some ''invalid cron schedule''
      else if cp_cluster_id p = [] then Some ''cluster_id is required''
      else None)"

definition policy_Create :: "(string \<Rightarrow> schedule option) \<Rightarrow> fault \<Rightarrow> gtime \<Rightarrow> string \<Rightarrow> cleanup_policy \<Rightarrow> policies \<Rightarrow> (repo_error + cleanup_policy) \<times> policies" where
  "policy_Create parse flt now uuid p t =
     (if policy_Validate parse p \<noteq> None then (Inl (DatabaseError ''create'' ErrValidation), t)
      else (let p' = p\<lparr>cp_id := (if cp_id p = [] then uuid else cp_id p), cp_created_at := now, cp_updated_at := now\<rparr>
            in case flt of
                 Some e \<Rightarrow> (Inl (DatabaseError ''create'' e), t)
               | None \<Rightarrow> if row_of cp_id (cp_id p') t \<noteq> None then (Inl (DatabaseError ''create'' ErrDuplicateKey), t)
                         else (Inr p', t @ [p'])))"

text \<open>\<open>Save\<close> writes all columns, and inserts the row when there is none.\<close>

definition policy_Update :: "(string \<Rightarrow> schedule option) \<Rightarrow> fault \<Rightarrow> gtime \<Rightarrow> cleanup_policy \<Rightarrow> policies \<Rightarrow> (repo_error + cleanup_policy) \<times> policies" where
  "policy_Update parse flt now p t =
     (if policy_Validate parse p \<noteq> None then (Inl (DatabaseError ''update'' ErrValidation), t)
      else (let p' = p\<lparr>cp_updated_at := now\<rparr>
            in case flt of
                 Some e \<Rightarrow> (Inl (DatabaseError ''update'' e), t)
               | None \<Rightarrow> (Inr p', sql_save cp_id (\<lambda>r. if cp_id r = cp_id p' then p' else r) p' (cp_id p') t)))"

definition policy_Delete :: "fault \<Rightarrow> string \<Rightarrow> policies \<Rightarrow> (repo_error + unit) \<times> policies" where
  "policy_Delete flt i t =
     (case flt of
        Some e \<Rightarrow> (Inl (DatabaseError ''delete'' e), t)
      | None \<Rightarrow> if row_of cp_id i t = None then (Inl (DatabaseError ''delete'' ErrNotFound), t)
                else (Inr (), filter (\<lambda>p. cp_id p \<noteq> i) t))"

definition policy_List :: "fault \<Rightarrow> policies \<Rightarrow> repo_error + policies" where
  "policy_List flt t = query flt ''list'' t"

definition policy_ListEnabled :: "fault \<Rightarrow> policies \<Rightarrow> repo_error + policies" where
  "policy_ListEnabled flt t = query flt ''list_enabled'' (filter cp_enabled t)"

section \<open>Edits\<close>

record policy_update =
  pu_name :: "string option"
  pu_cluster_id :: "string option"
  pu_action :: "string option"
  pu_condition :: "string option"
  pu_schedule :: "string option"
  pu_enabled :: "bool option"
  pu_dry_run :: "bool option"

definition present :: "'a option \<Rightarrow> 'a \<Rightarrow> 'a" where
  "present new old = (case new of None \<Rightarrow> old | Some x \<Rightarrow> x)"

definition apply_update :: "policy_update \<Rightarrow> cleanup_policy \<Rightarrow> cleanup_policy" where
  "apply_update r p = p\<lparr>cp_name := present (pu_name r) (cp_name p), cp_cluster_id := present (pu_cluster_id r) (cp_cluster_id p),
     cp_action := present (pu_action r) (cp_action p), cp_condition := present (pu_condition r) (cp_condition p),
     cp_schedule := present (pu_schedule r) (cp_schedule p), cp_enabled := present (pu_enabled r) (cp_enabled p),
     cp_dry_run := present (pu_dry_run r) (cp_dry_run p)\<rparr>"

datatype policy_edit_error = PolicyIDRequired | BadPolicy string | PolicyRepo repo_error

text \<open>Both checks of a new or changed policy.\<close>

definition check_policy :: "(string \<Rightarrow> schedule option) \<Rightarrow> cleanup_policy \<Rightarrow> policy_edit_error option" where
  "check_policy parse p =
     (case policy_Validate parse p of
        Some e \<Rightarrow> Some (BadPolicy e)
      | None \<Rightarrow> (case ParseCondition (cp_condition p) of Inl e \<Rightarrow> Some (BadPolicy e) | Inr _ \<Rightarrow> None))"

definition CreateCleanupPolicy ::
  "(string \<Rightarrow> schedule option) \<Rightarrow> fault \<Rightarrow> gtime \<Rightarrow> string \<Rightarrow> cleanup_policy \<Rightarrow> policies \<Rightarrow> (policy_edit_error + cleanup_policy) \<times> policies" where
  "CreateCleanupPolicy parse flt now uuid p t =
     (case check_policy parse p of
        Some e \<Rightarrow> (Inl e, t)
      | None \<Rightarrow> (let r = policy_Create parse flt now uuid p t
                 in (case fst r of Inl e \<Rightarrow> Inl (PolicyRepo e) | Inr q \<Rightarrow> Inr q, snd r)))"

text \<open>The edit reads the policy, and others may write the table (\<open>between\<close>) before the edit is stored.\<close>

definition UpdateCleanupPolicy ::
  "(string \<Rightarrow> schedule option) \<Rightarrow> fault \<Rightarrow> fault \<Rightarrow> gtime \<Rightarrow> string \<Rightarrow> policy_update \<Rightarrow> (policies \<Rightarrow> policies) \<Rightarrow> policies
   \<Rightarrow> (policy_edit_error + cleanup_policy) \<times> policies" where
  "UpdateCleanupPolicy parse flt flt2 now i u between t =
     (if i = [] then (Inl PolicyIDRequired, t)
      else case policy_FindByID flt i t of
             Inl e \<Rightarrow> (Inl (PolicyRepo e), t)
           | Inr existing \<Rightarrow>
               (let p = apply_update u existing
                in case check_policy parse p of
                     Some e \<Rightarrow> (Inl e, t)
                   | None \<Rightarrow> (let r = policy_Update parse flt2 now p (between t)
                              in (case fst r of Inl e \<Rightarrow> Inl (PolicyRepo e) | Inr q \<Rightarrow> Inr q, snd r))))"

section \<open>Cron entries\<close>

text \<open>
  The cron library: the expressions it accepts, and the identifier of the next entry. An entry is its identifier, its
  schedule and the policy its job runs.
\<close>

type_synonym cron_entry = "nat \<times> string \<times> string"

record cron_lib =
  cl_parse :: "string \<Rightarrow> schedule option"
  cl_id :: "cron_entry list \<Rightarrow> nat"

record cron_state =
  cs_active :: bool
  cs_cron :: "cron_entry list"
  cs_entry_map :: "(string \<times> nat) list"
  cs_loaded :: "(string \<times> string) list"

definition idle_cron :: cron_state where
  "idle_cron = \<lparr>cs_active = False, cs_cron = [], cs_entry_map = [], cs_loaded = []\<rparr>"

definition schedulePolicy :: "cron_lib \<Rightarrow> cleanup_policy \<Rightarrow> cron_state \<Rightarrow> cron_state" where
  "schedulePolicy lib p s =
     (if cl_parse lib (cp_schedule p) = None then s
      else (let k = cl_id lib (cs_cron s)
            in s\<lparr>cs_cron := cs_cron s @ [(k, cp_schedule p, cp_id p)], cs_entry_map := AList.update (cp_id p) k (cs_entry_map s)\<rparr>))"

definition load_one :: "cron_lib \<Rightarrow> cleanup_policy \<Rightarrow> cron_state \<Rightarrow> cron_state" where
  "load_one lib p s = schedulePolicy lib p (s\<lparr>cs_loaded := AList.update (cp_id p) (cp_schedule p) (cs_loaded s)\<rparr>)"

definition loadLocked :: "cron_lib \<Rightarrow> policies \<Rightarrow> cron_state \<Rightarrow> cron_state" where
  "loadLocked lib ps s = fold (load_one lib) ps (s\<lparr>cs_loaded := []\<rparr>)"

definition sameSchedulesLocked :: "policies \<Rightarrow> cron_state \<Rightarrow> bool" where
  "sameSchedulesLocked ps s \<longleftrightarrow> length ps = length (cs_loaded s)
     \<and> list_all (\<lambda>p. map_of (cs_loaded s) (cp_id p) = Some (cp_schedule p)) ps"

text \<open>The catch-up starts a run for the policies that have an entry and missed one.\<close>

definition catchUpLocked :: "cron_lib \<Rightarrow> policies \<Rightarrow> gtime \<Rightarrow> cron_state \<Rightarrow> string list" where
  "catchUpLocked lib ps now s =
     map cp_id (filter (\<lambda>p. map_of (cs_entry_map s) (cp_id p) \<noteq> None \<and> catches_up (cl_parse lib) now p = Some True) ps)"

definition activate :: "cron_lib \<Rightarrow> fault \<Rightarrow> gtime \<Rightarrow> policies \<Rightarrow> cron_state \<Rightarrow> (repo_error + string list) \<times> cron_state" where
  "activate lib flt now t s =
     (if cs_active s then (Inr [], s)
      else case policy_ListEnabled flt t of
             Inl e \<Rightarrow> (Inl e, s)
           | Inr ps \<Rightarrow> (let s1 = (loadLocked lib ps (s\<lparr>cs_cron := []\<rparr>))\<lparr>cs_active := True\<rparr>
                        in (Inr (catchUpLocked lib ps now s1), s1)))"

definition deactivate :: "cron_state \<Rightarrow> cron_state" where
  "deactivate s = (if cs_active s then idle_cron else s)"

definition cron_Remove :: "nat \<Rightarrow> cron_entry list \<Rightarrow> cron_entry list" where
  "cron_Remove k es = filter (\<lambda>e. fst e \<noteq> k) es"

definition Reload :: "cron_lib \<Rightarrow> fault \<Rightarrow> policies \<Rightarrow> cron_state \<Rightarrow> (repo_error + unit) \<times> cron_state" where
  "Reload lib flt t s =
     (if \<not> cs_active s then (Inr (), s)
      else case policy_ListEnabled flt t of
             Inl e \<Rightarrow> (Inl e, s)
           | Inr ps \<Rightarrow>
               if sameSchedulesLocked ps s then (Inr (), s)
               else (Inr (), loadLocked lib ps
                       (s\<lparr>cs_cron := fold (\<lambda>e es. cron_Remove (snd e) es) (cs_entry_map s) (cs_cron s), cs_entry_map := []\<rparr>)))"

text \<open>The table and the scheduler of one replica: users edit the table, the leadership comes and goes.\<close>

inductive sched_step :: "cron_lib \<Rightarrow> policies \<times> cron_state \<Rightarrow> policies \<times> cron_state \<Rightarrow> bool" for lib where
  edited: "keyed cp_id t' \<Longrightarrow> sched_step lib (t, s) (t', s)"
| activated: "sched_step lib (t, s) (t, snd (activate lib flt now t s))"
| reloaded: "sched_step lib (t, s) (t, snd (Reload lib flt t s))"
| deactivated: "sched_step lib (t, s) (t, deactivate s)"

section \<open>The entries follow the table\<close>

text \<open>What the scheduler relies on: an identifier of a new entry is not in use.\<close>

definition fresh_ids :: "cron_lib \<Rightarrow> bool" where
  "fresh_ids lib \<longleftrightarrow> (\<forall>es. cl_id lib es \<notin> fst ` set es)"

definition valid_pairs :: "cron_lib \<Rightarrow> (string \<times> string) list \<Rightarrow> (string \<times> string) list" where
  "valid_pairs lib l = filter (\<lambda>(i, sch). cl_parse lib sch \<noteq> None) l"

definition entries_ok :: "cron_lib \<Rightarrow> cron_state \<Rightarrow> bool" where
  "entries_ok lib s \<longleftrightarrow> distinct (map fst (cs_loaded s)) \<and> distinct (map fst (cs_cron s))
     \<and> map (\<lambda>(k, sch, i). (i, sch)) (cs_cron s) = valid_pairs lib (cs_loaded s)
     \<and> cs_entry_map s = map (\<lambda>(k, sch, i). (i, k)) (cs_cron s)"

definition cron_ok :: "cron_lib \<Rightarrow> cron_state \<Rightarrow> bool" where
  "cron_ok lib s \<longleftrightarrow> (if cs_active s then entries_ok lib s else s = idle_cron)"

lemma update_new: "k \<notin> fst ` set al \<Longrightarrow> AList.update k v al = al @ [(k, v)]"
  by (induction al) auto

lemma load_one_ok:
  assumes "fresh_ids lib" "entries_ok lib s" "cp_id p \<notin> fst ` set (cs_loaded s)"
  shows "entries_ok lib (load_one lib p s)" "cs_loaded (load_one lib p s) = cs_loaded s @ [(cp_id p, cp_schedule p)]"
    "cs_active (load_one lib p s) = cs_active s"
proof -
  have m: "cs_entry_map s = map (\<lambda>(k, sch, i). (i, k)) (cs_cron s)"
    and v: "map (\<lambda>(k, sch, i). (i, sch)) (cs_cron s) = valid_pairs lib (cs_loaded s)"
    using assms(2) by (simp_all add: entries_ok_def)
  have "fst ` set (cs_entry_map s) = fst ` set (map (\<lambda>(k, sch, i). (i, sch)) (cs_cron s))" unfolding m by force
  also have "\<dots> \<subseteq> fst ` set (cs_loaded s)" unfolding v by (auto simp: valid_pairs_def)
  finally have "cp_id p \<notin> fst ` set (cs_entry_map s)" using assms(3) by blast
  then have "AList.update (cp_id p) k (cs_entry_map s) = cs_entry_map s @ [(cp_id p, k)]" for k by (rule update_new)
  then show "entries_ok lib (load_one lib p s)"
    using assms m v by (auto simp: entries_ok_def load_one_def schedulePolicy_def Let_def update_new valid_pairs_def fresh_ids_def)
  show "cs_loaded (load_one lib p s) = cs_loaded s @ [(cp_id p, cp_schedule p)]" "cs_active (load_one lib p s) = cs_active s"
    using assms(3) by (simp_all add: load_one_def schedulePolicy_def Let_def update_new)
qed

lemma load_ok:
  assumes "fresh_ids lib" "entries_ok lib s" "distinct (map cp_id ps)" "cp_id ` set ps \<inter> fst ` set (cs_loaded s) = {}"
  shows "entries_ok lib (fold (load_one lib) ps s) \<and> cs_active (fold (load_one lib) ps s) = cs_active s
    \<and> cs_loaded (fold (load_one lib) ps s) = cs_loaded s @ map (\<lambda>p. (cp_id p, cp_schedule p)) ps"
  using assms(2-)
proof (induction ps arbitrary: s)
  case (Cons p ps)
  have n: "cp_id p \<notin> fst ` set (cs_loaded s)" using Cons.prems(3) by auto
  note one = load_one_ok [OF assms(1) Cons.prems(1) n]
  have "cp_id ` set ps \<inter> fst ` set (cs_loaded (load_one lib p s)) = {}"
    using Cons.prems(2,3) unfolding one(2) by auto
  with Cons.IH [OF one(1)] Cons.prems(2) one(2,3) show ?case by simp
qed simp

lemma loadLocked_ok:
  assumes "fresh_ids lib" "cs_cron s = []" "cs_entry_map s = []" "distinct (map cp_id ps)"
  shows "entries_ok lib (loadLocked lib ps s) \<and> cs_active (loadLocked lib ps s) = cs_active s
    \<and> cs_loaded (loadLocked lib ps s) = map (\<lambda>p. (cp_id p, cp_schedule p)) ps"
proof -
  have "entries_ok lib (s\<lparr>cs_loaded := []\<rparr>)" using assms(2,3) by (simp add: entries_ok_def valid_pairs_def)
  from load_ok [OF assms(1) this assms(4)] show ?thesis by (simp add: loadLocked_def)
qed

lemma remove_all: "fold (\<lambda>e es. cron_Remove (snd e) es) al es = filter (\<lambda>e. fst e \<notin> snd ` set al) es"
  by (induction al arbitrary: es) (auto simp: cron_Remove_def intro: filter_cong)

lemma removed_empty:
  assumes "entries_ok lib s"
  shows "fold (\<lambda>e es. cron_Remove (snd e) es) (cs_entry_map s) (cs_cron s) = []"
proof -
  have "cs_entry_map s = map (\<lambda>(k, sch, i). (i, k)) (cs_cron s)" using assms by (simp add: entries_ok_def)
  then show ?thesis by (force simp: remove_all filter_empty_conv)
qed

lemma enabled_distinct: "keyed cp_id t \<Longrightarrow> distinct (map cp_id (filter cp_enabled t))"
  by (simp add: keyed_def distinct_map_filter)

lemma cron_ok_step:
  assumes "fresh_ids lib" "sched_step lib (t, s) (t', s')" "keyed cp_id t \<and> cron_ok lib s"
  shows "keyed cp_id t' \<and> cron_ok lib s'"
  using assms(2)
proof cases
  case (activated flt now)
  from loadLocked_ok [OF assms(1) _ _ enabled_distinct, of "s\<lparr>cs_cron := []\<rparr>" t] assms(3) activated show ?thesis
    by (auto simp: activate_def Let_def cron_ok_def idle_cron_def policy_ListEnabled_def query_def entries_ok_def split: option.splits)
next
  case (reloaded flt)
  let ?s = "s\<lparr>cs_cron := fold (\<lambda>e es. cron_Remove (snd e) es) (cs_entry_map s) (cs_cron s), cs_entry_map := []\<rparr>"
  have "entries_ok lib (loadLocked lib (filter cp_enabled t) ?s) \<and> cs_active (loadLocked lib (filter cp_enabled t) ?s) = cs_active s"
    if "cs_active s"
    using loadLocked_ok [OF assms(1) _ _ enabled_distinct, of ?s t] removed_empty [of lib s] assms(3) that by (simp add: cron_ok_def)
  with assms(3) reloaded show ?thesis
    by (auto simp: Reload_def cron_ok_def policy_ListEnabled_def query_def split: option.splits)
qed (use assms(3) in \<open>auto simp: deactivate_def cron_ok_def idle_cron_def\<close>)

interpretation sched: invariant_system "sched_step lib" "\<lambda>(t, s). fresh_ids lib \<longrightarrow> keyed cp_id t \<and> cron_ok lib s" for lib
  by unfold_locales (auto dest: cron_ok_step)

lemma reachable_cron_ok:
  assumes "(sched_step lib)\<^sup>*\<^sup>* ([], idle_cron) (t, s)" "fresh_ids lib"
  shows "keyed cp_id t" "cron_ok lib s"
proof -
  have "cron_ok lib idle_cron" by (simp add: cron_ok_def idle_cron_def)
  with sched.keeps_star [OF assms(1)] assms(2) show "keyed cp_id t" "cron_ok lib s" by (simp_all add: keyed_def)
qed

lemma same_schedules:
  assumes "sameSchedulesLocked ps s" "distinct (map cp_id ps)" "distinct (map fst (cs_loaded s))"
  shows "set (cs_loaded s) = (\<lambda>p. (cp_id p, cp_schedule p)) ` set ps"
proof -
  let ?P = "map (\<lambda>p. (cp_id p, cp_schedule p)) ps"
  have sub: "set ?P \<subseteq> set (cs_loaded s)" using assms(1) by (auto simp: sameSchedulesLocked_def list_all_iff dest: map_of_SomeD)
  have "map fst ?P = map cp_id ps" by simp
  with assms(2) have "distinct ?P" by (metis distinct_map)
  moreover have "distinct (cs_loaded s)" using assms(3) by (simp add: distinct_map)
  ultimately have "card (set ?P) = card (set (cs_loaded s))"
    using assms(1) by (simp only: distinct_card sameSchedulesLocked_def length_map)
  with sub have "set ?P = set (cs_loaded s)" by (intro card_subset_eq) auto
  then show ?thesis by simp
qed

lemma entries_ok_pairs:
  assumes "entries_ok lib s"
  shows "set (map (\<lambda>(k, sch, i). (i, sch)) (cs_cron s)) = {x \<in> set (cs_loaded s). cl_parse lib (snd x) \<noteq> None}"
    "distinct (map (\<lambda>(k, sch, i). i) (cs_cron s))"
proof -
  have v: "map (\<lambda>(k, sch, i). (i, sch)) (cs_cron s) = valid_pairs lib (cs_loaded s)" using assms by (simp add: entries_ok_def)
  then show "set (map (\<lambda>(k, sch, i). (i, sch)) (cs_cron s)) = {x \<in> set (cs_loaded s). cl_parse lib (snd x) \<noteq> None}"
    by (auto simp: valid_pairs_def)
  have "map (\<lambda>(k, sch, i). i) (cs_cron s) = map fst (map (\<lambda>(k, sch, i). (i, sch)) (cs_cron s))" by auto
  also have "distinct \<dots>" unfolding v valid_pairs_def using assms by (auto simp: entries_ok_def intro: distinct_map_filter)
  finally show "distinct (map (\<lambda>(k, sch, i). i) (cs_cron s))" .
qed


section \<open>A run and an edit\<close>

text \<open>An edit of a policy forgets a run that was recorded after the edit read the policy: the edit stores the whole row it read, with
  the old time of the last run (although that column is not writable by the edit), and the next leader repeats the run.\<close>

theorem policy_edit_forgets_run:
  "let parse = (\<lambda>_. Some (NextTime (\<lambda>t. if t < 100 then Some 100 else None)));
       run = (\<lambda>t. snd (policy_SetLastRunAt None ''p'' 110 t));
       edit = \<lparr>pu_name = Some ''renamed'', pu_cluster_id = None, pu_action = None, pu_condition = None, pu_schedule = None,
         pu_enabled = None, pu_dry_run = None\<rparr>;
       r = UpdateCleanupPolicy parse None None 120 ''p'' edit run [example_policy]
   in map_option (catches_up parse 200) (row_of cp_id ''p'' (run [example_policy])) = Some (Some False)
    \<and> map_option (catches_up parse 200) (row_of cp_id ''p'' (snd r)) = Some (Some True)"
  by (simp add: Let_def UpdateCleanupPolicy_def policy_FindByID_def example_policy_def apply_update_def present_def check_policy_def
      policy_Validate_def validCleanupActions_def example_filter policy_Update_def sql_save_def sql_update_def policy_SetLastRunAt_def
      catches_up_def previousScheduledTime_def prev_loop.simps)

definition example_lib :: cron_lib where
  "example_lib = \<lparr>cl_parse = (\<lambda>e. if e = ''bad'' then None else Some (ConstantDelay Hour)), cl_id = (\<lambda>es. Suc (sum_list (map fst es)))\<rparr>"

definition example_cron :: cron_state where
  "example_cron = snd (activate example_lib None 50 [example_policy] idle_cron)"


end
