(* ===== verification/Expiry.thy ===== *)
theory Expiry
  imports CleanupRun
begin

text \<open>
  The expiry of stacks: \<open>ttl/reaper.go\<close> (a cycle of the reaper), \<open>ttl/warner.go\<close> (a check of the warner) and
  \<open>deployer/expiry_stopper.go\<close>. The reaper knows its stopper by an interface; the locale \<open>instance_stopper\<close> states what
  a cycle relies on and is interpreted by the stopper of the code.
\<close>

section \<open>The reaper\<close>

text \<open>A stopper gets the calls, whether the context has ended, and the identifier of a new log.\<close>

type_synonym stopper = "io \<Rightarrow> bool \<Rightarrow> string \<Rightarrow> stack_instance \<Rightarrow> world \<Rightarrow> exec_result"

definition expiry_StopInstance :: "manager \<Rightarrow> chart_lists \<Rightarrow> stopper" where
  "expiry_StopInstance m chartsOf io cancelled logID inst w =
     (let r = definition_charts chartsOf io inst w
      in case fst r of
           Inl e \<Rightarrow> ((Some e, None), snd r)
         | Inr (def, charts) \<Rightarrow>
             if charts = [] then ((Some (NoCharts def), None), snd r)
             else started_job (StopWithCharts m io
                    \<lparr>ca_cancelled = cancelled, ca_trigger = Some \<lparr>tr_type = TriggerTTL, tr_id = [], tr_name = []\<rparr>\<rparr> logID inst
                    (map (\<lambda>ch. \<lparr>ci_config = ch, ci_values = [], ci_branch = []\<rparr>) charts) (snd r)))"

record reaper =
  re_audit :: bool
  re_hub :: bool
  re_stopper :: "stopper option"
  re_notifier :: bool

definition notifyExpired :: "reaper \<Rightarrow> stack_instance \<Rightarrow> string \<Rightarrow> world \<Rightarrow> world" where
  "notifyExpired r inst outcome w =
     (if re_notifier r
      then emit (Notified (si_id inst) ''stack.expired'' ''Stack expired''
             (''Stack '' @ go_quote (si_name inst) @ '' ''
               @ (if si_ttl_minutes inst = 0 then ''reached its stop time'' else ''expired after its TTL'') @ '' and '' @ outcome)
             (Some \<lparr>tr_type = TriggerTTL, tr_id = [], tr_name = []\<rparr>) []) w
      else w)"

definition logExpiry :: "reaper \<Rightarrow> io \<Rightarrow> stack_instance \<Rightarrow> world \<Rightarrow> world" where
  "logExpiry r io inst w =
     (let w1 = (if re_audit r \<and> io_fault io ''audit'' = None
                then emit (Audited \<lparr>ia_entity_id = si_id inst, ia_action = ''expired'', ia_details = ''Instance expired after TTL'',
                       ia_timestamp = io_now io\<rparr>) w
                else w)
      in if re_hub r then emit (InstanceExpiredMsg inst) w1 else w1)"

text \<open>The turn of one instance: whether the context has ended before it, in the stopper, and after a failed stop.\<close>

record reap_turn =
  rt_done :: bool
  rt_io :: io
  rt_log_id :: string
  rt_cancelled :: bool
  rt_done_after :: bool

definition mark_expired :: "reaper \<Rightarrow> io \<Rightarrow> stack_instance \<Rightarrow> world \<Rightarrow> world" where
  "mark_expired r io inst w =
     (let inst' = inst\<lparr>si_status := StackStatusStopped, si_error_message := ''Expired (TTL)'', si_stopped_at := Some (io_now io),
            si_updated_at := io_now io\<rparr>;
          u = db_write io ''expire_instance'' (on_instances (inst_Update (io_fault io ''expire_instance'') (io_now io) inst')) w
      in case fst u of
           Inl _ \<Rightarrow> snd u
         | Inr stored \<Rightarrow> notifyExpired r stored ''was stopped'' (logExpiry r io stored (snd u)))"

text \<open>A stop that started has changed the instance of the caller (status, error message, time of the update).\<close>

fun reap_loop :: "reaper \<Rightarrow> (nat \<Rightarrow> reap_turn) \<Rightarrow> nat \<Rightarrow> stack_instance list \<Rightarrow> job list \<times> world \<Rightarrow> job list \<times> world" where
  "reap_loop r turns n [] s = s"
| "reap_loop r turns n (inst # insts) s =
     (let t = turns n; io = rt_io t
      in if rt_done t then s
         else case re_stopper r of
                None \<Rightarrow> reap_loop r turns (Suc n) insts (fst s, mark_expired r io inst (snd s))
              | Some stop \<Rightarrow>
                  (let x = stop io (rt_cancelled t) (rt_log_id t) inst (snd s)
                   in case fst x of
                        (None, Some j) \<Rightarrow>
                          (let inst' = (j_instance j)\<lparr>si_updated_at := io_now io\<rparr>
                           in reap_loop r turns (Suc n) insts
                                (fst s @ [j], notifyExpired r inst' ''is being stopped'' (logExpiry r io inst' (snd x))))
                      | (None, None) \<Rightarrow>
                          reap_loop r turns (Suc n) insts (fst s, notifyExpired r inst ''is being stopped'' (logExpiry r io inst (snd x)))
                      | (Some _, _) \<Rightarrow>
                          if rt_done_after t then (fst s, snd x)
                          else reap_loop r turns (Suc n) insts (fst s, mark_expired r io inst (snd x))))"

definition processExpired :: "reaper \<Rightarrow> io \<Rightarrow> (nat \<Rightarrow> reap_turn) \<Rightarrow> world \<Rightarrow> job list \<times> world" where
  "processExpired r io turns w =
     (let l = db_read io ''list_expired'' (\<lambda>flt d. inst_ListExpired flt (io_now io) (d_instances d)) w
      in case fst l of
           Inl _ \<Rightarrow> ([], snd l)
         | Inr expired \<Rightarrow> reap_loop r turns 0 expired ([], snd l))"

section \<open>The warner\<close>

text \<open>\<open>time.Duration.Truncate\<close> and the text of a duration with its sign.\<close>

definition Duration_Truncate :: "duration \<Rightarrow> duration \<Rightarrow> duration" where
  "Duration_Truncate d m = (if m \<le> 0 then d else (d sdiv m) * m)"

definition signed_Duration_String :: "duration \<Rightarrow> string" where
  "signed_Duration_String d = (if d < 0 then ''-'' @ Duration_String (- d) else Duration_String d)"

definition NewWarner_threshold :: "duration \<Rightarrow> duration" where
  "NewWarner_threshold threshold = (if threshold \<le> 0 then 30 * Minute else threshold)"

definition expiring_warning :: "stack_instance \<Rightarrow> gtime \<Rightarrow> gtime \<Rightarrow> event" where
  "expiring_warning inst expiresAt now =
     Notified (si_id inst) ''stack.expiring'' ''Stack expiring soon''
       (''Stack '' @ go_quote (si_name inst) @ '' will expire in '' @ signed_Duration_String (Duration_Truncate (expiresAt - now) Minute)) None []"

fun warn_loop :: "(nat \<Rightarrow> io) \<Rightarrow> nat \<Rightarrow> stack_instance list \<Rightarrow> world \<Rightarrow> world" where
  "warn_loop ios n [] w = w"
| "warn_loop ios n (inst # insts) w =
     (case si_expires_at inst of
        None \<Rightarrow> warn_loop ios (Suc n) insts w
      | Some expiresAt \<Rightarrow>
          (let io = ios n;
               r = db_write io ''mark_expiry_warned''
                     (on_instances (inst_MarkExpiryWarned (io_fault io ''mark_expiry_warned'') (si_id inst) expiresAt (io_now io))) w
           in case fst r of
                Inr True \<Rightarrow> warn_loop ios (Suc n) insts (emit (expiring_warning inst expiresAt (io_now io)) (snd r))
              | _ \<Rightarrow> warn_loop ios (Suc n) insts (snd r)))"

definition warner_check :: "duration \<Rightarrow> io \<Rightarrow> (nat \<Rightarrow> io) \<Rightarrow> world \<Rightarrow> world" where
  "warner_check threshold io ios w =
     (let l = db_read io ''list_expiring_soon'' (\<lambda>flt d. inst_ListExpiringSoon flt (io_now io) threshold (d_instances d)) w
      in case fst l of Inl _ \<Rightarrow> snd l | Inr insts \<Rightarrow> warn_loop ios 0 insts (snd l))"

section \<open>Statements of the reaper and the warner\<close>

lemma expiry_events_db [simp]: "w_db (notifyExpired r inst o' w) = w_db w" "w_db (logExpiry r io inst w) = w_db w"
  by (simp_all add: notifyExpired_def logExpiry_def Let_def)

lemma w_db_mark_expired:
  "w_db (mark_expired r io inst w) = snd (on_instances (inst_Update (io_fault io ''expire_instance'') (io_now io)
     (inst\<lparr>si_status := StackStatusStopped, si_error_message := ''Expired (TTL)'', si_stopped_at := Some (io_now io),
       si_updated_at := io_now io\<rparr>)) (io_env io ''expire_instance'' (w_db w)))"
  by (simp add: mark_expired_def Let_def split: sum.split)

lemma stmts_mark_expired:
  assumes "obeys io" "stmts d (w_db w)"
  shows "stmts d (w_db (mark_expired r io inst w))"
proof -
  have "stmts d (io_env io ''expire_instance'' (w_db w))" using assms by (rule stmts_env)
  also have "stmts (io_env io ''expire_instance'' (w_db w)) (w_db (mark_expired r io inst w))"
    unfolding w_db_mark_expired by (rule stmt_once) simp
  finally (rtranclp_trans) show ?thesis .
qed

lemma stmts_warn_loop: "\<forall>n. obeys (ios n) \<Longrightarrow> stmts d (w_db w) \<Longrightarrow> stmts d (w_db (warn_loop ios n insts w))"
proof (induction insts arbitrary: n w)
  case (Cons inst insts)
  have "stmts d (w_db (snd (db_write (ios n) ''mark_expiry_warned''
      (on_instances (inst_MarkExpiryWarned (io_fault (ios n) ''mark_expiry_warned'') (si_id inst) e (io_now (ios n)))) w)))" for e
    using Cons.prems by (intro stmts_write) (simp_all add: stmt_once)
  with Cons show ?case by (auto simp: Let_def simp del: db_write_simps split: option.split sum.split bool.split)
qed simp

lemma stmts_warner: "obeys io \<Longrightarrow> \<forall>n. obeys (ios n) \<Longrightarrow> stmts (w_db w) (w_db (warner_check threshold io ios w))"
  by (auto simp: warner_check_def Let_def split: sum.split intro!: stmts_warn_loop stmts_env)

section \<open>The contract of a stopper\<close>

text \<open>
  What a cycle relies on: a stopper only issues statements, and a stop that did not start leaves the instances as they
  were, while one that started has stored the instance with the status stopping and nothing else.
\<close>

locale instance_stopper =
  fixes stop :: stopper
  assumes issues: "obeys io \<Longrightarrow> stmts d (w_db w) \<Longrightarrow> stmts d (w_db (snd (stop io c lg inst w)))"
    and failed: "calm io \<Longrightarrow> fst (stop io c lg inst w) = (Some e, jo) \<Longrightarrow> d_instances (w_db (snd (stop io c lg inst w))) = d_instances (w_db w)"
    and started: "calm io \<Longrightarrow> fst (stop io c lg inst w) = (None, jo) \<Longrightarrow> d_instances (w_db (snd (stop io c lg inst w)))
      = snd (inst_Update None (io_now io) (inst\<lparr>si_status := StackStatusStopping, si_error_message := []\<rparr>) (d_instances (w_db w)))"
begin

lemma reap_issues:
  assumes "re_stopper r = Some stop" "\<forall>n. obeys (rt_io (turns n))" "stmts d (w_db (snd s))"
  shows "stmts d (w_db (snd (reap_loop r turns n insts s)))"
  using assms(3)
proof (induction insts arbitrary: n s)
  case (Cons inst insts)
  let ?x = "stop (rt_io (turns n)) (rt_cancelled (turns n)) (rt_log_id (turns n)) inst (snd s)"
  have x: "stmts d (w_db (snd ?x))" using assms(2) Cons.prems by (intro issues) simp_all
  with assms(2) have "stmts d (w_db (mark_expired r (rt_io (turns n)) inst (snd ?x)))" by (intro stmts_mark_expired) simp_all
  with x assms(1) Cons show ?case by (auto simp: Let_def split: prod.split option.split)
qed simp

end

lemma write_start_rows:
  assumes "calm io"
  shows "d_instances (w_db (snd (write_start m io l inst w))) = (case fst (write_start m io l inst w) of
     Inl e \<Rightarrow> d_instances (w_db w) | Inr _ \<Rightarrow> snd (inst_Update None (io_now io) inst (d_instances (w_db w))))"
proof -
  have body: "d_instances (snd (tx_then (create_log io l) (\<lambda>_. update_instance io inst) d)) = snd (inst_Update None (io_now io) inst (d_instances d))"
    if "fst (tx_then (create_log io l) (\<lambda>_. update_instance io inst) d) = Inr x" for x d
    using that
    by (auto simp: tx_then_def create_log_def update_instance_def Let_def inst_Update_def split: prod.splits sum.splits option.splits)
  show ?thesis
  proof (cases "m_tx m")
    case True
    let ?b = "tx_then (create_log io l) (\<lambda>_. update_instance io inst)"
    show ?thesis
    proof (cases "fst (RunInTx (io_fault io ''start'') TransactionFailed ?b (w_db w))")
      case (Inl e)
      with RunInTx_fail [OF Inl] True assms show ?thesis by (simp add: write_start_def in_tx_def)
    next
      case (Inr x)
      have eq: "RunInTx (io_fault io ''start'') TransactionFailed ?b (w_db w) = ?b (w_db w)" using RunInTx_ok [OF Inr] by blast
      have "fst (?b (w_db w)) = Inr x" using Inr unfolding eq .
      with body eq True assms show ?thesis by (simp add: write_start_def in_tx_def)
    qed
  next
    case False
    with assms show ?thesis
      by (auto simp: write_start_def create_log_def update_instance_def Let_def inst_Update_def split: sum.splits option.splits)
  qed
qed

lemma StopWithCharts_rows:
  assumes "calm io"
  shows "d_instances (w_db (snd (StopWithCharts m io c lg inst charts w))) = (case fst (StopWithCharts m io c lg inst charts w) of
     Inl e \<Rightarrow> d_instances (w_db w)
   | Inr _ \<Rightarrow> snd (inst_Update None (io_now io) (inst\<lparr>si_status := StackStatusStopping, si_error_message := []\<rparr>) (d_instances (w_db w))))"
  using assms by (auto simp: StopWithCharts_def Let_def write_start_rows store_action_def split: sum.splits prod.splits)

lemma expiry_StopInstance_rows:
  assumes "calm io"
  shows "d_instances (w_db (snd (expiry_StopInstance m chartsOf io c lg inst w))) = (case fst (fst (expiry_StopInstance m chartsOf io c lg inst w)) of
     Some e \<Rightarrow> d_instances (w_db w)
   | None \<Rightarrow> snd (inst_Update None (io_now io) (inst\<lparr>si_status := StackStatusStopping, si_error_message := []\<rparr>) (d_instances (w_db w))))"
proof -
  have "w_db (snd (definition_charts chartsOf io inst w)) = w_db w" using assms by (simp add: definition_charts_def Let_def)
  with assms show ?thesis
    by (auto simp: expiry_StopInstance_def Let_def StopWithCharts_rows started_job_def split: sum.splits prod.splits)
qed

interpretation expiry: instance_stopper "expiry_StopInstance m chartsOf" for m chartsOf
proof
  show "stmts d (w_db (snd (expiry_StopInstance m chartsOf io c lg inst w)))" if "obeys io" "stmts d (w_db w)" for io d w c lg inst
    using that
    by (auto simp: expiry_StopInstance_def Let_def split: sum.splits intro!: stmts_started stmts_intro)
next
  fix io c lg inst w e jo
  assume "calm io" "fst (expiry_StopInstance m chartsOf io c lg inst w) = (Some e, jo)"
  then show "d_instances (w_db (snd (expiry_StopInstance m chartsOf io c lg inst w))) = d_instances (w_db w)"
    by (simp add: expiry_StopInstance_rows)
next
  fix io c lg inst w jo
  assume "calm io" "fst (expiry_StopInstance m chartsOf io c lg inst w) = (None, jo)"
  then show "d_instances (w_db (snd (expiry_StopInstance m chartsOf io c lg inst w)))
      = snd (inst_Update None (io_now io) (inst\<lparr>si_status := StackStatusStopping, si_error_message := []\<rparr>) (d_instances (w_db w)))"
    by (simp add: expiry_StopInstance_rows)
qed

lemma stmts_reaper:
  assumes "re_stopper r = Some (expiry_StopInstance m chartsOf)" "obeys io" "\<forall>n. obeys (rt_io (turns n))"
  shows "stmts (w_db w) (w_db (snd (processExpired r io turns w)))"
proof -
  have "stmts (w_db w) (w_db (snd (db_read io ''list_expired'' (\<lambda>flt d. inst_ListExpired flt (io_now io) (d_instances d)) w)))"
    using assms(2) by (rule stmts_read) simp
  then show ?thesis
    using expiry.reap_issues [OF assms(1,3)] by (simp add: processExpired_def Let_def split: sum.split)
qed

section \<open>What a cycle of the reaper does\<close>

text \<open>Two tables with the same keys, in which the instances of \<open>P\<close> have ended and all others are the same.\<close>

definition stopped_rows :: "string set \<Rightarrow> instances \<Rightarrow> instances \<Rightarrow> bool" where
  "stopped_rows P t u \<longleftrightarrow> (keyed si_id t \<longrightarrow> keyed si_id u) \<and> (\<forall>j. rel_option (\<lambda>r r'. if j \<in> P then si_status r' \<in> {StackStatusStopping, StackStatusStopped} else r' = r)
     (row_of si_id j t) (row_of si_id j u))"

lemma stopped_rows_Update:
  assumes "si_id inst \<in> si_id ` set t" "si_status inst \<in> {StackStatusStopping, StackStatusStopped}"
  shows "stopped_rows {si_id inst} t (snd (inst_Update None now inst t))"
proof -
  obtain r where "row_of si_id (si_id inst) t = Some r" using assms(1) row_of_None_iff [of si_id "si_id inst" t] by blast
  with assms(2) show ?thesis by (auto simp: stopped_rows_def inst_Update_row option.rel_refl keyed_Update)
qed

lemma stopped_rowsD:
  "stopped_rows P t u \<Longrightarrow> rel_option (\<lambda>r r'. if j \<in> P then si_status r' \<in> {StackStatusStopping, StackStatusStopped} else r' = r)
     (row_of si_id j t) (row_of si_id j u)"
  unfolding stopped_rows_def by blast

lemma stopped_rows_trans:
  assumes "stopped_rows P t u" "stopped_rows Q u v"
  shows "stopped_rows (P \<union> Q) t v"
proof -
  have "rel_option (\<lambda>r r'. if j \<in> P \<union> Q then si_status r' \<in> {StackStatusStopping, StackStatusStopped} else r' = r)
      (row_of si_id j t) (row_of si_id j v)" for j
    using stopped_rowsD [OF assms(1), of j] stopped_rowsD [OF assms(2), of j]
    by (cases "row_of si_id j t"; cases "row_of si_id j u"; cases "row_of si_id j v") (auto split: if_splits)
  moreover have "keyed si_id t \<longrightarrow> keyed si_id v" using assms by (simp add: stopped_rows_def)
  ultimately show ?thesis unfolding stopped_rows_def by blast
qed

lemma stopped_rows_keys:
  assumes "stopped_rows P t u"
  shows "si_id ` set u = si_id ` set t"
proof -
  have "row_of si_id j u = None \<longleftrightarrow> row_of si_id j t = None" for j
    using stopped_rowsD [OF assms, of j] by (cases "row_of si_id j t"; cases "row_of si_id j u") auto
  then show ?thesis unfolding row_of_None_iff by blast
qed

lemma stopped_rows_refl: "stopped_rows {} t t"
  by (simp add: stopped_rows_def option.rel_refl)

definition reap_calm :: "reap_turn \<Rightarrow> bool" where
  "reap_calm t \<longleftrightarrow> \<not> rt_done t \<and> \<not> rt_done_after t \<and> calm (rt_io t) \<and> io_fault (rt_io t) ''expire_instance'' = None"

context instance_stopper
begin

lemma turn_stops:
  assumes "re_stopper r = Some stop" "reap_calm (turns n)" "si_id inst \<in> si_id ` set (d_instances (w_db (snd s)))"
  shows "\<exists>s'. reap_loop r turns n (inst # insts) s = reap_loop r turns (Suc n) insts s'
    \<and> stopped_rows {si_id inst} (d_instances (w_db (snd s))) (d_instances (w_db (snd s')))"
proof -
  let ?io = "rt_io (turns n)" and ?t = "d_instances (w_db (snd s))"
  let ?x = "stop ?io (rt_cancelled (turns n)) (rt_log_id (turns n)) inst (snd s)"
  have t: "\<not> rt_done (turns n)" "\<not> rt_done_after (turns n)" "calm ?io" "io_fault ?io ''expire_instance'' = None"
    using assms(2) by (simp_all add: reap_calm_def)
  have up: "stopped_rows {si_id inst} ?t (snd (inst_Update None now (inst\<lparr>si_status := st, si_error_message := e, si_stopped_at := sa, si_updated_at := u\<rparr>) ?t))"
    if "st \<in> {StackStatusStopping, StackStatusStopped}" for st e sa u now
    using stopped_rows_Update [of "inst\<lparr>si_status := st, si_error_message := e, si_stopped_at := sa, si_updated_at := u\<rparr>" ?t now] assms(3) that by simp
  have up': "stopped_rows {si_id inst} ?t (snd (inst_Update None now (inst\<lparr>si_status := StackStatusStopping, si_error_message := e\<rparr>) ?t))" for e now
    using stopped_rows_Update [of "inst\<lparr>si_status := StackStatusStopping, si_error_message := e\<rparr>" ?t now] assms(3) by simp
  obtain e jo where x: "fst ?x = (e, jo)" by (cases "fst ?x")
  show ?thesis
  proof (cases e)
    case (Some err)
    with failed [OF t(3)] x have "d_instances (w_db (snd ?x)) = ?t" by simp
    then have "stopped_rows {si_id inst} ?t (d_instances (w_db (mark_expired r ?io inst (snd ?x))))"
      using up t(3,4) by (simp add: w_db_mark_expired)
    with Some x t(1,2) assms(1) show ?thesis by (intro exI [of _ "(fst s, mark_expired r ?io inst (snd ?x))"]) (simp add: Let_def)
  next
    case None
    with started [OF t(3)] x have "stopped_rows {si_id inst} ?t (d_instances (w_db (snd ?x)))" using up' by simp
    moreover have "reap_loop r turns n (inst # insts) s = reap_loop r turns (Suc n) insts
        (case jo of None \<Rightarrow> (fst s, notifyExpired r inst ''is being stopped'' (logExpiry r ?io inst (snd ?x)))
         | Some j \<Rightarrow> (fst s @ [j], notifyExpired r ((j_instance j)\<lparr>si_updated_at := io_now ?io\<rparr>) ''is being stopped''
             (logExpiry r ?io ((j_instance j)\<lparr>si_updated_at := io_now ?io\<rparr>) (snd ?x))))"
      using None x t(1) assms(1) by (simp add: Let_def split: option.split)
    ultimately show ?thesis by (intro exI conjI) (assumption, simp split: option.split)
  qed
qed

lemma loop_stops:
  assumes "re_stopper r = Some stop" "\<forall>n. reap_calm (turns n)" "si_id ` set insts \<subseteq> si_id ` set (d_instances (w_db (snd s)))"
  shows "stopped_rows (si_id ` set insts) (d_instances (w_db (snd s))) (d_instances (w_db (snd (reap_loop r turns n insts s))))"
  using assms(3)
proof (induction insts arbitrary: n s)
  case Nil
  show ?case by (simp add: stopped_rows_refl)
next
  case (Cons inst insts)
  obtain s' where e: "reap_loop r turns n (inst # insts) s = reap_loop r turns (Suc n) insts s'"
    and a: "stopped_rows {si_id inst} (d_instances (w_db (snd s))) (d_instances (w_db (snd s')))"
    using turn_stops [OF assms(1), of turns n inst s insts] assms(2) Cons.prems by auto
  have "si_id ` set insts \<subseteq> si_id ` set (d_instances (w_db (snd s')))" using Cons.prems stopped_rows_keys [OF a] by simp
  from stopped_rows_trans [OF a Cons.IH [OF this]] show ?case unfolding e by simp
qed

end

definition is_expired :: "gtime \<Rightarrow> stack_instance \<Rightarrow> bool" where
  "is_expired now r \<longleftrightarrow> si_status r \<in> {StackStatusRunning, StackStatusPartial} \<and> (case si_expires_at r of None \<Rightarrow> False | Some x \<Rightarrow> x < now)"

lemma ListExpired_filter: "inst_ListExpired None now t = Inr (filter (is_expired now) t)"
  by (simp add: inst_ListExpired_def is_expired_def [abs_def] query_def)

text \<open>An undisturbed cycle of the reaper ends every stack that has expired and touches no other: each expired
  instance is stopping (its stop has started) or stopped (a stop could not start), every other row is as before, and
  a next look at the same time finds nothing left.\<close>

theorem reaper_complete:
  assumes "keyed si_id (d_instances (w_db w))" "calm io" "io_fault io ''list_expired'' = None" "\<forall>n. reap_calm (turns n)"
    and "re_stopper r = Some (expiry_StopInstance m chartsOf)"
  shows "stopped_rows {i. \<exists>s. row_of si_id i (d_instances (w_db w)) = Some s \<and> is_expired (io_now io) s} (d_instances (w_db w))
       (d_instances (w_db (snd (processExpired r io turns w))))
    \<and> inst_ListExpired None (io_now io) (d_instances (w_db (snd (processExpired r io turns w)))) = Inr []"
proof -
  let ?t = "d_instances (w_db w)" and ?u = "d_instances (w_db (snd (processExpired r io turns w)))"
  let ?L = "filter (is_expired (io_now io)) ?t" and ?P = "{i. \<exists>s. row_of si_id i ?t = Some s \<and> is_expired (io_now io) s}"
  have P: "?P = si_id ` set ?L" using row_of_Some_iff [OF assms(1)] by force
  have "?u = d_instances (w_db (snd (reap_loop r turns 0 ?L ([], snd (db_read io ''list_expired''
      (\<lambda>flt d. inst_ListExpired flt (io_now io) (d_instances d)) w)))))"
    using assms(2,3) by (simp add: processExpired_def Let_def ListExpired_filter)
  moreover have "si_id ` set ?L \<subseteq> si_id ` set ?t" by auto
  ultimately have s: "stopped_rows ?P ?t ?u"
    using expiry.loop_stops [OF assms(5,4), of ?L "([], snd (db_read io ''list_expired''
      (\<lambda>flt d. inst_ListExpired flt (io_now io) (d_instances d)) w))" 0] assms(2) unfolding P by simp
  have k: "keyed si_id ?u" using s assms(1) by (simp add: stopped_rows_def)
  have "\<not> is_expired (io_now io) r'" if "r' \<in> set ?u" for r'
  proof -
    have u: "row_of si_id (si_id r') ?u = Some r'" using row_of_Some_iff [OF k] that by blast
    with stopped_rowsD [OF s, of "si_id r'"] show ?thesis
      by (cases "row_of si_id (si_id r') ?t") (auto simp: is_expired_def split: if_splits)
  qed
  then have "filter (is_expired (io_now io)) ?u = []" by (simp add: filter_empty_conv)
  with s show ?thesis by (simp add: ListExpired_filter)
qed

definition example_reaper :: reaper where
  "example_reaper = \<lparr>re_audit = True, re_hub = True, re_stopper = Some (expiry_StopInstance example_manager (\<lambda>_. Inr [])), re_notifier = True\<rparr>"

definition example_reap_turn :: "io \<Rightarrow> reap_turn" where
  "example_reap_turn io = \<lparr>rt_done = False, rt_io = io, rt_log_id = ''l9'', rt_cancelled = False, rt_done_after = False\<rparr>"

theorem reaper_complete_witness:
  "inst_ListExpired None (101 * Minute) [example_instance] = Inr [example_instance]
   \<and> inst_ListExpired None (101 * Minute) (d_instances (w_db (snd (processExpired example_reaper (quiet (101 * Minute))
       (\<lambda>_. example_reap_turn (quiet (101 * Minute))) (example_world [example_instance] [] []))))) = Inr []"
proof -
  have "keyed si_id (d_instances (w_db (example_world [example_instance] [] [])))" by (simp add: keyed_def)
  moreover have "\<forall>n::nat. reap_calm (example_reap_turn (quiet (101 * Minute)))" by (simp add: reap_calm_def example_reap_turn_def)
  ultimately show ?thesis
    using reaper_complete [of "example_world [example_instance] [] []" "quiet (101 * Minute)"
        "\<lambda>_. example_reap_turn (quiet (101 * Minute))" example_reaper example_manager "\<lambda>_. Inr []"]
    by (simp add: ListExpired_filter is_expired_def example_reaper_def)
qed

text \<open>The way out of a stop that cannot start ignores what happened meanwhile: when the instance is deleted after the
  reaper listed it, the full-row update of the reaper brings the deleted row back, as a stopped stack.\<close>

theorem reaper_resurrects_deleted:
  "let io = (quiet (101 * Minute))\<lparr>io_env := (\<lambda>s d. if s = ''expire_instance'' then d\<lparr>d_instances := snd (inst_Delete None ''i1'' (d_instances d))\<rparr> else d)\<rparr>;
       w' = snd (processExpired example_reaper (quiet (101 * Minute)) (\<lambda>_. example_reap_turn io) (example_world [example_instance] [] []))
   in map (\<lambda>r. (si_id r, si_status r, si_error_message r)) (d_instances (w_db w')) = [(''i1'', StackStatusStopped, ''Expired (TTL)'')]"
  by (simp add: Let_def processExpired_def ListExpired_filter is_expired_def example_reaper_def example_reap_turn_def
      expiry_StopInstance_def definition_charts_def def_FindByID_def w_db_mark_expired inst_Delete_def
      inst_Update_def clearExpiryWarningIfExpiryChanged_def inst_save_def sql_save_def sql_update_def db_read_def example_world_def empty_db_def)

section \<open>What a check of the warner does\<close>

definition warn_ready :: "instances \<Rightarrow> stack_instance \<Rightarrow> bool" where
  "warn_ready t inst \<longleftrightarrow> row_of si_id (si_id inst) t = Some inst \<and> si_expires_at inst \<noteq> None \<and> si_expiry_warned_at inst = None"

definition warn_calm :: "io \<Rightarrow> bool" where
  "warn_calm io \<longleftrightarrow> calm io \<and> io_fault io ''mark_expiry_warned'' = None"

lemma row_of_update_other:
  assumes "\<And>r. p r \<Longrightarrow> key r = k" "\<And>r. key (f r) = key r" "j \<noteq> k"
  shows "row_of key j (sql_update p f t) = row_of key j t"
  using assms by (induction t) (auto simp: sql_update_def)

lemma mark_ready:
  assumes "keyed si_id t" "warn_ready t inst" "si_expires_at inst = Some x"
  shows "fst (inst_MarkExpiryWarned None (si_id inst) x now t) = Inr True"
    and "row_of si_id j (snd (inst_MarkExpiryWarned None (si_id inst) x now t))
      = (if j = si_id inst then Some (inst\<lparr>si_expiry_warned_at := Some now\<rparr>) else row_of si_id j t)"
proof -
  let ?p = "\<lambda>r. si_id r = si_id inst \<and> si_expiry_warned_at r = None \<and> (case si_expires_at r of None \<Rightarrow> False
    | Some y \<Rightarrow> x - expiryMatchTolerance < y \<and> y < x + expiryMatchTolerance)"
  have "inst_MarkExpiryWarned None (si_id inst) x now t = (Inr True, sql_update ?p (\<lambda>r. r\<lparr>si_expiry_warned_at := Some now\<rparr>) t)"
    using assms(2,3) by (simp add: MarkExpiryWarned_cases [OF assms(1)] warn_ready_def expiryMatchTolerance_def)
  note eq = this
  show "fst (inst_MarkExpiryWarned None (si_id inst) x now t) = Inr True" by (simp only: eq fst_conv)
  show "row_of si_id j (snd (inst_MarkExpiryWarned None (si_id inst) x now t))
      = (if j = si_id inst then Some (inst\<lparr>si_expiry_warned_at := Some now\<rparr>) else row_of si_id j t)"
  proof (cases "j = si_id inst")
    case True
    with assms(2,3) show ?thesis unfolding eq by (simp add: warn_ready_def expiryMatchTolerance_def row_of_sql_update)
  next
    case False
    have "row_of si_id j (sql_update ?p (\<lambda>r. r\<lparr>si_expiry_warned_at := Some now\<rparr>) t) = row_of si_id j t"
      by (rule row_of_update_other [OF _ _ False]) auto
    with False show ?thesis by (simp only: eq snd_conv if_False)
  qed
qed

text \<open>Two tables with the same rows, except that the instances of \<open>P\<close> have the mark of a warning.\<close>

definition warned_rows :: "string set \<Rightarrow> instances \<Rightarrow> instances \<Rightarrow> bool" where
  "warned_rows P t u \<longleftrightarrow> (\<forall>j. rel_option (\<lambda>r r'. if j \<in> P then \<exists>now. r' = r\<lparr>si_expiry_warned_at := Some now\<rparr> else r' = r)
     (row_of si_id j t) (row_of si_id j u))"

lemma warned_rows_trans:
  assumes "warned_rows P t u" "warned_rows Q u v"
  shows "warned_rows (P \<union> Q) t v"
  unfolding warned_rows_def
proof
  fix j
  show "rel_option (\<lambda>r r'. if j \<in> P \<union> Q then \<exists>now. r' = r\<lparr>si_expiry_warned_at := Some now\<rparr> else r' = r) (row_of si_id j t) (row_of si_id j v)"
    using assms [unfolded warned_rows_def, THEN spec, of j]
    by (cases "row_of si_id j t"; cases "row_of si_id j u"; cases "row_of si_id j v") (auto split: if_splits)
qed

lemma warned_rows_mark:
  assumes "keyed si_id t" "warn_ready t inst" "si_expires_at inst = Some x"
  shows "warned_rows {si_id inst} t (snd (inst_MarkExpiryWarned None (si_id inst) x now t))"
  unfolding warned_rows_def using assms by (auto simp: mark_ready(2) warn_ready_def option.rel_refl)

lemma warn_loop_rows:
  assumes "\<forall>n. warn_calm (ios n)" "keyed si_id (d_instances (w_db w))" "distinct (map si_id insts)" "\<forall>i\<in>set insts. warn_ready (d_instances (w_db w)) i"
  shows "w_events (warn_loop ios n insts w) = w_events w @ map (\<lambda>(k, i). expiring_warning i (the (si_expires_at i)) (io_now (ios k))) (enumerate n insts)
    \<and> keyed si_id (d_instances (w_db (warn_loop ios n insts w)))
    \<and> warned_rows (si_id ` set insts) (d_instances (w_db w)) (d_instances (w_db (warn_loop ios n insts w)))"
  using assms(2-)
proof (induction insts arbitrary: n w)
  case Nil
  then show ?case by (simp add: warned_rows_def option.rel_refl)
next
  case (Cons inst insts)
  let ?t = "d_instances (w_db w)" and ?now = "io_now (ios n)"
  have c: "calm (ios n)" "io_fault (ios n) ''mark_expiry_warned'' = None" using assms(1) by (simp_all add: warn_calm_def)
  have ready: "warn_ready ?t inst" using Cons.prems(3) by simp
  then obtain x where x: "si_expires_at inst = Some x" by (auto simp: warn_ready_def)
  let ?u = "snd (inst_MarkExpiryWarned None (si_id inst) x ?now ?t)"
  let ?w = "emit (expiring_warning inst x ?now) (snd (db_write (ios n) ''mark_expiry_warned''
      (on_instances (inst_MarkExpiryWarned None (si_id inst) x ?now)) w))"
  have step: "warn_loop ios n (inst # insts) w = warn_loop ios (Suc n) insts ?w"
    using c x mark_ready(1) [OF Cons.prems(1) ready x] by (simp add: Let_def)
  have u: "d_instances (w_db ?w) = ?u" using c by simp
  have "keyed si_id (d_instances (w_db ?w))" unfolding u using Cons.prems(1) by (rule keyed_MarkExpiryWarned)
  moreover have "distinct (map si_id insts)" using Cons.prems(2) by simp
  moreover have "warn_ready (d_instances (w_db ?w)) i" if "i \<in> set insts" for i
  proof -
    have "si_id i \<noteq> si_id inst" using Cons.prems(2) that by (metis distinct.simps(2) image_eqI list.set_map list.simps(9))
    moreover have "warn_ready ?t i" using Cons.prems(3) that by simp
    ultimately show ?thesis unfolding u warn_ready_def by (simp add: mark_ready(2) [OF Cons.prems(1) ready x])
  qed
  ultimately have ih: "w_events (warn_loop ios (Suc n) insts ?w)
        = w_events ?w @ map (\<lambda>(k, i). expiring_warning i (the (si_expires_at i)) (io_now (ios k))) (enumerate (Suc n) insts)"
      "keyed si_id (d_instances (w_db (warn_loop ios (Suc n) insts ?w)))"
      "warned_rows (si_id ` set insts) (d_instances (w_db ?w)) (d_instances (w_db (warn_loop ios (Suc n) insts ?w)))"
    using Cons.IH [of ?w "Suc n"] by blast+
  have "warned_rows (insert (si_id inst) (si_id ` set insts)) ?t (d_instances (w_db (warn_loop ios (Suc n) insts ?w)))"
    using warned_rows_trans [OF warned_rows_mark [OF Cons.prems(1) ready x, of ?now] ih(3) [unfolded u]] by simp
  with ih(1,2) x show ?case unfolding step by simp
qed

definition expiring_soon :: "gtime \<Rightarrow> duration \<Rightarrow> stack_instance \<Rightarrow> bool" where
  "expiring_soon now threshold r \<longleftrightarrow> si_status r \<in> {StackStatusRunning, StackStatusPartial}
     \<and> (case si_expires_at r of None \<Rightarrow> False | Some x \<Rightarrow> now < x \<and> x \<le> now + threshold) \<and> si_expiry_warned_at r = None"

lemma ListExpiringSoon_sorted:
  "inst_ListExpiringSoon None now th t = Inr (sort_key (\<lambda>r. case si_expires_at r of None \<Rightarrow> 0 | Some x \<Rightarrow> x) (filter (expiring_soon now th) t))"
  by (simp add: inst_ListExpiringSoon_def expiring_soon_def [abs_def] query_def)

text \<open>An undisturbed check of the warner warns about every stack that expires within the threshold, once each, in the order of
  expiry; it changes no row but by the mark, and a second check at the same time warns about nothing.\<close>

theorem warner_complete:
  assumes "keyed si_id (d_instances (w_db w))" "calm io" "io_fault io ''list_expiring_soon'' = None" "\<forall>n. warn_calm (ios n)"
    and "inst_ListExpiringSoon None (io_now io) threshold (d_instances (w_db w)) = Inr soon"
    and "w' = warner_check threshold io ios w"
  shows "w_events w' = w_events w @ map (\<lambda>(k, i). expiring_warning i (the (si_expires_at i)) (io_now (ios k))) (enumerate 0 soon)
    \<and> warned_rows (si_id ` set soon) (d_instances (w_db w)) (d_instances (w_db w'))
    \<and> w_events (warner_check threshold io ios w') = w_events w'"
proof -
  let ?t = "d_instances (w_db w)"
  let ?v = "snd (db_read io ''list_expiring_soon'' (\<lambda>flt d. inst_ListExpiringSoon flt (io_now io) threshold (d_instances d)) w)"
  have v: "w_db ?v = w_db w" using assms(2) by simp
  have w': "w' = warn_loop ios 0 soon ?v" using assms by (simp add: warner_check_def Let_def)
  have soon: "set soon = set (filter (expiring_soon (io_now io) threshold) ?t)" "distinct (map si_id soon)"
    using assms(1,5) by (auto simp: ListExpiringSoon_sorted keyed_def distinct_map inj_on_def)
  have "warn_ready ?t i" if "i \<in> set soon" for i
    using that soon(1) row_of_Some_iff [OF assms(1)] by (auto simp: warn_ready_def expiring_soon_def split: option.splits)
  then have r: "w_events w' = w_events w @ map (\<lambda>(k, i). expiring_warning i (the (si_expires_at i)) (io_now (ios k))) (enumerate 0 soon)"
      "keyed si_id (d_instances (w_db w'))" "warned_rows (si_id ` set soon) ?t (d_instances (w_db w'))"
    using warn_loop_rows [OF assms(4), of ?v soon 0] soon(2) assms(1) v w' by auto
  have "\<not> expiring_soon (io_now io) threshold r'" if "r' \<in> set (d_instances (w_db w'))" for r'
  proof -
    have u: "row_of si_id (si_id r') (d_instances (w_db w')) = Some r'" using row_of_Some_iff [OF r(2)] that by blast
    with r(3) [unfolded warned_rows_def, THEN spec, of "si_id r'"]
    obtain s where s: "row_of si_id (si_id r') ?t = Some s"
      "if si_id r' \<in> si_id ` set soon then \<exists>now. r' = s\<lparr>si_expiry_warned_at := Some now\<rparr> else r' = s"
      by (cases "row_of si_id (si_id r') ?t") auto
    then have "s \<in> set ?t" using row_of_SomeD [OF s(1)] by simp
    with s(2) soon(1) show ?thesis by (auto simp: expiring_soon_def split: if_splits)
  qed
  then have "inst_ListExpiringSoon None (io_now io) threshold (d_instances (w_db w')) = Inr []"
    by (simp add: ListExpiringSoon_sorted filter_empty_conv)
  then have "w_events (warner_check threshold io ios w') = w_events w'"
    using assms(2,3) by (simp add: warner_check_def Let_def)
  with r show ?thesis by simp
qed

theorem warner_complete_witness:
  "length (w_events (warner_check (30 * Minute) (quiet (80 * Minute)) (\<lambda>_. quiet (80 * Minute)) (example_world [example_instance] [] []))) = 1"
proof -
  have "inst_ListExpiringSoon None (80 * Minute) (30 * Minute) [example_instance] = Inr [example_instance]"
    by (simp add: ListExpiringSoon_sorted expiring_soon_def)
  moreover have "keyed si_id (d_instances (w_db (example_world [example_instance] [] [])))" by (simp add: keyed_def)
  ultimately show ?thesis
    using warner_complete [of "example_world [example_instance] [] []" "quiet (80 * Minute)" "\<lambda>_. quiet (80 * Minute)" "30 * Minute"
        "[example_instance]", OF _ _ _ _ _ refl]
    by (simp add: warn_calm_def)
qed

end
