(* ===== verification/SessionStore.thy ===== *)
theory SessionStore
  imports GoNumbers
begin

text \<open>
  The session store (\<open>sessionstore/sessionstore.go\<close>) with its two implementations: \<open>sessionstore/memory.go\<close> (maps of one
  process) and \<open>sessionstore/mysql.go\<close> (a table that all replicas share). It keeps the blocks of tokens, sessions and users that
  the authentication asks for, and the one-time states of OIDC and CLI logins. \<open>blocks\<close> is the specification of what is
  blocked; both stores refine it, and the locale \<open>block_store\<close> states the contract that the handlers rely on.
\<close>

section \<open>Data\<close>

record oidc_state_data =
  oi_code_verifier :: string
  oi_redirect_url :: string
  oi_loopback_url :: string

record cli_auth_data =
  cad_token :: string
  cad_user_id :: string
  cad_username :: string
  cad_status :: string

text \<open>Seconds and milliseconds since 1970; an instant counts from the zero time of Go.\<close>

definition Unix :: "gtime \<Rightarrow> int" where
  "Unix t = t div Second - 62135596800"

definition UnixMilli :: "gtime \<Rightarrow> int" where
  "UnixMilli t = t div 1000000 - 62135596800000"

definition FormatInt :: "int \<Rightarrow> string" where
  "FormatInt v = (if v < 0 then ''-'' @ digits (nat (- v)) else digits (nat v))"

section \<open>The rule of a user block\<close>

definition userBlockApplies :: "int \<Rightarrow> gtime \<Rightarrow> bool" where
  "userBlockApplies blockedAtMs issuedAt \<longleftrightarrow> blockedAtMs \<le> 0 \<or> issuedAt = zero_time \<or> UnixMilli issuedAt \<le> blockedAtMs"

abbreviation msTimestampMin :: int where "msTimestampMin \<equiv> 1000000000000"

definition parseBlockedAt :: "string \<Rightarrow> int" where
  "parseBlockedAt data =
     (case Atoi (TrimSpace data) of
        None \<Rightarrow> 0
      | Some v \<Rightarrow> if v \<le> 0 then 0 else if v < msTimestampMin then wrap64 (v * 1000 + 999) else v)"

text \<open>An entry is its data, if the entry exists.\<close>

definition userBlockTime :: "string option \<Rightarrow> string option \<Rightarrow> int" where
  "userBlockTime secData msData =
     (let secMs = (case secData of None \<Rightarrow> 0 | Some d \<Rightarrow> parseBlockedAt d);
          ms = (case msData of None \<Rightarrow> 0 | Some d \<Rightarrow> parseBlockedAt d)
      in if msData = None \<or> ms \<le> 0 then secMs
         else if secData = None then ms
         else if secMs \<le> 0 then 0
         else if secMs sdiv 1000 \<le> ms sdiv 1000 then ms else secMs)"

section \<open>The memory store\<close>

record mem_user_block =
  mu_expires_at :: gtime
  mu_blocked_at_sec :: int
  mu_blocked_at_ms :: int

record mem_store =
  ms_blocked :: "string \<rightharpoonup> gtime"
  ms_user_blocks :: "string \<rightharpoonup> mem_user_block"
  ms_session_blocks :: "string \<rightharpoonup> gtime"
  ms_oidc_states :: "string \<rightharpoonup> oidc_state_data \<times> gtime"
  ms_cli_auths :: "string \<rightharpoonup> cli_auth_data \<times> gtime"

definition NewMemoryStore :: mem_store where
  "NewMemoryStore = \<lparr>ms_blocked = Map.empty, ms_user_blocks = Map.empty, ms_session_blocks = Map.empty, ms_oidc_states = Map.empty,
     ms_cli_auths = Map.empty\<rparr>"

definition mem_BlockToken :: "string \<Rightarrow> gtime \<Rightarrow> mem_store \<Rightarrow> mem_store" where
  "mem_BlockToken jti expiresAt s = s\<lparr>ms_blocked := (ms_blocked s)(jti \<mapsto> expiresAt)\<rparr>"

definition mem_IsTokenBlocked :: "gtime \<Rightarrow> string \<Rightarrow> mem_store \<Rightarrow> bool" where
  "mem_IsTokenBlocked now jti s = (case ms_blocked s jti of None \<Rightarrow> False | Some e \<Rightarrow> now < e)"

definition mem_BlockUser :: "gtime \<Rightarrow> string \<Rightarrow> gtime \<Rightarrow> mem_store \<Rightarrow> mem_store" where
  "mem_BlockUser now userID until s =
     s\<lparr>ms_user_blocks := (ms_user_blocks s)(userID \<mapsto> \<lparr>mu_expires_at = until, mu_blocked_at_sec = Unix now, mu_blocked_at_ms = UnixMilli now\<rparr>)\<rparr>"

definition mem_IsUserBlocked :: "gtime \<Rightarrow> string \<Rightarrow> gtime \<Rightarrow> mem_store \<Rightarrow> bool" where
  "mem_IsUserBlocked now userID issuedAt s =
     (case ms_user_blocks s userID of
        None \<Rightarrow> False
      | Some e \<Rightarrow> now < mu_expires_at e
          \<and> userBlockApplies (userBlockTime (Some (FormatInt (mu_blocked_at_sec e)))
                (if mu_blocked_at_ms e > 0 then Some (FormatInt (mu_blocked_at_ms e)) else None)) issuedAt)"

fun mem_BlockSessions :: "string list \<Rightarrow> gtime \<Rightarrow> mem_store \<Rightarrow> mem_store" where
  "mem_BlockSessions [] until s = s"
| "mem_BlockSessions (i # ids) until s =
     mem_BlockSessions ids until
       (if (case ms_session_blocks s i of None \<Rightarrow> True | Some cur \<Rightarrow> cur < until)
        then s\<lparr>ms_session_blocks := (ms_session_blocks s)(i \<mapsto> until)\<rparr> else s)"

definition mem_BlockSession :: "string \<Rightarrow> gtime \<Rightarrow> mem_store \<Rightarrow> mem_store" where
  "mem_BlockSession sessionID = mem_BlockSessions [sessionID]"

definition mem_IsSessionBlocked :: "gtime \<Rightarrow> string \<Rightarrow> mem_store \<Rightarrow> bool" where
  "mem_IsSessionBlocked now sessionID s = (case ms_session_blocks s sessionID of None \<Rightarrow> False | Some e \<Rightarrow> now < e)"

definition mem_UnblockUser :: "string \<Rightarrow> mem_store \<Rightarrow> mem_store" where
  "mem_UnblockUser userID s = s\<lparr>ms_user_blocks := (ms_user_blocks s)(userID := None)\<rparr>"

definition mem_SaveOIDCState :: "gtime \<Rightarrow> string \<Rightarrow> oidc_state_data \<Rightarrow> duration \<Rightarrow> mem_store \<Rightarrow> mem_store" where
  "mem_SaveOIDCState now state data ttl s = s\<lparr>ms_oidc_states := (ms_oidc_states s)(state \<mapsto> (data, now + ttl))\<rparr>"

definition mem_ConsumeOIDCState :: "gtime \<Rightarrow> string \<Rightarrow> mem_store \<Rightarrow> oidc_state_data option \<times> mem_store" where
  "mem_ConsumeOIDCState now state s =
     (case ms_oidc_states s state of
        None \<Rightarrow> (None, s)
      | Some (data, e) \<Rightarrow> (if e < now then None else Some data, s\<lparr>ms_oidc_states := (ms_oidc_states s)(state := None)\<rparr>))"

definition mem_SaveCLIAuth :: "gtime \<Rightarrow> string \<Rightarrow> cli_auth_data \<Rightarrow> duration \<Rightarrow> mem_store \<Rightarrow> mem_store" where
  "mem_SaveCLIAuth now sessionID data ttl s = s\<lparr>ms_cli_auths := (ms_cli_auths s)(sessionID \<mapsto> (data, now + ttl))\<rparr>"

definition mem_GetCLIAuth :: "gtime \<Rightarrow> string \<Rightarrow> mem_store \<Rightarrow> cli_auth_data option \<times> mem_store" where
  "mem_GetCLIAuth now sessionID s =
     (case ms_cli_auths s sessionID of
        None \<Rightarrow> (None, s)
      | Some (data, e) \<Rightarrow> if e < now then (None, s\<lparr>ms_cli_auths := (ms_cli_auths s)(sessionID := None)\<rparr>) else (Some data, s))"

datatype session_error = ErrSessionNotFound | SessionDatabase db_cause

definition mem_UpdateCLIAuth :: "gtime \<Rightarrow> string \<Rightarrow> cli_auth_data \<Rightarrow> mem_store \<Rightarrow> (session_error + unit) \<times> mem_store" where
  "mem_UpdateCLIAuth now sessionID data s =
     (case ms_cli_auths s sessionID of
        None \<Rightarrow> (Inl ErrSessionNotFound, s)
      | Some (_, e) \<Rightarrow>
          if e < now then (Inl ErrSessionNotFound, s\<lparr>ms_cli_auths := (ms_cli_auths s)(sessionID := None)\<rparr>)
          else (Inr (), s\<lparr>ms_cli_auths := (ms_cli_auths s)(sessionID \<mapsto> (data, e))\<rparr>))"

definition mem_ConsumeCLIAuth :: "gtime \<Rightarrow> string \<Rightarrow> mem_store \<Rightarrow> cli_auth_data option \<times> mem_store" where
  "mem_ConsumeCLIAuth now sessionID s =
     (case ms_cli_auths s sessionID of
        None \<Rightarrow> (None, s)
      | Some (data, e) \<Rightarrow> (if e < now then None else Some data, s\<lparr>ms_cli_auths := (ms_cli_auths s)(sessionID := None)\<rparr>))"

definition keep_unexpired :: "('v \<Rightarrow> gtime) \<Rightarrow> gtime \<Rightarrow> (string \<rightharpoonup> 'v) \<Rightarrow> string \<rightharpoonup> 'v" where
  "keep_unexpired expiry now m = (\<lambda>k. case m k of None \<Rightarrow> None | Some v \<Rightarrow> if expiry v < now then None else Some v)"

definition mem_Cleanup :: "gtime \<Rightarrow> mem_store \<Rightarrow> mem_store" where
  "mem_Cleanup now s =
     \<lparr>ms_blocked = keep_unexpired id now (ms_blocked s),
      ms_user_blocks = keep_unexpired mu_expires_at now (ms_user_blocks s),
      ms_session_blocks = keep_unexpired id now (ms_session_blocks s),
      ms_oidc_states = keep_unexpired snd now (ms_oidc_states s),
      ms_cli_auths = keep_unexpired snd now (ms_cli_auths s)\<rparr>"

section \<open>The MySQL store\<close>

text \<open>The text column holds a block time, or the JSON of a state: here the value it encodes.\<close>

datatype entry_data = NoData | TimeData string | OIDCData oidc_state_data | CLIData cli_auth_data

abbreviation kindTokenBlock :: string where "kindTokenBlock \<equiv> ''token_block''"
abbreviation kindOIDCState :: string where "kindOIDCState \<equiv> ''oidc_state''"
abbreviation kindUserBlock :: string where "kindUserBlock \<equiv> ''user_block''"
abbreviation kindUserBlockMs :: string where "kindUserBlockMs \<equiv> ''user_block_ms''"
abbreviation kindCLIAuth :: string where "kindCLIAuth \<equiv> ''cli_auth''"
abbreviation kindSessionBlock :: string where "kindSessionBlock \<equiv> ''session_block''"

record session_entry =
  se_entry_key :: string
  se_kind :: string
  se_data :: entry_data
  se_expires_at :: int

type_synonym session_entries = "session_entry list"

definition entry_key :: "session_entry \<Rightarrow> string \<times> string" where
  "entry_key e = (se_entry_key e, se_kind e)"

text \<open>An insert that updates on a duplicate key, and one that fails on it.\<close>

definition upsert_entry :: "(session_entry \<Rightarrow> session_entry \<Rightarrow> session_entry) \<Rightarrow> session_entry \<Rightarrow> session_entries \<Rightarrow> session_entries" where
  "upsert_entry merge e t = sql_save entry_key (\<lambda>r. if entry_key r = entry_key e then merge e r else r) e (entry_key e) t"

definition insert_entry :: "fault \<Rightarrow> session_entry \<Rightarrow> session_entries \<Rightarrow> (db_cause + unit) \<times> session_entries" where
  "insert_entry flt e t =
     (case flt of
        Some c \<Rightarrow> (Inl c, t)
      | None \<Rightarrow> if row_of entry_key (entry_key e) t \<noteq> None then (Inl ErrDuplicateKey, t) else (Inr (), t @ [e]))"

definition live_entry :: "gtime \<Rightarrow> string \<Rightarrow> string \<Rightarrow> session_entry \<Rightarrow> bool" where
  "live_entry now key kind e \<longleftrightarrow> se_entry_key e = key \<and> se_kind e = kind \<and> Unix now < se_expires_at e"

definition my_BlockToken :: "fault \<Rightarrow> string \<Rightarrow> gtime \<Rightarrow> session_entries \<Rightarrow> (db_cause + unit) \<times> session_entries" where
  "my_BlockToken flt jti expiresAt t =
     (case flt of
        Some c \<Rightarrow> (Inl c, t)
      | None \<Rightarrow> (Inr (), upsert_entry (\<lambda>e r. r\<lparr>se_expires_at := se_expires_at e\<rparr>)
          \<lparr>se_entry_key = jti, se_kind = kindTokenBlock, se_data = NoData, se_expires_at = Unix expiresAt\<rparr> t))"

definition my_IsTokenBlocked :: "fault \<Rightarrow> gtime \<Rightarrow> string \<Rightarrow> session_entries \<Rightarrow> db_cause + bool" where
  "my_IsTokenBlocked flt now jti t =
     (case flt of Some c \<Rightarrow> Inl c | None \<Rightarrow> Inr (0 < length (filter (live_entry now jti kindTokenBlock) t)))"

definition my_BlockUser :: "fault \<Rightarrow> gtime \<Rightarrow> string \<Rightarrow> gtime \<Rightarrow> session_entries \<Rightarrow> (db_cause + unit) \<times> session_entries" where
  "my_BlockUser flt now userID until t =
     (let merge = (\<lambda>e r. r\<lparr>se_expires_at := se_expires_at e, se_data := se_data e\<rparr>)
      in case flt of
           Some c \<Rightarrow> (Inl c, t)
         | None \<Rightarrow> (Inr (),
             upsert_entry merge \<lparr>se_entry_key = userID, se_kind = kindUserBlockMs, se_data = TimeData (FormatInt (UnixMilli now)), se_expires_at = Unix until\<rparr>
               (upsert_entry merge \<lparr>se_entry_key = userID, se_kind = kindUserBlock, se_data = TimeData (FormatInt (Unix now)), se_expires_at = Unix until\<rparr> t)))"

definition time_text :: "entry_data \<Rightarrow> string" where
  "time_text d = (case d of TimeData s \<Rightarrow> s | _ \<Rightarrow> [])"

definition my_IsUserBlocked :: "fault \<Rightarrow> gtime \<Rightarrow> string \<Rightarrow> gtime \<Rightarrow> session_entries \<Rightarrow> db_cause + bool" where
  "my_IsUserBlocked flt now userID issuedAt t =
     (let entry = (\<lambda>kind. map_option (\<lambda>e. time_text (se_data e)) (find (live_entry now userID kind) t))
      in case flt of
           Some c \<Rightarrow> Inl c
         | None \<Rightarrow>
             if entry kindUserBlock = None \<and> entry kindUserBlockMs = None then Inr False
             else Inr (userBlockApplies (userBlockTime (entry kindUserBlock) (entry kindUserBlockMs)) issuedAt))"

abbreviation sessionBlockBatch :: nat where "sessionBlockBatch \<equiv> 500"

definition session_entry_of :: "gtime \<Rightarrow> string \<Rightarrow> session_entry" where
  "session_entry_of until i = \<lparr>se_entry_key = i, se_kind = kindSessionBlock, se_data = NoData, se_expires_at = Unix until\<rparr>"

definition sessionBlockUpsert :: "session_entry \<Rightarrow> session_entry \<Rightarrow> session_entry" where
  "sessionBlockUpsert e r = r\<lparr>se_expires_at := max (se_expires_at r) (se_expires_at e)\<rparr>"

text \<open>The batches of distinct sessions; \<open>flt n\<close> is the fault of batch \<open>n\<close>, and an error counts the sessions blocked before it.\<close>

fun block_batches :: "(nat \<Rightarrow> fault) \<Rightarrow> gtime \<Rightarrow> nat \<Rightarrow> string list list \<Rightarrow> session_entries \<Rightarrow> (nat \<times> db_cause) option \<times> session_entries" where
  "block_batches flt until n [] t = (None, t)"
| "block_batches flt until n (b # bs) t =
     (case flt n of
        Some c \<Rightarrow> (Some (n * sessionBlockBatch, c), t)
      | None \<Rightarrow> block_batches flt until (Suc n) bs (fold (\<lambda>i. upsert_entry sessionBlockUpsert (session_entry_of until i)) b t))"

definition dedup :: "string list \<Rightarrow> string list" where
  "dedup ids = rev (remdups (rev ids))"

definition my_BlockSessions :: "(nat \<Rightarrow> fault) \<Rightarrow> string list \<Rightarrow> gtime \<Rightarrow> session_entries \<Rightarrow> (nat \<times> db_cause) option \<times> session_entries" where
  "my_BlockSessions flt ids until t = block_batches flt until 0 (chunks sessionBlockBatch (dedup ids)) t"

definition my_BlockSession :: "(nat \<Rightarrow> fault) \<Rightarrow> string \<Rightarrow> gtime \<Rightarrow> session_entries \<Rightarrow> (nat \<times> db_cause) option \<times> session_entries" where
  "my_BlockSession flt sessionID = my_BlockSessions flt [sessionID]"

definition my_IsSessionBlocked :: "fault \<Rightarrow> gtime \<Rightarrow> string \<Rightarrow> session_entries \<Rightarrow> db_cause + bool" where
  "my_IsSessionBlocked flt now sessionID t =
     (case flt of Some c \<Rightarrow> Inl c | None \<Rightarrow> Inr (0 < length (filter (live_entry now sessionID kindSessionBlock) t)))"

definition my_UnblockUser :: "fault \<Rightarrow> string \<Rightarrow> session_entries \<Rightarrow> (db_cause + unit) \<times> session_entries" where
  "my_UnblockUser flt userID t =
     (case flt of
        Some c \<Rightarrow> (Inl c, t)
      | None \<Rightarrow> (Inr (), filter (\<lambda>e. \<not> (se_entry_key e = userID \<and> se_kind e \<in> {kindUserBlock, kindUserBlockMs})) t))"

definition my_save_state :: "string \<Rightarrow> fault \<Rightarrow> gtime \<Rightarrow> string \<Rightarrow> entry_data \<Rightarrow> duration \<Rightarrow> session_entries \<Rightarrow> (db_cause + unit) \<times> session_entries" where
  "my_save_state kind flt now key data ttl t =
     insert_entry flt \<lparr>se_entry_key = key, se_kind = kind, se_data = data, se_expires_at = Unix (now + ttl)\<rparr> t"

definition my_SaveOIDCState where "my_SaveOIDCState flt now state data = my_save_state kindOIDCState flt now state (OIDCData data)"
definition my_SaveCLIAuth where "my_SaveCLIAuth flt now sessionID data = my_save_state kindCLIAuth flt now sessionID (CLIData data)"

text \<open>The transaction that locks the row, deletes it and returns its data.\<close>

definition my_consume :: "string \<Rightarrow> fault \<Rightarrow> gtime \<Rightarrow> string \<Rightarrow> session_entries \<Rightarrow> (db_cause + entry_data option) \<times> session_entries" where
  "my_consume kind flt now key t =
     (case flt of
        Some c \<Rightarrow> (Inl c, t)
      | None \<Rightarrow> (case find (live_entry now key kind) t of
                   None \<Rightarrow> (Inr None, t)
                 | Some e \<Rightarrow> (Inr (Some (se_data e)), filter (\<lambda>r. entry_key r \<noteq> entry_key e) t)))"

definition my_ConsumeOIDCState where "my_ConsumeOIDCState flt now state = my_consume kindOIDCState flt now state"
definition my_ConsumeCLIAuth where "my_ConsumeCLIAuth flt now sessionID = my_consume kindCLIAuth flt now sessionID"

definition my_GetCLIAuth :: "fault \<Rightarrow> gtime \<Rightarrow> string \<Rightarrow> session_entries \<Rightarrow> db_cause + entry_data option" where
  "my_GetCLIAuth flt now sessionID t =
     (case flt of Some c \<Rightarrow> Inl c | None \<Rightarrow> Inr (map_option se_data (find (live_entry now sessionID kindCLIAuth) t)))"

definition my_UpdateCLIAuth :: "fault \<Rightarrow> gtime \<Rightarrow> string \<Rightarrow> cli_auth_data \<Rightarrow> session_entries \<Rightarrow> (session_error + unit) \<times> session_entries" where
  "my_UpdateCLIAuth flt now sessionID data t =
     (let p = live_entry now sessionID kindCLIAuth; f = (\<lambda>e. e\<lparr>se_data := CLIData data\<rparr>)
      in case flt of
           Some c \<Rightarrow> (Inl (SessionDatabase c), t)
         | None \<Rightarrow> (if rows_changed p f t = 0 then Inl ErrSessionNotFound else Inr (), sql_update p f t))"

definition my_Cleanup :: "fault \<Rightarrow> gtime \<Rightarrow> session_entries \<Rightarrow> (db_cause + unit) \<times> session_entries" where
  "my_Cleanup flt now t = (case flt of Some c \<Rightarrow> (Inl c, t) | None \<Rightarrow> (Inr (), filter (\<lambda>e. \<not> se_expires_at e < Unix now) t))"

section \<open>Calls\<close>

datatype store_op =
    OpBlockToken string gtime
  | OpBlockUser string gtime
  | OpUnblockUser string
  | OpBlockSessions "string list" gtime
  | OpSaveOIDCState string oidc_state_data duration
  | OpConsumeOIDCState string
  | OpSaveCLIAuth string cli_auth_data duration
  | OpGetCLIAuth string
  | OpUpdateCLIAuth string cli_auth_data
  | OpConsumeCLIAuth string
  | OpCleanup

fun mem_step :: "gtime \<Rightarrow> (nat \<Rightarrow> fault) \<Rightarrow> store_op \<Rightarrow> mem_store \<Rightarrow> mem_store" where
  "mem_step now flt (OpBlockToken j e) s = mem_BlockToken j e s"
| "mem_step now flt (OpBlockUser u e) s = mem_BlockUser now u e s"
| "mem_step now flt (OpUnblockUser u) s = mem_UnblockUser u s"
| "mem_step now flt (OpBlockSessions ids e) s = mem_BlockSessions ids e s"
| "mem_step now flt (OpSaveOIDCState k d ttl) s = mem_SaveOIDCState now k d ttl s"
| "mem_step now flt (OpConsumeOIDCState k) s = snd (mem_ConsumeOIDCState now k s)"
| "mem_step now flt (OpSaveCLIAuth k c ttl) s = mem_SaveCLIAuth now k c ttl s"
| "mem_step now flt (OpGetCLIAuth k) s = snd (mem_GetCLIAuth now k s)"
| "mem_step now flt (OpUpdateCLIAuth k c) s = snd (mem_UpdateCLIAuth now k c s)"
| "mem_step now flt (OpConsumeCLIAuth k) s = snd (mem_ConsumeCLIAuth now k s)"
| "mem_step now flt OpCleanup s = mem_Cleanup now s"

fun my_step :: "gtime \<Rightarrow> (nat \<Rightarrow> fault) \<Rightarrow> store_op \<Rightarrow> session_entries \<Rightarrow> session_entries" where
  "my_step now flt (OpBlockToken j e) t = snd (my_BlockToken (flt 0) j e t)"
| "my_step now flt (OpBlockUser u e) t = snd (my_BlockUser (flt 0) now u e t)"
| "my_step now flt (OpUnblockUser u) t = snd (my_UnblockUser (flt 0) u t)"
| "my_step now flt (OpBlockSessions ids e) t = snd (my_BlockSessions flt ids e t)"
| "my_step now flt (OpSaveOIDCState k d ttl) t = snd (my_SaveOIDCState (flt 0) now k d ttl t)"
| "my_step now flt (OpConsumeOIDCState k) t = snd (my_ConsumeOIDCState (flt 0) now k t)"
| "my_step now flt (OpSaveCLIAuth k c ttl) t = snd (my_SaveCLIAuth (flt 0) now k c ttl t)"
| "my_step now flt (OpGetCLIAuth k) t = t"
| "my_step now flt (OpUpdateCLIAuth k c) t = snd (my_UpdateCLIAuth (flt 0) now k c t)"
| "my_step now flt (OpConsumeCLIAuth k) t = snd (my_ConsumeCLIAuth (flt 0) now k t)"
| "my_step now flt OpCleanup t = snd (my_Cleanup (flt 0) now t)"

section \<open>The contract of a store\<close>

text \<open>
  What the handlers rely on: a block that was written holds for its seconds, and no other call takes it away, whatever
  fails, as long as the clocks of the cleanups are not ahead of the time of the question.
\<close>

locale block_store =
  fixes step :: "gtime \<Rightarrow> (nat \<Rightarrow> fault) \<Rightarrow> store_op \<Rightarrow> 's \<Rightarrow> 's"
    and token_blocked :: "gtime \<Rightarrow> string \<Rightarrow> 's \<Rightarrow> bool"
    and session_blocked :: "gtime \<Rightarrow> string \<Rightarrow> 's \<Rightarrow> bool"
  assumes blocks_token: "Unix tm < Unix e \<Longrightarrow> token_blocked tm j (step now (\<lambda>_. None) (OpBlockToken j e) s)"
    and blocks_sessions: "i \<in> set ids \<Longrightarrow> Unix tm < Unix e \<Longrightarrow> session_blocked tm i (step now (\<lambda>_. None) (OpBlockSessions ids e) s)"
    and keeps_session: "session_blocked tm i s \<Longrightarrow> (op = OpCleanup \<Longrightarrow> now \<le> tm) \<Longrightarrow> session_blocked tm i (step now flt op s)"
begin

definition run :: "(gtime \<times> (nat \<Rightarrow> fault) \<times> store_op) list \<Rightarrow> 's \<Rightarrow> 's" where
  "run calls s = fold (\<lambda>(now, flt, op). step now flt op) calls s"

lemma session_stays_blocked:
  assumes "session_blocked tm i s" "\<forall>(now, flt, op)\<in>set calls. op = OpCleanup \<longrightarrow> now \<le> tm"
  shows "session_blocked tm i (run calls s)"
  using assms
proof (induction calls arbitrary: s)
  case (Cons c calls)
  obtain now flt op where c: "c = (now, flt, op)" by (cases c)
  with Cons.prems have "session_blocked tm i (step now flt op s)" by (intro keeps_session) auto
  with Cons c show ?case by (simp add: run_def)
qed (simp add: run_def)

lemma session_block_holds:
  assumes "i \<in> set ids" "Unix tm < Unix e" "\<forall>(now, flt, op)\<in>set calls. op = OpCleanup \<longrightarrow> now \<le> tm"
  shows "session_blocked tm i (run calls (step now0 (\<lambda>_. None) (OpBlockSessions ids e) s))"
  using blocks_sessions [OF assms(1,2)] assms(3) by (rule session_stays_blocked)

end

lemma Unix_less: "Unix a < Unix b \<Longrightarrow> a < b"
  unfolding Unix_def using zdiv_mono1 [of b a Second] by linarith

lemma Unix_mono: "a \<le> b \<Longrightarrow> Unix a \<le> Unix b"
  unfolding Unix_def using zdiv_mono1 [of a b Second] by linarith

lemma mem_BlockSessions_at:
  "ms_session_blocks (mem_BlockSessions ids until s) i =
     (if i \<in> set ids then Some (case ms_session_blocks s i of None \<Rightarrow> until | Some c \<Rightarrow> max c until) else ms_session_blocks s i)
   \<and> ms_blocked (mem_BlockSessions ids until s) = ms_blocked s \<and> ms_user_blocks (mem_BlockSessions ids until s) = ms_user_blocks s"
  by (induction ids arbitrary: s) (auto split: option.splits simp: max_def)

lemma keep_unexpired_at: "keep_unexpired ex now m k = (case m k of None \<Rightarrow> None | Some v \<Rightarrow> if ex v < now then None else Some v)"
  by (simp add: keep_unexpired_def)

interpretation mem: block_store mem_step mem_IsTokenBlocked mem_IsSessionBlocked
proof
  show "mem_IsTokenBlocked tm j (mem_step now (\<lambda>_. None) (OpBlockToken j e) s)" if "Unix tm < Unix e" for tm e j now s
    using Unix_less [OF that] by (simp add: mem_IsTokenBlocked_def mem_BlockToken_def)
  show "mem_IsSessionBlocked tm i (mem_step now (\<lambda>_. None) (OpBlockSessions ids e) s)" if "i \<in> set ids" "Unix tm < Unix e" for i ids tm e now s
    using that(1) Unix_less [OF that(2)] by (auto simp: mem_IsSessionBlocked_def mem_BlockSessions_at split: option.splits)
  show "mem_IsSessionBlocked tm i (mem_step now flt op s)" if "mem_IsSessionBlocked tm i s" "op = OpCleanup \<Longrightarrow> now \<le> tm" for tm i s op now flt
    using that
    by (cases op) (auto simp: mem_IsSessionBlocked_def mem_BlockSessions_at mem_BlockToken_def mem_BlockUser_def mem_UnblockUser_def
        mem_SaveOIDCState_def mem_ConsumeOIDCState_def mem_SaveCLIAuth_def mem_GetCLIAuth_def mem_UpdateCLIAuth_def mem_ConsumeCLIAuth_def
        mem_Cleanup_def keep_unexpired_at split: option.splits if_splits prod.splits)
qed

text \<open>A row of the table that blocks, by its key, its kind and its seconds.\<close>

definition has_live :: "int \<Rightarrow> string \<Rightarrow> string \<Rightarrow> session_entries \<Rightarrow> bool" where
  "has_live sec key kind t \<longleftrightarrow> (\<exists>e\<in>set t. se_entry_key e = key \<and> se_kind e = kind \<and> sec < se_expires_at e)"

lemma blocked_has_live:
  "my_IsTokenBlocked None now j t = Inr (has_live (Unix now) j kindTokenBlock t)"
  "my_IsSessionBlocked None now i t = Inr (has_live (Unix now) i kindSessionBlock t)"
  by (auto simp: my_IsTokenBlocked_def my_IsSessionBlocked_def has_live_def live_entry_def filter_empty_conv)

lemma set_upsert:
  "set (upsert_entry merge e t) = (if entry_key e \<in> entry_key ` set t then (\<lambda>r. if entry_key r = entry_key e then merge e r else r) ` set t
     else insert e (set t))"
  by (auto simp: upsert_entry_def sql_save_def sql_update_def row_of_None_iff)

lemma has_live_upsert:
  assumes "has_live sec key kind t" "\<And>r. se_entry_key (merge e r) = se_entry_key r \<and> se_kind (merge e r) = se_kind r"
    and "\<And>r. entry_key e = (key, kind) \<Longrightarrow> se_expires_at r \<le> se_expires_at (merge e r)"
  shows "has_live sec key kind (upsert_entry merge e t)"
proof -
  obtain r where r: "r \<in> set t" "se_entry_key r = key" "se_kind r = kind" "sec < se_expires_at r" using assms(1) by (auto simp: has_live_def)
  let ?r = "if entry_key r = entry_key e then merge e r else r"
  have "?r \<in> set (upsert_entry merge e t)" using r(1) by (auto simp: set_upsert intro: image_eqI [of _ _ r])
  moreover have "se_entry_key ?r = key" "se_kind ?r = kind" using assms(2) r(2,3) by auto
  moreover have "sec < se_expires_at ?r"
  proof (cases "entry_key r = entry_key e")
    case True
    then have "entry_key e = (key, kind)" using r(2,3) by (simp add: entry_key_def)
    from assms(3) [OF this, of r] r(4) True show ?thesis by simp
  qed (use r(4) in simp)
  ultimately show ?thesis unfolding has_live_def by blast
qed

lemma has_live_new:
  assumes "entry_key e = (key, kind)" "sec < se_expires_at e" "\<And>r. se_entry_key (merge e r) = se_entry_key r \<and> se_kind (merge e r) = se_kind r"
    and "\<And>r. se_expires_at e \<le> se_expires_at (merge e r)"
  shows "has_live sec key kind (upsert_entry merge e t)"
proof (cases "entry_key e \<in> entry_key ` set t")
  case True
  then obtain r where "r \<in> set t" "entry_key r = entry_key e" by auto
  then have "merge e r \<in> set (upsert_entry merge e t)" by (auto simp: set_upsert intro: image_eqI [of _ _ r])
  moreover have "se_entry_key (merge e r) = key" "se_kind (merge e r) = kind"
    using assms(1,3) \<open>entry_key r = entry_key e\<close> by (simp_all add: entry_key_def)
  moreover have "sec < se_expires_at (merge e r)" using assms(2) assms(4) [of r] by linarith
  ultimately show ?thesis unfolding has_live_def by blast
next
  case False
  then have "e \<in> set (upsert_entry merge e t)" by (simp add: set_upsert)
  with assms(1,2) show ?thesis unfolding has_live_def entry_key_def by auto
qed

lemma sessionBlockUpsert_frame:
  "se_entry_key (sessionBlockUpsert e r) = se_entry_key r \<and> se_kind (sessionBlockUpsert e r) = se_kind r"
  "se_expires_at r \<le> se_expires_at (sessionBlockUpsert e r)" "se_expires_at e \<le> se_expires_at (sessionBlockUpsert e r)"
  by (simp_all add: sessionBlockUpsert_def)

lemma fold_keeps_live:
  "has_live sec key kind t \<Longrightarrow> has_live sec key kind (fold (\<lambda>i. upsert_entry sessionBlockUpsert (session_entry_of until i)) ids t)"
proof (induction ids arbitrary: t)
  case (Cons i ids)
  from Cons.prems have "has_live sec key kind (upsert_entry sessionBlockUpsert (session_entry_of until i) t)"
    by (rule has_live_upsert) (simp_all add: sessionBlockUpsert_frame)
  with Cons.IH show ?case by simp
qed simp

lemma batches_keep_live: "has_live sec key kind t \<Longrightarrow> has_live sec key kind (snd (block_batches flt until n bs t))"
  by (induction bs arbitrary: n t) (auto intro: fold_keeps_live split: option.split)

lemma fold_adds_live:
  assumes "i \<in> set ids" "sec < Unix until"
  shows "has_live sec i kindSessionBlock (fold (\<lambda>i. upsert_entry sessionBlockUpsert (session_entry_of until i)) ids t)"
  using assms(1)
proof (induction ids arbitrary: t)
  case (Cons k ids)
  show ?case
  proof (cases "i = k")
    case True
    have "has_live sec i kindSessionBlock (upsert_entry sessionBlockUpsert (session_entry_of until i) t)"
      by (rule has_live_new) (use assms(2) in \<open>simp_all add: session_entry_of_def entry_key_def sessionBlockUpsert_def\<close>)
    with True show ?thesis by (auto intro: fold_keeps_live)
  next
    case False
    with Cons show ?thesis by simp
  qed
qed simp

lemma batches_add_live:
  assumes "i \<in> set (concat bs)" "sec < Unix until"
  shows "has_live sec i kindSessionBlock (snd (block_batches (\<lambda>_. None) until n bs t))"
  using assms(1)
proof (induction bs arbitrary: n t)
  case (Cons b bs)
  show ?case
  proof (cases "i \<in> set b")
    case True
    from fold_adds_live [OF this assms(2)] show ?thesis by (auto intro: batches_keep_live)
  next
    case False
    with Cons show ?thesis by simp
  qed
qed simp

lemma has_live_filter: "has_live sec key kind t \<Longrightarrow> (\<And>e. se_entry_key e = key \<Longrightarrow> se_kind e = kind \<Longrightarrow> sec < se_expires_at e \<Longrightarrow> p e)
    \<Longrightarrow> has_live sec key kind (filter p t)"
  by (auto simp: has_live_def)

lemma has_live_update: "has_live sec key kind t \<Longrightarrow> (\<And>e. se_entry_key (f e) = se_entry_key e \<and> se_kind (f e) = se_kind e \<and> se_expires_at (f e) = se_expires_at e)
    \<Longrightarrow> has_live sec key kind (sql_update p f t)"
proof -
  assume "has_live sec key kind t" and f: "\<And>e. se_entry_key (f e) = se_entry_key e \<and> se_kind (f e) = se_kind e \<and> se_expires_at (f e) = se_expires_at e"
  then obtain e where "e \<in> set t" "se_entry_key e = key" "se_kind e = kind" "sec < se_expires_at e" by (auto simp: has_live_def)
  then have "(if p e then f e else e) \<in> set (sql_update p f t)" by (simp add: set_sql_update)
  then show ?thesis unfolding has_live_def
    by (rule bexI [rotated]) (use f \<open>se_entry_key e = key\<close> \<open>se_kind e = kind\<close> \<open>sec < se_expires_at e\<close> in simp)
qed

abbreviation my_TokenBlocked :: "gtime \<Rightarrow> string \<Rightarrow> session_entries \<Rightarrow> bool" where
  "my_TokenBlocked now j t \<equiv> my_IsTokenBlocked None now j t = Inr True"

abbreviation my_SessionBlocked :: "gtime \<Rightarrow> string \<Rightarrow> session_entries \<Rightarrow> bool" where
  "my_SessionBlocked now i t \<equiv> my_IsSessionBlocked None now i t = Inr True"

lemma my_step_keeps:
  assumes "has_live (Unix tm) i kindSessionBlock t" "op = OpCleanup \<Longrightarrow> now \<le> tm"
  shows "has_live (Unix tm) i kindSessionBlock (my_step now flt op t)"
proof (cases op)
  case (OpBlockToken j e)
  with assms show ?thesis by (auto simp: my_BlockToken_def entry_key_def split: option.split intro!: has_live_upsert)
next
  case (OpBlockUser u e)
  with assms show ?thesis by (auto simp: my_BlockUser_def Let_def entry_key_def split: option.split intro!: has_live_upsert)
next
  case (OpUnblockUser u)
  with assms show ?thesis by (auto simp: my_UnblockUser_def split: option.split intro!: has_live_filter)
next
  case (OpBlockSessions ids e)
  with assms show ?thesis by (auto simp: my_BlockSessions_def intro: batches_keep_live)
next
  case (OpSaveOIDCState k d ttl)
  with assms show ?thesis by (auto simp: my_SaveOIDCState_def my_save_state_def insert_entry_def has_live_def split: option.split)
next
  case (OpConsumeOIDCState k)
  with assms show ?thesis
    by (auto simp: my_ConsumeOIDCState_def my_consume_def find_Some_iff live_entry_def entry_key_def split: option.split intro!: has_live_filter)
next
  case (OpSaveCLIAuth k c ttl)
  with assms show ?thesis by (auto simp: my_SaveCLIAuth_def my_save_state_def insert_entry_def has_live_def split: option.split)
next
  case (OpUpdateCLIAuth k c)
  with assms show ?thesis by (auto simp: my_UpdateCLIAuth_def Let_def split: option.split intro!: has_live_update)
next
  case (OpConsumeCLIAuth k)
  with assms show ?thesis
    by (auto simp: my_ConsumeCLIAuth_def my_consume_def find_Some_iff live_entry_def entry_key_def split: option.split intro!: has_live_filter)
next
  case OpCleanup
  with Unix_mono [OF assms(2)] assms(1) show ?thesis by (auto simp: my_Cleanup_def split: option.split intro!: has_live_filter)
qed (use assms in simp)

interpretation my: block_store my_step my_TokenBlocked my_SessionBlocked
proof
  show "my_TokenBlocked tm j (my_step now (\<lambda>_. None) (OpBlockToken j e) t)" if "Unix tm < Unix e" for tm e j now t
    using that by (auto simp: blocked_has_live my_BlockToken_def entry_key_def intro!: has_live_new)
  show "my_SessionBlocked tm i (my_step now (\<lambda>_. None) (OpBlockSessions ids e) t)" if "i \<in> set ids" "Unix tm < Unix e" for i ids tm e now t
    using that by (auto simp: blocked_has_live my_BlockSessions_def concat_chunks dedup_def intro!: batches_add_live)
  show "my_SessionBlocked tm i (my_step now flt op t)" if "my_SessionBlocked tm i t" "op = OpCleanup \<Longrightarrow> now \<le> tm" for tm i t op now flt
    using my_step_keeps that by (simp add: blocked_has_live)
qed

section \<open>What is blocked\<close>

text \<open>The specification: the end of every block, and for a user the time of the block. A cleanup changes nothing.\<close>

record blocks =
  bk_token :: "string \<rightharpoonup> gtime"
  bk_session :: "string \<rightharpoonup> gtime"
  bk_user :: "string \<rightharpoonup> gtime \<times> gtime"

definition no_blocks :: blocks where
  "no_blocks = \<lparr>bk_token = Map.empty, bk_session = Map.empty, bk_user = Map.empty\<rparr>"

definition later :: "gtime option \<Rightarrow> gtime \<Rightarrow> gtime" where
  "later cur e = (case cur of None \<Rightarrow> e | Some c \<Rightarrow> max c e)"

fun spec_step :: "gtime \<Rightarrow> store_op \<Rightarrow> blocks \<Rightarrow> blocks" where
  "spec_step now (OpBlockToken j e) b = b\<lparr>bk_token := (bk_token b)(j \<mapsto> e)\<rparr>"
| "spec_step now (OpBlockUser u e) b = b\<lparr>bk_user := (bk_user b)(u \<mapsto> (now, e))\<rparr>"
| "spec_step now (OpUnblockUser u) b = b\<lparr>bk_user := (bk_user b)(u := None)\<rparr>"
| "spec_step now (OpBlockSessions ids e) b =
     b\<lparr>bk_session := (\<lambda>i. if i \<in> set ids then Some (later (bk_session b i) e) else bk_session b i)\<rparr>"
| "spec_step now _ b = b"

definition token_blocked :: "gtime \<Rightarrow> string \<Rightarrow> blocks \<Rightarrow> bool" where
  "token_blocked now j b \<longleftrightarrow> (\<exists>e. bk_token b j = Some e \<and> now < e)"

definition session_blocked :: "gtime \<Rightarrow> string \<Rightarrow> blocks \<Rightarrow> bool" where
  "session_blocked now i b \<longleftrightarrow> (\<exists>e. bk_session b i = Some e \<and> now < e)"

text \<open>A user block rejects the tokens issued up to its millisecond, and tokens without a time of issue.\<close>

definition user_blocked :: "gtime \<Rightarrow> string \<Rightarrow> gtime \<Rightarrow> blocks \<Rightarrow> bool" where
  "user_blocked now u issuedAt b \<longleftrightarrow>
     (\<exists>b0 e. bk_user b u = Some (b0, e) \<and> now < e \<and> (issuedAt = zero_time \<or> UnixMilli issuedAt \<le> UnixMilli b0))"

text \<open>Clocks between 2001 and the year 33658.\<close>

definition sane_clock :: "gtime \<Rightarrow> bool" where
  "sane_clock t \<longleftrightarrow> msTimestampMin \<le> UnixMilli t \<and> Unix t < msTimestampMin"

section \<open>Numbers as text\<close>

lemma digit_value_char [simp]: "d < 10 \<Longrightarrow> digit_value (char_of (48 + d :: nat)) = Some d"
  by (simp add: digit_value_def Let_def of_char_of)

lemma digits_value_append: "digits_value (a @ b) acc = (case digits_value a acc of None \<Rightarrow> None | Some n \<Rightarrow> digits_value b n)"
  by (induction a arbitrary: acc) (auto split: option.split)

lemma digits_value_digits: "digits_value (digits n) 0 = Some n"
proof (induction n rule: digits.induct)
  case (1 n)
  show ?case
  proof (cases "n < 10")
    case False
    with 1 show ?thesis by (subst digits.simps) (simp add: digits_value_append)
  qed (subst digits.simps, simp)
qed

lemma digits_chars: "c \<in> set (digits n) \<Longrightarrow> 48 \<le> (of_char c :: nat) \<and> (of_char c :: nat) \<le> 57"
proof (induction n rule: digits.induct)
  case (1 n)
  then show ?case by (subst (asm) (2) digits.simps) (auto simp: of_char_of split: if_splits)
qed

lemma digits_nonempty: "digits n \<noteq> []"
  by (subst digits.simps) simp

lemma Atoi_digits:
  assumes "n < 2 ^ 63"
  shows "Atoi (TrimSpace (digits n)) = Some (int n)"
proof -
  have sp: "\<not> list_ex is_space (digits n)"
    using digits_chars [of _ n] by (force simp: list_ex_iff is_space_def)
  obtain c cs where c: "digits n = c # cs" using digits_nonempty by (cases "digits n") auto
  then have "48 \<le> (of_char c :: nat)" using digits_chars [of c n] by simp
  then have "c \<noteq> CHR ''-''" "c \<noteq> CHR ''+''" by auto
  then have "\<not> HasPrefix (digits n) ''-''" "\<not> HasPrefix (digits n) ''+''" by (auto simp: HasPrefix_def c)
  then show ?thesis
    using digits_value_digits [of n] digits_nonempty [of n] assms by (simp add: TrimSpace_id [OF sp] Atoi_def Let_def)
qed

lemma Unix_of_milli: "UnixMilli t div 1000 = Unix t"
proof -
  have "UnixMilli t div 1000 = (t div 1000000 + - 62135596800 * 1000) div 1000" by (simp add: UnixMilli_def)
  also have "\<dots> = - 62135596800 + t div 1000000 div 1000" by (rule div_mult_self1) simp
  also have "t div 1000000 div 1000 = t div Second" using zdiv_zmult2_eq [of 1000 t 1000000] by simp
  finally show ?thesis by (simp add: Unix_def)
qed

lemma block_time_exact:
  assumes "sane_clock b"
  shows "userBlockTime (Some (FormatInt (Unix b))) (Some (FormatInt (UnixMilli b))) = UnixMilli b"
proof -
  let ?s = "Unix b" and ?m = "UnixMilli b"
  have m: "msTimestampMin \<le> ?m" and s: "?s < msTimestampMin" using assms by (simp_all add: sane_clock_def)
  have d: "?m div 1000 = ?s" by (rule Unix_of_milli)
  with m have pos: "0 < ?s" by linarith
  have "?m < 1000 * msTimestampMin" using d s by linarith
  then have mlt: "?m < 2 ^ 63" by simp
  have ps: "parseBlockedAt (FormatInt ?s) = ?s * 1000 + 999"
    using pos s Atoi_digits [of "nat ?s"] wrap64_small [of "?s * 1000 + 999"]
    by (simp add: parseBlockedAt_def FormatInt_def)
  have pm: "parseBlockedAt (FormatInt ?m) = ?m"
    using m mlt Atoi_digits [of "nat ?m"] by (simp add: parseBlockedAt_def FormatInt_def)
  have "(?s * 1000 + 999) sdiv 1000 = ?s" "?m sdiv 1000 = ?s"
    using pos m d by (simp_all add: signed_divide_int_def)
  with ps pm m pos show ?thesis by (simp add: userBlockTime_def Let_def)
qed

section \<open>Refinement\<close>

text \<open>
  A store refines the specification when both agree on the blocks that have not ended; with clocks that do not run
  backwards, this carries over from call to call. \<open>trim\<close> is what a store keeps of the arguments.
\<close>

definition alive :: "('v \<Rightarrow> int) \<Rightarrow> int \<Rightarrow> 'v option \<Rightarrow> 'v option" where
  "alive ex T v = (case v of None \<Rightarrow> None | Some x \<Rightarrow> if T < ex x then Some x else None)"

definition agree :: "('v \<Rightarrow> int) \<Rightarrow> int \<Rightarrow> (string \<Rightarrow> 'v option) \<Rightarrow> (string \<Rightarrow> 'v option) \<Rightarrow> bool" where
  "agree ex T m m' \<longleftrightarrow> (\<forall>k. alive ex T (m k) = alive ex T (m' k))"

lemma alive_alive: "T \<le> T' \<Longrightarrow> alive ex T' (alive ex T v) = alive ex T' v"
  by (auto simp: alive_def split: option.split)

lemma agree_later: "agree ex T m m' \<Longrightarrow> T \<le> T' \<Longrightarrow> agree ex T' m m'"
  unfolding agree_def by (metis alive_alive)

lemma agree_upd: "agree ex T m m' \<Longrightarrow> agree ex T (m(k := v)) (m'(k := v))"
  by (simp add: agree_def)

lemma alive_keep: "alive ex T (keep_unexpired ex T m k) = alive ex T (m k)"
  by (auto simp: keep_unexpired_at alive_def split: option.split)

lemma agree_keep: "agree ex T m m' \<Longrightarrow> agree ex T (keep_unexpired ex T m) m'"
  by (simp add: agree_def alive_keep)

lemma alive_max:
  assumes "alive id T a = alive id T b"
  shows "alive id T (Some (later a e)) = alive id T (Some (later b e))"
  using assms by (auto simp: alive_def later_def max_def split: option.splits if_splits)

locale store_refinement =
  fixes step :: "gtime \<Rightarrow> store_op \<Rightarrow> 's \<Rightarrow> 's" and trim :: "store_op \<Rightarrow> store_op" and rel :: "gtime \<Rightarrow> 's \<Rightarrow> blocks \<Rightarrow> bool"
  assumes refines: "rel T s b \<Longrightarrow> T \<le> now \<Longrightarrow> sane_clock now \<Longrightarrow> rel now (step now op s) (spec_step now (trim op) b)"
    and rel_later: "rel T s b \<Longrightarrow> T \<le> now \<Longrightarrow> rel now s b"
begin

lemma run_refines:
  assumes "rel T s b" "\<forall>(now, op)\<in>set calls. T \<le> now \<and> now \<le> at_end \<and> sane_clock now" "sorted (map fst calls)" "T \<le> at_end"
  shows "rel at_end (fold (\<lambda>(now, op). step now op) calls s) (fold (\<lambda>(now, op). spec_step now (trim op)) calls b)"
  using assms
proof (induction calls arbitrary: T s b)
  case (Cons c calls)
  obtain now op where c: "c = (now, op)" by (cases c)
  have "rel now (step now op s) (spec_step now (trim op) b)" using Cons.prems c by (intro refines) auto
  moreover have "\<forall>(n, op)\<in>set calls. now \<le> n \<and> n \<le> at_end \<and> sane_clock n" using Cons.prems(2,3) c by fastforce
  ultimately have "rel at_end (fold (\<lambda>(now, op). step now op) calls (step now op s)) (fold (\<lambda>(now, op). spec_step now (trim op)) calls (spec_step now (trim op) b))"
    using Cons.prems c by (intro Cons.IH) auto
  with c show ?case by simp
qed (auto intro: rel_later)

end

definition sane_users :: "blocks \<Rightarrow> bool" where
  "sane_users b \<longleftrightarrow> (\<forall>u b0 e. bk_user b u = Some (b0, e) \<longrightarrow> sane_clock b0)"

definition mem_block :: "gtime \<times> gtime \<Rightarrow> mem_user_block" where
  "mem_block x = \<lparr>mu_expires_at = snd x, mu_blocked_at_sec = Unix (fst x), mu_blocked_at_ms = UnixMilli (fst x)\<rparr>"

definition mem_refines :: "gtime \<Rightarrow> mem_store \<Rightarrow> blocks \<Rightarrow> bool" where
  "mem_refines T s b \<longleftrightarrow> agree id T (ms_blocked s) (bk_token b) \<and> agree id T (ms_session_blocks s) (bk_session b)
     \<and> agree mu_expires_at T (ms_user_blocks s) (\<lambda>u. map_option mem_block (bk_user b u)) \<and> sane_users b"

lemma sane_users_step: "sane_users b \<Longrightarrow> sane_clock now \<Longrightarrow> sane_users (spec_step now op b)"
  by (cases op) (auto simp: sane_users_def)

lemma mem_refines_later: "mem_refines T s b \<Longrightarrow> T \<le> now \<Longrightarrow> mem_refines now s b"
  by (auto simp: mem_refines_def intro: agree_later)

lemma user_upd: "(\<lambda>u'. map_option mem_block (if u' = u then v else bk_user b u')) = (\<lambda>u'. map_option mem_block (bk_user b u'))(u := map_option mem_block v)"
  by auto

lemma mem_sessions_agree:
  assumes "agree id T (ms_session_blocks s) (bk_session b)"
  shows "agree id T (ms_session_blocks (mem_BlockSessions ids e s)) (\<lambda>i. if i \<in> set ids then Some (later (bk_session b i) e) else bk_session b i)"
proof -
  have "alive id T (ms_session_blocks (mem_BlockSessions ids e s) i) = alive id T (if i \<in> set ids then Some (later (bk_session b i) e) else bk_session b i)" for i
  proof -
    have a: "alive id T (ms_session_blocks s i) = alive id T (bk_session b i)" using assms by (simp add: agree_def)
    have "ms_session_blocks (mem_BlockSessions ids e s) i = (if i \<in> set ids then Some (later (ms_session_blocks s i) e) else ms_session_blocks s i)"
      using mem_BlockSessions_at [of ids e s i] by (simp add: later_def)
    with a alive_max [OF a, of e] show ?thesis by simp
  qed
  then show ?thesis by (simp only: agree_def simp_thms)
qed

lemma mem_step_refines:
  assumes "mem_refines T s b" "T \<le> now" "sane_clock now"
  shows "mem_refines now (mem_step now flt op s) (spec_step now op b)"
proof -
  have r: "mem_refines now s b" using assms(1,2) by (rule mem_refines_later)
  have "agree id now (ms_blocked (mem_step now flt op s)) (bk_token (spec_step now op b))"
    using r by (cases op) (auto simp: mem_refines_def mem_BlockToken_def mem_BlockUser_def mem_UnblockUser_def mem_BlockSessions_at
        mem_SaveOIDCState_def mem_ConsumeOIDCState_def mem_SaveCLIAuth_def mem_GetCLIAuth_def mem_UpdateCLIAuth_def mem_ConsumeCLIAuth_def
        mem_Cleanup_def agree_upd agree_keep split: option.split prod.split)
  moreover have "agree id now (ms_session_blocks (mem_step now flt op s)) (bk_session (spec_step now op b))"
    using r by (cases op) (auto simp: mem_refines_def mem_BlockToken_def mem_BlockUser_def mem_UnblockUser_def mem_sessions_agree
        mem_SaveOIDCState_def mem_ConsumeOIDCState_def mem_SaveCLIAuth_def mem_GetCLIAuth_def mem_UpdateCLIAuth_def mem_ConsumeCLIAuth_def
        mem_Cleanup_def agree_keep split: option.split prod.split)
  moreover have "agree mu_expires_at now (ms_user_blocks (mem_step now flt op s)) (\<lambda>u. map_option mem_block (bk_user (spec_step now op b) u))"
  proof (cases op)
    case (OpBlockUser u e)
    have "ms_user_blocks (mem_step now flt op s) = (ms_user_blocks s)(u \<mapsto> mem_block (now, e))"
      by (simp add: OpBlockUser mem_BlockUser_def mem_block_def)
    moreover have "(\<lambda>u. map_option mem_block (bk_user (spec_step now op b) u)) = (\<lambda>u. map_option mem_block (bk_user b u))(u \<mapsto> mem_block (now, e))"
      by (auto simp: OpBlockUser)
    ultimately show ?thesis using r by (simp only: mem_refines_def agree_upd)
  next
    case (OpUnblockUser u)
    have "(\<lambda>u. map_option mem_block (bk_user (spec_step now op b) u)) = (\<lambda>u. map_option mem_block (bk_user b u))(u := None)"
      by (auto simp: OpUnblockUser)
    moreover have "ms_user_blocks (mem_step now flt op s) = (ms_user_blocks s)(u := None)" by (simp add: OpUnblockUser mem_UnblockUser_def)
    ultimately show ?thesis using r by (simp only: mem_refines_def agree_upd)
  qed (use r in \<open>auto simp: mem_refines_def mem_BlockToken_def mem_BlockSessions_at mem_SaveOIDCState_def mem_ConsumeOIDCState_def
      mem_SaveCLIAuth_def mem_GetCLIAuth_def mem_UpdateCLIAuth_def mem_ConsumeCLIAuth_def mem_Cleanup_def agree_keep split: option.split prod.split\<close>)
  moreover have "sane_users (spec_step now op b)" using r assms(3) sane_users_step by (simp add: mem_refines_def)
  ultimately show ?thesis by (simp add: mem_refines_def)
qed

interpretation mem_spec: store_refinement "\<lambda>now op. mem_step now (\<lambda>_. None) op" id mem_refines
  by unfold_locales (auto intro: mem_step_refines mem_refines_later)

lemma agree_Some: "agree ex T m m' \<Longrightarrow> (\<exists>v. m k = Some v \<and> T < ex v \<and> P v) \<longleftrightarrow> (\<exists>v. m' k = Some v \<and> T < ex v \<and> P v)"
  unfolding agree_def alive_def by (drule spec [of _ k]) (auto split: option.splits if_splits)

lemma mem_block_ex:
  "(\<exists>v. map_option mem_block x = Some v \<and> now < mu_expires_at v \<and> Q v) \<longleftrightarrow> (\<exists>b0 e. x = Some (b0, e) \<and> now < e \<and> Q (mem_block (b0, e)))"
proof -
  have "mu_expires_at (mem_block v) = snd v" for v by (simp add: mem_block_def)
  then show ?thesis by (cases x) auto
qed

lemma mem_answers:
  assumes "mem_refines now s b"
  shows "mem_IsTokenBlocked now j s = token_blocked now j b" "mem_IsSessionBlocked now i s = session_blocked now i b"
    "mem_IsUserBlocked now u issued s = user_blocked now u issued b"
proof -
  show "mem_IsTokenBlocked now j s = token_blocked now j b"
    using assms agree_Some [of id now "ms_blocked s" "bk_token b" j "\<lambda>_. True"]
    by (auto simp: mem_refines_def mem_IsTokenBlocked_def token_blocked_def split: option.splits)
  show "mem_IsSessionBlocked now i s = session_blocked now i b"
    using assms agree_Some [of id now "ms_session_blocks s" "bk_session b" i "\<lambda>_. True"]
    by (auto simp: mem_refines_def mem_IsSessionBlocked_def session_blocked_def split: option.splits)
  let ?P = "\<lambda>e. userBlockApplies (userBlockTime (Some (FormatInt (mu_blocked_at_sec e)))
                (if mu_blocked_at_ms e > 0 then Some (FormatInt (mu_blocked_at_ms e)) else None)) issued"
  have P: "?P (mem_block (b0, e)) \<longleftrightarrow> issued = zero_time \<or> UnixMilli issued \<le> UnixMilli b0" if "sane_clock b0" for b0 e
  proof -
    have "0 < UnixMilli b0" using that by (simp add: sane_clock_def)
    with block_time_exact [OF that] show ?thesis by (simp add: mem_block_def userBlockApplies_def)
  qed
  have "mem_IsUserBlocked now u issued s \<longleftrightarrow> (\<exists>v. ms_user_blocks s u = Some v \<and> now < mu_expires_at v \<and> ?P v)"
    by (auto simp: mem_IsUserBlocked_def split: option.splits)
  also have "\<dots> \<longleftrightarrow> (\<exists>v. map_option mem_block (bk_user b u) = Some v \<and> now < mu_expires_at v \<and> ?P v)"
    using assms agree_Some [of mu_expires_at now "ms_user_blocks s" "\<lambda>u. map_option mem_block (bk_user b u)" u ?P] by (simp add: mem_refines_def)
  also have "\<dots> \<longleftrightarrow> (\<exists>b0 e. bk_user b u = Some (b0, e) \<and> now < e \<and> ?P (mem_block (b0, e)))"
    by (rule mem_block_ex)
  also have "\<dots> \<longleftrightarrow> user_blocked now u issued b"
  proof -
    have "sane_clock b0" if "bk_user b u = Some (b0, e)" for b0 e using assms that unfolding mem_refines_def sane_users_def by blast
    with P show ?thesis unfolding user_blocked_def by metis
  qed
  finally show "mem_IsUserBlocked now u issued s = user_blocked now u issued b" .
qed

text \<open>The MySQL store keeps whole seconds of the end of a block.\<close>

definition whole :: "gtime \<Rightarrow> gtime" where
  "whole e = (e div Second) * Second"

fun whole_op :: "store_op \<Rightarrow> store_op" where
  "whole_op (OpBlockToken j e) = OpBlockToken j (whole e)"
| "whole_op (OpBlockUser u e) = OpBlockUser u (whole e)"
| "whole_op (OpBlockSessions ids e) = OpBlockSessions ids (whole e)"
| "whole_op op = op"

lemma Unix_whole [simp]: "Unix (whole e) = Unix e" and whole_whole [simp]: "whole (whole e) = whole e"
  by (simp_all add: Unix_def whole_def)

lemma Unix_less_whole: "whole e = e \<Longrightarrow> Unix T < Unix e \<longleftrightarrow> T < e"
  unfolding whole_def Unix_def using div_mult_mod_eq [of T Second] pos_mod_bound [of Second T] pos_mod_sign [of Second T] by linarith

lemma Unix_max: "Unix (max a b) = max (Unix a) (Unix b)"
  using Unix_mono [of a b] Unix_mono [of b a] unfolding max_def by (cases "a \<le> b") auto

lemma whole_max: "whole a = a \<Longrightarrow> whole b = b \<Longrightarrow> whole (max a b) = max a b"
  by (simp add: max_def)

definition my_row :: "session_entries \<Rightarrow> string \<Rightarrow> string \<Rightarrow> (entry_data \<times> int) option" where
  "my_row t kind k = map_option (\<lambda>r. (se_data r, se_expires_at r)) (row_of entry_key (k, kind) t)"

definition my_end :: "session_entries \<Rightarrow> string \<Rightarrow> string \<Rightarrow> int option" where
  "my_end t kind k = map_option snd (my_row t kind k)"

definition my_block :: "(gtime \<Rightarrow> int) \<Rightarrow> gtime \<times> gtime \<Rightarrow> entry_data \<times> int" where
  "my_block unit x = (TimeData (FormatInt (unit (fst x))), Unix (snd x))"

definition whole_blocks :: "blocks \<Rightarrow> bool" where
  "whole_blocks b \<longleftrightarrow> (\<forall>j e. bk_token b j = Some e \<longrightarrow> whole e = e) \<and> (\<forall>i e. bk_session b i = Some e \<longrightarrow> whole e = e)
     \<and> (\<forall>u b0 e. bk_user b u = Some (b0, e) \<longrightarrow> whole e = e)"

definition my_refines :: "gtime \<Rightarrow> session_entries \<Rightarrow> blocks \<Rightarrow> bool" where
  "my_refines T t b \<longleftrightarrow> keyed entry_key t \<and> whole_blocks b \<and> sane_users b
     \<and> agree id (Unix T) (my_end t kindTokenBlock) (\<lambda>j. map_option Unix (bk_token b j))
     \<and> agree id (Unix T) (my_end t kindSessionBlock) (\<lambda>i. map_option Unix (bk_session b i))
     \<and> agree snd (Unix T) (my_row t kindUserBlock) (\<lambda>u. map_option (my_block Unix) (bk_user b u))
     \<and> agree snd (Unix T) (my_row t kindUserBlockMs) (\<lambda>u. map_option (my_block UnixMilli) (bk_user b u))"

lemma my_refines_later: "my_refines T t b \<Longrightarrow> T \<le> now \<Longrightarrow> my_refines now t b"
  unfolding my_refines_def using Unix_mono [of T now] by (auto intro: agree_later)

lemma whole_blocks_step: "whole_blocks b \<Longrightarrow> whole_blocks (spec_step now (whole_op op) b)"
  by (cases op) (auto simp: whole_blocks_def later_def whole_max split: option.splits)

text \<open>The effect of the statements on a row, by its key.\<close>

lemma my_row_upsert:
  assumes "\<And>r. se_entry_key (merge e r) = se_entry_key r \<and> se_kind (merge e r) = se_kind r"
  shows "my_row (upsert_entry merge e t) kind k =
    (if entry_key e = (k, kind) then Some (case row_of entry_key (k, kind) t of None \<Rightarrow> (se_data e, se_expires_at e)
        | Some r \<Rightarrow> (se_data (merge e r), se_expires_at (merge e r)))
     else my_row t kind k)"
proof -
  let ?m = "\<lambda>r. if entry_key r = entry_key e then merge e r else r"
  have "entry_key (?m r) = entry_key r" for r using assms by (simp add: entry_key_def)
  then have "row_of entry_key (k, kind) (upsert_entry merge e t) = (if (k, kind) = entry_key e then
      (case row_of entry_key (entry_key e) t of None \<Rightarrow> Some e | Some r \<Rightarrow> Some (?m r)) else row_of entry_key (k, kind) t)"
    unfolding upsert_entry_def by (subst row_of_sql_save) auto
  then show ?thesis by (auto simp: my_row_def split: option.split dest: row_of_SomeD)
qed

lemma keyed_upsert:
  assumes "\<And>r. se_entry_key (merge e r) = se_entry_key r \<and> se_kind (merge e r) = se_kind r" "keyed entry_key t"
  shows "keyed entry_key (upsert_entry merge e t)"
  unfolding upsert_entry_def using assms by (intro keyed_sql_save) (auto simp: entry_key_def)

lemma my_end_sessions:
  assumes "keyed entry_key t"
  shows "keyed entry_key (fold (\<lambda>i. upsert_entry sessionBlockUpsert (session_entry_of until i)) ids t)
   \<and> my_end (fold (\<lambda>i. upsert_entry sessionBlockUpsert (session_entry_of until i)) ids t) kindSessionBlock i =
      (if i \<in> set ids then Some (later (my_end t kindSessionBlock i) (Unix until)) else my_end t kindSessionBlock i)
   \<and> (kind \<noteq> kindSessionBlock \<longrightarrow> my_row (fold (\<lambda>i. upsert_entry sessionBlockUpsert (session_entry_of until i)) ids t) kind k = my_row t kind k)"
  using assms
proof (induction ids arbitrary: t)
  case (Cons j ids)
  let ?t = "upsert_entry sessionBlockUpsert (session_entry_of until j) t"
  have k: "keyed entry_key ?t" using Cons.prems by (intro keyed_upsert) (simp_all add: sessionBlockUpsert_frame)
  have r: "my_row ?t kind' k' = (if (j, kindSessionBlock) = (k', kind') then Some (case row_of entry_key (k', kind') t of
        None \<Rightarrow> (NoData, Unix until) | Some r \<Rightarrow> (se_data r, max (se_expires_at r) (Unix until))) else my_row t kind' k')" for kind' k'
    by (subst my_row_upsert) (auto simp: sessionBlockUpsert_def session_entry_of_def entry_key_def split: option.split)
  have "my_end ?t kindSessionBlock i = (if i = j then Some (later (my_end t kindSessionBlock i) (Unix until)) else my_end t kindSessionBlock i)"
    unfolding my_end_def r by (auto simp: my_row_def later_def split: option.split)
  with Cons.IH [OF k] r show ?case by (auto simp: later_def split: option.splits)
qed simp

lemma batches_fold: "snd (block_batches (\<lambda>_. None) until n bs t) = fold (\<lambda>i. upsert_entry sessionBlockUpsert (session_entry_of until i)) (concat bs) t"
  by (induction bs arbitrary: n t) auto

lemma my_BlockSessions_fold:
  "snd (my_BlockSessions (\<lambda>_. None) ids until t) = fold (\<lambda>i. upsert_entry sessionBlockUpsert (session_entry_of until i)) (dedup ids) t"
  by (simp add: my_BlockSessions_def batches_fold concat_chunks)

abbreviation blockKinds :: "string set" where
  "blockKinds \<equiv> {kindTokenBlock, kindSessionBlock, kindUserBlock, kindUserBlockMs}"

lemma my_refines_rows:
  assumes "my_refines T t b" "keyed entry_key t'" "\<And>kind k. kind \<in> blockKinds \<Longrightarrow> my_row t' kind k = my_row t kind k"
  shows "my_refines T t' b"
proof -
  have "my_row t' kind = my_row t kind" "my_end t' kind = my_end t kind" if "kind \<in> blockKinds" for kind
    using assms(3) that unfolding my_end_def by auto
  with assms(1,2) show ?thesis unfolding my_refines_def by simp
qed

lemma my_row_insert: "my_row (snd (insert_entry flt e t)) kind k = (if entry_key e = (k, kind) \<and> flt = None \<and> my_row t kind k = None
    then Some (se_data e, se_expires_at e) else my_row t kind k)"
  by (auto simp: my_row_def insert_entry_def row_of_append split: option.split)

lemma keyed_insert_entry: "keyed entry_key t \<Longrightarrow> keyed entry_key (snd (insert_entry flt e t))"
  by (auto simp: insert_entry_def keyed_snoc split: option.split)

lemma my_row_filter:
  assumes "keyed entry_key t"
  shows "my_row (filter q t) kind k = (case row_of entry_key (k, kind) t of None \<Rightarrow> None
    | Some r \<Rightarrow> if q r then Some (se_data r, se_expires_at r) else None)"
  by (auto simp: my_row_def row_of_filter [OF assms] split: option.split)

lemma my_row_kept:
  assumes "keyed entry_key t" "\<And>r. se_entry_key r = k \<Longrightarrow> se_kind r = kind \<Longrightarrow> q r"
  shows "my_row (filter q t) kind k = my_row t kind k"
  unfolding my_row_filter [OF assms(1)] unfolding my_row_def using assms(2) by (auto simp: entry_key_def split: option.split dest: row_of_SomeD)

lemma my_consume_rows:
  assumes "keyed entry_key t" "kind' \<noteq> kind"
  shows "my_row (snd (my_consume kind flt now key t)) kind' k = my_row t kind' k" "keyed entry_key (snd (my_consume kind flt now key t))"
proof -
  have "my_row (filter (\<lambda>r. entry_key r \<noteq> entry_key e) t) kind' k = my_row t kind' k" if "live_entry now key kind e" for e
    using assms that by (intro my_row_kept) (auto simp: entry_key_def live_entry_def)
  then show "my_row (snd (my_consume kind flt now key t)) kind' k = my_row t kind' k"
    by (auto simp: my_consume_def find_Some_iff split: option.split)
  show "keyed entry_key (snd (my_consume kind flt now key t))"
    using assms(1) by (auto simp: my_consume_def intro: keyed_filter split: option.split)
qed

lemma my_update_rows:
  assumes "keyed entry_key t" "kind \<noteq> kindCLIAuth"
  shows "my_row (snd (my_UpdateCLIAuth flt now key c t)) kind k = my_row t kind k" "keyed entry_key (snd (my_UpdateCLIAuth flt now key c t))"
proof -
  let ?p = "live_entry now key kindCLIAuth" and ?f = "\<lambda>e. e\<lparr>se_data := CLIData c\<rparr>"
  have r: "row_of entry_key (k, kind) (sql_update ?p ?f t) = map_option (\<lambda>r. if ?p r then ?f r else r) (row_of entry_key (k, kind) t)"
    by (rule row_of_sql_update) (simp add: entry_key_def)
  have "my_row (sql_update ?p ?f t) kind k = my_row t kind k"
    unfolding my_row_def r using assms(2)
    by (cases "row_of entry_key (k, kind) t") (auto simp: live_entry_def entry_key_def dest: row_of_SomeD)
  moreover have "keyed entry_key (sql_update ?p ?f t)" using assms(1) by (subst keyed_sql_update) (auto simp: entry_key_def)
  ultimately show "my_row (snd (my_UpdateCLIAuth flt now key c t)) kind k = my_row t kind k" "keyed entry_key (snd (my_UpdateCLIAuth flt now key c t))"
    using assms(1) by (auto simp: my_UpdateCLIAuth_def Let_def split: option.split)
qed

lemma agree_fun_upd: "agree ex T m m' \<Longrightarrow> \<forall>k'. k' \<noteq> k \<longrightarrow> n k' = m k' \<Longrightarrow> \<forall>k'. k' \<noteq> k \<longrightarrow> n' k' = m' k' \<Longrightarrow> n k = n' k \<Longrightarrow> agree ex T n n'"
  unfolding agree_def by metis

lemma my_BlockToken_refines:
  assumes "my_refines now t b"
  shows "my_refines now (snd (my_BlockToken None j e t)) (spec_step now (OpBlockToken j (whole e)) b)"
proof -
  let ?t = "snd (my_BlockToken None j e t)"
  have r: "my_row ?t kind k = (if (j, kindTokenBlock) = (k, kind) then Some (case row_of entry_key (k, kind) t of None \<Rightarrow> (NoData, Unix e)
      | Some r \<Rightarrow> (se_data r, Unix e)) else my_row t kind k)" for kind k
    by (auto simp: my_BlockToken_def my_row_upsert entry_key_def split: option.split)
  have "keyed entry_key ?t" using assms by (auto simp: my_BlockToken_def my_refines_def intro!: keyed_upsert)
  moreover have "my_row ?t kind = my_row t kind" if "kind \<noteq> kindTokenBlock" for kind using r that by auto
  moreover from this have "my_end ?t kind = my_end t kind" if "kind \<noteq> kindTokenBlock" for kind using that unfolding my_end_def by auto
  moreover have "agree id (Unix now) (my_end ?t kindTokenBlock) (\<lambda>k. map_option Unix (((bk_token b)(j \<mapsto> whole e)) k))"
    by (rule agree_fun_upd [where k = j and m = "my_end t kindTokenBlock" and m' = "\<lambda>k. map_option Unix (bk_token b k)"])
      (use assms r in \<open>auto simp: my_refines_def my_end_def split: option.split\<close>)
  ultimately show ?thesis using assms whole_blocks_step [of b now "OpBlockToken j e"] by (simp add: my_refines_def sane_users_def)
qed

lemma my_BlockUser_rows:
  "my_row (snd (my_BlockUser None now u e t)) kind k =
     (if kind = kindUserBlock \<and> k = u then Some (TimeData (FormatInt (Unix now)), Unix e)
      else if kind = kindUserBlockMs \<and> k = u then Some (TimeData (FormatInt (UnixMilli now)), Unix e)
      else my_row t kind k)"
proof -
  let ?m = "\<lambda>e r. r\<lparr>se_expires_at := se_expires_at e, se_data := se_data e\<rparr> :: session_entry"
  have "my_row (upsert_entry ?m x t) kind k = (if entry_key x = (k, kind) then Some (se_data x, se_expires_at x) else my_row t kind k)" for x t
    by (subst my_row_upsert) (auto split: option.split)
  then show ?thesis by (auto simp: my_BlockUser_def Let_def entry_key_def)
qed

lemma my_BlockUser_refines:
  assumes "my_refines now t b" "sane_clock now"
  shows "my_refines now (snd (my_BlockUser None now u e t)) (spec_step now (OpBlockUser u (whole e)) b)"
proof -
  let ?t = "snd (my_BlockUser None now u e t)" and ?b = "(bk_user b)(u \<mapsto> (now, whole e))"
  have "keyed entry_key ?t" using assms by (auto simp: my_BlockUser_def Let_def my_refines_def intro!: keyed_upsert)
  moreover have "my_end ?t kindTokenBlock = my_end t kindTokenBlock" "my_end ?t kindSessionBlock = my_end t kindSessionBlock"
    by (auto simp: my_end_def my_BlockUser_rows)
  moreover have "agree snd (Unix now) (my_row ?t kindUserBlock) (\<lambda>k. map_option (my_block Unix) (?b k))"
    by (rule agree_fun_upd [where k = u and m = "my_row t kindUserBlock" and m' = "\<lambda>k. map_option (my_block Unix) (bk_user b k)"])
      (use assms in \<open>auto simp: my_refines_def my_BlockUser_rows my_block_def\<close>)
  moreover have "agree snd (Unix now) (my_row ?t kindUserBlockMs) (\<lambda>k. map_option (my_block UnixMilli) (?b k))"
    by (rule agree_fun_upd [where k = u and m = "my_row t kindUserBlockMs" and m' = "\<lambda>k. map_option (my_block UnixMilli) (bk_user b k)"])
      (use assms in \<open>auto simp: my_refines_def my_BlockUser_rows my_block_def\<close>)
  ultimately show ?thesis
    using assms whole_blocks_step [of b now "OpBlockUser u e"] sane_users_step [of b now "OpBlockUser u (whole e)"] by (simp add: my_refines_def)
qed

lemma my_UnblockUser_refines:
  assumes "my_refines now t b"
  shows "my_refines now (snd (my_UnblockUser None u t)) (spec_step now (OpUnblockUser u) b)"
proof -
  let ?t = "snd (my_UnblockUser None u t)" and ?b = "(bk_user b)(u := None)"
  have k: "keyed entry_key t" using assms by (simp add: my_refines_def)
  have r: "my_row ?t kind k = (if kind \<in> {kindUserBlock, kindUserBlockMs} \<and> k = u then None else my_row t kind k)" for kind k
    unfolding my_UnblockUser_def option.case snd_conv unfolding my_row_filter [OF k] unfolding my_row_def
    by (auto simp: entry_key_def split: option.split dest: row_of_SomeD)
  have "keyed entry_key ?t" using k by (simp add: my_UnblockUser_def keyed_filter)
  moreover have "my_end ?t kindTokenBlock = my_end t kindTokenBlock" "my_end ?t kindSessionBlock = my_end t kindSessionBlock"
    by (auto simp: my_end_def r)
  moreover have "agree snd (Unix now) (my_row ?t kindUserBlock) (\<lambda>k. map_option (my_block Unix) (?b k))"
    by (rule agree_fun_upd [where k = u and m = "my_row t kindUserBlock" and m' = "\<lambda>k. map_option (my_block Unix) (bk_user b k)"])
      (use assms in \<open>auto simp: my_refines_def r\<close>)
  moreover have "agree snd (Unix now) (my_row ?t kindUserBlockMs) (\<lambda>k. map_option (my_block UnixMilli) (?b k))"
    by (rule agree_fun_upd [where k = u and m = "my_row t kindUserBlockMs" and m' = "\<lambda>k. map_option (my_block UnixMilli) (bk_user b k)"])
      (use assms in \<open>auto simp: my_refines_def r\<close>)
  ultimately show ?thesis
    using assms whole_blocks_step [of b now "OpUnblockUser u"] by (auto simp: my_refines_def sane_users_def)
qed

lemma my_BlockSessions_refines:
  assumes "my_refines now t b"
  shows "my_refines now (snd (my_BlockSessions (\<lambda>_. None) ids e t)) (spec_step now (OpBlockSessions ids (whole e)) b)"
proof -
  let ?t = "snd (my_BlockSessions (\<lambda>_. None) ids e t)" and ?b = "\<lambda>i. if i \<in> set ids then Some (later (bk_session b i) (whole e)) else bk_session b i"
  have k: "keyed entry_key t" using assms by (simp add: my_refines_def)
  note f = my_end_sessions [OF k, of e "dedup ids", folded my_BlockSessions_fold]
  have "my_row ?t kind = my_row t kind" if "kind \<noteq> kindSessionBlock" for kind using f that by blast
  moreover from this have "my_end ?t kindTokenBlock = my_end t kindTokenBlock" unfolding my_end_def by simp
  moreover have "agree id (Unix now) (my_end ?t kindSessionBlock) (\<lambda>i. map_option Unix (?b i))"
    unfolding agree_def
  proof
    fix i
    have a: "alive id (Unix now) (my_end t kindSessionBlock i) = alive id (Unix now) (map_option Unix (bk_session b i))"
      using assms by (simp add: my_refines_def agree_def)
    have "Unix (later (bk_session b i) (whole e)) = later (map_option Unix (bk_session b i)) (Unix e)"
      by (auto simp: later_def Unix_max split: option.split)
    with a alive_max [OF a, of "Unix e"] f [of i]
    show "alive id (Unix now) (my_end ?t kindSessionBlock i) = alive id (Unix now) (map_option Unix (?b i))" by (simp add: dedup_def)
  qed
  ultimately show ?thesis
    using assms f whole_blocks_step [of b now "OpBlockSessions ids e"] by (simp add: my_refines_def sane_users_def)
qed

lemma my_Cleanup_refines:
  assumes "my_refines now t b"
  shows "my_refines now (snd (my_Cleanup None now t)) b"
proof -
  let ?t = "filter (\<lambda>e. \<not> se_expires_at e < Unix now) t"
  have k: "keyed entry_key t" using assms by (simp add: my_refines_def)
  have a: "alive snd (Unix now) (my_row ?t kind i) = alive snd (Unix now) (my_row t kind i)" for kind i
    unfolding my_row_filter [OF k] by (auto simp: my_row_def alive_def split: option.split)
  have e: "alive id (Unix now) (map_option snd v) = map_option snd (alive snd (Unix now) v)" for v :: "(entry_data \<times> int) option"
    by (auto simp: alive_def split: option.split)
  have "keyed entry_key ?t" using k by (rule keyed_filter)
  with assms show ?thesis
    by (simp add: my_refines_def my_Cleanup_def agree_def a my_end_def e)
qed

lemma my_step_refines:
  assumes "my_refines T t b" "T \<le> now" "sane_clock now"
  shows "my_refines now (my_step now (\<lambda>_. None) op t) (spec_step now (whole_op op) b)"
proof -
  have r: "my_refines now t b" using assms(1,2) by (rule my_refines_later)
  have k: "keyed entry_key t" using r by (simp add: my_refines_def)
  show ?thesis
  proof (cases op)
    case (OpSaveOIDCState key d ttl)
    show ?thesis unfolding OpSaveOIDCState my_step.simps whole_op.simps spec_step.simps my_SaveOIDCState_def my_save_state_def
      by (rule my_refines_rows [OF r]) (auto simp: my_row_insert entry_key_def keyed_insert_entry [OF k])
  next
    case (OpSaveCLIAuth key c ttl)
    show ?thesis unfolding OpSaveCLIAuth my_step.simps whole_op.simps spec_step.simps my_SaveCLIAuth_def my_save_state_def
      by (rule my_refines_rows [OF r]) (auto simp: my_row_insert entry_key_def keyed_insert_entry [OF k])
  next
    case (OpConsumeOIDCState key)
    show ?thesis unfolding OpConsumeOIDCState my_step.simps whole_op.simps spec_step.simps my_ConsumeOIDCState_def
      by (rule my_refines_rows [OF r]; rule my_consume_rows [OF k]) auto
  next
    case (OpConsumeCLIAuth key)
    show ?thesis unfolding OpConsumeCLIAuth my_step.simps whole_op.simps spec_step.simps my_ConsumeCLIAuth_def
      by (rule my_refines_rows [OF r]; rule my_consume_rows [OF k]) auto
  next
    case (OpUpdateCLIAuth key c)
    show ?thesis unfolding OpUpdateCLIAuth my_step.simps whole_op.simps spec_step.simps
      by (rule my_refines_rows [OF r]; rule my_update_rows [OF k]) auto
  qed (use r assms(3) my_BlockToken_refines my_BlockUser_refines my_UnblockUser_refines my_BlockSessions_refines my_Cleanup_refines
    in \<open>simp_all\<close>)
qed

interpretation my_spec: store_refinement "\<lambda>now op. my_step now (\<lambda>_. None) op" whole_op my_refines
  by unfold_locales (auto intro: my_step_refines my_refines_later)

lemma has_live_end: "keyed entry_key t \<Longrightarrow> has_live sec k kind t \<longleftrightarrow> (\<exists>x. my_end t kind k = Some x \<and> sec < x)"
proof -
  assume k: "keyed entry_key t"
  have "e \<in> set t \<and> se_entry_key e = k \<and> se_kind e = kind \<longleftrightarrow> row_of entry_key (k, kind) t = Some e" for e
    using row_of_Some_iff [OF k, of "(k, kind)" e] by (auto simp: entry_key_def)
  then show ?thesis by (auto simp: has_live_def my_end_def my_row_def)
qed

lemma find_live:
  assumes "keyed entry_key t"
  shows "map_option (\<lambda>e. time_text (se_data e)) (find (live_entry now u kind) t) = map_option (time_text \<circ> fst) (alive snd (Unix now) (my_row t kind u))"
proof -
  have "find (live_entry now u kind) t = row_of entry_key (u, kind) (filter (\<lambda>e. Unix now < se_expires_at e) t)"
    unfolding row_of_def by (induction t) (auto simp: live_entry_def entry_key_def)
  also have "\<dots> = (case row_of entry_key (u, kind) t of None \<Rightarrow> None | Some r \<Rightarrow> if Unix now < se_expires_at r then Some r else None)"
    by (rule row_of_filter [OF assms])
  finally show ?thesis by (auto simp: my_row_def alive_def split: option.split)
qed

lemma my_answers:
  assumes "my_refines now t b"
  shows "my_IsTokenBlocked None now j t = Inr (token_blocked now j b)" "my_IsSessionBlocked None now i t = Inr (session_blocked now i b)"
    "my_IsUserBlocked None now u issued t = Inr (user_blocked now u issued b)"
proof -
  have k: "keyed entry_key t" and w: "whole_blocks b" and sane: "sane_users b" using assms by (simp_all add: my_refines_def)
  have ends: "(\<exists>x. my_end t kind k = Some x \<and> Unix now < x) \<longleftrightarrow> (\<exists>e. m k = Some e \<and> now < e)"
    if "agree id (Unix now) (my_end t kind) (\<lambda>j. map_option Unix (m j))" "\<And>e. m k = Some e \<Longrightarrow> whole e = e" for kind m k
  proof -
    have "(\<exists>x. my_end t kind k = Some x \<and> Unix now < x) \<longleftrightarrow> (\<exists>x. map_option Unix (m k) = Some x \<and> Unix now < x)"
      using agree_Some [OF that(1), of k "\<lambda>_. True"] by simp
    also have "\<dots> \<longleftrightarrow> (\<exists>e. m k = Some e \<and> Unix now < Unix e)" by auto
    finally show ?thesis using Unix_less_whole [OF that(2)] by auto
  qed
  have "(\<exists>x. my_end t kindTokenBlock j = Some x \<and> Unix now < x) \<longleftrightarrow> (\<exists>e. bk_token b j = Some e \<and> now < e)"
    by (rule ends) (use assms w in \<open>auto simp: my_refines_def whole_blocks_def\<close>)
  then show "my_IsTokenBlocked None now j t = Inr (token_blocked now j b)"
    by (simp add: blocked_has_live has_live_end [OF k] token_blocked_def)
  have "(\<exists>x. my_end t kindSessionBlock i = Some x \<and> Unix now < x) \<longleftrightarrow> (\<exists>e. bk_session b i = Some e \<and> now < e)"
    by (rule ends) (use assms w in \<open>auto simp: my_refines_def whole_blocks_def\<close>)
  then show "my_IsSessionBlocked None now i t = Inr (session_blocked now i b)"
    by (simp add: blocked_has_live has_live_end [OF k] session_blocked_def)
  have a: "alive snd (Unix now) (my_row t kindUserBlock u) = alive snd (Unix now) (map_option (my_block Unix) (bk_user b u))"
    "alive snd (Unix now) (my_row t kindUserBlockMs u) = alive snd (Unix now) (map_option (my_block UnixMilli) (bk_user b u))"
    using assms by (simp_all add: my_refines_def agree_def)
  show "my_IsUserBlocked None now u issued t = Inr (user_blocked now u issued b)"
  proof (cases "bk_user b u")
    case None
    show ?thesis unfolding my_IsUserBlocked_def Let_def find_live [OF k] a None by (simp add: alive_def user_blocked_def None)
  next
    case (Some v)
    obtain b0 e where v: "v = (b0, e)" by (cases v)
    have e: "Unix now < Unix e \<longleftrightarrow> now < e" using w Some v by (intro Unix_less_whole) (auto simp: whole_blocks_def)
    have c: "sane_clock b0" using sane Some v by (auto simp: sane_users_def)
    then have "0 < UnixMilli b0" by (simp add: sane_clock_def)
    with e block_time_exact [OF c] show ?thesis
      unfolding my_IsUserBlocked_def Let_def find_live [OF k] a Some v
      by (auto simp: alive_def my_block_def time_text_def user_blocked_def userBlockApplies_def Some v)
  qed
qed

section \<open>Properties\<close>

lemma first_clock:
  assumes "sorted (map fst calls)" "\<forall>(now, op)\<in>set calls. now \<le> tm \<and> sane_clock now"
  obtains T where "T \<le> tm" "\<forall>(now, op)\<in>set calls. T \<le> now \<and> now \<le> tm \<and> sane_clock now"
proof (cases calls)
  case Nil
  then show ?thesis using that [of tm] by simp
next
  case (Cons c cs)
  then show ?thesis using that [of "fst c"] assms by (cases c) fastforce
qed

lemma empty_refines: "mem_refines T NewMemoryStore no_blocks" "my_refines T [] no_blocks"
  by (simp_all add: mem_refines_def my_refines_def NewMemoryStore_def no_blocks_def agree_def alive_def sane_users_def whole_blocks_def
      keyed_def my_end_def my_row_def)

definition run_memory :: "(gtime \<times> store_op) list \<Rightarrow> mem_store" where
  "run_memory calls = fold (\<lambda>(now, op). mem_step now (\<lambda>_. None) op) calls NewMemoryStore"

definition run_mysql :: "(gtime \<times> store_op) list \<Rightarrow> session_entries" where
  "run_mysql calls = fold (\<lambda>(now, op). my_step now (\<lambda>_. None) op) calls []"

definition run_spec :: "(store_op \<Rightarrow> store_op) \<Rightarrow> (gtime \<times> store_op) list \<Rightarrow> blocks" where
  "run_spec trim calls = fold (\<lambda>(now, op). spec_step now (trim op)) calls no_blocks"

text \<open>C35. Both stores answer as the specification of blocks says, after any sequence of calls with clocks that do not run backwards:
  the memory store exactly, the MySQL store with the ends of blocks cut to whole seconds. So cleanups never show, a session
  block is never shortened, and a user block rejects exactly the tokens issued up to its millisecond, although the time of
  the block travels as text through two entries.\<close>

theorem stores_refine_blocks:
  assumes "sorted (map fst calls)" "\<forall>(now, op)\<in>set calls. now \<le> tm \<and> sane_clock now"
  shows "mem_IsTokenBlocked tm j (run_memory calls) = token_blocked tm j (run_spec id calls)
    \<and> mem_IsSessionBlocked tm i (run_memory calls) = session_blocked tm i (run_spec id calls)
    \<and> mem_IsUserBlocked tm u issued (run_memory calls) = user_blocked tm u issued (run_spec id calls)
    \<and> my_IsTokenBlocked None tm j (run_mysql calls) = Inr (token_blocked tm j (run_spec whole_op calls))
    \<and> my_IsSessionBlocked None tm i (run_mysql calls) = Inr (session_blocked tm i (run_spec whole_op calls))
    \<and> my_IsUserBlocked None tm u issued (run_mysql calls) = Inr (user_blocked tm u issued (run_spec whole_op calls))"
proof -
  obtain T where T: "T \<le> tm" "\<forall>(now, op)\<in>set calls. T \<le> now \<and> now \<le> tm \<and> sane_clock now"
    using first_clock [OF assms] by blast
  have "mem_refines tm (run_memory calls) (run_spec id calls)"
    unfolding run_memory_def run_spec_def using empty_refines(1) T(2) assms(1) T(1) by (rule mem_spec.run_refines)
  moreover have "my_refines tm (run_mysql calls) (run_spec whole_op calls)"
    unfolding run_mysql_def run_spec_def using empty_refines(2) T(2) assms(1) T(1) by (rule my_spec.run_refines)
  ultimately show ?thesis by (simp add: mem_answers my_answers)
qed

theorem stores_refine_blocks_witness:
  "my_IsUserBlocked None (65 * 10 ^ 18) ''ann'' (64 * 10 ^ 18)
     (run_mysql [(64 * 10 ^ 18 + 5 :: gtime, OpBlockUser ''ann'' (66 * 10 ^ 18)), (65 * 10 ^ 18, OpCleanup)]) = Inr True"
proof -
  let ?calls = "[(64 * 10 ^ 18 + 5 :: gtime, OpBlockUser ''ann'' (66 * 10 ^ 18)), (65 * 10 ^ 18, OpCleanup)]"
  have "sorted (map fst ?calls)" "\<forall>(now, op)\<in>set ?calls. now \<le> 65 * 10 ^ 18 \<and> sane_clock now"
    by (simp_all add: sane_clock_def UnixMilli_def Unix_def)
  from stores_refine_blocks [OF this, of _ _ "''ann''" "64 * 10 ^ 18"] show ?thesis
    by (simp add: run_spec_def no_blocks_def user_blocked_def whole_def UnixMilli_def)
qed

text \<open>One-time states: every consumer that gets the data removes it.\<close>

definition oidc_consumer :: "string \<Rightarrow> fault \<times> gtime \<Rightarrow> session_entries \<Rightarrow> bool \<times> session_entries" where
  "oidc_consumer state c t =
     (let r = my_ConsumeOIDCState (fst c) (snd c) state t in (case fst r of Inr (Some _) \<Rightarrow> True | _ \<Rightarrow> False, snd r))"

lemma oidc_consumer_wins:
  assumes "fst (oidc_consumer state c t)"
  obtains e where "e \<in> set t" "entry_key e = (state, kindOIDCState)"
    "snd (oidc_consumer state c t) = filter (\<lambda>r. entry_key r \<noteq> (state, kindOIDCState)) t"
proof (cases "find (live_entry (snd c) state kindOIDCState) t")
  case None
  with assms show thesis
    by (auto simp: oidc_consumer_def my_ConsumeOIDCState_def my_consume_def Let_def split: option.splits)
next
  case (Some e)
  then have e: "e \<in> set t" "entry_key e = (state, kindOIDCState)"
    by (auto simp: find_Some_iff live_entry_def entry_key_def)
  moreover have "snd (oidc_consumer state c t) = filter (\<lambda>r. entry_key r \<noteq> (state, kindOIDCState)) t"
    using assms Some e(2)
    by (auto simp: oidc_consumer_def my_ConsumeOIDCState_def my_consume_def Let_def split: option.splits)
  ultimately show thesis by (rule that)
qed

interpretation oidc: one_winner "oidc_consumer state" "\<lambda>t. row_of entry_key (state, kindOIDCState) t \<noteq> None" "keyed entry_key" for state
proof
  fix t c
  assume k: "keyed entry_key t"
  show "row_of entry_key (state, kindOIDCState) t \<noteq> None" if "fst (oidc_consumer state c t)"
    using that by (rule oidc_consumer_wins) (use row_of_Some_iff [OF k] in auto)
  show "\<not> row_of entry_key (state, kindOIDCState) (snd (oidc_consumer state c t)) \<noteq> None" if "fst (oidc_consumer state c t)"
    using that by (rule oidc_consumer_wins) (simp add: row_of_filter_gone)
  show "snd (oidc_consumer state c t) = t" if "\<not> fst (oidc_consumer state c t)"
    using that by (auto simp: oidc_consumer_def my_ConsumeOIDCState_def my_consume_def Let_def split: option.splits sum.splits)
  show "keyed entry_key (snd (oidc_consumer state c t))"
    using k by (auto simp: oidc_consumer_def my_ConsumeOIDCState_def my_consume_def Let_def intro: keyed_filter split: option.splits)
qed

text \<open>Of any number of callbacks with the same OIDC state, on whatever replicas, at most one gets the login data.\<close>

theorem oidc_state_used_once: "keyed entry_key t \<Longrightarrow> winners (oidc_consumer state) cs t \<le> 1"
  by (rule oidc.at_most_one)

theorem oidc_state_used_once_witness:
  "winners (oidc_consumer ''st'') [(None, 5), (None, 6)] (snd (my_SaveOIDCState None 0 ''st'' \<lparr>oi_code_verifier = ''v'', oi_redirect_url = ''/'',
     oi_loopback_url = []\<rparr> (10 * Minute) [])) \<le> 1"
  by (rule oidc_state_used_once) (simp add: my_SaveOIDCState_def my_save_state_def insert_entry_def keyed_def)

end
