(* ===== verification/Users.thy ===== *)
theory Users
  imports World
begin

text \<open>
  The users (\<open>models/user.go\<close>, \<open>database/user_repository.go\<close>), the retry of a transaction that a deadlock ended
  (\<open>database/lock_retry.go\<close>) and the accounts of SSO logins (\<open>provisionUser\<close> of \<open>api/handlers/oidc.go\<close>, \<open>MapRole\<close>
  of \<open>auth/oidc.go\<close>). Texts compare without case, as the collation of the database does. A change that an admin makes
  keeps an enabled admin; this is the invariant of the step relation \<open>user_step\<close>.
\<close>

section \<open>Rows\<close>

abbreviation RoleUser :: string where "RoleUser \<equiv> ''user''"
abbreviation RoleDevOps :: string where "RoleDevOps \<equiv> ''devops''"
abbreviation RoleAdmin :: string where "RoleAdmin \<equiv> ''admin''"

definition IsValidRole :: "string \<Rightarrow> bool" where
  "IsValidRole role \<longleftrightarrow> role \<in> {RoleUser, RoleDevOps, RoleAdmin}"

record user =
  us_id :: string
  us_username :: string
  us_password_hash :: string
  us_display_name :: string
  us_role :: string
  us_auth_provider :: string
  us_external_id :: "string option"
  us_email :: string
  us_disabled :: bool
  us_service_account :: bool
  us_created_at :: gtime
  us_updated_at :: gtime

text \<open>A follower is an instance with the user that follows it.\<close>

record accounts =
  ac_users :: "user list"
  ac_followers :: "child_row list"

datatype user_error = UserRepo repo_error | UserRaw db_cause | ErrLastAdmin | ErrCallerNotAdmin

text \<open>\<open>strings.EqualFold\<close> of ASCII texts, and the comparison of the collation.\<close>

definition EqualFold :: "string \<Rightarrow> string \<Rightarrow> bool" where
  "EqualFold a b \<longleftrightarrow> ToLower a = ToLower b"

definition user_key :: "user \<Rightarrow> string" where
  "user_key u = ToLower (us_id u)"

definition same_external :: "string \<Rightarrow> string \<Rightarrow> user \<Rightarrow> bool" where
  "same_external provider externalID u \<longleftrightarrow> EqualFold (us_auth_provider u) provider
     \<and> (case us_external_id u of None \<Rightarrow> False | Some x \<Rightarrow> EqualFold x externalID)"

text \<open>The unique indexes: the identifier, the name, the provider with the external identifier.\<close>

definition user_clash :: "user \<Rightarrow> user \<Rightarrow> bool" where
  "user_clash u v \<longleftrightarrow> user_key u = user_key v \<or> EqualFold (us_username u) (us_username v)
     \<or> (case us_external_id u of None \<Rightarrow> False | Some x \<Rightarrow> same_external (us_auth_provider u) x v)"

section \<open>Queries\<close>

definition user_FindByID :: "fault \<Rightarrow> string \<Rightarrow> accounts \<Rightarrow> user_error + user" where
  "user_FindByID flt i a =
     (case flt of
        Some c \<Rightarrow> Inl (UserRepo (DatabaseError ''find_by_id'' c))
      | None \<Rightarrow> (case row_of user_key (ToLower i) (ac_users a) of
                   None \<Rightarrow> Inl (UserRepo (DatabaseError ''find_by_id'' ErrNotFound))
                 | Some u \<Rightarrow> Inr u))"

definition user_FindByIDs :: "fault \<Rightarrow> string list \<Rightarrow> accounts \<Rightarrow> user_error + (string \<rightharpoonup> user)" where
  "user_FindByIDs flt ids a =
     (if ids = [] then Inr Map.empty
      else case flt of
        Some c \<Rightarrow> Inl (UserRepo (DatabaseError ''find_by_ids'' c))
      | None \<Rightarrow> Inr (fold (\<lambda>u m. m(us_id u \<mapsto> u)) (filter (\<lambda>u. list_ex (EqualFold (us_id u)) ids) (ac_users a)) Map.empty))"

definition user_FindByUsername :: "fault \<Rightarrow> string \<Rightarrow> accounts \<Rightarrow> user_error + user" where
  "user_FindByUsername flt name a =
     (case flt of
        Some c \<Rightarrow> Inl (UserRepo (DatabaseError ''find_by_username'' c))
      | None \<Rightarrow> (case find (\<lambda>u. EqualFold (us_username u) name) (ac_users a) of
                   None \<Rightarrow> Inl (UserRepo (DatabaseError ''find_by_username'' ErrNotFound))
                 | Some u \<Rightarrow> Inr u))"

definition user_FindByExternalID :: "fault \<Rightarrow> string \<Rightarrow> string \<Rightarrow> accounts \<Rightarrow> user_error + user" where
  "user_FindByExternalID flt provider externalID a =
     (case flt of
        Some c \<Rightarrow> Inl (UserRepo (DatabaseError ''find_by_external_id'' c))
      | None \<Rightarrow> (case find (same_external provider externalID) (ac_users a) of
                   None \<Rightarrow> Inl (UserRepo (DatabaseError ''find_by_external_id'' ErrNotFound))
                 | Some u \<Rightarrow> Inr u))"

definition user_Count :: "fault \<Rightarrow> accounts \<Rightarrow> user_error + nat" where
  "user_Count flt a = (case flt of Some c \<Rightarrow> Inl (UserRepo (DatabaseError ''count'' c)) | None \<Rightarrow> Inr (length (ac_users a)))"

definition user_List :: "fault \<Rightarrow> accounts \<Rightarrow> user_error + user list" where
  "user_List flt a = (case flt of Some c \<Rightarrow> Inl (UserRepo (DatabaseError ''list'' c)) | None \<Rightarrow> Inr (ac_users a))"

definition user_ListByRoles :: "fault \<Rightarrow> string list \<Rightarrow> accounts \<Rightarrow> user_error + user list" where
  "user_ListByRoles flt roles a =
     (if roles = [] then Inr []
      else case flt of
        Some c \<Rightarrow> Inl (UserRepo (DatabaseError ''list_by_roles'' c))
      | None \<Rightarrow> Inr (filter (\<lambda>u. us_role u \<in> set roles) (ac_users a)))"

section \<open>Single writes\<close>

text \<open>The column \<open>auth_provider\<close> has a default, which an empty provider gets.\<close>

definition user_Create :: "fault \<Rightarrow> gtime \<Rightarrow> string \<Rightarrow> user \<Rightarrow> accounts \<Rightarrow> (user_error + user) \<times> accounts" where
  "user_Create flt now uuid u a =
     (let u' = u\<lparr>us_id := (if us_id u = [] then uuid else us_id u), us_created_at := now, us_updated_at := now\<rparr>;
          row = u'\<lparr>us_auth_provider := (if us_auth_provider u' = [] then ''local'' else us_auth_provider u')\<rparr>
      in if us_username u = [] then (Inl (UserRepo (DatabaseError ''create'' ErrValidation)), a)
         else case flt of
           Some c \<Rightarrow> (Inl (UserRepo (DatabaseError ''create'' c)), a)
         | None \<Rightarrow>
             if list_ex (user_clash row) (ac_users a) then (Inl (UserRepo (DatabaseError ''create'' ErrDuplicateKey)), a)
             else (Inr u', a\<lparr>ac_users := ac_users a @ [row]\<rparr>))"

definition update_user :: "string \<Rightarrow> (user \<Rightarrow> user) \<Rightarrow> accounts \<Rightarrow> accounts" where
  "update_user i f a = a\<lparr>ac_users := sql_update (\<lambda>u. user_key u = ToLower i) f (ac_users a)\<rparr>"

definition delete_user :: "string \<Rightarrow> accounts \<Rightarrow> accounts" where
  "delete_user i a = a\<lparr>ac_users := filter (\<lambda>u. user_key u \<noteq> ToLower i) (ac_users a),
     ac_followers := filter (\<lambda>f. \<not> EqualFold (snd f) i) (ac_followers a)\<rparr>"

definition user_Delete :: "(string \<Rightarrow> fault) \<Rightarrow> string \<Rightarrow> accounts \<Rightarrow> (user_error + unit) \<times> accounts" where
  "user_Delete flt i a =
     (case flt ''delete'' of
        Some c \<Rightarrow> (Inl (UserRepo (DatabaseError ''delete'' c)), a)
      | None \<Rightarrow>
          if row_of user_key (ToLower i) (ac_users a) = None then (Inl (UserRepo (DatabaseError ''delete'' ErrNotFound)), a)
          else (case flt ''delete_followers'' of
                  Some c \<Rightarrow> (Inl (UserRepo (DatabaseError ''delete_followers'' c)), a)
                | None \<Rightarrow> (case flt ''commit'' of Some c \<Rightarrow> (Inl (UserRaw c), a) | None \<Rightarrow> (Inr (), delete_user i a))))"

definition user_UpdatePassword :: "fault \<Rightarrow> gtime \<Rightarrow> string \<Rightarrow> string \<Rightarrow> accounts \<Rightarrow> (user_error + unit) \<times> accounts" where
  "user_UpdatePassword flt now i passwordHash a =
     (let f = (\<lambda>u. u\<lparr>us_password_hash := passwordHash, us_updated_at := now\<rparr>)
      in case flt of
           Some c \<Rightarrow> (Inl (UserRepo (DatabaseError ''update_password'' c)), a)
         | None \<Rightarrow>
             if rows_changed (\<lambda>u. user_key u = ToLower i) f (ac_users a) = 0
             then (Inl (UserRepo (DatabaseError ''update_password'' ErrNotFound)), a)
             else (Inr (), update_user i f a))"

record user_profile_update =
  pu_email :: "string option"
  pu_display_name :: "string option"
  pu_role :: "string option"
  pu_link_provider :: "string option"
  pu_external_id :: "string option"

definition profile_columns :: "gtime \<Rightarrow> user_profile_update \<Rightarrow> user \<Rightarrow> user" where
  "profile_columns now upd u =
     (let u1 = u\<lparr>us_updated_at := now\<rparr>;
          u2 = (case pu_email upd of None \<Rightarrow> u1 | Some e \<Rightarrow> u1\<lparr>us_email := e\<rparr>);
          u3 = (case pu_display_name upd of None \<Rightarrow> u2 | Some n \<Rightarrow> u2\<lparr>us_display_name := n\<rparr>)
      in case pu_link_provider upd of
           None \<Rightarrow> u3
         | Some p \<Rightarrow> u3\<lparr>us_auth_provider := p, us_external_id := pu_external_id upd, us_password_hash := []\<rparr>)"

definition sso_user :: "user \<Rightarrow> bool" where
  "sso_user u \<longleftrightarrow> us_auth_provider u \<noteq> [] \<and> \<not> EqualFold (us_auth_provider u) ''local''"

definition profile_clash :: "string \<Rightarrow> user_profile_update \<Rightarrow> accounts \<Rightarrow> bool" where
  "profile_clash i upd a \<longleftrightarrow>
     (case (pu_link_provider upd, pu_external_id upd) of
        (Some p, Some x) \<Rightarrow> list_ex (\<lambda>v. user_key v \<noteq> ToLower i \<and> same_external p x v) (ac_users a)
      | _ \<Rightarrow> False)"

definition updateProfileTx :: "(string \<Rightarrow> fault) \<Rightarrow> gtime \<Rightarrow> string \<Rightarrow> user_profile_update \<Rightarrow> accounts \<Rightarrow> (user_error + unit) \<times> accounts" where
  "updateProfileTx flt now i upd a =
     (let err = (\<lambda>c. (Inl (UserRepo (DatabaseError ''update_profile'' c)), a));
          mine = (\<lambda>u. user_key u = ToLower i);
          a1 = update_user i (profile_columns now upd) a;
          a2 = (case pu_role upd of
                  None \<Rightarrow> a1
                | Some role \<Rightarrow> a1\<lparr>ac_users := sql_update (\<lambda>u. mine u \<and> sso_user u) (\<lambda>u. u\<lparr>us_role := role\<rparr>) (ac_users a1)\<rparr>)
      in case (if pu_role upd = None then None else flt ''lock'') of
           Some c \<Rightarrow> err c
         | None \<Rightarrow>
             if list_ex mine (ac_users a) \<and> profile_clash i upd a then err ErrDuplicateKey
             else case flt ''update'' of
               Some c \<Rightarrow> err c
             | None \<Rightarrow>
                 if rows_changed mine (profile_columns now upd) (ac_users a) = 0 then err ErrNotFound
                 else case (if pu_role upd = None then None else flt ''role'') of
                   Some c \<Rightarrow> err c
                 | None \<Rightarrow> (case flt ''commit'' of Some c \<Rightarrow> (Inl (UserRaw c), a) | None \<Rightarrow> (Inr (), a2)))"

section \<open>Retry after a deadlock\<close>

text \<open>\<open>rc_ended n\<close>: the context has ended after attempt \<open>n\<close>; \<open>rc_waits n\<close>: the pause after it was not cut short.\<close>

record retry_ctx =
  rc_ended :: "nat \<Rightarrow> bool"
  rc_waits :: "nat \<Rightarrow> bool"

abbreviation deadlockRetryAttempts :: nat where "deadlockRetryAttempts \<equiv> 3"

definition error_cause :: "user_error \<Rightarrow> db_cause option" where
  "error_cause e = (case e of UserRepo (DatabaseError _ c) \<Rightarrow> Some c | UserRaw c \<Rightarrow> Some c | _ \<Rightarrow> None)"

definition isDeadlockError :: "user_error \<Rightarrow> bool" where
  "isDeadlockError e \<longleftrightarrow> error_cause e = Some (ErrDriver ''1213'')"

abbreviation context_error :: db_cause where "context_error \<equiv> ErrDriver ''context canceled''"

definition withContextErr :: "string \<Rightarrow> user_error \<Rightarrow> user_error" where
  "withContextErr op e =
     (case e of
        UserRepo (DatabaseError op' c) \<Rightarrow> if c = context_error then e else UserRepo (DatabaseError op context_error)
      | _ \<Rightarrow> UserRepo (DatabaseError op context_error))"

fun retryOnDeadlock :: "retry_ctx \<Rightarrow> string \<Rightarrow> (nat \<Rightarrow> 's \<Rightarrow> (user_error + 'a) \<times> 's) \<Rightarrow> nat \<Rightarrow> nat \<Rightarrow> 's \<Rightarrow> (user_error + 'a) \<times> 's" where
  "retryOnDeadlock rc op tx n left s =
     (case tx n s of
        (Inr x, s') \<Rightarrow> (Inr x, s')
      | (Inl e, s') \<Rightarrow>
          if rc_ended rc n then (Inl (withContextErr op e), s')
          else if \<not> isDeadlockError e then (Inl e, s')
          else (case left of
                  0 \<Rightarrow> (Inl e, s')
                | Suc k \<Rightarrow> if rc_waits rc n then retryOnDeadlock rc op tx (Suc n) k s' else (Inl (withContextErr op e), s')))"

declare retryOnDeadlock.simps [simp del]

section \<open>Changes that an admin makes\<close>

record guard_target =
  gt_user :: user
  gt_other_enabled_admins :: nat

definition wouldRemoveLastAdmin :: "guard_target \<Rightarrow> bool" where
  "wouldRemoveLastAdmin g \<longleftrightarrow> us_role (gt_user g) = RoleAdmin \<and> \<not> us_disabled (gt_user g) \<and> gt_other_enabled_admins g = 0"

text \<open>A transaction: the faults of its statements by name, the work \<open>fn\<close> on the locked target.\<close>

definition guardedAdminTx ::
  "(string \<Rightarrow> fault) \<Rightarrow> string \<Rightarrow> string \<Rightarrow> string \<Rightarrow> (guard_target \<Rightarrow> accounts \<Rightarrow> (user_error + 'a) \<times> accounts) \<Rightarrow> accounts
    \<Rightarrow> (user_error + 'a) \<times> accounts" where
  "guardedAdminTx flt op callerID i fn a =
     (let err = (\<lambda>c. (Inl (UserRepo (DatabaseError op c)), a));
          admins = filter (\<lambda>u. us_role u = RoleAdmin) (ac_users a)
      in case flt ''lock'' of
           Some c \<Rightarrow> err c
         | None \<Rightarrow>
             if \<not> list_ex (\<lambda>u. EqualFold (us_id u) callerID \<and> \<not> us_disabled u) admins then (Inl ErrCallerNotAdmin, a)
             else case flt ''target'' of
               Some c \<Rightarrow> err c
             | None \<Rightarrow>
                 (case row_of user_key (ToLower i) (ac_users a) of
                    None \<Rightarrow> err ErrNotFound
                  | Some u \<Rightarrow>
                      let g = \<lparr>gt_user = u, gt_other_enabled_admins = length (filter (\<lambda>v. \<not> EqualFold (us_id v) (us_id u) \<and> \<not> us_disabled v) admins)\<rparr>
                      in case fn g a of
                           (Inl e, _) \<Rightarrow> (Inl e, a)
                         | (Inr x, a') \<Rightarrow> (case flt ''commit'' of Some c \<Rightarrow> (Inl (UserRaw c), a) | None \<Rightarrow> (Inr x, a'))))"

definition updateUserColumns :: "fault \<Rightarrow> string \<Rightarrow> gtime \<Rightarrow> string \<Rightarrow> (user \<Rightarrow> user) \<Rightarrow> accounts \<Rightarrow> (user_error + unit) \<times> accounts" where
  "updateUserColumns flt op now i f a =
     (case flt of
        Some c \<Rightarrow> (Inl (UserRepo (DatabaseError op c)), a)
      | None \<Rightarrow> (Inr (), update_user i (\<lambda>u. (f u)\<lparr>us_updated_at := now\<rparr>) a))"

definition update_role_tx :: "(string \<Rightarrow> fault) \<Rightarrow> gtime \<Rightarrow> string \<Rightarrow> guard_target \<Rightarrow> accounts \<Rightarrow> (user_error + string) \<times> accounts" where
  "update_role_tx flt now role g a =
     (if us_role (gt_user g) = role then (Inr (us_role (gt_user g)), a)
      else if role \<noteq> RoleAdmin \<and> wouldRemoveLastAdmin g then (Inl ErrLastAdmin, a)
      else (case updateUserColumns (flt ''update'') ''update_role'' now (us_id (gt_user g)) (\<lambda>u. u\<lparr>us_role := role\<rparr>) a of
              (Inl e, a') \<Rightarrow> (Inl e, a')
            | (Inr _, a') \<Rightarrow> (Inr (us_role (gt_user g)), a')))"

definition set_disabled_tx :: "(string \<Rightarrow> fault) \<Rightarrow> gtime \<Rightarrow> bool \<Rightarrow> guard_target \<Rightarrow> accounts \<Rightarrow> (user_error + unit) \<times> accounts" where
  "set_disabled_tx flt now disabled g a =
     (if disabled \<and> wouldRemoveLastAdmin g then (Inl ErrLastAdmin, a)
      else updateUserColumns (flt ''update'') ''set_disabled'' now (us_id (gt_user g)) (\<lambda>u. u\<lparr>us_disabled := disabled\<rparr>) a)"

definition delete_guarded_tx :: "(string \<Rightarrow> fault) \<Rightarrow> guard_target \<Rightarrow> accounts \<Rightarrow> (user_error + unit) \<times> accounts" where
  "delete_guarded_tx flt g a =
     (if wouldRemoveLastAdmin g then (Inl ErrLastAdmin, a)
      else user_Delete (flt(''commit'' := None)) (us_id (gt_user g)) a)"

text \<open>An attempt may run after other processes changed the tables (\<open>ua_env n\<close>).\<close>

record user_attempts =
  ua_retry :: retry_ctx
  ua_fault :: "nat \<Rightarrow> string \<Rightarrow> fault"
  ua_now :: "nat \<Rightarrow> gtime"
  ua_env :: "nat \<Rightarrow> accounts \<Rightarrow> accounts"

definition guardedAdminChange ::
  "user_attempts \<Rightarrow> string \<Rightarrow> string \<Rightarrow> string \<Rightarrow> (nat \<Rightarrow> guard_target \<Rightarrow> accounts \<Rightarrow> (user_error + 'a) \<times> accounts) \<Rightarrow> accounts
    \<Rightarrow> (user_error + 'a) \<times> accounts" where
  "guardedAdminChange ua op callerID i fn a =
     retryOnDeadlock (ua_retry ua) op (\<lambda>n b. guardedAdminTx (ua_fault ua n) op callerID i (fn n) (ua_env ua n b)) 1 (deadlockRetryAttempts - 1) a"

definition UpdateRole :: "user_attempts \<Rightarrow> string \<Rightarrow> string \<Rightarrow> string \<Rightarrow> accounts \<Rightarrow> (user_error + string) \<times> accounts" where
  "UpdateRole ua callerID i role = guardedAdminChange ua ''update_role'' callerID i (\<lambda>n. update_role_tx (ua_fault ua n) (ua_now ua n) role)"

definition SetDisabled :: "user_attempts \<Rightarrow> string \<Rightarrow> string \<Rightarrow> bool \<Rightarrow> accounts \<Rightarrow> (user_error + unit) \<times> accounts" where
  "SetDisabled ua callerID i disabled =
     guardedAdminChange ua ''set_disabled'' callerID i (\<lambda>n. set_disabled_tx (ua_fault ua n) (ua_now ua n) disabled)"

definition DeleteGuarded :: "user_attempts \<Rightarrow> string \<Rightarrow> string \<Rightarrow> accounts \<Rightarrow> (user_error + unit) \<times> accounts" where
  "DeleteGuarded ua callerID i = guardedAdminChange ua ''delete'' callerID i (\<lambda>n. delete_guarded_tx (ua_fault ua n))"

definition UpdateProfile :: "user_attempts \<Rightarrow> string \<Rightarrow> user_profile_update \<Rightarrow> accounts \<Rightarrow> (user_error + unit) \<times> accounts" where
  "UpdateProfile ua i upd a =
     retryOnDeadlock (ua_retry ua) ''update_profile''
       (\<lambda>n b. updateProfileTx (ua_fault ua n) (ua_now ua n) i upd (ua_env ua n b)) 1 (deadlockRetryAttempts - 1) a"


section \<open>Accounts of SSO logins\<close>

record oidc_user =
  ou_subject :: string
  ou_email :: string
  ou_name :: string
  ou_preferred_username :: string
  ou_roles :: "string list"

record oidc_config =
  oc_admin_roles :: "string list"
  oc_devops_roles :: "string list"
  oc_auto_provision :: bool

datatype login_error = ErrAuthFailed | ErrNoAccount | ErrAccountDisabled

definition MapRole :: "oidc_config \<Rightarrow> string list \<Rightarrow> string" where
  "MapRole cfg idpRoles =
     (if list_ex (\<lambda>r. list_ex (EqualFold r) (oc_admin_roles cfg)) idpRoles then ''admin''
      else if list_ex (\<lambda>r. list_ex (EqualFold r) (oc_devops_roles cfg)) idpRoles then ''devops'' else ''user'')"

definition deriveOIDCUsername :: "oidc_user \<Rightarrow> string" where
  "deriveOIDCUsername o' =
     (if ou_email o' \<noteq> [] then ou_email o' else if ou_preferred_username o' \<noteq> [] then ou_preferred_username o' else ou_subject o')"

record user_io =
  ui_now :: gtime
  ui_fault :: "string \<Rightarrow> fault"
  ui_env :: "string \<Rightarrow> accounts \<Rightarrow> accounts"
  ui_attempts :: user_attempts

definition changed_field :: "string \<Rightarrow> string \<Rightarrow> string option" where
  "changed_field new old = (if new \<noteq> [] \<and> old \<noteq> new then Some new else None)"

definition updateExistingOIDCUser :: "oidc_config \<Rightarrow> user_io \<Rightarrow> user \<Rightarrow> oidc_user \<Rightarrow> accounts \<Rightarrow> (login_error + user) \<times> accounts" where
  "updateExistingOIDCUser cfg io u o' a =
     (let email = changed_field (ou_email o') (us_email u);
          name = changed_field (ou_name o') (us_display_name u);
          role = MapRole cfg (ou_roles o');
          upd = \<lparr>pu_email = email, pu_display_name = name, pu_role = (if role \<noteq> us_role u then Some role else None),
                 pu_link_provider = None, pu_external_id = None\<rparr>;
          u' = u\<lparr>us_email := (case email of None \<Rightarrow> us_email u | Some e \<Rightarrow> e),
                 us_display_name := (case name of None \<Rightarrow> us_display_name u | Some n \<Rightarrow> n), us_role := role\<rparr>
      in if us_disabled u then (Inl ErrAccountDisabled, a)
         else if email = None \<and> name = None \<and> role = us_role u then (Inr u', a)
         else (case UpdateProfile (ui_attempts io) (us_id u) upd (ui_env io ''update'' a) of
                 (Inl _, a') \<Rightarrow> (Inl ErrAuthFailed, a')
               | (Inr _, a') \<Rightarrow> (Inr u', a')))"

definition linkLocalUserToOIDC :: "oidc_config \<Rightarrow> user_io \<Rightarrow> user \<Rightarrow> oidc_user \<Rightarrow> accounts \<Rightarrow> (login_error + user) \<times> accounts" where
  "linkLocalUserToOIDC cfg io u o' a =
     (let email = (if ou_email o' \<noteq> [] then Some (ou_email o') else None);
          name = (if ou_name o' \<noteq> [] then Some (ou_name o') else None);
          role = MapRole cfg (ou_roles o');
          upd = \<lparr>pu_email = email, pu_display_name = name, pu_role = Some role, pu_link_provider = Some ''oidc'',
                 pu_external_id = Some (ou_subject o')\<rparr>;
          u' = u\<lparr>us_auth_provider := ''oidc'', us_external_id := Some (ou_subject o'),
                 us_email := (case email of None \<Rightarrow> us_email u | Some e \<Rightarrow> e),
                 us_display_name := (case name of None \<Rightarrow> us_display_name u | Some n \<Rightarrow> n), us_role := role, us_password_hash := []\<rparr>
      in if us_disabled u then (Inl ErrAccountDisabled, a)
         else (case UpdateProfile (ui_attempts io) (us_id u) upd (ui_env io ''update'' a) of
                 (Inl _, a') \<Rightarrow> (Inl ErrAuthFailed, a')
               | (Inr _, a') \<Rightarrow> (Inr u', a')))"

definition isNotFoundError :: "user_error \<Rightarrow> bool" where
  "isNotFoundError e =
     (case error_cause e of Some ErrNotFound \<Rightarrow> True | Some (ErrDriver text) \<Rightarrow> Contains text ''not found'' | _ \<Rightarrow> False)"

definition isDuplicateError :: "user_error \<Rightarrow> bool" where
  "isDuplicateError e =
     (case error_cause e of
        Some ErrDuplicateKey \<Rightarrow> True
      | Some (ErrDriver text) \<Rightarrow> Contains text ''duplicate key'' \<or> Contains text ''Duplicate entry''
      | _ \<Rightarrow> False)"

definition new_oidc_user :: "oidc_config \<Rightarrow> string \<Rightarrow> oidc_user \<Rightarrow> user" where
  "new_oidc_user cfg uuid o' =
     \<lparr>us_id = uuid, us_username = deriveOIDCUsername o', us_password_hash = [], us_display_name = ou_name o',
      us_role = MapRole cfg (ou_roles o'), us_auth_provider = ''oidc'', us_external_id = Some (ou_subject o'), us_email = ou_email o',
      us_disabled = False, us_service_account = False, us_created_at = zero_time, us_updated_at = zero_time\<rparr>"

definition createOIDCUser :: "oidc_config \<Rightarrow> user_io \<Rightarrow> string \<Rightarrow> oidc_user \<Rightarrow> accounts \<Rightarrow> (login_error + user) \<times> accounts" where
  "createOIDCUser cfg io uuid o' a =
     (case user_Create (ui_fault io ''create'') (ui_now io) uuid (new_oidc_user cfg uuid o') (ui_env io ''create'' a) of
        (Inr u, a') \<Rightarrow> (Inr u, a')
      | (Inl e, a') \<Rightarrow>
          if isDuplicateError e then
            (let a'' = ui_env io ''find_again'' a'
             in case user_FindByExternalID (ui_fault io ''find_again'') ''oidc'' (ou_subject o') a'' of
                  Inr u \<Rightarrow> (Inr u, a'')
                | Inl _ \<Rightarrow> (Inl ErrAuthFailed, a''))
          else (Inl ErrAuthFailed, a'))"

definition provisionUser :: "oidc_config \<Rightarrow> user_io \<Rightarrow> string \<Rightarrow> oidc_user \<Rightarrow> accounts \<Rightarrow> (login_error + user) \<times> accounts" where
  "provisionUser cfg io uuid o' a =
     (let a1 = ui_env io ''find_external'' a
      in case user_FindByExternalID (ui_fault io ''find_external'') ''oidc'' (ou_subject o') a1 of
           Inr u \<Rightarrow> updateExistingOIDCUser cfg io u o' a1
         | Inl e \<Rightarrow>
             if \<not> isNotFoundError e then (Inl ErrAuthFailed, a1)
             else (let a2 = ui_env io ''find_username'' a1
                   in case user_FindByUsername (ui_fault io ''find_username'') (deriveOIDCUsername o') a2 of
                        Inr u \<Rightarrow> linkLocalUserToOIDC cfg io u o' a2
                      | Inl e \<Rightarrow>
                          if \<not> isNotFoundError e then (Inl ErrAuthFailed, a2)
                          else if \<not> oc_auto_provision cfg then (Inl ErrNoAccount, a2)
                          else createOIDCUser cfg io uuid o' a2))"

section \<open>An enabled admin remains\<close>

definition enabled_admin :: "user \<Rightarrow> bool" where
  "enabled_admin u \<longleftrightarrow> us_role u = RoleAdmin \<and> \<not> us_disabled u"

definition has_admin :: "accounts \<Rightarrow> bool" where
  "has_admin a \<longleftrightarrow> list_ex enabled_admin (ac_users a)"

text \<open>The writes of the users, but for the role that the identity provider dictates.\<close>

inductive user_step :: "accounts \<Rightarrow> accounts \<Rightarrow> bool" where
  created: "user_step a (snd (user_Create flt now uuid u a))"
| role_set: "user_step a (snd (guardedAdminTx flt op caller i (update_role_tx flt now role) a))"
| disabled_set: "user_step a (snd (guardedAdminTx flt op caller i (set_disabled_tx flt now disabled) a))"
| deleted: "user_step a (snd (guardedAdminTx flt op caller i (delete_guarded_tx flt) a))"
| password_set: "user_step a (snd (user_UpdatePassword f now i hash a))"
| profile_set: "pu_role upd = None \<Longrightarrow> user_step a (snd (updateProfileTx flt now i upd a))"

lemma EqualFold_key: "EqualFold (us_id u) (us_id v) \<longleftrightarrow> user_key u = user_key v"
  by (simp add: EqualFold_def user_key_def)

text \<open>What a guarded transaction leaves: the tables as they were, or the work on the locked target.\<close>

lemma guardedAdminTx_cases:
  obtains "snd (guardedAdminTx flt op caller i fn a) = a"
  | u x where "row_of user_key (ToLower i) (ac_users a) = Some u"
      "fn \<lparr>gt_user = u, gt_other_enabled_admins = length (filter (\<lambda>v. user_key v \<noteq> user_key u \<and> enabled_admin v) (ac_users a))\<rparr> a
        = (Inr x, snd (guardedAdminTx flt op caller i fn a))"
proof (cases "snd (guardedAdminTx flt op caller i fn a) = a")
  case False
  have f: "filter (\<lambda>v. \<not> EqualFold (us_id v) (us_id u) \<and> \<not> us_disabled v) (filter (\<lambda>u. us_role u = RoleAdmin) (ac_users a))
      = filter (\<lambda>v. user_key v \<noteq> user_key u \<and> enabled_admin v) (ac_users a)" for u
    by (auto simp: EqualFold_key enabled_admin_def intro: filter_cong)
  from False that(2) show thesis
    unfolding guardedAdminTx_def Let_def f
    by (auto split: option.splits if_splits prod.splits sum.splits)
qed (rule that(1))

lemma other_admin:
  assumes "keyed user_key t" "list_ex enabled_admin t" "row_of user_key k t = Some u"
    and "\<not> wouldRemoveLastAdmin \<lparr>gt_user = u, gt_other_enabled_admins = length (filter (\<lambda>v. user_key v \<noteq> user_key u \<and> enabled_admin v) t)\<rparr>"
  shows "\<exists>v\<in>set t. enabled_admin v \<and> user_key v \<noteq> user_key u"
proof (cases "enabled_admin u")
  case True
  with assms(4) show ?thesis by (auto simp: wouldRemoveLastAdmin_def enabled_admin_def filter_empty_conv)
next
  case False
  obtain v where v: "v \<in> set t" "enabled_admin v" using assms(2) by (auto simp: list_ex_iff)
  have "user_key v \<noteq> user_key u"
    using assms(1,3) v False row_of_Some_iff [OF assms(1)] by (metis option.inject row_of_SomeD)
  with v show ?thesis by blast
qed

lemma updated_keeps_admin:
  assumes "v \<in> set (ac_users a)" "enabled_admin v" "user_key v \<noteq> ToLower i \<or> enabled_admin (f v)"
  shows "has_admin (update_user i f a)"
proof -
  let ?v = "if user_key v = ToLower i then f v else v"
  have "?v \<in> set (ac_users (update_user i f a))" using assms(1) by (auto simp: update_user_def set_sql_update)
  moreover have "enabled_admin ?v" using assms(2,3) by auto
  ultimately show ?thesis unfolding has_admin_def list_ex_iff by blast
qed

lemma update_user_keyed: "(\<And>u. user_key (f u) = user_key u) \<Longrightarrow> keyed user_key (ac_users (update_user i f a)) = keyed user_key (ac_users a)"
  by (simp add: update_user_def keyed_sql_update)

lemma user_key_frame [simp]:
  "user_key (u\<lparr>us_role := r\<rparr>) = user_key u" "user_key (u\<lparr>us_disabled := d\<rparr>) = user_key u" "user_key (u\<lparr>us_updated_at := t\<rparr>) = user_key u"
  "user_key (u\<lparr>us_password_hash := h\<rparr>) = user_key u"
  by (simp_all add: user_key_def)

lemma profile_columns_frame:
  "us_role (profile_columns now upd u) = us_role u" "us_disabled (profile_columns now upd u) = us_disabled u"
  "us_id (profile_columns now upd u) = us_id u" "us_username (profile_columns now upd u) = us_username u"
  by (simp_all add: profile_columns_def Let_def split: option.split)

lemma admin_step:
  assumes "user_step a b" "keyed user_key (ac_users a)" "has_admin a"
  shows "keyed user_key (ac_users b) \<and> has_admin b"
  using assms
proof cases
  case (created flt now uuid u)
  then show ?thesis using assms(2,3)
    by (auto simp: user_Create_def Let_def has_admin_def keyed_snoc row_of_None_iff user_clash_def list_ex_iff user_key_def split: option.splits)
next
  case (role_set flt op caller i now role)
  show ?thesis
  proof (rule guardedAdminTx_cases [of flt op caller i "update_role_tx flt now role" a])
    assume "snd (guardedAdminTx flt op caller i (update_role_tx flt now role) a) = a"
    with role_set assms show ?thesis by simp
  next
    fix u x
    let ?g = "\<lparr>gt_user = u, gt_other_enabled_admins = length (filter (\<lambda>v. user_key v \<noteq> user_key u \<and> enabled_admin v) (ac_users a))\<rparr>"
    assume u: "row_of user_key (ToLower i) (ac_users a) = Some u"
      and w: "update_role_tx flt now role ?g a = (Inr x, snd (guardedAdminTx flt op caller i (update_role_tx flt now role) a))"
    let ?f = "\<lambda>u. u\<lparr>us_role := role, us_updated_at := now\<rparr>"
    from w role_set(1) consider "b = a"
      | "b = update_user (us_id u) ?f a" "role = RoleAdmin \<or> \<not> wouldRemoveLastAdmin ?g"
      by (auto simp: update_role_tx_def updateUserColumns_def split: if_splits option.splits)
    then show ?thesis
    proof cases
      case 2
      obtain v where v: "v \<in> set (ac_users a)" "enabled_admin v" "user_key v \<noteq> ToLower (us_id u) \<or> enabled_admin (?f v)"
        using 2(2) other_admin [OF assms(2) _ u] assms(3)
        by (fastforce simp: has_admin_def list_ex_iff enabled_admin_def user_key_def)
      then have "has_admin b" unfolding 2(1) by (rule updated_keeps_admin)
      moreover have "keyed user_key (ac_users b)" using assms(2) by (simp add: 2(1) update_user_keyed)
      ultimately show ?thesis by simp
    qed (use assms in simp)
  qed
next
  case (disabled_set flt op caller i now disabled)
  show ?thesis
  proof (rule guardedAdminTx_cases [of flt op caller i "set_disabled_tx flt now disabled" a])
    assume "snd (guardedAdminTx flt op caller i (set_disabled_tx flt now disabled) a) = a"
    with disabled_set assms show ?thesis by simp
  next
    fix u x
    let ?g = "\<lparr>gt_user = u, gt_other_enabled_admins = length (filter (\<lambda>v. user_key v \<noteq> user_key u \<and> enabled_admin v) (ac_users a))\<rparr>"
    assume u: "row_of user_key (ToLower i) (ac_users a) = Some u"
      and w: "set_disabled_tx flt now disabled ?g a = (Inr x, snd (guardedAdminTx flt op caller i (set_disabled_tx flt now disabled) a))"
    let ?f = "\<lambda>u. u\<lparr>us_disabled := disabled, us_updated_at := now\<rparr>"
    from w disabled_set(1) have b: "b = update_user (us_id u) ?f a" "\<not> disabled \<or> \<not> wouldRemoveLastAdmin ?g"
      by (auto simp: set_disabled_tx_def updateUserColumns_def split: if_splits option.splits)
    obtain v where v: "v \<in> set (ac_users a)" "enabled_admin v" "user_key v \<noteq> ToLower (us_id u) \<or> enabled_admin (?f v)"
      using b(2) other_admin [OF assms(2) _ u] assms(3)
      by (fastforce simp: has_admin_def list_ex_iff enabled_admin_def user_key_def)
    then have "has_admin b" unfolding b(1) by (rule updated_keeps_admin)
    moreover have "keyed user_key (ac_users b)" using assms(2) by (simp add: b(1) update_user_keyed)
    ultimately show ?thesis by simp
  qed
next
  case (deleted flt op caller i)
  show ?thesis
  proof (rule guardedAdminTx_cases [of flt op caller i "delete_guarded_tx flt" a])
    assume "snd (guardedAdminTx flt op caller i (delete_guarded_tx flt) a) = a"
    with deleted assms show ?thesis by simp
  next
    fix u x
    let ?g = "\<lparr>gt_user = u, gt_other_enabled_admins = length (filter (\<lambda>v. user_key v \<noteq> user_key u \<and> enabled_admin v) (ac_users a))\<rparr>"
    assume u: "row_of user_key (ToLower i) (ac_users a) = Some u"
      and w: "delete_guarded_tx flt ?g a = (Inr x, snd (guardedAdminTx flt op caller i (delete_guarded_tx flt) a))"
    from w deleted(1) have b: "b = delete_user (us_id u) a" "\<not> wouldRemoveLastAdmin ?g"
      by (auto simp: delete_guarded_tx_def user_Delete_def split: if_splits option.splits)
    from other_admin [OF assms(2) _ u b(2)] assms(3) obtain v where "v \<in> set (ac_users a)" "enabled_admin v" "user_key v \<noteq> user_key u"
      by (auto simp: has_admin_def)
    then have "has_admin b" by (auto simp: b(1) has_admin_def delete_user_def list_ex_iff user_key_def)
    moreover have "keyed user_key (ac_users b)" using assms(2) by (simp add: b(1) delete_user_def keyed_filter)
    ultimately show ?thesis by simp
  qed
next
  case (password_set f now i hash)
  then show ?thesis using assms(2,3)
    by (auto simp: user_UpdatePassword_def Let_def update_user_keyed has_admin_def list_ex_iff enabled_admin_def
        intro!: updated_keeps_admin [unfolded has_admin_def list_ex_iff enabled_admin_def] split: option.splits)
next
  case (profile_set upd flt now i)
  have k: "user_key (profile_columns now upd u) = user_key u" for u by (simp add: user_key_def profile_columns_frame)
  obtain v where v: "v \<in> set (ac_users a)" "enabled_admin v" using assms(3) by (auto simp: has_admin_def list_ex_iff)
  then have "has_admin (update_user i (profile_columns now upd) a)"
    by (intro updated_keeps_admin [of v]) (auto simp: enabled_admin_def profile_columns_frame)
  then show ?thesis using profile_set assms(2,3) by (simp add: updateProfileTx_def Let_def k update_user_keyed split: option.split)
qed

interpretation admins: invariant_system user_step "\<lambda>a. keyed user_key (ac_users a) \<and> has_admin a"
  by unfold_locales (use admin_step in blast)


text \<open>A retried transaction leaves what its attempts leave; every one of them may follow other writes.\<close>

lemma retry_steps:
  assumes "\<And>n b. step\<^sup>*\<^sup>* b (snd (tx n b))"
  shows "step\<^sup>*\<^sup>* a (snd (retryOnDeadlock rc op tx n left a))"
proof (induction left arbitrary: n a)
  case 0
  have "snd (retryOnDeadlock rc op tx n 0 a) = snd (tx n a)"
    by (simp add: retryOnDeadlock.simps [of rc op tx n 0 a] split: prod.split sum.split)
  with assms show ?case by metis
next
  case (Suc k)
  have "snd (retryOnDeadlock rc op tx n (Suc k) a) \<in> {snd (tx n a), snd (retryOnDeadlock rc op tx (Suc n) k (snd (tx n a)))}"
    by (subst retryOnDeadlock.simps) (simp split: prod.split sum.split)
  with assms Suc.IH show ?case by (metis insertE rtranclp_trans singletonD)
qed

definition obeys_users :: "user_attempts \<Rightarrow> bool" where
  "obeys_users ua \<longleftrightarrow> (\<forall>n b. user_step\<^sup>*\<^sup>* b (ua_env ua n b))"

section \<open>Properties\<close>

lemma guarded_steps:
  assumes "obeys_users ua" "\<And>n b. user_step b (snd (guardedAdminTx (ua_fault ua n) op caller i (fn n) b))"
  shows "user_step\<^sup>*\<^sup>* a (snd (guardedAdminChange ua op caller i fn a))"
  unfolding guardedAdminChange_def
proof (rule retry_steps)
  fix n b
  show "user_step\<^sup>*\<^sup>* b (snd (guardedAdminTx (ua_fault ua n) op caller i (fn n) (ua_env ua n b)))"
    using assms(1) assms(2) [of "ua_env ua n b" n] unfolding obeys_users_def by (meson rtranclp.rtrancl_into_rtrancl)
qed

text \<open>C36. Role changes, disables and deletes by admins never leave the system without an enabled admin, whatever other users of
  the tables do between their attempts, whatever fails and however often a deadlock makes them run again: the repository
  asks for the last enabled admin under the locks of its transaction.\<close>

theorem guarded_changes_keep_admin:
  assumes "keyed user_key (ac_users a)" "has_admin a" "user_step\<^sup>*\<^sup>* a b" "obeys_users ua"
  shows "has_admin (snd (UpdateRole ua caller i role b)) \<and> has_admin (snd (SetDisabled ua caller i disabled b))
    \<and> has_admin (snd (DeleteGuarded ua caller i b))"
proof -
  have b: "keyed user_key (ac_users b) \<and> has_admin b" using admins.keeps_star [OF assms(3)] assms(1,2) by blast
  have admin: "has_admin c" if "user_step\<^sup>*\<^sup>* b c" for c using admins.keeps_star [OF that] b by blast
  have "user_step\<^sup>*\<^sup>* b (snd (UpdateRole ua caller i role b))"
    unfolding UpdateRole_def by (rule guarded_steps [OF assms(4)]) (rule role_set)
  moreover have "user_step\<^sup>*\<^sup>* b (snd (SetDisabled ua caller i disabled b))"
    unfolding SetDisabled_def by (rule guarded_steps [OF assms(4)]) (rule disabled_set)
  moreover have "user_step\<^sup>*\<^sup>* b (snd (DeleteGuarded ua caller i b))"
    unfolding DeleteGuarded_def by (rule guarded_steps [OF assms(4)]) (rule deleted)
  ultimately show ?thesis using admin by blast
qed

definition example_user :: user where
  "example_user = \<lparr>us_id = ''u1'', us_username = ''ann@x.org'', us_password_hash = [], us_display_name = ''Ann'', us_role = RoleAdmin,
     us_auth_provider = ''oidc'', us_external_id = Some ''sub-1'', us_email = ''ann@x.org'', us_disabled = False, us_service_account = False,
     us_created_at = 1, us_updated_at = 1\<rparr>"

definition example_accounts :: accounts where
  "example_accounts = \<lparr>ac_users = [example_user], ac_followers = []\<rparr>"

definition calm_attempts :: user_attempts where
  "calm_attempts = \<lparr>ua_retry = \<lparr>rc_ended = (\<lambda>_. False), rc_waits = (\<lambda>_. True)\<rparr>, ua_fault = (\<lambda>_ _. None), ua_now = (\<lambda>_. 9), ua_env = (\<lambda>_ b. b)\<rparr>"

theorem guarded_changes_keep_admin_witness:
  "has_admin (snd (SetDisabled calm_attempts ''u1'' ''U1'' True example_accounts))"
proof -
  have "keyed user_key (ac_users example_accounts)" "has_admin example_accounts" "obeys_users calm_attempts"
    by (simp_all add: example_accounts_def keyed_def has_admin_def enabled_admin_def example_user_def obeys_users_def calm_attempts_def)
  then show ?thesis using guarded_changes_keep_admin [of example_accounts example_accounts calm_attempts "''u1''" "''U1''" _ True] by blast
qed

text \<open>A successful SSO login always answers with an account that is bound to the subject of the identity, up to case, and
  gives it the role of the identity, unless another login created the account in the same moment.\<close>

lemma found_external: "user_FindByExternalID flt p x a = Inr u \<Longrightarrow> same_external p x u \<and> u \<in> set (ac_users a)"
  by (auto simp: user_FindByExternalID_def find_Some_iff split: option.splits)

definition bound_to :: "oidc_user \<Rightarrow> user \<Rightarrow> bool" where
  "bound_to o' u \<longleftrightarrow> same_external ''oidc'' (ou_subject o') u"

lemma updateExisting_bound:
  assumes "updateExistingOIDCUser cfg io u o' a = (Inr v, b)" "bound_to o' u"
  shows "bound_to o' v \<and> us_role v = MapRole cfg (ou_roles o')"
  using assms by (auto simp: updateExistingOIDCUser_def Let_def bound_to_def same_external_def split: if_splits prod.splits sum.splits)

lemma link_bound:
  assumes "linkLocalUserToOIDC cfg io u o' a = (Inr v, b)"
  shows "bound_to o' v \<and> us_role v = MapRole cfg (ou_roles o')"
  using assms by (auto simp: linkLocalUserToOIDC_def Let_def bound_to_def same_external_def EqualFold_def split: if_splits prod.splits sum.splits)

lemma create_bound:
  assumes "createOIDCUser cfg io uuid o' a = (Inr v, b)"
  shows "bound_to o' v \<and> (us_role v = MapRole cfg (ou_roles o') \<or> v \<in> set (ac_users b))"
  using assms
  by (auto simp: createOIDCUser_def user_Create_def new_oidc_user_def Let_def bound_to_def same_external_def EqualFold_def
      split: if_splits prod.splits sum.splits option.splits dest!: found_external)

theorem sso_login_identity:
  assumes "provisionUser cfg io uuid o' a = (Inr u, b)"
  shows "bound_to o' u \<and> (us_role u = MapRole cfg (ou_roles o') \<or> u \<in> set (ac_users b))"
proof -
  let ?ext = "user_FindByExternalID (ui_fault io ''find_external'') ''oidc'' (ou_subject o') (ui_env io ''find_external'' a)"
  show ?thesis
  proof (cases ?ext)
    case (Inr v)
    then have "bound_to o' v" using found_external [OF Inr] by (simp add: bound_to_def)
    with Inr assms show ?thesis by (auto simp: provisionUser_def Let_def dest: updateExisting_bound)
  next
    case (Inl e)
    with assms show ?thesis
      by (auto simp: provisionUser_def Let_def split: if_splits sum.splits dest: link_bound create_bound)
  qed
qed

text \<open>The role that an SSO login brings is not guarded: a login of the last enabled admin whose identity lost the admin role
  leaves no enabled admin.\<close>

definition calm_users :: user_io where
  "calm_users = \<lparr>ui_now = 9, ui_fault = (\<lambda>_. None), ui_env = (\<lambda>_ a. a), ui_attempts = calm_attempts\<rparr>"

definition example_oidc :: oidc_config where
  "example_oidc = \<lparr>oc_admin_roles = [''boss''], oc_devops_roles = [], oc_auto_provision = False\<rparr>"

lemmas provisioning_simps = provisionUser_def updateExistingOIDCUser_def linkLocalUserToOIDC_def user_FindByExternalID_def
  user_FindByUsername_def UpdateProfile_def updateProfileTx_def retryOnDeadlock.simps update_user_def sql_update_def rows_changed_def
  profile_columns_def profile_clash_def sso_user_def same_external_def EqualFold_def user_key_def changed_field_def MapRole_def
  deriveOIDCUsername_def isNotFoundError_def error_cause_def ToLower_def

lemmas example_simps = example_user_def example_accounts_def calm_attempts_def calm_users_def example_oidc_def

theorem sso_login_removes_last_admin:
  "\<exists>u a. provisionUser example_oidc calm_users ''n'' \<lparr>ou_subject = ''sub-1'', ou_email = ''ann@x.org'', ou_name = ''Ann'', ou_preferred_username = [],
     ou_roles = []\<rparr> example_accounts = (Inr u, a) \<and> has_admin example_accounts \<and> \<not> has_admin a"
  by (simp add: provisioning_simps example_simps Let_def has_admin_def enabled_admin_def)

text \<open>The link of a local account by name does not ask whether the account is local: an identity with another subject and the
  same email takes over the account of an SSO user, with its identifier and so with all that belongs to it.\<close>

theorem sso_link_takes_over_account:
  "\<exists>u a. provisionUser example_oidc calm_users ''n'' \<lparr>ou_subject = ''sub-2'', ou_email = ''ann@x.org'', ou_name = ''Eve'', ou_preferred_username = [],
     ou_roles = []\<rparr> example_accounts = (Inr u, a)
     \<and> us_id u = us_id example_user \<and> us_external_id example_user = Some ''sub-1'' \<and> map us_external_id (ac_users a) = [Some ''sub-2'']"
  by (simp add: provisioning_simps example_simps Let_def)

end
