(* ===== verification/RefreshTokens.thy ===== *)
theory RefreshTokens
  imports Users "HOL-Library.Multiset"
begin

text \<open>
  The refresh tokens (\<open>models/refresh_token.go\<close>, \<open>database/refresh_token_repository.go\<close>) and the rotation of a session
  (\<open>createRefreshToken\<close> and the transaction of \<open>Refresh\<close> in \<open>api/handlers/auth.go\<close>). Tokens of one login form a family.
  The step relation \<open>token_step\<close> holds every write of the table; its invariant is that a family has at most one active
  token, one start and one end, and that a family without an active token stays so.
\<close>

section \<open>Rows\<close>

record refresh_token =
  rt_expires_at :: gtime
  rt_last_activity :: gtime
  rt_created_at :: gtime
  rt_session_started_at :: gtime
  rt_rotated_at :: "gtime option"
  rt_id :: string
  rt_user_id :: string
  rt_token_hash :: string
  rt_family_id :: string
  rt_user_agent :: string
  rt_ip_address :: string
  rt_revoked :: bool

type_synonym tokens = "refresh_token list"

definition SessionFamily :: "refresh_token \<Rightarrow> string" where
  "SessionFamily t = (if rt_family_id t \<noteq> [] then rt_family_id t else rt_id t)"

definition SessionStart :: "refresh_token \<Rightarrow> gtime" where
  "SessionStart t = (if rt_session_started_at t \<noteq> zero_time then rt_session_started_at t else rt_created_at t)"

abbreviation MaxRecentFamilies :: nat where "MaxRecentFamilies \<equiv> 1000"
abbreviation maxRevokeBatch :: nat where "maxRevokeBatch \<equiv> 1000"

section \<open>Statements\<close>

abbreviation revoke :: "refresh_token \<Rightarrow> refresh_token" where "revoke r \<equiv> r\<lparr>rt_revoked := True\<rparr>"

definition token_update :: "fault \<Rightarrow> (refresh_token \<Rightarrow> bool) \<Rightarrow> (refresh_token \<Rightarrow> refresh_token) \<Rightarrow> tokens \<Rightarrow> (db_cause + nat) \<times> tokens" where
  "token_update flt p f t = (case flt of Some c \<Rightarrow> (Inl c, t) | None \<Rightarrow> (Inr (rows_changed p f t), sql_update p f t))"

definition token_Create :: "fault \<Rightarrow> refresh_token \<Rightarrow> tokens \<Rightarrow> (db_cause + unit) \<times> tokens" where
  "token_Create flt r t =
     (case flt of
        Some c \<Rightarrow> (Inl c, t)
      | None \<Rightarrow> if list_ex (\<lambda>x. rt_id x = rt_id r \<or> rt_token_hash x = rt_token_hash r) t then (Inl ErrDuplicateKey, t) else (Inr (), t @ [r]))"

definition FindByTokenHash :: "fault \<Rightarrow> string \<Rightarrow> tokens \<Rightarrow> db_cause + refresh_token" where
  "FindByTokenHash flt hash t =
     (case flt of
        Some c \<Rightarrow> Inl c
      | None \<Rightarrow> (case row_of rt_token_hash hash t of None \<Rightarrow> Inl ErrNotFound | Some r \<Rightarrow> Inr r))"

definition RevokeByID :: "fault \<Rightarrow> string \<Rightarrow> tokens \<Rightarrow> (db_cause + nat) \<times> tokens" where
  "RevokeByID flt i = token_update flt (\<lambda>r. rt_id r = i) revoke"

definition MarkRotatedIfActive :: "fault \<Rightarrow> string \<Rightarrow> gtime \<Rightarrow> tokens \<Rightarrow> (db_cause + nat) \<times> tokens" where
  "MarkRotatedIfActive flt i rotatedAt = token_update flt (\<lambda>r. rt_id r = i \<and> \<not> rt_revoked r) (\<lambda>r. r\<lparr>rt_revoked := True, rt_rotated_at := Some rotatedAt\<rparr>)"

definition in_family :: "string \<Rightarrow> refresh_token \<Rightarrow> bool" where
  "in_family f r \<longleftrightarrow> rt_family_id r = f \<or> rt_id r = f"

definition RevokeFamily :: "fault \<Rightarrow> string \<Rightarrow> tokens \<Rightarrow> (db_cause + nat) \<times> tokens" where
  "RevokeFamily flt f = token_update flt (\<lambda>r. in_family f r \<and> \<not> rt_revoked r) revoke"

definition RevokeFamilyForUser :: "fault \<Rightarrow> string \<Rightarrow> string \<Rightarrow> tokens \<Rightarrow> (db_cause + nat) \<times> tokens" where
  "RevokeFamilyForUser flt f userID = token_update flt (\<lambda>r. in_family f r \<and> EqualFold (rt_user_id r) userID \<and> \<not> rt_revoked r) revoke"

definition active_at :: "gtime \<Rightarrow> refresh_token \<Rightarrow> bool" where
  "active_at now r \<longleftrightarrow> \<not> rt_revoked r \<and> now < rt_expires_at r"

text \<open>The families of the rows that expire after \<open>since\<close>, grouped, the family with the newest row first.\<close>

definition family_created :: "tokens \<Rightarrow> string \<Rightarrow> gtime" where
  "family_created t f = fold (\<lambda>r m. max m (rt_created_at r)) (filter (\<lambda>r. SessionFamily r = f) t) 0"

definition ListRecentFamiliesForUser :: "fault \<Rightarrow> string \<Rightarrow> gtime \<Rightarrow> tokens \<Rightarrow> db_cause + string list" where
  "ListRecentFamiliesForUser flt userID since t =
     (let rows = filter (\<lambda>r. EqualFold (rt_user_id r) userID \<and> since < rt_expires_at r) t
      in case flt of
           Some c \<Rightarrow> Inl c
         | None \<Rightarrow> Inr (take MaxRecentFamilies (sort_key (\<lambda>f. - family_created rows f) (remdups (map SessionFamily rows)))))"

definition CountActiveInFamily :: "fault \<Rightarrow> gtime \<Rightarrow> string \<Rightarrow> tokens \<Rightarrow> db_cause + nat" where
  "CountActiveInFamily flt now f t =
     (case flt of Some c \<Rightarrow> Inl c | None \<Rightarrow> Inr (length (filter (\<lambda>r. in_family f r \<and> active_at now r) t)))"

definition TouchFamily :: "fault \<Rightarrow> string \<Rightarrow> gtime \<Rightarrow> tokens \<Rightarrow> (db_cause + nat) \<times> tokens" where
  "TouchFamily flt f tm =
     token_update flt (\<lambda>r. rt_family_id r = f \<and> active_at tm r \<and> rt_last_activity r < tm) (\<lambda>r. r\<lparr>rt_last_activity := tm\<rparr>)"

definition RevokeAllForUser :: "fault \<Rightarrow> string \<Rightarrow> tokens \<Rightarrow> (db_cause + nat) \<times> tokens" where
  "RevokeAllForUser flt userID = token_update flt (\<lambda>r. EqualFold (rt_user_id r) userID \<and> \<not> rt_revoked r) revoke"

definition RevokeAllForUserExcept :: "fault \<Rightarrow> string \<Rightarrow> string \<Rightarrow> tokens \<Rightarrow> (db_cause + nat) \<times> tokens" where
  "RevokeAllForUserExcept flt userID excludeID = token_update flt (\<lambda>r. EqualFold (rt_user_id r) userID \<and> \<not> rt_revoked r \<and> rt_id r \<noteq> excludeID) revoke"

definition oldest_ids :: "gtime \<Rightarrow> string \<Rightarrow> int \<Rightarrow> string \<Rightarrow> tokens \<Rightarrow> string list" where
  "oldest_ids now userID keep excludeID t =
     map rt_id (take maxRevokeBatch (drop (nat (max keep 0))
       (rev (sort_key (\<lambda>r. (rt_created_at r, rt_id r)) (filter (\<lambda>r. EqualFold (rt_user_id r) userID \<and> active_at now r \<and> (excludeID = [] \<or> rt_id r \<noteq> excludeID)) t)))))"

text \<open>The read of the identifiers and the update are two statements; \<open>env\<close> is what runs between them.\<close>

definition RevokeOldestForUser ::
  "fault \<Rightarrow> fault \<Rightarrow> (tokens \<Rightarrow> tokens) \<Rightarrow> gtime \<Rightarrow> string \<Rightarrow> int \<Rightarrow> string \<Rightarrow> tokens \<Rightarrow> (db_cause + nat) \<times> tokens" where
  "RevokeOldestForUser flt flt' env now userID keep excludeID t =
     (let ids = oldest_ids now userID keep excludeID t
      in case flt of
           Some c \<Rightarrow> (Inl c, t)
         | None \<Rightarrow> if ids = [] then (Inr 0, t) else token_update flt' (\<lambda>r. rt_id r \<in> set ids \<and> \<not> rt_revoked r) revoke (env t))"

definition DeleteExpired :: "fault \<Rightarrow> gtime \<Rightarrow> tokens \<Rightarrow> (db_cause + nat) \<times> tokens" where
  "DeleteExpired flt before t =
     (case flt of
        Some c \<Rightarrow> (Inl c, t)
      | None \<Rightarrow> (Inr (length (filter (\<lambda>r. rt_expires_at r < before) t)), filter (\<lambda>r. \<not> rt_expires_at r < before) t))"

definition CountActiveForUser :: "fault \<Rightarrow> gtime \<Rightarrow> string \<Rightarrow> tokens \<Rightarrow> db_cause + nat" where
  "CountActiveForUser flt now userID t =
     (case flt of Some c \<Rightarrow> Inl c | None \<Rightarrow> Inr (length (filter (\<lambda>r. EqualFold (rt_user_id r) userID \<and> active_at now r) t)))"

section \<open>Issue and rotation\<close>

record auth_config =
  af_refresh_token_expiration :: duration
  af_session_max_lifetime :: duration
  af_session_idle_timeout :: duration
  af_refresh_reuse_grace :: duration
  af_access_token_expiration :: duration
  af_jwt_expiration :: duration
  af_max_refresh_tokens_per_user :: int

record refresh_session =
  rs_started_at :: gtime
  rs_last_activity :: gtime
  rs_family_id :: string
  rs_is_new :: bool

definition newRefreshSession :: "string \<Rightarrow> gtime \<Rightarrow> refresh_session" where
  "newRefreshSession uuid now = \<lparr>rs_started_at = now, rs_last_activity = zero_time, rs_family_id = uuid, rs_is_new = True\<rparr>"

definition continuedSession :: "refresh_token \<Rightarrow> refresh_session" where
  "continuedSession r = \<lparr>rs_started_at = SessionStart r, rs_last_activity = rt_last_activity r, rs_family_id = SessionFamily r, rs_is_new = False\<rparr>"

definition carryLatestActivity :: "fault \<Rightarrow> string \<Rightarrow> refresh_session \<Rightarrow> tokens \<Rightarrow> db_cause + refresh_session" where
  "carryLatestActivity flt tokenHash sess t =
     (case FindByTokenHash flt tokenHash t of
        Inl c \<Rightarrow> Inl c
      | Inr r \<Rightarrow> Inr (if rs_last_activity sess < rt_last_activity r then sess\<lparr>rs_last_activity := rt_last_activity r\<rparr> else sess))"

definition sessionDeadline :: "auth_config \<Rightarrow> gtime \<Rightarrow> gtime" where
  "sessionDeadline cfg start = (if af_session_max_lifetime cfg \<le> 0 then zero_time else start + af_session_max_lifetime cfg)"

text \<open>
  What a new token takes from outside: the faults of the statements, what other requests write before each of them, the clocks of the repository and of the handler, the random
  token with its hash (\<open>tx_hash\<close> is the SHA-256 of \<open>tx_raw\<close>), a fresh identifier, the user agent of the request (cut to 500 characters) and its address.
\<close>

record token_input =
  tx_fault :: "string \<Rightarrow> fault"
  tx_env :: "string \<Rightarrow> tokens \<Rightarrow> tokens"
  tx_repo_now :: gtime
  tx_now :: gtime
  tx_raw :: "string option"
  tx_hash :: string
  tx_uuid :: string
  tx_user_agent :: string
  tx_ip :: string

definition new_token :: "auth_config \<Rightarrow> token_input \<Rightarrow> string \<Rightarrow> refresh_session \<Rightarrow> refresh_token" where
  "new_token cfg inp userID sess =
     (let now = tx_now inp;
          i = (if rs_is_new sess \<and> rs_family_id sess \<noteq> [] then rs_family_id sess else tx_uuid inp);
          startedAt = (if rs_started_at sess = zero_time then now else rs_started_at sess);
          deadline = sessionDeadline cfg startedAt;
          expires = now + af_refresh_token_expiration cfg
      in \<lparr>rt_expires_at = (if deadline \<noteq> zero_time \<and> deadline < expires then deadline else expires),
          rt_last_activity = (if rs_last_activity sess = zero_time then now else rs_last_activity sess),
          rt_created_at = now, rt_session_started_at = startedAt, rt_rotated_at = None, rt_id = i, rt_user_id = userID,
          rt_token_hash = tx_hash inp, rt_family_id = (if rs_family_id sess = [] then i else rs_family_id sess),
          rt_user_agent = tx_user_agent inp, rt_ip_address = tx_ip inp, rt_revoked = False\<rparr>)"

definition cap_tokens :: "auth_config \<Rightarrow> token_input \<Rightarrow> string \<Rightarrow> string \<Rightarrow> tokens \<Rightarrow> (db_cause + unit) \<times> tokens" where
  "cap_tokens cfg inp userID excludeTokenID t =
     (if af_max_refresh_tokens_per_user cfg \<le> 0 then (Inr (), t)
      else (let t1 = tx_env inp ''count'' t
            in case CountActiveForUser (tx_fault inp ''count'') (tx_repo_now inp) userID t1 of
                 Inl c \<Rightarrow> (Inl c, t1)
               | Inr n \<Rightarrow>
                   if int n < af_max_refresh_tokens_per_user cfg then (Inr (), t1)
                   else (case RevokeOldestForUser (tx_fault inp ''oldest'') (tx_fault inp ''revoke'') (tx_env inp ''revoke'') (tx_repo_now inp) userID
                                (af_max_refresh_tokens_per_user cfg - 1) excludeTokenID (tx_env inp ''oldest'' t1) of
                           (Inl c, t') \<Rightarrow> (Inl c, t')
                         | (Inr _, t') \<Rightarrow> (Inr (), t'))))"

definition createRefreshToken ::
  "auth_config \<Rightarrow> token_input \<Rightarrow> string \<Rightarrow> refresh_session \<Rightarrow> string \<Rightarrow> tokens \<Rightarrow> (db_cause + string \<times> gtime) \<times> tokens" where
  "createRefreshToken cfg inp userID sess excludeTokenID t =
     (case cap_tokens cfg inp userID excludeTokenID t of
        (Inl c, t') \<Rightarrow> (Inl c, t')
      | (Inr _, t') \<Rightarrow>
          (case tx_raw inp of
             None \<Rightarrow> (Inl (ErrDriver ''rand''), t')
           | Some raw \<Rightarrow>
               let r = new_token cfg inp userID sess
               in case token_Create (tx_fault inp ''create'') r (tx_env inp ''create'' t') of
                    (Inl c, t'') \<Rightarrow> (Inl c, t'')
                  | (Inr _, t'') \<Rightarrow> (Inr (raw, rt_expires_at r), t'')))"

datatype rotate_error = RefreshTokenConsumed | RotateFailed db_cause

text \<open>The transaction of a refresh: consume the token, carry its activity, create the successor. Its statements run without others between.\<close>

abbreviation alone :: "token_input \<Rightarrow> token_input" where "alone inp \<equiv> inp\<lparr>tx_env := \<lambda>_ t. t\<rparr>"

definition rotate_token ::
  "auth_config \<Rightarrow> token_input \<Rightarrow> gtime \<Rightarrow> string \<Rightarrow> refresh_token \<Rightarrow> tokens \<Rightarrow> (rotate_error + string \<times> gtime) \<times> tokens" where
  "rotate_token cfg inp now userID stored t =
     (case MarkRotatedIfActive (tx_fault inp ''mark'') (rt_id stored) now t of
        (Inl c, _) \<Rightarrow> (Inl (RotateFailed c), t)
      | (Inr n, t1) \<Rightarrow>
          if n = 0 then (Inl RefreshTokenConsumed, t)
          else (case carryLatestActivity (tx_fault inp ''carry'') (rt_token_hash stored) (continuedSession stored) t1 of
                  Inl c \<Rightarrow> (Inl (RotateFailed c), t)
                | Inr sess \<Rightarrow>
                    (case createRefreshToken cfg (alone inp) userID sess (rt_id stored) t1 of
                       (Inl c, _) \<Rightarrow> (Inl (RotateFailed c), t)
                     | (Inr new, t2) \<Rightarrow>
                         (case tx_fault inp ''commit'' of Some c \<Rightarrow> (Inl (RotateFailed c), t) | None \<Rightarrow> (Inr new, t2)))))"


section \<open>Steps\<close>

text \<open>
  Every write of the table, with the identifiers drawn so far: a fresh one is never drawn twice. A revoke may select any
  rows. A rotation works on a copy that was read before: the columns that identify the row do not change.
\<close>

definition ident :: "refresh_token \<Rightarrow> string \<times> string \<times> string \<times> gtime \<times> string" where
  "ident r = (rt_id r, rt_token_hash r, SessionFamily r, SessionStart r, rt_user_id r)"

definition copy_of :: "refresh_token \<Rightarrow> tokens \<Rightarrow> bool" where
  "copy_of stored t \<longleftrightarrow> (case row_of rt_id (rt_id stored) t of None \<Rightarrow> True | Some r \<Rightarrow> ident r = ident stored)"

inductive token_step :: "auth_config \<Rightarrow> tokens \<times> string set \<Rightarrow> tokens \<times> string set \<Rightarrow> bool" for cfg where
  logged_in: "f \<notin> U \<Longrightarrow> f \<noteq> [] \<Longrightarrow> 0 < start \<Longrightarrow> 0 < tx_now inp \<Longrightarrow>
    token_step cfg (t, U) (snd (token_Create flt (new_token cfg inp userID (newRefreshSession f start)) t), insert f U)"
| revoked: "token_step cfg (t, U) (snd (token_update flt p revoke t), U)"
| touched: "token_step cfg (t, U) (snd (TouchFamily flt f tm t), U)"
| expired: "token_step cfg (t, U) (snd (DeleteExpired flt before t), U)"
| rotated: "copy_of stored t \<Longrightarrow> tx_uuid inp \<notin> U \<Longrightarrow> tx_uuid inp \<noteq> [] \<Longrightarrow> 0 < tx_now inp \<Longrightarrow> EqualFold userID (rt_user_id stored) \<Longrightarrow>
    token_step cfg (t, U) (snd (rotate_token cfg inp now userID stored t), insert (tx_uuid inp) U)"

section \<open>What a rotation does\<close>

lemma token_update_snd: "snd (token_update flt p f t) = (if flt = None then sql_update p f t else t)"
  by (simp add: token_update_def split: option.split)

lemma clash_iff: "list_ex (\<lambda>x. rt_id x = i \<or> rt_token_hash x = h) t \<longleftrightarrow> i \<in> set (map rt_id t) \<or> h \<in> set (map rt_token_hash t)"
  by (induction t) auto

lemma cap_alone:
  obtains p where "snd (cap_tokens cfg (alone inp) userID ex t) = sql_update p revoke t"
proof -
  have "\<exists>p. t = sql_update p revoke t" by (intro exI [of _ "\<lambda>_. False"]) (simp add: sql_update_def)
  then have "\<exists>p. snd (cap_tokens cfg (alone inp) userID ex t) = sql_update p revoke t"
    by (auto simp: cap_tokens_def RevokeOldestForUser_def CountActiveForUser_def Let_def token_update_def split: option.splits sum.splits if_splits)
  with that show thesis by blast
qed

lemma rotate_cases:
  assumes "rotate_token cfg inp now userID stored t = (res, t')"
  obtains e where "res = Inl e" "t' = t"
  | raw p sess where "rows_changed (\<lambda>r. rt_id r = rt_id stored \<and> \<not> rt_revoked r) (\<lambda>r. r\<lparr>rt_revoked := True, rt_rotated_at := Some now\<rparr>) t \<noteq> 0"
      "res = Inr (raw, rt_expires_at (new_token cfg inp userID sess))"
      "rs_started_at sess = SessionStart stored" "rs_family_id sess = SessionFamily stored" "\<not> rs_is_new sess"
      "rt_last_activity stored \<le> rs_last_activity sess"
      "t' = sql_update p revoke (sql_update (\<lambda>r. rt_id r = rt_id stored \<and> \<not> rt_revoked r) (\<lambda>r. r\<lparr>rt_revoked := True, rt_rotated_at := Some now\<rparr>) t)
        @ [new_token cfg inp userID sess]"
      "\<not> list_ex (\<lambda>x. rt_id x = rt_id (new_token cfg inp userID sess) \<or> rt_token_hash x = rt_token_hash (new_token cfg inp userID sess)) t"
proof (cases res)
  case (Inl e)
  with assms have "t' = t"
    by (auto simp: rotate_token_def MarkRotatedIfActive_def token_update_def split: option.splits if_splits sum.splits prod.splits)
  with Inl show thesis by (rule that(1))
next
  case (Inr new)
  let ?p = "\<lambda>r. rt_id r = rt_id stored \<and> \<not> rt_revoked r" and ?f = "\<lambda>r. r\<lparr>rt_revoked := True, rt_rotated_at := Some now\<rparr>"
  let ?t1 = "sql_update ?p ?f t"
  from assms Inr obtain sess where n: "rows_changed ?p ?f t \<noteq> 0"
    and c: "carryLatestActivity (tx_fault inp ''carry'') (rt_token_hash stored) (continuedSession stored) ?t1 = Inr sess"
    and k: "createRefreshToken cfg (alone inp) userID sess (rt_id stored) ?t1 = (Inr new, t')"
    by (auto simp: rotate_token_def MarkRotatedIfActive_def token_update_def split: option.splits if_splits sum.splits prod.splits)
  obtain p where p: "snd (cap_tokens cfg (alone inp) userID (rt_id stored) ?t1) = sql_update p revoke ?t1" using cap_alone by blast
  have nt: "new_token cfg (alone inp) userID sess = new_token cfg inp userID sess" by (simp add: new_token_def Let_def)
  let ?n = "new_token cfg inp userID sess"
  from k p obtain raw where new: "new = (raw, rt_expires_at ?n)" "t' = sql_update p revoke ?t1 @ [?n]"
    and ok: "\<not> list_ex (\<lambda>x. rt_id x = rt_id ?n \<or> rt_token_hash x = rt_token_hash ?n) (sql_update p revoke ?t1)"
    by (auto simp: createRefreshToken_def Let_def nt token_Create_def split: option.splits if_splits sum.splits prod.splits)
  have "\<not> list_ex (\<lambda>x. rt_id x = rt_id ?n \<or> rt_token_hash x = rt_token_hash ?n) t"
    using ok by (simp add: clash_iff)
  moreover have "rs_started_at sess = SessionStart stored" "rs_family_id sess = SessionFamily stored" "\<not> rs_is_new sess"
      "rt_last_activity stored \<le> rs_last_activity sess"
    using c by (auto simp: carryLatestActivity_def continuedSession_def split: sum.splits if_splits)
  ultimately show thesis using that(2) [OF n] Inr new by blast
qed

section \<open>The invariant of the table\<close>

definition same_family :: "refresh_token \<Rightarrow> refresh_token \<Rightarrow> bool" where
  "same_family r s \<longleftrightarrow> SessionFamily r = SessionFamily s"

text \<open>What two rows owe each other, and what a row owes by itself.\<close>

definition pair_ok :: "refresh_token \<Rightarrow> refresh_token \<Rightarrow> bool" where
  "pair_ok r s \<longleftrightarrow> (rt_id r = SessionFamily s \<longrightarrow> same_family r s)
     \<and> (same_family r s \<longrightarrow> SessionStart r = SessionStart s \<and> EqualFold (rt_user_id r) (rt_user_id s)
         \<and> (\<not> rt_revoked r \<longrightarrow> \<not> rt_revoked s \<longrightarrow> rt_id r = rt_id s))"

definition row_ok :: "auth_config \<Rightarrow> string set \<Rightarrow> refresh_token \<Rightarrow> bool" where
  "row_ok cfg U r \<longleftrightarrow> rt_id r \<in> U \<and> SessionFamily r \<in> U \<and> 0 < SessionStart r
     \<and> (0 < af_session_max_lifetime cfg \<longrightarrow> rt_expires_at r \<le> SessionStart r + af_session_max_lifetime cfg)"

definition tokens_ok :: "auth_config \<Rightarrow> tokens \<times> string set \<Rightarrow> bool" where
  "tokens_ok cfg = (\<lambda>(t, U). [] \<notin> U \<and> keyed rt_id t \<and> keyed rt_token_hash t \<and> (\<forall>r\<in>set t. row_ok cfg U r) \<and> (\<forall>r\<in>set t. \<forall>s\<in>set t. pair_ok r s))"

definition family_active :: "string \<Rightarrow> tokens \<Rightarrow> bool" where
  "family_active f t \<longleftrightarrow> list_ex (\<lambda>r. in_family f r \<and> \<not> rt_revoked r) t"

lemma EqualFold_refl [simp]: "EqualFold a a" and EqualFold_sym: "EqualFold a b \<Longrightarrow> EqualFold b a"
  and EqualFold_trans [trans]: "EqualFold a b \<Longrightarrow> EqualFold b c \<Longrightarrow> EqualFold a c"
  by (simp_all add: EqualFold_def)

text \<open>A change of rows that keeps who they are and activates none.\<close>

definition calm_change :: "(refresh_token \<Rightarrow> refresh_token) \<Rightarrow> bool" where
  "calm_change f \<longleftrightarrow> (\<forall>r. ident (f r) = ident r \<and> rt_family_id (f r) = rt_family_id r \<and> rt_expires_at (f r) = rt_expires_at r \<and> (rt_revoked r \<longrightarrow> rt_revoked (f r)))"

lemma calm_changes:
  "calm_change revoke" "calm_change (\<lambda>r. r\<lparr>rt_revoked := True, rt_rotated_at := Some now\<rparr>)" "calm_change (\<lambda>r. r\<lparr>rt_last_activity := tm\<rparr>)"
  "calm_change f \<Longrightarrow> calm_change (\<lambda>r. if p r then f r else r)"
  by (auto simp: calm_change_def ident_def SessionFamily_def SessionStart_def)

lemma calm_pair:
  assumes "calm_change f" "pair_ok r s"
  shows "pair_ok (f r) (f s)"
proof -
  have "ident (f r) = ident r" "ident (f s) = ident s" "rt_revoked r \<longrightarrow> rt_revoked (f r)" "rt_revoked s \<longrightarrow> rt_revoked (f s)"
    using assms(1) by (simp_all add: calm_change_def)
  with assms(2) show ?thesis by (auto simp: pair_ok_def same_family_def ident_def)
qed

lemma calm_row: "calm_change f \<Longrightarrow> row_ok cfg U r \<Longrightarrow> row_ok cfg U (f r)"
  by (auto simp: calm_change_def row_ok_def ident_def)

lemma calm_map_ok:
  assumes "calm_change f" "tokens_ok cfg (t, U)"
  shows "tokens_ok cfg (map f t, U)"
proof -
  have "map rt_id (map f t) = map rt_id t" "map rt_token_hash (map f t) = map rt_token_hash t"
    using assms(1) by (auto simp: calm_change_def ident_def)
  then have "keyed rt_id (map f t) = keyed rt_id t" "keyed rt_token_hash (map f t) = keyed rt_token_hash t" by (simp_all only: keyed_def)
  then show ?thesis using assms(2) calm_pair [OF assms(1)] calm_row [OF assms(1)] by (auto simp: tokens_ok_def)
qed

lemma calm_update_ok: "calm_change f \<Longrightarrow> tokens_ok cfg (t, U) \<Longrightarrow> tokens_ok cfg (sql_update p f t, U)"
  unfolding sql_update_def by (rule calm_map_ok) (rule calm_changes)

lemma calm_update_active: "calm_change f \<Longrightarrow> family_active g (sql_update p f t) \<Longrightarrow> family_active g t"
  by (auto simp: family_active_def list_ex_iff set_sql_update calm_change_def ident_def in_family_def split: if_splits)

lemma filter_ok: "tokens_ok cfg (t, U) \<Longrightarrow> tokens_ok cfg (filter q t, U)"
  by (auto simp: tokens_ok_def keyed_filter)

lemma filter_active: "family_active g (filter q t) \<Longrightarrow> family_active g t"
  by (auto simp: family_active_def list_ex_iff)

lemma snoc_ok:
  assumes "tokens_ok cfg (t, U)" "row_ok cfg (insert u U) n" "u \<noteq> []" "rt_id n \<notin> set (map rt_id t)" "rt_token_hash n \<notin> set (map rt_token_hash t)"
    and "pair_ok n n" "\<forall>r\<in>set t. pair_ok r n \<and> pair_ok n r"
  shows "tokens_ok cfg (t @ [n], insert u U)"
  using assms by (auto simp: tokens_ok_def keyed_snoc row_of_None_iff row_ok_def)

lemma ok_more_ids: "tokens_ok cfg (t, U) \<Longrightarrow> u \<noteq> [] \<Longrightarrow> tokens_ok cfg (t, insert u U)"
  by (auto simp: tokens_ok_def row_ok_def)

lemma new_token_row:
  "rt_id (new_token cfg inp userID sess) = (if rs_is_new sess \<and> rs_family_id sess \<noteq> [] then rs_family_id sess else tx_uuid inp)"
  "rs_family_id sess \<noteq> [] \<Longrightarrow> SessionFamily (new_token cfg inp userID sess) = rs_family_id sess"
  "0 < rs_started_at sess \<Longrightarrow> SessionStart (new_token cfg inp userID sess) = rs_started_at sess"
  "\<not> rt_revoked (new_token cfg inp userID sess)" "rt_user_id (new_token cfg inp userID sess) = userID"
  by (simp_all add: new_token_def SessionFamily_def SessionStart_def Let_def)

lemma new_token_expiry:
  "0 < rs_started_at sess \<Longrightarrow> 0 < af_session_max_lifetime cfg \<Longrightarrow>
     rt_expires_at (new_token cfg inp userID sess) \<le> rs_started_at sess + af_session_max_lifetime cfg"
  by (simp add: new_token_def sessionDeadline_def Let_def)

lemma copy_row:
  assumes "copy_of stored t" "rows_changed (\<lambda>r. rt_id r = rt_id stored \<and> \<not> rt_revoked r) f t \<noteq> 0" "keyed rt_id t"
  obtains r where "r \<in> set t" "ident r = ident stored" "\<not> rt_revoked r"
proof -
  from assms(2) obtain r where r: "r \<in> set t" "rt_id r = rt_id stored" "\<not> rt_revoked r"
    by (auto simp: rows_changed_def filter_empty_conv)
  then have "row_of rt_id (rt_id stored) t = Some r" using row_of_Some_iff [OF assms(3)] by blast
  with assms(1) have "ident r = ident stored" by (simp add: copy_of_def)
  with r that show thesis by blast
qed

lemma rotate_ok:
  assumes ok: "tokens_ok cfg (t, U)" and copy: "copy_of stored t" and u: "tx_uuid inp \<notin> U" "tx_uuid inp \<noteq> []"
    and user: "EqualFold userID (rt_user_id stored)"
  shows "tokens_ok cfg (snd (rotate_token cfg inp now userID stored t), insert (tx_uuid inp) U)"
proof -
  obtain res t' where r: "rotate_token cfg inp now userID stored t = (res, t')" by (cases "rotate_token cfg inp now userID stored t")
  from r show ?thesis
  proof (cases rule: rotate_cases)
    case 1
    with r ok_more_ids [OF ok u(2)] show ?thesis by simp
  next
    case (2 raw p sess)
    let ?p = "\<lambda>r. rt_id r = rt_id stored \<and> \<not> rt_revoked r" and ?f = "\<lambda>r. r\<lparr>rt_revoked := True, rt_rotated_at := Some now\<rparr>"
    let ?n = "new_token cfg inp userID sess" and ?t = "sql_update p revoke (sql_update ?p ?f t)"
    obtain r0 where r0: "r0 \<in> set t" "ident r0 = ident stored" "\<not> rt_revoked r0"
      using copy_row [OF copy 2(1)] ok by (auto simp: tokens_ok_def)
    have okt: "tokens_ok cfg (?t, U)" by (intro calm_update_ok calm_changes ok)
    have fam: "SessionFamily stored = SessionFamily r0" "SessionStart stored = SessionStart r0" "rt_user_id stored = rt_user_id r0" "rt_id stored = rt_id r0"
      using r0(2) by (simp_all add: ident_def)
    have row: "row_ok cfg U r0" and "[] \<notin> U" using ok r0(1) by (auto simp: tokens_ok_def)
    then have ne: "SessionFamily r0 \<noteq> []" "0 < SessionStart r0" by (auto simp: row_ok_def)
    have n: "rt_id ?n = tx_uuid inp" "SessionFamily ?n = SessionFamily r0" "SessionStart ?n = SessionStart r0" "EqualFold (rt_user_id ?n) (rt_user_id r0)"
      using 2(3-5) ne fam user by (simp_all add: new_token_row)
    have "row_ok cfg (insert (tx_uuid inp) U) ?n"
      using row n ne 2(3) fam new_token_expiry [of sess cfg inp userID] by (auto simp: row_ok_def)
    moreover have "pair_ok ?n ?n" by (simp add: pair_ok_def same_family_def)
    moreover have "\<forall>r\<in>set ?t. pair_ok r ?n \<and> pair_ok ?n r"
    proof
      fix r assume "r \<in> set ?t"
      then obtain s where s: "s \<in> set t" "ident r = ident s" "rt_revoked s \<or> rt_id s = rt_id stored \<longrightarrow> rt_revoked r"
        by (auto simp: set_sql_update ident_def SessionFamily_def SessionStart_def split: if_splits)
      have sr: "pair_ok s r0" "row_ok cfg U s" using ok r0(1) s(1) by (auto simp: tokens_ok_def)
      have r: "rt_id r = rt_id s" "SessionFamily r = SessionFamily s" "SessionStart r = SessionStart s" "rt_user_id r = rt_user_id s"
        using s(2) by (simp_all add: ident_def)
      have "rt_id ?n \<noteq> SessionFamily r" using sr(2) u(1) n(1) r(2) by (auto simp: row_ok_def)
      moreover have "rt_revoked r" if "same_family s r0"
        using that sr(1) s(3) r0(3) fam(4) by (auto simp: pair_ok_def)
      ultimately show "pair_ok r ?n \<and> pair_ok ?n r"
        using sr(1) n(2-4) r unfolding pair_ok_def same_family_def EqualFold_def by metis
    qed
    ultimately have "tokens_ok cfg (?t @ [?n], insert (tx_uuid inp) U)"
      using snoc_ok [OF okt _ u(2), of ?n] 2(8) by (simp add: clash_iff)
    with r 2(7) show ?thesis by simp
  qed
qed

lemma rotate_active:
  assumes "tokens_ok cfg (t, U)" "copy_of stored t" "family_active g (snd (rotate_token cfg inp now userID stored t))" "g \<noteq> tx_uuid inp"
  shows "family_active g t"
proof -
  obtain res t' where r: "rotate_token cfg inp now userID stored t = (res, t')" by (cases "rotate_token cfg inp now userID stored t")
  from r show ?thesis
  proof (cases rule: rotate_cases)
    case 1
    with r assms(3) show ?thesis by simp
  next
    case (2 raw p sess)
    obtain r0 where r0: "r0 \<in> set t" "ident r0 = ident stored" "\<not> rt_revoked r0"
      using copy_row [OF assms(2) 2(1)] assms(1) by (auto simp: tokens_ok_def)
    have "SessionFamily r0 \<noteq> []" using assms(1) r0(1) by (auto simp: tokens_ok_def row_ok_def)
    then have n: "rt_family_id (new_token cfg inp userID sess) = SessionFamily r0" "rt_id (new_token cfg inp userID sess) = tx_uuid inp"
      using 2(4,5) r0(2) by (simp_all add: new_token_def ident_def Let_def)
    have "family_active g (sql_update p revoke (sql_update (\<lambda>r. rt_id r = rt_id stored \<and> \<not> rt_revoked r) (\<lambda>r. r\<lparr>rt_revoked := True, rt_rotated_at := Some now\<rparr>) t)) \<or> g = SessionFamily r0"
      using assms(3,4) r 2(7) n by (auto simp: family_active_def in_family_def)
    then show ?thesis
    proof
      assume "g = SessionFamily r0"
      with r0 show ?thesis by (auto simp: family_active_def list_ex_iff in_family_def SessionFamily_def)
    qed (use calm_update_active calm_changes in blast)
  qed
qed

lemma login_ok:
  assumes "tokens_ok cfg (t, U)" "f \<notin> U" "f \<noteq> []" "0 < start"
  shows "tokens_ok cfg (snd (token_Create flt (new_token cfg inp userID (newRefreshSession f start)) t), insert f U)"
proof (cases "snd (token_Create flt (new_token cfg inp userID (newRefreshSession f start)) t) = t")
  case True
  with ok_more_ids [OF assms(1,3)] show ?thesis by simp
next
  case False
  let ?n = "new_token cfg inp userID (newRefreshSession f start)"
  have t: "snd (token_Create flt ?n t) = t @ [?n]" and new: "rt_id ?n \<notin> set (map rt_id t)" "rt_token_hash ?n \<notin> set (map rt_token_hash t)"
    using False by (auto simp: token_Create_def list_ex_iff split: option.splits if_splits)
  have n: "rt_id ?n = f" "SessionFamily ?n = f" "SessionStart ?n = start" "\<not> rt_revoked ?n"
    using assms(3,4) new_token_row [where sess = "newRefreshSession f start" and cfg = cfg and inp = inp and userID = userID] by (simp_all add: newRefreshSession_def)
  have "row_ok cfg (insert f U) ?n"
    using n assms(4) new_token_expiry [of "newRefreshSession f start" cfg inp userID] by (auto simp: row_ok_def newRefreshSession_def)
  moreover have "\<forall>r\<in>set t. pair_ok r ?n \<and> pair_ok ?n r"
  proof
    fix r assume "r \<in> set t"
    then have "rt_id r \<noteq> f" "SessionFamily r \<noteq> f" using assms(1,2) by (auto simp: tokens_ok_def row_ok_def)
    then show "pair_ok r ?n \<and> pair_ok ?n r" using n by (simp add: pair_ok_def same_family_def)
  qed
  moreover have "pair_ok ?n ?n" by (simp add: pair_ok_def same_family_def)
  ultimately show ?thesis unfolding t using snoc_ok [OF assms(1) _ assms(3) new] by blast
qed

lemma login_active:
  assumes "family_active g (snd (token_Create flt (new_token cfg inp userID (newRefreshSession f start)) t))" "f \<noteq> []" "g \<noteq> f"
  shows "family_active g t"
  using assms
  by (auto simp: token_Create_def family_active_def in_family_def new_token_def newRefreshSession_def Let_def split: option.splits if_splits)

lemma token_step_ok: "token_step cfg s s' \<Longrightarrow> tokens_ok cfg s \<Longrightarrow> tokens_ok cfg s'"
proof (induction rule: token_step.induct)
  case (touched t U flt f tm)
  then show ?case by (simp add: TouchFamily_def token_update_snd calm_update_ok calm_changes)
next
  case (expired t U flt before)
  then show ?case by (simp add: DeleteExpired_def filter_ok split: option.split)
qed (simp_all add: login_ok rotate_ok token_update_snd calm_update_ok calm_changes)

text \<open>A family that was drawn and has no active token.\<close>

definition dead_family :: "string \<Rightarrow> tokens \<times> string set \<Rightarrow> bool" where
  "dead_family f = (\<lambda>(t, U). f \<in> U \<and> \<not> family_active f t)"

lemma token_step_dead: "token_step cfg s s' \<Longrightarrow> tokens_ok cfg s \<Longrightarrow> dead_family g s \<Longrightarrow> dead_family g s'"
proof (induction rule: token_step.induct)
  case (logged_in f U start inp t flt userID)
  then show ?case using login_active [of g flt cfg inp userID f start t] by (auto simp: dead_family_def)
next
  case (revoked t U flt p)
  then show ?case using calm_update_active [OF calm_changes(1)] by (auto simp: dead_family_def token_update_snd)
next
  case (touched t U flt f tm)
  then show ?case using calm_update_active [OF calm_changes(3)] by (auto simp: dead_family_def TouchFamily_def token_update_snd)
next
  case (expired t U flt before)
  have "family_active g t" if "family_active g (snd (DeleteExpired flt before t))"
    using that filter_active [of g _ t] by (simp add: DeleteExpired_def split: option.splits)
  with expired.prems(2) show ?case unfolding dead_family_def by blast
next
  case (rotated stored t inp U userID now)
  then have "\<not> family_active g t" "g \<in> U" by (simp_all add: dead_family_def)
  moreover from this rotated.hyps(2) have "g \<noteq> tx_uuid inp" by auto
  ultimately show ?case using rotate_active [OF rotated.prems(1) rotated.hyps(1)] unfolding dead_family_def by blast
qed

interpretation tokens: invariant_system "token_step cfg" "tokens_ok cfg" for cfg
  by unfold_locales (rule token_step_ok)

interpretation dead: invariant_system "token_step cfg" "\<lambda>s. tokens_ok cfg s \<and> dead_family f s" for cfg f
  by unfold_locales (use token_step_ok token_step_dead in blast)

section \<open>The identity of a row\<close>

lemma calm_ident: "calm_change f \<Longrightarrow> s \<in> set (sql_update p f t) \<Longrightarrow> \<exists>r\<in>set t. ident r = ident s"
  by (auto simp: set_sql_update calm_change_def)

lemma step_rows:
  assumes "token_step cfg (t, U) (t', U')" "s \<in> set t'" "tokens_ok cfg (t, U)"
  shows "(\<exists>r\<in>set t. ident r = ident s)
    \<or> rt_id s \<notin> U \<and> (SessionFamily s \<notin> U \<or> (\<exists>r\<in>set t. SessionFamily r = SessionFamily s \<and> SessionStart r = SessionStart s
        \<and> EqualFold (rt_user_id s) (rt_user_id r)))"
  using assms
proof (cases rule: token_step.cases)
  case (logged_in f start inp flt userID)
  then show ?thesis using assms(2) new_token_row(1,2) [where sess = "newRefreshSession f start" and cfg = cfg and inp = inp and userID = userID]
    by (auto simp: token_Create_def newRefreshSession_def split: option.splits if_splits)
next
  case (revoked flt p)
  then show ?thesis using assms(2) calm_ident [OF calm_changes(1), of s p t] by (auto simp: token_update_snd split: if_splits)
next
  case (touched flt f tm)
  then show ?thesis using assms(2) calm_ident [OF calm_changes(3), of s _ tm t] by (auto simp: TouchFamily_def token_update_snd split: if_splits)
next
  case (expired flt before)
  then show ?thesis using assms(2) by (auto simp: DeleteExpired_def split: option.splits)
next
  case (rotated stored inp userID now)
  obtain res u where r: "rotate_token cfg inp now userID stored t = (res, u)" by (cases "rotate_token cfg inp now userID stored t")
  from r show ?thesis
  proof (cases rule: rotate_cases)
    case 1
    with r rotated(1) assms(2) show ?thesis by auto
  next
    case (2 raw p sess)
    let ?t1 = "sql_update (\<lambda>r. rt_id r = rt_id stored \<and> \<not> rt_revoked r) (\<lambda>r. r\<lparr>rt_revoked := True, rt_rotated_at := Some now\<rparr>) t"
    have "s \<in> set (sql_update p revoke ?t1) \<or> s = new_token cfg inp userID sess" using r rotated(1) 2(7) assms(2) by auto
    then show ?thesis
    proof
      assume "s \<in> set (sql_update p revoke ?t1)"
      then obtain x where "x \<in> set ?t1" "ident x = ident s" using calm_ident [OF calm_changes(1)] by blast
      then show ?thesis using calm_ident [OF calm_changes(2), of x] by metis
    next
      assume new: "s = new_token cfg inp userID sess"
      obtain r0 where r0: "r0 \<in> set t" "ident r0 = ident stored" "\<not> rt_revoked r0"
        using copy_row [OF rotated(3) 2(1)] assms(3) by (auto simp: tokens_ok_def)
      have "SessionFamily r0 \<noteq> []" "0 < SessionStart r0" using assms(3) r0(1) by (auto simp: tokens_ok_def row_ok_def)
      then have "SessionFamily r0 = SessionFamily s" "SessionStart r0 = SessionStart s"
        using 2(3,4) r0(2) new by (simp_all add: new_token_row ident_def)
      moreover have "EqualFold (rt_user_id s) (rt_user_id r0)" using rotated(7) r0(2) new by (simp add: new_token_row ident_def)
      moreover have "rt_id s \<notin> U" using 2(5) rotated(4) new by (simp add: new_token_row)
      ultimately show ?thesis using r0(1) by blast
    qed
  qed
qed

text \<open>A copy that was read stays a copy, whatever the others write.\<close>

lemma copy_stays_step:
  assumes "token_step cfg s s'" "tokens_ok cfg s" "rt_id stored \<in> snd s" "copy_of stored (fst s)"
  shows "rt_id stored \<in> snd s' \<and> copy_of stored (fst s')"
proof -
  obtain t U t' U' where s: "s = (t, U)" "s' = (t', U')" by (cases s; cases s')
  have U: "U \<subseteq> U'" using assms(1) s by (auto elim: token_step.cases)
  have k: "keyed rt_id t" using assms(2) s by (simp add: tokens_ok_def)
  have "ident x = ident stored" if x: "row_of rt_id (rt_id stored) t' = Some x" for x
  proof -
    have "x \<in> set t'" "rt_id x = rt_id stored" using row_of_SomeD [OF x] by simp_all
    with step_rows [of cfg t U t' U' x] assms(1-3) s obtain r where r: "r \<in> set t" "ident r = ident x" by auto
    then have "row_of rt_id (rt_id stored) t = Some r"
      using row_of_Some_iff [OF k] \<open>rt_id x = rt_id stored\<close> by (simp add: ident_def)
    with assms(4) s r(2) show ?thesis by (simp add: copy_of_def)
  qed
  with U assms(3) s show ?thesis by (auto simp: copy_of_def split: option.split)
qed

lemma copy_stays:
  assumes "(token_step cfg)\<^sup>*\<^sup>* s s'" "tokens_ok cfg s" "rt_id stored \<in> snd s" "copy_of stored (fst s)"
  shows "rt_id stored \<in> snd s' \<and> copy_of stored (fst s')"
  using assms
proof (induction rule: rtranclp_induct)
  case (step s' s'')
  then show ?case using copy_stays_step tokens.keeps_star by blast
qed simp

lemma found_copy:
  assumes "tokens_ok cfg (t, U)" "FindByTokenHash flt hash t = Inr r"
  shows "r \<in> set t" "rt_token_hash r = hash" "copy_of r t" "rt_id r \<in> U"
proof -
  have "row_of rt_token_hash hash t = Some r" using assms(2) by (auto simp: FindByTokenHash_def split: option.splits)
  from row_of_SomeD [OF this] show r: "r \<in> set t" "rt_token_hash r = hash" by simp_all
  have "row_of rt_id (rt_id r) t = Some r" using row_of_Some_iff [of rt_id t] assms(1) r(1) by (simp add: tokens_ok_def)
  then show "copy_of r t" by (simp add: copy_of_def)
  show "rt_id r \<in> U" using assms(1) r(1) by (auto simp: tokens_ok_def row_ok_def)
qed

section \<open>Properties\<close>

lemma start_stays:
  assumes "(token_step cfg)\<^sup>*\<^sup>* s s'" "tokens_ok cfg s" "f \<in> snd s" "\<forall>r\<in>set (fst s). SessionFamily r = f \<longrightarrow> SessionStart r = k"
  shows "f \<in> snd s' \<and> (\<forall>r\<in>set (fst s'). SessionFamily r = f \<longrightarrow> SessionStart r = k)"
  using assms
proof (induction rule: rtranclp_induct)
  case (step s' s'')
  obtain t U t' U' where s: "s' = (t, U)" "s'' = (t', U')" by (cases s'; cases s'')
  have ok: "tokens_ok cfg (t, U)" using tokens.keeps_star [OF step.hyps(1) step.prems(1)] s by simp
  have IH: "f \<in> U" "\<forall>r\<in>set t. SessionFamily r = f \<longrightarrow> SessionStart r = k" using step s by auto
  have U: "U \<subseteq> U'" using step.hyps(2) s by (auto elim: token_step.cases)
  have "SessionStart x = k" if "x \<in> set t'" "SessionFamily x = f" for x
    using step_rows [OF step.hyps(2) [unfolded s] that(1) ok] IH that(2) by (auto simp: ident_def) (metis Pair_inject)?
  with U IH(1) s show ?case by auto
qed simp

text \<open>The rows of a family belong to its user, whatever happens to the row that showed it.\<close>

definition family_of :: "string \<Rightarrow> string \<Rightarrow> tokens \<times> string set \<Rightarrow> bool" where
  "family_of f userID = (\<lambda>(t, U). f \<in> U \<and> (\<forall>x\<in>set t. in_family f x \<longrightarrow> SessionFamily x = f \<and> EqualFold (rt_user_id x) userID))"

lemma family_member: "SessionFamily x = f \<Longrightarrow> in_family f x"
  by (auto simp: SessionFamily_def in_family_def split: if_splits)

lemma family_of_step:
  assumes "token_step cfg s s'" "tokens_ok cfg s" "family_of f userID s"
  shows "family_of f userID s'"
proof -
  obtain t U t' U' where s: "s = (t, U)" "s' = (t', U')" by (cases s; cases s')
  have U: "U \<subseteq> U'" using assms(1) s by (auto elim: token_step.cases)
  have f: "f \<in> U" "f \<noteq> []" and inv: "\<And>x. x \<in> set t \<Longrightarrow> in_family f x \<Longrightarrow> SessionFamily x = f \<and> EqualFold (rt_user_id x) userID"
    using assms(2,3) s by (auto simp: family_of_def tokens_ok_def)
  have "SessionFamily x = f \<and> EqualFold (rt_user_id x) userID" if x: "x \<in> set t'" "in_family f x" for x
  proof -
    consider r where "r \<in> set t" "ident r = ident x"
      | "rt_id x \<notin> U" "SessionFamily x \<notin> U"
      | r where "rt_id x \<notin> U" "r \<in> set t" "SessionFamily r = SessionFamily x" "EqualFold (rt_user_id x) (rt_user_id r)"
      using step_rows [OF assms(1) [unfolded s] x(1)] assms(2) s by auto
    then show ?thesis
    proof cases
      case 1
      have "rt_id x = f \<or> SessionFamily x = f" using x(2) f(2) by (auto simp: in_family_def SessionFamily_def)
      then have "in_family f r" using 1(2) family_member [of r f] by (auto simp: ident_def in_family_def)
      from inv [OF 1(1) this] 1(2) show ?thesis by (simp add: ident_def)
    next
      case 2
      then show ?thesis using x(2) f by (auto simp: in_family_def SessionFamily_def)
    next
      case 3
      then have "SessionFamily x = f" using x(2) f by (auto simp: in_family_def SessionFamily_def)
      with 3 inv [OF 3(2)] family_member [of r f] show ?thesis using EqualFold_trans by metis
    qed
  qed
  with U f s show ?thesis by (auto simp: family_of_def)
qed

interpretation family: invariant_system "token_step cfg" "\<lambda>s. tokens_ok cfg s \<and> family_of f userID s" for cfg f userID
  by unfold_locales (use token_step_ok family_of_step in blast)

lemma found_family:
  assumes "tokens_ok cfg (t, U)" "r \<in> set t"
  shows "family_of (SessionFamily r) (rt_user_id r) (t, U)"
proof -
  have ne: "SessionFamily r \<noteq> []" using assms by (auto simp: tokens_ok_def row_ok_def)
  have "SessionFamily x = SessionFamily r \<and> EqualFold (rt_user_id x) (rt_user_id r)" if "x \<in> set t" "in_family (SessionFamily r) x" for x
  proof -
    have p: "pair_ok x r" using assms that(1) by (simp add: tokens_ok_def)
    have "rt_id x = SessionFamily r \<or> SessionFamily x = SessionFamily r"
      using that(2) ne unfolding in_family_def SessionFamily_def [of x] by argo
    with p have "same_family x r" by (auto simp: pair_ok_def same_family_def)
    with p show ?thesis by (simp add: pair_ok_def same_family_def)
  qed
  moreover have "row_ok cfg U r" using assms by (simp add: tokens_ok_def)
  ultimately show ?thesis by (simp add: family_of_def row_ok_def)
qed

lemma RevokeFamilyForUser_dead:
  assumes "family_of f userID (t, U)"
  shows "\<not> family_active f (snd (RevokeFamilyForUser None f userID t))"
  using assms
  by (auto simp: RevokeFamilyForUser_def token_update_snd family_active_def list_ex_iff set_sql_update in_family_def family_of_def)

lemma RevokeFamily_dead: "\<not> family_active f (snd (RevokeFamily None f t))"
  by (auto simp: RevokeFamily_def token_update_snd family_active_def list_ex_iff set_sql_update in_family_def)

text \<open>C8. A rotation never extends a session: whatever logins, refreshes, revokes, activity writes and cleanups follow, in any
  order and with any failures, every token of a family keeps the start of the session, expires at the latest at its maximum
  lifetime, and is the only active token of its family.\<close>

theorem sessions_never_extended:
  assumes "tokens_ok cfg s" "(token_step cfg)\<^sup>*\<^sup>* s (t, U)" "r \<in> set (fst s)" "r' \<in> set t" "SessionFamily r' = SessionFamily r"
  shows "SessionStart r' = SessionStart r
    \<and> (0 < af_session_max_lifetime cfg \<longrightarrow> rt_expires_at r' \<le> SessionStart r + af_session_max_lifetime cfg)
    \<and> (\<forall>q\<in>set t. SessionFamily q = SessionFamily r \<and> \<not> rt_revoked q \<and> \<not> rt_revoked r' \<longrightarrow> q = r')"
proof -
  obtain t0 U0 where s: "s = (t0, U0)" by (cases s)
  have ok: "tokens_ok cfg (t, U)" using tokens.keeps_star [OF assms(2,1)] .
  have "row_ok cfg U0 r" "\<forall>x\<in>set t0. pair_ok x r" using assms(1,3) s by (auto simp: tokens_ok_def)
  then have "SessionFamily r \<in> U0" "\<forall>x\<in>set t0. SessionFamily x = SessionFamily r \<longrightarrow> SessionStart x = SessionStart r"
    by (simp_all add: row_ok_def pair_ok_def same_family_def)
  then have "\<forall>x\<in>set t. SessionFamily x = SessionFamily r \<longrightarrow> SessionStart x = SessionStart r"
    using start_stays [OF assms(2,1), of "SessionFamily r" "SessionStart r"] s by simp
  then have start: "SessionStart r' = SessionStart r" using assms(4,5) by blast
  have row: "row_ok cfg U r'" using ok assms(4) by (simp add: tokens_ok_def)
  have "q = r'" if q: "q \<in> set t" "SessionFamily q = SessionFamily r" "\<not> rt_revoked q" "\<not> rt_revoked r'" for q
  proof -
    have "pair_ok q r'" using ok q(1) assms(4) by (simp add: tokens_ok_def)
    with q assms(5) have "rt_id q = rt_id r'" by (simp add: pair_ok_def same_family_def)
    moreover have "inj_on rt_id (set t)" using ok by (simp add: tokens_ok_def keyed_def distinct_map)
    ultimately show ?thesis using q(1) assms(4) by (simp add: inj_on_def)
  qed
  with start row show ?thesis by (auto simp: row_ok_def)
qed

lemma dead_count: "\<not> family_active f t \<Longrightarrow> CountActiveInFamily None now f t = Inr 0"
  by (auto simp: CountActiveInFamily_def family_active_def active_at_def list_ex_iff filter_empty_conv)

text \<open>A revoked session stays dead: after its family was revoked no sequence of writes of any request gives it an active token
  again, so every later count of its active tokens is zero.\<close>

theorem revoked_session_stays_dead:
  assumes "tokens_ok cfg (t, U)" "f \<in> U" "(token_step cfg)\<^sup>*\<^sup>* (snd (RevokeFamily None f t), U) (t', U')"
  shows "CountActiveInFamily None now f t' = Inr 0"
proof -
  have "token_step cfg (t, U) (snd (RevokeFamily None f t), U)" unfolding RevokeFamily_def by (rule revoked)
  then have ok: "tokens_ok cfg (snd (RevokeFamily None f t), U)" using assms(1) by (rule token_step_ok)
  with RevokeFamily_dead [of f t] ok assms(2) dead.keeps_star [OF assms(3), of f] have "\<not> family_active f t'" by (simp add: dead_family_def)
  then show ?thesis by (rule dead_count)
qed

text \<open>Of the requests that present one refresh token, one rotates it.\<close>

definition rotation_run :: "auth_config \<Rightarrow> refresh_token \<Rightarrow> token_input \<times> gtime \<times> string \<Rightarrow> tokens \<Rightarrow> bool \<times> tokens" where
  "rotation_run cfg stored = (\<lambda>(inp, now, userID) t.
     (let r = rotate_token cfg inp now userID stored t in (case fst r of Inr _ \<Rightarrow> True | Inl _ \<Rightarrow> False, snd r)))"

definition token_unused :: "refresh_token \<Rightarrow> tokens \<Rightarrow> bool" where
  "token_unused stored t \<longleftrightarrow> list_ex (\<lambda>r. rt_id r = rt_id stored \<and> \<not> rt_revoked r) t"

interpretation rotation: one_winner "rotation_run cfg stored" "token_unused stored" "keyed rt_id" for cfg stored
proof
  fix t :: tokens and c :: "token_input \<times> gtime \<times> string"
  assume k: "keyed rt_id t"
  obtain inp now userID where c: "c = (inp, now, userID)" by (cases c)
  obtain res t' where r: "rotate_token cfg inp now userID stored t = (res, t')" by (cases "rotate_token cfg inp now userID stored t")
  have run: "rotation_run cfg stored c t = (case res of Inr _ \<Rightarrow> True | Inl _ \<Rightarrow> False, t')" by (simp add: rotation_run_def c r)
  from r have all: "(fst (rotation_run cfg stored c t) \<longrightarrow> token_unused stored t \<and> \<not> token_unused stored (snd (rotation_run cfg stored c t)))
    \<and> (\<not> fst (rotation_run cfg stored c t) \<longrightarrow> snd (rotation_run cfg stored c t) = t) \<and> keyed rt_id (snd (rotation_run cfg stored c t))"
  proof (cases rule: rotate_cases)
    case 1
    then show ?thesis using run k by simp
  next
    case (2 raw p sess)
    let ?t1 = "sql_update (\<lambda>r. rt_id r = rt_id stored \<and> \<not> rt_revoked r) (\<lambda>r. r\<lparr>rt_revoked := True, rt_rotated_at := Some now\<rparr>) t"
    let ?n = "new_token cfg inp userID sess"
    have used: "token_unused stored t" using 2(1) by (auto simp: token_unused_def rows_changed_def filter_empty_conv list_ex_iff)
    then have "rt_id stored \<in> set (map rt_id t)" unfolding token_unused_def list_ex_iff by (metis image_eqI list.set_map)
    moreover have "rt_id ?n \<notin> set (map rt_id t)" using 2(8) unfolding clash_iff by blast
    ultimately have "rt_id ?n \<noteq> rt_id stored" by auto
    then have "\<not> token_unused stored t'"
      unfolding 2(7) by (auto simp: token_unused_def list_ex_iff set_sql_update)
    moreover have "map rt_id t' = map rt_id t @ [rt_id ?n]" unfolding 2(7) by simp
    then have "keyed rt_id t'" using k \<open>rt_id ?n \<notin> set (map rt_id t)\<close> by (simp add: keyed_def)
    ultimately show ?thesis using run 2(2) used by simp
  qed
  show "token_unused stored t" if "fst (rotation_run cfg stored c t)" using all that by blast
  show "\<not> token_unused stored (snd (rotation_run cfg stored c t))" if "fst (rotation_run cfg stored c t)" using all that by blast
  show "snd (rotation_run cfg stored c t) = t" if "\<not> fst (rotation_run cfg stored c t)" using all that by blast
  show "keyed rt_id (snd (rotation_run cfg stored c t))" using all by blast
qed

text \<open>C9. A refresh token is used once: of any number of refreshes that present it, on whatever replicas, at most one gets a
  successor.\<close>

theorem refresh_token_used_once: "keyed rt_id t \<Longrightarrow> winners (rotation_run cfg stored) cs t \<le> 1"
  by (rule rotation.at_most_one)

text \<open>The cap on the active tokens of a user.\<close>

definition active_tokens :: "gtime \<Rightarrow> string \<Rightarrow> tokens \<Rightarrow> tokens" where
  "active_tokens now userID t = filter (\<lambda>r. EqualFold (rt_user_id r) userID \<and> active_at now r) t"

lemma active_revoked:
  "length (active_tokens now userID (sql_update (\<lambda>r. rt_id r \<in> I \<and> \<not> rt_revoked r) revoke t)) = length (filter (\<lambda>r. rt_id r \<notin> I) (active_tokens now userID t))"
  by (induction t) (auto simp: active_tokens_def sql_update_def active_at_def)

lemma newest_stay:
  assumes "mset L = mset A" "length A \<le> keep + b"
  shows "length (filter (\<lambda>r. rt_id r \<notin> set (map rt_id (take b (drop keep L)))) A) \<le> keep"
proof -
  let ?q = "\<lambda>r. rt_id r \<notin> set (map rt_id (take b (drop keep L)))"
  have "length L = length A" using assms(1) by (metis size_mset)
  then have d: "take b (drop keep L) = drop keep L" using assms(2) by simp
  have "length (filter ?q A) = length (filter ?q L)" using assms(1) by (metis mset_filter size_mset)
  also have "\<dots> = length (filter ?q (take keep L @ drop keep L))" by simp
  also have "\<dots> = length (filter ?q (take keep L))" unfolding d filter_append by (auto simp: filter_empty_conv)
  also have "\<dots> \<le> keep" by (metis length_filter_le length_take min.cobounded2 order_trans)
  finally show ?thesis .
qed

lemma cap_bound:
  assumes "cap_tokens cfg (alone inp) userID ex t = (Inr (), t')" "0 < af_max_refresh_tokens_per_user cfg"
    and "\<forall>r\<in>set t. rt_id r = ex \<longrightarrow> \<not> active_at (tx_repo_now inp) r"
    and "int (length (active_tokens (tx_repo_now inp) userID t)) < af_max_refresh_tokens_per_user cfg + int maxRevokeBatch"
  shows "int (length (active_tokens (tx_repo_now inp) userID t')) < af_max_refresh_tokens_per_user cfg"
proof (cases "int (length (active_tokens (tx_repo_now inp) userID t)) < af_max_refresh_tokens_per_user cfg")
  case True
  with assms(1,2) show ?thesis
    by (auto simp: cap_tokens_def CountActiveForUser_def Let_def active_tokens_def split: option.splits)
next
  case False
  let ?now = "tx_repo_now inp" and ?keep = "nat (af_max_refresh_tokens_per_user cfg - 1)"
  let ?A = "active_tokens ?now userID t"
  let ?L = "rev (sort_key (\<lambda>r. (rt_created_at r, rt_id r)) ?A)"
  have "filter (\<lambda>r. EqualFold (rt_user_id r) userID \<and> active_at ?now r \<and> (ex = [] \<or> rt_id r \<noteq> ex)) t = ?A"
    unfolding active_tokens_def by (rule filter_cong) (use assms(3) in auto)
  then have ids: "oldest_ids ?now userID (af_max_refresh_tokens_per_user cfg - 1) ex t = map rt_id (take maxRevokeBatch (drop ?keep ?L))"
    using assms(2) by (simp add: oldest_ids_def)
  have m: "mset ?L = mset ?A" by simp
  have "map rt_id (take maxRevokeBatch (drop ?keep ?L)) \<noteq> []" using False assms(2) by simp
  then have t': "t' = sql_update (\<lambda>r. rt_id r \<in> set (map rt_id (take maxRevokeBatch (drop ?keep ?L))) \<and> \<not> rt_revoked r) revoke t"
    using assms(1,2) False ids
    by (simp add: cap_tokens_def CountActiveForUser_def RevokeOldestForUser_def token_update_def Let_def active_tokens_def
        split: option.splits if_splits)
  have "length ?A \<le> ?keep + maxRevokeBatch" using assms(2,4) by linarith
  from newest_stay [OF m this] have "length (active_tokens ?now userID t') \<le> ?keep" unfolding t' active_revoked .
  with assms(2) show ?thesis by linarith
qed

text \<open>The cap holds: a login or refresh that succeeds leaves the user with at most the configured number of active tokens,
  as long as one batch of a thousand revokes suffices.\<close>

theorem token_cap_holds:
  assumes "createRefreshToken cfg (alone inp) userID sess ex t = (Inr new, t')" "0 < af_max_refresh_tokens_per_user cfg"
    and "\<forall>r\<in>set t. rt_id r = ex \<longrightarrow> \<not> active_at (tx_repo_now inp) r"
    and "int (length (active_tokens (tx_repo_now inp) userID t)) < af_max_refresh_tokens_per_user cfg + int maxRevokeBatch"
  shows "int (length (active_tokens (tx_repo_now inp) userID t')) \<le> af_max_refresh_tokens_per_user cfg"
proof -
  obtain u where u: "cap_tokens cfg (alone inp) userID ex t = (Inr (), u)"
    and t': "t' = u @ [new_token cfg (alone inp) userID sess]"
    using assms(1) by (auto simp: createRefreshToken_def token_Create_def Let_def split: prod.splits sum.splits option.splits if_splits)
  from cap_bound [OF u assms(2-4)] have "int (length (active_tokens (tx_repo_now inp) userID u)) < af_max_refresh_tokens_per_user cfg" .
  moreover have "length (active_tokens (tx_repo_now inp) userID t') \<le> Suc (length (active_tokens (tx_repo_now inp) userID u))"
    by (simp add: t' active_tokens_def)
  ultimately show ?thesis by linarith
qed

text \<open>An example: a session of user \<open>ann\<close> that is rotated once.\<close>

definition example_auth :: auth_config where
  "example_auth = \<lparr>af_refresh_token_expiration = 7 * 24 * Hour, af_session_max_lifetime = 24 * Hour, af_session_idle_timeout = 2 * Hour,
     af_refresh_reuse_grace = 30 * Second, af_access_token_expiration = 15 * Minute, af_jwt_expiration = 24 * Hour, af_max_refresh_tokens_per_user = 5\<rparr>"

definition example_input :: token_input where
  "example_input = \<lparr>tx_fault = (\<lambda>_. None), tx_env = (\<lambda>_ t. t), tx_repo_now = Hour, tx_now = Hour, tx_raw = Some ''raw2'', tx_hash = ''h2'', tx_uuid = ''t2'',
     tx_user_agent = [], tx_ip = []\<rparr>"

definition example_token :: refresh_token where
  "example_token = \<lparr>rt_expires_at = 24 * Hour, rt_last_activity = Minute, rt_created_at = 5, rt_session_started_at = 5, rt_rotated_at = None, rt_id = ''t1'',
     rt_user_id = ''ann'', rt_token_hash = ''h1'', rt_family_id = ''t1'', rt_user_agent = [], rt_ip_address = [], rt_revoked = False\<rparr>"

definition example_successor :: refresh_token where
  "example_successor = \<lparr>rt_expires_at = 24 * Hour + 5, rt_last_activity = Minute, rt_created_at = Hour, rt_session_started_at = 5, rt_rotated_at = None, rt_id = ''t2'',
     rt_user_id = ''ann'', rt_token_hash = ''h2'', rt_family_id = ''t1'', rt_user_agent = [], rt_ip_address = [], rt_revoked = False\<rparr>"

lemma example_rotation:
  "rotate_token example_auth example_input Hour ''ann'' example_token [example_token]
     = (Inr (''raw2'', 24 * Hour + 5), [example_token\<lparr>rt_revoked := True, rt_rotated_at := Some Hour\<rparr>, example_successor])"
  by (simp add: rotate_token_def MarkRotatedIfActive_def token_update_def rows_changed_def sql_update_def carryLatestActivity_def FindByTokenHash_def
      createRefreshToken_def cap_tokens_def CountActiveForUser_def active_at_def new_token_def continuedSession_def sessionDeadline_def token_Create_def
      SessionStart_def SessionFamily_def Let_def example_auth_def example_input_def example_token_def example_successor_def)

lemma example_tokens_ok: "tokens_ok example_auth ([example_token], {''t1''})"
  by (simp add: tokens_ok_def keyed_def row_ok_def pair_ok_def same_family_def SessionFamily_def SessionStart_def example_token_def example_auth_def)

lemma example_rotation_step:
  "token_step example_auth ([example_token], {''t1''})
     ([example_token\<lparr>rt_revoked := True, rt_rotated_at := Some Hour\<rparr>, example_successor], {''t2'', ''t1''})"
proof -
  have u: "tx_uuid example_input = ''t2''" "0 < tx_now example_input" "rt_user_id example_token = ''ann''" by (simp_all add: example_input_def example_token_def)
  have "copy_of example_token [example_token]" by (simp add: copy_of_def)
  from rotated [OF this, of example_input "{''t1''}" "''ann''" example_auth Hour] show ?thesis unfolding example_rotation by (simp add: u)
qed

theorem sessions_never_extended_witness:
  "rt_expires_at example_successor \<le> SessionStart example_token + af_session_max_lifetime example_auth"
proof -
  have "SessionFamily example_successor = SessionFamily example_token" "0 < af_session_max_lifetime example_auth"
    by (simp_all add: SessionFamily_def example_successor_def example_token_def example_auth_def)
  moreover have "(token_step example_auth)\<^sup>*\<^sup>* ([example_token], {''t1''})
      ([example_token\<lparr>rt_revoked := True, rt_rotated_at := Some Hour\<rparr>, example_successor], {''t2'', ''t1''})"
    using example_rotation_step by (rule r_into_rtranclp)
  ultimately show ?thesis using sessions_never_extended [OF example_tokens_ok, of _ _ example_token example_successor] by (metis fst_conv list.set_intros)
qed

theorem revoked_session_stays_dead_witness:
  "CountActiveInFamily None 9 ''t1'' (snd (TouchFamily None ''t1'' 8 (snd (RevokeFamily None ''t1'' [example_token])))) = Inr 0"
proof -
  let ?t = "snd (RevokeFamily None ''t1'' [example_token])"
  have "(token_step example_auth)\<^sup>*\<^sup>* (?t, {''t1''}) (snd (TouchFamily None ''t1'' 8 ?t), {''t1''})" by (rule r_into_rtranclp) (rule touched)
  from revoked_session_stays_dead [OF example_tokens_ok _ this] show ?thesis by simp
qed

theorem refresh_token_used_once_witness:
  "winners (rotation_run example_auth example_token) [(example_input, Hour, ''ann''), (example_input, 2 * Hour, ''ann'')] [example_token] \<le> 1"
  by (rule refresh_token_used_once) (simp add: keyed_def)

theorem token_cap_holds_witness:
  "length (active_tokens Hour ''ann'' (snd (createRefreshToken (example_auth\<lparr>af_max_refresh_tokens_per_user := 1\<rparr>) (alone example_input) ''ann''
     (newRefreshSession ''t9'' Hour) [] [example_token]))) \<le> 1"
proof -
  let ?cfg = "example_auth\<lparr>af_max_refresh_tokens_per_user := 1\<rparr>"
  let ?r = "createRefreshToken ?cfg (alone example_input) ''ann'' (newRefreshSession ''t9'' Hour) [] [example_token]"
  have n: "tx_repo_now example_input = Hour" "rt_id example_token \<noteq> []" "active_tokens 3600000000000 ''ann'' [example_token] = [example_token]"
    by (simp_all add: example_input_def example_token_def active_tokens_def active_at_def)
  have "\<exists>x. fst ?r = Inr x"
    by (simp add: createRefreshToken_def cap_tokens_def CountActiveForUser_def RevokeOldestForUser_def oldest_ids_def token_update_def token_Create_def
        new_token_def newRefreshSession_def sql_update_def active_at_def Let_def example_input_def example_token_def example_auth_def)
  then obtain x where x: "?r = (Inr x, snd ?r)" by (metis prod.collapse)
  have "int (length (active_tokens (tx_repo_now example_input) ''ann'' (snd ?r))) \<le> af_max_refresh_tokens_per_user ?cfg"
    by (rule token_cap_holds [OF x]) (simp_all add: n)
  then show ?thesis by (simp add: n)
qed

end
