(* ===== verification/ApiKeys.thy ===== *)
theory ApiKeys
  imports Users
begin

text \<open>
  API keys: the row and the hashes (\<open>models/api_key.go\<close>), the table (\<open>database/api_key_repository.go\<close>) and the check of a
  presented key (\<open>api/middleware/combined_auth.go\<close>). SHA-256, Argon2id and Base64 are library functions and arguments of the
  model. Identifiers and prefixes compare without case, as the collation does.
\<close>

record api_key =
  ak_id :: string
  ak_user_id :: string
  ak_name :: string
  ak_key_hash :: string
  ak_prefix :: string
  ak_created_at :: gtime
  ak_last_used_at :: "gtime option"
  ak_expires_at :: "gtime option"

type_synonym api_keys = "api_key list"

section \<open>Hashes\<close>

record key_crypto =
  kc_sha256 :: "string \<Rightarrow> string"
  kc_argon2 :: "string \<Rightarrow> string \<Rightarrow> string"
  kc_base64 :: "string \<Rightarrow> string option"

text \<open>\<open>strings.Split\<close> with a separator of one byte.\<close>

fun split_on :: "char \<Rightarrow> string \<Rightarrow> string list" where
  "split_on c [] = [[]]"
| "split_on c (x # xs) = (if x = c then [] # split_on c xs else (case split_on c xs of [] \<Rightarrow> [[x]] | p # ps \<Rightarrow> (x # p) # ps))"

abbreviation dollar :: char where "dollar \<equiv> CHR 0x24"

definition sha_format :: "string \<Rightarrow> bool" where
  "sha_format h \<longleftrightarrow> length h = 64 \<and> dollar \<notin> set h"

definition VerifyAPIKeyHash :: "key_crypto \<Rightarrow> string \<Rightarrow> string \<Rightarrow> bool" where
  "VerifyAPIKeyHash kc rawKey encodedHash =
     (if sha_format encodedHash then kc_sha256 kc rawKey = encodedHash
      else (let parts = split_on dollar encodedHash
            in if length parts \<noteq> 6 \<or> parts ! 1 \<noteq> ''argon2id'' then False
               else (case kc_base64 kc (parts ! 4) of
                       None \<Rightarrow> False
                     | Some salt \<Rightarrow> (case kc_base64 kc (parts ! 5) of None \<Rightarrow> False | Some expected \<Rightarrow> kc_argon2 kc rawKey salt = expected))))"

definition APIKeyHashIsArgon2 :: "string \<Rightarrow> bool" where
  "APIKeyHashIsArgon2 h = HasPrefix h (dollar # ''argon2id'' @ [dollar])"

text \<open>\<open>raw\<close> is the hexadecimal text of 32 random bytes: the key, its prefix and its hash.\<close>

definition GenerateAPIKey :: "key_crypto \<Rightarrow> string \<Rightarrow> string \<times> string \<times> string" where
  "GenerateAPIKey kc raw = (raw, take 16 raw, kc_sha256 kc raw)"

section \<open>The table\<close>

definition key_Create :: "fault \<Rightarrow> gtime \<Rightarrow> string \<Rightarrow> api_key \<Rightarrow> api_keys \<Rightarrow> (repo_error + api_key) \<times> api_keys" where
  "key_Create flt now uuid k t =
     (let k' = k\<lparr>ak_id := (if ak_id k = [] then uuid else ak_id k), ak_created_at := now\<rparr>
      in if ak_user_id k = [] \<or> ak_name k = [] then (Inl (DatabaseError ''create'' ErrValidation), t)
         else case flt of
           Some c \<Rightarrow> (Inl (DatabaseError ''create'' c), t)
         | None \<Rightarrow>
             if list_ex (\<lambda>x. EqualFold (ak_id x) (ak_id k')) t then (Inl (DatabaseError ''create'' ErrDuplicateKey), t)
             else (Inr k', t @ [k']))"

definition own_key :: "string \<Rightarrow> string \<Rightarrow> api_key \<Rightarrow> bool" where
  "own_key userID keyID k \<longleftrightarrow> EqualFold (ak_user_id k) userID \<and> EqualFold (ak_id k) keyID"

definition key_FindByID :: "fault \<Rightarrow> string \<Rightarrow> string \<Rightarrow> api_keys \<Rightarrow> repo_error + api_key" where
  "key_FindByID flt userID keyID t =
     (case flt of
        Some c \<Rightarrow> Inl (DatabaseError ''find_by_id'' c)
      | None \<Rightarrow> (case find (own_key userID keyID) t of None \<Rightarrow> Inl (DatabaseError ''find_by_id'' ErrNotFound) | Some k \<Rightarrow> Inr k))"

abbreviation apiKeyIDsPerQuery :: nat where "apiKeyIDsPerQuery \<equiv> 500"

definition key_FindByIDs :: "(nat \<Rightarrow> fault) \<Rightarrow> string list \<Rightarrow> api_keys \<Rightarrow> repo_error + api_keys" where
  "key_FindByIDs flt ids t =
     chunk_loop flt ''find_by_ids'' (\<lambda>c out. out @ filter (\<lambda>k. list_ex (EqualFold (ak_id k)) c) t) 0 (chunks apiKeyIDsPerQuery ids) []"

definition key_FindByPrefix :: "fault \<Rightarrow> string \<Rightarrow> api_keys \<Rightarrow> repo_error + api_keys" where
  "key_FindByPrefix flt prefix t =
     (case flt of
        Some c \<Rightarrow> Inl (DatabaseError ''find_by_prefix'' c)
      | None \<Rightarrow> (let keys = filter (\<lambda>k. EqualFold (ak_prefix k) prefix) t
                 in if keys = [] then Inl (DatabaseError ''find_by_prefix'' ErrNotFound) else Inr keys))"

definition key_ListByUser :: "fault \<Rightarrow> string \<Rightarrow> api_keys \<Rightarrow> repo_error + api_keys" where
  "key_ListByUser flt userID t =
     (case flt of
        Some c \<Rightarrow> Inl (DatabaseError ''list_by_user'' c)
      | None \<Rightarrow> Inr (sort_key (\<lambda>k. - ak_created_at k) (filter (\<lambda>k. EqualFold (ak_user_id k) userID) t)))"

definition key_UpdateLastUsed :: "fault \<Rightarrow> string \<Rightarrow> string \<Rightarrow> gtime \<Rightarrow> api_keys \<Rightarrow> (repo_error + unit) \<times> api_keys" where
  "key_UpdateLastUsed flt userID keyID tm t =
     (let f = (\<lambda>k. k\<lparr>ak_last_used_at := Some tm\<rparr>)
      in case flt of
           Some c \<Rightarrow> (Inl (DatabaseError ''update_last_used'' c), t)
         | None \<Rightarrow>
             if rows_changed (own_key userID keyID) f t = 0 then (Inl (DatabaseError ''update_last_used'' ErrNotFound), t)
             else (Inr (), sql_update (own_key userID keyID) f t))"

definition key_DeleteAllForUser :: "fault \<Rightarrow> string \<Rightarrow> api_keys \<Rightarrow> (repo_error + nat) \<times> api_keys" where
  "key_DeleteAllForUser flt userID t =
     (if userID = [] then (Inl (DatabaseError ''delete_all_for_user'' ErrValidation), t)
      else case flt of
        Some c \<Rightarrow> (Inl (DatabaseError ''delete_all_for_user'' c), t)
      | None \<Rightarrow> (Inr (length (filter (\<lambda>k. EqualFold (ak_user_id k) userID) t)), filter (\<lambda>k. \<not> EqualFold (ak_user_id k) userID) t))"

definition key_Delete :: "fault \<Rightarrow> string \<Rightarrow> string \<Rightarrow> api_keys \<Rightarrow> (repo_error + unit) \<times> api_keys" where
  "key_Delete flt userID keyID t =
     (case flt of
        Some c \<Rightarrow> (Inl (DatabaseError ''delete'' c), t)
      | None \<Rightarrow>
          if \<not> list_ex (own_key userID keyID) t then (Inl (DatabaseError ''delete'' ErrNotFound), t)
          else (Inr (), filter (\<lambda>k. \<not> own_key userID keyID k) t))"

section \<open>The check of a presented key\<close>

record key_failure =
  kf_status :: nat
  kf_message :: string
  kf_outcome :: string

text \<open>What a check takes from outside: the faults of the two lookups, and before the verify of record \<open>n\<close> whether the client has left and
  whether a verify slot is free.\<close>

record key_io =
  ki_now :: gtime
  ki_lookup_fault :: fault
  ki_user_fault :: fault
  ki_cancelled :: "nat \<Rightarrow> bool"
  ki_slot :: "nat \<Rightarrow> bool"

definition apiKeyLookupOutcome :: "db_cause option \<Rightarrow> string" where
  "apiKeyLookupOutcome c = (if c = Some ErrNotFound then ''invalid'' else ''failure'')"

abbreviation key_invalid :: "string \<Rightarrow> key_failure" where
  "key_invalid outcome \<equiv> \<lparr>kf_status = 401, kf_message = ''Invalid API key'', kf_outcome = outcome\<rparr>"

abbreviation key_cancelled :: key_failure where
  "key_cancelled \<equiv> \<lparr>kf_status = 499, kf_message = ''Client closed request'', kf_outcome = ''cancelled''\<rparr>"

fun match_key :: "key_crypto \<Rightarrow> key_io \<Rightarrow> string \<Rightarrow> nat \<Rightarrow> api_keys \<Rightarrow> key_failure + api_key option" where
  "match_key kc io raw n [] = Inr None"
| "match_key kc io raw n (k # ks) =
     (if \<not> APIKeyHashIsArgon2 (ak_key_hash k)
      then if VerifyAPIKeyHash kc raw (ak_key_hash k) then Inr (Some k) else match_key kc io raw (Suc n) ks
      else if ki_cancelled io n then Inl key_cancelled
      else if \<not> ki_slot io n then Inl \<lparr>kf_status = 503, kf_message = ''Server busy, retry later'', kf_outcome = ''busy''\<rparr>
      else if VerifyAPIKeyHash kc raw (ak_key_hash k) then Inr (Some k) else match_key kc io raw (Suc n) ks)"

definition repo_cause :: "repo_error \<Rightarrow> db_cause option" where
  "repo_cause e = (case e of DatabaseError _ c \<Rightarrow> Some c | _ \<Rightarrow> None)"

definition lookup_failure :: "db_cause option \<Rightarrow> key_failure" where
  "lookup_failure c = (if c = Some context_error then key_cancelled else key_invalid (apiKeyLookupOutcome c))"

text \<open>The keys and the accounts are those at the time of each lookup.\<close>

definition authenticateAPIKey :: "key_crypto \<Rightarrow> key_io \<Rightarrow> string \<Rightarrow> api_keys \<Rightarrow> accounts \<Rightarrow> key_failure + api_key \<times> user" where
  "authenticateAPIKey kc io header keys a =
     (let raw = TrimPrefix header ''sk_''
      in if length raw < 16 then Inl (key_invalid ''invalid'')
         else case key_FindByPrefix (ki_lookup_fault io) (take 16 raw) keys of
           Inl e \<Rightarrow> Inl (lookup_failure (repo_cause e))
         | Inr records \<Rightarrow>
             (case match_key kc io raw 0 records of
                Inl f \<Rightarrow> Inl f
              | Inr None \<Rightarrow> Inl (key_invalid ''invalid'')
              | Inr (Some k) \<Rightarrow>
                  if (case ak_expires_at k of None \<Rightarrow> False | Some e \<Rightarrow> e < ki_now io)
                  then Inl \<lparr>kf_status = 401, kf_message = ''API key expired'', kf_outcome = ''expired''\<rparr>
                  else (case user_FindByID (ki_user_fault io) (ak_user_id k) a of
                          Inl e \<Rightarrow> Inl (lookup_failure (error_cause e))
                        | Inr u \<Rightarrow>
                            if us_disabled u then Inl \<lparr>kf_status = 403, kf_message = ''Account disabled'', kf_outcome = ''disabled''\<rparr>
                            else Inr (k, u))))"

text \<open>The throttled write of the last use: whether it runs, and the times of the last writes (entries live for two minutes).\<close>

definition touch_key :: "gtime \<Rightarrow> string \<Rightarrow> (string \<rightharpoonup> gtime) \<Rightarrow> bool \<times> (string \<rightharpoonup> gtime)" where
  "touch_key now keyID seen =
     (case seen keyID of
        Some prev \<Rightarrow> if prev + 2 * Minute < now \<or> Minute < now - prev then (True, seen(keyID \<mapsto> now)) else (False, seen)
      | None \<Rightarrow> (True, seen(keyID \<mapsto> now)))"

section \<open>What a key proves\<close>

lemma match_key_found: "match_key kc io raw n ks = Inr (Some k) \<Longrightarrow> k \<in> set ks \<and> VerifyAPIKeyHash kc raw (ak_key_hash k)"
  by (induction ks arbitrary: n) (auto split: if_splits)

text \<open>A key that no other key shadows is found, when the verifies before it can run.\<close>

lemma match_key_finds:
  assumes "k \<in> set ks" "VerifyAPIKeyHash kc raw (ak_key_hash k)" "\<forall>x\<in>set ks. VerifyAPIKeyHash kc raw (ak_key_hash x) \<longrightarrow> x = k"
    and "\<forall>n. \<not> ki_cancelled io n \<and> ki_slot io n"
  shows "match_key kc io raw n ks = Inr (Some k)"
  using assms(1,3)
proof (induction ks arbitrary: n)
  case (Cons x ks)
  show ?case
  proof (cases "VerifyAPIKeyHash kc raw (ak_key_hash x)")
    case True
    with Cons.prems(2) have "x = k" by simp
    with True assms(4) show ?thesis by simp
  next
    case False
    with assms(2) Cons.prems have "k \<in> set ks" "\<forall>y\<in>set ks. VerifyAPIKeyHash kc raw (ak_key_hash y) \<longrightarrow> y = k" by auto
    from Cons.IH [OF this, of "Suc n"] False assms(4) show ?thesis by simp
  qed
qed simp

text \<open>A presented API key lets a request in only with a stored key whose prefix and hash fit, that has not expired, and whose user exists and is
  enabled at that time; the request gets the user as it is stored.\<close>

theorem api_key_needs_live_row:
  assumes "authenticateAPIKey kc io header keys a = Inr (k, u)"
  shows "k \<in> set keys \<and> VerifyAPIKeyHash kc (TrimPrefix header ''sk_'') (ak_key_hash k) \<and> EqualFold (ak_prefix k) (take 16 (TrimPrefix header ''sk_''))
    \<and> (\<forall>e. ak_expires_at k = Some e \<longrightarrow> ki_now io \<le> e) \<and> u \<in> set (ac_users a) \<and> EqualFold (us_id u) (ak_user_id k) \<and> \<not> us_disabled u"
proof -
  let ?raw = "TrimPrefix header ''sk_''"
  obtain records where r: "key_FindByPrefix (ki_lookup_fault io) (take 16 ?raw) keys = Inr records" "match_key kc io ?raw 0 records = Inr (Some k)"
    and e: "\<not> (case ak_expires_at k of None \<Rightarrow> False | Some e \<Rightarrow> e < ki_now io)" and u: "user_FindByID (ki_user_fault io) (ak_user_id k) a = Inr u" "\<not> us_disabled u"
    using assms by (auto simp: authenticateAPIKey_def Let_def split: if_splits sum.splits option.splits)
  have "k \<in> set keys" "EqualFold (ak_prefix k) (take 16 ?raw)" "VerifyAPIKeyHash kc ?raw (ak_key_hash k)"
    using match_key_found [OF r(2)] r(1) by (auto simp: key_FindByPrefix_def Let_def split: option.splits if_splits)
  moreover have "u \<in> set (ac_users a)" "EqualFold (us_id u) (ak_user_id k)"
    using u(1) by (auto simp: user_FindByID_def EqualFold_def user_key_def split: option.splits dest!: row_of_SomeD)
  ultimately show ?thesis using e u(2) by (auto split: option.splits)
qed

text \<open>C39. A created key works: the key that the create handler hands out is accepted until it expires, for its user and with the row that was stored, as
  long as the user is enabled and no other stored key has the same hash.\<close>

theorem created_key_works:
  assumes "key_Create None now uuid k t = (Inr k', t')" "GenerateAPIKey kc raw = (raw, ak_prefix k, ak_key_hash k)"
    and "sha_format (ak_key_hash k)" "16 \<le> length raw" "\<not> HasPrefix raw ''sk_''"
    and "\<forall>x\<in>set t. \<not> VerifyAPIKeyHash kc raw (ak_key_hash x)"
    and "ki_lookup_fault io = None" "ki_user_fault io = None" "\<forall>n. \<not> ki_cancelled io n \<and> ki_slot io n"
    and "row_of user_key (ToLower (ak_user_id k)) (ac_users a) = Some u" "\<not> us_disabled u" "\<forall>e. ak_expires_at k = Some e \<longrightarrow> ki_now io \<le> e"
  shows "authenticateAPIKey kc io (''sk_'' @ raw) t' a = Inr (k', u)"
proof -
  have k': "t' = t @ [k']" "ak_prefix k' = take 16 raw" "ak_key_hash k' = kc_sha256 kc raw" "ak_user_id k' = ak_user_id k" "ak_expires_at k' = ak_expires_at k"
    using assms(1,2) by (auto simp: key_Create_def Let_def GenerateAPIKey_def split: if_splits)
  have hash: "sha_format (kc_sha256 kc raw)" using assms(2,3) by (simp add: GenerateAPIKey_def)
  then have v: "VerifyAPIKeyHash kc raw (ak_key_hash k')" by (simp add: VerifyAPIKeyHash_def k')
  let ?ks = "filter (\<lambda>x. EqualFold (ak_prefix x) (take 16 raw)) t'"
  have "k' \<in> set ?ks" by (simp add: k' EqualFold_def)
  moreover have "\<forall>x\<in>set ?ks. VerifyAPIKeyHash kc raw (ak_key_hash x) \<longrightarrow> x = k'" using assms(6) by (auto simp: k'(1))
  ultimately have m: "match_key kc io raw 0 ?ks = Inr (Some k')" by (rule match_key_finds [OF _ v _ assms(9)])
  have "key_FindByPrefix None (take 16 raw) t' = Inr ?ks" using \<open>k' \<in> set ?ks\<close> by (cases ?ks) (simp_all add: key_FindByPrefix_def Let_def)
  moreover have "TrimPrefix (''sk_'' @ raw) ''sk_'' = raw" by (simp add: TrimPrefix_def HasPrefix_def)
  moreover have "user_FindByID None (ak_user_id k) a = Inr u" using assms(10) by (simp add: user_FindByID_def)
  moreover have "\<not> (case ak_expires_at k of None \<Rightarrow> False | Some e \<Rightarrow> e < ki_now io)" using assms(12) by (auto split: option.split)
  ultimately show ?thesis using assms(4,7,8,11) m by (simp add: authenticateAPIKey_def k')
qed

section \<open>Witnesses\<close>

definition example_crypto :: key_crypto where
  "example_crypto = \<lparr>kc_sha256 = (\<lambda>raw. take 64 (raw @ replicate 64 CHR ''0'')), kc_argon2 = (\<lambda>raw salt. salt @ raw), kc_base64 = Some\<rparr>"

definition example_raw :: string where "example_raw = replicate 64 CHR ''a''"

definition example_key :: api_key where
  "example_key = \<lparr>ak_id = [], ak_user_id = ''u1'', ak_name = ''ci'', ak_key_hash = kc_sha256 example_crypto example_raw, ak_prefix = take 16 example_raw,
     ak_created_at = 0, ak_last_used_at = None, ak_expires_at = Some (24 * Hour)\<rparr>"

definition calm_key_io :: key_io where
  "calm_key_io = \<lparr>ki_now = Hour, ki_lookup_fault = None, ki_user_fault = None, ki_cancelled = (\<lambda>_. False), ki_slot = (\<lambda>_. True)\<rparr>"

theorem created_key_works_witness:
  "authenticateAPIKey example_crypto calm_key_io (''sk_'' @ example_raw) [example_key\<lparr>ak_id := ''k1'', ak_created_at := Minute\<rparr>] example_accounts
     = Inr (example_key\<lparr>ak_id := ''k1'', ak_created_at := Minute\<rparr>, example_user)"
proof (rule created_key_works)
  show "key_Create None Minute ''k1'' example_key [] = (Inr (example_key\<lparr>ak_id := ''k1'', ak_created_at := Minute\<rparr>), [example_key\<lparr>ak_id := ''k1'', ak_created_at := Minute\<rparr>])"
    by (simp add: key_Create_def Let_def example_key_def)
  show "GenerateAPIKey example_crypto example_raw = (example_raw, ak_prefix example_key, ak_key_hash example_key)"
    by (simp add: GenerateAPIKey_def example_key_def)
  show "sha_format (ak_key_hash example_key)" by (simp add: sha_format_def example_key_def example_crypto_def example_raw_def)
  show "16 \<le> length example_raw" "\<not> HasPrefix example_raw ''sk_''" by (simp_all add: example_raw_def HasPrefix_def)
  show "row_of user_key (ToLower (ak_user_id example_key)) (ac_users example_accounts) = Some example_user"
    by (simp add: row_of_def example_accounts_def user_key_def example_user_def example_key_def)
qed (simp_all add: calm_key_io_def example_user_def example_key_def)

lemma example_accepted:
  "authenticateAPIKey example_crypto calm_key_io (''sk_'' @ example_raw) [example_key] example_accounts = Inr (example_key, example_user)"
proof -
  have v: "VerifyAPIKeyHash example_crypto example_raw (ak_key_hash example_key)"
    by (simp add: VerifyAPIKeyHash_def sha_format_def example_key_def example_crypto_def example_raw_def)
  have "TrimPrefix (''sk_'' @ example_raw) ''sk_'' = example_raw" by (simp add: TrimPrefix_def HasPrefix_def)
  moreover have "match_key example_crypto calm_key_io example_raw 0 [example_key] = Inr (Some example_key)" using v by (simp add: calm_key_io_def)
  moreover have "key_FindByPrefix None (take 16 example_raw) [example_key] = Inr [example_key]"
    by (simp add: key_FindByPrefix_def EqualFold_def example_key_def)
  moreover have "user_FindByID None (ak_user_id example_key) example_accounts = Inr example_user"
    by (simp add: user_FindByID_def row_of_def example_accounts_def user_key_def example_user_def example_key_def)
  moreover have "\<not> length example_raw < 16" by (simp add: example_raw_def)
  moreover have "ki_lookup_fault calm_key_io = None" "ki_user_fault calm_key_io = None" "ki_now calm_key_io = Hour" "ak_expires_at example_key = Some (24 * Hour)"
    "\<not> us_disabled example_user"
    by (simp_all add: calm_key_io_def example_key_def example_user_def)
  ultimately show ?thesis by (simp add: authenticateAPIKey_def)
qed

theorem api_key_needs_live_row_witness:
  "ki_now calm_key_io \<le> 24 * Hour \<and> \<not> us_disabled example_user"
  using api_key_needs_live_row [OF example_accepted] by (simp add: example_key_def)

end
