(* ===== verification/Sessions.thy ===== *)
theory Sessions
  imports RefreshTokens SessionStore ApiKeys
begin

text \<open>
  Login sessions: access tokens and their revocation (\<open>api/middleware/auth.go\<close>), refresh, logout and logout of all
  sessions (\<open>api/handlers/auth.go\<close>, \<open>api/handlers/auth_recheck.go\<close>), and the revoke of the access of a user
  (\<open>api/handlers/users.go\<close>). A handler runs against the refresh tokens, the accounts and the session store; before each
  of its calls other requests may have changed them (\<open>ai_env\<close>), and a call may fail. The step relation \<open>auth_step\<close> holds
  what all requests together do.
\<close>

section \<open>The session store as an interface\<close>

record 's store_ops =
  so_step :: "gtime \<Rightarrow> (nat \<Rightarrow> fault) \<Rightarrow> store_op \<Rightarrow> 's \<Rightarrow> 's"
  so_IsTokenBlocked :: "fault \<Rightarrow> gtime \<Rightarrow> string \<Rightarrow> 's \<Rightarrow> db_cause + bool"
  so_IsSessionBlocked :: "fault \<Rightarrow> gtime \<Rightarrow> string \<Rightarrow> 's \<Rightarrow> db_cause + bool"
  so_IsUserBlocked :: "fault \<Rightarrow> gtime \<Rightarrow> string \<Rightarrow> gtime \<Rightarrow> 's \<Rightarrow> db_cause + bool"

definition memory_ops :: "mem_store store_ops" where
  "memory_ops = \<lparr>so_step = mem_step, so_IsTokenBlocked = (\<lambda>_ now j s. Inr (mem_IsTokenBlocked now j s)),
     so_IsSessionBlocked = (\<lambda>_ now i s. Inr (mem_IsSessionBlocked now i s)),
     so_IsUserBlocked = (\<lambda>_ now u issued s. Inr (mem_IsUserBlocked now u issued s))\<rparr>"

definition mysql_ops :: "session_entries store_ops" where
  "mysql_ops = \<lparr>so_step = my_step, so_IsTokenBlocked = my_IsTokenBlocked, so_IsSessionBlocked = my_IsSessionBlocked,
     so_IsUserBlocked = my_IsUserBlocked\<rparr>"

section \<open>Access tokens\<close>

record claims =
  cl_user_id :: string
  cl_username :: string
  cl_display_name :: string
  cl_role :: string
  cl_auth_provider :: string
  cl_email :: string
  cl_session_id :: string
  cl_issued_at_ms :: int
  cl_id :: string
  cl_expires_at :: "gtime option"
  cl_issued_at :: "gtime option"

text \<open>\<open>time.UnixMilli\<close>, and the dates of a token: whole seconds.\<close>

definition of_UnixMilli :: "int \<Rightarrow> gtime" where
  "of_UnixMilli ms = (ms + 62135596800000) * 1000000"

definition IssueTime :: "claims \<Rightarrow> gtime" where
  "IssueTime c = (if 0 < cl_issued_at_ms c then of_UnixMilli (cl_issued_at_ms c) else case cl_issued_at c of None \<Rightarrow> zero_time | Some t \<Rightarrow> whole t)"

definition GenerateTokenWithOpts :: "gtime \<Rightarrow> string \<Rightarrow> duration \<Rightarrow> user \<Rightarrow> string \<Rightarrow> string \<Rightarrow> claims" where
  "GenerateTokenWithOpts now jti expiration u provider sessionID =
     \<lparr>cl_user_id = us_id u, cl_username = us_username u, cl_display_name = us_display_name u, cl_role = us_role u, cl_auth_provider = provider,
      cl_email = us_email u, cl_session_id = sessionID, cl_issued_at_ms = UnixMilli now, cl_id = jti,
      cl_expires_at = Some (whole (now + expiration)), cl_issued_at = Some (whole now)\<rparr>"

text \<open>\<open>verify\<close> is the check of the signature by the JWT library; a token without an expiry is refused.\<close>

definition ValidateJWT :: "(string \<rightharpoonup> claims) \<Rightarrow> gtime \<Rightarrow> string \<rightharpoonup> claims" where
  "ValidateJWT verify now token =
     (case verify token of
        None \<Rightarrow> None
      | Some c \<Rightarrow> (case cl_expires_at c of None \<Rightarrow> None | Some e \<Rightarrow> if now < e then Some c else None))"

text \<open>The token of a header \<open>Bearer token\<close>.\<close>

definition bearer_token :: "string \<Rightarrow> string option" where
  "bearer_token header =
     (case Cut header '' '' of
        None \<Rightarrow> None
      | Some (scheme, token) \<Rightarrow> if EqualFold scheme ''Bearer'' then Some token else None)"

datatype revocation = ErrTokenRevoked | ErrSessionRevoked

definition RevocationMessage :: "revocation \<Rightarrow> string" where
  "RevocationMessage e = (case e of ErrTokenRevoked \<Rightarrow> ''Token has been revoked'' | ErrSessionRevoked \<Rightarrow> ''Session revoked'')"

text \<open>The first check that finds a block decides; a check that fails counts as no block, and its error is returned.\<close>

fun first_revocation :: "(bool \<times> revocation \<times> (db_cause + bool)) list \<Rightarrow> revocation option \<times> db_cause list" where
  "first_revocation [] = (None, [])"
| "first_revocation ((applies, e, answer) # checks) =
     (if \<not> applies then first_revocation checks
      else (case answer of
              Inl c \<Rightarrow> (let r = first_revocation checks in (fst r, c # snd r))
            | Inr blocked \<Rightarrow> if blocked then (Some e, []) else first_revocation checks))"

definition RevocationStatus :: "'s store_ops option \<Rightarrow> (nat \<Rightarrow> fault) \<Rightarrow> gtime \<Rightarrow> claims \<Rightarrow> 's \<Rightarrow> revocation option \<times> db_cause list" where
  "RevocationStatus store flt now c s =
     (case store of
        None \<Rightarrow> (None, [])
      | Some ops \<Rightarrow>
          first_revocation
            [(cl_id c \<noteq> [], ErrTokenRevoked, so_IsTokenBlocked ops (flt 0) now (cl_id c) s),
             (cl_session_id c \<noteq> [], ErrSessionRevoked, so_IsSessionBlocked ops (flt 1) now (cl_session_id c) s),
             (cl_user_id c \<noteq> [], ErrSessionRevoked, so_IsUserBlocked ops (flt 2) now (cl_user_id c) (IssueTime c) s)])"

definition CheckRevocation :: "'s store_ops option \<Rightarrow> (nat \<Rightarrow> fault) \<Rightarrow> gtime \<Rightarrow> claims \<Rightarrow> 's \<Rightarrow> revocation option" where
  "CheckRevocation store flt now c s = fst (RevocationStatus store flt now c s)"

text \<open>The middleware: an error text, or the claims with which the request goes on.\<close>

definition AuthRequired :: "'s store_ops option \<Rightarrow> (string \<rightharpoonup> claims) \<Rightarrow> (nat \<Rightarrow> fault) \<Rightarrow> gtime \<Rightarrow> string \<Rightarrow> 's \<Rightarrow> string + claims" where
  "AuthRequired store verify flt now header s =
     (if header = [] then Inl ''Authorization header is required''
      else (case bearer_token header of
              None \<Rightarrow> Inl ''Authorization header must be Bearer {token}''
            | Some token \<Rightarrow>
                (case ValidateJWT verify now token of
                   None \<Rightarrow> Inl ''Invalid or expired token''
                 | Some c \<Rightarrow> (case CheckRevocation store flt now c s of Some e \<Rightarrow> Inl (RevocationMessage e) | None \<Rightarrow> Inr c))))"

section \<open>Activity of a session\<close>

abbreviation sessionActivityInterval :: duration where "sessionActivityInterval \<equiv> Minute"
abbreviation minSessionActivityInterval :: duration where "minSessionActivityInterval \<equiv> Second"

definition SessionActivityInterval :: "duration \<Rightarrow> duration" where
  "SessionActivityInterval idleTimeout =
     (if idleTimeout \<le> 0 then sessionActivityInterval
      else (let interval = idleTimeout div 4
            in if sessionActivityInterval < interval then sessionActivityInterval
               else if interval < minSessionActivityInterval then minSessionActivityInterval else interval))"

text \<open>Whether a request writes the activity of its session, and the times of the last writes.\<close>

definition touch :: "duration \<Rightarrow> gtime \<Rightarrow> string \<Rightarrow> (string \<rightharpoonup> gtime) \<Rightarrow> bool \<times> (string \<rightharpoonup> gtime)" where
  "touch interval now sessionID lastSeen =
     (if sessionID = [] then (False, lastSeen)
      else (case lastSeen sessionID of
              Some prev \<Rightarrow> if now - prev < interval then (False, lastSeen) else (True, lastSeen(sessionID \<mapsto> now))
            | None \<Rightarrow> (True, lastSeen(sessionID \<mapsto> now))))"

section \<open>State, calls and answers\<close>

text \<open>\<open>ad_sockets\<close> are the requests to close web sockets, in their order; \<open>ad_drawn\<close> are the identifiers that were drawn so far
  (no code reads it).\<close>

datatype ws_request = DisconnectToken string | DisconnectUser string | DisconnectAPIKey string

record 's auth_db =
  ad_tokens :: tokens
  ad_accounts :: accounts
  ad_api_keys :: api_keys
  ad_sockets :: "ws_request list"
  ad_store :: 's
  ad_drawn :: "string set"

text \<open>The call sites of the handlers.\<close>

datatype auth_site =
    FindToken | Decide | RevokeExpired | RevokeIdle | IsBlocked | RevokeBlocked | FindUser | RevokeDisabled | Rotate | FindAgain
  | GraceUser | GraceCount | GraceBlocked | GraceRevokeBlocked | Sign | RecheckUser | RecheckRevoke | RecheckSession | ReplayRevoke
  | BlockNormal | BlockLong | LogoutFind | LogoutRevoke nat | BlockBearer | RevokeAll | ListFamilies | BlockUserAll
  | UserBlock | DeleteKeys | CleanupTokens
  | LoginFind | LoginReread | LoginIssue | LoginAbandon | CreateUser | FindAccount | ChangeAccount | CreateKey | DeleteKey | ListKeys

record 's auth_io =
  ai_now :: "auth_site \<Rightarrow> gtime"
  ai_fault :: "auth_site \<Rightarrow> fault"
  ai_batch_fault :: "auth_site \<Rightarrow> nat \<Rightarrow> fault"
  ai_env :: "auth_site \<Rightarrow> 's auth_db \<Rightarrow> 's auth_db"
  ai_input :: token_input
  ai_jti :: string

record 's auth_handler =
  ah_store :: "'s store_ops option"
  ah_refresh :: bool
  ah_sockets :: bool
  ah_config :: auth_config
  ah_hash :: "string \<Rightarrow> string"

datatype cookie = KeepCookie | ClearCookie | SetCookie string gtime

datatype body = ErrorText string | AccessToken claims | Message string | LoginResponse claims user | UserBody user | RoleChanged string string string bool | KeyCreated api_key string | KeyList api_keys | NoContent

record answer =
  an_status :: nat
  an_body :: body
  an_cookie :: cookie

abbreviation answer :: "nat \<Rightarrow> body \<Rightarrow> cookie \<Rightarrow> answer" where
  "answer st b c \<equiv> \<lparr>an_status = st, an_body = b, an_cookie = c\<rparr>"

abbreviation refuse :: "nat \<Rightarrow> string \<Rightarrow> answer" where "refuse st text \<equiv> answer st (ErrorText text) ClearCookie"
abbreviation internal_error :: "cookie \<Rightarrow> answer" where "internal_error \<equiv> answer 500 (ErrorText ''Internal server error'')"
abbreviation client_closed :: answer where "client_closed \<equiv> answer 499 (ErrorText ''Client closed request'') KeepCookie"

definition call :: "'s auth_io \<Rightarrow> auth_site \<Rightarrow> (fault \<Rightarrow> gtime \<Rightarrow> 's auth_db \<Rightarrow> 'r \<times> 's auth_db) \<Rightarrow> 's auth_db \<Rightarrow> 'r \<times> 's auth_db" where
  "call io site f d = f (ai_fault io site) (ai_now io site) (ai_env io site d)"

definition ask :: "'s auth_io \<Rightarrow> auth_site \<Rightarrow> (fault \<Rightarrow> gtime \<Rightarrow> 's auth_db \<Rightarrow> 'r) \<Rightarrow> 's auth_db \<Rightarrow> 'r \<times> 's auth_db" where
  "ask io site f = call io site (\<lambda>flt now d. (f flt now d, d))"

definition on_tokens :: "(fault \<Rightarrow> tokens \<Rightarrow> 'r \<times> tokens) \<Rightarrow> fault \<Rightarrow> gtime \<Rightarrow> 's auth_db \<Rightarrow> 'r \<times> 's auth_db" where
  "on_tokens f flt now d = (let r = f flt (ad_tokens d) in (fst r, d\<lparr>ad_tokens := snd r\<rparr>))"

text \<open>A revoke whose error is only logged.\<close>

abbreviation revoke_call :: "'s auth_io \<Rightarrow> auth_site \<Rightarrow> (fault \<Rightarrow> tokens \<Rightarrow> (db_cause + nat) \<times> tokens) \<Rightarrow> 's auth_db \<Rightarrow> (db_cause + nat) \<times> 's auth_db" where
  "revoke_call io site f \<equiv> call io site (on_tokens f)"

definition failed :: "db_cause + 'r \<Rightarrow> bool" where
  "failed r = (case r of Inl _ \<Rightarrow> True | Inr _ \<Rightarrow> False)"

definition cause_not_found :: "db_cause \<Rightarrow> bool" where
  "cause_not_found c = isNotFoundError (UserRaw c)"

definition find_user :: "'s auth_io \<Rightarrow> auth_site \<Rightarrow> string \<Rightarrow> 's auth_db \<Rightarrow> (user_error + user) \<times> 's auth_db" where
  "find_user io site i = ask io site (\<lambda>flt now d. user_FindByID flt i (ad_accounts d))"

definition user_cancelled :: "user_error \<Rightarrow> bool" where
  "user_cancelled e \<longleftrightarrow> error_cause e = Some context_error"

section \<open>Blocking sessions\<close>

abbreviation sessionBlockSkew :: duration where "sessionBlockSkew \<equiv> Minute"

definition access_ttl :: "auth_config \<Rightarrow> duration" where
  "access_ttl cfg = (if af_access_token_expiration cfg \<le> 0 then 24 * Hour else af_access_token_expiration cfg)"

definition sessionBlockUntil :: "auth_config \<Rightarrow> gtime \<Rightarrow> gtime" where
  "sessionBlockUntil cfg now = now + (access_ttl cfg + sessionBlockSkew)"

definition sessionLongBlockUntil :: "auth_config \<Rightarrow> gtime \<Rightarrow> gtime" where
  "sessionLongBlockUntil cfg now =
     (if af_session_max_lifetime cfg \<le> 0 then sessionBlockUntil cfg now else now + (af_session_max_lifetime cfg + sessionBlockSkew))"

record session_to_block =
  sb_id :: string
  sb_user_id :: string
  sb_revoke_failed :: bool

definition block_batch :: "'s store_ops \<Rightarrow> 's auth_io \<Rightarrow> auth_site \<Rightarrow> (gtime \<Rightarrow> gtime) \<Rightarrow> string list \<Rightarrow> 's auth_db \<Rightarrow> 's auth_db" where
  "block_batch ops io site until ids d =
     (if ids = [] then d
      else (let d' = ai_env io site d; now = ai_now io site
            in d'\<lparr>ad_store := so_step ops now (ai_batch_fault io site) (OpBlockSessions ids (until now)) (ad_store d')\<rparr>))"

definition blockSessions :: "'s auth_handler \<Rightarrow> 's auth_io \<Rightarrow> session_to_block list \<Rightarrow> 's auth_db \<Rightarrow> 's auth_db" where
  "blockSessions h io sessions d =
     (case ah_store h of
        None \<Rightarrow> d
      | Some ops \<Rightarrow>
          block_batch ops io BlockLong (sessionLongBlockUntil (ah_config h)) (map sb_id (filter sb_revoke_failed sessions))
            (block_batch ops io BlockNormal (sessionBlockUntil (ah_config h)) (map sb_id (filter (\<lambda>x. \<not> sb_revoke_failed x) sessions)) d))"

definition rejectBlockedSession :: "'s auth_handler \<Rightarrow> 's auth_io \<Rightarrow> auth_site \<Rightarrow> auth_site \<Rightarrow> string \<Rightarrow> 's auth_db \<Rightarrow> answer option \<times> 's auth_db" where
  "rejectBlockedSession h io site site' family d =
     (case ah_store h of
        None \<Rightarrow> (None, d)
      | Some ops \<Rightarrow>
          (case ask io site (\<lambda>flt now d. so_IsSessionBlocked ops flt now family (ad_store d)) d of
             (Inl c, d1) \<Rightarrow> (if c = context_error then Some client_closed else None, d1)
           | (Inr blocked, d1) \<Rightarrow>
               if \<not> blocked then (None, d1)
               else (Some (refuse 401 ''Session revoked''), snd (revoke_call io site' (\<lambda>flt. RevokeFamily flt family) d1))))"

section \<open>Refresh\<close>

definition findRefreshToken :: "'s auth_io \<Rightarrow> auth_site \<Rightarrow> string \<Rightarrow> 's auth_db \<Rightarrow> (answer + refresh_token) \<times> 's auth_db" where
  "findRefreshToken io site hash d =
     (case ask io site (\<lambda>flt now d. FindByTokenHash flt hash (ad_tokens d)) d of
        (Inr r, d') \<Rightarrow> (Inr r, d')
      | (Inl c, d') \<Rightarrow>
          (Inl (if c = context_error then client_closed
                else if cause_not_found c then refuse 401 ''Invalid refresh token'' else internal_error KeepCookie), d'))"

definition sessionExpired :: "auth_config \<Rightarrow> refresh_token \<Rightarrow> gtime \<Rightarrow> bool" where
  "sessionExpired cfg r now \<longleftrightarrow> sessionDeadline cfg (SessionStart r) \<noteq> zero_time \<and> sessionDeadline cfg (SessionStart r) < now"

definition withinReuseGrace :: "auth_config \<Rightarrow> refresh_token \<Rightarrow> gtime \<Rightarrow> bool" where
  "withinReuseGrace cfg r now =
     (if af_refresh_reuse_grace cfg \<le> 0 then False
      else (case rt_rotated_at r of
              None \<Rightarrow> False
            | Some rot \<Rightarrow> if af_refresh_reuse_grace cfg < Time_Sub now rot then False else \<not> sessionExpired cfg r now))"

datatype recheck_error = RecheckDisabled | RecheckGone | RecheckFailed db_cause

definition recheckUserActive :: "'s auth_io \<Rightarrow> auth_site \<Rightarrow> string \<Rightarrow> 's auth_db \<Rightarrow> recheck_error option \<times> 's auth_db" where
  "recheckUserActive io site userID d =
     (case find_user io site userID d of
        (Inr u, d') \<Rightarrow> (if us_disabled u then Some RecheckDisabled else None, d')
      | (Inl e, d') \<Rightarrow>
          (if isNotFoundError e then Some RecheckGone
           else Some (RecheckFailed (case error_cause e of Some c \<Rightarrow> c | None \<Rightarrow> ErrDriver [])), d'))"

datatype session_check = SessionLive | SessionGone | SessionUnknown db_cause

definition recheckSessionActive :: "'s auth_io \<Rightarrow> auth_site \<Rightarrow> string \<Rightarrow> 's auth_db \<Rightarrow> session_check \<times> 's auth_db" where
  "recheckSessionActive io site family d =
     (case ask io site (\<lambda>flt now d. CountActiveInFamily flt now family (ad_tokens d)) d of
        (Inl c, d') \<Rightarrow> (SessionUnknown c, d')
      | (Inr n, d') \<Rightarrow> (if n = 0 then SessionGone else SessionLive, d'))"

definition rejectRefreshAfterRecheck :: "'s auth_io \<Rightarrow> string \<Rightarrow> recheck_error \<Rightarrow> 's auth_db \<Rightarrow> answer \<times> 's auth_db" where
  "rejectRefreshAfterRecheck io userID e d =
     (if e = RecheckFailed context_error then (client_closed, d)
      else (case e of RecheckDisabled \<Rightarrow> refuse 403 ''Account disabled''
              | RecheckGone \<Rightarrow> refuse 401 ''Invalid refresh token''
              | RecheckFailed _ \<Rightarrow> internal_error ClearCookie,
            snd (revoke_call io RecheckRevoke (\<lambda>flt. RevokeAllForUser flt userID) d)))"

definition rejectRefreshAfterSessionCheck :: "session_check \<Rightarrow> answer" where
  "rejectRefreshAfterSessionCheck r =
     (case r of SessionUnknown c \<Rightarrow> if c = context_error then client_closed else internal_error ClearCookie
        | _ \<Rightarrow> refuse 401 ''Session revoked'')"

definition authProviderOf :: "user \<Rightarrow> string" where
  "authProviderOf u = (if us_auth_provider u = [] then ''local'' else us_auth_provider u)"

definition sessionAccessToken :: "'s auth_handler \<Rightarrow> 's auth_io \<Rightarrow> user \<Rightarrow> string \<Rightarrow> claims option" where
  "sessionAccessToken h io u sessionID =
     (case ai_fault io Sign of
        Some _ \<Rightarrow> None
      | None \<Rightarrow> Some (GenerateTokenWithOpts (ai_now io Sign) (ai_jti io) (af_access_token_expiration (ah_config h)) u (authProviderOf u) sessionID))"

text \<open>The end of a refresh: sign the access token, then ask again for the user and the session.\<close>

definition hand_out :: "'s auth_handler \<Rightarrow> 's auth_io \<Rightarrow> user \<Rightarrow> string \<Rightarrow> cookie \<Rightarrow> 's auth_db \<Rightarrow> answer \<times> 's auth_db" where
  "hand_out h io u family c d =
     (case sessionAccessToken h io u family of
        None \<Rightarrow> (internal_error KeepCookie, d)
      | Some token \<Rightarrow>
          (case recheckUserActive io RecheckUser (us_id u) d of
             (Some e, d1) \<Rightarrow> rejectRefreshAfterRecheck io (us_id u) e d1
           | (None, d1) \<Rightarrow>
               (case recheckSessionActive io RecheckSession family d1 of
                  (SessionLive, d2) \<Rightarrow> (answer 200 (AccessToken token) c, d2)
                | (r, d2) \<Rightarrow> (rejectRefreshAfterSessionCheck r, d2))))"

abbreviation respondGraceRefresh :: "'s auth_handler \<Rightarrow> 's auth_io \<Rightarrow> user \<Rightarrow> string \<Rightarrow> 's auth_db \<Rightarrow> answer \<times> 's auth_db" where
  "respondGraceRefresh h io u family \<equiv> hand_out h io u family KeepCookie"

definition tryGraceRefresh :: "'s auth_handler \<Rightarrow> 's auth_io \<Rightarrow> refresh_token \<Rightarrow> 's auth_db \<Rightarrow> answer option \<times> 's auth_db" where
  "tryGraceRefresh h io stored d =
     (let family = SessionFamily stored
      in case find_user io GraceUser (rt_user_id stored) d of
           (Inl e, d1) \<Rightarrow>
             (if user_cancelled e then Some client_closed else if \<not> isNotFoundError e then Some (internal_error KeepCookie) else None, d1)
         | (Inr u, d1) \<Rightarrow>
             if us_disabled u then (None, d1)
             else (case ask io GraceCount (\<lambda>flt now d. CountActiveInFamily flt now family (ad_tokens d)) d1 of
                     (Inl c, d2) \<Rightarrow> (Some (if c = context_error then client_closed else internal_error KeepCookie), d2)
                   | (Inr n, d2) \<Rightarrow>
                       if n = 0 then (None, d2)
                       else (case rejectBlockedSession h io GraceBlocked GraceRevokeBlocked family d2 of
                               (Some a, d3) \<Rightarrow> (Some a, d3)
                             | (None, d3) \<Rightarrow> (let r = respondGraceRefresh h io u family d3 in (Some (fst r), snd r)))))"

definition replayed :: "'s auth_handler \<Rightarrow> 's auth_io \<Rightarrow> refresh_token \<Rightarrow> 's auth_db \<Rightarrow> answer \<times> 's auth_db" where
  "replayed h io stored d =
     (let family = SessionFamily stored; r = revoke_call io ReplayRevoke (\<lambda>flt. RevokeFamily flt family) d
      in (refuse 401 ''Invalid refresh token'',
          blockSessions h io [\<lparr>sb_id = family, sb_user_id = [], sb_revoke_failed = failed (fst r)\<rparr>] (snd r)))"

definition refreshConsumedToken :: "'s auth_handler \<Rightarrow> 's auth_io \<Rightarrow> refresh_token \<Rightarrow> gtime \<Rightarrow> 's auth_db \<Rightarrow> answer \<times> 's auth_db" where
  "refreshConsumedToken h io stored now d =
     (if \<not> withinReuseGrace (ah_config h) stored now then replayed h io stored d
      else (case tryGraceRefresh h io stored d of
              (Some a, d') \<Rightarrow> (a, d')
            | (None, d') \<Rightarrow> replayed h io stored d'))"

definition rotate_call :: "'s auth_handler \<Rightarrow> 's auth_io \<Rightarrow> gtime \<Rightarrow> string \<Rightarrow> refresh_token \<Rightarrow> 's auth_db \<Rightarrow> (rotate_error + string \<times> gtime) \<times> 's auth_db" where
  "rotate_call h io now userID stored =
     call io Rotate (\<lambda>flt _ d. let r = rotate_token (ah_config h) (ai_input io) now userID stored (ad_tokens d)
       in (fst r, d\<lparr>ad_tokens := snd r, ad_drawn := insert (tx_uuid (ai_input io)) (ad_drawn d)\<rparr>))"

definition refresh_active :: "'s auth_handler \<Rightarrow> 's auth_io \<Rightarrow> gtime \<Rightarrow> refresh_token \<Rightarrow> user \<Rightarrow> 's auth_db \<Rightarrow> answer \<times> 's auth_db" where
  "refresh_active h io now stored u d =
     (case rotate_call h io now (us_id u) stored d of
        (Inl RefreshTokenConsumed, d1) \<Rightarrow>
          (case findRefreshToken io FindAgain (rt_token_hash stored) d1 of
             (Inl a, d2) \<Rightarrow> (a, d2)
           | (Inr latest, d2) \<Rightarrow> refreshConsumedToken h io latest now d2)
      | (Inl (RotateFailed _), d1) \<Rightarrow> (internal_error KeepCookie, d1)
      | (Inr (raw, e), d1) \<Rightarrow> hand_out h io u (SessionFamily stored) (SetCookie raw e) d1)"

definition refresh_found :: "'s auth_handler \<Rightarrow> 's auth_io \<Rightarrow> refresh_token \<Rightarrow> 's auth_db \<Rightarrow> answer \<times> 's auth_db" where
  "refresh_found h io stored d =
     (let now = ai_now io Decide; family = SessionFamily stored
      in if rt_revoked stored then refreshConsumedToken h io stored now d
         else if rt_expires_at stored < now then (refuse 401 ''Refresh token expired'', d)
         else if sessionExpired (ah_config h) stored now
              then (refuse 401 ''Session expired'', snd (revoke_call io RevokeExpired (\<lambda>flt. RevokeFamily flt family) d))
         else if af_session_idle_timeout (ah_config h) < Time_Sub now (rt_last_activity stored)
              then (refuse 401 ''Session idle timeout exceeded'', snd (revoke_call io RevokeIdle (\<lambda>flt. RevokeByID flt (rt_id stored)) d))
         else (case rejectBlockedSession h io IsBlocked RevokeBlocked family d of
                 (Some a, d1) \<Rightarrow> (a, d1)
               | (None, d1) \<Rightarrow>
                   (case find_user io FindUser (rt_user_id stored) d1 of
                      (Inl e, d2) \<Rightarrow> (if user_cancelled e then client_closed else answer 401 (ErrorText ''Invalid refresh token'') KeepCookie, d2)
                    | (Inr u, d2) \<Rightarrow>
                        if us_disabled u
                        then (refuse 403 ''Account disabled'', snd (revoke_call io RevokeDisabled (\<lambda>flt. RevokeAllForUser flt (rt_user_id stored)) d2))
                        else refresh_active h io now stored u d2)))"

definition Refresh :: "'s auth_handler \<Rightarrow> 's auth_io \<Rightarrow> string option \<Rightarrow> 's auth_db \<Rightarrow> answer \<times> 's auth_db" where
  "Refresh h io presented d =
     (if \<not> ah_refresh h then (answer 501 (ErrorText ''Refresh tokens are not enabled'') KeepCookie, d)
      else (case presented of
              None \<Rightarrow> (answer 401 (ErrorText ''Refresh token required'') KeepCookie, d)
            | Some raw \<Rightarrow>
                if raw = [] then (answer 401 (ErrorText ''Refresh token required'') KeepCookie, d)
                else (case findRefreshToken io FindToken (ah_hash h raw) d of
                        (Inl a, d1) \<Rightarrow> (a, d1)
                      | (Inr stored, d1) \<Rightarrow> refresh_found h io stored d1)))"

section \<open>Logout\<close>

definition bearerClaims :: "(string \<rightharpoonup> claims) \<Rightarrow> gtime \<Rightarrow> string \<Rightarrow> claims option" where
  "bearerClaims verify now header = (case bearer_token header of None \<Rightarrow> None | Some token \<Rightarrow> ValidateJWT verify now token)"

definition cookie_sessions :: "'s auth_handler \<Rightarrow> 's auth_io \<Rightarrow> string option \<Rightarrow> 's auth_db \<Rightarrow> (session_to_block list \<times> bool) \<times> 's auth_db" where
  "cookie_sessions h io presented d =
     (case presented of
        None \<Rightarrow> (([], False), d)
      | Some raw \<Rightarrow>
          if raw = [] then (([], False), d)
          else (case ask io LogoutFind (\<lambda>flt now d. FindByTokenHash flt (ah_hash h raw) (ad_tokens d)) d of
                  (Inr r, d') \<Rightarrow> (([\<lparr>sb_id = SessionFamily r, sb_user_id = rt_user_id r, sb_revoke_failed = False\<rparr>], False), d')
                | (Inl c, d') \<Rightarrow> (([], \<not> cause_not_found c), d')))"

definition add_bearer :: "claims option \<Rightarrow> session_to_block list \<Rightarrow> session_to_block list" where
  "add_bearer bearer sessions =
     (case bearer of
        None \<Rightarrow> sessions
      | Some c \<Rightarrow>
          if cl_session_id c \<noteq> [] \<and> (case sessions of [] \<Rightarrow> True | x # _ \<Rightarrow> sb_id x \<noteq> cl_session_id c)
          then sessions @ [\<lparr>sb_id = cl_session_id c, sb_user_id = cl_user_id c, sb_revoke_failed = False\<rparr>] else sessions)"

definition revoke_session :: "'s auth_io \<Rightarrow> auth_site \<Rightarrow> session_to_block \<Rightarrow> 's auth_db \<Rightarrow> (db_cause + nat) \<times> 's auth_db" where
  "revoke_session io site x =
     revoke_call io site (\<lambda>flt. if sb_user_id x \<noteq> [] then RevokeFamilyForUser flt (sb_id x) (sb_user_id x) else RevokeFamily flt (sb_id x))"

fun revoke_sessions :: "'s auth_io \<Rightarrow> nat \<Rightarrow> session_to_block list \<Rightarrow> 's auth_db \<Rightarrow> session_to_block list \<times> 's auth_db" where
  "revoke_sessions io n [] d = ([], d)"
| "revoke_sessions io n (x # xs) d =
     (let r = revoke_session io (LogoutRevoke n) x d; rest = revoke_sessions io (Suc n) xs (snd r)
      in (x\<lparr>sb_revoke_failed := failed (fst r)\<rparr> # fst rest, snd rest))"

definition revokeLogoutSessions ::
  "'s auth_handler \<Rightarrow> 's auth_io \<Rightarrow> string option \<Rightarrow> claims option \<Rightarrow> 's auth_db \<Rightarrow> (session_to_block list \<times> bool) \<times> 's auth_db" where
  "revokeLogoutSessions h io presented bearer d =
     (if \<not> ah_refresh h then (([], False), d)
      else (let found = cookie_sessions h io presented d;
                r = revoke_sessions io 0 (add_bearer bearer (fst (fst found))) (snd found)
            in ((fst r, snd (fst found) \<or> list_ex sb_revoke_failed (fst r)), snd r)))"

definition store_call :: "'s auth_handler \<Rightarrow> 's auth_io \<Rightarrow> auth_site \<Rightarrow> (gtime \<Rightarrow> store_op) \<Rightarrow> 's auth_db \<Rightarrow> 's auth_db" where
  "store_call h io site op d =
     (case ah_store h of
        None \<Rightarrow> d
      | Some ops \<Rightarrow> (let d' = ai_env io site d; now = ai_now io site
                    in d'\<lparr>ad_store := so_step ops now (ai_batch_fault io site) (op now) (ad_store d')\<rparr>))"

definition disconnect :: "'s auth_handler \<Rightarrow> ws_request \<Rightarrow> 's auth_db \<Rightarrow> 's auth_db" where
  "disconnect h r d = (if ah_sockets h then d\<lparr>ad_sockets := ad_sockets d @ [r]\<rparr> else d)"

definition block_bearer :: "'s auth_handler \<Rightarrow> 's auth_io \<Rightarrow> string \<Rightarrow> gtime option \<Rightarrow> 's auth_db \<Rightarrow> 's auth_db" where
  "block_bearer h io jti expiry =
     store_call h io BlockBearer (\<lambda>now. OpBlockToken jti (case expiry of Some e \<Rightarrow> e | None \<Rightarrow> now + af_access_token_expiration (ah_config h)))"

definition Logout :: "'s auth_handler \<Rightarrow> 's auth_io \<Rightarrow> string option \<Rightarrow> claims option \<Rightarrow> 's auth_db \<Rightarrow> answer \<times> 's auth_db" where
  "Logout h io presented bearer d =
     (let r = revokeLogoutSessions h io presented bearer d;
          d1 = blockSessions h io (fst (fst r)) (snd r);
          d2 = (case bearer of
                  None \<Rightarrow> d1
                | Some c \<Rightarrow> if cl_id c = [] then d1 else disconnect h (DisconnectToken (cl_id c)) (block_bearer h io (cl_id c) (cl_expires_at c) d1))
      in (if snd (fst r) then internal_error ClearCookie else answer 200 (Message ''Logged out successfully'') ClearCookie, d2))"

section \<open>Logout of all sessions\<close>

definition sessionListWindow :: "auth_config \<Rightarrow> duration" where
  "sessionListWindow cfg = af_access_token_expiration cfg + sessionBlockSkew + af_refresh_reuse_grace cfg"

definition CleanupExpiredTokens :: "'s auth_handler \<Rightarrow> 's auth_io \<Rightarrow> 's auth_db \<Rightarrow> 's auth_db" where
  "CleanupExpiredTokens h io d =
     (if \<not> ah_refresh h then d
      else snd (call io CleanupTokens (\<lambda>flt now. on_tokens (\<lambda>flt. DeleteExpired flt (now - sessionListWindow (ah_config h))) flt now) d))"

definition distinct_sessions :: "string list \<Rightarrow> session_to_block list" where
  "distinct_sessions ids = map (\<lambda>i. \<lparr>sb_id = i, sb_user_id = [], sb_revoke_failed = False\<rparr>) (dedup (filter (\<lambda>i. i \<noteq> []) ids))"

definition recentSessionsToBlock :: "'s auth_handler \<Rightarrow> 's auth_io \<Rightarrow> string \<Rightarrow> string \<Rightarrow> 's auth_db \<Rightarrow> session_to_block list \<times> 's auth_db" where
  "recentSessionsToBlock h io userID sid d =
     (if \<not> ah_refresh h then (distinct_sessions [sid], d)
      else (let r = ask io ListFamilies (\<lambda>flt now d. ListRecentFamiliesForUser flt userID (now - sessionListWindow (ah_config h)) (ad_tokens d)) d
            in (distinct_sessions ((case fst r of Inl _ \<Rightarrow> [] | Inr fs \<Rightarrow> fs) @ [sid]), snd r)))"

definition userBlockTTL :: "duration \<Rightarrow> duration \<Rightarrow> duration" where
  "userBlockTTL accessTokenExpiration jwtExpiration = (let ttl = max accessTokenExpiration jwtExpiration in if ttl \<le> 0 then 24 * Hour else ttl)"

definition block_user :: "'s auth_handler \<Rightarrow> 's auth_io \<Rightarrow> auth_site \<Rightarrow> string \<Rightarrow> 's auth_db \<Rightarrow> 's auth_db" where
  "block_user h io site userID =
     store_call h io site
       (\<lambda>now. OpBlockUser userID (now + userBlockTTL (af_access_token_expiration (ah_config h)) (af_jwt_expiration (ah_config h))))"

text \<open>The claims of the authenticated request: with an API key its token and session are empty.\<close>

definition LogoutAll :: "'s auth_handler \<Rightarrow> 's auth_io \<Rightarrow> claims \<Rightarrow> 's auth_db \<Rightarrow> answer \<times> 's auth_db" where
  "LogoutAll h io c d =
     (if cl_user_id c = [] then (answer 401 (ErrorText ''Authentication required'') KeepCookie, d)
      else (let r = (if ah_refresh h then revoke_call io RevokeAll (\<lambda>flt. RevokeAllForUser flt (cl_user_id c)) d else (Inr 0, d));
                l = recentSessionsToBlock h io (cl_user_id c) (cl_session_id c) (snd r);
                d1 = blockSessions h io (map (\<lambda>x. x\<lparr>sb_revoke_failed := failed (fst r)\<rparr>) (fst l)) (snd l);
                d2 = block_user h io BlockUserAll (cl_user_id c) d1;
                d3 = (if cl_id c = [] then d2 else block_bearer h io (cl_id c) (cl_expires_at c) d2);
                d4 = disconnect h (DisconnectUser (cl_user_id c)) d3
            in (if failed (fst r) then internal_error ClearCookie else answer 200 (Message ''Logged out from all sessions'') ClearCookie, d4)))"

section \<open>The access of a user\<close>

definition revokeUserAccess :: "'s auth_handler \<Rightarrow> 's auth_io \<Rightarrow> string \<Rightarrow> bool \<Rightarrow> 's auth_db \<Rightarrow> 's auth_db" where
  "revokeUserAccess h io userID deleteAPIKeys d =
     (let d1 = (if ah_refresh h then snd (revoke_call io RevokeAll (\<lambda>flt. RevokeAllForUser flt userID) d) else d);
          d2 = block_user h io UserBlock userID d1;
          d3 = (if deleteAPIKeys
                then snd (call io DeleteKeys (\<lambda>flt now d. let r = key_DeleteAllForUser flt userID (ad_api_keys d) in (fst r, d\<lparr>ad_api_keys := snd r\<rparr>)) d2) else d2)
      in disconnect h (DisconnectUser userID) d3)"

section \<open>Steps of all requests\<close>

text \<open>\<open>clk\<close> bounds the clocks of the cleanups of the session store.\<close>

inductive auth_step :: "'s store_ops option \<Rightarrow> auth_config \<Rightarrow> (gtime \<Rightarrow> bool) \<Rightarrow> 's auth_db \<Rightarrow> 's auth_db \<Rightarrow> bool" for store cfg clk where
  token_write: "token_step cfg (ad_tokens d, ad_drawn d) (t, U) \<Longrightarrow> auth_step store cfg clk d (d\<lparr>ad_tokens := t, ad_drawn := U\<rparr>)"
| store_write: "store = Some ops \<Longrightarrow> (op = OpCleanup \<Longrightarrow> clk now) \<Longrightarrow>
    auth_step store cfg clk d (d\<lparr>ad_store := so_step ops now flt op (ad_store d)\<rparr>)"
| other_write: "auth_step store cfg clk d (d\<lparr>ad_accounts := a, ad_api_keys := k, ad_sockets := w\<rparr>)"

definition auth_ok :: "auth_config \<Rightarrow> 's auth_db \<Rightarrow> bool" where
  "auth_ok cfg d \<longleftrightarrow> tokens_ok cfg (ad_tokens d, ad_drawn d)"

lemma auth_steps_tokens:
  "(auth_step store cfg clk)\<^sup>*\<^sup>* d d' \<Longrightarrow> (token_step cfg)\<^sup>*\<^sup>* (ad_tokens d, ad_drawn d) (ad_tokens d', ad_drawn d')"
proof (induction rule: rtranclp_induct)
  case (step d' d'')
  from step.hyps(2) have "(token_step cfg)\<^sup>*\<^sup>* (ad_tokens d', ad_drawn d') (ad_tokens d'', ad_drawn d'')"
    by cases (auto intro: r_into_rtranclp)
  with step.IH show ?case by (rule rtranclp_trans)
qed simp

interpretation auths: invariant_system "auth_step store cfg clk" "auth_ok cfg" for store cfg clk
  by unfold_locales (auto simp: auth_ok_def elim!: auth_step.cases dest: token_step_ok)

lemma dead_stays: "(auth_step store cfg clk)\<^sup>*\<^sup>* d d' \<Longrightarrow> auth_ok cfg d \<Longrightarrow> dead_family f (ad_tokens d, ad_drawn d) \<Longrightarrow> dead_family f (ad_tokens d', ad_drawn d')"
  using dead.keeps_star [OF auth_steps_tokens, of store cfg clk d d' f] by (simp add: auth_ok_def)

text \<open>The other requests: their writes are steps, and none draws the identifier of this request.\<close>

definition auth_run :: "'s auth_handler \<Rightarrow> (gtime \<Rightarrow> bool) \<Rightarrow> 's auth_db \<Rightarrow> 's auth_db \<Rightarrow> bool" where
  "auth_run h clk = (auth_step (ah_store h) (ah_config h) clk)\<^sup>*\<^sup>*"

definition others :: "'s auth_handler \<Rightarrow> (gtime \<Rightarrow> bool) \<Rightarrow> 's auth_io \<Rightarrow> bool" where
  "others h clk io \<longleftrightarrow> (\<forall>site d. auth_run h clk d (ai_env io site d)
     \<and> (tx_uuid (ai_input io) \<notin> ad_drawn d \<longrightarrow> tx_uuid (ai_input io) \<notin> ad_drawn (ai_env io site d)))"

named_theorems auth_runs \<open>every part of a handler is a sequence of steps\<close>

lemma run_refl [auth_runs]: "auth_run h clk d d"
  by (simp add: auth_run_def)

lemma run_trans: "auth_run h clk d d' \<Longrightarrow> auth_run h clk d' d'' \<Longrightarrow> auth_run h clk d d''"
  by (simp add: auth_run_def)

lemma run_step: "auth_run h clk d d' \<Longrightarrow> auth_step (ah_store h) (ah_config h) clk d' d'' \<Longrightarrow> auth_run h clk d d''"
  by (simp add: auth_run_def)

lemma env_run: "others h clk io \<Longrightarrow> auth_run h clk d (ai_env io site d)"
  by (simp add: others_def)

lemma ask_run [auth_runs]: "others h clk io \<Longrightarrow> auth_run h clk d (snd (ask io site f d))"
  by (simp add: ask_def call_def env_run)

lemma revoke_run:
  assumes "others h clk io" "\<And>flt t. \<exists>flt' p. snd (f flt t) = snd (token_update flt' p revoke t)"
  shows "auth_run h clk d (snd (revoke_call io site f d))"
proof -
  let ?d = "ai_env io site d"
  obtain flt' p where "snd (f (ai_fault io site) (ad_tokens ?d)) = snd (token_update flt' p revoke (ad_tokens ?d))" using assms(2) by blast
  then have r: "snd (revoke_call io site f d) = ?d\<lparr>ad_tokens := snd (token_update flt' p revoke (ad_tokens ?d)), ad_drawn := ad_drawn ?d\<rparr>"
    by (simp add: call_def on_tokens_def Let_def)
  show ?thesis unfolding r using env_run [OF assms(1), of d site] by (rule run_step) (intro token_write revoked)
qed

lemma revokes:
  "\<exists>flt' p. snd (RevokeFamily flt f t) = snd (token_update flt' p revoke t)"
  "\<exists>flt' p. snd (RevokeFamilyForUser flt f u t) = snd (token_update flt' p revoke t)"
  "\<exists>flt' p. snd (RevokeByID flt i t) = snd (token_update flt' p revoke t)"
  "\<exists>flt' p. snd (RevokeAllForUser flt u t) = snd (token_update flt' p revoke t)"
  unfolding RevokeFamily_def RevokeFamilyForUser_def RevokeByID_def RevokeAllForUser_def by blast+

lemmas revoke_runs [auth_runs] = revoke_run [OF _ revokes(1)] revoke_run [OF _ revokes(2)] revoke_run [OF _ revokes(3)] revoke_run [OF _ revokes(4)]

lemma store_run:
  assumes "others h clk io" "ah_store h = Some ops" "op \<noteq> OpCleanup"
  shows "auth_run h clk d ((ai_env io site d)\<lparr>ad_store := so_step ops now flt op (ad_store (ai_env io site d))\<rparr>)"
  using env_run [OF assms(1), of d site] by (rule run_step) (use assms(2,3) in \<open>auto intro: store_write\<close>)

lemma block_batch_run: "others h clk io \<Longrightarrow> ah_store h = Some ops \<Longrightarrow> auth_run h clk d (block_batch ops io site until ids d)"
  by (auto simp: block_batch_def Let_def intro: store_run run_refl)

lemma blockSessions_run [auth_runs]: "others h clk io \<Longrightarrow> auth_run h clk d (blockSessions h io ss d)"
  by (cases "ah_store h") (auto simp: blockSessions_def intro: run_trans block_batch_run run_refl)

text \<open>A call that ends in one of its results: its run, and then the run of what follows.\<close>

lemma run_case_sum:
  assumes "auth_run h clk d (snd r)" "\<And>x. fst r = Inl x \<Longrightarrow> auth_run h clk (snd r) (snd (f x (snd r)))" "\<And>y. fst r = Inr y \<Longrightarrow> auth_run h clk (snd r) (snd (g y (snd r)))"
  shows "auth_run h clk d (snd (case r of (Inl x, d') \<Rightarrow> f x d' | (Inr y, d') \<Rightarrow> g y d'))"
  using assms by (cases r; cases "fst r") (auto intro: run_trans)

lemma run_case_option:
  assumes "auth_run h clk d (snd r)" "fst r = None \<Longrightarrow> auth_run h clk (snd r) (snd (f (snd r)))" "\<And>y. fst r = Some y \<Longrightarrow> auth_run h clk (snd r) (snd (g y (snd r)))"
  shows "auth_run h clk d (snd (case r of (None, d') \<Rightarrow> f d' | (Some y, d') \<Rightarrow> g y d'))"
  using assms by (cases r; cases "fst r") (auto intro: run_trans)

lemma rejectBlockedSession_run [auth_runs]: "others h clk io \<Longrightarrow> auth_run h clk d (snd (rejectBlockedSession h io s s' f d))"
  unfolding rejectBlockedSession_def
  by (cases "ah_store h") (auto simp: auth_runs intro!: run_case_sum run_refl auth_runs)

lemma findRefreshToken_run [auth_runs]: "others h clk io \<Longrightarrow> auth_run h clk d (snd (findRefreshToken io s hash d))"
  unfolding findRefreshToken_def by (rule run_case_sum) (simp_all add: auth_runs)

lemma find_user_run [auth_runs]: "others h clk io \<Longrightarrow> auth_run h clk d (snd (find_user io s i d))"
  unfolding find_user_def by (rule ask_run)

lemma recheckUserActive_run [auth_runs]: "others h clk io \<Longrightarrow> auth_run h clk d (snd (recheckUserActive io s i d))"
  unfolding recheckUserActive_def by (rule run_case_sum) (simp_all add: auth_runs)

lemma recheckSessionActive_run [auth_runs]: "others h clk io \<Longrightarrow> auth_run h clk d (snd (recheckSessionActive io s f d))"
  unfolding recheckSessionActive_def by (rule run_case_sum) (simp_all add: auth_runs)

lemma rejectRefreshAfterRecheck_run [auth_runs]: "others h clk io \<Longrightarrow> auth_run h clk d (snd (rejectRefreshAfterRecheck io u e d))"
  by (simp add: rejectRefreshAfterRecheck_def auth_runs)

lemma hand_out_run [auth_runs]:
  assumes "others h clk io"
  shows "auth_run h clk d (snd (hand_out h io u f c d))"
proof (cases "sessionAccessToken h io u f")
  case (Some token)
  have "auth_run h clk d1 (snd (case recheckSessionActive io RecheckSession f d1 of (SessionLive, d2) \<Rightarrow> (answer 200 (AccessToken token) c, d2)
        | (r, d2) \<Rightarrow> (rejectRefreshAfterSessionCheck r, d2)))" for d1
    using recheckSessionActive_run [OF assms, of d1 RecheckSession f] by (auto split: prod.split session_check.split)
  then show ?thesis unfolding hand_out_def Some option.case
    by (intro run_case_option) (simp_all add: auth_runs assms)
qed (simp add: hand_out_def auth_runs)

lemma tryGraceRefresh_run [auth_runs]:
  assumes "others h clk io"
  shows "auth_run h clk d (snd (tryGraceRefresh h io stored d))"
  unfolding tryGraceRefresh_def Let_def
  by (intro run_case_sum run_case_option conjI; simp add: auth_runs assms; intro conjI impI run_case_sum run_case_option; simp add: auth_runs assms;
      intro conjI impI run_case_sum run_case_option; simp add: auth_runs assms)

lemma replayed_run [auth_runs]: "others h clk io \<Longrightarrow> auth_run h clk d (snd (replayed h io stored d))"
  unfolding replayed_def Let_def by (auto intro: run_trans auth_runs)

lemma refreshConsumedToken_run [auth_runs]: "others h clk io \<Longrightarrow> auth_run h clk d (snd (refreshConsumedToken h io stored now d))"
  unfolding refreshConsumedToken_def by (auto intro!: run_case_option auth_runs)

text \<open>A rotation is a step when the request works on a copy of the row and draws a fresh identifier.\<close>

definition fresh_request :: "'s auth_io \<Rightarrow> 's auth_db \<Rightarrow> bool" where
  "fresh_request io d \<longleftrightarrow> tx_uuid (ai_input io) \<notin> ad_drawn d \<and> tx_uuid (ai_input io) \<noteq> [] \<and> 0 < tx_now (ai_input io)"

definition has_copy :: "auth_config \<Rightarrow> refresh_token \<Rightarrow> 's auth_db \<Rightarrow> bool" where
  "has_copy cfg stored d \<longleftrightarrow> auth_ok cfg d \<and> rt_id stored \<in> ad_drawn d \<and> copy_of stored (ad_tokens d)"

lemma has_copy_run:
  assumes "auth_run h clk d d'" "has_copy (ah_config h) stored d"
  shows "has_copy (ah_config h) stored d'"
proof -
  have s: "(auth_step (ah_store h) (ah_config h) clk)\<^sup>*\<^sup>* d d'" using assms(1) by (simp add: auth_run_def)
  show ?thesis
    using copy_stays [OF auth_steps_tokens [OF s], of stored] auths.keeps_star [OF s] assms(2) by (simp add: has_copy_def auth_ok_def)
qed

lemma rotate_run:
  assumes "others h clk io" "has_copy (ah_config h) stored d" "fresh_request io d" "EqualFold userID (rt_user_id stored)"
  shows "auth_run h clk d (snd (rotate_call h io now userID stored d))"
proof -
  let ?d = "ai_env io Rotate d"
  have e: "auth_run h clk d ?d" "tx_uuid (ai_input io) \<notin> ad_drawn ?d" using assms(1,3) by (simp_all add: others_def fresh_request_def)
  from has_copy_run [OF e(1) assms(2)] have c: "copy_of stored (ad_tokens ?d)" by (simp add: has_copy_def)
  have r: "snd (rotate_call h io now userID stored d)
    = ?d\<lparr>ad_tokens := snd (rotate_token (ah_config h) (ai_input io) now userID stored (ad_tokens ?d)), ad_drawn := insert (tx_uuid (ai_input io)) (ad_drawn ?d)\<rparr>"
    by (simp add: rotate_call_def call_def Let_def)
  show ?thesis unfolding r using e(1)
    by (rule run_step) (intro token_write rotated c e(2); use assms(3,4) in \<open>simp add: fresh_request_def\<close>)
qed

lemma refresh_active_run:
  assumes "others h clk io" "has_copy (ah_config h) stored d" "fresh_request io d" "EqualFold (us_id u) (rt_user_id stored)"
  shows "auth_run h clk d (snd (refresh_active h io now stored u d))"
proof -
  let ?r = "rotate_call h io now (us_id u) stored d"
  have r: "auth_run h clk d (snd ?r)" using assms by (rule rotate_run)
  have f: "auth_run h clk d1 (snd (case findRefreshToken io FindAgain hash d1 of (Inl a, d2) \<Rightarrow> (a, d2) | (Inr latest, d2) \<Rightarrow> refreshConsumedToken h io latest now d2))" for d1 hash
    by (rule run_case_sum) (simp_all add: auth_runs assms(1))
  show ?thesis
  proof (cases "fst ?r")
    case (Inl e)
    with r f show ?thesis unfolding refresh_active_def
      by (cases ?r; cases e) (auto intro: run_trans)
  next
    case (Inr x)
    with r hand_out_run [OF assms(1)] show ?thesis unfolding refresh_active_def
      by (cases ?r; cases x) (auto intro: run_trans)
  qed
qed

lemma fresh_run: "others h clk io \<Longrightarrow> fresh_request io d \<Longrightarrow> fresh_request io (snd (ask io s f d))"
  by (simp add: ask_def call_def others_def fresh_request_def)

lemma fresh_drawn: "fresh_request io d \<Longrightarrow> ad_drawn d' = ad_drawn d \<Longrightarrow> fresh_request io d'"
  by (simp add: fresh_request_def)

lemma fresh_revoke: "others h clk io \<Longrightarrow> fresh_request io d \<Longrightarrow> fresh_request io (snd (revoke_call io s f d))"
  by (simp add: call_def on_tokens_def Let_def others_def fresh_request_def)

lemma fresh_reject:
  assumes "others h clk io" "fresh_request io d"
  shows "fresh_request io (snd (rejectBlockedSession h io s s' f d))"
proof (cases "ah_store h")
  case None
  with assms(2) show ?thesis by (simp add: rejectBlockedSession_def)
next
  case (Some ops)
  let ?r = "ask io s (\<lambda>flt now d. so_IsSessionBlocked ops flt now f (ad_store d)) d"
  have r: "fresh_request io (snd ?r)" using assms by (rule fresh_run)
  show ?thesis
  proof (cases "fst ?r")
    case (Inl c)
    with Some r show ?thesis unfolding rejectBlockedSession_def by (cases ?r) simp
  next
    case (Inr b)
    with Some r fresh_revoke [OF assms(1) r] show ?thesis unfolding rejectBlockedSession_def by (cases ?r) simp
  qed
qed

lemma found_user: "user_FindByID flt i a = Inr u \<Longrightarrow> EqualFold (us_id u) i"
  by (auto simp: user_FindByID_def EqualFold_def user_key_def split: option.splits dest!: row_of_SomeD)

lemma refresh_found_run:
  assumes "others h clk io" "has_copy (ah_config h) stored d" "fresh_request io d"
  shows "auth_run h clk d (snd (refresh_found h io stored d))"
proof -
  let ?r1 = "rejectBlockedSession h io IsBlocked RevokeBlocked (SessionFamily stored) d"
  let ?rest = "\<lambda>d1. case find_user io FindUser (rt_user_id stored) d1 of
      (Inl e, d2) \<Rightarrow> (if user_cancelled e then client_closed else answer 401 (ErrorText ''Invalid refresh token'') KeepCookie, d2)
    | (Inr u, d2) \<Rightarrow> if us_disabled u
        then (refuse 403 ''Account disabled'', snd (revoke_call io RevokeDisabled (\<lambda>flt. RevokeAllForUser flt (rt_user_id stored)) d2))
        else refresh_active h io (ai_now io Decide) stored u d2"
  have r1: "auth_run h clk d (snd ?r1)" "fresh_request io (snd ?r1)" using assms(1,3) by (simp_all add: auth_runs fresh_reject)
  have c1: "has_copy (ah_config h) stored (snd ?r1)" using r1(1) assms(2) by (rule has_copy_run)
  have "auth_run h clk (snd ?r1) (snd (?rest (snd ?r1)))"
  proof (rule run_case_sum)
    show u: "auth_run h clk (snd ?r1) (snd (find_user io FindUser (rt_user_id stored) (snd ?r1)))" by (simp add: auth_runs assms(1))
    fix u assume "fst (find_user io FindUser (rt_user_id stored) (snd ?r1)) = Inr u"
    then have "EqualFold (us_id u) (rt_user_id stored)" using found_user by (auto simp: find_user_def ask_def call_def)
    moreover have "fresh_request io (snd (find_user io FindUser (rt_user_id stored) (snd ?r1)))"
      unfolding find_user_def using assms(1) r1(2) by (rule fresh_run)
    ultimately show "auth_run h clk (snd (find_user io FindUser (rt_user_id stored) (snd ?r1))) (snd (if us_disabled u
        then (refuse 403 ''Account disabled'', snd (revoke_call io RevokeDisabled (\<lambda>flt. RevokeAllForUser flt (rt_user_id stored))
          (snd (find_user io FindUser (rt_user_id stored) (snd ?r1)))))
        else refresh_active h io (ai_now io Decide) stored u (snd (find_user io FindUser (rt_user_id stored) (snd ?r1)))))"
      using refresh_active_run [OF assms(1) has_copy_run [OF u c1]] by (simp add: auth_runs assms(1))
  qed (simp add: run_refl)
  then have "auth_run h clk d (snd (case ?r1 of (Some a, d1) \<Rightarrow> (a, d1) | (None, d1) \<Rightarrow> ?rest d1))"
    by (intro run_case_option r1(1)) (simp_all add: run_refl)
  then show ?thesis unfolding refresh_found_def Let_def by (simp add: auth_runs assms(1))
qed

text \<open>Every refresh is a sequence of steps, whatever fails and whatever others do meanwhile.\<close>

lemma Refresh_run:
  assumes "others h clk io" "auth_ok (ah_config h) d" "fresh_request io d"
  shows "auth_run h clk d (snd (Refresh h io presented d))"
proof -
  let ?r = "\<lambda>raw. findRefreshToken io FindToken (ah_hash h raw) d"
  have "auth_run h clk d (snd (case ?r raw of (Inl a, d1) \<Rightarrow> (a, d1) | (Inr stored, d1) \<Rightarrow> refresh_found h io stored d1))" for raw
  proof (rule run_case_sum)
    show r: "auth_run h clk d (snd (?r raw))" by (simp add: auth_runs assms(1))
    let ?d = "ai_env io FindToken d"
    have d: "snd (?r raw) = ?d" by (simp add: findRefreshToken_def ask_def call_def split: sum.split)
    have ok: "auth_ok (ah_config h) ?d"
      using auths.keeps_star [of "ah_store h" "ah_config h" clk d ?d] env_run [OF assms(1), of d FindToken] assms(2) by (simp add: auth_run_def)
    fix stored assume "fst (?r raw) = Inr stored"
    then have "FindByTokenHash (ai_fault io FindToken) (ah_hash h raw) (ad_tokens ?d) = Inr stored"
      by (auto simp: findRefreshToken_def ask_def call_def split: sum.splits)
    from found_copy [OF ok [unfolded auth_ok_def] this] have "has_copy (ah_config h) stored ?d" using ok by (simp add: has_copy_def)
    moreover have "fresh_request io ?d" using assms(1,3) by (simp add: others_def fresh_request_def)
    ultimately show "auth_run h clk (snd (?r raw)) (snd (refresh_found h io stored (snd (?r raw))))"
      unfolding d by (rule refresh_found_run [OF assms(1)])
  qed (simp add: run_refl)
  then show ?thesis unfolding Refresh_def by (simp add: auth_runs split: option.split)
qed

section \<open>What an access token proves\<close>

text \<open>An access token in an answer satisfies \<open>Q\<close>, a property of its claims and of the state when the answer leaves.\<close>

definition granted :: "(claims \<Rightarrow> 's auth_db \<Rightarrow> bool) \<Rightarrow> answer \<times> 's auth_db \<Rightarrow> bool" where
  "granted Q r \<longleftrightarrow> (\<forall>c. an_body (fst r) = AccessToken c \<longrightarrow> Q c (snd r))"

lemma granted_none: "(\<And>c. an_body a \<noteq> AccessToken c) \<Longrightarrow> granted Q (a, d)"
  by (simp add: granted_def)

lemma granted_sum:
  "(\<And>x d'. r = (Inl x, d') \<Longrightarrow> granted Q (f x d')) \<Longrightarrow> (\<And>y d'. r = (Inr y, d') \<Longrightarrow> granted Q (g y d')) \<Longrightarrow>
   granted Q (case r of (Inl x, d') \<Rightarrow> f x d' | (Inr y, d') \<Rightarrow> g y d')"
  by (cases r; cases "fst r") auto

lemma granted_option:
  "(\<And>d'. r = (None, d') \<Longrightarrow> granted Q (f d')) \<Longrightarrow> (\<And>y d'. r = (Some y, d') \<Longrightarrow> granted Q (g y d')) \<Longrightarrow>
   granted Q (case r of (None, d') \<Rightarrow> f d' | (Some y, d') \<Rightarrow> g y d')"
  by (cases r; cases "fst r") auto

lemma rejects_no_token:
  "an_body (rejectRefreshAfterSessionCheck r) \<noteq> AccessToken c" "an_body (fst (rejectRefreshAfterRecheck io u e d)) \<noteq> AccessToken c"
  by (auto simp: rejectRefreshAfterSessionCheck_def rejectRefreshAfterRecheck_def split: session_check.split recheck_error.split)

lemma rejectBlockedSession_no_token: "rejectBlockedSession h io s s' f d = (Some a, d') \<Longrightarrow> an_body a \<noteq> AccessToken c"
  by (auto simp: rejectBlockedSession_def split: option.splits prod.splits sum.splits if_splits)

lemma findRefreshToken_no_token: "findRefreshToken io s hash d = (Inl a, d') \<Longrightarrow> an_body a \<noteq> AccessToken c"
  by (auto simp: findRefreshToken_def split: prod.splits sum.splits if_splits)

lemma replayed_no_token: "an_body (fst (replayed h io stored d)) \<noteq> AccessToken c"
  by (simp add: replayed_def Let_def)

text \<open>A refresh hands out its tokens in one place: what holds there holds of every refresh.\<close>

locale token_guard =
  fixes h :: "'s auth_handler" and io :: "'s auth_io" and Q :: "claims \<Rightarrow> 's auth_db \<Rightarrow> bool"
  assumes hands: "granted Q (hand_out h io u f c d)"
begin

lemma replayed_granted: "granted Q (replayed h io stored d)"
  by (simp add: granted_def replayed_no_token)

lemma tryGraceRefresh_granted:
  assumes "tryGraceRefresh h io stored d = (Some a, d')"
  shows "granted Q (a, d')"
proof -
  have "granted Q (a, d')" if "(let r = respondGraceRefresh h io u f d3 in (Some (fst r), snd r)) = (Some a, d')" for u f d3
    using that hands [of u f KeepCookie d3] by (auto simp: Let_def)
  then show ?thesis using assms
    by (auto simp: tryGraceRefresh_def granted_none Let_def granted_def rejectBlockedSession_no_token split: prod.splits sum.splits if_splits option.splits)
qed

lemma refreshConsumedToken_granted: "granted Q (refreshConsumedToken h io stored now d)"
  unfolding refreshConsumedToken_def by (auto intro!: granted_option replayed_granted tryGraceRefresh_granted)

lemma refresh_active_granted: "granted Q (refresh_active h io now stored u d)"
proof -
  have "granted Q (case findRefreshToken io FindAgain hash d1 of (Inl a, d2) \<Rightarrow> (a, d2) | (Inr latest, d2) \<Rightarrow> refreshConsumedToken h io latest now d2)" for hash d1
    by (rule granted_sum) (auto intro: granted_none refreshConsumedToken_granted dest: findRefreshToken_no_token)
  moreover obtain r d1 where "rotate_call h io now (us_id u) stored d = (r, d1)" by (cases "rotate_call h io now (us_id u) stored d")
  ultimately show ?thesis unfolding refresh_active_def
    by (cases r) (auto simp: granted_none hands split: rotate_error.split)
qed

lemma refresh_found_granted: "granted Q (refresh_found h io stored d)"
  unfolding refresh_found_def Let_def
  by (auto intro!: granted_option granted_sum granted_none refreshConsumedToken_granted refresh_active_granted split: if_splits
      dest: rejectBlockedSession_no_token)

lemma Refresh_granted: "granted Q (Refresh h io presented d)"
  unfolding Refresh_def
  by (auto intro!: granted_sum granted_none refresh_found_granted split: option.split dest: findRefreshToken_no_token)

end

text \<open>The session of a token that is handed out is active, and its user was enabled at the last read.\<close>

lemma recheck_live:
  assumes "recheckSessionActive io s f d = (SessionLive, d')"
  shows "family_active f (ad_tokens d')"
proof -
  have "CountActiveInFamily (ai_fault io s) (ai_now io s) f (ad_tokens (ai_env io s d)) \<noteq> Inr 0"
    "d' = ai_env io s d" "ai_fault io s = None"
    using assms by (auto simp: recheckSessionActive_def ask_def call_def CountActiveInFamily_def split: sum.splits option.splits if_splits)
  with dead_count show ?thesis by metis
qed

definition locked :: "string \<Rightarrow> accounts \<Rightarrow> bool" where
  "locked userID a \<longleftrightarrow> (\<forall>u\<in>set (ac_users a). EqualFold (us_id u) userID \<longrightarrow> us_disabled u)"

lemma recheck_unlocked:
  assumes "recheckUserActive io s i d = (None, d')"
  shows "\<not> locked i (ad_accounts (ai_env io s d))"
proof -
  obtain u where u: "user_FindByID (ai_fault io s) i (ad_accounts (ai_env io s d)) = Inr u" "\<not> us_disabled u"
    using assms by (auto simp: recheckUserActive_def find_user_def ask_def call_def split: sum.splits if_splits)
  then have "u \<in> set (ac_users (ad_accounts (ai_env io s d)))" "EqualFold (us_id u) i"
    by (auto simp: user_FindByID_def EqualFold_def user_key_def split: option.splits dest!: row_of_SomeD)
  with u(2) show ?thesis by (auto simp: locked_def)
qed

lemma hand_out_token:
  assumes "hand_out h io u f c d = (a, d')" "an_body a = AccessToken token"
  shows "cl_session_id token = f \<and> cl_user_id token = us_id u \<and> family_active f (ad_tokens d') \<and> \<not> locked (us_id u) (ad_accounts (ai_env io RecheckUser d))"
proof -
  obtain t d1 d2 where t: "sessionAccessToken h io u f = Some t" and r: "recheckUserActive io RecheckUser (us_id u) d = (None, d1)"
    and s: "recheckSessionActive io RecheckSession f d1 = (SessionLive, d2)" and e: "a = answer 200 (AccessToken t) c" "d' = d2"
    using assms by (auto simp: hand_out_def rejects_no_token split: option.splits prod.splits session_check.splits)
      (metis fst_conv rejects_no_token(2))+
  have "cl_session_id t = f" "cl_user_id t = us_id u" using t by (auto simp: sessionAccessToken_def GenerateTokenWithOpts_def split: option.splits)
  with recheck_live [OF s] recheck_unlocked [OF r] e assms(2) show ?thesis by simp
qed

lemma hand_out_granted:
  assumes "\<And>token d' d1. family_active (cl_session_id token) (ad_tokens d') \<Longrightarrow> \<not> locked (cl_user_id token) (ad_accounts (ai_env io RecheckUser d1)) \<Longrightarrow> Q token d'"
  shows "granted Q (hand_out h io u f c d)"
  unfolding granted_def
proof (intro allI impI)
  fix token assume "an_body (fst (hand_out h io u f c d)) = AccessToken token"
  from hand_out_token [OF prod.collapse [symmetric] this] have "family_active (cl_session_id token) (ad_tokens (snd (hand_out h io u f c d)))"
    "\<not> locked (cl_user_id token) (ad_accounts (ai_env io RecheckUser d))" by simp_all
  then show "Q token (snd (hand_out h io u f c d))" by (rule assms)
qed

interpretation live: token_guard h io "\<lambda>c d. family_active (cl_session_id c) (ad_tokens d)" for h io
  by unfold_locales (rule hand_out_granted)

interpretation enabled: token_guard h io "\<lambda>c _. \<exists>d. \<not> locked (cl_user_id c) (ad_accounts (ai_env io RecheckUser d))" for h io
  by unfold_locales (rule hand_out_granted, blast)

text \<open>C11. A refresh gives an access token only for a live session: whatever other requests do between its statements and whatever
  fails, the answer carries an access token only if its session was not dead when the request came, and the session still
  has an active refresh token when the answer leaves.\<close>

theorem refresh_needs_live_session:
  assumes "others h clk io" "auth_ok (ah_config h) d" "fresh_request io d" "Refresh h io presented d = (a, d')" "an_body a = AccessToken c"
  shows "\<not> dead_family (cl_session_id c) (ad_tokens d, ad_drawn d) \<and> family_active (cl_session_id c) (ad_tokens d')"
proof -
  have act: "family_active (cl_session_id c) (ad_tokens d')" using live.Refresh_granted [of h io presented d] assms(4,5) by (simp add: granted_def)
  have "auth_run h clk d d'" using Refresh_run [OF assms(1-3), of presented] assms(4) by simp
  then have "dead_family (cl_session_id c) (ad_tokens d', ad_drawn d')" if "dead_family (cl_session_id c) (ad_tokens d, ad_drawn d)"
    using dead_stays assms(2) that by (simp add: auth_run_def)
  with act show ?thesis by (auto simp: dead_family_def)
qed

section \<open>Logout ends a session\<close>

lemma cookie_sessions_run [auth_runs]: "others h clk io \<Longrightarrow> auth_run h clk d (snd (cookie_sessions h io presented d))"
  unfolding cookie_sessions_def by (auto split: option.split intro!: run_case_sum run_refl auth_runs)

lemma revoke_session_run [auth_runs]: "others h clk io \<Longrightarrow> auth_run h clk d (snd (revoke_session io s x d))"
  unfolding revoke_session_def by (rule revoke_run) (auto intro: revokes)

lemma revoke_sessions_run [auth_runs]: "others h clk io \<Longrightarrow> auth_run h clk d (snd (revoke_sessions io n ss d))"
proof (induction ss arbitrary: n d)
  case (Cons x xs)
  then show ?case by (simp add: Let_def) (rule run_trans [OF revoke_session_run])
qed (simp add: auth_runs)

lemma revokeLogoutSessions_run [auth_runs]: "others h clk io \<Longrightarrow> auth_run h clk d (snd (revokeLogoutSessions h io presented bearer d))"
  unfolding revokeLogoutSessions_def Let_def by (auto intro: run_refl run_trans [OF cookie_sessions_run revoke_sessions_run])

lemma store_call_run: "others h clk io \<Longrightarrow> (\<And>now. op now \<noteq> OpCleanup) \<Longrightarrow> auth_run h clk d (store_call h io site op d)"
  by (cases "ah_store h") (auto simp: store_call_def Let_def run_refl intro: store_run)

lemma blocks_run [auth_runs]:
  "others h clk io \<Longrightarrow> auth_run h clk d (block_bearer h io j e d)" "others h clk io \<Longrightarrow> auth_run h clk d (block_user h io site u d)"
  unfolding block_bearer_def block_user_def by (simp_all add: store_call_run)

lemma disconnect_run [auth_runs]: "auth_run h clk d (disconnect h r d)"
proof -
  have "auth_step (ah_store h) (ah_config h) clk d (d\<lparr>ad_accounts := ad_accounts d, ad_api_keys := ad_api_keys d, ad_sockets := ad_sockets d @ [r]\<rparr>)"
    by (rule other_write)
  then show ?thesis using run_step [OF run_refl] by (auto simp: disconnect_def intro: run_refl)
qed

text \<open>The part of a logout that follows the blocks of the sessions.\<close>

definition after_blocks :: "'s auth_handler \<Rightarrow> 's auth_io \<Rightarrow> claims option \<Rightarrow> 's auth_db \<Rightarrow> 's auth_db" where
  "after_blocks h io bearer d1 =
     (case bearer of
        None \<Rightarrow> d1
      | Some c \<Rightarrow> if cl_id c = [] then d1 else disconnect h (DisconnectToken (cl_id c)) (block_bearer h io (cl_id c) (cl_expires_at c) d1))"

lemma after_blocks_run [auth_runs]: "others h clk io \<Longrightarrow> auth_run h clk d (after_blocks h io bearer d)"
  by (auto simp: after_blocks_def intro: run_refl run_trans [OF blocks_run(1) disconnect_run] split: option.split)

lemma Logout_parts:
  "snd (Logout h io presented bearer d) =
     after_blocks h io bearer (blockSessions h io (fst (fst (revokeLogoutSessions h io presented bearer d))) (snd (revokeLogoutSessions h io presented bearer d)))"
  by (simp add: Logout_def after_blocks_def Let_def)

lemma Logout_run [auth_runs]: "others h clk io \<Longrightarrow> auth_run h clk d (snd (Logout h io presented bearer d))"
  unfolding Logout_parts by (meson run_trans revokeLogoutSessions_run blockSessions_run after_blocks_run)

text \<open>What the handlers rely on in a session store, as its calls answer it.\<close>

locale auth_store =
  fixes ops :: "'s store_ops"
  assumes blocks: "i \<in> set ids \<Longrightarrow> Unix tm < Unix e \<Longrightarrow> so_IsSessionBlocked ops None tm i (so_step ops now (\<lambda>_. None) (OpBlockSessions ids e) s) = Inr True"
    and keeps: "so_IsSessionBlocked ops None tm i s = Inr True \<Longrightarrow> (op = OpCleanup \<Longrightarrow> now \<le> tm) \<Longrightarrow>
      so_IsSessionBlocked ops None tm i (so_step ops now flt op s) = Inr True"
begin

lemma block_stays:
  assumes "auth_run h (\<lambda>now. now \<le> tm) d d'" "ah_store h = Some ops" "so_IsSessionBlocked ops None tm i (ad_store d) = Inr True"
  shows "so_IsSessionBlocked ops None tm i (ad_store d') = Inr True"
  using assms(1,3) unfolding auth_run_def assms(2)
proof (induction rule: rtranclp_induct)
  case (step d' d'')
  from step.hyps(2) show ?case
  proof cases
    case (store_write ops' op now flt)
    then show ?thesis using keeps [OF step.IH [OF step.prems], of op now flt] by simp
  qed (use step in auto)
qed

lemma batch_blocks:
  assumes "others h (\<lambda>now. now \<le> tm) io" "ah_store h = Some ops" "i \<in> set ids" "ai_batch_fault io site = (\<lambda>_. None)" "Unix tm < Unix (until (ai_now io site))"
  shows "so_IsSessionBlocked ops None tm i (ad_store (block_batch ops io site until ids d)) = Inr True"
  using assms blocks [OF assms(3,5)] by (auto simp: block_batch_def Let_def)

text \<open>A session whose revoke did not fail is blocked until the latest expiry of its access tokens.\<close>

lemma session_blocked:
  assumes "others h (\<lambda>now. now \<le> tm) io" "ah_store h = Some ops" "x \<in> set ss" "\<not> sb_revoke_failed x"
    and "ai_batch_fault io BlockNormal = (\<lambda>_. None)" "Unix tm < Unix (sessionBlockUntil (ah_config h) (ai_now io BlockNormal))"
  shows "so_IsSessionBlocked ops None tm (sb_id x) (ad_store (blockSessions h io ss d)) = Inr True"
proof -
  let ?d = "block_batch ops io BlockNormal (sessionBlockUntil (ah_config h)) (map sb_id (filter (\<lambda>x. \<not> sb_revoke_failed x) ss)) d"
  have "so_IsSessionBlocked ops None tm (sb_id x) (ad_store ?d) = Inr True"
    using assms by (intro batch_blocks) auto
  then show ?thesis
    using block_stays [OF block_batch_run [OF assms(1,2)] assms(2)] assms(2) by (simp add: blockSessions_def)
qed

text \<open>A blocked session passes no check of its access tokens.\<close>

lemma blocked_is_rejected:
  assumes "so_IsSessionBlocked ops None tm (cl_session_id c) s = Inr True" "cl_session_id c \<noteq> []"
  shows "CheckRevocation (Some ops) (\<lambda>_. None) tm c s \<noteq> None"
  using assms by (auto simp: CheckRevocation_def RevocationStatus_def Let_def split: sum.split)

end

interpretation memory: auth_store memory_ops
proof
  show "so_IsSessionBlocked memory_ops None tm i (so_step memory_ops now (\<lambda>_. None) (OpBlockSessions ids e) s) = Inr True"
    if "i \<in> set ids" "Unix tm < Unix e" for i ids tm e now s
    using mem.blocks_sessions [OF that] by (simp add: memory_ops_def)
  show "so_IsSessionBlocked memory_ops None tm i (so_step memory_ops now flt op s) = Inr True"
    if "so_IsSessionBlocked memory_ops None tm i s = Inr True" "op = OpCleanup \<Longrightarrow> now \<le> tm" for tm i s op now flt
    using mem.keeps_session [of tm i s op now flt] that by (simp add: memory_ops_def)
qed

interpretation mysql: auth_store mysql_ops
proof
  show "so_IsSessionBlocked mysql_ops None tm i (so_step mysql_ops now (\<lambda>_. None) (OpBlockSessions ids e) s) = Inr True"
    if "i \<in> set ids" "Unix tm < Unix e" for i ids tm e now s
    using my.blocks_sessions [OF that] by (simp add: mysql_ops_def del: my_step.simps)
  show "so_IsSessionBlocked mysql_ops None tm i (so_step mysql_ops now flt op s) = Inr True"
    if "so_IsSessionBlocked mysql_ops None tm i s = Inr True" "op = OpCleanup \<Longrightarrow> now \<le> tm" for tm i s op now flt
    using my.keeps_session [of tm i s op now flt] that by (simp add: mysql_ops_def del: my_step.simps)
qed

text \<open>A logout whose statements work revokes the session of its cookie, whatever others do meanwhile.\<close>

lemma logout_revokes:
  assumes "others h clk io" "auth_ok (ah_config h) d" "ah_refresh h" "raw \<noteq> []"
    and "ai_fault io LogoutFind = None" "FindByTokenHash None (ah_hash h raw) (ad_tokens (ai_env io LogoutFind d)) = Inr r" "\<forall>n. ai_fault io (LogoutRevoke n) = None"
  shows "dead_family (SessionFamily r) (ad_tokens (snd (revokeLogoutSessions h io (Some raw) bearer d)), ad_drawn (snd (revokeLogoutSessions h io (Some raw) bearer d)))
    \<and> (\<exists>x\<in>set (fst (fst (revokeLogoutSessions h io (Some raw) bearer d))). sb_id x = SessionFamily r)
    \<and> \<not> list_ex sb_revoke_failed (fst (fst (revokeLogoutSessions h io (Some raw) bearer d)))
    \<and> \<not> snd (fst (revokeLogoutSessions h io (Some raw) bearer d))"
proof -
  let ?S = "auth_step (ah_store h) (ah_config h) clk"
  let ?x = "\<lparr>sb_id = SessionFamily r, sb_user_id = rt_user_id r, sb_revoke_failed = False\<rparr>"
  let ?d0 = "ai_env io LogoutFind d" and ?d1 = "ai_env io (LogoutRevoke 0) (ai_env io LogoutFind d)"
  have c: "cookie_sessions h io (Some raw) d = (([?x], False), ?d0)"
    using assms(4-6) by (simp add: cookie_sessions_def ask_def call_def)
  have "\<exists>xs. add_bearer bearer [?x] = ?x # xs" by (cases bearer) (simp_all add: add_bearer_def)
  then obtain xs where xs: "add_bearer bearer [?x] = ?x # xs" ..
  have run0: "?S\<^sup>*\<^sup>* d ?d0" "?S\<^sup>*\<^sup>* ?d0 ?d1" using env_run [OF assms(1)] by (simp_all add: auth_run_def)
  have ok0: "tokens_ok (ah_config h) (ad_tokens ?d0, ad_drawn ?d0)"
    using auths.keeps_star [OF run0(1) assms(2)] by (simp add: auth_ok_def)
  have "r \<in> set (ad_tokens ?d0)" using found_copy(1) [OF ok0 assms(6)] .
  from found_family [OF ok0 this] have fam: "family_of (SessionFamily r) (rt_user_id r) (ad_tokens ?d1, ad_drawn ?d1)"
    using family.keeps_star [OF auth_steps_tokens [OF run0(2)]] ok0 by blast
  define res where "res = revoke_session io (LogoutRevoke 0) ?x ?d0"
  have works: "\<not> failed (fst (revoke_session io (LogoutRevoke n) y e))" for n y e
    using assms(7) by (simp add: revoke_session_def call_def on_tokens_def Let_def RevokeFamilyForUser_def RevokeFamily_def token_update_def failed_def)
  have "\<not> family_active (SessionFamily r) (ad_tokens (snd res))" "ad_drawn (snd res) = ad_drawn ?d1"
    unfolding res_def revoke_session_def using RevokeFamilyForUser_dead [OF fam] RevokeFamily_dead assms(7)
    by (simp_all add: call_def on_tokens_def Let_def)
  then have dead: "dead_family (SessionFamily r) (ad_tokens (snd res), ad_drawn (snd res))" using fam by (simp add: dead_family_def family_of_def)
  have ok1: "auth_ok (ah_config h) (snd res)"
    using auths.keeps_star [of "ah_store h" "ah_config h" clk ?d0 "snd res"] ok0 revoke_session_run [OF assms(1)]
    by (simp add: auth_run_def auth_ok_def res_def)
  define rest where "rest = revoke_sessions io 1 xs (snd res)"
  have rest: "dead_family (SessionFamily r) (ad_tokens (snd rest), ad_drawn (snd rest))"
    unfolding rest_def by (rule dead_stays [OF revoke_sessions_run [OF assms(1), unfolded auth_run_def] ok1 dead])
  have fine: "\<not> list_ex sb_revoke_failed (fst (revoke_sessions io n ys e))" for n ys e
    by (induction ys arbitrary: n e) (simp_all add: Let_def works)
  have l: "revokeLogoutSessions h io (Some raw) bearer d = ((?x # fst rest, False \<or> list_ex sb_revoke_failed (?x # fst rest)), snd rest)"
    using assms(3) works [of 0 ?x ?d0] by (simp add: revokeLogoutSessions_def c xs Let_def res_def rest_def)
  show ?thesis unfolding l using rest fine [of 1 xs "snd res"] by (simp add: rest_def)
qed

text \<open>The seconds of the checks: a token signed before the block ends is over when the block is.\<close>

lemma expiry_in_block:
  assumes "tm < whole (stamp + ttl)" "stamp + Second \<le> block + Minute"
  shows "Unix tm < Unix (block + (ttl + sessionBlockSkew))"
proof -
  have "whole (stamp + ttl) \<le> stamp + ttl" using div_mult_mod_eq [of "stamp + ttl" Second] pos_mod_sign [of Second "stamp + ttl"] by (simp add: whole_def)
  with assms have "tm + Second \<le> block + (ttl + sessionBlockSkew)" by linarith
  then have "(tm + Second) div Second \<le> (block + (ttl + sessionBlockSkew)) div Second" by (intro zdiv_mono1) simp_all
  then show ?thesis by (simp add: Unix_def)
qed

text \<open>C10. A logout ends its session, although other requests run between all of its statements: when its statements work it answers 200,
  the refresh tokens of the session are dead for ever, and no check lets pass an access token of the session that was
  signed before the sessions were blocked (by a clock less than a minute ahead), until that token has expired.\<close>

theorem logout_ends_session:
  assumes h: "ah_store h = Some mysql_ops" "ah_refresh h" "0 < af_access_token_expiration (ah_config h)"
    and run: "others h (\<lambda>now. now \<le> tm) io" "auth_ok (ah_config h) d" "auth_run h (\<lambda>now. now \<le> tm) (snd (Logout h io (Some raw) bearer d)) d'"
    and works: "ai_fault io LogoutFind = None" "\<forall>n. ai_fault io (LogoutRevoke n) = None" "ai_batch_fault io BlockNormal = (\<lambda>_. None)"
    and row: "raw \<noteq> []" "FindByTokenHash None (ah_hash h raw) (ad_tokens (ai_env io LogoutFind d)) = Inr r"
    and token: "c = GenerateTokenWithOpts stamp jti (af_access_token_expiration (ah_config h)) u provider (SessionFamily r)"
      "stamp + Second \<le> ai_now io BlockNormal + Minute" "cl_expires_at c = Some e" "tm < e"
  shows "an_status (fst (Logout h io (Some raw) bearer d)) = 200
    \<and> dead_family (SessionFamily r) (ad_tokens d', ad_drawn d')
    \<and> CheckRevocation (ah_store h) (\<lambda>_. None) tm c (ad_store d') \<noteq> None"
proof -
  let ?l = "revokeLogoutSessions h io (Some raw) bearer d"
  note rev = logout_revokes [OF run(1,2) h(2) row(1) works(1) row(2) works(2), of bearer]
  have tail: "auth_run h (\<lambda>now. now \<le> tm) (blockSessions h io (fst (fst ?l)) (snd ?l)) d'"
    using run(3) unfolding Logout_parts by (rule run_trans [OF after_blocks_run [OF run(1)]])
  have all: "auth_run h (\<lambda>now. now \<le> tm) (snd ?l) d'" by (rule run_trans [OF blockSessions_run [OF run(1)] tail])
  have ok: "auth_ok (ah_config h) (snd ?l)"
    using auths.keeps_star [of "ah_store h" "ah_config h" "\<lambda>now. now \<le> tm" d "snd ?l"] revokeLogoutSessions_run [OF run(1)] run(2) by (simp add: auth_run_def)
  have dead: "dead_family (SessionFamily r) (ad_tokens d', ad_drawn d')"
    using dead_stays [OF all [unfolded auth_run_def] ok] rev by blast
  obtain x where x: "x \<in> set (fst (fst ?l))" "sb_id x = SessionFamily r" "\<not> sb_revoke_failed x" using rev by (auto simp: list_ex_iff)
  have "Unix tm < Unix (sessionBlockUntil (ah_config h) (ai_now io BlockNormal))"
    using expiry_in_block [of tm stamp "af_access_token_expiration (ah_config h)" "ai_now io BlockNormal"] token h(3)
    by (simp add: sessionBlockUntil_def access_ttl_def GenerateTokenWithOpts_def)
  from mysql.session_blocked [OF run(1) h(1) x(1,3) works(3) this]
  have "so_IsSessionBlocked mysql_ops None tm (SessionFamily r) (ad_store (blockSessions h io (fst (fst ?l)) (snd ?l))) = Inr True" by (simp add: x(2))
  from mysql.block_stays [OF tail h(1) this] have "so_IsSessionBlocked mysql_ops None tm (SessionFamily r) (ad_store d') = Inr True" .
  moreover have "cl_session_id c = SessionFamily r" using token(1) by (simp add: GenerateTokenWithOpts_def)
  moreover have "SessionFamily r \<noteq> []"
    using dead auths.keeps_star [OF all [unfolded auth_run_def] ok] by (auto simp: dead_family_def auth_ok_def tokens_ok_def)
  ultimately have "CheckRevocation (ah_store h) (\<lambda>_. None) tm c (ad_store d') \<noteq> None"
    unfolding h(1) by (intro mysql.blocked_is_rejected) simp_all
  moreover have "an_status (fst (Logout h io (Some raw) bearer d)) = 200" using rev by (simp add: Logout_def Let_def)
  ultimately show ?thesis using dead by blast
qed

section \<open>Examples\<close>

text \<open>One session of \<open>ann\<close>, a request alone on the database, and statements that all work.\<close>

definition example_handler :: "session_entries auth_handler" where
  "example_handler = \<lparr>ah_store = Some mysql_ops, ah_refresh = True, ah_sockets = True, ah_config = example_auth, ah_hash = (\<lambda>_. ''h1'')\<rparr>"

definition example_io :: "session_entries auth_io" where
  "example_io = \<lparr>ai_now = (\<lambda>_. Hour), ai_fault = (\<lambda>_. None), ai_batch_fault = (\<lambda>_ _. None), ai_env = (\<lambda>_ d. d), ai_input = example_input, ai_jti = ''j1''\<rparr>"

definition example_db :: "session_entries auth_db" where
  "example_db = \<lparr>ad_tokens = [example_token], ad_accounts = \<lparr>ac_users = [example_user\<lparr>us_id := ''ann''\<rparr>], ac_followers = []\<rparr>, ad_api_keys = [], ad_sockets = [],
     ad_store = [], ad_drawn = {''t1''}\<rparr>"

lemma example_others: "others example_handler clk example_io"
  by (simp add: others_def example_io_def run_refl)

lemma example_db_ok: "auth_ok (ah_config example_handler) example_db"
  using example_tokens_ok by (simp add: auth_ok_def example_handler_def example_db_def)

lemma example_request: "fresh_request example_io example_db"
  by (simp add: fresh_request_def example_io_def example_db_def example_input_def)

lemma example_refresh: "an_body (fst (Refresh example_handler example_io (Some ''raw1'') example_db))
    = AccessToken (GenerateTokenWithOpts Hour ''j1'' (15 * Minute) (example_user\<lparr>us_id := ''ann''\<rparr>) ''oidc'' ''t1'')"
proof -
  have f: "findRefreshToken example_io FindToken (ah_hash example_handler ''raw1'') example_db = (Inr example_token, example_db)"
    by (simp add: findRefreshToken_def ask_def call_def FindByTokenHash_def example_io_def example_handler_def example_db_def example_token_def)
  have r: "rejectBlockedSession example_handler example_io IsBlocked RevokeBlocked ''t1'' example_db = (None, example_db)"
    by (simp add: rejectBlockedSession_def ask_def call_def example_handler_def example_io_def example_db_def mysql_ops_def my_IsSessionBlocked_def)
  have u: "find_user example_io FindUser ''ann'' example_db = (Inr (example_user\<lparr>us_id := ''ann''\<rparr>), example_db)"
    by (simp add: find_user_def ask_def call_def example_io_def example_db_def user_FindByID_def row_of_def user_key_def EqualFold_def)
  let ?u = "example_user\<lparr>us_id := ''ann''\<rparr>" and ?t = "[example_token\<lparr>rt_revoked := True, rt_rotated_at := Some Hour\<rparr>, example_successor]"
  let ?d = "example_db\<lparr>ad_tokens := ?t, ad_drawn := {''t2'', ''t1''}\<rparr>"
  have "rotate_call example_handler example_io (ai_now example_io Decide) ''ann'' example_token example_db = (Inr (''raw2'', 24 * Hour + 5), ?d)"
    using example_rotation by (simp add: rotate_call_def call_def Let_def example_io_def example_handler_def example_db_def) (simp add: example_input_def)
  moreover have "sessionAccessToken example_handler example_io ?u ''t1'' = Some (GenerateTokenWithOpts Hour ''j1'' (15 * Minute) ?u ''oidc'' ''t1'')"
    by (simp add: sessionAccessToken_def authProviderOf_def example_io_def example_handler_def example_auth_def example_user_def)
  moreover have "recheckUserActive example_io RecheckUser ''ann'' ?d = (None, ?d)"
    by (simp add: recheckUserActive_def find_user_def ask_def call_def example_io_def example_db_def user_FindByID_def row_of_def user_key_def example_user_def)
  moreover have "recheckSessionActive example_io RecheckSession ''t1'' ?d = (SessionLive, ?d)"
    by (simp add: recheckSessionActive_def ask_def call_def example_io_def example_db_def CountActiveInFamily_def in_family_def active_at_def example_token_def example_successor_def)
  ultimately have "refresh_active example_handler example_io (ai_now example_io Decide) example_token ?u example_db
      = (answer 200 (AccessToken (GenerateTokenWithOpts Hour ''j1'' (15 * Minute) ?u ''oidc'' ''t1'')) (SetCookie ''raw2'' (24 * Hour + 5)), ?d)"
    by (simp add: refresh_active_def hand_out_def SessionFamily_def) (simp add: example_token_def)
  moreover have "\<not> rt_revoked example_token" "\<not> rt_expires_at example_token < ai_now example_io Decide" "\<not> sessionExpired (ah_config example_handler) example_token (ai_now example_io Decide)"
    "\<not> af_session_idle_timeout (ah_config example_handler) < Time_Sub (ai_now example_io Decide) (rt_last_activity example_token)"
    "SessionFamily example_token = ''t1''" "rt_user_id example_token = ''ann''" "\<not> us_disabled ?u"
    by (simp_all add: example_token_def example_io_def example_handler_def example_auth_def sessionExpired_def sessionDeadline_def SessionStart_def Time_Sub_def
        SessionFamily_def example_user_def)
  ultimately have "fst (refresh_found example_handler example_io example_token example_db)
      = answer 200 (AccessToken (GenerateTokenWithOpts Hour ''j1'' (15 * Minute) ?u ''oidc'' ''t1'')) (SetCookie ''raw2'' (24 * Hour + 5))"
    using r u unfolding refresh_found_def by (simp only: Let_def prod.case option.case sum.case if_False fst_conv)
  moreover have "ah_refresh example_handler" by (simp add: example_handler_def)
  ultimately show ?thesis using f unfolding Refresh_def by simp
qed

theorem refresh_needs_live_session_witness:
  "\<not> dead_family ''t1'' (ad_tokens example_db, ad_drawn example_db)
    \<and> family_active ''t1'' (ad_tokens (snd (Refresh example_handler example_io (Some ''raw1'') example_db)))"
  using refresh_needs_live_session [OF example_others example_db_ok example_request surjective_pairing example_refresh]
  by (simp add: GenerateTokenWithOpts_def)

lemma example_find: "FindByTokenHash None (ah_hash example_handler ''raw1'') (ad_tokens (ai_env example_io LogoutFind example_db)) = Inr example_token"
  by (simp add: FindByTokenHash_def example_handler_def example_io_def example_db_def example_token_def)

theorem logout_ends_session_witness:
  "an_status (fst (Logout example_handler example_io (Some ''raw1'') None example_db)) = 200
    \<and> CheckRevocation (ah_store example_handler) (\<lambda>_. None) (Hour + 14 * Minute)
        (GenerateTokenWithOpts Hour ''j0'' (15 * Minute) example_user ''local'' ''t1'')
        (ad_store (snd (Logout example_handler example_io (Some ''raw1'') None example_db))) \<noteq> None"
proof -
  have s: "SessionFamily example_token = ''t1''" "af_access_token_expiration (ah_config example_handler) = 15 * Minute" "ai_now example_io BlockNormal = Hour"
    "ah_store example_handler = Some mysql_ops" "ah_refresh example_handler"
    by (simp_all add: SessionFamily_def example_token_def example_handler_def example_auth_def example_io_def)
  have w: "ai_fault example_io LogoutFind = None" "\<forall>n. ai_fault example_io (LogoutRevoke n) = None" "ai_batch_fault example_io BlockNormal = (\<lambda>_. None)"
    by (simp_all add: example_io_def)
  show ?thesis
    using logout_ends_session [where h = example_handler and raw = "''raw1''" and r = example_token and tm = "Hour + 14 * Minute" and bearer = None
        and stamp = Hour and e = "Hour + 15 * Minute" and jti = "''j0''" and u = example_user and provider = "''local''",
        OF s(4,5) _ example_others example_db_ok run_refl w _ example_find refl]
    by (simp add: s) (simp add: GenerateTokenWithOpts_def whole_def)
qed

end
