(* ===== verification/Login.thy ===== *)
theory Login
  imports Sessions
begin

text \<open>
  Login with a password, registration and the first admin (\<open>api/handlers/auth.go\<close>), with the cache of verified passwords
  (\<open>cache/cache.go\<close>) and the status of repository errors (\<open>api/handlers/errors.go\<close>). bcrypt and HMAC are arguments of the
  model; the log lines and metrics of a failure are left out.
\<close>

section \<open>Passwords and the cache of verified ones\<close>

record password_crypto =
  pc_cost_ok :: "string \<Rightarrow> bool"
  pc_compare :: "string \<Rightarrow> string \<Rightarrow> bool"
  pc_generate :: "string \<Rightarrow> string option"
  pc_mac :: "string \<Rightarrow> string \<Rightarrow> string"
  pc_dummy :: string

text \<open>An entry lives until its expiry.\<close>

type_synonym login_cache = "string \<rightharpoonup> gtime"

definition cache_Get :: "gtime \<Rightarrow> string \<Rightarrow> login_cache \<Rightarrow> bool" where
  "cache_Get now key m = (case m key of None \<Rightarrow> False | Some expiresAt \<Rightarrow> \<not> expiresAt < now)"

definition cache_Set :: "gtime \<Rightarrow> duration \<Rightarrow> string \<Rightarrow> login_cache \<Rightarrow> login_cache" where
  "cache_Set now ttl key m = m(key \<mapsto> now + ttl)"

definition evictExpired :: "gtime \<Rightarrow> login_cache \<Rightarrow> login_cache" where
  "evictExpired now m = (\<lambda>k. case m k of None \<Rightarrow> None | Some e \<Rightarrow> if e < now then None else Some e)"

definition loginCacheKey :: "password_crypto \<Rightarrow> string \<Rightarrow> string \<Rightarrow> string \<Rightarrow> string" where
  "loginCacheKey pc username passwordHash submittedPassword = pc_mac pc passwordHash (username @ '':'' @ submittedPassword)"

text \<open>The cache at its two uses: other logins of the replica may change it before each of them.\<close>

record cache_io =
  ci_now :: "bool \<Rightarrow> gtime"
  ci_env :: "bool \<Rightarrow> login_cache \<Rightarrow> login_cache"

record login_config =
  lg_cache_ttl :: duration
  lg_oidc_enabled :: bool
  lg_local_auth :: bool

text \<open>The password check of a login: whether it passed, and the hashes that bcrypt compared.\<close>

definition check_password ::
  "password_crypto \<Rightarrow> duration \<Rightarrow> cache_io \<Rightarrow> string \<Rightarrow> string \<Rightarrow> user \<Rightarrow> login_cache \<Rightarrow> (bool \<times> string list) \<times> login_cache" where
  "check_password pc ttl ci username password u m =
     (let hash = us_password_hash u; key = loginCacheKey pc username hash password;
          m1 = (if 0 < ttl then ci_env ci False m else m)
      in if 0 < ttl \<and> cache_Get (ci_now ci False) key m1 then ((True, []), m1)
         else if hash = [] \<or> \<not> pc_cost_ok pc hash then ((False, [pc_dummy pc]), m1)
         else if \<not> pc_compare pc hash password then ((False, [hash]), m1)
         else ((True, [hash]), if 0 < ttl then cache_Set (ci_now ci True) ttl key (ci_env ci True m1) else m1))"

section \<open>Login\<close>

abbreviation invalid_credentials :: answer where
  "invalid_credentials \<equiv> answer 401 (ErrorText ''Invalid username or password'') KeepCookie"

abbreviation account_disabled :: answer where
  "account_disabled \<equiv> answer 403 (ErrorText ''Account disabled'') KeepCookie"

text \<open>The access token: of the new session, or a long one without refresh tokens.\<close>

definition login_token :: "'s auth_handler \<Rightarrow> 's auth_io \<Rightarrow> string \<Rightarrow> user \<Rightarrow> claims option" where
  "login_token h io family u =
     (if ah_refresh h then sessionAccessToken h io u family
      else (case ai_fault io Sign of
              Some _ \<Rightarrow> None
            | None \<Rightarrow> Some (GenerateTokenWithOpts (ai_now io Sign) (ai_jti io) (af_jwt_expiration (ah_config h)) u (authProviderOf u) [])))"

definition issue_session :: "'s auth_handler \<Rightarrow> 's auth_io \<Rightarrow> string \<Rightarrow> user \<Rightarrow> 's auth_db \<Rightarrow> (db_cause + string \<times> gtime) \<times> 's auth_db" where
  "issue_session h io family u =
     call io LoginIssue (\<lambda>flt now d.
       let r = createRefreshToken (ah_config h) (ai_input io) (us_id u) (newRefreshSession family (ai_now io Sign)) [] (ad_tokens d)
       in (fst r, d\<lparr>ad_tokens := snd r, ad_drawn := insert family (ad_drawn d)\<rparr>))"

definition login_session :: "'s auth_handler \<Rightarrow> 's auth_io \<Rightarrow> string \<Rightarrow> user \<Rightarrow> claims \<Rightarrow> 's auth_db \<Rightarrow> answer \<times> 's auth_db" where
  "login_session h io family u token d =
     (case issue_session h io family u d of
        (Inl _, d1) \<Rightarrow> (answer 200 (LoginResponse token u) KeepCookie, d1)
      | (Inr (raw, e), d1) \<Rightarrow>
          (case recheckSessionActive io RecheckSession family d1 of
             (SessionLive, d2) \<Rightarrow> (answer 200 (LoginResponse token u) (SetCookie raw e), d2)
           | (r, d2) \<Rightarrow>
               (case r of SessionGone \<Rightarrow> refuse 401 ''Session revoked'' | _ \<Rightarrow> internal_error ClearCookie,
                snd (revoke_call io LoginAbandon (\<lambda>flt. RevokeFamily flt family) d2))))"

definition login_allowed :: "'s auth_handler \<Rightarrow> 's auth_io \<Rightarrow> string \<Rightarrow> user \<Rightarrow> 's auth_db \<Rightarrow> answer \<times> 's auth_db" where
  "login_allowed h io family u d =
     (case login_token h io family u of
        None \<Rightarrow> (internal_error KeepCookie, d)
      | Some token \<Rightarrow>
          (case recheckUserActive io RecheckUser (us_id u) d of
             (Some e, d1) \<Rightarrow>
               (if e = RecheckFailed context_error then client_closed
                else case e of RecheckDisabled \<Rightarrow> account_disabled | RecheckGone \<Rightarrow> invalid_credentials | RecheckFailed _ \<Rightarrow> internal_error KeepCookie, d1)
           | (None, d1) \<Rightarrow>
               if ah_refresh h then login_session h io family u token d1 else (answer 200 (LoginResponse token u) KeepCookie, d1)))"

text \<open>After the password check: the user is read again.\<close>

definition login_verified :: "'s auth_handler \<Rightarrow> login_config \<Rightarrow> 's auth_io \<Rightarrow> string \<Rightarrow> user \<Rightarrow> 's auth_db \<Rightarrow> answer \<times> 's auth_db" where
  "login_verified h lc io family u d =
     (case find_user io LoginReread (us_id u) d of
        (Inl e, d1) \<Rightarrow>
          (if user_cancelled e then client_closed else if isNotFoundError e then invalid_credentials else internal_error KeepCookie, d1)
      | (Inr fresh, d1) \<Rightarrow>
          if us_password_hash fresh \<noteq> us_password_hash u then (invalid_credentials, d1)
          else if us_disabled fresh then (account_disabled, d1)
          else if lg_oidc_enabled lc \<and> \<not> lg_local_auth lc \<and> \<not> us_service_account fresh
               then (answer 403 (ErrorText ''Local login is restricted to service accounts. Please use SSO.'') KeepCookie, d1)
          else login_allowed h io family fresh d1)"

text \<open>The request has a name and a password, or cannot be read. \<open>family\<close> is the fresh identifier of the session. The result: the answer and the
  hashes that bcrypt compared, the database and the cache.\<close>

definition Login ::
  "'s auth_handler \<Rightarrow> login_config \<Rightarrow> password_crypto \<Rightarrow> 's auth_io \<Rightarrow> cache_io \<Rightarrow> string \<Rightarrow> (string \<times> string) option \<Rightarrow> 's auth_db \<Rightarrow> login_cache
    \<Rightarrow> (answer \<times> string list) \<times> 's auth_db \<times> login_cache" where
  "Login h lc pc io ci family req d m =
     (case req of
        None \<Rightarrow> ((answer 400 (ErrorText ''Invalid request format'') KeepCookie, []), d, m)
      | Some (username, password) \<Rightarrow>
          if username = [] \<or> password = [] then ((answer 400 (ErrorText ''Invalid request format'') KeepCookie, []), d, m)
          else (case ask io LoginFind (\<lambda>flt now d. user_FindByUsername flt username (ad_accounts d)) d of
                  (Inl e, d1) \<Rightarrow>
                    if user_cancelled e then ((client_closed, []), d1, m)
                    else if \<not> isNotFoundError e then ((internal_error KeepCookie, []), d1, m)
                    else ((invalid_credentials, [pc_dummy pc]), d1, m)
                | (Inr u, d1) \<Rightarrow>
                    (let c = check_password pc (lg_cache_ttl lc) ci username password u m
                     in if \<not> fst (fst c) then ((invalid_credentials, snd (fst c)), d1, snd c)
                        else (let r = login_verified h lc io family u d1 in ((fst r, snd (fst c)), snd r, snd c)))))"

section \<open>Registration and the first admin\<close>

definition error_text :: "user_error \<Rightarrow> string" where
  "error_text e =
     (case e of UserRepo r \<Rightarrow> repo_text r | UserRaw c \<Rightarrow> cause_text c | ErrLastAdmin \<Rightarrow> ''last enabled admin''
        | ErrCallerNotAdmin \<Rightarrow> ''caller is not an enabled admin'')"

definition mapError :: "user_error \<Rightarrow> string \<Rightarrow> nat \<times> string" where
  "mapError e entityName =
     (let c = error_cause e; text = error_text e
      in if c = Some context_error then (499, ''Client closed request'')
         else if c = Some ErrValidation then (400, text)
         else if c = Some ErrNotFound then (404, entityName @ '' not found'')
         else if c = Some ErrDuplicateKey then (409, entityName @ '' already exists'')
         else if c = Some ErrNotImplemented then (501, ''Feature not implemented'')
         else if Contains text ''not found'' then (404, entityName @ '' not found'')
         else if Contains text ''duplicate'' \<or> Contains text ''already exists'' then (409, entityName @ '' already exists'')
         else if Contains text ''validation'' then (400, text)
         else (500, ''Internal server error''))"

definition mapped :: "user_error \<Rightarrow> string \<Rightarrow> answer" where
  "mapped e entityName = answer (fst (mapError e entityName)) (ErrorText (snd (mapError e entityName))) KeepCookie"

record register_request =
  rr_username :: string
  rr_password :: string
  rr_display_name :: string
  rr_role :: string
  rr_service_account :: bool

definition new_local_user :: "string \<Rightarrow> string \<Rightarrow> string \<Rightarrow> gtime \<Rightarrow> register_request \<Rightarrow> user" where
  "new_local_user callerRole uuid hash now req =
     \<lparr>us_id = uuid, us_username = rr_username req, us_password_hash = hash,
      us_display_name = (if rr_display_name req = [] then rr_username req else rr_display_name req),
      us_role = (if rr_role req \<noteq> [] \<and> callerRole = RoleAdmin then rr_role req else RoleUser), us_auth_provider = ''local'', us_external_id = None, us_email = [],
      us_disabled = False, us_service_account = (rr_service_account req \<and> callerRole = RoleAdmin), us_created_at = now, us_updated_at = now\<rparr>"

definition create_user :: "'s auth_io \<Rightarrow> string \<Rightarrow> user \<Rightarrow> 's auth_db \<Rightarrow> (user_error + user) \<times> 's auth_db" where
  "create_user io uuid u =
     call io CreateUser (\<lambda>flt now d. let r = user_Create flt now uuid u (ad_accounts d) in (fst r, d\<lparr>ad_accounts := snd r\<rparr>))"

abbreviation bad_request :: "string \<Rightarrow> answer" where "bad_request text \<equiv> answer 400 (ErrorText text) KeepCookie"

definition Register ::
  "bool \<Rightarrow> password_crypto \<Rightarrow> 's auth_io \<Rightarrow> string \<Rightarrow> string \<Rightarrow> register_request option \<Rightarrow> 's auth_db \<Rightarrow> answer \<times> 's auth_db" where
  "Register selfRegistration pc io callerRole uuid request d =
     (if \<not> selfRegistration \<and> callerRole \<noteq> RoleAdmin then (answer 403 (ErrorText ''Registration is disabled'') KeepCookie, d)
      else (case request of
              None \<Rightarrow> (bad_request ''Invalid request format'', d)
            | Some req \<Rightarrow>
                if rr_username req = [] \<or> rr_password req = [] then (bad_request ''Invalid request format'', d)
                else if rr_role req \<noteq> [] \<and> \<not> IsValidRole (rr_role req) then (bad_request ''Role must be one of: user, devops, admin'', d)
                else (case pc_generate pc (rr_password req) of
                        None \<Rightarrow> (internal_error KeepCookie, d)
                      | Some hash \<Rightarrow>
                          (case create_user io uuid (new_local_user callerRole uuid hash (ai_now io CreateUser) req) d of
                             (Inl e, d') \<Rightarrow> (mapped e ''User'', d')
                           | (Inr u, d') \<Rightarrow> (answer 201 (UserBody u) KeepCookie, d')))))"

definition GetCurrentUser :: "'s auth_io \<Rightarrow> string \<Rightarrow> 's auth_db \<Rightarrow> answer \<times> 's auth_db" where
  "GetCurrentUser io userID d =
     (if userID = [] then (answer 401 (ErrorText ''Authentication required'') KeepCookie, d)
      else (case find_user io FindAccount userID d of
              (Inl e, d') \<Rightarrow> (mapped e ''User'', d')
            | (Inr u, d') \<Rightarrow> (answer 200 (UserBody u) KeepCookie, d')))"

definition first_admin :: "string \<Rightarrow> string \<Rightarrow> string \<Rightarrow> gtime \<Rightarrow> user" where
  "first_admin username uuid hash now =
     \<lparr>us_id = uuid, us_username = username, us_password_hash = hash, us_display_name = ''Administrator'', us_role = RoleAdmin, us_auth_provider = [],
      us_external_id = None, us_email = [], us_disabled = False, us_service_account = True, us_created_at = now, us_updated_at = now\<rparr>"

definition EnsureAdminUser :: "password_crypto \<Rightarrow> 's auth_io \<Rightarrow> string \<Rightarrow> string \<Rightarrow> string \<Rightarrow> 's auth_db \<Rightarrow> 's auth_db" where
  "EnsureAdminUser pc io adminUsername adminPassword uuid d =
     (if adminUsername = [] \<or> adminPassword = [] then d
      else (case ask io LoginFind (\<lambda>flt now d. user_FindByUsername flt adminUsername (ad_accounts d)) d of
              (Inr _, d1) \<Rightarrow> d1
            | (Inl e, d1) \<Rightarrow>
                if \<not> isNotFoundError e then d1
                else (case pc_generate pc adminPassword of
                        None \<Rightarrow> d1
                      | Some hash \<Rightarrow> snd (create_user io uuid (first_admin adminUsername uuid hash (ai_now io CreateUser)) d1))))"

section \<open>Without the password\<close>

text \<open>A hash accepts a password.\<close>

definition accepts :: "password_crypto \<Rightarrow> string \<Rightarrow> string \<Rightarrow> bool" where
  "accepts pc hash password \<longleftrightarrow> hash \<noteq> [] \<and> pc_cost_ok pc hash \<and> pc_compare pc hash password"

text \<open>What is assumed of the libraries: HMAC has no collisions, and a salted hash belongs to one user name (users are never renamed).\<close>

definition collision_free :: "password_crypto \<Rightarrow> bool" where
  "collision_free pc \<longleftrightarrow> (\<forall>k x k' x'. pc_mac pc k x = pc_mac pc k' x' \<longrightarrow> k = k' \<and> x = x')"

definition salted :: "(string \<Rightarrow> string) \<Rightarrow> accounts \<Rightarrow> bool" where
  "salted owner a \<longleftrightarrow> (\<forall>u\<in>set (ac_users a). us_password_hash u \<noteq> [] \<longrightarrow> ToLower (us_username u) = owner (us_password_hash u))"

text \<open>The writes of the cache: a login whose password was verified, and the eviction.\<close>

inductive cache_step :: "password_crypto \<Rightarrow> (string \<Rightarrow> string) \<Rightarrow> login_cache \<Rightarrow> login_cache \<Rightarrow> bool" for pc owner where
  verified: "accepts pc hash password \<Longrightarrow> ToLower username = owner hash \<Longrightarrow>
    cache_step pc owner m (cache_Set now ttl (loginCacheKey pc username hash password) m)"
| evicted: "cache_step pc owner m (evictExpired now m)"

definition good_key :: "password_crypto \<Rightarrow> (string \<Rightarrow> string) \<Rightarrow> string \<Rightarrow> bool" where
  "good_key pc owner key \<longleftrightarrow> (\<exists>username hash password.
     key = loginCacheKey pc username hash password \<and> accepts pc hash password \<and> ToLower username = owner hash)"

definition cache_ok :: "password_crypto \<Rightarrow> (string \<Rightarrow> string) \<Rightarrow> login_cache \<Rightarrow> bool" where
  "cache_ok pc owner m \<longleftrightarrow> (\<forall>key expiresAt. m key = Some expiresAt \<longrightarrow> good_key pc owner key)"

interpretation caches: invariant_system "cache_step pc owner" "cache_ok pc owner" for pc owner
proof
  show "cache_ok pc owner m'" if "cache_ok pc owner m" "cache_step pc owner m m'" for m m'
    using that(2)
  proof cases
    case (verified hash password username now ttl)
    then have "good_key pc owner (loginCacheKey pc username hash password)" by (auto simp: good_key_def)
    with that(1) verified(1) show ?thesis by (simp add: cache_ok_def cache_Set_def)
  qed (use that(1) in \<open>auto simp: cache_ok_def evictExpired_def split: option.splits if_splits\<close>)
qed

text \<open>A hit of the cache proves the password.\<close>

lemma cache_hit:
  assumes "collision_free pc" "cache_ok pc owner m" "cache_Get now (loginCacheKey pc username hash password) m" "hash \<noteq> [] \<Longrightarrow> ToLower username = owner hash"
  shows "accepts pc hash password"
proof -
  have "good_key pc owner (loginCacheKey pc username hash password)" using assms(2,3) by (auto simp: cache_ok_def cache_Get_def split: option.splits)
  then obtain username' hash' password' where k: "loginCacheKey pc username hash password = loginCacheKey pc username' hash' password'"
    and ok: "accepts pc hash' password'" "ToLower username' = owner hash'" by (auto simp only: good_key_def)
  from k have "pc_mac pc hash (username @ '':'' @ password) = pc_mac pc hash' (username' @ '':'' @ password')" by (simp only: loginCacheKey_def)
  with assms(1) have e: "hash = hash'" "username @ '':'' @ password = username' @ '':'' @ password'" unfolding collision_free_def by metis+
  have "hash \<noteq> []" using ok(1) e(1) by (simp add: accepts_def)
  then have "ToLower username = ToLower username'" using assms(4) ok(2) e(1) by simp
  from arg_cong [OF this, of length] have "length username = length username'" by (simp add: ToLower_def)
  with e(2) have "password = password'" by simp
  with e(1) ok(1) show ?thesis by simp
qed

lemma found_username: "user_FindByUsername flt name a = Inr u \<Longrightarrow> u \<in> set (ac_users a) \<and> ToLower (us_username u) = ToLower name"
  by (auto simp: user_FindByUsername_def EqualFold_def find_Some_iff split: option.splits)

text \<open>The check of a password that the hash does not accept: one compare, and no.\<close>

lemma check_password_wrong:
  assumes "collision_free pc" "cache_ok pc owner m" "\<forall>use m. (cache_step pc owner)\<^sup>*\<^sup>* m (ci_env ci use m)" "us_password_hash u \<noteq> [] \<Longrightarrow> ToLower username = owner (us_password_hash u)"
    and "\<not> accepts pc (us_password_hash u) password"
  shows "\<exists>hash m'. check_password pc ttl ci username password u m = ((False, [hash]), m')"
proof -
  have "cache_ok pc owner (ci_env ci False m)" using caches.keeps_star [OF _ assms(2)] assms(3) by blast
  then have "\<not> cache_Get (ci_now ci False) (loginCacheKey pc username (us_password_hash u) password) (ci_env ci False m)"
    using cache_hit [OF assms(1), of owner "ci_env ci False m"] assms(4,5) by blast
  with assms(5) show ?thesis by (auto simp: check_password_def Let_def accepts_def)
qed


text \<open>A login writes the cache only for a password that it verified, so it is one of the steps.\<close>

lemma check_password_run:
  assumes "collision_free pc" "\<forall>use m. (cache_step pc owner)\<^sup>*\<^sup>* m (ci_env ci use m)" "us_password_hash u \<noteq> [] \<Longrightarrow> ToLower username = owner (us_password_hash u)"
  shows "(cache_step pc owner)\<^sup>*\<^sup>* m (snd (check_password pc ttl ci username password u m))"
proof -
  let ?m1 = "ci_env ci False m" and ?key = "loginCacheKey pc username (us_password_hash u) password"
  have m: "(cache_step pc owner)\<^sup>*\<^sup>* m ?m1" "(cache_step pc owner)\<^sup>*\<^sup>* ?m1 (ci_env ci True ?m1)" using assms(2) by blast+
  have "cache_step pc owner (ci_env ci True ?m1) (cache_Set (ci_now ci True) ttl ?key (ci_env ci True ?m1))" if "accepts pc (us_password_hash u) password"
    using that assms(3) by (intro verified) (simp_all add: accepts_def)
  with m show ?thesis by (auto simp: check_password_def Let_def accepts_def)
qed

theorem login_cache_run:
  assumes "collision_free pc" "\<forall>use m. (cache_step pc owner)\<^sup>*\<^sup>* m (ci_env ci use m)" "salted owner (ad_accounts (ai_env io LoginFind d))"
  shows "(cache_step pc owner)\<^sup>*\<^sup>* m (snd (snd (Login h lc pc io ci family req d m)))"
proof (cases req)
  case (Some np)
  obtain username password where np: "np = (username, password)" by (cases np)
  show ?thesis
  proof (cases "user_FindByUsername (ai_fault io LoginFind) username (ad_accounts (ai_env io LoginFind d))")
    case (Inr u)
    have "(cache_step pc owner)\<^sup>*\<^sup>* m (snd (check_password pc (lg_cache_ttl lc) ci username password u m))"
      using found_username [OF Inr] assms(3) by (intro check_password_run [OF assms(1,2)]) (auto simp: salted_def)
    with Some np Inr show ?thesis by (simp add: Login_def ask_def call_def Let_def)
  qed (use Some np in \<open>simp add: Login_def ask_def call_def\<close>)
qed (simp add: Login_def)

section \<open>Registration\<close>

lemma user_Create_rows:
  "user_Create flt now uuid u a = (r, a') \<Longrightarrow> (\<exists>e. r = Inl e) \<and> a' = a
    \<or> (\<exists>w v. r = Inr w \<and> a' = a\<lparr>ac_users := ac_users a @ [v]\<rparr> \<and> us_role v = us_role u \<and> us_service_account v = us_service_account u)"
  by (auto simp: user_Create_def Let_def split: if_splits option.splits)

lemma mapped_status: "an_status (mapped e entityName) \<noteq> 201" "an_status (mapped e entityName) \<noteq> 200"
  by (simp_all add: mapped_def mapError_def Let_def)

text \<open>Registration gives no privileges: a request of a caller who is not an admin adds at most one account, with the role user and no service
  account, whatever role it asks for; an account is added only when the answer is 201.\<close>

theorem register_no_escalation:
  assumes "callerRole \<noteq> RoleAdmin" "Register selfRegistration pc io callerRole uuid request d = (a, d')"
  shows "(d' = d \<or> d' = ai_env io CreateUser d) \<and> an_status a \<noteq> 201
    \<or> (\<exists>u. ad_accounts d' = (ad_accounts (ai_env io CreateUser d))\<lparr>ac_users := ac_users (ad_accounts (ai_env io CreateUser d)) @ [u]\<rparr>
        \<and> us_role u = RoleUser \<and> \<not> us_service_account u \<and> selfRegistration \<and> an_status a = 201)"
proof (cases request)
  case (Some req)
  show ?thesis
  proof (cases "pc_generate pc (rr_password req)")
    case (Some hash)
    let ?u = "new_local_user callerRole uuid hash (ai_now io CreateUser) req"
    let ?a = "ad_accounts (ai_env io CreateUser d)"
    obtain r a' where c: "user_Create (ai_fault io CreateUser) (ai_now io CreateUser) uuid ?u ?a = (r, a')" by (cases "user_Create (ai_fault io CreateUser) (ai_now io CreateUser) uuid ?u ?a")
    have u: "us_role ?u = RoleUser" "\<not> us_service_account ?u" using assms(1) by (simp_all add: new_local_user_def)
    have "create_user io uuid ?u d = (r, (ai_env io CreateUser d)\<lparr>ad_accounts := a'\<rparr>)" by (simp add: create_user_def call_def c)
    then show ?thesis using assms \<open>request = Some req\<close> Some u user_Create_rows [OF c]
      by (cases r) (auto simp: Register_def mapped_status split: if_splits)
  qed (use assms \<open>request = Some req\<close> in \<open>auto simp: Register_def split: if_splits\<close>)
qed (use assms in \<open>auto simp: Register_def split: if_splits\<close>)

section \<open>Disabled users\<close>

lemma login_allowed_token:
  assumes "login_allowed h io family u d = (a, d')" "an_body a = LoginResponse c v"
  shows "cl_user_id c = us_id u \<and> \<not> locked (us_id u) (ad_accounts (ai_env io RecheckUser d))"
proof -
  obtain t d1 where t: "login_token h io family u = Some t" and r: "recheckUserActive io RecheckUser (us_id u) d = (None, d1)"
    and l: "(if ah_refresh h then login_session h io family u t d1 else (answer 200 (LoginResponse t u) KeepCookie, d1)) = (a, d')"
    using assms by (auto simp: login_allowed_def split: option.splits prod.splits recheck_error.splits if_splits)
  have "c = t" using l assms(2) by (auto simp: login_session_def split: if_splits prod.splits sum.splits session_check.splits)
  moreover have "cl_user_id t = us_id u"
    using t by (auto simp: login_token_def sessionAccessToken_def GenerateTokenWithOpts_def split: if_splits option.splits)
  ultimately show ?thesis using recheck_unlocked [OF r] by simp
qed

lemma Login_token:
  assumes "an_body (fst (fst (Login h lc pc io ci family req d m))) = LoginResponse c u"
  shows "\<exists>d1. \<not> locked (cl_user_id c) (ad_accounts (ai_env io RecheckUser d1))"
proof -
  have "\<exists>u d1 a d'. login_allowed h io family u d1 = (a, d') \<and> an_body a = LoginResponse c v" if "an_body (fst (login_verified h lc io family u0 d0)) = LoginResponse c v" for u0 d0 v
    using that by (auto simp: login_verified_def split: prod.splits sum.splits if_splits) (metis fst_conv prod.collapse)+
  then obtain u1 d1 a d' v where "login_allowed h io family u1 d1 = (a, d')" "an_body a = LoginResponse c v"
    using assms by (auto simp: Login_def Let_def split: option.splits prod.splits sum.splits if_splits) blast+
  from login_allowed_token [OF this] show ?thesis by auto
qed

lemma locked_fold: "EqualFold i j \<Longrightarrow> locked i a \<longleftrightarrow> locked j a"
  by (simp add: locked_def EqualFold_def)

text \<open>C37. A disabled user gets no access token: when the account is disabled, or gone, at the time at which a login or a refresh reads it for the
  last time, the answer carries no token for it, whatever the request had read before.\<close>

theorem disabled_user_gets_no_token:
  assumes "\<forall>d. locked userID (ad_accounts (ai_env io RecheckUser d))"
  shows "\<not> (an_body (fst (Refresh h io presented d)) = AccessToken c \<and> EqualFold (cl_user_id c) userID)
    \<and> \<not> (an_body (fst (fst (Login h lc pc io ci family req d m))) = LoginResponse c u \<and> EqualFold (cl_user_id c) userID)"
proof -
  have l: "\<forall>d. locked (cl_user_id c) (ad_accounts (ai_env io RecheckUser d))" if "EqualFold (cl_user_id c) userID"
    using assms locked_fold [OF that] by simp
  have "\<exists>d. \<not> locked (cl_user_id c) (ad_accounts (ai_env io RecheckUser d))" if "an_body (fst (Refresh h io presented d)) = AccessToken c"
    using enabled.Refresh_granted [of io h presented d] that by (simp add: granted_def)
  with l Login_token show ?thesis by blast
qed

section \<open>Witnesses\<close>

definition example_mac :: "string \<Rightarrow> string \<Rightarrow> string" where
  "example_mac k x = replicate (length k) CHR ''a'' @ CHR ''b'' # k @ x"

definition example_passwords :: password_crypto where
  "example_passwords = \<lparr>pc_cost_ok = (\<lambda>_. True), pc_compare = (\<lambda>hash password. hash = password), pc_generate = Some, pc_mac = example_mac, pc_dummy = ''d''\<rparr>"

lemma example_mac_length: "length (takeWhile (\<lambda>c. c = CHR ''a'') (example_mac k x)) = length k"
  by (simp add: example_mac_def takeWhile_append)

lemma example_collision_free: "collision_free example_passwords"
proof -
  have "k = k' \<and> x = x'" if e: "example_mac k x = example_mac k' x'" for k x k' x'
  proof -
    have n: "length k = length k'" using example_mac_length [of k x] example_mac_length [of k' x'] e by simp
    then have "k @ x = k' @ x'" using e by (simp add: example_mac_def)
    with n show ?thesis by simp
  qed
  moreover have "pc_mac example_passwords = example_mac" by (simp add: example_passwords_def)
  ultimately show ?thesis unfolding collision_free_def by metis
qed


theorem register_no_escalation_witness:
  "\<exists>u. ad_accounts (snd (Register True example_passwords example_io ''user'' ''u9''
        (Some \<lparr>rr_username = ''eve'', rr_password = ''pw'', rr_display_name = [], rr_role = ''admin'', rr_service_account = True\<rparr>) example_db))
      = (ad_accounts example_db)\<lparr>ac_users := ac_users (ad_accounts example_db) @ [u]\<rparr> \<and> us_role u = RoleUser \<and> \<not> us_service_account u"
proof -
  let ?r = "Register True example_passwords example_io ''user'' ''u9''
        (Some \<lparr>rr_username = ''eve'', rr_password = ''pw'', rr_display_name = [], rr_role = ''admin'', rr_service_account = True\<rparr>) example_db"
  have "an_status (fst ?r) = 201"
    by (simp add: Register_def create_user_def call_def user_Create_def Let_def new_local_user_def user_clash_def user_key_def EqualFold_def ToLower_def same_external_def
        example_passwords_def example_io_def example_db_def example_user_def IsValidRole_def)
  moreover have "ai_env example_io CreateUser example_db = example_db" by (simp add: example_io_def)
  ultimately show ?thesis
    using register_no_escalation [where callerRole = "''user''", OF _ prod.collapse [symmetric, of ?r]] by auto
qed

theorem disabled_user_gets_no_token_witness:
  "\<not> (an_body (fst (Refresh example_handler (example_io\<lparr>ai_env := \<lambda>_ d. d\<lparr>ad_accounts := \<lparr>ac_users = [], ac_followers = []\<rparr>\<rparr>\<rparr>) (Some ''raw1'') example_db))
      = AccessToken (GenerateTokenWithOpts Hour ''j1'' (15 * Minute) (example_user\<lparr>us_id := ''ann''\<rparr>) ''oidc'' ''t1''))"
  using disabled_user_gets_no_token [where userID = "''ann''" and io = "example_io\<lparr>ai_env := \<lambda>_ d. d\<lparr>ad_accounts := \<lparr>ac_users = [], ac_followers = []\<rparr>\<rparr>\<rparr>"
      and h = example_handler and presented = "Some ''raw1''" and d = example_db
      and c = "GenerateTokenWithOpts Hour ''j1'' (15 * Minute) (example_user\<lparr>us_id := ''ann''\<rparr>) ''oidc'' ''t1''"]
  by (simp add: locked_def GenerateTokenWithOpts_def EqualFold_def)

end
