(* ===== verification/UserAdmin.thy ===== *)
theory UserAdmin
  imports Login
begin

text \<open>
  The changes of accounts by an admin (\<open>api/handlers/users.go\<close>), the handlers of API keys (\<open>api/handlers/api_keys.go\<close>) and the
  middleware that accepts an access token or an API key (\<open>api/middleware/combined_auth.go\<close>). These handlers run detached from the
  request: the client cannot cancel them.
\<close>

section \<open>Changes of accounts\<close>

definition isSameUserID :: "string \<Rightarrow> string \<Rightarrow> bool" where
  "isSameUserID a b \<longleftrightarrow> a \<noteq> [] \<and> EqualFold a b"

definition writeGuardedChangeError :: "user_error \<Rightarrow> answer" where
  "writeGuardedChangeError e =
     (case e of
        ErrCallerNotAdmin \<Rightarrow> answer 403 (ErrorText ''Admin role required'') KeepCookie
      | ErrLastAdmin \<Rightarrow> answer 409 (ErrorText ''The last enabled admin cannot be demoted, disabled or deleted'') KeepCookie
      | _ \<Rightarrow> mapped e ''User'')"

definition change_account :: "'s auth_io \<Rightarrow> (accounts \<Rightarrow> (user_error + 'a) \<times> accounts) \<Rightarrow> 's auth_db \<Rightarrow> (user_error + 'a) \<times> 's auth_db" where
  "change_account io f = call io ChangeAccount (\<lambda>_ _ d. let r = f (ad_accounts d) in (fst r, d\<lparr>ad_accounts := snd r\<rparr>))"

definition DeleteUser :: "'s auth_handler \<Rightarrow> 's auth_io \<Rightarrow> user_attempts \<Rightarrow> string \<Rightarrow> string \<Rightarrow> 's auth_db \<Rightarrow> answer \<times> 's auth_db" where
  "DeleteUser h io ua callerID i d =
     (if i = [] then (bad_request ''User ID is required'', d)
      else if isSameUserID i callerID then (bad_request ''Cannot delete your own account'', d)
      else (case find_user io FindAccount i d of
              (Inl e, d1) \<Rightarrow> (mapped e ''User'', d1)
            | (Inr u, d1) \<Rightarrow>
                if isSameUserID (us_id u) callerID then (bad_request ''Cannot delete your own account'', d1)
                else (case change_account io (DeleteGuarded ua callerID (us_id u)) d1 of
                        (Inl e, d2) \<Rightarrow> (writeGuardedChangeError e, d2)
                      | (Inr _, d2) \<Rightarrow> (answer 204 NoContent KeepCookie, revokeUserAccess h io (us_id u) True d2))))"

definition setDisabled :: "'s auth_handler \<Rightarrow> 's auth_io \<Rightarrow> user_attempts \<Rightarrow> string \<Rightarrow> string \<Rightarrow> bool \<Rightarrow> 's auth_db \<Rightarrow> answer \<times> 's auth_db" where
  "setDisabled h io ua callerID i disabled d =
     (if i = [] then (bad_request ''User ID is required'', d)
      else if isSameUserID i callerID then (bad_request ''Cannot change your own account status'', d)
      else (case find_user io FindAccount i d of
              (Inl e, d1) \<Rightarrow> (mapped e ''User'', d1)
            | (Inr u, d1) \<Rightarrow>
                if isSameUserID (us_id u) callerID then (bad_request ''Cannot change your own account status'', d1)
                else (case change_account io (SetDisabled ua callerID (us_id u) disabled) d1 of
                        (Inl e, d2) \<Rightarrow> (writeGuardedChangeError e, d2)
                      | (Inr _, d2) \<Rightarrow>
                          (answer 200 (Message (if disabled then ''User disabled successfully'' else ''User enabled successfully'')) KeepCookie,
                           if disabled then revokeUserAccess h io (us_id u) False d2 else block_user h io UserBlock (us_id u) d2))))"

definition ResetUserPassword ::
  "'s auth_handler \<Rightarrow> 's auth_io \<Rightarrow> password_crypto \<Rightarrow> gtime \<Rightarrow> fault \<Rightarrow> string \<Rightarrow> string option \<Rightarrow> 's auth_db \<Rightarrow> answer \<times> 's auth_db" where
  "ResetUserPassword h io pc now flt i request d =
     (if i = [] then (bad_request ''User ID is required'', d)
      else (case request of
              None \<Rightarrow> (bad_request ''Invalid request format'', d)
            | Some password \<Rightarrow>
                if password = [] then (bad_request ''Invalid request format'', d)
                else if length password < 8 then (bad_request ''Password must be at least 8 characters'', d)
                else (case find_user io FindAccount i d of
                        (Inl e, d1) \<Rightarrow> (mapped e ''User'', d1)
                      | (Inr u, d1) \<Rightarrow>
                          if us_auth_provider u \<noteq> [] \<and> us_auth_provider u \<noteq> ''local'' then (bad_request ''Cannot reset password for non-local user'', d1)
                          else (case pc_generate pc password of
                                  None \<Rightarrow> (internal_error KeepCookie, d1)
                                | Some hash \<Rightarrow>
                                    (case change_account io (user_UpdatePassword flt now (us_id u) hash) d1 of
                                       (Inl e, d2) \<Rightarrow> (mapped e ''User'', d2)
                                     | (Inr _, d2) \<Rightarrow>
                                         (answer 200 (Message ''Password reset successfully'') KeepCookie, revokeUserAccess h io (us_id u) False d2))))))"

definition ChangeUserRole ::
  "'s auth_handler \<Rightarrow> 's auth_io \<Rightarrow> user_attempts \<Rightarrow> string \<Rightarrow> string \<Rightarrow> string option \<Rightarrow> 's auth_db \<Rightarrow> answer \<times> 's auth_db" where
  "ChangeUserRole h io ua callerID i request d =
     (if i = [] then (bad_request ''User ID is required'', d)
      else (case request of
              None \<Rightarrow> (bad_request ''Invalid request format'', d)
            | Some role \<Rightarrow>
                if role = [] then (bad_request ''Invalid request format'', d)
                else if \<not> IsValidRole role then (bad_request ''Role must be one of: user, devops, admin'', d)
                else if isSameUserID i callerID then (answer 403 (ErrorText ''Cannot change your own role'') KeepCookie, d)
                else (case find_user io FindAccount i d of
                        (Inl e, d1) \<Rightarrow> (mapped e ''User'', d1)
                      | (Inr u, d1) \<Rightarrow>
                          if isSameUserID (us_id u) callerID then (answer 403 (ErrorText ''Cannot change your own role'') KeepCookie, d1)
                          else if us_auth_provider u \<noteq> [] \<and> us_auth_provider u \<noteq> ''local''
                               then (answer 409 (ErrorText ''Role is managed by the identity provider'') KeepCookie, d1)
                          else (case change_account io (UpdateRole ua callerID (us_id u) role) d1 of
                                  (Inl e, d2) \<Rightarrow> (writeGuardedChangeError e, d2)
                                | (Inr oldRole, d2) \<Rightarrow>
                                    (answer 200 (RoleChanged (us_id u) oldRole role (oldRole \<noteq> role)) KeepCookie,
                                     if oldRole \<noteq> role then revokeUserAccess h io (us_id u) False d2 else d2)))))"

section \<open>API keys\<close>

text \<open>The caller of a request, as the authentication found it.\<close>

record caller =
  ca_role :: string
  ca_id :: string

definition canAccessUserKeys :: "caller \<Rightarrow> string \<Rightarrow> bool" where
  "canAccessUserKeys ca userID \<longleftrightarrow> ca_role ca = RoleAdmin \<or> ca_id ca = userID"

abbreviation Day :: duration where "Day \<equiv> 24 * Hour"

text \<open>The expiry of a request after its fields were parsed: a time, or the midnight at which a date begins.\<close>

datatype expiry_field = NoExpiry | InDays int | AtTime gtime | AtDate gtime | BothFields | BadFormat

definition key_expiry :: "gtime \<Rightarrow> expiry_field \<Rightarrow> string + gtime" where
  "key_expiry now f =
     (let future = (\<lambda>t. if now < t then Inr t else Inl ''Expiry date must be in the future'')
      in case f of
           BothFields \<Rightarrow> Inl ''Cannot specify both expires_at and expires_in_days''
         | InDays n \<Rightarrow> if n \<le> 0 then Inl ''expires_in_days must be positive'' else future (now + n * Day)
         | AtTime t \<Rightarrow> future t
         | AtDate t \<Rightarrow> future (t + (23 * Hour + 59 * Minute + 59 * Second))
         | BadFormat \<Rightarrow> Inl ''Invalid expires_at format; use YYYY-MM-DD or RFC3339''
         | NoExpiry \<Rightarrow> Inl ''Expiration is required; set expires_at or expires_in_days'')"

definition max_expiry :: "gtime \<Rightarrow> int \<Rightarrow> gtime" where
  "max_expiry now days = (now + days * Day) div Day * Day + (Day - 1)"

definition repo_answer :: "repo_error \<Rightarrow> string \<Rightarrow> answer" where
  "repo_answer e entityName = mapped (UserRepo e) entityName"

text \<open>\<open>raw\<close> is the random key, or \<open>None\<close> when the random numbers fail.\<close>

definition CreateAPIKey ::
  "int \<Rightarrow> key_crypto \<Rightarrow> 's auth_io \<Rightarrow> string \<Rightarrow> string option \<Rightarrow> caller \<Rightarrow> string \<Rightarrow> (string \<times> expiry_field) option \<Rightarrow> 's auth_db \<Rightarrow> answer \<times> 's auth_db" where
  "CreateAPIKey maxDays kc io uuid raw ca userID request d =
     (if userID = [] then (bad_request ''User ID is required'', d)
      else if \<not> canAccessUserKeys ca userID then (answer 403 (ErrorText ''Forbidden'') KeepCookie, d)
      else (case find_user io FindAccount userID d of
              (Inl e, d1) \<Rightarrow> (mapped e ''User'', d1)
            | (Inr _, d1) \<Rightarrow>
                (case request of
                   None \<Rightarrow> (bad_request ''Invalid request format'', d1)
                 | Some (name, field) \<Rightarrow>
                     if name = [] then (bad_request ''Invalid request format'', d1)
                     else (case key_expiry (ai_now io FindAccount) field of
                             Inl text \<Rightarrow> (bad_request text, d1)
                           | Inr expiresAt \<Rightarrow>
                               if 0 < maxDays \<and> max_expiry (ai_now io FindAccount) maxDays < expiresAt
                               then (bad_request (''Expiry exceeds maximum allowed lifetime of '' @ digits (nat maxDays) @ '' days''), d1)
                               else (case raw of
                                       None \<Rightarrow> (internal_error KeepCookie, d1)
                                     | Some rawKey \<Rightarrow>
                                         (case GenerateAPIKey kc rawKey of
                                            (r, prefix, hash) \<Rightarrow>
                                              (case call io CreateKey (\<lambda>flt now d.
                                                      let res = key_Create flt now uuid
                                                        \<lparr>ak_id = [], ak_user_id = userID, ak_name = name, ak_key_hash = hash, ak_prefix = prefix,
                                                         ak_created_at = zero_time, ak_last_used_at = None, ak_expires_at = Some expiresAt\<rparr> (ad_api_keys d)
                                                      in (fst res, d\<lparr>ad_api_keys := snd res\<rparr>)) d1 of
                                                 (Inl e, d2) \<Rightarrow> (repo_answer e ''API key'', d2)
                                               | (Inr k, d2) \<Rightarrow> (answer 201 (KeyCreated k (''sk_'' @ r)) KeepCookie, d2))))))))"

definition ListAPIKeys :: "'s auth_io \<Rightarrow> caller \<Rightarrow> string \<Rightarrow> 's auth_db \<Rightarrow> answer \<times> 's auth_db" where
  "ListAPIKeys io ca userID d =
     (if userID = [] then (bad_request ''User ID is required'', d)
      else if \<not> canAccessUserKeys ca userID then (answer 403 (ErrorText ''Forbidden'') KeepCookie, d)
      else (case find_user io FindAccount userID d of
              (Inl e, d1) \<Rightarrow> (mapped e ''User'', d1)
            | (Inr _, d1) \<Rightarrow>
                (case ask io ListKeys (\<lambda>flt now d. key_ListByUser flt userID (ad_api_keys d)) d1 of
                   (Inl e, d2) \<Rightarrow> (repo_answer e ''API key'', d2)
                 | (Inr keys, d2) \<Rightarrow> (answer 200 (KeyList keys) KeepCookie, d2))))"

definition DeleteAPIKey :: "'s auth_handler \<Rightarrow> 's auth_io \<Rightarrow> caller \<Rightarrow> string \<Rightarrow> string \<Rightarrow> 's auth_db \<Rightarrow> answer \<times> 's auth_db" where
  "DeleteAPIKey h io ca userID keyID d =
     (if userID = [] \<or> keyID = [] then (bad_request ''User ID and key ID are required'', d)
      else if \<not> canAccessUserKeys ca userID then (answer 403 (ErrorText ''Forbidden'') KeepCookie, d)
      else (case call io DeleteKey (\<lambda>flt now d. let r = key_Delete flt userID keyID (ad_api_keys d) in (fst r, d\<lparr>ad_api_keys := snd r\<rparr>)) d of
              (Inl e, d1) \<Rightarrow> (repo_answer e ''API key'', d1)
            | (Inr _, d1) \<Rightarrow> (answer 204 NoContent KeepCookie, disconnect h (DisconnectAPIKey keyID) d1)))"

section \<open>Access token or API key\<close>

datatype principal = TokenCaller claims | KeyCaller api_key user

definition CombinedAuth ::
  "'s store_ops option \<Rightarrow> (string \<rightharpoonup> claims) \<Rightarrow> key_crypto \<Rightarrow> (nat \<Rightarrow> fault) \<Rightarrow> key_io \<Rightarrow> string \<Rightarrow> string \<Rightarrow> 's auth_db \<Rightarrow> (nat \<times> string) + principal" where
  "CombinedAuth store verify kc flt io authHeader apiKeyHeader d =
     (if HasPrefix (ToLower authHeader) ''bearer '' then
        (case AuthRequired store verify flt (ki_now io) authHeader (ad_store d) of Inl text \<Rightarrow> Inl (401, text) | Inr c \<Rightarrow> Inr (TokenCaller c))
      else if apiKeyHeader = [] then Inl (401, ''Authorization required'')
      else (case authenticateAPIKey kc io apiKeyHeader (ad_api_keys d) (ad_accounts d) of
              Inl f \<Rightarrow> Inl (kf_status f, kf_message f)
            | Inr (k, u) \<Rightarrow> Inr (KeyCaller k u)))"

definition caller_of :: "principal \<Rightarrow> caller" where
  "caller_of p = (case p of TokenCaller c \<Rightarrow> \<lparr>ca_role = cl_role c, ca_id = cl_user_id c\<rparr> | KeyCaller _ u \<Rightarrow> \<lparr>ca_role = us_role u, ca_id = us_id u\<rparr>)"

section \<open>A change of an account ends its sessions\<close>

lemma RevokeAllForUser_dead:
  assumes "family_of f userID (t, U)" "EqualFold userID userID'"
  shows "\<not> family_active f (snd (RevokeAllForUser None userID' t))"
  using assms EqualFold_trans
  by (auto simp: RevokeAllForUser_def token_update_snd family_active_def list_ex_iff set_sql_update in_family_def family_of_def)

lemma other_run: "auth_run h clk d (d\<lparr>ad_accounts := a\<rparr>)" "auth_run h clk d (d\<lparr>ad_api_keys := k\<rparr>)"
proof -
  have "auth_step (ah_store h) (ah_config h) clk d (d\<lparr>ad_accounts := a, ad_api_keys := ad_api_keys d, ad_sockets := ad_sockets d\<rparr>)"
    "auth_step (ah_store h) (ah_config h) clk d (d\<lparr>ad_accounts := ad_accounts d, ad_api_keys := k, ad_sockets := ad_sockets d\<rparr>)"
    by (rule other_write)+
  then show "auth_run h clk d (d\<lparr>ad_accounts := a\<rparr>)" "auth_run h clk d (d\<lparr>ad_api_keys := k\<rparr>)" using run_step [OF run_refl] by fastforce+
qed

lemma change_account_run: "others h clk io \<Longrightarrow> auth_run h clk d (snd (change_account io f d))"
  unfolding change_account_def call_def Let_def by simp (rule run_trans [OF env_run other_run(1)])

text \<open>The rest of a revoke after the refresh tokens.\<close>

definition after_revoke :: "'s auth_handler \<Rightarrow> 's auth_io \<Rightarrow> string \<Rightarrow> bool \<Rightarrow> 's auth_db \<Rightarrow> 's auth_db" where
  "after_revoke h io userID deleteAPIKeys d1 =
     (let d2 = block_user h io UserBlock userID d1;
          d3 = (if deleteAPIKeys
                then snd (call io DeleteKeys (\<lambda>flt now d. let r = key_DeleteAllForUser flt userID (ad_api_keys d) in (fst r, d\<lparr>ad_api_keys := snd r\<rparr>)) d2) else d2)
      in disconnect h (DisconnectUser userID) d3)"

lemma after_revoke_run: "others h clk io \<Longrightarrow> auth_run h clk d (after_revoke h io userID keys d)"
proof -
  assume o: "others h clk io"
  have k: "auth_run h clk e (snd (call io DeleteKeys (\<lambda>flt now d. (fst (key_DeleteAllForUser flt userID (ad_api_keys d)),
      d\<lparr>ad_api_keys := snd (key_DeleteAllForUser flt userID (ad_api_keys d))\<rparr>)) e))" for e
    unfolding call_def by simp (rule run_trans [OF env_run [OF o] other_run(2)])
  show ?thesis unfolding after_revoke_def Let_def
    using run_trans [OF blocks_run(2) [OF o] disconnect_run] run_trans [OF blocks_run(2) [OF o] run_trans [OF k disconnect_run]] by simp
qed

lemma revokeUserAccess_ends:
  assumes "others h clk io" "ah_refresh h" "ai_fault io RevokeAll = None" "auth_ok (ah_config h) d"
    and "family_of f owner (ad_tokens d, ad_drawn d)" "EqualFold owner userID" "auth_run h clk (revokeUserAccess h io userID keys d) d'"
  shows "dead_family f (ad_tokens d', ad_drawn d')"
proof -
  define dR where "dR = snd (revoke_call io RevokeAll (\<lambda>flt. RevokeAllForUser flt userID) d)"
  let ?d = "ai_env io RevokeAll d"
  have env: "(auth_step (ah_store h) (ah_config h) clk)\<^sup>*\<^sup>* d ?d" using env_run [OF assms(1)] by (simp add: auth_run_def)
  have fam: "family_of f owner (ad_tokens ?d, ad_drawn ?d)"
    using family.keeps_star [OF auth_steps_tokens [OF env]] assms(4,5) unfolding auth_ok_def by blast
  have run: "auth_run h clk d dR" unfolding dR_def by (rule revoke_runs(4) [OF assms(1)])
  have ok: "auth_ok (ah_config h) dR" using auths.keeps_star [OF run [unfolded auth_run_def] assms(4)] .
  have dR: "dR = ?d\<lparr>ad_tokens := snd (RevokeAllForUser None userID (ad_tokens ?d))\<rparr>"
    using assms(3) by (simp add: dR_def call_def on_tokens_def Let_def)
  have dead: "dead_family f (ad_tokens dR, ad_drawn dR)"
    using RevokeAllForUser_dead [OF fam assms(6)] fam by (simp add: dR dead_family_def family_of_def)
  have "revokeUserAccess h io userID keys d = after_revoke h io userID keys dR"
    using assms(2) by (simp add: revokeUserAccess_def after_revoke_def Let_def dR_def)
  then have "auth_run h clk dR d'" using run_trans [OF after_revoke_run [OF assms(1)]] assms(7) by simp
  then show ?thesis using dead_stays [OF _ ok dead] by (simp add: auth_run_def)
qed

text \<open>The four changes that end sessions, and whether an answer says that the change happened.\<close>

datatype account_change = Delete user_attempts | Disable user_attempts | ResetPassword password_crypto gtime fault "string option" | SetRole user_attempts "string option"

definition change_user :: "'s auth_handler \<Rightarrow> 's auth_io \<Rightarrow> string \<Rightarrow> string \<Rightarrow> account_change \<Rightarrow> 's auth_db \<Rightarrow> answer \<times> 's auth_db" where
  "change_user h io callerID i ch d =
     (case ch of
        Delete ua \<Rightarrow> DeleteUser h io ua callerID i d
      | Disable ua \<Rightarrow> setDisabled h io ua callerID i True d
      | ResetPassword pc now flt request \<Rightarrow> ResetUserPassword h io pc now flt i request d
      | SetRole ua request \<Rightarrow> ChangeUserRole h io ua callerID i request d)"

definition changed :: "answer \<Rightarrow> bool" where
  "changed a \<longleftrightarrow> (an_status a = 200 \<or> an_status a = 204) \<and> (case an_body a of RoleChanged _ _ _ c \<Rightarrow> c | _ \<Rightarrow> True)"

lemma mapped_not_changed: "\<not> changed (mapped e entityName)" "\<not> changed (writeGuardedChangeError e)"
  by (auto simp: changed_def mapped_def mapError_def writeGuardedChangeError_def Let_def split: user_error.split)

text \<open>A confirmed change was written to the account that was found, and its access was revoked.\<close>

definition revoked_after :: "'s auth_handler \<Rightarrow> 's auth_io \<Rightarrow> string \<Rightarrow> 's auth_db \<Rightarrow> 's auth_db \<Rightarrow> bool" where
  "revoked_after h io i d d1 \<longleftrightarrow> (\<exists>u d0 a keys. find_user io FindAccount i d = (Inr u, d0)
     \<and> d1 = revokeUserAccess h io (us_id u) keys ((ai_env io ChangeAccount d0)\<lparr>ad_accounts := a\<rparr>))"

lemma change_account_form: "change_account io f d = (r, d2) \<Longrightarrow> d2 = (ai_env io ChangeAccount d)\<lparr>ad_accounts := snd (f (ad_accounts (ai_env io ChangeAccount d)))\<rparr>"
  by (auto simp: change_account_def call_def Let_def)

lemmas change_splits = if_splits option.splits prod.splits sum.splits

lemma DeleteUser_revokes: "DeleteUser h io ua callerID i d = (a, d1) \<Longrightarrow> changed a \<Longrightarrow> revoked_after h io i d d1"
  unfolding DeleteUser_def revoked_after_def
  by (auto simp: mapped_not_changed split: change_splits dest!: change_account_form) (auto simp: changed_def)

lemma setDisabled_revokes: "setDisabled h io ua callerID i True d = (a, d1) \<Longrightarrow> changed a \<Longrightarrow> revoked_after h io i d d1"
  unfolding setDisabled_def revoked_after_def
  by (auto simp: mapped_not_changed split: change_splits dest!: change_account_form) (auto simp: changed_def)

lemma ResetUserPassword_revokes: "ResetUserPassword h io pc now flt i request d = (a, d1) \<Longrightarrow> changed a \<Longrightarrow> revoked_after h io i d d1"
  unfolding ResetUserPassword_def revoked_after_def
  by (auto simp: mapped_not_changed split: change_splits dest!: change_account_form) (auto simp: changed_def)

lemma ChangeUserRole_revokes: "ChangeUserRole h io ua callerID i request d = (a, d1) \<Longrightarrow> changed a \<Longrightarrow> revoked_after h io i d d1"
  unfolding ChangeUserRole_def revoked_after_def
  by (auto simp: mapped_not_changed split: change_splits dest!: change_account_form) (auto simp: changed_def)

lemma change_user_revokes: "change_user h io callerID i ch d = (a, d1) \<Longrightarrow> changed a \<Longrightarrow> revoked_after h io i d d1"
  by (cases ch) (auto simp: change_user_def intro: DeleteUser_revokes setDisabled_revokes ResetUserPassword_revokes ChangeUserRole_revokes)


section \<open>The lifetime of API keys\<close>

lemma key_expiry_future: "key_expiry now f = Inr e \<Longrightarrow> now < e"
  by (auto simp: key_expiry_def Let_def split: expiry_field.splits if_splits)

text \<open>Only an admin or the user itself creates an API key, and a created key expires: later than now, and with a configured maximum not after the
  end of the last allowed day.\<close>

theorem api_key_lifetime_bounded:
  assumes "CreateAPIKey maxDays kc io uuid raw ca userID request d = (a, d')" "an_status a = 201"
  shows "(ca_role ca = RoleAdmin \<or> ca_id ca = userID)
    \<and> (\<exists>k e. ad_api_keys d' = ad_api_keys (ai_env io CreateKey (ai_env io FindAccount d)) @ [k] \<and> ak_user_id k = userID \<and> ak_expires_at k = Some e
        \<and> ai_now io FindAccount < e \<and> (0 < maxDays \<longrightarrow> e div Day \<le> (ai_now io FindAccount + maxDays * Day) div Day))"
proof -
  let ?now = "ai_now io FindAccount"
  obtain u d1 name f e rawKey where u: "find_user io FindAccount userID d = (Inr u, d1)" and e: "key_expiry ?now f = Inr e"
    and m: "\<not> (0 < maxDays \<and> max_expiry ?now maxDays < e)" and c: "canAccessUserKeys ca userID"
    and k: "(case call io CreateKey (\<lambda>flt now d. let res = key_Create flt now uuid
        \<lparr>ak_id = [], ak_user_id = userID, ak_name = name, ak_key_hash = kc_sha256 kc rawKey, ak_prefix = take 16 rawKey,
         ak_created_at = zero_time, ak_last_used_at = None, ak_expires_at = Some e\<rparr> (ad_api_keys d) in (fst res, d\<lparr>ad_api_keys := snd res\<rparr>)) d1 of
      (Inl e, d2) \<Rightarrow> (repo_answer e ''API key'', d2)
    | (Inr k, d2) \<Rightarrow> (answer 201 (KeyCreated k (''sk_'' @ rawKey)) KeepCookie, d2)) = (a, d')"
    using assms by (auto simp: CreateAPIKey_def GenerateAPIKey_def mapped_status split: if_splits option.splits prod.splits sum.splits)
  have "e div Day \<le> (?now + maxDays * Day) div Day" if "0 < maxDays"
  proof -
    have "e div Day \<le> max_expiry ?now maxDays div Day" using m that by (intro zdiv_mono1) simp_all
    also have "\<dots> = (?now + maxDays * Day) div Day" by (simp add: max_expiry_def)
    finally show ?thesis .
  qed
  moreover have "d1 = ai_env io FindAccount d" using u by (simp add: find_user_def ask_def call_def)
  ultimately show ?thesis using k assms(2) c key_expiry_future [OF e]
    by (auto simp: call_def Let_def key_Create_def canAccessUserKeys_def repo_answer_def mapped_status split: if_splits option.splits sum.splits)
qed

section \<open>Witnesses\<close>

definition local_db :: "session_entries auth_db" where
  "local_db = example_db\<lparr>ad_accounts := \<lparr>ac_users = [example_user\<lparr>us_id := ''ann'', us_auth_provider := ''local''\<rparr>], ac_followers = []\<rparr>\<rparr>"

lemma local_db_ok: "auth_ok (ah_config example_handler) local_db"
  using example_db_ok by (simp add: local_db_def auth_ok_def)

lemma example_reset:
  "fst (change_user example_handler example_io ''boss'' ''ann'' (ResetPassword example_passwords 7 None (Some ''password'')) local_db)
     = answer 200 (Message ''Password reset successfully'') KeepCookie"
proof -
  let ?u = "example_user\<lparr>us_id := ''ann'', us_auth_provider := ''local''\<rparr>"
  have u: "find_user example_io FindAccount ''ann'' local_db = (Inr ?u, local_db)"
    by (simp add: find_user_def ask_def call_def example_io_def local_db_def user_FindByID_def row_of_def user_key_def)
  have "fst (change_account example_io (user_UpdatePassword None 7 ''ann'' ''password'') local_db) = Inr ()"
    by (simp add: change_account_def call_def example_io_def user_UpdatePassword_def Let_def rows_changed_def local_db_def user_key_def example_user_def)
  then obtain d2 where c: "change_account example_io (user_UpdatePassword None 7 ''ann'' ''password'') local_db = (Inr (), d2)" by (metis prod.collapse)
  have g: "pc_generate example_passwords = Some" by (simp add: example_passwords_def)
  show ?thesis by (simp add: change_user_def ResetUserPassword_def u c g)
qed


theorem api_key_lifetime_bounded_witness:
  "ad_api_keys (snd (CreateAPIKey 30 example_crypto example_io ''k1'' (Some ''raw'') \<lparr>ca_role = ''user'', ca_id = ''ann''\<rparr> ''ann'' (Some (''ci'', InDays 30)) local_db)) \<noteq> []"
proof -
  let ?r = "CreateAPIKey 30 example_crypto example_io ''k1'' (Some ''raw'') \<lparr>ca_role = ''user'', ca_id = ''ann''\<rparr> ''ann'' (Some (''ci'', InDays 30)) local_db"
  have "find_user example_io FindAccount ''ann'' local_db = (Inr (example_user\<lparr>us_id := ''ann'', us_auth_provider := ''local''\<rparr>), local_db)"
    by (simp add: find_user_def ask_def call_def example_io_def local_db_def user_FindByID_def row_of_def user_key_def)
  then have "an_status (fst ?r) = 201"
    by (simp add: CreateAPIKey_def canAccessUserKeys_def key_expiry_def max_expiry_def GenerateAPIKey_def call_def key_Create_def Let_def example_io_def local_db_def example_db_def)
  from api_key_lifetime_bounded [OF prod.collapse [symmetric, of ?r] this] show ?thesis by auto
qed

end
