(* ===== verification/Leader.thy ===== *)
theory Leader
  imports Prelude
begin

text \<open>
  Leader election (\<open>leader/leader.go\<close>), the group of leader workers (\<open>leader/group.go\<close>) and the shutdown of both
  (\<open>leaderRuntime\<close> of \<open>src/backend/api/bootstrap.go\<close>). The election itself is the library client-go: a lease may be acquired and lost
  at any time. The goroutines of all terms are modelled by their phases, and every interleaving of them with the calls
  of the group is a run of \<open>group_step\<close>.
\<close>

section \<open>The worker group\<close>

text \<open>
  The goroutine of a term waits for the term before it (\<open>Waiting\<close>); if the context of the term ends first, it starts nothing
  and only waits on (\<open>Giving_up\<close>); \<open>Working ws\<close> has the workers that did not return yet; \<open>Ended\<close> has closed \<open>done\<close>.
\<close>

datatype phase = Waiting | Giving_up | Working "string list" | Ended

record leader_term =
  tm_prev :: "nat option"
  tm_cancelled :: bool
  tm_workers :: "string list"
  tm_phase :: phase

text \<open>\<open>gr_active\<close> is the term of \<open>cancel\<close> and \<open>done\<close>, \<open>gr_prev_done\<close> that of \<open>prevDone\<close>; \<open>gr_terms\<close> are all terms so far, by number.\<close>

record group =
  gr_workers :: "string list"
  gr_active :: "nat option"
  gr_prev_done :: "nat option"
  gr_closed :: bool
  gr_terms :: "leader_term list"

definition NewGroup :: "string list \<Rightarrow> group" where
  "NewGroup workers = \<lparr>gr_workers = workers, gr_active = None, gr_prev_done = None, gr_closed = False, gr_terms = []\<rparr>"

definition group_Add :: "string \<Rightarrow> group \<Rightarrow> group" where
  "group_Add w g = g\<lparr>gr_workers := gr_workers g @ [w]\<rparr>"

definition group_Running :: "group \<Rightarrow> bool" where
  "group_Running g \<longleftrightarrow> gr_active g \<noteq> None"

definition group_Start :: "group \<Rightarrow> group" where
  "group_Start g =
     (if gr_closed g \<or> gr_active g \<noteq> None then g
      else g\<lparr>gr_terms := gr_terms g @ [\<lparr>tm_prev = gr_prev_done g, tm_cancelled = False, tm_workers = gr_workers g, tm_phase = Waiting\<rparr>],
             gr_active := Some (length (gr_terms g))\<rparr>)"

definition update_term :: "nat \<Rightarrow> (leader_term \<Rightarrow> leader_term) \<Rightarrow> group \<Rightarrow> group" where
  "update_term k f g = g\<lparr>gr_terms := (gr_terms g)[k := f (gr_terms g ! k)]\<rparr>"

definition cancel_term :: "nat \<Rightarrow> group \<Rightarrow> group" where
  "cancel_term k = update_term k (\<lambda>t. t\<lparr>tm_cancelled := True\<rparr>)"

text \<open>The part of \<open>stop\<close> under the lock, and the cancel: the term that it then waits for.\<close>

definition stop_begin :: "group \<Rightarrow> nat option \<times> group" where
  "stop_begin g =
     (case gr_active g of
        None \<Rightarrow> (None, g)
      | Some k \<Rightarrow> (Some k, cancel_term k (g\<lparr>gr_active := None, gr_prev_done := Some k\<rparr>)))"

definition term_ended :: "nat \<Rightarrow> group \<Rightarrow> bool" where
  "term_ended k g \<longleftrightarrow> k < length (gr_terms g) \<and> tm_phase (gr_terms g ! k) = Ended"

text \<open>The wait of \<open>stop\<close>: true at once without a term, else when \<open>done\<close> is closed; false when the timer fires first.\<close>

definition stop_answers :: "nat option \<Rightarrow> bool \<Rightarrow> group \<Rightarrow> bool" where
  "stop_answers waits answer g = (case waits of None \<Rightarrow> answer | Some k \<Rightarrow> answer \<longrightarrow> term_ended k g)"

definition group_Close :: "group \<Rightarrow> nat option \<times> group" where
  "group_Close g = stop_begin (g\<lparr>gr_closed := True\<rparr>)"

text \<open>The next phases of the goroutine of a term; \<open>ended\<close> tells whether the term before it has ended.\<close>

definition term_next :: "bool \<Rightarrow> leader_term \<Rightarrow> phase list" where
  "term_next ended t =
     (case tm_phase t of
        Waiting \<Rightarrow>
          (if tm_prev t = None \<or> ended then [Working (tm_workers t)] else [])
            @ (if tm_prev t \<noteq> None \<and> tm_cancelled t then [Giving_up] else [])
      | Giving_up \<Rightarrow> if ended then [Ended] else []
      | Working ws \<Rightarrow> if ws = [] then [Ended] else map (\<lambda>w. Working (remove1 w ws)) ws
      | Ended \<Rightarrow> [])"

definition prev_ended :: "leader_term \<Rightarrow> group \<Rightarrow> bool" where
  "prev_ended t g = (case tm_prev t of None \<Rightarrow> False | Some p \<Rightarrow> term_ended p g)"

definition set_phase :: "nat \<Rightarrow> phase \<Rightarrow> group \<Rightarrow> group" where
  "set_phase k ph = update_term k (\<lambda>t. t\<lparr>tm_phase := ph\<rparr>)"

text \<open>The steps of the goroutines, with the end of the context of a term by the caller of \<open>Start\<close>, and the calls of the group.\<close>

inductive term_step :: "group \<Rightarrow> group \<Rightarrow> bool" where
  context_over: "k < length (gr_terms g) \<Longrightarrow> term_step g (cancel_term k g)"
| goroutine: "k < length (gr_terms g) \<Longrightarrow> ph \<in> set (term_next (prev_ended (gr_terms g ! k) g) (gr_terms g ! k)) \<Longrightarrow> term_step g (set_phase k ph g)"

inductive group_step :: "group \<Rightarrow> group \<Rightarrow> bool" where
  goroutines: "term_step g g' \<Longrightarrow> group_step g g'"
| added: "group_step g (group_Add w g)"
| started: "group_step g (group_Start g)"
| stopping: "group_step g (snd (stop_begin g))"
| closing: "group_step g (snd (group_Close g))"

definition working :: "nat \<Rightarrow> group \<Rightarrow> bool" where
  "working k g \<longleftrightarrow> k < length (gr_terms g) \<and> (\<exists>ws. tm_phase (gr_terms g ! k) = Working ws)"

section \<open>Terms do not overlap\<close>

text \<open>Every term waits for the one before it, and what works or has ended comes after terms that have ended.\<close>

definition chain_ok :: "group \<Rightarrow> bool" where
  "chain_ok g \<longleftrightarrow> (\<forall>k<length (gr_terms g). tm_prev (gr_terms g ! k) = (if k = 0 then None else Some (k - 1)))"

definition active_ok :: "nat \<Rightarrow> nat option \<Rightarrow> nat option \<Rightarrow> bool" where
  "active_ok n active prev =
     (case active of
        None \<Rightarrow> prev = (if n = 0 then None else Some (n - 1))
      | Some k \<Rightarrow> n = Suc k \<and> prev = (if k = 0 then None else Some (k - 1)))"

definition ordered :: "group \<Rightarrow> bool" where
  "ordered g \<longleftrightarrow> (\<forall>k j. working k g \<or> term_ended k g \<longrightarrow> j < k \<longrightarrow> term_ended j g)"

definition group_ok :: "group \<Rightarrow> bool" where
  "group_ok g \<longleftrightarrow> chain_ok g \<and> active_ok (length (gr_terms g)) (gr_active g) (gr_prev_done g) \<and> ordered g"

lemma update_term_simps [simp]:
  "gr_active (update_term k f g) = gr_active g" "gr_prev_done (update_term k f g) = gr_prev_done g" "gr_closed (update_term k f g) = gr_closed g"
  "length (gr_terms (update_term k f g)) = length (gr_terms g)" "gr_workers (update_term k f g) = gr_workers g"
  by (simp_all add: update_term_def)

lemma update_term_nth: "j < length (gr_terms g) \<Longrightarrow> gr_terms (update_term k f g) ! j = (if j = k then f (gr_terms g ! k) else gr_terms g ! j)"
  by (simp add: update_term_def nth_list_update)

lemma term_ended_update:
  "term_ended j (update_term k f g) \<longleftrightarrow> (if j = k then k < length (gr_terms g) \<and> tm_phase (f (gr_terms g ! k)) = Ended else term_ended j g)"
  by (auto simp: term_ended_def update_term_nth)

lemma working_update:
  "working j (update_term k f g) \<longleftrightarrow> (if j = k then k < length (gr_terms g) \<and> (\<exists>ws. tm_phase (f (gr_terms g ! k)) = Working ws) else working j g)"
  by (auto simp: working_def update_term_nth)

lemma chain_update: "chain_ok g \<Longrightarrow> (\<And>t. tm_prev (f t) = tm_prev t) \<Longrightarrow> chain_ok (update_term k f g)"
  by (auto simp: chain_ok_def update_term_nth)

lemma cancel_term_phases [simp]: "term_ended j (cancel_term k g) \<longleftrightarrow> term_ended j g" "working j (cancel_term k g) \<longleftrightarrow> working j g"
  unfolding cancel_term_def term_ended_update working_update by (auto simp: term_ended_def working_def)

lemma group_ok_cancel: "group_ok g \<Longrightarrow> group_ok (cancel_term k g)"
  unfolding group_ok_def ordered_def cancel_term_phases by (auto simp: cancel_term_def intro: chain_update)

lemma new_term_phases:
  "term_ended j (g\<lparr>gr_terms := gr_terms g @ [t], gr_active := a\<rparr>) \<longleftrightarrow> term_ended j g \<or> j = length (gr_terms g) \<and> tm_phase t = Ended"
  "working j (g\<lparr>gr_terms := gr_terms g @ [t], gr_active := a\<rparr>) \<longleftrightarrow> working j g \<or> j = length (gr_terms g) \<and> (\<exists>ws. tm_phase t = Working ws)"
  by (auto simp: term_ended_def working_def nth_append)

lemma group_ok_Start:
  assumes "group_ok g"
  shows "group_ok (group_Start g)"
proof (cases "gr_closed g \<or> gr_active g \<noteq> None")
  case False
  let ?g = "g\<lparr>gr_terms := gr_terms g @ [\<lparr>tm_prev = gr_prev_done g, tm_cancelled = False, tm_workers = gr_workers g, tm_phase = Waiting\<rparr>],
      gr_active := Some (length (gr_terms g))\<rparr>"
  have prev: "gr_prev_done g = (if length (gr_terms g) = 0 then None else Some (length (gr_terms g) - 1))"
    using assms False by (simp add: group_ok_def active_ok_def)
  have "chain_ok ?g" using assms prev by (auto simp: group_ok_def chain_ok_def nth_append less_Suc_eq)
  moreover have "ordered ?g" using assms unfolding group_ok_def ordered_def new_term_phases by auto
  ultimately have "group_ok ?g" using prev by (simp add: group_ok_def active_ok_def)
  with False show ?thesis by (simp add: group_Start_def)
qed (use assms in \<open>simp add: group_Start_def\<close>)

lemma phases_frame: "term_ended j (g\<lparr>gr_active := a, gr_prev_done := p\<rparr>) \<longleftrightarrow> term_ended j g" "working j (g\<lparr>gr_active := a, gr_prev_done := p\<rparr>) \<longleftrightarrow> working j g"
  by (simp_all add: term_ended_def working_def)

lemma stop_begin_phases [simp]: "term_ended j (snd (stop_begin g)) \<longleftrightarrow> term_ended j g" "working j (snd (stop_begin g)) \<longleftrightarrow> working j g"
  by (simp_all add: stop_begin_def phases_frame split: option.split)

lemma group_ok_stop:
  assumes "group_ok g"
  shows "group_ok (snd (stop_begin g))"
proof (cases "gr_active g")
  case (Some k)
  have "group_ok (g\<lparr>gr_active := None, gr_prev_done := Some k\<rparr>)"
    using assms Some by (simp add: group_ok_def ordered_def phases_frame chain_ok_def active_ok_def)
  with Some show ?thesis by (simp add: stop_begin_def group_ok_cancel)
qed (use assms in \<open>simp add: stop_begin_def\<close>)

lemma phases_settings: "term_ended j (g\<lparr>gr_closed := c, gr_workers := w\<rparr>) \<longleftrightarrow> term_ended j g" "working j (g\<lparr>gr_closed := c, gr_workers := w\<rparr>) \<longleftrightarrow> working j g"
  by (simp_all add: term_ended_def working_def)

lemma group_ok_frame: "group_ok g \<Longrightarrow> group_ok (g\<lparr>gr_closed := c, gr_workers := w\<rparr>)"
  unfolding group_ok_def ordered_def phases_settings by (simp add: chain_ok_def)

text \<open>A goroutine that starts its workers or ends comes after terms that have ended.\<close>

lemma goroutine_after:
  assumes "group_ok g" "k < length (gr_terms g)" "ph \<in> set (term_next (prev_ended (gr_terms g ! k) g) (gr_terms g ! k))"
    and "ph = Ended \<or> (\<exists>ws. ph = Working ws)" "j < k"
  shows "term_ended j g"
proof -
  have prev: "tm_prev (gr_terms g ! k) = Some (k - 1)" using assms(1,2,5) by (simp add: group_ok_def chain_ok_def)
  have "working k g \<or> term_ended (k - 1) g"
    using assms(2-4) prev by (auto simp: term_next_def prev_ended_def working_def split: phase.splits if_splits)
  moreover have "j < k - 1 \<or> j = k - 1" using assms(5) by linarith
  moreover have ord: "\<And>k j. working k g \<or> term_ended k g \<Longrightarrow> j < k \<Longrightarrow> term_ended j g" using assms(1) by (auto simp: group_ok_def ordered_def)
  ultimately show ?thesis using ord [of k j] ord [of "k - 1" j] assms(5) by blast
qed

lemma group_ok_goroutine:
  assumes "group_ok g" "k < length (gr_terms g)" "ph \<in> set (term_next (prev_ended (gr_terms g ! k) g) (gr_terms g ! k))"
  shows "group_ok (set_phase k ph g)"
proof -
  have ord: "\<And>k j. working k g \<or> term_ended k g \<Longrightarrow> j < k \<Longrightarrow> term_ended j g" using assms(1) by (auto simp: group_ok_def ordered_def)
  have "\<not> term_ended k g" using assms(2,3) by (auto simp: term_next_def term_ended_def)
  then have after: "\<not> (working j g \<or> term_ended j g)" if "k < j" for j using ord that by blast
  have e: "term_ended i (set_phase k ph g) \<longleftrightarrow> (if i = k then ph = Ended else term_ended i g)" for i
    using assms(2) by (simp add: set_phase_def term_ended_update)
  have w: "working i (set_phase k ph g) \<longleftrightarrow> (if i = k then \<exists>ws. ph = Working ws else working i g)" for i
    using assms(2) by (simp add: set_phase_def working_update)
  have "term_ended i (set_phase k ph g)" if a: "working j (set_phase k ph g) \<or> term_ended j (set_phase k ph g)" "i < j" for i j
  proof (cases "j = k")
    case True
    with a have "ph = Ended \<or> (\<exists>ws. ph = Working ws)" by (simp add: e w) blast
    with goroutine_after [OF assms] True a(2) show ?thesis by (simp add: e)
  next
    case False
    with a have j: "working j g \<or> term_ended j g" by (simp add: e w)
    with after False have "j < k" by (metis linorder_neqE_nat)
    with ord [OF j] a(2) show ?thesis by (simp add: e)
  qed
  then have "ordered (set_phase k ph g)" unfolding ordered_def by blast
  moreover have "chain_ok (set_phase k ph g)" unfolding set_phase_def using assms(1) by (intro chain_update) (simp_all add: group_ok_def)
  ultimately show ?thesis using assms(1) by (simp add: group_ok_def set_phase_def)
qed

lemma group_ok_term_step: "term_step g g' \<Longrightarrow> group_ok g \<Longrightarrow> group_ok g'"
  by (induction rule: term_step.induct) (auto intro: group_ok_cancel group_ok_goroutine)

lemma group_ok_Close: "group_ok g \<Longrightarrow> group_ok (snd (group_Close g))"
  using group_ok_stop [OF group_ok_frame [where g = g and c = True and w = "gr_workers g"]] by (simp add: group_Close_def)

lemma group_ok_Add: "group_ok g \<Longrightarrow> group_ok (group_Add w g)"
  using group_ok_frame [where g = g and c = "gr_closed g" and w = "gr_workers g @ [w]"] by (simp add: group_Add_def)

lemma group_ok_New: "group_ok (NewGroup ws)"
  by (simp add: group_ok_def NewGroup_def chain_ok_def active_ok_def ordered_def working_def term_ended_def)

interpretation groups: invariant_system group_step group_ok
  by unfold_locales (auto elim!: group_step.cases intro: group_ok_term_step group_ok_Start group_ok_stop group_ok_Close group_ok_Add)

lemma ended_not_working: "term_ended k g \<Longrightarrow> \<not> working k g"
  by (auto simp: working_def term_ended_def)

text \<open>C13. Leader workers of two terms never run at the same time, however the calls of the group and the goroutines interleave,
  also when a stop gave up waiting: the workers of a new term start after all workers before them have returned.\<close>

theorem terms_never_overlap:
  assumes "group_step\<^sup>*\<^sup>* (NewGroup ws) g" "working i g"
  shows "(\<forall>j. working j g \<longrightarrow> j = i) \<and> (\<forall>j<i. term_ended j g)"
proof -
  have ok: "group_ok g" using groups.keeps_star [OF assms(1) group_ok_New] .
  show ?thesis using ok assms(2) ended_not_working unfolding group_ok_def ordered_def by (metis linorder_neqE_nat)
qed

section \<open>The elector\<close>

record leader_config =
  lc_lease_duration :: duration
  lc_renew_deadline :: duration
  lc_retry_period :: duration
  lc_lease_name :: string
  lc_namespace :: string
  lc_identity :: string
  lc_enabled :: bool

text \<open>\<open>jitter\<close> is the multiplication by the constant \<open>JitterFactor\<close> of client-go, \<open>factor\<close> its text.\<close>

definition leader_Validate :: "(duration \<Rightarrow> duration) \<Rightarrow> string \<Rightarrow> leader_config \<Rightarrow> string option" where
  "leader_Validate jitter factor c =
     (if \<not> lc_enabled c then None
      else if lc_lease_name c = [] then Some ''lease name is required''
      else if lc_namespace c = [] then Some ''namespace is required''
      else if lc_identity c = [] then Some ''identity is required''
      else if lc_lease_duration c < Second then Some ''lease duration must be at least 1s''
      else if lc_renew_deadline c \<le> 0 \<or> lc_retry_period c \<le> 0 then Some ''renew deadline and retry period must be greater than zero''
      else if lc_lease_duration c \<le> lc_renew_deadline c then Some ''lease duration must be greater than renew deadline''
      else if lc_renew_deadline c \<le> jitter (lc_retry_period c)
           then Some (''renew deadline must be greater than '' @ factor @ '' x retry period'')
      else None)"

text \<open>The watchdog of a term: at every tick whether the context is over, and the time since the last renewal. It is undecided when
  the ticks end first; else it tells whether it ended the term.\<close>

definition watch_interval :: "leader_config \<Rightarrow> duration" where
  "watch_interval c = (let interval = lc_retry_period c div 2 in if interval \<le> 0 then lc_retry_period c else interval)"

fun watchRenewals :: "leader_config \<Rightarrow> (bool \<times> duration) list \<Rightarrow> bool option" where
  "watchRenewals c [] = None"
| "watchRenewals c ((over, since) # ticks) =
     (if over then Some False else if lc_renew_deadline c < since then Some True else watchRenewals c ticks)"

text \<open>The lock records the time of a write that keeps or takes the lease for this candidate.\<close>

record lease_record =
  lr_holder :: string
  lr_transitions :: nat
  lr_duration_seconds :: int
  lr_renew_time :: gtime
  lr_acquire_time :: gtime

definition lock_record :: "string \<Rightarrow> bool \<Rightarrow> lease_record \<Rightarrow> duration \<Rightarrow> duration \<Rightarrow> duration" where
  "lock_record identity written rec since_base lastRenew = (if written \<and> lr_holder rec = identity then since_base else lastRenew)"

datatype release_outcome = releaseDone | releaseNotHolder | releaseConflict | releaseFailed

datatype update_answer = Updated | Conflict | UpdateFailed

text \<open>The release: what the read of the lease gave, what the update answered, and the record that it sent.\<close>

definition release :: "leader_config \<Rightarrow> lease_record option \<Rightarrow> gtime \<Rightarrow> (lease_record \<Rightarrow> update_answer) \<Rightarrow> release_outcome \<times> lease_record option" where
  "release c got now update =
     (case got of
        None \<Rightarrow> (releaseFailed, None)
      | Some rec \<Rightarrow>
          if lr_holder rec \<noteq> lc_identity c then (releaseNotHolder, None)
          else (let rec' = \<lparr>lr_holder = [], lr_transitions = lr_transitions rec, lr_duration_seconds = 1, lr_renew_time = now, lr_acquire_time = now\<rparr>
                in (case update rec' of Updated \<Rightarrow> releaseDone | Conflict \<Rightarrow> releaseConflict | UpdateFailed \<Rightarrow> releaseFailed, Some rec')))"

text \<open>The guard between the goroutine of \<open>OnStartedLeading\<close> and the return of the election.\<close>

record term_guard =
  tg_started :: bool
  tg_closed :: bool

definition new_guard :: term_guard where "new_guard = \<lparr>tg_started = False, tg_closed = False\<rparr>"

definition guard_begin :: "term_guard \<Rightarrow> bool \<times> term_guard" where
  "guard_begin g = (if tg_closed g then (False, g) else (True, g\<lparr>tg_started := True\<rparr>))"

definition guard_wait :: "term_guard \<Rightarrow> bool \<times> term_guard" where
  "guard_wait g = (tg_started g, g\<lparr>tg_closed := True\<rparr>)"

text \<open>
  A replica: its election waits for the lease (\<open>Campaign\<close>), leads (\<open>Leading\<close>), waits in \<open>Stop\<close> for the workers of its term (\<open>Stopping\<close>), has
  stopped them in time or not (\<open>TermOver\<close>), or is between two rounds (\<open>Between\<close>). \<open>re_releases\<close> counts the calls of \<open>release\<close>.
\<close>

datatype election = Campaign | Leading | Stopping "nat option" | TermOver bool | Between

record replica =
  re_group :: group
  re_leading :: bool
  re_election :: election
  re_guard :: term_guard
  re_releases :: nat

definition new_replica :: "string list \<Rightarrow> replica" where
  "new_replica ws = \<lparr>re_group = NewGroup ws, re_leading = False, re_election = Campaign, re_guard = new_guard, re_releases = 0\<rparr>"

definition begin_term :: "replica \<Rightarrow> replica" where
  "begin_term r =
     (if fst (guard_begin (re_guard r))
      then r\<lparr>re_guard := snd (guard_begin (re_guard r)), re_leading := True, re_election := Leading, re_group := group_Start (re_group r)\<rparr> else r)"

definition end_term :: "replica \<Rightarrow> replica" where
  "end_term r = r\<lparr>re_leading := False, re_election := Stopping (fst (stop_begin (re_group r))), re_group := snd (stop_begin (re_group r))\<rparr>"

definition end_campaign :: "bool \<Rightarrow> replica \<Rightarrow> replica" where
  "end_campaign stopped r =
     r\<lparr>re_guard := snd (guard_wait (re_guard r)), re_election := Between,
       re_releases := (if fst (guard_wait (re_guard r)) \<and> stopped then Suc (re_releases r) else re_releases r)\<rparr>"

text \<open>\<open>shut\<close> tells whether the process may shut down, which closes the group first.\<close>

inductive replica_step :: "bool \<Rightarrow> replica \<Rightarrow> replica \<Rightarrow> bool" for shut where
  workers_run: "term_step (re_group r) g \<Longrightarrow> replica_step shut r (r\<lparr>re_group := g\<rparr>)"
| lease_acquired: "re_election r = Campaign \<Longrightarrow> replica_step shut r (begin_term r)"
| term_context_over: "re_election r = Leading \<Longrightarrow> replica_step shut r (end_term r)"
| stop_returned: "re_election r = Stopping waits \<Longrightarrow> stop_answers waits answer (re_group r) \<Longrightarrow> replica_step shut r (r\<lparr>re_election := TermOver answer\<rparr>)"
| term_done: "re_election r = TermOver stopped \<Longrightarrow> replica_step shut r (end_campaign stopped r)"
| never_led: "re_election r = Campaign \<Longrightarrow> replica_step shut r (end_campaign False r)"
| next_round: "re_election r = Between \<Longrightarrow> replica_step shut r (r\<lparr>re_election := Campaign, re_guard := new_guard\<rparr>)"
| shut_down: "shut \<Longrightarrow> replica_step shut r (r\<lparr>re_group := snd (group_Close (re_group r))\<rparr>)"

definition all_ended :: "group \<Rightarrow> bool" where
  "all_ended g \<longleftrightarrow> (\<forall>k<length (gr_terms g). term_ended k g)"

definition replica_ok :: "replica \<Rightarrow> bool" where
  "replica_ok r \<longleftrightarrow> group_ok (re_group r) \<and> \<not> gr_closed (re_group r) \<and> (re_leading r \<longleftrightarrow> re_election r = Leading)
     \<and> (case re_election r of
          Campaign \<Rightarrow> gr_active (re_group r) = None \<and> re_guard r = new_guard
        | Leading \<Rightarrow> gr_active (re_group r) \<noteq> None
        | Stopping waits \<Rightarrow> gr_active (re_group r) = None \<and> (\<exists>k. waits = Some k \<and> length (gr_terms (re_group r)) = Suc k)
        | TermOver stopped \<Rightarrow> gr_active (re_group r) = None \<and> (stopped \<longrightarrow> all_ended (re_group r))
        | Between \<Rightarrow> gr_active (re_group r) = None)"

lemma term_step_frame:
  "term_step g g' \<Longrightarrow> gr_active g' = gr_active g \<and> gr_closed g' = gr_closed g \<and> length (gr_terms g') = length (gr_terms g)"
  by (induction rule: term_step.induct) (auto simp: cancel_term_def set_phase_def)

lemma term_step_ended: "term_step g g' \<Longrightarrow> term_ended k g \<Longrightarrow> term_ended k g'"
  by (induction rule: term_step.induct) (auto simp: set_phase_def term_ended_update, auto simp: term_ended_def term_next_def)

lemma ordered_all_ended: "ordered g \<Longrightarrow> term_ended k g \<Longrightarrow> length (gr_terms g) = Suc k \<Longrightarrow> all_ended g"
  unfolding all_ended_def ordered_def by (metis less_antisym)

lemma replica_step_ok: "replica_step False r r' \<Longrightarrow> replica_ok r \<Longrightarrow> replica_ok r'"
proof (induction rule: replica_step.induct)
  case (workers_run r g)
  have "all_ended g" if "all_ended (re_group r)"
    using that term_step_ended [OF workers_run.hyps] term_step_frame [OF workers_run.hyps] by (simp add: all_ended_def)
  with workers_run show ?case using group_ok_term_step [OF workers_run.hyps] term_step_frame [OF workers_run.hyps]
    by (auto simp: replica_ok_def split: election.splits)
next
  case (lease_acquired r)
  then show ?case by (auto simp: replica_ok_def begin_term_def group_ok_Start) (auto simp: group_Start_def)
next
  case (term_context_over r)
  then have g: "group_ok (re_group r)" "\<not> gr_closed (re_group r)" and "gr_active (re_group r) \<noteq> None" by (simp_all add: replica_ok_def)
  then obtain k where k: "gr_active (re_group r) = Some k" by blast
  then have "length (gr_terms (re_group r)) = Suc k" using g by (simp add: group_ok_def active_ok_def)
  with g k show ?case by (simp add: replica_ok_def end_term_def group_ok_stop) (simp add: stop_begin_def cancel_term_def)
next
  case (stop_returned r waits answer)
  then obtain k where k: "waits = Some k" "length (gr_terms (re_group r)) = Suc k" "group_ok (re_group r)" by (auto simp: replica_ok_def)
  have "all_ended (re_group r)" if answer
    using stop_returned.hyps(2) that k ordered_all_ended by (simp add: stop_answers_def group_ok_def)
  with stop_returned k show ?case by (simp add: replica_ok_def)
qed (auto simp: replica_ok_def end_campaign_def)

interpretation replicas: invariant_system "replica_step False" replica_ok
  by unfold_locales (rule replica_step_ok)

lemma new_replica_ok: "replica_ok (new_replica ws)"
  using group_ok_New by (simp add: replica_ok_def new_replica_def) (simp add: NewGroup_def)

text \<open>C38. Until the process shuts down, a replica gives up the lease only when none of its leader workers runs: a round of the election
  that calls release ends with every term of the group ended, whatever the workers and the election did before.\<close>

theorem release_after_workers:
  assumes "(replica_step False)\<^sup>*\<^sup>* (new_replica ws) r" "replica_step False r r'" "re_releases r' \<noteq> re_releases r"
  shows "\<not> working k (re_group r') \<and> \<not> re_leading r'"
proof -
  have ok: "replica_ok r" using replicas.keeps_star [OF assms(1) new_replica_ok] .
  from assms(2,3) obtain stopped where s: "re_election r = TermOver stopped" "r' = end_campaign stopped r" "stopped"
    by (cases rule: replica_step.cases) (auto simp: begin_term_def end_term_def end_campaign_def split: if_splits)
  with ok have "all_ended (re_group r')" "\<not> re_leading r'" by (simp_all add: replica_ok_def end_campaign_def)
  then show ?thesis using ended_not_working by (auto simp: all_ended_def working_def)
qed

text \<open>A shutdown closes the group first and then ends the election: when the close gives up waiting, the stop of the election finds no
  term, so the lease is released while a worker still runs.\<close>

definition busy_replica :: replica where
  "busy_replica = (let r = begin_term (new_replica [''ttl-reaper'']) in r\<lparr>re_group := set_phase 0 (Working [''ttl-reaper'']) (re_group r)\<rparr>)"

lemma busy_replica_run: "(replica_step shut)\<^sup>*\<^sup>* (new_replica [''ttl-reaper'']) busy_replica"
proof -
  let ?r = "new_replica [''ttl-reaper'']"
  have "replica_step shut ?r (begin_term ?r)" by (rule lease_acquired) (simp add: new_replica_def)
  moreover have "replica_step shut (begin_term ?r) busy_replica"
    unfolding busy_replica_def Let_def
    by (intro workers_run goroutine) (simp_all add: begin_term_def new_replica_def new_guard_def guard_begin_def group_Start_def NewGroup_def term_next_def)
  ultimately show ?thesis by (meson converse_rtranclp_into_rtranclp r_into_rtranclp)
qed

lemmas busy_simps = busy_replica_def begin_term_def new_replica_def new_guard_def guard_begin_def guard_wait_def group_Start_def NewGroup_def set_phase_def
  update_term_def cancel_term_def group_Close_def stop_begin_def end_term_def end_campaign_def working_def term_ended_def Let_def

theorem shutdown_releases_early:
  "\<exists>r. (replica_step True)\<^sup>*\<^sup>* (new_replica [''ttl-reaper'']) r \<and> re_releases r = 1 \<and> working 0 (re_group r)"
proof -
  define r3 where "r3 = busy_replica\<lparr>re_group := snd (group_Close (re_group busy_replica))\<rparr>"
  define r5 where "r5 = (end_term r3)\<lparr>re_election := TermOver True\<rparr>"
  have "replica_step True busy_replica r3" unfolding r3_def by (rule shut_down) simp
  moreover have "replica_step True r3 (end_term r3)" by (rule term_context_over) (simp add: r3_def busy_simps)
  moreover have "replica_step True (end_term r3) r5"
    unfolding r5_def by (rule stop_returned [where waits = None]) (simp_all add: r3_def busy_simps stop_answers_def)
  moreover have "replica_step True r5 (end_campaign True r5)" by (rule term_done) (simp add: r5_def)
  ultimately have "(replica_step True)\<^sup>*\<^sup>* (new_replica [''ttl-reaper'']) (end_campaign True r5)"
    using busy_replica_run by (meson rtranclp.rtrancl_into_rtrancl)
  moreover have "re_releases (end_campaign True r5) = 1 \<and> working 0 (re_group (end_campaign True r5))"
    by (simp add: r5_def r3_def busy_simps)
  ultimately show ?thesis by blast
qed

section \<open>The watchdog\<close>

text \<open>The ticks of a term whose lease was last renewed at \<open>renewed\<close>, and whose context stays open.\<close>

definition tick_time :: "leader_config \<Rightarrow> gtime \<Rightarrow> nat \<Rightarrow> gtime" where
  "tick_time c start i = start + int (Suc i) * watch_interval c"

definition tick :: "leader_config \<Rightarrow> gtime \<Rightarrow> gtime \<Rightarrow> nat \<Rightarrow> bool \<times> duration" where
  "tick c start renewed i = (False, tick_time c start i - renewed)"

lemma watch_undecided: "\<forall>i<n. tick_time c start i \<le> renewed + lc_renew_deadline c \<Longrightarrow> watchRenewals c (map (tick c start renewed) [k..<n] @ ticks) = watchRenewals c ticks"
proof (induction "n - k" arbitrary: k)
  case (Suc m)
  then have k: "k < n" "tick_time c start k \<le> renewed + lc_renew_deadline c" by auto
  then have "watchRenewals c (map (tick c start renewed) [Suc k..<n] @ ticks) = watchRenewals c ticks" using Suc by simp
  with k show ?case by (simp add: upt_conv_Cons tick_def)
qed simp

text \<open>C40. With valid settings the watchdog ends a term whose lease is not renewed: at the first tick after the renew deadline, and so at most
  half a retry period after it.\<close>

theorem watchdog_in_time:
  assumes "leader_Validate jitter factor c = None" "lc_enabled c" "start \<le> renewed + lc_renew_deadline c" "2 \<le> lc_retry_period c"
  shows "\<exists>n. watchRenewals c (map (tick c start renewed) [0..<n]) = None
    \<and> watchRenewals c (map (tick c start renewed) [0..<Suc n]) = Some True
    \<and> 2 * (tick_time c start n - renewed - lc_renew_deadline c) \<le> lc_retry_period c"
proof -
  let ?D = "renewed + lc_renew_deadline c" and ?I = "watch_interval c"
  have I: "0 < ?I" "2 * ?I \<le> lc_retry_period c" using assms(4) by (auto simp: watch_interval_def Let_def)
  define n where "n = nat ((?D - start) div ?I)"
  have q: "0 \<le> (?D - start) div ?I" using assms(3) I(1) by (simp add: pos_imp_zdiv_nonneg_iff)
  have i: "int n = (?D - start) div ?I" using q by (simp add: n_def)
  note parts = div_mult_mod_eq [of "?D - start" ?I] pos_mod_sign [OF I(1), of "?D - start"] pos_mod_bound [OF I(1), of "?D - start"]
  have lo: "int n * ?I \<le> ?D - start" unfolding i using parts by linarith
  have "int (Suc n) * ?I = (?D - start) div ?I * ?I + ?I" by (simp add: i distrib_right)
  then have hi: "?D - start < int (Suc n) * ?I" using parts by linarith
  have before: "\<forall>i<n. tick_time c start i \<le> ?D"
  proof (intro allI impI)
    fix i assume "i < n"
    then have "int (Suc i) * ?I \<le> int n * ?I" using I(1) by (intro mult_right_mono) simp_all
    with lo show "tick_time c start i \<le> ?D" by (simp add: tick_time_def)
  qed
  have "tick_time c start n - renewed - lc_renew_deadline c \<le> ?I" using lo by (simp add: tick_time_def algebra_simps)
  moreover have "watchRenewals c [tick c start renewed n] = Some True" using hi by (simp add: tick_def tick_time_def algebra_simps)
  ultimately show ?thesis using watch_undecided [OF before, of 0] watch_undecided [OF before, of 0 "[]"] I(2)
    by (intro exI [of _ n]) simp
qed

section \<open>Witnesses\<close>

theorem terms_never_overlap_witness: "{j. working j (re_group busy_replica)} = {0}"
proof -
  let ?g = "group_Start (NewGroup [''ttl-reaper''])"
  have w: "working 0 (re_group busy_replica)" by (simp add: busy_simps)
  have g: "re_group busy_replica = set_phase 0 (Working [''ttl-reaper'']) ?g" by (simp add: busy_simps)
  have "group_step (NewGroup [''ttl-reaper'']) ?g" by (rule started)
  moreover have "group_step ?g (re_group busy_replica)"
    unfolding g by (intro goroutines goroutine) (simp_all add: group_Start_def NewGroup_def term_next_def)
  ultimately have "group_step\<^sup>*\<^sup>* (NewGroup [''ttl-reaper'']) (re_group busy_replica)"
    by (rule converse_rtranclp_into_rtranclp [OF _ r_into_rtranclp])
  from terms_never_overlap [OF this w] w show ?thesis by blast
qed

theorem watchdog_in_time_witness:
  "\<exists>n. watchRenewals \<lparr>lc_lease_duration = 15 * Second, lc_renew_deadline = 10 * Second, lc_retry_period = 2 * Second, lc_lease_name = ''l'', lc_namespace = ''n'',
     lc_identity = ''i'', lc_enabled = True\<rparr> (map (tick \<lparr>lc_lease_duration = 15 * Second, lc_renew_deadline = 10 * Second, lc_retry_period = 2 * Second, lc_lease_name = ''l'',
       lc_namespace = ''n'', lc_identity = ''i'', lc_enabled = True\<rparr> 5 3) [0..<Suc n]) = Some True"
  using watchdog_in_time [where jitter = "\<lambda>d. 6 * d div 5" and factor = "''1.2''" and start = 5 and renewed = 3
      and c = "\<lparr>lc_lease_duration = 15 * Second, lc_renew_deadline = 10 * Second, lc_retry_period = 2 * Second, lc_lease_name = ''l'', lc_namespace = ''n'',
        lc_identity = ''i'', lc_enabled = True\<rparr>"]
  by (auto simp: leader_Validate_def)

text \<open>A term that ends in time: its only worker returns, and the lease is released.\<close>

definition stopped_replica :: replica where
  "stopped_replica = (let r = end_term busy_replica in r\<lparr>re_group := set_phase 0 Ended (set_phase 0 (Working []) (re_group r)), re_election := TermOver True\<rparr>)"

lemma stopped_replica_run: "(replica_step shut)\<^sup>*\<^sup>* (new_replica [''ttl-reaper'']) stopped_replica"
proof -
  let ?r1 = "end_term busy_replica"
  let ?r2 = "?r1\<lparr>re_group := set_phase 0 (Working []) (re_group ?r1)\<rparr>"
  let ?r3 = "?r2\<lparr>re_group := set_phase 0 Ended (re_group ?r2)\<rparr>"
  have s1: "replica_step shut busy_replica ?r1" by (rule term_context_over) (simp add: busy_simps)
  have s2: "replica_step shut ?r1 ?r2" by (intro workers_run goroutine) (simp_all add: busy_simps term_next_def)
  have s3: "replica_step shut ?r2 ?r3" by (intro workers_run goroutine) (simp_all add: busy_simps term_next_def)
  have s4: "replica_step shut ?r3 (?r3\<lparr>re_election := TermOver True\<rparr>)"
    by (rule stop_returned [where waits = "Some 0"]) (simp_all add: busy_simps stop_answers_def)
  have "stopped_replica = ?r3\<lparr>re_election := TermOver True\<rparr>" by (simp add: stopped_replica_def Let_def)
  with rtranclp.rtrancl_into_rtrancl [OF rtranclp.rtrancl_into_rtrancl [OF rtranclp.rtrancl_into_rtrancl [OF
      rtranclp.rtrancl_into_rtrancl [OF busy_replica_run s1] s2] s3] s4] show ?thesis by (simp only:)
qed

theorem release_after_workers_witness:
  "re_releases (end_campaign True stopped_replica) = 1 \<and> \<not> working 0 (re_group (end_campaign True stopped_replica))"
proof -
  have n: "re_releases stopped_replica = 0" "re_releases (end_campaign True stopped_replica) = 1"
    by (simp_all add: stopped_replica_def busy_simps)
  have "replica_step False stopped_replica (end_campaign True stopped_replica)" by (rule term_done) (simp add: stopped_replica_def Let_def)
  from release_after_workers [OF stopped_replica_run this, of 0] n show ?thesis by simp
qed

end
