(* ===== verification/Hub.thy ===== *)
theory Hub
  imports GoStrings
begin

text \<open>
  The hub of the WebSocket connections of one replica: \<open>websocket/hub.go\<close>, \<open>websocket/client.go\<close>,
  \<open>websocket/revocable.go\<close>, \<open>websocket/revalidate.go\<close>. A client has a bounded send channel; the hub closes the channel to
  close the connection, and Go panics when a closed channel is closed again or gets a message. The lock of the hub
  makes the parts of an operation atomic, not the operation: the slow clients found under the read lock
  are removed later under the write lock. \<open>hub_step\<close> has these parts as its steps.
\<close>

section \<open>Connections\<close>

record client_identity =
  ci_expires_at :: gtime
  ci_issued_at :: gtime
  ci_user_id :: string
  ci_token_id :: string
  ci_session_id :: string
  ci_api_key_id :: string

datatype frame = TextFrame string | CloseFrame string | PingFrame

text \<open>A client: the send channel with its messages, whether it is closed, the reason for the close frame; the frames that
  the write pump sent, and whether the pump still runs.\<close>

record client =
  cn_identity :: client_identity
  cn_send :: "string list"
  cn_closed :: bool
  cn_close_reason :: string
  cn_wire :: "frame list"
  cn_pump :: bool

abbreviation closeReasonRevoked :: string where "closeReasonRevoked \<equiv> ''session revoked''"
abbreviation closeReasonExpired :: string where "closeReasonExpired \<equiv> ''token expired''"
abbreviation closeReasonAPIKeyExpired :: string where "closeReasonAPIKeyExpired \<equiv> ''api key expired''"

definition sendBufferSize :: nat where "sendBufferSize = 256"
definition broadcastBufferSize :: nat where "broadcastBufferSize = 256"

record revocable =
  rv_id :: nat
  rv_identity :: client_identity
  rv_instance_id :: string
  rv_kind :: string

abbreviation CloseCodeGoingAway :: int where "CloseCodeGoingAway \<equiv> 1001"
abbreviation CloseCodePolicyViolation :: int where "CloseCodePolicyViolation \<equiv> 1008"
abbreviation CloseReasonAccessLost :: string where "CloseReasonAccessLost \<equiv> ''access revoked''"
abbreviation CloseReasonShutdown :: string where "CloseReasonShutdown \<equiv> ''server shutdown''"

text \<open>
  The hub. A pointer to a client is a number, \<open>hb_conns\<close> is the memory it points to; the maps of the code are
  lists without duplicates. \<open>hb_revoked\<close> are the calls of \<open>Revoke\<close>, \<open>hb_run\<close> says that the loop \<open>Run\<close> has not returned,
  \<open>hb_panicked\<close> that a closed channel was used.
\<close>

record hub =
  hb_conns :: "nat \<Rightarrow> client option"
  hb_clients :: "nat list"
  hb_subs :: "string \<Rightarrow> nat list option"
  hb_broadcast :: "string list"
  hb_done :: bool
  hb_run :: bool
  hb_revocables :: "revocable list"
  hb_revoked :: "(nat \<times> int \<times> string) list"
  hb_panicked :: bool

definition NewHub :: hub where
  "NewHub = \<lparr>hb_conns = (\<lambda>_. None), hb_clients = [], hb_subs = (\<lambda>_. None), hb_broadcast = [], hb_done = False,
     hb_run = True, hb_revocables = [], hb_revoked = [], hb_panicked = False\<rparr>"

datatype hub_error = ErrHubClosed

section \<open>The operations of a channel\<close>

definition panic :: "hub \<Rightarrow> hub" where
  "panic h = h\<lparr>hb_panicked := True\<rparr>"

text \<open>\<open>close(c.send)\<close>, and \<open>select { case c.send <- message: default: }\<close>, which says whether the message was taken.\<close>

definition close_send :: "nat \<Rightarrow> hub \<Rightarrow> hub" where
  "close_send c h =
     (case hb_conns h c of
        None \<Rightarrow> panic h
      | Some k \<Rightarrow> if cn_closed k then panic h else h\<lparr>hb_conns := (hb_conns h)(c \<mapsto> k\<lparr>cn_closed := True\<rparr>)\<rparr>)"

definition try_send :: "string \<Rightarrow> nat \<Rightarrow> hub \<Rightarrow> bool \<times> hub" where
  "try_send m c h =
     (case hb_conns h c of
        None \<Rightarrow> (True, panic h)
      | Some k \<Rightarrow>
          if cn_closed k then (True, panic h)
          else if length (cn_send k) < sendBufferSize then (True, h\<lparr>hb_conns := (hb_conns h)(c \<mapsto> k\<lparr>cn_send := cn_send k @ [m]\<rparr>)\<rparr>)
          else (False, h))"

text \<open>The loop over clients with its list of slow clients.\<close>

fun send_each :: "string \<Rightarrow> nat list \<Rightarrow> hub \<Rightarrow> nat list \<times> hub" where
  "send_each m [] h = ([], h)"
| "send_each m (c # cs) h =
     (case try_send m c h of
        (taken, h1) \<Rightarrow> case send_each m cs h1 of (slow, h2) \<Rightarrow> (if taken then slow else c # slow, h2))"

section \<open>Removing clients\<close>

definition remove_sub :: "nat \<Rightarrow> nat list option \<Rightarrow> nat list option" where
  "remove_sub c subs =
     (case subs of None \<Rightarrow> None | Some s \<Rightarrow> if removeAll c s = [] then None else Some (removeAll c s))"

definition removeClientSubs :: "nat \<Rightarrow> hub \<Rightarrow> hub" where
  "removeClientSubs c h = h\<lparr>hb_subs := (\<lambda>i. remove_sub c (hb_subs h i))\<rparr>"

definition set_reason :: "nat \<Rightarrow> string \<Rightarrow> hub \<Rightarrow> hub" where
  "set_reason c reason h = h\<lparr>hb_conns := (hb_conns h)(c := map_option (\<lambda>k. k\<lparr>cn_close_reason := reason\<rparr>) (hb_conns h c))\<rparr>"

definition removeClientLocked :: "nat \<Rightarrow> string \<Rightarrow> hub \<Rightarrow> hub" where
  "removeClientLocked c reason h =
     (if c \<notin> set (hb_clients h) then h
      else removeClientSubs c (close_send c (set_reason c reason (h\<lparr>hb_clients := removeAll c (hb_clients h)\<rparr>))))"

definition finishSend :: "nat list \<Rightarrow> hub \<Rightarrow> hub" where
  "finishSend slow h = fold (\<lambda>c. removeClientLocked c []) slow h"

text \<open>\<open>takeRevocablesLocked\<close> followed by \<open>revokeAll\<close>; a panic of a \<open>Revoke\<close> is caught.\<close>

definition takeRevocables :: "(revocable \<Rightarrow> bool) \<Rightarrow> hub \<Rightarrow> revocable list \<times> hub" where
  "takeRevocables match h = (filter match (hb_revocables h), h\<lparr>hb_revocables := filter (\<lambda>r. \<not> match r) (hb_revocables h)\<rparr>)"

definition revokeAll :: "revocable list \<Rightarrow> int \<Rightarrow> string \<Rightarrow> hub \<Rightarrow> hub" where
  "revokeAll rs code reason h = h\<lparr>hb_revoked := hb_revoked h @ map (\<lambda>r. (rv_id r, code, reason)) rs\<rparr>"

definition revokeRevocables :: "(revocable \<Rightarrow> bool) \<Rightarrow> int \<Rightarrow> string \<Rightarrow> hub \<Rightarrow> nat \<times> hub" where
  "revokeRevocables match code reason h =
     (case takeRevocables match h of (taken, h1) \<Rightarrow> (length taken, revokeAll taken code reason h1))"

definition client_matches :: "(client_identity \<Rightarrow> bool) \<Rightarrow> hub \<Rightarrow> nat \<Rightarrow> bool" where
  "client_matches match h c = (case hb_conns h c of None \<Rightarrow> False | Some k \<Rightarrow> match (cn_identity k))"

definition remove_clients :: "nat list \<Rightarrow> string \<Rightarrow> hub \<Rightarrow> hub" where
  "remove_clients cs reason h = fold (\<lambda>c. removeClientLocked c reason) cs h"

definition disconnectIdentities :: "(client_identity \<Rightarrow> bool) \<Rightarrow> hub \<Rightarrow> nat \<times> hub" where
  "disconnectIdentities match h =
     (let cs = filter (client_matches match h) (hb_clients h);
          h1 = remove_clients cs closeReasonRevoked h
      in case takeRevocables (\<lambda>r. match (rv_identity r)) h1 of
           (taken, h2) \<Rightarrow> (length cs + length taken, revokeAll taken CloseCodePolicyViolation closeReasonRevoked h2))"

definition DisconnectInstance :: "string \<Rightarrow> hub \<Rightarrow> nat \<times> hub" where
  "DisconnectInstance instanceID h =
     (if instanceID = [] then (0, h)
      else revokeRevocables (\<lambda>r. rv_instance_id r = instanceID) CloseCodePolicyViolation CloseReasonAccessLost h)"

definition disconnectUserLocal :: "string \<Rightarrow> hub \<Rightarrow> nat \<times> hub" where
  "disconnectUserLocal userID = disconnectIdentities (\<lambda>i. ci_user_id i = userID)"

text \<open>\<open>t.UnixMilli()\<close>.\<close>

definition unix_milli :: "gtime \<Rightarrow> int" where
  "unix_milli t = t div 1000000"

definition issued_before :: "string \<Rightarrow> gtime \<Rightarrow> client_identity \<Rightarrow> bool" where
  "issued_before userID t i \<longleftrightarrow>
     ci_user_id i = userID \<and>
     (ci_issued_at i = zero_time \<or> t = zero_time \<or> unix_milli (ci_issued_at i) \<le> unix_milli t)"

definition disconnectUserIssuedBefore :: "string \<Rightarrow> gtime \<Rightarrow> hub \<Rightarrow> nat \<times> hub" where
  "disconnectUserIssuedBefore userID t = disconnectIdentities (issued_before userID t)"

definition disconnectTokenLocal :: "string \<Rightarrow> hub \<Rightarrow> nat \<times> hub" where
  "disconnectTokenLocal tokenID = disconnectIdentities (\<lambda>i. ci_token_id i = tokenID)"

definition disconnectAPIKeyLocal :: "string \<Rightarrow> hub \<Rightarrow> nat \<times> hub" where
  "disconnectAPIKeyLocal keyID = disconnectIdentities (\<lambda>i. ci_api_key_id i = keyID)"

definition DisconnectClient :: "nat \<Rightarrow> hub \<Rightarrow> bool \<times> hub" where
  "DisconnectClient c h =
     (if c \<notin> set (hb_clients h) then (False, h) else (True, removeClientLocked c closeReasonRevoked h))"

definition closeAllClients :: "hub \<Rightarrow> hub" where
  "closeAllClients h =
     (case takeRevocables (\<lambda>_. True) h of
        (taken, h1) \<Rightarrow>
          let h2 = fold close_send (hb_clients h1) h1
          in revokeAll taken CloseCodeGoingAway CloseReasonShutdown (h2\<lparr>hb_clients := [], hb_subs := (\<lambda>_. None)\<rparr>))"

section \<open>Registration, subscriptions and messages\<close>

definition hub_Shutdown :: "hub \<Rightarrow> hub" where
  "hub_Shutdown h = h\<lparr>hb_done := True\<rparr>"

definition hub_Register :: "nat \<Rightarrow> hub \<Rightarrow> hub_error + hub" where
  "hub_Register c h = (if hb_done h then Inl ErrHubClosed else Inr (h\<lparr>hb_clients := List.insert c (hb_clients h)\<rparr>))"

text \<open>A new client at the free address \<open>c\<close>; when the hub is closed, its connection is closed.\<close>

definition NewClientWithIdentity :: "nat \<Rightarrow> client_identity \<Rightarrow> hub \<Rightarrow> (hub_error + nat) \<times> hub" where
  "NewClientWithIdentity c i h =
     (let k = \<lparr>cn_identity = i, cn_send = [], cn_closed = False, cn_close_reason = [], cn_wire = [], cn_pump = True\<rparr>;
          h1 = h\<lparr>hb_conns := (hb_conns h)(c \<mapsto> k)\<rparr>
      in case hub_Register c h1 of
           Inl e \<Rightarrow> (Inl e, h1\<lparr>hb_conns := (hb_conns h1)(c \<mapsto> k\<lparr>cn_pump := False\<rparr>)\<rparr>)
         | Inr h2 \<Rightarrow> (Inr c, h2))"

definition hub_Subscribe :: "nat \<Rightarrow> string \<Rightarrow> hub \<Rightarrow> hub" where
  "hub_Subscribe c i h =
     (if c \<notin> set (hb_clients h) then h
      else h\<lparr>hb_subs := (hb_subs h)(i \<mapsto> List.insert c (case hb_subs h i of None \<Rightarrow> [] | Some s \<Rightarrow> s))\<rparr>)"

definition hub_Unsubscribe :: "nat \<Rightarrow> string \<Rightarrow> hub \<Rightarrow> hub" where
  "hub_Unsubscribe c i h = h\<lparr>hb_subs := (hb_subs h)(i := remove_sub c (hb_subs h i))\<rparr>"

text \<open>An inbound message: \<open>None\<close> when it is not JSON; the payload is \<open>None\<close> when it does not decode.\<close>

record inbound_msg =
  im_type :: string
  im_instance_id :: "string option"

definition handleInbound :: "nat \<Rightarrow> inbound_msg option \<Rightarrow> hub \<Rightarrow> hub" where
  "handleInbound c data h =
     (case data of
        None \<Rightarrow> h
      | Some m \<Rightarrow>
          if im_type m = ''subscribe'' then
            (case im_instance_id m of None \<Rightarrow> h | Some i \<Rightarrow> if i = [] then h else hub_Subscribe c i h)
          else if im_type m = ''unsubscribe'' then
            (case im_instance_id m of None \<Rightarrow> h | Some i \<Rightarrow> if i = [] then h else hub_Unsubscribe c i h)
          else h)"

definition deliverAll :: "string \<Rightarrow> hub \<Rightarrow> hub" where
  "deliverAll m h = (if length (hb_broadcast h) < broadcastBufferSize then h\<lparr>hb_broadcast := hb_broadcast h @ [m]\<rparr> else h)"

text \<open>The parts under the read lock give the slow clients; \<open>finishSend\<close> removes them.\<close>

definition instance_sends :: "string \<Rightarrow> string \<Rightarrow> hub \<Rightarrow> nat list \<times> hub" where
  "instance_sends i m h =
     (case hb_subs h i of
        None \<Rightarrow> ([], h)
      | Some subs \<Rightarrow> send_each m (filter (\<lambda>c. c \<in> set (hb_clients h)) subs) h)"

definition user_sends :: "string \<Rightarrow> string \<Rightarrow> hub \<Rightarrow> nat list \<times> hub" where
  "user_sends userID m h = send_each m (filter (client_matches (\<lambda>i. ci_user_id i = userID) h) (hb_clients h)) h"

definition deliverInstance :: "string \<Rightarrow> string \<Rightarrow> hub \<Rightarrow> hub" where
  "deliverInstance i m h = (case instance_sends i m h of (slow, h1) \<Rightarrow> finishSend slow h1)"

definition deliverUser :: "string \<Rightarrow> string \<Rightarrow> hub \<Rightarrow> hub" where
  "deliverUser userID m h = (case user_sends userID m h of (slow, h1) \<Rightarrow> finishSend slow h1)"

text \<open>The cases of the loop \<open>Run\<close>: a client that unregisters, the next broadcast message, the end.\<close>

definition run_unregister :: "nat \<Rightarrow> hub \<Rightarrow> hub" where
  "run_unregister c h = removeClientLocked c [] h"

definition run_broadcast :: "hub \<Rightarrow> nat list \<times> hub" where
  "run_broadcast h =
     (case hb_broadcast h of
        [] \<Rightarrow> ([], h)
      | m # rest \<Rightarrow> send_each m (hb_clients h) (h\<lparr>hb_broadcast := rest\<rparr>))"

definition run_done :: "hub \<Rightarrow> hub" where
  "run_done h = (closeAllClients h)\<lparr>hb_run := False\<rparr>"

definition RegisterRevocable :: "revocable \<Rightarrow> hub \<Rightarrow> hub_error + hub" where
  "RegisterRevocable r h = (if hb_done h then Inl ErrHubClosed else Inr (h\<lparr>hb_revocables := List.insert r (hb_revocables h)\<rparr>))"

definition unregister_revocable :: "revocable \<Rightarrow> hub \<Rightarrow> hub" where
  "unregister_revocable r h = h\<lparr>hb_revocables := removeAll r (hb_revocables h)\<rparr>"

section \<open>The write pump\<close>

definition put_client :: "nat \<Rightarrow> client \<Rightarrow> hub \<Rightarrow> hub" where
  "put_client c k h = h\<lparr>hb_conns := (hb_conns h)(c \<mapsto> k)\<rparr>"

definition write_close :: "string \<Rightarrow> client \<Rightarrow> client" where
  "write_close reason k = k\<lparr>cn_wire := cn_wire k @ [CloseFrame reason], cn_pump := False\<rparr>"

text \<open>Messages go out one frame each until a write fails; \<open>ok i\<close> says whether the \<open>i\<close>-th write succeeds.\<close>

fun write_messages :: "(nat \<Rightarrow> bool) \<Rightarrow> nat \<Rightarrow> client \<Rightarrow> string list \<Rightarrow> client" where
  "write_messages ok i k [] = k"
| "write_messages ok i k (m # ms) =
     (if ok i then write_messages ok (Suc i) (k\<lparr>cn_send := ms, cn_wire := cn_wire k @ [TextFrame m]\<rparr>) ms
      else k\<lparr>cn_send := ms, cn_pump := False\<rparr>)"

text \<open>One receive on the send channel: a message and then what else is queued, or the close of the channel, or nothing yet.\<close>

definition handleSend :: "(nat \<Rightarrow> bool) \<Rightarrow> client \<Rightarrow> client" where
  "handleSend ok k =
     (if cn_send k \<noteq> [] then write_messages ok 0 k (cn_send k)
      else if cn_closed k then write_close (cn_close_reason k) k
      else k)"

definition pump_expired :: "gtime \<Rightarrow> client \<Rightarrow> client" where
  "pump_expired now k =
     (if ci_expires_at (cn_identity k) \<noteq> zero_time \<and> ci_expires_at (cn_identity k) \<le> now
      then write_close (if ci_api_key_id (cn_identity k) \<noteq> [] then closeReasonAPIKeyExpired else closeReasonExpired) k
      else k)"

definition pump_ping :: "bool \<Rightarrow> client \<Rightarrow> client" where
  "pump_ping ok k = (if ok then k\<lparr>cn_wire := cn_wire k @ [PingFrame]\<rparr> else k\<lparr>cn_pump := False\<rparr>)"

section \<open>Revalidation\<close>

type_synonym identity_key = "string \<times> string \<times> string \<times> int"

definition keyOf :: "client_identity \<Rightarrow> identity_key" where
  "keyOf i = (ci_user_id i, ci_token_id i, ci_api_key_id i, ci_issued_at i)"

definition no_credential :: "client_identity \<Rightarrow> bool" where
  "no_credential i \<longleftrightarrow> ci_user_id i = [] \<and> ci_token_id i = [] \<and> ci_api_key_id i = []"

fun add_identities :: "identity_key list \<Rightarrow> client_identity list \<Rightarrow> client_identity list" where
  "add_identities seen [] = []"
| "add_identities seen (i # is) =
     (if no_credential i \<or> keyOf i \<in> set seen then add_identities seen is
      else i # add_identities (keyOf i # seen) is)"

definition client_identities :: "hub \<Rightarrow> client_identity list" where
  "client_identities h = map cn_identity (List.map_filter (hb_conns h) (hb_clients h))"

definition identities_of :: "hub \<Rightarrow> client_identity list" where
  "identities_of h = add_identities [] (client_identities h @ map rv_identity (hb_revocables h))"

definition revokedKeys :: "client_identity list \<Rightarrow> bool list \<Rightarrow> identity_key list" where
  "revokedKeys is rs = map (\<lambda>(i, _). keyOf i) (filter snd (zip is rs))"

text \<open>The check runs outside the lock; the disconnect afterwards sees the hub as it is then.\<close>

definition revalidateIdentities :: "client_identity list \<Rightarrow> bool list \<Rightarrow> hub \<Rightarrow> nat \<times> hub" where
  "revalidateIdentities is revoked h =
     (if length revoked \<noteq> length is then (0, h)
      else let ks = revokedKeys is revoked in
        if ks = [] then (0, h) else disconnectIdentities (\<lambda>i. keyOf i \<in> set ks) h)"

definition revalidateAccess :: "revocable list \<Rightarrow> bool list \<Rightarrow> hub \<Rightarrow> nat \<times> hub" where
  "revalidateAccess rs lost h =
     (if rs = [] \<or> length lost \<noteq> length rs then (0, h)
      else let losers = map fst (filter snd (zip rs lost)) in
        if losers = [] then (0, h)
        else revokeRevocables (\<lambda>r. r \<in> set losers) CloseCodePolicyViolation CloseReasonAccessLost h)"

definition revalidate :: "(client_identity list \<Rightarrow> bool list) \<Rightarrow> (revocable list \<Rightarrow> bool list) option \<Rightarrow> hub \<Rightarrow> nat \<times> hub" where
  "revalidate check access h =
     (let is = identities_of h;
          (n, h1) = (if is = [] then (0, h) else revalidateIdentities is (check is) h);
          (n', h2) = (case access of None \<Rightarrow> (0, h1) | Some a \<Rightarrow> revalidateAccess (hb_revocables h1) (a (hb_revocables h1)) h1)
      in (n + n', h2))"

section \<open>Steps of a hub\<close>

text \<open>
  What the goroutines of a replica do to the hub, one part under the lock at a time. The second component holds the slow clients
  of the sends that have not yet come to \<open>finishSend\<close>. The checks of a revalidation ran on identities of any earlier moment.
\<close>

inductive hub_step :: "hub \<times> nat list list \<Rightarrow> hub \<times> nat list list \<Rightarrow> bool" where
  connects: "hb_conns h c = None \<Longrightarrow> hub_step (h, ps) (snd (NewClientWithIdentity c i h), ps)"
| inbound: "hub_step (h, ps) (handleInbound c data h, ps)"
| broadcast: "hub_step (h, ps) (deliverAll m h, ps)"
| to_instance: "hub_step (h, ps) (snd (instance_sends i m h), fst (instance_sends i m h) # ps)"
| to_user: "hub_step (h, ps) (snd (user_sends u m h), fst (user_sends u m h) # ps)"
| to_all: "hb_run h \<Longrightarrow> hub_step (h, ps) (snd (run_broadcast h), fst (run_broadcast h) # ps)"
| slow_removed: "slow \<in> set ps \<Longrightarrow> hub_step (h, ps) (finishSend slow h, remove1 slow ps)"
| unregisters: "hb_run h \<Longrightarrow> hub_step (h, ps) (run_unregister c h, ps)"
| disconnects: "hub_step (h, ps) (snd (disconnectIdentities match h), ps)"
| disconnects_one: "hub_step (h, ps) (snd (DisconnectClient c h), ps)"
| instance_gone: "hub_step (h, ps) (snd (DisconnectInstance i h), ps)"
| identities_checked: "hub_step (h, ps) (snd (revalidateIdentities is revoked h), ps)"
| access_checked: "hub_step (h, ps) (snd (revalidateAccess rs lost h), ps)"
| session_starts: "RegisterRevocable r h = Inr h' \<Longrightarrow> hub_step (h, ps) (h', ps)"
| session_ends: "hub_step (h, ps) (unregister_revocable r h, ps)"
| shuts_down: "hub_step (h, ps) (hub_Shutdown h, ps)"
| run_ends: "hb_run h \<Longrightarrow> hb_done h \<Longrightarrow> hub_step (h, ps) (run_done h, ps)"
| pump_sends: "hb_conns h c = Some k \<Longrightarrow> cn_pump k \<Longrightarrow> hub_step (h, ps) (put_client c (handleSend ok k) h, ps)"
| pump_expires: "hb_conns h c = Some k \<Longrightarrow> cn_pump k \<Longrightarrow> hub_step (h, ps) (put_client c (pump_expired now k) h, ps)"
| pump_pings: "hb_conns h c = Some k \<Longrightarrow> cn_pump k \<Longrightarrow> hub_step (h, ps) (put_client c (pump_ping good k) h, ps)"

text \<open>
  The invariant: registered clients have an open channel, subscriptions are those of registered clients and never empty,
  nothing is left when \<open>Run\<close> has returned, a close frame is the last frame of a connection.
\<close>

definition clients_open :: "hub \<Rightarrow> bool" where
  "clients_open h \<longleftrightarrow> distinct (hb_clients h) \<and> (\<forall>c\<in>set (hb_clients h). \<exists>k. hb_conns h c = Some k \<and> \<not> cn_closed k)"

definition subs_ok :: "hub \<Rightarrow> bool" where
  "subs_ok h \<longleftrightarrow> (\<forall>i s. hb_subs h i = Some s \<longrightarrow> s \<noteq> [] \<and> distinct s \<and> set s \<subseteq> set (hb_clients h))"

definition run_ended_ok :: "hub \<Rightarrow> bool" where
  "run_ended_ok h \<longleftrightarrow> (\<not> hb_run h \<longrightarrow> hb_done h \<and> hb_clients h = [] \<and> hb_revocables h = [])"

definition wire_ok :: "client \<Rightarrow> bool" where
  "wire_ok k \<longleftrightarrow> (\<forall>r. CloseFrame r \<notin> set (if cn_pump k then cn_wire k else butlast (cn_wire k)))"

definition hub_ok :: "hub \<Rightarrow> bool" where
  "hub_ok h \<longleftrightarrow> \<not> hb_panicked h \<and> clients_open h \<and> subs_ok h \<and> run_ended_ok h \<and> (\<forall>c k. hb_conns h c = Some k \<longrightarrow> wire_ok k)"

section \<open>Sends\<close>

text \<open>A send to open channels changes the buffers only: every client with room gets the message, the others are the slow ones.\<close>

definition set_sends :: "(nat \<Rightarrow> string list \<Rightarrow> string list) \<Rightarrow> hub \<Rightarrow> hub" where
  "set_sends g h = h\<lparr>hb_conns := (\<lambda>c. map_option (\<lambda>k. k\<lparr>cn_send := g c (cn_send k)\<rparr>) (hb_conns h c))\<rparr>"

definition queue_for :: "nat list \<Rightarrow> string \<Rightarrow> nat \<Rightarrow> string list \<Rightarrow> string list" where
  "queue_for cs m c s = (if c \<in> set cs \<and> length s < sendBufferSize then s @ [m] else s)"

definition has_room :: "hub \<Rightarrow> nat \<Rightarrow> bool" where
  "has_room h c = (case hb_conns h c of None \<Rightarrow> False | Some k \<Rightarrow> length (cn_send k) < sendBufferSize)"

definition open_in :: "hub \<Rightarrow> nat \<Rightarrow> bool" where
  "open_in h c \<longleftrightarrow> (\<exists>k. hb_conns h c = Some k \<and> \<not> cn_closed k)"

lemma set_sends_fields [simp]:
  "hb_clients (set_sends g h) = hb_clients h" "hb_subs (set_sends g h) = hb_subs h" "hb_done (set_sends g h) = hb_done h"
  "hb_run (set_sends g h) = hb_run h" "hb_revocables (set_sends g h) = hb_revocables h" "hb_revoked (set_sends g h) = hb_revoked h"
  "hb_panicked (set_sends g h) = hb_panicked h" "hb_broadcast (set_sends g h) = hb_broadcast h"
  by (simp_all add: set_sends_def)

lemma set_sends_conns [simp]: "hb_conns (set_sends g h) c = map_option (\<lambda>k. k\<lparr>cn_send := g c (cn_send k)\<rparr>) (hb_conns h c)"
  by (simp add: set_sends_def)

lemma set_sends_id: "set_sends (\<lambda>_ s. s) h = h"
  by (simp add: set_sends_def option.map_ident)

lemma set_sends_twice: "set_sends g' (set_sends g h) = set_sends (\<lambda>c s. g' c (g c s)) h"
  by (simp add: set_sends_def option.map_comp o_def)

lemma set_sends_open [simp]: "open_in (set_sends g h) c = open_in h c"
  by (auto simp: open_in_def)

lemma try_send_open:
  assumes "open_in h c"
  shows "try_send m c h = (has_room h c, set_sends (queue_for [c] m) h)"
proof -
  obtain k where k: "hb_conns h c = Some k" "\<not> cn_closed k" using assms by (auto simp: open_in_def)
  have "hb_conns (set_sends (queue_for [c] m) h) =
    (if has_room h c then (hb_conns h)(c \<mapsto> k\<lparr>cn_send := cn_send k @ [m]\<rparr>) else hb_conns h)"
  proof (rule ext)
    fix x
    show "hb_conns (set_sends (queue_for [c] m) h) x =
      (if has_room h c then (hb_conns h)(c \<mapsto> k\<lparr>cn_send := cn_send k @ [m]\<rparr>) else hb_conns h) x"
      using k by (cases "hb_conns h x") (auto simp: queue_for_def has_room_def)
  qed
  then show ?thesis using k by (auto simp: try_send_def has_room_def set_sends_def)
qed

lemma send_each_open:
  assumes "\<forall>c\<in>set cs. open_in h c" "distinct cs"
  shows "send_each m cs h = (filter (\<lambda>c. \<not> has_room h c) cs, set_sends (queue_for cs m) h)"
  using assms
proof (induction cs arbitrary: h)
  case Nil
  then show ?case by (simp add: queue_for_def set_sends_id)
next
  case (Cons c cs)
  let ?h = "set_sends (queue_for [c] m) h"
  have "send_each m cs ?h = (filter (\<lambda>c. \<not> has_room ?h c) cs, set_sends (queue_for cs m) ?h)"
    using Cons.prems by (intro Cons.IH) auto
  moreover have "filter (\<lambda>c. \<not> has_room ?h c) cs = filter (\<lambda>c. \<not> has_room h c) cs"
    using Cons.prems(2) by (intro filter_cong) (auto simp: has_room_def queue_for_def split: option.split)
  moreover have "set_sends (queue_for cs m) ?h = set_sends (queue_for (c # cs) m) h"
    unfolding set_sends_twice using Cons.prems(2) by (intro arg_cong2 [where f = set_sends]) (auto simp: fun_eq_iff queue_for_def)
  moreover have "open_in h c" using Cons.prems by simp
  ultimately show ?case by (simp add: try_send_open)
qed

section \<open>Removal\<close>

text \<open>What the removal of open, registered clients does to the hub.\<close>

definition close_as :: "string \<Rightarrow> client \<Rightarrow> client" where
  "close_as reason k = k\<lparr>cn_close_reason := reason, cn_closed := True\<rparr>"

definition removed :: "nat list \<Rightarrow> string \<Rightarrow> hub \<Rightarrow> hub" where
  "removed cs reason h = h\<lparr>
     hb_clients := filter (\<lambda>c. c \<notin> set cs) (hb_clients h),
     hb_conns := (\<lambda>c. if c \<in> set cs then map_option (close_as reason) (hb_conns h c) else hb_conns h c),
     hb_subs := (\<lambda>i. fold remove_sub cs (hb_subs h i))\<rparr>"

lemma removed_fields [simp]:
  "hb_clients (removed cs r h) = filter (\<lambda>c. c \<notin> set cs) (hb_clients h)" "hb_done (removed cs r h) = hb_done h"
  "hb_run (removed cs r h) = hb_run h" "hb_revocables (removed cs r h) = hb_revocables h" "hb_revoked (removed cs r h) = hb_revoked h"
  "hb_panicked (removed cs r h) = hb_panicked h" "hb_broadcast (removed cs r h) = hb_broadcast h"
  "hb_conns (removed cs r h) c = (if c \<in> set cs then map_option (close_as r) (hb_conns h c) else hb_conns h c)"
  "hb_subs (removed cs r h) i = fold remove_sub cs (hb_subs h i)"
  by (simp_all add: removed_def)

lemma removeClientLocked_open:
  assumes "c \<in> set (hb_clients h)" "open_in h c"
  shows "removeClientLocked c r h = removed [c] r h"
proof -
  obtain k where k: "hb_conns h c = Some k" "\<not> cn_closed k" using assms(2) by (auto simp: open_in_def)
  have conns: "hb_conns (removed [c] r h) = (hb_conns h)(c \<mapsto> close_as r k)" using k by (auto simp: fun_eq_iff)
  have clients: "hb_clients (removed [c] r h) = removeAll c (hb_clients h)" by (auto simp: removeAll_filter_not_eq intro: filter_cong)
  have "removeClientLocked c r h =
    h\<lparr>hb_clients := removeAll c (hb_clients h), hb_conns := (hb_conns h)(c \<mapsto> close_as r k), hb_subs := (\<lambda>i. remove_sub c (hb_subs h i))\<rparr>"
    using assms(1) k by (simp add: removeClientLocked_def removeClientSubs_def close_send_def set_reason_def close_as_def)
  then show ?thesis using conns clients by (intro hub.equality) (simp_all add: fun_eq_iff)
qed

lemma removeClientLocked_gone [simp]: "c \<notin> set (hb_clients h) \<Longrightarrow> removeClientLocked c r h = h"
  by (simp add: removeClientLocked_def)

lemma removed_append: "removed cs r (removed [c] r h) = removed (c # cs) r h" if "c \<notin> set cs"
  using that by (intro hub.equality) (auto simp: fun_eq_iff intro: filter_cong)

lemma remove_clients_open:
  assumes "set cs \<subseteq> set (hb_clients h)" "\<forall>c\<in>set cs. open_in h c" "distinct cs"
  shows "remove_clients cs r h = removed cs r h"
  using assms
proof (induction cs arbitrary: h)
  case Nil
  then show ?case by (intro hub.equality) (auto simp: remove_clients_def fun_eq_iff)
next
  case (Cons c cs)
  have "removeClientLocked c r h = removed [c] r h" using Cons.prems by (intro removeClientLocked_open) simp_all
  moreover have "remove_clients cs r (removed [c] r h) = removed cs r (removed [c] r h)"
    using Cons.prems by (intro Cons.IH) (auto simp: open_in_def)
  ultimately show ?case using Cons.prems removed_append [of c cs] by (simp add: remove_clients_def)
qed

section \<open>The invariant is kept\<close>

lemma wire_ok_simps [simp]:
  "wire_ok (close_as r k) = wire_ok k" "wire_ok (k\<lparr>cn_send := q\<rparr>) = wire_ok k" "wire_ok (k\<lparr>cn_closed := b\<rparr>) = wire_ok k"
  by (simp_all add: wire_ok_def close_as_def)

lemma hub_okD:
  assumes "hub_ok h"
  shows "\<not> hb_panicked h" "distinct (hb_clients h)" "c \<in> set (hb_clients h) \<Longrightarrow> open_in h c"
    "hb_subs h i = Some s \<Longrightarrow> distinct s \<and> set s \<subseteq> set (hb_clients h)" "hb_conns h c = Some k \<Longrightarrow> wire_ok k"
    "\<not> hb_run h \<Longrightarrow> hb_done h \<and> hb_clients h = [] \<and> hb_revocables h = []"
  using assms by (auto simp: hub_ok_def clients_open_def subs_ok_def open_in_def run_ended_ok_def)

lemma hub_okI:
  assumes "\<not> hb_panicked h" "distinct (hb_clients h)" "\<And>c. c \<in> set (hb_clients h) \<Longrightarrow> open_in h c"
    "\<And>i s. hb_subs h i = Some s \<Longrightarrow> s \<noteq> [] \<and> distinct s \<and> set s \<subseteq> set (hb_clients h)" "\<And>c k. hb_conns h c = Some k \<Longrightarrow> wire_ok k"
    "\<not> hb_run h \<Longrightarrow> hb_done h \<and> hb_clients h = [] \<and> hb_revocables h = []"
  shows "hub_ok h"
  using assms by (auto simp: hub_ok_def clients_open_def subs_ok_def open_in_def run_ended_ok_def)

lemma hub_ok_subs: "hub_ok h \<Longrightarrow> hb_subs h i = Some s \<Longrightarrow> s \<noteq> [] \<and> distinct s \<and> set s \<subseteq> set (hb_clients h)"
  by (auto simp: hub_ok_def subs_ok_def)

named_theorems hub_keeps \<open>operations that keep the invariant of the hub\<close>

lemma hub_ok_sends [hub_keeps]: "hub_ok h \<Longrightarrow> hub_ok (set_sends g h)"
  by (rule hub_okI) (auto dest: hub_okD hub_ok_subs)

lemma hub_ok_frame [hub_keeps]:
  assumes "hub_ok h"
  shows "hub_ok (h\<lparr>hb_broadcast := b\<rparr>)" "hub_ok (h\<lparr>hb_revoked := l\<rparr>)" "hub_ok (h\<lparr>hb_revocables := filter p (hb_revocables h)\<rparr>)"
    "hub_ok (h\<lparr>hb_done := True\<rparr>)"
  using assms by (auto simp: hub_ok_def clients_open_def subs_ok_def run_ended_ok_def)

lemma remove_sub_Some: "remove_sub c subs = Some s \<Longrightarrow> \<exists>s0. subs = Some s0 \<and> s = removeAll c s0 \<and> s \<noteq> []"
  by (auto simp: remove_sub_def split: option.splits if_splits)

lemma hub_ok_removed1:
  assumes "hub_ok h"
  shows "hub_ok (removed [c] r h)"
proof (rule hub_okI)
  fix i s assume "hb_subs (removed [c] r h) i = Some s"
  then have "remove_sub c (hb_subs h i) = Some s" by simp
  then obtain s0 where "hb_subs h i = Some s0" "s = removeAll c s0" "s \<noteq> []" using remove_sub_Some by blast
  then show "s \<noteq> [] \<and> distinct s \<and> set s \<subseteq> set (hb_clients (removed [c] r h))"
    using hub_ok_subs [OF assms] by (auto simp: distinct_removeAll)
qed (use hub_okD [OF assms] in \<open>auto simp: open_in_def split: if_splits\<close>)

lemma hub_ok_remove [hub_keeps]: "hub_ok h \<Longrightarrow> hub_ok (removeClientLocked c r h)"
  by (cases "c \<in> set (hb_clients h)") (simp_all add: removeClientLocked_open hub_ok_removed1 hub_okD)

lemma hub_ok_remove_all [hub_keeps]: "hub_ok h \<Longrightarrow> hub_ok (fold (\<lambda>c. removeClientLocked c r) cs h)"
  by (induction cs arbitrary: h) (auto intro: hub_ok_remove)

lemma hub_ok_sends_each [hub_keeps]:
  assumes "hub_ok h" "set cs \<subseteq> set (hb_clients h)" "distinct cs"
  shows "hub_ok (snd (send_each m cs h))"
proof -
  have "\<forall>c\<in>set cs. open_in h c" using hub_okD(3) [OF assms(1)] assms(2) by blast
  then show ?thesis using assms by (simp add: send_each_open hub_ok_sends)
qed

lemma hub_ok_instance_sends [hub_keeps]: "hub_ok h \<Longrightarrow> hub_ok (snd (instance_sends i m h))"
  by (auto simp: instance_sends_def intro!: hub_ok_sends_each dest: hub_ok_subs split: option.split)

lemma hub_ok_user_sends [hub_keeps]: "hub_ok h \<Longrightarrow> hub_ok (snd (user_sends u m h))"
  by (auto simp: user_sends_def intro!: hub_ok_sends_each dest: hub_okD)

lemma hub_ok_run_broadcast [hub_keeps]: "hub_ok h \<Longrightarrow> hub_ok (snd (run_broadcast h))"
  by (auto simp: run_broadcast_def intro!: hub_ok_sends_each hub_ok_frame dest: hub_okD split: list.split)

lemma hub_ok_revoke [hub_keeps]: "hub_ok h \<Longrightarrow> hub_ok (snd (revokeRevocables match code reason h))"
  using hub_ok_frame(2) [OF hub_ok_frame(3)] by (simp add: revokeRevocables_def takeRevocables_def revokeAll_def)

lemma hub_ok_disconnect [hub_keeps]: "hub_ok h \<Longrightarrow> hub_ok (snd (disconnectIdentities match h))"
  using hub_ok_frame(2) [OF hub_ok_frame(3) [OF hub_ok_remove_all]]
  by (simp add: disconnectIdentities_def takeRevocables_def revokeAll_def remove_clients_def Let_def)

lemma hub_ok_new [hub_keeps]:
  assumes "hub_ok h" "hb_conns h c = None"
  shows "hub_ok (snd (NewClientWithIdentity c i h))"
proof -
  have new: "c \<notin> set (hb_clients h)" using assms(2) hub_okD(3) [OF assms(1), of c] by (auto simp: open_in_def)
  show ?thesis
    using assms new hub_okD(2,3,5,6) [OF assms(1)] hub_ok_subs [OF assms(1)]
    by (intro hub_okI) (auto simp: NewClientWithIdentity_def hub_Register_def Let_def open_in_def wire_ok_def hub_okD(1) split: if_splits, fastforce+)
qed

lemma hub_ok_subscribe [hub_keeps]:
  assumes "hub_ok h"
  shows "hub_ok (hub_Subscribe c i h)" "hub_ok (hub_Unsubscribe c i h)"
proof -
  show "hub_ok (hub_Subscribe c i h)"
    using hub_okD [OF assms] hub_ok_subs [OF assms]
    by (intro hub_okI) (fastforce simp: hub_Subscribe_def open_in_def List.insert_def split: if_splits option.splits)+
  show "hub_ok (hub_Unsubscribe c i h)"
    using hub_okD [OF assms] hub_ok_subs [OF assms]
    by (intro hub_okI) (fastforce simp: hub_Unsubscribe_def open_in_def distinct_removeAll dest!: remove_sub_Some split: if_splits)+
qed

lemma hub_ok_inbound [hub_keeps]: "hub_ok h \<Longrightarrow> hub_ok (handleInbound c data h)"
  by (simp add: handleInbound_def hub_ok_subscribe split: option.split)

lemma close_all_sends:
  assumes "\<forall>c\<in>set cs. open_in h c" "distinct cs"
  shows "fold close_send cs h =
    h\<lparr>hb_conns := (\<lambda>c. if c \<in> set cs then map_option (\<lambda>k. k\<lparr>cn_closed := True\<rparr>) (hb_conns h c) else hb_conns h c)\<rparr>"
  using assms
proof (induction cs arbitrary: h)
  case (Cons c cs)
  obtain k where k: "hb_conns h c = Some k" "\<not> cn_closed k" using Cons.prems by (auto simp: open_in_def)
  let ?h = "h\<lparr>hb_conns := (hb_conns h)(c \<mapsto> k\<lparr>cn_closed := True\<rparr>)\<rparr>"
  have "close_send c h = ?h" using k by (simp add: close_send_def)
  moreover have "fold close_send cs ?h =
    ?h\<lparr>hb_conns := (\<lambda>c. if c \<in> set cs then map_option (\<lambda>k. k\<lparr>cn_closed := True\<rparr>) (hb_conns ?h c) else hb_conns ?h c)\<rparr>"
    using Cons.prems by (intro Cons.IH) (auto simp: open_in_def)
  ultimately show ?case using k Cons.prems(2) by (intro hub.equality) (auto simp: fun_eq_iff)
qed (simp add: if_distrib)

lemma hub_ok_run_done [hub_keeps]:
  assumes "hub_ok h" "hb_done h"
  shows "hub_ok (run_done h)"
proof -
  have "\<forall>c\<in>set (hb_clients h). open_in (h\<lparr>hb_revocables := []\<rparr>) c" using hub_okD(3) [OF assms(1)] by (auto simp: open_in_def)
  then show ?thesis
    using close_all_sends [of "hb_clients h" "h\<lparr>hb_revocables := []\<rparr>"] assms hub_okD(1,2,5) [OF assms(1)]
    by (intro hub_okI) (auto simp: run_done_def closeAllClients_def takeRevocables_def revokeAll_def Let_def split: if_splits)
qed

lemma write_messages_fields: "cn_closed (write_messages ok i k ms) = cn_closed k \<and> (cn_pump k \<longrightarrow> wire_ok k \<longrightarrow> wire_ok (write_messages ok i k ms))"
proof (induction ok i k ms rule: write_messages.induct)
  case (2 ok i k m ms)
  then show ?case by (auto simp: wire_ok_def dest: in_set_butlastD split: if_splits)
qed simp

lemma pump_keeps:
  assumes "cn_pump k" "wire_ok k"
  shows "cn_closed (handleSend ok k) = cn_closed k \<and> wire_ok (handleSend ok k)"
    "cn_closed (pump_expired now k) = cn_closed k \<and> wire_ok (pump_expired now k)"
    "cn_closed (pump_ping good k) = cn_closed k \<and> wire_ok (pump_ping good k)"
  using assms write_messages_fields [of ok 0 k "cn_send k"]
  by (auto simp: handleSend_def pump_expired_def pump_ping_def write_close_def wire_ok_def dest: in_set_butlastD split: if_splits)

lemma hub_ok_put [hub_keeps]:
  assumes "hub_ok h" "hb_conns h c = Some k" "cn_closed k' = cn_closed k \<and> wire_ok k'"
  shows "hub_ok (put_client c k' h)"
  using assms(2,3) hub_okD [OF assms(1)] hub_ok_subs [OF assms(1)]
  by (intro hub_okI) (fastforce simp: put_client_def open_in_def split: if_splits)+

lemma hub_ok_revalidated [hub_keeps]:
  assumes "hub_ok h"
  shows "hub_ok (snd (revalidateIdentities is revoked h))" "hub_ok (snd (revalidateAccess rs lost h))"
  using assms hub_ok_disconnect hub_ok_revoke by (simp_all add: revalidateIdentities_def revalidateAccess_def Let_def)

lemma hub_ok_revocables [hub_keeps]:
  assumes "hub_ok h"
  shows "RegisterRevocable r h = Inr h' \<Longrightarrow> hub_ok h'" "hub_ok (unregister_revocable r h)"
  using assms hub_ok_frame(3) [OF assms, of "\<lambda>x. x \<noteq> r"]
  by (auto simp: RegisterRevocable_def unregister_revocable_def removeAll_filter_not_eq hub_ok_def clients_open_def subs_ok_def
      run_ended_ok_def eq_commute split: if_splits)

lemma hub_ok_step: "hub_step s t \<Longrightarrow> hub_ok (fst s) \<Longrightarrow> hub_ok (fst t)"
proof (induction rule: hub_step.induct)
  case (pump_sends h c k ps ok)
  then show ?case using pump_keeps(1) hub_okD(5) by (auto intro!: hub_ok_put)
next
  case (pump_expires h c k ps now)
  then show ?case using pump_keeps(2) hub_okD(5) by (auto intro!: hub_ok_put)
next
  case (pump_pings h c k ps good)
  then show ?case using pump_keeps(3) hub_okD(5) by (auto intro!: hub_ok_put)
qed (auto intro: hub_keeps simp: deliverAll_def finishSend_def run_unregister_def DisconnectClient_def DisconnectInstance_def hub_Shutdown_def)

lemma hub_ok_New: "hub_ok NewHub"
  by (simp add: hub_ok_def NewHub_def clients_open_def subs_ok_def run_ended_ok_def)

interpretation hubs: invariant_system hub_step "\<lambda>s. hub_ok (fst s)"
  by unfold_locales (rule hub_ok_step)

lemma reachable_ok: "hub_step\<^sup>*\<^sup>* (NewHub, []) (h, ps) \<Longrightarrow> hub_ok h"
  using hubs.keeps_star [of "(NewHub, [])" "(h, ps)"] hub_ok_New by simp

section \<open>What the operations do\<close>

lemma disconnect_is_removed:
  assumes "hub_ok h"
  shows "disconnectIdentities match h =
    (let cs = filter (client_matches match h) (hb_clients h); rs = filter (\<lambda>r. match (rv_identity r)) (hb_revocables h)
     in (length cs + length rs, (removed cs closeReasonRevoked h)\<lparr>
           hb_revocables := filter (\<lambda>r. \<not> match (rv_identity r)) (hb_revocables h),
           hb_revoked := hb_revoked h @ map (\<lambda>r. (rv_id r, CloseCodePolicyViolation, closeReasonRevoked)) rs\<rparr>))"
proof -
  have "remove_clients (filter (client_matches match h) (hb_clients h)) closeReasonRevoked h =
    removed (filter (client_matches match h) (hb_clients h)) closeReasonRevoked h"
    using hub_okD(2,3) [OF assms] by (intro remove_clients_open) auto
  then show ?thesis by (simp add: disconnectIdentities_def takeRevocables_def revokeAll_def Let_def)
qed

text \<open>C18. Whatever clients, senders, revocations, checks and a shutdown do, in every interleaving of their parts under the lock: no closed
  channel is used again (Go would panic), every registered client has an open channel, subscriptions are those of
  registered clients, and once the loop of the hub has returned nobody is registered.\<close>

theorem hub_never_panics:
  assumes "hub_step\<^sup>*\<^sup>* (NewHub, []) (h, ps)"
  shows "\<not> hb_panicked h \<and> (\<forall>c\<in>set (hb_clients h). \<exists>k. hb_conns h c = Some k \<and> \<not> cn_closed k)
    \<and> (\<forall>i s. hb_subs h i = Some s \<longrightarrow> s \<noteq> [] \<and> set s \<subseteq> set (hb_clients h))
    \<and> (\<not> hb_run h \<longrightarrow> hb_clients h = [] \<and> hb_revocables h = [])"
  using reachable_ok [OF assms] by (auto simp: hub_ok_def clients_open_def subs_ok_def run_ended_ok_def)

text \<open>A revocation on a replica closes exactly the connections of the revoked identity: they leave the hub, their
  channels are closed with the reason ``session revoked'', port-forward and exec sessions are revoked with code 1008, and every other
  connection stays as it is.\<close>

theorem disconnect_exact:
  assumes "hub_step\<^sup>*\<^sup>* (NewHub, []) (h, ps)" "disconnectIdentities match h = (n, h')"
  shows "hb_clients h' = filter (\<lambda>c. \<not> client_matches match h c) (hb_clients h)
    \<and> hb_revocables h' = filter (\<lambda>r. \<not> match (rv_identity r)) (hb_revocables h)
    \<and> n = (length (hb_clients h) - length (hb_clients h')) + (length (hb_revocables h) - length (hb_revocables h'))
    \<and> (\<forall>c. hb_conns h' c = (if c \<in> set (hb_clients h) \<and> client_matches match h c
          then map_option (\<lambda>k. k\<lparr>cn_close_reason := closeReasonRevoked, cn_closed := True\<rparr>) (hb_conns h c) else hb_conns h c))
    \<and> hb_revoked h' = hb_revoked h @ map (\<lambda>r. (rv_id r, 1008, closeReasonRevoked)) (filter (\<lambda>r. match (rv_identity r)) (hb_revocables h))"
proof -
  let ?cs = "filter (client_matches match h) (hb_clients h)"
  have "filter (\<lambda>c. c \<notin> set ?cs) (hb_clients h) = filter (\<lambda>c. \<not> client_matches match h c) (hb_clients h)"
    by (rule filter_cong) auto
  moreover have "length ?cs + length (filter (\<lambda>c. \<not> client_matches match h c) (hb_clients h)) = length (hb_clients h)"
    by (rule sum_length_filter_compl)
  moreover have "length (filter (\<lambda>r. match (rv_identity r)) (hb_revocables h)) + length (filter (\<lambda>r. \<not> match (rv_identity r)) (hb_revocables h))
    = length (hb_revocables h)"
    by (rule sum_length_filter_compl)
  moreover have "close_as closeReasonRevoked = (\<lambda>k. k\<lparr>cn_close_reason := closeReasonRevoked, cn_closed := True\<rparr>)"
    by (simp add: fun_eq_iff close_as_def)
  ultimately show ?thesis using assms(2) unfolding disconnect_is_removed [OF reachable_ok [OF assms(1)]] Let_def by auto
qed

lemma disconnect_none:
  assumes "hub_ok h" "\<And>c k. c \<in> set (hb_clients h) \<Longrightarrow> hb_conns h c = Some k \<Longrightarrow> \<not> match (cn_identity k)"
    "\<And>r. r \<in> set (hb_revocables h) \<Longrightarrow> \<not> match (rv_identity r)"
  shows "disconnectIdentities match h = (0, h)"
proof -
  have "filter (client_matches match h) (hb_clients h) = []"
    using assms(2) by (auto simp: filter_empty_conv client_matches_def split: option.splits)
  moreover have "filter (\<lambda>r. match (rv_identity r)) (hb_revocables h) = []" "filter (\<lambda>r. \<not> match (rv_identity r)) (hb_revocables h) = hb_revocables h"
    using assms(3) by (auto simp: filter_empty_conv filter_id_conv)
  moreover have "removed [] closeReasonRevoked h = h" by (intro hub.equality) (auto simp: fun_eq_iff)
  ultimately show ?thesis by (simp add: disconnect_is_removed [OF assms(1)])
qed

lemma disconnect_cong:
  assumes "\<And>c k. c \<in> set (hb_clients h) \<Longrightarrow> hb_conns h c = Some k \<Longrightarrow> p (cn_identity k) = q (cn_identity k)"
    "\<And>r. r \<in> set (hb_revocables h) \<Longrightarrow> p (rv_identity r) = q (rv_identity r)" "hub_ok h"
  shows "disconnectIdentities p h = disconnectIdentities q h"
proof -
  have "filter (client_matches p h) (hb_clients h) = filter (client_matches q h) (hb_clients h)"
    using assms(1) by (auto simp: client_matches_def intro!: filter_cong split: option.splits)
  moreover have "filter (\<lambda>r. p (rv_identity r)) (hb_revocables h) = filter (\<lambda>r. q (rv_identity r)) (hb_revocables h)"
    "filter (\<lambda>r. \<not> p (rv_identity r)) (hb_revocables h) = filter (\<lambda>r. \<not> q (rv_identity r)) (hb_revocables h)"
    using assms(2) by (auto intro!: filter_cong)
  ultimately show ?thesis by (simp add: disconnect_is_removed [OF assms(3)])
qed

lemma add_identities_keys:
  "k \<in> keyOf ` set (add_identities seen is) \<longleftrightarrow> k \<notin> set seen \<and> (\<exists>i\<in>set is. \<not> no_credential i \<and> k = keyOf i)"
proof (induction "is" arbitrary: seen)
  case (Cons i "is")
  show ?case
  proof (cases "no_credential i \<or> keyOf i \<in> set seen")
    case True
    then show ?thesis using Cons.IH [of seen] by auto
  next
    case False
    then show ?thesis using Cons.IH [of "keyOf i # seen"] by (cases "k = keyOf i") simp_all
  qed
qed simp

lemma client_identities_set: "set (client_identities h) = {cn_identity k |k c. c \<in> set (hb_clients h) \<and> hb_conns h c = Some k}"
proof -
  have "set (List.map_filter (hb_conns h) cs) = {k. \<exists>c\<in>set cs. hb_conns h c = Some k}" for cs
    by (induction cs) (auto simp: List.map_filter_simps split: option.splits)
  then show ?thesis by (auto simp: client_identities_def)
qed

lemma revokedKeys_map: "set (revokedKeys is (map bad is)) = keyOf ` {i \<in> set is. bad i}"
  by (induction "is") (auto simp: revokedKeys_def)


section \<open>Witnesses\<close>

definition example_identity :: client_identity where
  "example_identity = \<lparr>ci_expires_at = 0, ci_issued_at = 7000000, ci_user_id = ''u1'', ci_token_id = ''t1'', ci_session_id = ''s1'', ci_api_key_id = []\<rparr>"

definition example_hub :: hub where
  "example_hub = snd (NewClientWithIdentity 0 example_identity NewHub)"

lemma example_hub_reachable: "hub_step\<^sup>*\<^sup>* (NewHub, []) (example_hub, [])"
  unfolding example_hub_def by (intro r_into_rtranclp connects) (simp add: NewHub_def)

lemmas example_hub_simps = example_hub_def NewClientWithIdentity_def hub_Register_def NewHub_def Let_def example_identity_def List.insert_def

theorem hub_never_panics_witness: "\<not> hb_panicked (snd (disconnectIdentities (\<lambda>i. ci_user_id i = ''u1'') example_hub))"
proof -
  have "hub_step (example_hub, []) (snd (disconnectIdentities (\<lambda>i. ci_user_id i = ''u1'') example_hub), [])" by (rule disconnects)
  with example_hub_reachable have "hub_step\<^sup>*\<^sup>* (NewHub, []) (snd (disconnectIdentities (\<lambda>i. ci_user_id i = ''u1'') example_hub), [])"
    by (rule rtranclp.rtrancl_into_rtrancl)
  from hub_never_panics [OF this] show ?thesis by (rule conjunct1)
qed

theorem disconnect_exact_witness:
  "hb_clients (snd (disconnectIdentities (\<lambda>i. ci_user_id i = ''u1'') example_hub)) = []
    \<and> hb_clients (snd (disconnectIdentities (\<lambda>i. ci_user_id i = ''u2'') example_hub)) = [0]"
  using disconnect_exact [OF example_hub_reachable surjective_pairing, of "\<lambda>i. ci_user_id i = ''u1''"]
    disconnect_exact [OF example_hub_reachable surjective_pairing, of "\<lambda>i. ci_user_id i = ''u2''"]
  by (simp add: example_hub_simps client_matches_def)


end
