(* ===== verification/Fanout.thy ===== *)
theory Fanout
  imports Hub
begin

text \<open>
  The fan-out of messages and revocations between the replicas: \<open>websocket/fanout.go\<close>, \<open>models/ws_event.go\<close>,
  \<open>database/ws_event_repository.go\<close>. A replica queues a row for every message of its hub, a writer inserts the queued rows in
  batches, and the poller of every other replica reads the table by the auto-increment number and gives the rows to its own hub.
  Numbers are given at the insert and rows become visible at the commit, so the poller keeps the numbers it
  passed over and reads them again for a while. Each query of a poll sees the table of its own moment.
\<close>

section \<open>The table of events\<close>

record ws_event =
  we_id :: int
  we_created_at :: gtime
  we_target :: string
  we_origin :: string
  we_payload :: string

type_synonym ws_table = "ws_event list"

abbreviation WSEventTargetAll :: string where "WSEventTargetAll \<equiv> ''all''"
abbreviation WSEventTargetInstancePrefix :: string where "WSEventTargetInstancePrefix \<equiv> ''instance:''"
abbreviation WSEventTargetUserPrefix :: string where "WSEventTargetUserPrefix \<equiv> ''user:''"
abbreviation WSEventTargetRevokeUserPrefix :: string where "WSEventTargetRevokeUserPrefix \<equiv> ''revoke:user:''"
abbreviation WSEventTargetRevokeTokenPrefix :: string where "WSEventTargetRevokeTokenPrefix \<equiv> ''revoke:token:''"
abbreviation WSEventTargetRevokeAPIKeyPrefix :: string where "WSEventTargetRevokeAPIKeyPrefix \<equiv> ''revoke:apikey:''"

text \<open>The shared table: the visible rows and the next auto-increment number.\<close>

record ws_db =
  wd_rows :: ws_table
  wd_next :: int

definition blank_payload :: "string \<Rightarrow> ws_event \<Rightarrow> ws_event" where
  "blank_payload origin e = (if we_origin e = origin then e\<lparr>we_payload := []\<rparr> else e)"

fun number_events :: "int \<Rightarrow> ws_event list \<Rightarrow> ws_event list" where
  "number_events n [] = []"
| "number_events n (e # es) = e\<lparr>we_id := n\<rparr> # number_events (n + 1) es"

definition ev_Insert :: "fault \<Rightarrow> ws_event list \<Rightarrow> ws_db \<Rightarrow> db_cause option \<times> ws_db" where
  "ev_Insert flt es d =
     (if es = [] then (None, d)
      else case flt of
        Some e \<Rightarrow> (Some e, d)
      | None \<Rightarrow> (None, d\<lparr>wd_rows := wd_rows d @ number_events (wd_next d) es, wd_next := wd_next d + int (length es)\<rparr>))"

definition ev_MaxID :: "fault \<Rightarrow> ws_table \<Rightarrow> db_cause + int" where
  "ev_MaxID flt t = (case flt of Some e \<Rightarrow> Inl e | None \<Rightarrow> Inr (if t = [] then 0 else Max (we_id ` set t)))"

definition ev_ListAfter :: "fault \<Rightarrow> int \<Rightarrow> nat \<Rightarrow> string \<Rightarrow> ws_table \<Rightarrow> db_cause + ws_event list" where
  "ev_ListAfter flt afterID limit origin t =
     (case flt of
        Some e \<Rightarrow> Inl e
      | None \<Rightarrow> Inr (map (blank_payload origin) (take limit (sort_key we_id (filter (\<lambda>e. afterID < we_id e) t)))))"

definition ev_IDsAfter :: "fault \<Rightarrow> int \<Rightarrow> nat \<Rightarrow> ws_table \<Rightarrow> db_cause + int list" where
  "ev_IDsAfter flt afterID limit t =
     (case flt of Some e \<Rightarrow> Inl e | None \<Rightarrow> Inr (take limit (sort (filter (\<lambda>i. afterID < i) (map we_id t)))))"

definition ev_ListByIDs :: "fault \<Rightarrow> int list \<Rightarrow> string \<Rightarrow> ws_table \<Rightarrow> db_cause + ws_event list" where
  "ev_ListByIDs flt ids origin t =
     (if ids = [] then Inr []
      else case flt of
        Some e \<Rightarrow> Inl e
      | None \<Rightarrow> Inr (map (blank_payload origin) (sort_key we_id (filter (\<lambda>e. we_id e \<in> set ids) t))))"

text \<open>
  \<open>DeleteOlderThan\<close>: the numbers of the next old rows, then the delete of the old rows up to the highest of them. The
  functions of the round number say whether the context has ended and which statement fails.
\<close>

definition old_ids :: "gtime \<Rightarrow> nat \<Rightarrow> ws_table \<Rightarrow> int list" where
  "old_ids t n tbl = take n (sort (map we_id (filter (\<lambda>e. we_created_at e < t) tbl)))"

definition delete_upto :: "gtime \<Rightarrow> int \<Rightarrow> ws_table \<Rightarrow> ws_table" where
  "delete_upto t i tbl = filter (\<lambda>e. \<not> (we_id e \<le> i \<and> we_created_at e < t)) tbl"

lemma old_ids_last:
  assumes "old_ids t n tbl \<noteq> []"
  shows "\<exists>e\<in>set tbl. we_id e \<le> last (old_ids t n tbl) \<and> we_created_at e < t"
proof -
  have "last (old_ids t n tbl) \<in> set (old_ids t n tbl)" using assms by simp
  then have "last (old_ids t n tbl) \<in> set (sort (map we_id (filter (\<lambda>e. we_created_at e < t) tbl)))"
    unfolding old_ids_def by (meson in_set_takeD)
  then show ?thesis by auto
qed

lemma delete_upto_shorter:
  assumes "old_ids t n tbl \<noteq> []"
  shows "length (delete_upto t (last (old_ids t n tbl)) tbl) < length tbl"
  unfolding delete_upto_def using old_ids_last [OF assms] by (auto intro!: length_filter_less)

function delete_older_loop ::
    "(nat \<Rightarrow> fault) \<Rightarrow> (nat \<Rightarrow> fault) \<Rightarrow> (nat \<Rightarrow> fault) \<Rightarrow> gtime \<Rightarrow> nat \<Rightarrow> nat \<Rightarrow> nat \<Rightarrow> ws_table \<Rightarrow> (db_cause option \<times> nat) \<times> ws_table" where
  "delete_older_loop ctx sel del t n i deleted tbl =
     (case ctx i of
        Some e \<Rightarrow> ((Some e, deleted), tbl)
      | None \<Rightarrow> case sel i of
          Some e \<Rightarrow> ((Some e, deleted), tbl)
        | None \<Rightarrow>
            let ids = old_ids t n tbl in
            if ids = [] then ((None, deleted), tbl)
            else case del i of
              Some e \<Rightarrow> ((Some e, deleted), tbl)
            | None \<Rightarrow>
                let tbl' = delete_upto t (last ids) tbl;
                    deleted' = deleted + (length tbl - length tbl')
                in if length ids < n then ((None, deleted'), tbl')
                   else delete_older_loop ctx sel del t n (Suc i) deleted' tbl')"
  by pat_completeness auto
termination
  by (relation "measure (\<lambda>(_, _, _, _, _, _, _, tbl). length tbl)") (auto dest: delete_upto_shorter)

declare delete_older_loop.simps [simp del]

definition ev_DeleteOlderThan ::
    "(nat \<Rightarrow> fault) \<Rightarrow> (nat \<Rightarrow> fault) \<Rightarrow> (nat \<Rightarrow> fault) \<Rightarrow> gtime \<Rightarrow> int \<Rightarrow> ws_table \<Rightarrow> (db_cause option \<times> nat) \<times> ws_table" where
  "ev_DeleteOlderThan ctx sel del t batchSize tbl =
     delete_older_loop ctx sel del t (if batchSize \<le> 0 then 5000 else nat batchSize) 0 0 tbl"

section \<open>The fan-out of a replica\<close>

record fanout_config =
  fc_origin :: string
  fc_poll_interval :: duration
  fc_gap_timeout :: duration
  fc_max_age :: duration
  fc_poll_batch :: int
  fc_buffer_size :: int
  fc_write_batch :: int
  fc_max_payload_bytes :: int

definition withDefaults :: "fanout_config \<Rightarrow> fanout_config" where
  "withDefaults c = c\<lparr>
     fc_poll_interval := (if fc_poll_interval c \<le> 0 then 500000000 else fc_poll_interval c),
     fc_gap_timeout := (if fc_gap_timeout c \<le> 0 then 10 * Second else fc_gap_timeout c),
     fc_max_age := (if fc_max_age c \<le> 0 then 30 * Second else fc_max_age c),
     fc_poll_batch := (if fc_poll_batch c \<le> 0 then 500 else fc_poll_batch c),
     fc_buffer_size := (if fc_buffer_size c \<le> 0 then 4096 else fc_buffer_size c),
     fc_write_batch := (if fc_write_batch c \<le> 0 then 200 else fc_write_batch c),
     fc_max_payload_bytes := (if fc_max_payload_bytes c \<le> 0 then 524288 else fc_max_payload_bytes c)\<rparr>"

abbreviation fanoutWriteBatchBytes :: nat where "fanoutWriteBatchBytes \<equiv> 1048576"
abbreviation fanoutMaxPagesPerPoll :: nat where "fanoutMaxPagesPerPoll \<equiv> 20"
abbreviation fanoutMaxGapSpan :: int where "fanoutMaxGapSpan \<equiv> 1000"
definition fanoutMaxMissing :: nat where "fanoutMaxMissing = 10000"
abbreviation fanoutIDsPerRecheck :: nat where "fanoutIDsPerRecheck \<equiv> 500"
abbreviation fanoutRestartCheckEvery :: nat where "fanoutRestartCheckEvery \<equiv> 20"
abbreviation fanoutStartReplicas :: int where "fanoutStartReplicas \<equiv> 5"

text \<open>
  The fan-out with its hub. \<open>fo_missing\<close> are the numbers passed over with their deadlines, \<open>fo_attached\<close> says that the hub
  queues rows; \<open>fo_handed\<close> are the rows that \<open>deliver\<close> was called with, \<open>fo_restarts\<close> counts the warnings that the numbers restarted.
\<close>

record fanout =
  fo_cfg :: fanout_config
  fo_hub :: hub
  fo_queue :: "ws_event list"
  fo_stopped :: bool
  fo_attached :: bool
  fo_last_id :: int
  fo_started :: bool
  fo_missing :: "(int \<times> gtime) list"
  fo_empty_polls :: nat
  fo_written :: int
  fo_dropped :: int
  fo_delivered :: int
  fo_skipped :: int
  fo_restarts :: nat
  fo_handed :: "ws_event list"

definition NewFanout :: "hub \<Rightarrow> fanout_config \<Rightarrow> fanout option" where
  "NewFanout h c =
     (if fc_origin c = [] then None
      else Some \<lparr>fo_cfg = withDefaults c, fo_hub = h, fo_queue = [], fo_stopped = False, fo_attached = True, fo_last_id = 0,
        fo_started = False, fo_missing = [], fo_empty_polls = 0, fo_written = 0, fo_dropped = 0, fo_delivered = 0, fo_skipped = 0,
        fo_restarts = 0, fo_handed = []\<rparr>)"

section \<open>The write path\<close>

definition fan_drop :: "nat \<Rightarrow> fanout \<Rightarrow> fanout" where
  "fan_drop n f = f\<lparr>fo_dropped := fo_dropped f + int n\<rparr>"

definition fan_publish :: "gtime \<Rightarrow> string \<Rightarrow> string \<Rightarrow> fanout \<Rightarrow> fanout" where
  "fan_publish now target m f =
     (if fo_stopped f then f
      else if int (length m) > fc_max_payload_bytes (fo_cfg f) then fan_drop 1 f
      else if int (length (fo_queue f)) < fc_buffer_size (fo_cfg f) then
        f\<lparr>fo_queue := fo_queue f @ [\<lparr>we_id = 0, we_created_at = now, we_target = target, we_origin = fc_origin (fo_cfg f), we_payload = m\<rparr>]\<rparr>
      else fan_drop 1 f)"

definition hub_publish :: "gtime \<Rightarrow> string \<Rightarrow> string \<Rightarrow> fanout \<Rightarrow> fanout" where
  "hub_publish now target m f = (if fo_attached f then fan_publish now target m f else f)"

text \<open>The calls of the hub that reach all replicas: the local part, then the row.\<close>

definition hub_Broadcast :: "gtime \<Rightarrow> string \<Rightarrow> fanout \<Rightarrow> fanout" where
  "hub_Broadcast now m f = hub_publish now WSEventTargetAll m (f\<lparr>fo_hub := deliverAll m (fo_hub f)\<rparr>)"

definition hub_BroadcastToInstance :: "gtime \<Rightarrow> string \<Rightarrow> string \<Rightarrow> fanout \<Rightarrow> fanout" where
  "hub_BroadcastToInstance now i m f =
     hub_publish now (WSEventTargetInstancePrefix @ i) m (f\<lparr>fo_hub := deliverInstance i m (fo_hub f)\<rparr>)"

definition hub_BroadcastToUser :: "gtime \<Rightarrow> string \<Rightarrow> string \<Rightarrow> fanout \<Rightarrow> fanout" where
  "hub_BroadcastToUser now userID m f =
     (if userID = [] then f
      else hub_publish now (WSEventTargetUserPrefix @ userID) m (f\<lparr>fo_hub := deliverUser userID m (fo_hub f)\<rparr>))"

definition disconnect_all ::
    "(string \<Rightarrow> hub \<Rightarrow> nat \<times> hub) \<Rightarrow> string \<Rightarrow> gtime \<Rightarrow> string \<Rightarrow> fanout \<Rightarrow> nat \<times> fanout" where
  "disconnect_all local prefix now key f =
     (if key = [] then (0, f)
      else case local key (fo_hub f) of
        (closed, h) \<Rightarrow> (closed, hub_publish now (prefix @ key) [] (f\<lparr>fo_hub := h\<rparr>)))"

definition hub_DisconnectUser :: "gtime \<Rightarrow> string \<Rightarrow> fanout \<Rightarrow> nat \<times> fanout" where
  "hub_DisconnectUser = disconnect_all disconnectUserLocal WSEventTargetRevokeUserPrefix"

definition hub_DisconnectToken :: "gtime \<Rightarrow> string \<Rightarrow> fanout \<Rightarrow> nat \<times> fanout" where
  "hub_DisconnectToken = disconnect_all disconnectTokenLocal WSEventTargetRevokeTokenPrefix"

definition hub_DisconnectAPIKey :: "gtime \<Rightarrow> string \<Rightarrow> fanout \<Rightarrow> nat \<times> fanout" where
  "hub_DisconnectAPIKey = disconnect_all disconnectAPIKeyLocal WSEventTargetRevokeAPIKeyPrefix"

text \<open>The writer: batches of queued rows.\<close>

fun fill_loop :: "int \<Rightarrow> nat \<Rightarrow> ws_event list \<Rightarrow> ws_event list \<Rightarrow> ws_event list \<times> ws_event list" where
  "fill_loop writeBatch bytes batch [] = (batch, [])"
| "fill_loop writeBatch bytes batch (e # q) =
     (if int (length batch) < writeBatch \<and> bytes < fanoutWriteBatchBytes
      then fill_loop writeBatch (bytes + length (we_payload e)) (batch @ [e]) q
      else (batch, e # q))"

definition payload_size :: "ws_event list \<Rightarrow> nat" where
  "payload_size es = sum_list (map (\<lambda>e. length (we_payload e)) es)"

definition fillBatch :: "ws_event list \<Rightarrow> fanout \<Rightarrow> ws_event list \<times> fanout" where
  "fillBatch batch f =
     (case fill_loop (fc_write_batch (fo_cfg f)) (payload_size batch) batch (fo_queue f) of
        (b, q) \<Rightarrow> (b, f\<lparr>fo_queue := q\<rparr>))"

definition fan_write :: "fault \<Rightarrow> ws_event list \<Rightarrow> fanout \<times> ws_db \<Rightarrow> fanout \<times> ws_db" where
  "fan_write flt batch s =
     (case s of (f, d) \<Rightarrow>
        case ev_Insert flt batch d of
          (Some e, d1) \<Rightarrow> (fan_drop (length batch) f, d1)
        | (None, d1) \<Rightarrow> (f\<lparr>fo_written := fo_written f + int (length batch)\<rparr>, d1))"

text \<open>One round of \<open>writeLoop\<close> with a queued row, and \<open>flush\<close>: \<open>clk i\<close> is the clock before round \<open>i\<close>.\<close>

definition write_round :: "fault \<Rightarrow> fanout \<times> ws_db \<Rightarrow> fanout \<times> ws_db" where
  "write_round flt s =
     (case s of (f, d) \<Rightarrow>
        case fo_queue f of
          [] \<Rightarrow> (f, d)
        | e # q \<Rightarrow> (case fillBatch [e] (f\<lparr>fo_queue := q\<rparr>) of (batch, f1) \<Rightarrow> fan_write flt batch (f1, d)))"

lemma fill_loop_split: "fill_loop w s batch q = (b, q') \<Longrightarrow> b @ q' = batch @ q"
  by (induction w s batch q arbitrary: b q' rule: fill_loop.induct) (auto split: if_splits)

lemma fan_write_queue [simp]: "fo_queue (fst (fan_write flt batch (f, d))) = fo_queue f"
  by (simp add: fan_write_def fan_drop_def split: prod.split option.split)

lemma fillBatch_split: "fillBatch batch f = (b, f1) \<Longrightarrow> b @ fo_queue f1 = batch @ fo_queue f"
  by (auto simp: fillBatch_def dest: fill_loop_split split: prod.splits)

lemma fillBatch_shorter: "fillBatch [] f = (b, f1) \<Longrightarrow> b \<noteq> [] \<Longrightarrow> length (fo_queue f1) < length (fo_queue f)"
  using fillBatch_split [of "[]" f b f1] by (auto dest!: arg_cong [of _ _ length] simp flip: length_greater_0_conv)

function flush_loop :: "(nat \<Rightarrow> gtime) \<Rightarrow> (nat \<Rightarrow> fault) \<Rightarrow> gtime \<Rightarrow> nat \<Rightarrow> fanout \<times> ws_db \<Rightarrow> fanout \<times> ws_db" where
  "flush_loop clk flt deadline i s =
     (case s of (f, d) \<Rightarrow>
        if clk i < deadline then
          (case fillBatch [] f of
             (batch, f1) \<Rightarrow>
               if batch = [] then (f1, d) else flush_loop clk flt deadline (Suc i) (fan_write (flt i) batch (f1, d)))
        else (fan_drop (length (fo_queue f)) f, d))"
  by pat_completeness auto
termination
  by (relation "measure (\<lambda>(_, _, _, _, s). length (fo_queue (fst s)))") (auto dest: fillBatch_shorter [OF sym])

declare flush_loop.simps [simp del]

definition fan_flush :: "gtime \<Rightarrow> (nat \<Rightarrow> gtime) \<Rightarrow> (nat \<Rightarrow> fault) \<Rightarrow> fanout \<times> ws_db \<Rightarrow> fanout \<times> ws_db" where
  "fan_flush now clk flt = flush_loop clk flt (now + 2 * Second) 0"

text \<open>\<open>Stop\<close>: no more rows are queued, then the writer flushes.\<close>

definition fan_Stop :: "gtime \<Rightarrow> (nat \<Rightarrow> gtime) \<Rightarrow> (nat \<Rightarrow> fault) \<Rightarrow> fanout \<times> ws_db \<Rightarrow> fanout \<times> ws_db" where
  "fan_Stop now clk flt s = (case s of (f, d) \<Rightarrow> fan_flush now clk flt (f\<lparr>fo_stopped := True, fo_attached := False\<rparr>, d))"

section \<open>The read path\<close>

text \<open>
  What one poll meets: the table at each of its queries, which query fails, and the clock at each reading. Chunks of missing
  numbers and pages are counted from 0; gaps are named by their first number, deliveries by the number of the row.
\<close>

record poll_io =
  pi_max :: ws_table
  pi_max_fault :: fault
  pi_window :: ws_table
  pi_window_fault :: fault
  pi_window_at :: gtime
  pi_chunk :: "nat \<Rightarrow> ws_table"
  pi_chunk_fault :: "nat \<Rightarrow> fault"
  pi_expire_at :: gtime
  pi_page :: "nat \<Rightarrow> ws_table"
  pi_page_fault :: "nat \<Rightarrow> fault"
  pi_cancelled :: "nat \<Rightarrow> bool"
  pi_gap_at :: "int \<Rightarrow> gtime"
  pi_deliver_at :: "int \<Rightarrow> gtime"
  pi_restart :: ws_table
  pi_restart_fault :: fault

definition fan_skip :: "fanout \<Rightarrow> fanout" where
  "fan_skip f = f\<lparr>fo_skipped := fo_skipped f + 1\<rparr>"

text \<open>What a row of another replica does to the hub; \<open>None\<close> for an unknown target.\<close>

definition row_effect :: "ws_event \<Rightarrow> hub \<Rightarrow> hub option" where
  "row_effect e h =
     (let t = we_target e in
      if HasPrefix t WSEventTargetRevokeUserPrefix
      then Some (snd (disconnectUserIssuedBefore (TrimPrefix t WSEventTargetRevokeUserPrefix) (we_created_at e) h))
      else if HasPrefix t WSEventTargetRevokeTokenPrefix
      then Some (snd (disconnectTokenLocal (TrimPrefix t WSEventTargetRevokeTokenPrefix) h))
      else if HasPrefix t WSEventTargetRevokeAPIKeyPrefix
      then Some (snd (disconnectAPIKeyLocal (TrimPrefix t WSEventTargetRevokeAPIKeyPrefix) h))
      else if t = WSEventTargetAll then Some (deliverAll (we_payload e) h)
      else if HasPrefix t WSEventTargetInstancePrefix
      then Some (deliverInstance (TrimPrefix t WSEventTargetInstancePrefix) (we_payload e) h)
      else if HasPrefix t WSEventTargetUserPrefix
      then Some (deliverUser (TrimPrefix t WSEventTargetUserPrefix) (we_payload e) h)
      else None)"

definition deliver :: "gtime \<Rightarrow> ws_event \<Rightarrow> fanout \<Rightarrow> fanout" where
  "deliver now e f0 =
     (let f = f0\<lparr>fo_handed := fo_handed f0 @ [e]\<rparr> in
      if we_origin e = fc_origin (fo_cfg f) then f
      else if we_created_at e \<noteq> zero_time \<and> now - we_created_at e > fc_max_age (fo_cfg f) then fan_skip f
      else case row_effect e (fo_hub f) of
        None \<Rightarrow> fan_skip f
      | Some h \<Rightarrow> f\<lparr>fo_hub := h, fo_delivered := fo_delivered f + 1\<rparr>)"

definition put_missing :: "int \<Rightarrow> gtime \<Rightarrow> (int \<times> gtime) list \<Rightarrow> (int \<times> gtime) list" where
  "put_missing i d m = filter (\<lambda>x. fst x \<noteq> i) m @ [(i, d)]"

fun gap_loop :: "gtime \<Rightarrow> int list \<Rightarrow> (int \<times> gtime) list \<Rightarrow> (int \<times> gtime) list" where
  "gap_loop d [] m = m"
| "gap_loop d (i # is) m = (if length m \<ge> fanoutMaxMissing then m else gap_loop d is (put_missing i d m))"

definition trackGap :: "gtime \<Rightarrow> int \<Rightarrow> int \<Rightarrow> fanout \<Rightarrow> fanout" where
  "trackGap now from to f =
     (if to - from + 1 > fanoutMaxGapSpan then f
      else f\<lparr>fo_missing := gap_loop (now + fc_gap_timeout (fo_cfg f)) [from..to] (fo_missing f)\<rparr>)"

definition consume_row :: "poll_io \<Rightarrow> ws_event \<Rightarrow> fanout \<Rightarrow> fanout" where
  "consume_row io e f =
     (if we_id e \<le> fo_last_id f then f
      else let f1 = (if we_id e > fo_last_id f + 1 then trackGap (pi_gap_at io (fo_last_id f + 1)) (fo_last_id f + 1) (we_id e - 1) f else f)
           in deliver (pi_deliver_at io (we_id e)) e (f1\<lparr>fo_last_id := we_id e\<rparr>))"

definition consume :: "poll_io \<Rightarrow> ws_event list \<Rightarrow> fanout \<Rightarrow> fanout" where
  "consume io rows f = fold (consume_row io) rows f"

definition late_row :: "poll_io \<Rightarrow> ws_event \<Rightarrow> fanout \<Rightarrow> fanout" where
  "late_row io e f =
     (if we_id e \<notin> fst ` set (fo_missing f) then f
      else deliver (pi_deliver_at io (we_id e)) e (f\<lparr>fo_missing := filter (\<lambda>x. fst x \<noteq> we_id e) (fo_missing f)\<rparr>))"

fun recheck_loop :: "poll_io \<Rightarrow> nat \<Rightarrow> int list list \<Rightarrow> fanout \<Rightarrow> bool \<times> fanout" where
  "recheck_loop io n [] f = (True, f)"
| "recheck_loop io n (ids # cs) f =
     (case ev_ListByIDs (pi_chunk_fault io n) ids (fc_origin (fo_cfg f)) (pi_chunk io n) of
        Inl e \<Rightarrow> (False, f)
      | Inr rows \<Rightarrow> recheck_loop io (Suc n) cs (fold (late_row io) rows f))"

definition expire_missing :: "gtime \<Rightarrow> fanout \<Rightarrow> fanout" where
  "expire_missing now f = f\<lparr>fo_missing := filter (\<lambda>x. \<not> snd x < now) (fo_missing f)\<rparr>"

definition recheckGaps :: "poll_io \<Rightarrow> fanout \<Rightarrow> fanout" where
  "recheckGaps io f =
     (if fo_missing f = [] then f
      else case recheck_loop io 0 (chunks fanoutIDsPerRecheck (sort (map fst (fo_missing f)))) f of
        (False, f1) \<Rightarrow> f1
      | (True, f1) \<Rightarrow> expire_missing (pi_expire_at io) f1)"

fun window_loop :: "int list \<Rightarrow> gtime \<Rightarrow> int list \<Rightarrow> (int \<times> gtime) list \<Rightarrow> (int \<times> gtime) list" where
  "window_loop visible d [] m = m"
| "window_loop visible d (i # is) m =
     (if length m \<ge> fanoutMaxMissing then m
      else window_loop visible d is (if i \<in> set visible then m else put_missing i d m))"

definition trackStartWindow :: "poll_io \<Rightarrow> int \<Rightarrow> fanout \<Rightarrow> fanout option" where
  "trackStartWindow io maxID f =
     (let from = max (maxID - fc_write_batch (fo_cfg f) * fanoutStartReplicas) 0 in
      if maxID \<le> from then Some f
      else case ev_IDsAfter (pi_window_fault io) from (nat (maxID - from)) (pi_window io) of
        Inl e \<Rightarrow> None
      | Inr ids \<Rightarrow> Some (f\<lparr>fo_missing := window_loop ids (pi_window_at io + fc_gap_timeout (fo_cfg f)) [from + 1..maxID] (fo_missing f)\<rparr>))"

definition checkIDRestart :: "poll_io \<Rightarrow> fanout \<Rightarrow> fanout" where
  "checkIDRestart io f =
     (case ev_MaxID (pi_restart_fault io) (pi_restart io) of
        Inl e \<Rightarrow> f
      | Inr maxID \<Rightarrow>
          if maxID \<le> 0 \<or> maxID \<ge> fo_last_id f then f
          else f\<lparr>fo_last_id := 0, fo_missing := [], fo_restarts := Suc (fo_restarts f)\<rparr>)"

definition empty_poll :: "poll_io \<Rightarrow> fanout \<Rightarrow> fanout" where
  "empty_poll io f =
     (let f1 = f\<lparr>fo_empty_polls := Suc (fo_empty_polls f)\<rparr>
      in if fo_empty_polls f1 mod fanoutRestartCheckEvery = 0 then checkIDRestart io f1 else f1)"

function poll_pages :: "poll_io \<Rightarrow> nat \<Rightarrow> fanout \<Rightarrow> fanout" where
  "poll_pages io page f =
     (if page < fanoutMaxPagesPerPoll \<and> \<not> pi_cancelled io page then
        (case ev_ListAfter (pi_page_fault io page) (fo_last_id f) (nat (fc_poll_batch (fo_cfg f))) (fc_origin (fo_cfg f)) (pi_page io page) of
           Inl e \<Rightarrow> f
         | Inr rows \<Rightarrow>
             if page = 0 \<and> rows = [] then empty_poll io f
             else let f1 = consume io rows f in
               if int (length rows) < fc_poll_batch (fo_cfg f) then f1 else poll_pages io (Suc page) f1)
      else f)"
  by pat_completeness auto
termination
  by (relation "measure (\<lambda>(io, page, f). fanoutMaxPagesPerPoll - page)") auto

declare poll_pages.simps [simp del]

definition poll_start :: "poll_io \<Rightarrow> fanout \<Rightarrow> fanout option" where
  "poll_start io f =
     (if fo_started f then Some f
      else case ev_MaxID (pi_max_fault io) (pi_max io) of
        Inl e \<Rightarrow> None
      | Inr maxID \<Rightarrow> map_option (\<lambda>f1. f1\<lparr>fo_last_id := maxID, fo_started := True\<rparr>) (trackStartWindow io maxID f))"

definition fan_poll :: "poll_io \<Rightarrow> fanout \<Rightarrow> fanout" where
  "fan_poll io f = (case poll_start io f of None \<Rightarrow> f | Some f1 \<Rightarrow> poll_pages io 0 (recheckGaps io f1))"

section \<open>The cleaner and the log limiter\<close>

record event_cleaner =
  ec_retention :: duration
  ec_interval :: duration

definition NewEventCleaner :: "duration \<Rightarrow> duration \<Rightarrow> event_cleaner" where
  "NewEventCleaner retention interval =
     \<lparr>ec_retention = (if retention \<le> 0 then 5 * Minute else retention), ec_interval = (if interval \<le> 0 then Minute else interval)\<rparr>"

definition event_cleanup ::
    "event_cleaner \<Rightarrow> (nat \<Rightarrow> fault) \<Rightarrow> (nat \<Rightarrow> fault) \<Rightarrow> (nat \<Rightarrow> fault) \<Rightarrow> gtime \<Rightarrow> ws_db \<Rightarrow> ws_db" where
  "event_cleanup c ctx sel del now d =
     d\<lparr>wd_rows := snd (ev_DeleteOlderThan ctx sel del (now - ec_retention c) 5000 (wd_rows d))\<rparr>"

record log_limiter =
  ll_last :: gtime
  ll_every :: duration
  ll_suppressed :: nat

definition allow :: "gtime \<Rightarrow> log_limiter \<Rightarrow> (bool \<times> nat) \<times> log_limiter" where
  "allow now l =
     (if ll_last l \<noteq> zero_time \<and> now - ll_last l < ll_every l then ((False, 0), l\<lparr>ll_suppressed := Suc (ll_suppressed l)\<rparr>)
      else ((True, ll_suppressed l), l\<lparr>ll_suppressed := 0, ll_last := now\<rparr>))"

section \<open>Steps of a replica\<close>

text \<open>
  What happens to the fan-out of a replica and the shared table: polls (against the tables that their queries see), calls of the hub,
  rounds of the writer, the stop; the hub changes by its own steps, the table by those of other replicas.
\<close>

inductive fan_step :: "fanout \<times> ws_db \<Rightarrow> fanout \<times> ws_db \<Rightarrow> bool" where
  polls: "fan_step (f, d) (fan_poll io f, d)"
| published: "fan_step (f, d) (hub_publish now target m f, d)"
| hub_moves: "fan_step (f, d) (f\<lparr>fo_hub := h\<rparr>, d)"
| writes: "fan_step s (write_round flt s)"
| stops: "fan_step s (fan_Stop now clk flt s)"
| others: "fan_step (f, d) (f, d')"

text \<open>
  The position of the poller, as long as the numbers have not restarted: what was passed over lies behind it, and no number was
  handed over twice or is still missing.
\<close>

definition tracked :: "fanout \<Rightarrow> bool" where
  "tracked f \<longleftrightarrow>
     distinct (map fst (fo_missing f)) \<and> (\<forall>i\<in>fst ` set (fo_missing f). i \<le> fo_last_id f)
     \<and> distinct (map we_id (fo_handed f)) \<and> (\<forall>i\<in>we_id ` set (fo_handed f). i \<le> fo_last_id f \<and> i \<notin> fst ` set (fo_missing f))"

definition fan_ok :: "fanout \<Rightarrow> bool" where
  "fan_ok f \<longleftrightarrow>
     (fo_restarts f = 0 \<longrightarrow> tracked f) \<and> (\<not> fo_started f \<longrightarrow> fo_missing f = [] \<and> fo_handed f = [] \<and> fo_restarts f = 0 \<and> fo_last_id f = 0)
     \<and> length (fo_missing f) \<le> fanoutMaxMissing \<and> int (length (fo_queue f)) \<le> fc_buffer_size (fo_cfg f)"

section \<open>Missing numbers\<close>

lemma put_missing_fst [simp]: "fst ` set (put_missing i d m) = insert i (fst ` set m)"
  by (auto simp: put_missing_def)

lemma put_missing_distinct: "distinct (map fst m) \<Longrightarrow> distinct (map fst (put_missing i d m))"
  by (auto simp: put_missing_def distinct_map inj_on_def)

lemma put_missing_other: "fst x \<noteq> i \<Longrightarrow> x \<in> set (put_missing i d m) \<longleftrightarrow> x \<in> set m"
  by (auto simp: put_missing_def)

lemma put_missing_length: "length (put_missing i d m) \<le> Suc (length m)"
  by (simp add: put_missing_def le_SucI)

lemma gap_loop_facts:
  "fst ` set (gap_loop d js m) \<subseteq> fst ` set m \<union> set js"
  "distinct (map fst m) \<Longrightarrow> distinct (map fst (gap_loop d js m))"
  "length m \<le> fanoutMaxMissing \<Longrightarrow> length (gap_loop d js m) \<le> fanoutMaxMissing"
  "fst x \<notin> set js \<Longrightarrow> x \<in> set (gap_loop d js m) \<longleftrightarrow> x \<in> set m"
proof (induction d js m rule: gap_loop.induct)
  case (2 d i js m)
  { case 1 then show ?case using 2 by (auto split: if_splits) }
  { case 2 then show ?case using "2.IH"(2) put_missing_distinct by simp }
  { case 3 then show ?case using "2.IH"(3) le_trans [OF put_missing_length [of i d m]] by simp }
  { case 4 then show ?case using "2.IH"(4) put_missing_other [of x i d m] by auto }
qed auto

lemma gap_loop_all:
  assumes "length m + length js \<le> fanoutMaxMissing" "i \<in> set js" "distinct js"
  shows "(i, d) \<in> set (gap_loop d js m)"
  using assms
proof (induction d js m rule: gap_loop.induct)
  case (2 d j js m)
  have l: "length (put_missing j d m) + length js \<le> fanoutMaxMissing" using "2.prems"(1) put_missing_length [of j d m] by simp
  have "\<not> length m \<ge> fanoutMaxMissing" using "2.prems"(1) by simp
  then show ?case
  proof (cases "i = j")
    case True
    have "(j, d) \<in> set (put_missing j d m)" by (simp add: put_missing_def)
    then show ?thesis using True gap_loop_facts(4) [of "(j, d)" js d "put_missing j d m"] "2.prems"(3) \<open>\<not> length m \<ge> fanoutMaxMissing\<close> by simp
  next
    case False
    then show ?thesis using "2.IH" l "2.prems" \<open>\<not> length m \<ge> fanoutMaxMissing\<close> by simp
  qed
qed simp

lemma window_loop_facts:
  "fst ` set (window_loop v d js m) \<subseteq> fst ` set m \<union> set js"
  "distinct (map fst m) \<Longrightarrow> distinct (map fst (window_loop v d js m))"
  "length m \<le> fanoutMaxMissing \<Longrightarrow> length (window_loop v d js m) \<le> fanoutMaxMissing"
proof (induction v d js m rule: window_loop.induct)
  case (2 v d i js m)
  { case 1
    show ?case
    proof (cases "fanoutMaxMissing \<le> length m")
      case False
      then have "fst ` set (window_loop v d (i # js) m) = fst ` set (window_loop v d js (if i \<in> set v then m else put_missing i d m))" by simp
      also have "\<dots> \<subseteq> fst ` set (if i \<in> set v then m else put_missing i d m) \<union> set js" by (rule "2.IH"(1) [OF False])
      finally show ?thesis by (auto split: if_splits)
    qed auto }
  { case 2 then show ?case using "2.IH"(2) put_missing_distinct by simp }
  { case 3 then show ?case using "2.IH"(3) le_trans [OF put_missing_length [of i d m]] by (simp split: if_splits) }
qed auto

section \<open>Handing over rows\<close>

lemma deliver_fields [simp]:
  "fo_cfg (deliver now e f) = fo_cfg f" "fo_queue (deliver now e f) = fo_queue f" "fo_last_id (deliver now e f) = fo_last_id f"
  "fo_started (deliver now e f) = fo_started f" "fo_missing (deliver now e f) = fo_missing f" "fo_restarts (deliver now e f) = fo_restarts f"
  "fo_handed (deliver now e f) = fo_handed f @ [e]"
  by (simp_all add: deliver_def Let_def fan_skip_def split: option.split)

lemma trackGap_fields [simp]:
  "fo_cfg (trackGap now i j f) = fo_cfg f" "fo_queue (trackGap now i j f) = fo_queue f" "fo_last_id (trackGap now i j f) = fo_last_id f"
  "fo_started (trackGap now i j f) = fo_started f" "fo_restarts (trackGap now i j f) = fo_restarts f" "fo_handed (trackGap now i j f) = fo_handed f"
  "fo_hub (trackGap now i j f) = fo_hub f"
  by (simp_all add: trackGap_def)

text \<open>What the poller does to the rest of the state: nothing, apart from the hub and the counters.\<close>

definition poll_frame :: "fanout \<Rightarrow> fanout \<Rightarrow> bool" where
  "poll_frame f f' \<longleftrightarrow>
     fo_cfg f' = fo_cfg f \<and> fo_queue f' = fo_queue f \<and> fo_started f' = fo_started f
     \<and> (length (fo_missing f) \<le> fanoutMaxMissing \<longrightarrow> length (fo_missing f') \<le> fanoutMaxMissing)"

lemma poll_frame_refl [simp]: "poll_frame f f"
  by (simp add: poll_frame_def)

lemma poll_frame_trans: "poll_frame f g \<Longrightarrow> poll_frame g h \<Longrightarrow> poll_frame f h"
  by (simp add: poll_frame_def)

text \<open>
  A number is remembered when it is missing with its deadline or was handed over. A part of a poll that reads rows keeps the position,
  hands rows over only once, and forgets no number whose deadline is not before \<open>T\<close>.
\<close>

definition remembered :: "int \<Rightarrow> gtime \<Rightarrow> fanout \<Rightarrow> bool" where
  "remembered i d f \<longleftrightarrow> (i, d) \<in> set (fo_missing f) \<or> i \<in> we_id ` set (fo_handed f)"

definition reads :: "gtime \<Rightarrow> fanout \<Rightarrow> fanout \<Rightarrow> bool" where
  "reads T f f' \<longleftrightarrow>
     poll_frame f f' \<and> fo_restarts f' = fo_restarts f \<and> fo_last_id f \<le> fo_last_id f' \<and> (\<exists>es. fo_handed f' = fo_handed f @ es)
     \<and> (tracked f \<longrightarrow> tracked f' \<and> (\<forall>i d. T \<le> d \<longrightarrow> remembered i d f \<longrightarrow> remembered i d f'))"

lemma reads_refl [simp]: "reads T f f"
  by (simp add: reads_def)

lemma reads_trans: "reads T f g \<Longrightarrow> reads T g h \<Longrightarrow> reads T f h"
  by (auto simp: reads_def intro: poll_frame_trans)

lemma gap_missing:
  "fst ` set (fo_missing (trackGap now i j f)) \<subseteq> fst ` set (fo_missing f) \<union> {i..j}"
  "distinct (map fst (fo_missing f)) \<Longrightarrow> distinct (map fst (fo_missing (trackGap now i j f)))"
  "length (fo_missing f) \<le> fanoutMaxMissing \<Longrightarrow> length (fo_missing (trackGap now i j f)) \<le> fanoutMaxMissing"
  "fst x \<notin> {i..j} \<Longrightarrow> x \<in> set (fo_missing (trackGap now i j f)) \<longleftrightarrow> x \<in> set (fo_missing f)"
  using gap_loop_facts(1-3) [where d = "now + fc_gap_timeout (fo_cfg f)" and js = "[i..j]" and m = "fo_missing f"]
    gap_loop_facts(4) [where d = "now + fc_gap_timeout (fo_cfg f)" and js = "[i..j]" and m = "fo_missing f" and x = x]
  by (auto simp: trackGap_def)

text \<open>The state after the position moved over a gap to the next row.\<close>

definition moved :: "poll_io \<Rightarrow> ws_event \<Rightarrow> fanout \<Rightarrow> fanout" where
  "moved io e f =
     (if we_id e > fo_last_id f + 1 then trackGap (pi_gap_at io (fo_last_id f + 1)) (fo_last_id f + 1) (we_id e - 1) f else f)\<lparr>fo_last_id := we_id e\<rparr>"

lemma consume_row_moved:
  "consume_row io e f = (if we_id e \<le> fo_last_id f then f else deliver (pi_deliver_at io (we_id e)) e (moved io e f))"
  by (simp add: consume_row_def moved_def Let_def)

lemma moved_fields [simp]:
  "fo_cfg (moved io e f) = fo_cfg f" "fo_queue (moved io e f) = fo_queue f" "fo_last_id (moved io e f) = we_id e"
  "fo_started (moved io e f) = fo_started f" "fo_restarts (moved io e f) = fo_restarts f" "fo_handed (moved io e f) = fo_handed f"
  "fo_hub (moved io e f) = fo_hub f"
  by (simp_all add: moved_def)

lemma moved_missing:
  "fst ` set (fo_missing (moved io e f)) \<subseteq> fst ` set (fo_missing f) \<union> {fo_last_id f + 1..we_id e - 1}"
  "distinct (map fst (fo_missing f)) \<Longrightarrow> distinct (map fst (fo_missing (moved io e f)))"
  "length (fo_missing f) \<le> fanoutMaxMissing \<Longrightarrow> length (fo_missing (moved io e f)) \<le> fanoutMaxMissing"
  "fst x \<le> fo_last_id f \<Longrightarrow> x \<in> set (fo_missing (moved io e f)) \<longleftrightarrow> x \<in> set (fo_missing f)"
  using gap_missing(1-3) [where now = "pi_gap_at io (fo_last_id f + 1)" and i = "fo_last_id f + 1" and j = "we_id e - 1" and f = f]
    gap_missing(4) [where now = "pi_gap_at io (fo_last_id f + 1)" and i = "fo_last_id f + 1" and j = "we_id e - 1" and f = f and x = x]
  by (auto simp: moved_def)

lemma tracked_deliver:
  "tracked (deliver now e f) \<longleftrightarrow>
     tracked f \<and> we_id e \<notin> we_id ` set (fo_handed f) \<and> we_id e \<le> fo_last_id f \<and> we_id e \<notin> fst ` set (fo_missing f)"
  by (auto simp: tracked_def)

lemma consume_row_reads: "reads T f (consume_row io e f)"
proof (cases "we_id e \<le> fo_last_id f")
  case False
  have "tracked (deliver now e (moved io e f))" if "tracked f" for now
  proof -
    have "tracked (moved io e f)"
      using that False moved_missing(1,2) [where f = f and io = io and e = e] by (auto simp: tracked_def subset_iff) force+
    moreover have "we_id e \<notin> we_id ` set (fo_handed f)" using that False by (auto simp: tracked_def)
    moreover have "we_id e \<notin> fst ` set (fo_missing (moved io e f))"
      using that False moved_missing(1) [of io e f] by (auto simp: tracked_def subset_iff) force
    ultimately show ?thesis by (simp add: tracked_deliver)
  qed
  moreover have "remembered i d (deliver now e (moved io e f))" if "tracked f" "remembered i d f" for i d now
    using that moved_missing(4) [of "(i, d)" f io e] by (force simp: remembered_def tracked_def)
  ultimately show ?thesis using False moved_missing(3) [of f io e] by (simp add: consume_row_moved reads_def poll_frame_def)
qed (simp add: consume_row_moved)

lemma fold_reads: "(\<And>e f. reads T f (g e f)) \<Longrightarrow> reads T f (fold g es f)"
  by (induction es arbitrary: f) (auto intro: reads_trans)

lemma consume_reads: "reads T f (consume io es f)"
  unfolding consume_def by (rule fold_reads) (rule consume_row_reads)

lemma filter_fst_distinct: "distinct (map fst m) \<Longrightarrow> distinct (map fst (filter p m))"
  by (simp add: distinct_map_filter)

lemma late_row_reads: "reads T f (late_row io e f)"
proof -
  have "tracked (deliver now e (f\<lparr>fo_missing := filter (\<lambda>x. fst x \<noteq> we_id e) (fo_missing f)\<rparr>))"
    if "tracked f" "we_id e \<in> fst ` set (fo_missing f)" for now
    using that unfolding tracked_deliver by (force simp: tracked_def filter_fst_distinct)
  then show ?thesis by (auto simp: late_row_def reads_def poll_frame_def remembered_def le_trans [OF length_filter_le])
qed

lemma recheck_loop_reads: "reads T f (snd (recheck_loop io n cs f))"
proof (induction cs arbitrary: n f)
  case (Cons c cs)
  show ?case
    using reads_trans [OF fold_reads [where g = "late_row io", OF late_row_reads] Cons.IH] by (simp split: sum.split)
qed simp

lemma expire_reads: "reads now g (expire_missing now g)"
  by (auto simp: expire_missing_def reads_def poll_frame_def tracked_def remembered_def filter_fst_distinct le_trans [OF length_filter_le])

lemma recheckGaps_reads: "reads (pi_expire_at io) f (recheckGaps io f)"
proof -
  let ?r = "recheck_loop io 0 (chunks fanoutIDsPerRecheck (sort (map fst (fo_missing f)))) f"
  have "reads (pi_expire_at io) f (snd ?r)" by (rule recheck_loop_reads)
  then show ?thesis using reads_trans [OF _ expire_reads] unfolding recheckGaps_def
    by (cases ?r) (auto split: bool.split)
qed

text \<open>A poll reads rows, or finds that the numbers restarted.\<close>

definition polled :: "gtime \<Rightarrow> fanout \<Rightarrow> fanout \<Rightarrow> bool" where
  "polled T f f' \<longleftrightarrow> poll_frame f f' \<and> (reads T f f' \<or> fo_restarts f' = Suc (fo_restarts f))"

lemma reads_polled: "reads T f g \<Longrightarrow> polled T g h \<Longrightarrow> polled T f h"
  by (auto simp: polled_def reads_def intro: poll_frame_trans)

lemma reads_imp_polled: "reads T f g \<Longrightarrow> polled T f g"
  by (simp add: polled_def reads_def)

lemma empty_poll_polled: "polled T f (empty_poll io f)"
proof -
  have "reads T f (f\<lparr>fo_empty_polls := n\<rparr>)" for n by (simp add: reads_def poll_frame_def tracked_def remembered_def)
  moreover have "polled T g (checkIDRestart io g)" for g
    by (auto simp: checkIDRestart_def polled_def poll_frame_def split: sum.split)
  ultimately show ?thesis by (auto simp: empty_poll_def Let_def intro: reads_polled reads_imp_polled)
qed

lemma poll_pages_polled: "polled T f (poll_pages io page f)"
proof (induction io page f rule: poll_pages.induct)
  case (1 io page f)
  show ?case
  proof (cases "page < fanoutMaxPagesPerPoll \<and> \<not> pi_cancelled io page")
    case True
    show ?thesis
    proof (cases "ev_ListAfter (pi_page_fault io page) (fo_last_id f) (nat (fc_poll_batch (fo_cfg f))) (fc_origin (fo_cfg f)) (pi_page io page)")
      case (Inl e)
      with True show ?thesis by (simp add: poll_pages.simps [of io page f] reads_imp_polled)
    next
      case (Inr rows)
      note run = poll_pages.simps [of io page f] True Inr
      consider "page = 0 \<and> rows = []" | "\<not> (page = 0 \<and> rows = [])" "int (length rows) < fc_poll_batch (fo_cfg f)"
        | "\<not> (page = 0 \<and> rows = [])" "\<not> int (length rows) < fc_poll_batch (fo_cfg f)" by blast
      then show ?thesis
      proof cases
        case 1
        with True Inr have "poll_pages io page f = empty_poll io f" by (subst poll_pages.simps) auto
        then show ?thesis by (simp add: empty_poll_polled)
      next
        case 2
        then show ?thesis by (simp only: run) (auto simp: Let_def intro!: reads_imp_polled consume_reads)
      next
        case 3
        then have "polled T (consume io rows f) (poll_pages io (Suc page) (consume io rows f))" by (intro "1.IH" [OF True Inr]) simp_all
        then have "polled T f (poll_pages io (Suc page) (consume io rows f))" using reads_polled [OF consume_reads] by blast
        with 3 show ?thesis by (simp only: run) (auto simp: Let_def)
      qed
    qed
  next
    case False
    then have "poll_pages io page f = f" by (subst poll_pages.simps) auto
    then show ?thesis by (simp add: reads_imp_polled)
  qed
qed

lemma trackStartWindow_Some:
  assumes "trackStartWindow io maxID f = Some f1"
  shows "poll_frame f f1 \<and> fo_restarts f1 = fo_restarts f \<and> fo_handed f1 = fo_handed f \<and> fo_last_id f1 = fo_last_id f
    \<and> (\<forall>i\<in>fst ` set (fo_missing f1). i \<in> fst ` set (fo_missing f) \<or> i \<le> maxID)
    \<and> (distinct (map fst (fo_missing f)) \<longrightarrow> distinct (map fst (fo_missing f1)))"
proof -
  let ?from = "max (maxID - fc_write_batch (fo_cfg f) * fanoutStartReplicas) 0"
  consider "f1 = f" | v d where "f1 = f\<lparr>fo_missing := window_loop v d [?from + 1..maxID] (fo_missing f)\<rparr>"
    using assms by (auto simp: trackStartWindow_def Let_def split: if_splits sum.splits)
  then show ?thesis
  proof cases
    case (2 v d)
    have "i \<in> fst ` set (fo_missing f) \<or> i \<le> maxID" if "i \<in> fst ` set (fo_missing f1)" for i
      using that window_loop_facts(1) [of v d "[?from + 1..maxID]" "fo_missing f"] unfolding 2 by (auto simp: subset_iff)
    then show ?thesis using window_loop_facts(2,3) unfolding 2 by (simp add: poll_frame_def)
  qed simp
qed

lemma poll_start_ok:
  assumes "fan_ok f" "poll_start io f = Some f1"
  shows "fan_ok f1 \<and> fo_started f1 \<and> fo_restarts f1 = fo_restarts f"
proof (cases "fo_started f")
  case False
  then obtain maxID f0 where f0: "trackStartWindow io maxID f = Some f0" "f1 = f0\<lparr>fo_last_id := maxID, fo_started := True\<rparr>"
    using assms(2) by (auto simp: poll_start_def split: sum.splits)
  from trackStartWindow_Some [OF f0(1)] False assms(1) show ?thesis
    by (auto simp: f0(2) fan_ok_def tracked_def poll_frame_def)
qed (use assms in \<open>simp add: poll_start_def\<close>)

lemma polled_ok: "polled T f f' \<Longrightarrow> fan_ok f \<Longrightarrow> fo_started f \<Longrightarrow> fan_ok f'"
  by (auto simp: polled_def reads_def poll_frame_def fan_ok_def)

lemma poll_ok: "fan_ok f \<Longrightarrow> fan_ok (fan_poll io f)"
  using poll_start_ok [of f io] polled_ok [OF reads_polled [OF recheckGaps_reads poll_pages_polled]]
  by (simp add: fan_poll_def split: option.split)

lemma fill_loop_length: "fill_loop w b batch q = (batch', q') \<Longrightarrow> length q' \<le> length q"
  by (induction w b batch q rule: fill_loop.induct) (auto split: if_splits)

text \<open>The writer touches the queue and the counters only, and the queue does not grow.\<close>

definition write_frame :: "fanout \<Rightarrow> fanout \<Rightarrow> bool" where
  "write_frame f f' \<longleftrightarrow>
     fo_cfg f' = fo_cfg f \<and> fo_started f' = fo_started f \<and> fo_missing f' = fo_missing f \<and> fo_handed f' = fo_handed f
     \<and> fo_restarts f' = fo_restarts f \<and> fo_last_id f' = fo_last_id f \<and> length (fo_queue f') \<le> length (fo_queue f)"

lemma write_frame_trans: "write_frame f g \<Longrightarrow> write_frame g h \<Longrightarrow> write_frame f h"
  by (simp add: write_frame_def)

lemma write_frame_parts:
  "write_frame f (fan_drop n f)" "write_frame f (snd (fillBatch b f))" "write_frame f (fst (fan_write flt b (f, d)))"
  by (auto simp: write_frame_def fan_drop_def fillBatch_def fan_write_def fill_loop_length split: prod.split option.split)

lemma write_round_frame: "write_frame f (fst (write_round flt (f, d)))"
proof (cases "fo_queue f")
  case (Cons e q)
  have "write_frame f (f\<lparr>fo_queue := q\<rparr>)" using Cons by (simp add: write_frame_def)
  from write_frame_trans [OF write_frame_trans [OF this write_frame_parts(2)] write_frame_parts(3)]
  show ?thesis using Cons by (simp add: write_round_def split_beta)
qed (simp add: write_round_def write_frame_def)

lemma flush_loop_frame: "write_frame (fst s) (fst (flush_loop clk flt deadline i s))"
proof (induction clk flt deadline i s rule: flush_loop.induct)
  case (1 clk flt deadline i s)
  obtain f d where s: "s = (f, d)" by (cases s)
  obtain b f1 where b: "fillBatch [] f = (b, f1)" by (cases "fillBatch [] f")
  have fr: "write_frame f f1" using write_frame_parts(2) [of f "[]"] b by simp
  show ?case
  proof (cases "clk i < deadline \<and> b \<noteq> []")
    case True
    then have "write_frame (fst (fan_write (flt i) b (f1, d))) (fst (flush_loop clk flt deadline (Suc i) (fan_write (flt i) b (f1, d))))"
      using "1.IH" [OF s [symmetric]] b by simp
    with write_frame_trans [OF write_frame_trans [OF fr write_frame_parts(3)]] True b
    show ?thesis by (simp add: s flush_loop.simps [of clk flt deadline i])
  next
    case False
    then show ?thesis using fr b write_frame_parts(1) by (auto simp: s flush_loop.simps [of clk flt deadline i])
  qed
qed

lemma write_frame_ok: "write_frame f f' \<Longrightarrow> fan_ok f \<Longrightarrow> fan_ok f'"
  by (auto simp: write_frame_def fan_ok_def tracked_def)

lemma fan_ok_step: "fan_step s t \<Longrightarrow> fan_ok (fst s) \<Longrightarrow> fan_ok (fst t)"
proof (induction rule: fan_step.induct)
  case (polls f d io)
  then show ?case by (simp add: poll_ok)
next
  case (published f d now target m)
  then show ?case by (auto simp: hub_publish_def fan_publish_def fan_drop_def fan_ok_def tracked_def)
next
  case (hub_moves f d h)
  then show ?case by (simp add: fan_ok_def tracked_def)
next
  case (writes s flt)
  then show ?case using write_frame_ok [OF write_round_frame] by (cases s) auto
next
  case (stops s now clk flt)
  obtain f d where s: "s = (f, d)" by (cases s)
  have "fan_ok (f\<lparr>fo_stopped := True, fo_attached := False\<rparr>)" using stops s by (simp add: fan_ok_def tracked_def)
  then show ?case using write_frame_ok [OF flush_loop_frame, of "(f\<lparr>fo_stopped := True, fo_attached := False\<rparr>, d)"]
    by (simp add: s fan_Stop_def fan_flush_def)
qed simp

interpretation fans: invariant_system fan_step "\<lambda>s. fan_ok (fst s)"
  by unfold_locales (rule fan_ok_step)

lemma fan_ok_New: "NewFanout h c = Some f \<Longrightarrow> fan_ok f"
proof -
  assume "NewFanout h c = Some f"
  moreover have "0 \<le> fc_buffer_size (withDefaults c)" by (simp add: withDefaults_def)
  ultimately show ?thesis by (auto simp: NewFanout_def fan_ok_def tracked_def split: if_splits)
qed

lemma fan_reachable_ok: "NewFanout h c = Some f0 \<Longrightarrow> fan_step\<^sup>*\<^sup>* (f0, d0) (f, d) \<Longrightarrow> fan_ok f"
  using fans.keeps_star [of "(f0, d0)" "(f, d)"] fan_ok_New by simp

text \<open>C19. As long as the poller has not seen the numbers of the table restart, it hands every row to its hub at most once, although it
  reads the table again and again, in pages, with gaps, and with rows that become visible late or twice in the result.\<close>

theorem rows_delivered_once:
  assumes "NewFanout h c = Some f0" "fan_step\<^sup>*\<^sup>* (f0, d0) (f, d)" "fo_restarts f = 0"
  shows "distinct (map we_id (fo_handed f))"
  using fan_reachable_ok [OF assms(1,2)] assms(3) by (simp add: fan_ok_def tracked_def)

text \<open>The memory of the fan-out is bounded: the queue never exceeds the buffer size of the configuration and the poller never keeps
  more than 10000 missing numbers.\<close>

theorem fanout_bounded:
  assumes "NewFanout h c = Some f0" "fan_step\<^sup>*\<^sup>* (f0, d0) (f, d)"
  shows "int (length (fo_queue f)) \<le> fc_buffer_size (fo_cfg f) \<and> length (fo_missing f) \<le> 10000"
  using fan_reachable_ok [OF assms] by (simp add: fan_ok_def fanoutMaxMissing_def)

section \<open>Rows that become visible late\<close>

lemma reads_handed: "reads T f f' \<Longrightarrow> set (fo_handed f) \<subseteq> set (fo_handed f')"
  by (auto simp: reads_def)

text \<open>The rows of a query have the numbers of the table.\<close>

lemma blank_payload_simps [simp]:
  "we_id (blank_payload o' e) = we_id e" "we_origin (blank_payload o' e) = we_origin e"
  "we_target (blank_payload o' e) = we_target e" "we_created_at (blank_payload o' e) = we_created_at e"
  by (simp_all add: blank_payload_def)

lemma ListAfter_ids: "ev_ListAfter flt a n o' t = Inr rows \<Longrightarrow> we_id ` set rows \<subseteq> we_id ` set t"
  by (auto simp: ev_ListAfter_def image_image dest!: in_set_takeD split: option.splits)

lemma ListByIDs_ids: "\<exists>rows. ev_ListByIDs None ids o' t = Inr rows \<and> we_id ` set rows = we_id ` set t \<inter> set ids"
  by (cases "ids = []") (auto simp: ev_ListByIDs_def image_image)

lemma poll_reads:
  assumes "fo_started f" "fo_restarts (fan_poll io f) = fo_restarts f"
  shows "reads (pi_expire_at io) f (fan_poll io f)"
proof -
  have "polled (pi_expire_at io) f (fan_poll io f)"
    using assms(1) reads_polled [OF recheckGaps_reads poll_pages_polled] by (simp add: fan_poll_def poll_start_def)
  with assms(2) show ?thesis by (simp add: polled_def)
qed

text \<open>A recheck without a failed query hands over the missing rows that it finds.\<close>

lemma late_rows_still:
  assumes "i \<in> fst ` set (fo_missing f) \<or> i \<in> we_id ` set (fo_handed f)"
  shows "i \<in> fst ` set (fo_missing (fold (late_row io) rows f)) \<or> i \<in> we_id ` set (fo_handed (fold (late_row io) rows f))"
  using assms
proof (induction rows arbitrary: f)
  case (Cons e rows)
  have "i \<in> fst ` set (fo_missing (late_row io e f)) \<or> i \<in> we_id ` set (fo_handed (late_row io e f))"
    using Cons.prems by (force simp: late_row_def)
  from Cons.IH [OF this] show ?case by simp
qed simp

lemma late_rows_handed:
  assumes "i \<in> fst ` set (fo_missing f) \<or> i \<in> we_id ` set (fo_handed f)" "i \<in> we_id ` set rows"
  shows "i \<in> we_id ` set (fo_handed (fold (late_row io) rows f))"
  using assms
proof (induction rows arbitrary: f)
  case (Cons e rows)
  have kept: "i \<in> we_id ` set (fo_handed (fold (late_row io) rows g))" if "i \<in> we_id ` set (fo_handed g)" for g
    using that reads_handed [OF fold_reads [where g = "late_row io" and es = rows and f = g, OF late_row_reads]] by blast
  have handed: "i \<in> we_id ` set (fo_handed (late_row io e f))" if "we_id e = i" using that Cons.prems(1) by (auto simp: late_row_def)
  have still: "i \<in> fst ` set (fo_missing (late_row io e f)) \<or> i \<in> we_id ` set (fo_handed (late_row io e f))"
    using late_rows_still [OF Cons.prems(1), where rows = "[e]"] by simp
  show ?case
  proof (cases "we_id e = i")
    case False
    then show ?thesis using Cons.IH [OF still] Cons.prems(2) by simp
  qed (simp add: kept [OF handed])
qed simp

lemma recheck_loop_hands:
  assumes "i \<in> fst ` set (fo_missing f) \<or> i \<in> we_id ` set (fo_handed f)" "i \<in> set (concat cs)"
    "\<And>n. pi_chunk_fault io n = None" "\<And>n. i \<in> we_id ` set (pi_chunk io n)"
  shows "i \<in> we_id ` set (fo_handed (snd (recheck_loop io n cs f)))"
  using assms(1,2)
proof (induction cs arbitrary: n f)
  case (Cons ids cs)
  obtain rows where rows: "ev_ListByIDs (pi_chunk_fault io n) ids (fc_origin (fo_cfg f)) (pi_chunk io n) = Inr rows"
    "i \<in> set ids \<Longrightarrow> i \<in> we_id ` set rows"
    using ListByIDs_ids [of ids "fc_origin (fo_cfg f)" "pi_chunk io n"] assms(3) [of n] assms(4) [of n] by auto
  let ?g = "fold (late_row io) rows f"
  have r: "\<exists>es. fo_handed (snd (recheck_loop io (Suc n) cs ?g)) = fo_handed ?g @ es"
    using recheck_loop_reads [where f = ?g and cs = cs] by (simp add: reads_def)
  have still: "i \<in> fst ` set (fo_missing ?g) \<or> i \<in> we_id ` set (fo_handed ?g)" using Cons.prems(1) by (rule late_rows_still)
  show ?case
  proof (cases "i \<in> set ids")
    case True
    then show ?thesis using r late_rows_handed [OF Cons.prems(1) rows(2), where io = io] rows(1) by (auto simp: image_Un)
  next
    case False
    then show ?thesis using Cons.IH [OF still] Cons.prems(2) rows(1) by simp
  qed
qed simp

lemma recheck_hands:
  assumes "i \<in> fst ` set (fo_missing f)" "\<And>n. pi_chunk_fault io n = None" "\<And>n. i \<in> we_id ` set (pi_chunk io n)"
  shows "i \<in> we_id ` set (fo_handed (recheckGaps io f))"
proof -
  let ?r = "recheck_loop io 0 (chunks fanoutIDsPerRecheck (sort (map fst (fo_missing f)))) f"
  have "i \<in> we_id ` set (fo_handed (snd ?r))"
    using assms by (intro recheck_loop_hands) (auto simp: concat_chunks)
  then show ?thesis using assms(1) by (cases ?r) (auto simp: recheckGaps_def expire_missing_def split: bool.split)
qed

text \<open>
  The position moves over a number that is not visible: the number becomes missing, when the gaps of the poll are small enough to
  be tracked. \<open>L\<close> and \<open>M\<close> are the position and the number of missing numbers before.
\<close>

definition passing :: "int \<Rightarrow> int \<Rightarrow> gtime \<Rightarrow> int \<Rightarrow> fanout \<Rightarrow> bool" where
  "passing L M D i f \<longleftrightarrow>
     tracked f \<and> L \<le> fo_last_id f \<and> int (length (fo_missing f)) \<le> M + (fo_last_id f - L)
     \<and> (i \<le> fo_last_id f \<longrightarrow> (\<exists>d\<ge>D. remembered i d f))"

lemma gap_loop_grows: "length (gap_loop d js m) \<le> length m + length js"
proof (induction d js m rule: gap_loop.induct)
  case (2 d i js m)
  then show ?case using put_missing_length [of i d m] by (cases "fanoutMaxMissing \<le> length m") simp_all
qed simp

lemma moved_grows: "fo_last_id f < we_id e \<Longrightarrow> int (length (fo_missing (moved io e f))) \<le> int (length (fo_missing f)) + (we_id e - fo_last_id f)"
  using gap_loop_grows [of "pi_gap_at io (fo_last_id f + 1) + fc_gap_timeout (fo_cfg f)" "[fo_last_id f + 1..we_id e - 1]" "fo_missing f"]
  by (simp add: moved_def trackGap_def) arith

lemma moved_over:
  assumes "fo_last_id f < i" "i < we_id e" "we_id e - fo_last_id f \<le> 1000" "int (length (fo_missing f)) + (we_id e - fo_last_id f) \<le> int fanoutMaxMissing"
  shows "(i, pi_gap_at io (fo_last_id f + 1) + fc_gap_timeout (fo_cfg f)) \<in> set (fo_missing (moved io e f))"
proof -
  let ?d = "pi_gap_at io (fo_last_id f + 1) + fc_gap_timeout (fo_cfg f)"
  have "(i, ?d) \<in> set (gap_loop ?d [fo_last_id f + 1..we_id e - 1] (fo_missing f))"
    using assms by (intro gap_loop_all) auto
  then show ?thesis using assms by (simp add: moved_def trackGap_def)
qed

lemma consume_row_passing:
  assumes "passing L M D i f" "we_id e \<noteq> i" "fo_last_id (consume_row io e f) \<le> L + 1000" "M + 1000 \<le> int fanoutMaxMissing"
    "\<And>g. D \<le> pi_gap_at io g + fc_gap_timeout (fo_cfg f)"
  shows "passing L M D i (consume_row io e f)"
proof (cases "we_id e \<le> fo_last_id f")
  case False
  let ?f = "consume_row io e f"
  have f: "?f = deliver (pi_deliver_at io (we_id e)) e (moved io e f)" using False by (simp add: consume_row_moved)
  have r: "reads D f ?f" by (rule consume_row_reads)
  have "\<exists>d\<ge>D. remembered i d ?f" if "i \<le> we_id e"
  proof (cases "i \<le> fo_last_id f")
    case True
    then show ?thesis using assms(1) r by (auto simp: passing_def reads_def)
  next
    case False
    then show ?thesis
      using that assms moved_over [of f i e io] by (auto simp: passing_def f remembered_def)
  qed
  then show ?thesis using assms(1) r False moved_grows [of f e io] by (auto simp: passing_def reads_def f)
qed (use assms(1) in \<open>simp add: consume_row_moved\<close>)

lemma consume_passing:
  assumes "passing L M D i f" "i \<notin> we_id ` set rows" "fo_last_id (consume io rows f) \<le> L + 1000" "M + 1000 \<le> int fanoutMaxMissing"
    "\<And>g. D \<le> pi_gap_at io g + fc_gap_timeout (fo_cfg f)"
  shows "passing L M D i (consume io rows f)"
  using assms
proof (induction rows arbitrary: f)
  case (Cons e rows)
  let ?g = "consume_row io e f"
  have g: "reads D f ?g" by (rule consume_row_reads)
  then have cfg: "fo_cfg ?g = fo_cfg f" by (simp add: reads_def poll_frame_def)
  have "fo_last_id ?g \<le> fo_last_id (consume io rows ?g)" using consume_reads [of D ?g io rows] by (simp add: reads_def)
  then have "passing L M D i ?g" using Cons.prems by (intro consume_row_passing) (auto simp: consume_def)
  then have "passing L M D i (consume io rows ?g)" using Cons.prems cfg by (intro Cons.IH) (auto simp: consume_def)
  then show ?case by (simp add: consume_def)
qed (simp add: consume_def)

lemma poll_pages_passing:
  assumes "passing L M D i f" "\<And>n. i \<notin> we_id ` set (pi_page io n)" "fo_last_id (poll_pages io page f) \<le> L + 1000"
    "M + 1000 \<le> int fanoutMaxMissing" "\<And>g. D \<le> pi_gap_at io g + fc_gap_timeout (fo_cfg f)"
    "fo_restarts (poll_pages io page f) = fo_restarts f"
  shows "passing L M D i (poll_pages io page f)"
  using assms
proof (induction io page f rule: poll_pages.induct)
  case (1 io page f)
  let ?q = "ev_ListAfter (pi_page_fault io page) (fo_last_id f) (nat (fc_poll_batch (fo_cfg f))) (fc_origin (fo_cfg f)) (pi_page io page)"
  show ?case
  proof (cases "page < fanoutMaxPagesPerPoll \<and> \<not> pi_cancelled io page \<and> (\<exists>rows. ?q = Inr rows)")
    case False
    then have "poll_pages io page f = f" by (subst poll_pages.simps) (auto split: sum.split)
    with "1.prems"(1) show ?thesis by simp
  next
    case True
    then obtain rows where go: "page < fanoutMaxPagesPerPoll \<and> \<not> pi_cancelled io page" and rows: "?q = Inr rows" by blast
    show ?thesis
    proof (cases "page = 0 \<and> rows = []")
      case True
      with go rows have e: "poll_pages io page f = empty_poll io f" by (subst poll_pages.simps) auto
      then have "fo_last_id (empty_poll io f) = fo_last_id f \<and> fo_missing (empty_poll io f) = fo_missing f \<and> fo_handed (empty_poll io f) = fo_handed f"
        using "1.prems"(6) by (auto simp: empty_poll_def checkIDRestart_def Let_def split: sum.splits if_splits)
      with "1.prems"(1) show ?thesis by (simp add: e passing_def tracked_def remembered_def)
    next
      case False
      let ?g = "consume io rows f" and ?p = "poll_pages io page f"
      have p: "?p = (if int (length rows) < fc_poll_batch (fo_cfg f) then ?g else poll_pages io (Suc page) ?g)"
        using go rows False by (subst poll_pages.simps) (auto simp: Let_def)
      have g: "reads D f ?g" by (rule consume_reads)
      have q: "polled D ?g (poll_pages io (Suc page) ?g)" by (rule poll_pages_polled)
      have nores: "fo_restarts ?g = fo_restarts f" using g by (simp add: reads_def)
      have "fo_last_id ?g \<le> fo_last_id ?p"
        using "1.prems"(6) q by (auto simp: p polled_def reads_def nores split: if_splits)
      moreover have "i \<notin> we_id ` set rows" using "1.prems"(2) [of page] ListAfter_ids [OF rows] by blast
      ultimately have gp: "passing L M D i ?g" using "1.prems" by (intro consume_passing) auto
      show ?thesis
      proof (cases "int (length rows) < fc_poll_batch (fo_cfg f)")
        case False
        have cfg: "fo_cfg ?g = fo_cfg f" using g by (simp add: reads_def poll_frame_def)
        have "passing L M D i (poll_pages io (Suc page) ?g)"
          using "1.prems" False by (intro "1.IH" [OF go rows _ refl]) (auto simp: p cfg gp nores \<open>\<not> (page = 0 \<and> rows = [])\<close>)
        with False p show ?thesis by simp
      qed (simp add: p gp)
    qed
  qed
qed

lemma recheck_shrinks: "length (fo_missing (recheckGaps io f)) \<le> length (fo_missing f) \<and> fo_last_id (recheckGaps io f) = fo_last_id f"
proof -
  have row: "length (fo_missing (late_row io e g)) \<le> length (fo_missing g) \<and> fo_last_id (late_row io e g) = fo_last_id g" for e g
    by (simp add: late_row_def)
  have rows: "length (fo_missing (fold (late_row io) es g)) \<le> length (fo_missing g) \<and> fo_last_id (fold (late_row io) es g) = fo_last_id g" for es g
  proof (induction es arbitrary: g)
    case (Cons e es)
    then show ?case using row [of e g] le_trans by fastforce
  qed simp
  have loop: "length (fo_missing (snd (recheck_loop io n cs g))) \<le> length (fo_missing g) \<and> fo_last_id (snd (recheck_loop io n cs g)) = fo_last_id g" for n cs g
  proof (induction cs arbitrary: n g)
    case (Cons c cs)
    show ?case
    proof (cases "ev_ListByIDs (pi_chunk_fault io n) c (fc_origin (fo_cfg g)) (pi_chunk io n)")
      case (Inr rs)
      then show ?thesis using Cons.IH [of "Suc n" "fold (late_row io) rs g"] rows [of rs g] by simp
    qed simp
  qed simp
  let ?r = "recheck_loop io 0 (chunks fanoutIDsPerRecheck (sort (map fst (fo_missing f)))) f"
  show ?thesis
    using loop [of 0 "chunks fanoutIDsPerRecheck (sort (map fst (fo_missing f)))" f]
    by (cases ?r) (auto simp: recheckGaps_def expire_missing_def intro: le_trans [OF length_filter_le] split: bool.split)
qed

lemma passed_over_remembered:
  assumes "fo_started f" "tracked f" "fo_restarts (fan_poll io f) = fo_restarts f" "fo_last_id f < i" "i \<le> fo_last_id (fan_poll io f)"
    "\<And>n. i \<notin> we_id ` set (pi_page io n)" "fo_last_id (fan_poll io f) \<le> fo_last_id f + 1000" "length (fo_missing f) \<le> 9000"
    "\<And>g. D \<le> pi_gap_at io g + fc_gap_timeout (fo_cfg f)"
  shows "\<exists>d\<ge>D. remembered i d (fan_poll io f)"
proof -
  let ?g = "recheckGaps io f"
  have p: "fan_poll io f = poll_pages io 0 ?g" using assms(1) by (simp add: fan_poll_def poll_start_def)
  have r: "reads (pi_expire_at io) f ?g" by (rule recheckGaps_reads)
  have "passing (fo_last_id f) 9000 D i ?g"
    using r recheck_shrinks [of io f] assms(2,4,8) by (auto simp: passing_def reads_def)
  then have "passing (fo_last_id f) 9000 D i (fan_poll io f)"
    using assms r unfolding p by (intro poll_pages_passing) (auto simp: reads_def poll_frame_def fanoutMaxMissing_def)
  then show ?thesis using assms(5) by (simp add: passing_def)
qed

lemma poll_restarts: "fo_restarts f \<le> fo_restarts (fan_poll io f)"
proof (cases "poll_start io f")
  case (Some g)
  then have "fo_restarts g = fo_restarts f" using trackStartWindow_Some by (auto simp: poll_start_def split: if_splits sum.splits)
  moreover have "polled (pi_expire_at io) g (fan_poll io f)"
    using reads_polled [OF recheckGaps_reads poll_pages_polled] Some by (simp add: fan_poll_def)
  ultimately show ?thesis by (auto simp: polled_def reads_def)
qed (simp add: fan_poll_def)

lemma polls_restarts: "fo_restarts f \<le> fo_restarts (fold fan_poll ios f)"
  by (induction ios arbitrary: f) (auto intro: le_trans poll_restarts)

lemma polls_remember:
  assumes "fo_started f" "tracked f" "remembered i d f" "\<forall>io\<in>set ios. pi_expire_at io \<le> d" "fo_restarts (fold fan_poll ios f) = fo_restarts f"
  shows "fo_started (fold fan_poll ios f) \<and> tracked (fold fan_poll ios f) \<and> remembered i d (fold fan_poll ios f)"
  using assms
proof (induction ios arbitrary: f)
  case (Cons io ios)
  have same: "fo_restarts (fan_poll io f) = fo_restarts f"
    using Cons.prems(5) poll_restarts [of f io] polls_restarts [of "fan_poll io f" ios] by simp
  from poll_reads [OF Cons.prems(1) this] Cons.prems
  have "fo_started (fan_poll io f) \<and> tracked (fan_poll io f) \<and> remembered i d (fan_poll io f)" by (auto simp: reads_def poll_frame_def)
  then show ?case using Cons.IH [of "fan_poll io f"] Cons.prems(4,5) same by simp
qed simp

lemma poll_hands_late:
  assumes "fo_started f" "remembered i d f" "fo_restarts (fan_poll io f) = fo_restarts f"
    "\<And>n. pi_chunk_fault io n = None" "\<And>n. i \<in> we_id ` set (pi_chunk io n)"
  shows "i \<in> we_id ` set (fo_handed (fan_poll io f))"
proof (cases "i \<in> we_id ` set (fo_handed f)")
  case True
  then show ?thesis using reads_handed [OF poll_reads [OF assms(1,3)]] by blast
next
  case False
  then have "i \<in> fst ` set (fo_missing f)" using assms(2) by (force simp: remembered_def)
  then have "i \<in> we_id ` set (fo_handed (recheckGaps io f))" by (rule recheck_hands [OF _ assms(4,5)])
  moreover have "reads 0 (recheckGaps io f) (fan_poll io f)"
    using assms(1,3) poll_pages_polled [of 0 "recheckGaps io f" io 0] recheckGaps_reads [of io f]
    by (auto simp: fan_poll_def poll_start_def polled_def reads_def)
  ultimately show ?thesis using reads_handed by blast
qed

lemma distinct_count: "distinct (map g xs) \<Longrightarrow> i \<in> g ` set xs \<Longrightarrow> length (filter (\<lambda>x. g x = i) xs) = 1"
proof (induction xs)
  case (Cons x xs)
  show ?case
  proof (cases "g x = i")
    case True
    then have "filter (\<lambda>x. g x = i) xs = []" using Cons.prems(1) by (auto simp: filter_empty_conv image_iff)
    with True show ?thesis by simp
  qed (use Cons in auto)
qed simp

text \<open>C17. No row is lost when it becomes visible late: a poll moved past the number of a row that was not committed yet; when the row is
  committed before the gap timeout has passed, the next poll without a failed query hands it to the hub, exactly once. The gap must be small enough to
  be tracked (1000 numbers, 10000 in all), and the numbers must not restart meanwhile.\<close>

theorem late_row_delivered_once:
  assumes "NewFanout h c = Some f0" "fan_step\<^sup>*\<^sup>* (f0, d0) (f, d)" "fo_started f"
    and passed: "fo_last_id f < i" "i \<le> fo_last_id (fan_poll io f)" "\<And>n. i \<notin> we_id ` set (pi_page io n)"
    and small: "fo_last_id (fan_poll io f) \<le> fo_last_id f + 1000" "length (fo_missing f) \<le> 9000"
    and clock: "\<And>g. t \<le> pi_gap_at io g" "\<And>io'. io' \<in> set waiting \<Longrightarrow> pi_expire_at io' \<le> t + fc_gap_timeout (fo_cfg f)"
    and visible: "\<And>n. i \<in> we_id ` set (pi_chunk later n)" "\<And>n. pi_chunk_fault later n = None"
    and same: "fo_restarts (fold fan_poll (io # waiting @ [later]) f) = 0"
  shows "length (filter (\<lambda>e. we_id e = i) (fo_handed (fold fan_poll (io # waiting @ [later]) f))) = 1"
proof -
  let ?f1 = "fan_poll io f" and ?f2 = "fold fan_poll waiting (fan_poll io f)"
  have fin: "fold fan_poll (io # waiting @ [later]) f = fan_poll later ?f2" by simp
  have zero: "fo_restarts f = 0" "fo_restarts ?f1 = 0" "fo_restarts ?f2 = 0"
    using same poll_restarts [of f io] polls_restarts [of ?f1 waiting] poll_restarts [of ?f2 later] by (simp_all add: fin)
  have tr: "tracked f" using fan_reachable_ok [OF assms(1,2)] zero by (simp add: fan_ok_def)
  obtain dl where dl: "t + fc_gap_timeout (fo_cfg f) \<le> dl" "remembered i dl ?f1"
    using passed_over_remembered [OF assms(3) tr _ passed small, where D = "t + fc_gap_timeout (fo_cfg f)"] clock(1) zero by auto
  have r1: "reads (pi_expire_at io) f ?f1" using poll_reads [OF assms(3)] zero by simp
  then have "fo_started ?f2 \<and> tracked ?f2 \<and> remembered i dl ?f2"
    using polls_remember [of ?f1 i dl waiting] dl clock(2) tr zero assms(3) by (fastforce simp: reads_def poll_frame_def)
  then have last: "fo_started ?f2" "tracked ?f2" "remembered i dl ?f2" by simp_all
  have res: "fo_restarts (fan_poll later ?f2) = fo_restarts ?f2" using same zero by (simp add: fin)
  have "i \<in> we_id ` set (fo_handed (fan_poll later ?f2))" by (rule poll_hands_late [OF last(1,3) res visible(2,1)])
  moreover have "distinct (map we_id (fo_handed (fan_poll later ?f2)))" using poll_reads [OF last(1) res] last(2) by (simp add: reads_def tracked_def)
  ultimately show ?thesis unfolding fin by (intro distinct_count)
qed

section \<open>Revocations on other replicas\<close>

text \<open>A message or a revocation never adds a connection and never changes an identity.\<close>

definition shrinks :: "hub \<Rightarrow> hub \<Rightarrow> bool" where
  "shrinks h h' \<longleftrightarrow>
     set (hb_clients h') \<subseteq> set (hb_clients h) \<and> set (hb_revocables h') \<subseteq> set (hb_revocables h)
     \<and> (\<forall>c. map_option cn_identity (hb_conns h' c) = map_option cn_identity (hb_conns h c))"

definition gone :: "(client_identity \<Rightarrow> bool) \<Rightarrow> hub \<Rightarrow> bool" where
  "gone p h \<longleftrightarrow> (\<forall>c\<in>set (hb_clients h). \<not> client_matches p h c) \<and> (\<forall>r\<in>set (hb_revocables h). \<not> p (rv_identity r))"

lemma shrinks_refl [simp]: "shrinks h h"
  by (simp add: shrinks_def)

lemma shrinks_trans: "shrinks h g \<Longrightarrow> shrinks g k \<Longrightarrow> shrinks h k"
  by (auto simp: shrinks_def)

lemma client_matches_option: "client_matches p h c \<longleftrightarrow> (\<exists>i. map_option cn_identity (hb_conns h c) = Some i \<and> p i)"
  by (auto simp: client_matches_def split: option.split)

lemma gone_shrinks: "shrinks h h' \<Longrightarrow> gone p h \<Longrightarrow> gone p h'"
  by (auto simp: shrinks_def gone_def client_matches_option)

lemma sends_shrink: "shrinks h (set_sends g h)"
  by (simp add: shrinks_def option.map_comp o_def)

lemma removed_shrinks: "shrinks h (removed cs r h)"
  by (auto simp: shrinks_def option.map_comp o_def close_as_def)

lemma remove_shrinks: "hub_ok h \<Longrightarrow> hub_ok (fold (\<lambda>c. removeClientLocked c r) cs h) \<and> shrinks h (fold (\<lambda>c. removeClientLocked c r) cs h)"
proof (induction cs arbitrary: h)
  case (Cons c cs)
  have "shrinks h (removeClientLocked c r h)"
    using Cons.prems by (cases "c \<in> set (hb_clients h)") (simp_all add: removeClientLocked_open removed_shrinks hub_okD)
  then show ?case using Cons hub_ok_remove [OF Cons.prems] shrinks_trans by fastforce
qed simp

lemma deliver_sends_shrink:
  assumes "hub_ok h"
  shows "hub_ok (deliverInstance i m h) \<and> shrinks h (deliverInstance i m h)" "hub_ok (deliverUser u m h) \<and> shrinks h (deliverUser u m h)"
    "hub_ok (deliverAll m h) \<and> shrinks h (deliverAll m h)"
proof -
  have each: "shrinks h (snd (send_each m cs h))" if "set cs \<subseteq> set (hb_clients h)" "distinct cs" for cs
  proof -
    have "\<forall>c\<in>set cs. open_in h c" using that hub_okD(3) [OF assms] by blast
    then show ?thesis using that by (simp add: send_each_open sends_shrink)
  qed
  have "shrinks h (snd (instance_sends i m h))" using hub_ok_subs [OF assms, of i] by (auto simp: instance_sends_def intro!: each split: option.split)
  then show "hub_ok (deliverInstance i m h) \<and> shrinks h (deliverInstance i m h)"
    using remove_shrinks [OF hub_ok_instance_sends [OF assms], of "[]"] shrinks_trans by (auto simp: deliverInstance_def finishSend_def split_beta)
  have "shrinks h (snd (user_sends u m h))" using each hub_okD(2) [OF assms] by (auto simp: user_sends_def)
  then show "hub_ok (deliverUser u m h) \<and> shrinks h (deliverUser u m h)"
    using remove_shrinks [OF hub_ok_user_sends [OF assms], of "[]"] shrinks_trans by (auto simp: deliverUser_def finishSend_def split_beta)
  show "hub_ok (deliverAll m h) \<and> shrinks h (deliverAll m h)"
    using assms hub_ok_frame(1) [OF assms] by (simp add: deliverAll_def shrinks_def)
qed

lemma disconnect_shrinks:
  assumes "hub_ok h"
  shows "hub_ok (snd (disconnectIdentities p h)) \<and> shrinks h (snd (disconnectIdentities p h)) \<and> gone p (snd (disconnectIdentities p h))"
proof -
  have "gone p (snd (disconnectIdentities p h))"
    by (auto simp: gone_def disconnect_is_removed [OF assms] Let_def client_matches_def split: if_splits)
  moreover have "shrinks h (snd (disconnectIdentities p h))"
    by (auto simp: disconnect_is_removed [OF assms] Let_def shrinks_def option.map_comp o_def close_as_def)
  ultimately show ?thesis using hub_ok_disconnect [OF assms] by simp
qed

lemma row_effect_shrinks: "hub_ok h \<Longrightarrow> row_effect e h = Some h' \<Longrightarrow> hub_ok h' \<and> shrinks h h'"
  using deliver_sends_shrink disconnect_shrinks
  by (auto simp: row_effect_def Let_def disconnectUserIssuedBefore_def disconnectTokenLocal_def disconnectAPIKeyLocal_def split: if_splits)

text \<open>
  The identities that a revocation row closes. A row that was handed over after the first \<open>n\<close> ones has done its work, and what
  follows does not bring the connections back.
\<close>

definition served :: "nat \<Rightarrow> ws_event \<Rightarrow> (client_identity \<Rightarrow> bool) \<Rightarrow> fanout \<Rightarrow> bool" where
  "served n e p f \<longleftrightarrow> hub_ok (fo_hub f) \<and> n \<le> length (fo_handed f) \<and> (e \<in> set (drop n (fo_handed f)) \<longrightarrow> gone p (fo_hub f))"

definition revoke_closes :: "ws_event \<Rightarrow> (client_identity \<Rightarrow> bool) \<Rightarrow> bool" where
  "revoke_closes e p \<longleftrightarrow> (\<forall>h. hub_ok h \<longrightarrow> (\<exists>h'. row_effect e h = Some h' \<and> gone p h'))"

lemma deliver_serves:
  assumes "served n e p f" "revoke_closes e p" "we_origin e \<noteq> fc_origin (fo_cfg f)" "e' = e \<Longrightarrow> now - we_created_at e \<le> fc_max_age (fo_cfg f)"
  shows "served n e p (deliver now e' f)"
proof -
  have ok: "hub_ok (fo_hub f)" and old: "e \<in> set (drop n (fo_handed f)) \<Longrightarrow> gone p (fo_hub f)" and n: "n \<le> length (fo_handed f)"
    using assms(1) by (auto simp: served_def)
  have hub: "fo_hub (deliver now e' f) = fo_hub f \<or> row_effect e' (fo_hub f) = Some (fo_hub (deliver now e' f))"
    by (auto simp: deliver_def Let_def fan_skip_def split: option.split)
  then have keep: "hub_ok (fo_hub (deliver now e' f)) \<and> shrinks (fo_hub f) (fo_hub (deliver now e' f))"
    using row_effect_shrinks [OF ok] ok by auto
  have "gone p (fo_hub (deliver now e' f))" if "e' = e"
    using assms(2,3) assms(4) [OF that] ok that by (auto simp: deliver_def Let_def revoke_closes_def)
  then show ?thesis using keep old n gone_shrinks by (auto simp: served_def)
qed

definition fresh_at :: "poll_io \<Rightarrow> ws_event \<Rightarrow> fanout \<Rightarrow> bool" where
  "fresh_at io e f \<longleftrightarrow> we_origin e \<noteq> fc_origin (fo_cfg f) \<and> pi_deliver_at io (we_id e) - we_created_at e \<le> fc_max_age (fo_cfg f)"

lemma consume_row_serves:
  assumes "served n e p f" "revoke_closes e p" "fresh_at io e f"
  shows "served n e p (consume_row io e' f)"
proof -
  have "served n e p (moved io e' f)" using assms(1) by (simp add: served_def)
  from deliver_serves [OF this assms(2), of e'] show ?thesis using assms(1,3) by (auto simp: consume_row_moved fresh_at_def)
qed

lemma late_row_serves:
  assumes "served n e p f" "revoke_closes e p" "fresh_at io e f"
  shows "served n e p (late_row io e' f)"
proof -
  have "served n e p (f\<lparr>fo_missing := m\<rparr>)" for m using assms(1) by (simp add: served_def)
  from deliver_serves [OF this assms(2), of _ e'] show ?thesis using assms(1,3) by (auto simp: late_row_def fresh_at_def)
qed

lemma fold_serves:
  assumes "\<And>e' f. served n e p f \<Longrightarrow> fresh_at io e f \<Longrightarrow> served n e p (g e' f)" "\<And>e' f. reads T f (g e' f)"
    "served n e p f" "fresh_at io e f"
  shows "served n e p (fold g es f)"
  using assms(3,4)
proof (induction es arbitrary: f)
  case (Cons a es)
  have "fresh_at io e (g a f)" using assms(2) [of f a] Cons.prems(2) by (simp add: fresh_at_def reads_def poll_frame_def)
  then show ?case using Cons assms(1) by simp
qed simp

lemma recheck_serves:
  assumes "served n e p f" "revoke_closes e p" "fresh_at io e f"
  shows "served n e p (recheckGaps io f)"
proof -
  have rows: "served n e p (fold (late_row io) es g)" if "served n e p g" "fresh_at io e g" for es g
    using that by (intro fold_serves [where T = 0 and io = io]) (auto intro: late_row_serves late_row_reads assms(2))
  have loop: "served n e p (snd (recheck_loop io k cs g))" if "served n e p g" "fresh_at io e g" for k cs g
    using that
  proof (induction cs arbitrary: k g)
    case (Cons c cs)
    have "fresh_at io e (fold (late_row io) es g)" for es
      using Cons.prems(2) fold_reads [where g = "late_row io" and es = es and f = g, OF late_row_reads] by (simp add: fresh_at_def reads_def poll_frame_def)
    then show ?case using Cons rows by (simp split: sum.split)
  qed simp
  let ?r = "recheck_loop io 0 (chunks fanoutIDsPerRecheck (sort (map fst (fo_missing f)))) f"
  show ?thesis using loop [OF assms(1,3), of 0 "chunks fanoutIDsPerRecheck (sort (map fst (fo_missing f)))"] assms(1)
    by (cases ?r) (auto simp: recheckGaps_def expire_missing_def served_def split: bool.split)
qed

text \<open>One page with all new rows: every row is handed over, in the order of the numbers.\<close>

lemma consume_hands:
  assumes "sorted_wrt (<) (map we_id rows)" "\<forall>e\<in>set rows. fo_last_id f < we_id e"
  shows "fo_handed (consume io rows f) = fo_handed f @ rows"
  using assms
proof (induction rows arbitrary: f)
  case (Cons e rows)
  then have "fo_handed (consume io rows (consume_row io e f)) = fo_handed (consume_row io e f) @ rows"
    by (intro Cons.IH) (auto simp: consume_row_moved)
  with Cons.prems show ?case by (simp add: consume_def consume_row_moved)
qed (simp add: consume_def)

lemma ListAfter_all:
  assumes "length (filter (\<lambda>e. a < we_id e) t) \<le> n" "keyed we_id t"
  shows "\<exists>rows. ev_ListAfter None a n o' t = Inr rows \<and> sorted_wrt (<) (map we_id rows) \<and> set rows = blank_payload o' ` {e \<in> set t. a < we_id e}
    \<and> length rows = length (filter (\<lambda>e. a < we_id e) t)"
proof -
  let ?s = "sort_key we_id (filter (\<lambda>e. a < we_id e) t)"
  have "sorted (map we_id ?s)" by simp
  moreover have "distinct (map we_id ?s)" using keyed_filter [OF assms(2), of "\<lambda>e. a < we_id e"] by (simp add: keyed_def distinct_map)
  ultimately have "sorted_wrt (<) (map we_id ?s)" by (simp only: strict_sorted_iff)
  moreover have "we_id \<circ> blank_payload o' = we_id" by (simp add: fun_eq_iff)
  ultimately show ?thesis using assms(1) by (auto simp: ev_ListAfter_def)
qed

lemma new_row_handed:
  assumes "served (length (fo_handed f)) e p (recheckGaps io f)" "fo_started f" "revoke_closes e p" "fresh_at io e f"
    "pi_page_fault io 0 = None" "\<not> pi_cancelled io 0" "keyed we_id (pi_page io 0)" "e \<in> set (pi_page io 0)" "fo_last_id f < we_id e"
    "int (length (filter (\<lambda>e. fo_last_id f < we_id e) (pi_page io 0))) < fc_poll_batch (fo_cfg f)"
  shows "gone p (fo_hub (fan_poll io f))"
proof -
  let ?g = "recheckGaps io f"
  have g: "reads (pi_expire_at io) f ?g" "fo_last_id ?g = fo_last_id f" using recheckGaps_reads recheck_shrinks by auto
  then have cfg: "fo_cfg ?g = fo_cfg f" by (simp add: reads_def poll_frame_def)
  have room: "length (filter (\<lambda>e. fo_last_id f < we_id e) (pi_page io 0)) \<le> nat (fc_poll_batch (fo_cfg f))" using assms(10) by linarith
  obtain rows where rows: "ev_ListAfter None (fo_last_id ?g) (nat (fc_poll_batch (fo_cfg ?g))) (fc_origin (fo_cfg ?g)) (pi_page io 0) = Inr rows"
    "sorted_wrt (<) (map we_id rows)" "set rows = blank_payload (fc_origin (fo_cfg ?g)) ` {e \<in> set (pi_page io 0). fo_last_id ?g < we_id e}"
    "length rows = length (filter (\<lambda>e. fo_last_id ?g < we_id e) (pi_page io 0))"
    using ListAfter_all [OF room assms(7), of "fc_origin (fo_cfg ?g)"] g(2) cfg by auto
  have "blank_payload (fc_origin (fo_cfg ?g)) e = e" using assms(4) cfg by (simp add: blank_payload_def fresh_at_def)
  then have e: "e \<in> set rows" using assms(8,9) g(2) by (force simp: rows(3))
  have p: "fan_poll io f = consume io rows ?g"
    using assms(2,5,6,10) rows(1,4) e g(2) cfg by (simp add: fan_poll_def poll_start_def poll_pages.simps [of io 0]) auto
  have "fo_handed (consume io rows ?g) = fo_handed ?g @ rows" using rows(2,3) by (intro consume_hands) auto
  moreover have "length (fo_handed f) \<le> length (fo_handed ?g)" using g(1) by (auto simp: reads_def)
  moreover have "served (length (fo_handed f)) e p (consume io rows ?g)"
    unfolding consume_def using assms(1,3,4) cfg
    by (intro fold_serves [where T = 0 and io = io]) (auto intro: consume_row_serves consume_row_reads simp: fresh_at_def)
  ultimately show ?thesis using e by (simp add: p served_def)
qed

section \<open>The writer\<close>

lemma number_events_append: "number_events n (xs @ ys) = number_events n xs @ number_events (n + int (length xs)) ys"
  by (induction n xs rule: number_events.induct) (auto simp: add.assoc)

lemma number_events_facts: "length (number_events n xs) = length xs" "map we_id (number_events n xs) = [n..n + int (length xs) - 1]"
  by (induction n xs rule: number_events.induct) (auto simp: upto_rec1)

lemma write_round_writes:
  assumes "fo_queue f \<noteq> []"
  shows "\<exists>b f1. write_round None (f, d) = (f1, d\<lparr>wd_rows := wd_rows d @ number_events (wd_next d) b, wd_next := wd_next d + int (length b)\<rparr>)
    \<and> b \<noteq> [] \<and> fo_queue f = b @ fo_queue f1"
proof -
  obtain e q where q: "fo_queue f = e # q" using assms by (cases "fo_queue f") auto
  obtain b f1 where b: "fillBatch [e] (f\<lparr>fo_queue := q\<rparr>) = (b, f1)" by fastforce
  have s: "b @ fo_queue f1 = e # q" using fillBatch_split [OF b] by simp
  have "b \<noteq> []"
  proof -
    have "length batch \<le> length (fst (fill_loop w n batch q'))" for w n batch q'
      by (induction w n batch q' rule: fill_loop.induct) auto
    from this [of "[e]" "fc_write_batch (fo_cfg f)" "payload_size [e]" q] show ?thesis using b by (auto simp: fillBatch_def split: prod.splits)
  qed
  then show ?thesis using s q b by (intro exI [of _ b]) (simp add: write_round_def fan_write_def ev_Insert_def)
qed

text \<open>Enough rounds without a failed insert write the whole queue in its order.\<close>

lemma write_rounds_write:
  assumes "length (fo_queue f) \<le> n"
  shows "\<exists>f1. fold write_round (replicate n None) (f, d) =
      (f1, d\<lparr>wd_rows := wd_rows d @ number_events (wd_next d) (fo_queue f), wd_next := wd_next d + int (length (fo_queue f))\<rparr>) \<and> fo_queue f1 = []"
  using assms
proof (induction n arbitrary: f d)
  case 0
  then show ?case by simp
next
  case (Suc n)
  show ?case
  proof (cases "fo_queue f = []")
    case True
    then have "write_round None (f, d) = (f, d)" by (simp add: write_round_def)
    with Suc.IH [of f d] True show ?thesis by simp
  next
    case False
    from write_round_writes [OF this, of d] obtain b f1 where b: "b \<noteq> []" "fo_queue f = b @ fo_queue f1"
      "write_round None (f, d) = (f1, d\<lparr>wd_rows := wd_rows d @ number_events (wd_next d) b, wd_next := wd_next d + int (length b)\<rparr>)" by blast
    have "length (fo_queue f1) \<le> n" using Suc.prems b by (cases b) auto
    from Suc.IH [OF this, of "d\<lparr>wd_rows := wd_rows d @ number_events (wd_next d) b, wd_next := wd_next d + int (length b)\<rparr>"]
    show ?thesis by (simp add: b(2,3) number_events_append add.assoc)
  qed
qed

text \<open>A batch has at most the configured number of rows and about 1 MiB of payload.\<close>

lemma fill_loop_bounded:
  assumes "fill_loop w n batch q = (b, q')" "n = payload_size batch" "int (length batch) \<le> w" "payload_size batch < fanoutWriteBatchBytes + p"
    "\<forall>e\<in>set q. length (we_payload e) \<le> p"
  shows "int (length b) \<le> w \<and> payload_size b < fanoutWriteBatchBytes + p"
  using assms
proof (induction w n batch q arbitrary: b q' rule: fill_loop.induct)
  case (2 w n batch e q)
  show ?case
  proof (cases "int (length batch) < w \<and> n < fanoutWriteBatchBytes")
    case True
    then show ?thesis using 2 by (intro "2.IH" [OF True]) (auto simp: payload_size_def)
  qed (use 2 in auto)
qed auto

section \<open>The cleaner\<close>

lemma sorted_le_last: "sorted xs \<Longrightarrow> x \<in> set xs \<Longrightarrow> x \<le> last (xs :: int list)"
proof (induction xs)
  case (Cons a xs)
  then show ?case using last_in_set [of xs] by (cases "xs = []") auto
qed simp

lemma delete_upto_all:
  assumes "length (old_ids t n tbl) < n" "old_ids t n tbl \<noteq> []"
  shows "delete_upto t (last (old_ids t n tbl)) tbl = filter (\<lambda>e. \<not> we_created_at e < t) tbl"
proof -
  let ?s = "sort (map we_id (filter (\<lambda>e. we_created_at e < t) tbl))"
  have ids: "old_ids t n tbl = ?s" using assms(1) by (simp add: old_ids_def)
  have "we_id e \<le> last ?s" if "e \<in> set tbl" "we_created_at e < t" for e
  proof -
    have "we_id e \<in> set ?s" using that by simp
    then show ?thesis by (rule sorted_le_last [OF sorted_sort])
  qed
  then show ?thesis unfolding delete_upto_def ids by (intro filter_cong) auto
qed

lemma delete_upto_rest:
  "filter (\<lambda>e. \<not> we_created_at e < t) (delete_upto t i tbl) = filter (\<lambda>e. \<not> we_created_at e < t) tbl"
  unfolding delete_upto_def by (simp cong: filter_cong) (metis (mono_tags, lifting))

text \<open>The batches delete exactly the old rows, and the loop ends.\<close>

lemma delete_older_is_one_delete:
  assumes "0 < n"
  shows "delete_older_loop (\<lambda>_. None) (\<lambda>_. None) (\<lambda>_. None) t n i k tbl =
    ((None, k + length (filter (\<lambda>e. we_created_at e < t) tbl)), filter (\<lambda>e. \<not> we_created_at e < t) tbl)"
proof (induction "length tbl" arbitrary: i k tbl rule: less_induct)
  case less
  let ?ids = "old_ids t n tbl" and ?old = "\<lambda>e. we_created_at e < t"
  let ?rest = "delete_upto t (last ?ids) tbl"
  have split: "length (filter ?old xs) + length (filter (\<lambda>e. \<not> ?old e) xs) = length xs" for xs :: ws_table
    by (rule sum_length_filter_compl)
  show ?case
  proof (cases "?ids = []")
    case True
    have "length ?ids = min n (length (filter ?old tbl))" by (simp add: old_ids_def min.commute)
    with True assms have none: "filter ?old tbl = []" by (simp add: min_def split: if_splits)
    then have "filter (\<lambda>e. \<not> ?old e) tbl = tbl" by (auto simp: filter_empty_conv filter_id_conv)
    with none True show ?thesis by (subst delete_older_loop.simps) simp
  next
    case False
    show ?thesis
    proof (cases "length ?ids < n")
      case True
      then show ?thesis using False split [of tbl] delete_upto_all [OF True False] by (subst delete_older_loop.simps) (simp add: Let_def)
    next
      case ge: False
      from less.hyps [OF delete_upto_shorter [OF False], of "Suc i" "k + (length tbl - length ?rest)"]
      have "delete_older_loop (\<lambda>_. None) (\<lambda>_. None) (\<lambda>_. None) t n i k tbl =
        ((None, k + (length tbl - length ?rest) + length (filter ?old ?rest)), filter (\<lambda>e. \<not> ?old e) tbl)"
        using False ge by (subst delete_older_loop.simps) (simp add: Let_def delete_upto_rest)
      then show ?thesis using split [of tbl] split [of ?rest] delete_upto_shorter [OF False] by (simp add: delete_upto_rest)
    qed
  qed
qed

lemma cleanup_deletes_old:
  "event_cleanup c (\<lambda>_. None) (\<lambda>_. None) (\<lambda>_. None) now d = d\<lparr>wd_rows := filter (\<lambda>e. \<not> we_created_at e < now - ec_retention c) (wd_rows d)\<rparr>"
  by (simp add: event_cleanup_def ev_DeleteOlderThan_def delete_older_is_one_delete)

text \<open>Two log lines are at least the interval of the limiter apart.\<close>

lemma allow_spaced: "allow t l = ((True, n), l') \<Longrightarrow> allow t' l' = ((True, m), l'') \<Longrightarrow> t \<noteq> zero_time \<Longrightarrow> ll_every l \<le> t' - t"
  by (auto simp: allow_def split: if_splits)

section \<open>From one replica to another\<close>

lemma gone_weaker: "(\<And>i. q i \<Longrightarrow> p i) \<Longrightarrow> gone p h \<Longrightarrow> gone q h"
  by (auto simp: gone_def client_matches_option)

lemma issued_before_time: "ci_user_id i = u \<and> (ci_issued_at i = zero_time \<or> ci_issued_at i \<le> t) \<Longrightarrow> issued_before u t i"
  by (auto simp: issued_before_def unix_milli_def intro: zdiv_mono1)

lemma revoke_rows:
  assumes "we_target e = WSEventTargetRevokeUserPrefix @ u"
  shows "revoke_closes e (issued_before u (we_created_at e))"
proof -
  have "row_effect e h = Some (snd (disconnectIdentities (issued_before u (we_created_at e)) h))" for h
    using TrimPrefix_append [of WSEventTargetRevokeUserPrefix u] by (simp add: row_effect_def assms HasPrefix_def disconnectUserIssuedBefore_def del: TrimPrefix_append)
  then show ?thesis using disconnect_shrinks by (auto simp: revoke_closes_def)
qed

text \<open>C16. The revocation of a user reaches the sockets of every replica: after \<open>DisconnectUser\<close> on one replica none of its own connections
  belongs to the user; when the queued rows are written and another replica polls the table within the maximum age, none of its connections
  belongs to the user and was opened with an API key or with a token issued up to the revocation, and no port-forward or exec session either.\<close>

theorem revocation_reaches_replicas:
  assumes replica: "fo_attached fa" "\<not> fo_stopped fa" "int (length (fo_queue fa)) < fc_buffer_size (fo_cfg fa)"
      "0 \<le> fc_max_payload_bytes (fo_cfg fa)" "hub_step\<^sup>*\<^sup>* (NewHub, []) (fo_hub fa, ps)"
    and revoke: "u \<noteq> []" "hub_DisconnectUser t u fa = (n, fa')"
    and written: "fold write_round (replicate (Suc (length (fo_queue fa))) None) (fa', d) = (fa'', d')"
    and table: "keyed we_id (wd_rows d)" "\<And>e. e \<in> set (wd_rows d) \<Longrightarrow> we_id e < wd_next d"
    and other: "fo_started fb" "fc_origin (fo_cfg fb) \<noteq> fc_origin (fo_cfg fa)" "fo_last_id fb < wd_next d" "hub_step\<^sup>*\<^sup>* (NewHub, []) (fo_hub fb, qs)"
    and polled_at: "pi_page io 0 = wd_rows d'" "pi_page_fault io 0 = None" "\<not> pi_cancelled io 0"
      "int (length (filter (\<lambda>e. fo_last_id fb < we_id e) (wd_rows d'))) < fc_poll_batch (fo_cfg fb)"
      "\<And>i. pi_deliver_at io i - t \<le> fc_max_age (fo_cfg fb)"
  shows "gone (\<lambda>i. ci_user_id i = u) (fo_hub fa')
    \<and> gone (\<lambda>i. ci_user_id i = u \<and> (ci_issued_at i = zero_time \<or> ci_issued_at i \<le> t)) (fo_hub (fan_poll io fb))"
proof -
  let ?ev = "\<lparr>we_id = 0, we_created_at = t, we_target = WSEventTargetRevokeUserPrefix @ u, we_origin = fc_origin (fo_cfg fa), we_payload = []\<rparr>"
  let ?e = "?ev\<lparr>we_id := wd_next d + int (length (fo_queue fa))\<rparr>"
  have fa_now: "fo_hub fa' = snd (disconnectIdentities (\<lambda>i. ci_user_id i = u) (fo_hub fa))" "fo_queue fa' = fo_queue fa @ [?ev]"
    using revoke replica(1-4)
    by (auto simp: hub_DisconnectUser_def disconnect_all_def hub_publish_def fan_publish_def disconnectUserLocal_def split: prod.splits)
  have rows: "wd_rows d' = wd_rows d @ number_events (wd_next d) (fo_queue fa @ [?ev])"
    using write_rounds_write [of fa' "Suc (length (fo_queue fa))" d] written fa_now(2) by auto
  have e: "?e \<in> set (wd_rows d')" by (simp add: rows number_events_append)
  have "map we_id (wd_rows d') = map we_id (wd_rows d) @ [wd_next d..wd_next d + int (length (fo_queue fa))]"
    by (simp only: rows map_append number_events_facts(2)) simp
  then have keys: "keyed we_id (wd_rows d')" using table(1) table(2) by (fastforce simp: keyed_def)
  have r: "revoke_closes ?e (issued_before u t)" using revoke_rows [of ?e u] by simp
  have f: "fresh_at io ?e fb" using other(2) polled_at(5) by (simp add: fresh_at_def)
  have "served (length (fo_handed fb)) ?e (issued_before u t) fb" using reachable_ok [OF other(4)] by (simp add: served_def)
  then have "gone (issued_before u t) (fo_hub (fan_poll io fb))"
    using r f keys e other polled_at by (intro new_row_handed [where e = ?e] recheck_serves) auto
  moreover have "gone (\<lambda>i. ci_user_id i = u) (fo_hub fa')" using disconnect_shrinks [OF reachable_ok [OF replica(5)]] fa_now(1) by simp
  ultimately show ?thesis by (simp add: gone_weaker [OF issued_before_time])
qed

section \<open>Witnesses\<close>

definition example_fan_config :: "string \<Rightarrow> fanout_config" where
  "example_fan_config o' = \<lparr>fc_origin = o', fc_poll_interval = 1, fc_gap_timeout = 10, fc_max_age = 30, fc_poll_batch = 5, fc_buffer_size = 4,
     fc_write_batch = 2, fc_max_payload_bytes = 100\<rparr>"

definition example_fan :: "string \<Rightarrow> fanout" where
  "example_fan o' = the (NewFanout example_hub (example_fan_config o'))"

text \<open>A poll at the time \<open>now\<close> that finds the same table in all its queries.\<close>

definition steady :: "ws_table \<Rightarrow> gtime \<Rightarrow> poll_io" where
  "steady t now = \<lparr>pi_max = t, pi_max_fault = None, pi_window = t, pi_window_fault = None, pi_window_at = now, pi_chunk = (\<lambda>_. t),
     pi_chunk_fault = (\<lambda>_. None), pi_expire_at = now, pi_page = (\<lambda>_. t), pi_page_fault = (\<lambda>_. None), pi_cancelled = (\<lambda>_. False),
     pi_gap_at = (\<lambda>_. now), pi_deliver_at = (\<lambda>_. now), pi_restart = t, pi_restart_fault = None\<rparr>"

definition example_row :: "int \<Rightarrow> ws_event" where
  "example_row i = \<lparr>we_id = i, we_created_at = 5, we_target = ''all'', we_origin = ''b'', we_payload = ''m''\<rparr>"

definition example_polls :: "poll_io list" where
  "example_polls = [steady [example_row 2] 10, steady [example_row 2] 11, steady [example_row 1, example_row 2] 12]"

lemma example_fan_New: "o' \<noteq> [] \<Longrightarrow> NewFanout example_hub (example_fan_config o') = Some (example_fan o')"
  by (simp add: example_fan_def NewFanout_def example_fan_config_def)

lemma example_started: "fan_step\<^sup>*\<^sup>* (example_fan o', d) (fan_poll (steady [] 1) (example_fan o'), d)"
  by (intro r_into_rtranclp polls)

lemma example_poll_values:
  "fo_started (fan_poll (steady [] 1) (example_fan ''a''))" "fo_last_id (fan_poll (steady [] 1) (example_fan ''a'')) = 0"
  "fo_missing (fan_poll (steady [] 1) (example_fan ''a'')) = []" "fc_gap_timeout (fo_cfg (fan_poll (steady [] 1) (example_fan ''a''))) = 10"
  "fo_last_id (fan_poll (steady [example_row 2] 10) (fan_poll (steady [] 1) (example_fan ''a''))) = 2"
  "fo_restarts (fold fan_poll example_polls (fan_poll (steady [] 1) (example_fan ''a''))) = 0"
  by code_simp+

lemma polls_reachable: "fan_step\<^sup>*\<^sup>* (f, d) (fold fan_poll ios f, d)"
proof (induction ios arbitrary: f)
  case (Cons io ios)
  have "fan_step (f, d) (fan_poll io f, d)" by (rule polls)
  then show ?case using Cons.IH [of "fan_poll io f"] by (simp add: converse_rtranclp_into_rtranclp)
qed simp

theorem rows_delivered_once_witness:
  "distinct (map we_id (fo_handed (fold fan_poll (steady [] 1 # example_polls) (example_fan ''a''))))"
  using rows_delivered_once [OF example_fan_New polls_reachable, of "''a''" "steady [] 1 # example_polls"] example_poll_values(6) by simp

theorem fanout_bounded_witness: "int (length (fo_queue (fold fan_poll example_polls (example_fan ''a'')))) \<le> fc_buffer_size (fo_cfg (fold fan_poll example_polls (example_fan ''a'')))"
  using fanout_bounded [OF example_fan_New polls_reachable, of "''a''" example_polls] by simp

theorem late_row_delivered_once_witness:
  "length (filter (\<lambda>e. we_id e = 1) (fo_handed (fold fan_poll example_polls (fan_poll (steady [] 1) (example_fan ''a''))))) = 1"
  using late_row_delivered_once [OF example_fan_New example_started example_poll_values(1), where i = 1 and t = 10
      and io = "steady [example_row 2] 10" and waiting = "[steady [example_row 2] 11]" and later = "steady [example_row 1, example_row 2] 12"]
    example_poll_values
  by (simp add: example_polls_def) (simp add: steady_def example_row_def)

lemma example_hub_kept: "fo_hub (fan_poll (steady [] 1) (example_fan ''b'')) = example_hub"
  by (simp add: fan_poll_def poll_start_def steady_def ev_MaxID_def trackStartWindow_def example_fan_def NewFanout_def example_fan_config_def withDefaults_def
      recheckGaps_def poll_pages.simps [of _ 0] ev_ListAfter_def empty_poll_def)

theorem revocation_reaches_replicas_witness:
  "gone (\<lambda>i. ci_user_id i = ''u1'' \<and> (ci_issued_at i = zero_time \<or> ci_issued_at i \<le> 8000000)) (fo_hub (fan_poll (steady (wd_rows (snd (fold write_round [None]
     (snd (hub_DisconnectUser 8000000 ''u1'' (example_fan ''a'')), \<lparr>wd_rows = [], wd_next = 1\<rparr>)))) 8000010)
     (fan_poll (steady [] 1) (example_fan ''b''))))"
proof -
  let ?fb = "fan_poll (steady [] 1) (example_fan ''b'')" and ?fa = "example_fan ''a''"
  let ?s = "fold write_round [None] (snd (hub_DisconnectUser 8000000 ''u1'' ?fa), \<lparr>wd_rows = [], wd_next = 1\<rparr>)"
  have b: "fo_started ?fb" "fc_origin (fo_cfg ?fb) = ''b''" "fo_last_id ?fb = 0" "fc_poll_batch (fo_cfg ?fb) = 5" "fc_max_age (fo_cfg ?fb) = 30"
    by code_simp+
  have a: "fo_attached ?fa" "\<not> fo_stopped ?fa" "fo_queue ?fa = []" "fc_buffer_size (fo_cfg ?fa) = 4" "fc_max_payload_bytes (fo_cfg ?fa) = 100"
    "fc_origin (fo_cfg ?fa) = ''a''"
    by code_simp+
  have rows: "length (filter (\<lambda>e. 0 < we_id e) (wd_rows (snd ?s))) = 1" by code_simp
  have hub: "fo_hub ?fa = example_hub" by (simp add: example_fan_def NewFanout_def example_fan_config_def)
  show ?thesis
    using revocation_reaches_replicas [where fa = ?fa and fb = ?fb and u = "''u1''" and t = 8000000 and fa' = "snd (hub_DisconnectUser 8000000 ''u1'' ?fa)"
        and n = "fst (hub_DisconnectUser 8000000 ''u1'' ?fa)" and d = "\<lparr>wd_rows = [], wd_next = 1\<rparr>" and fa'' = "fst ?s" and d' = "snd ?s"
        and io = "steady (wd_rows (snd ?s)) 8000010" and ps = "[]" and qs = "[]"]
      a b rows hub example_hub_kept example_hub_reachable
    by (simp add: keyed_def) (simp add: steady_def)
qed

end
