(* ===== verification/Lifecycle.thy ===== *)
theory Lifecycle
  imports Expiry
begin

text \<open>
  The whole system as a step relation on the database: \<open>system_step\<close> are whole operations of any replica
  (starts, goroutines, workers, statements of handlers), where before any call of an operation the other
  replicas may run any number of operations. Every operation is a sequence of statements, so what single
  statements keep is an invariant of the system; the deployment logs refine an automaton in which a log
  starts running, ends once with a final result and is then only forgotten.
\<close>

section \<open>The system\<close>

abbreviation env_by :: "(db \<Rightarrow> db \<Rightarrow> bool) \<Rightarrow> io \<Rightarrow> bool" where
  "env_by R io \<equiv> \<forall>s d. R\<^sup>*\<^sup>* d (io_env io s d)"

inductive system_step :: "db \<Rightarrow> db \<Rightarrow> bool" where
  deploy_start: "env_by system_step io \<Longrightarrow> system_step (w_db w) (w_db (snd (Deploy m io c lg inst charts u w)))"
| stop_start: "env_by system_step io \<Longrightarrow> system_step (w_db w) (w_db (snd (StopWithCharts m io c lg inst charts w)))"
| clean_start: "env_by system_step io \<Longrightarrow> system_step (w_db w) (w_db (snd (startClean m io c lg inst charts del w)))"
| rollback_start: "env_by system_step io \<Longrightarrow> system_step (w_db w) (w_db (snd (Rollback m io c lg req w)))"
| deploy_run: "\<forall>io\<in>deploy_ios e. env_by system_step io \<Longrightarrow> executeDeploy m cfg k h e job v w = Some w' \<Longrightarrow> system_step (w_db w) (w_db w')"
| stop_run: "env_by system_step io \<Longrightarrow> \<forall>r\<in>set rs. env_by system_step (wr_io r) \<Longrightarrow>
    executeStopWithCharts m rs sd io st left helm job w = Some w' \<Longrightarrow> system_step (w_db w) (w_db w')"
| clean_run: "env_by system_step io \<Longrightarrow> system_step (w_db w) (w_db (executeClean m io st helm ns job w))"
| rollback_run: "\<forall>io\<in>rollback_ios e'. env_by system_step io \<Longrightarrow> IsValidStackStatus (j_prev_status job) \<Longrightarrow>
    executeRollback um m cfg k h x e' target meta job w = Some w' \<Longrightarrow> system_step (w_db w) (w_db w')"
| flush_run: "\<forall>n. env_by system_step (ios n) \<Longrightarrow> system_step (w_db w) (w_db (snd (flushLiveOutputs ios w)))"
| recovery_run: "env_by system_step io \<Longrightarrow> \<forall>n. env_by system_step (ios n) \<Longrightarrow>
    system_step (w_db w) (w_db (snd (RunOnce rcfg io dbnow0 ios dbnow cd now dbnow_end w)))"
| retention_run: "\<forall>r\<in>set rounds. \<forall>d. system_step\<^sup>*\<^sup>* d (rb_env_select r d) \<and> system_step\<^sup>*\<^sup>* d (rb_env_delete r d) \<Longrightarrow>
    DeleteDeploymentLogsOlderThan age n rounds d = Some (res, d') \<Longrightarrow> system_step d d'"
| policy_run: "env_by system_step io \<Longrightarrow> \<forall>n. env_by system_step (tu_io (turns n)) \<Longrightarrow> sc_executor s = Some (cleanup_executor m chartsOf) \<Longrightarrow>
    system_step (w_db w) (w_db (snd (executePolicyWithOptions s io turns p dry w)))"
| reaper_run: "env_by system_step io \<Longrightarrow> \<forall>n. env_by system_step (rt_io (rturns n)) \<Longrightarrow> re_stopper r = Some (expiry_StopInstance m chartsOf) \<Longrightarrow>
    system_step (w_db w) (w_db (snd (processExpired r io rturns w)))"
| warner_run: "env_by system_step io \<Longrightarrow> \<forall>n. env_by system_step (ios n) \<Longrightarrow>
    system_step (w_db w) (w_db (warner_check threshold io ios w))"
| instance_created: "IsValidStackStatus (si_status inst) \<Longrightarrow> system_step d (snd (on_instances (inst_Create flt now uuid inst) d))"
| namespace_marked: "system_step d (snd (on_instances (inst_MarkNamespaceError flt clock i message now) d))"
| heartbeat: "system_step d (d\<lparr>d_heartbeats := snd (hb_Beat flt dbnow i (d_heartbeats d))\<rparr>)"

lemma star_both: "(\<lambda>x y. R x y \<and> db_stmt\<^sup>*\<^sup>* x y)\<^sup>*\<^sup>* d d' \<Longrightarrow> stmts d d'"
  by (induction rule: rtranclp_induct) auto

lemma obeys_both: "\<forall>s d. (\<lambda>x y. R x y \<and> stmts x y)\<^sup>*\<^sup>* d (io_env io s d) \<Longrightarrow> obeys io"
  by (auto simp: obeys_def intro: star_both)

lemma system_stmts: "system_step d d' \<Longrightarrow> stmts d d'"
proof (induction rule: system_step.induct)
  case (deploy_run e m cfg k h job v w w')
  then show ?case by (blast intro: stmts_executeDeploy obeys_both)
next
  case (stop_run io rs m sd st left helm job w w')
  then show ?case by (blast intro: stmts_executeStop obeys_both)
next
  case (rollback_run e' job um m cfg k h x target meta w w')
  then show ?case by (blast intro: stmts_executeRollback obeys_both)
next
  case (retention_run rounds age n d res d')
  then show ?case by (blast intro: stmts_retention star_both)
next
  case (recovery_run io ios w rcfg dbnow0 dbnow cd now dbnow_end)
  then show ?case by (blast intro: stmts_RunOnce obeys_both)
next
  case (policy_run io turns s m chartsOf w p dry)
  then show ?case by (blast intro: stmts_policy_run obeys_both)
next
  case (reaper_run io rturns r m chartsOf w)
  then show ?case by (blast intro: stmts_reaper obeys_both)
next
  case (warner_run io ios w threshold)
  then show ?case by (blast intro: stmts_warner obeys_both)
qed (auto intro!: stmts_Deploy stmts_StopWithCharts stmts_startClean stmts_Rollback stmts_executeClean stmts_flush
    intro: obeys_both db_stmt.create_instance db_stmt.namespace_error stmts_other)

lemma system_star_stmts: "system_step\<^sup>*\<^sup>* d d' \<Longrightarrow> stmts d d'"
  by (induction rule: rtranclp_induct) (auto dest: system_stmts intro: rtranclp_trans)

section \<open>What statements keep\<close>

text \<open>Identifiers are unique, every status is one of the model, and exactly the running logs have no completion time.\<close>

definition log_ok :: "deployment_log \<Rightarrow> bool" where
  "log_ok l \<longleftrightarrow> IsDeployLogStatus (dl_status l) \<and> (dl_status l = DeployLogRunning \<longleftrightarrow> dl_completed_at l = None)"

definition db_ok :: "db \<Rightarrow> bool" where
  "db_ok d \<longleftrightarrow> keyed dl_id (d_logs d) \<and> keyed si_id (d_instances d)
     \<and> list_all log_ok (d_logs d) \<and> list_all (\<lambda>s. IsValidStackStatus (si_status s)) (d_instances d)"

lemmas keyed_intros = keyed_sql_update [THEN iffD2] keyed_snoc [THEN iffD2] keyed_filter keyed_sql_save

lemma all_update: "list_all P t \<Longrightarrow> (\<And>r. p r \<Longrightarrow> P r \<Longrightarrow> P (f r)) \<Longrightarrow> list_all P (sql_update p f t)"
  by (auto simp: list_all_iff set_sql_update)

lemma all_filter: "list_all P t \<Longrightarrow> list_all P (filter p t)"
  by (auto simp: list_all_iff)

lemma all_save:
  "list_all P t \<Longrightarrow> P ins \<Longrightarrow> (\<And>r. key r = k \<Longrightarrow> P r \<Longrightarrow> P (merge r)) \<Longrightarrow> list_all P (sql_save key merge ins k t)"
  by (auto simp: sql_save_def intro: all_update)

lemma ok_update_running:
  assumes "keyed dl_id t \<and> list_all log_ok t" "\<And>r. dl_id (f r) = dl_id r" "\<And>r. running_log i r \<Longrightarrow> log_ok r \<Longrightarrow> log_ok (f r)"
  shows "keyed dl_id (snd (update_running op flt flt2 i extra f t)) \<and> list_all log_ok (snd (update_running op flt flt2 i extra f t))"
  using assms by (auto simp: update_running_table keyed_sql_update split: option.splits intro!: all_update)

lemma ended_ok: "ended_row l \<Longrightarrow> log_ok (l\<lparr>dl_id := i\<rparr>)"
  by (auto simp: ended_row_def log_ok_def finishedDeployLogStatuses_def IsDeployLogStatus_def)

lemma ok_create_log:
  "keyed dl_id t \<and> list_all log_ok t \<Longrightarrow> fresh_row l
    \<Longrightarrow> keyed dl_id (snd (log_Create flt now uuid l t)) \<and> list_all log_ok (snd (log_Create flt now uuid l t))"
  by (auto simp: log_Create_def Let_def stamp_log_def fresh_row_def log_ok_def IsDeployLogStatus_def
      split: option.splits intro!: keyed_intros)

lemma log_ok_frame [simp]: "log_ok (l\<lparr>dl_deadline_at := x\<rparr>) = log_ok l" "log_ok (l\<lparr>dl_output := out\<rparr>) = log_ok l"
  by (simp_all add: log_ok_def)

lemma ok_logs:
  assumes "keyed dl_id t \<and> list_all log_ok t"
  shows "ended_row l \<Longrightarrow> keyed dl_id (snd (log_Update flt flt2 l t)) \<and> list_all log_ok (snd (log_Update flt flt2 l t))"
    and "keyed dl_id (snd (log_ExtendDeadline flt flt2 i dl t)) \<and> list_all log_ok (snd (log_ExtendDeadline flt flt2 i dl t))"
    and "keyed dl_id (snd (log_UpdateRunningOutput flt flt2 i out t)) \<and> list_all log_ok (snd (log_UpdateRunningOutput flt flt2 i out t))"
  unfolding log_Update_def log_ExtendDeadline_def log_UpdateRunningOutput_def
  using assms by (rule ok_update_running; simp add: ended_ok)+

definition rows_ok :: "instances \<Rightarrow> bool" where
  "rows_ok t \<longleftrightarrow> keyed si_id t \<and> list_all (\<lambda>s. IsValidStackStatus (si_status s)) t"

lemma rows_ok_update:
  "rows_ok t \<Longrightarrow> (\<And>r. si_id (f r) = si_id r) \<Longrightarrow> (\<And>r. p r \<Longrightarrow> IsValidStackStatus (si_status r) \<Longrightarrow> IsValidStackStatus (si_status (f r)))
    \<Longrightarrow> rows_ok (sql_update p f t)"
  unfolding rows_ok_def by (auto simp: keyed_sql_update intro: all_update)

lemma rows_ok_save:
  assumes "rows_ok t" "IsValidStackStatus (si_status inst)"
  shows "rows_ok (snd (inst_Update flt now inst t))"
proof -
  have "rows_ok (clearExpiryWarningIfExpiryChanged i t)" for i
    using assms(1) unfolding clearExpiryWarningIfExpiryChanged_def Let_def by (auto intro!: rows_ok_update split: option.splits)
  then have "rows_ok (inst_save (inst\<lparr>si_updated_at := now\<rparr>) (clearExpiryWarningIfExpiryChanged i t))" for i
    using assms(2) unfolding inst_save_def rows_ok_def by (auto intro!: keyed_sql_save all_save)
  with assms(1) show ?thesis by (simp add: inst_Update_def Let_def split: option.splits)
qed

lemma rows_ok_create: "rows_ok t \<Longrightarrow> IsValidStackStatus (si_status inst) \<Longrightarrow> rows_ok (snd (inst_Create flt now uuid inst t))"
  by (auto simp: inst_Create_def Let_def stamp_create_def rows_ok_def split: option.splits intro!: keyed_intros)

lemma rows_ok_statements:
  assumes "rows_ok t"
  shows "rows_ok (snd (inst_MarkCleanStart flt now i from del t))"
    and "IsValidStackStatus to \<Longrightarrow> rows_ok (snd (inst_MarkStatus flt flt2 now i to from t))"
    and "rows_ok (snd (inst_ClearDeleteAfterClean flt i t))"
    and "rows_ok (snd (inst_MarkNamespaceError flt clock i message now t))"
    and "rows_ok (snd (inst_MarkExpiryWarned flt i expiresAt warnedAt t))"
    and "rows_ok (snd (inst_Delete flt i t))"
  using assms
  by (auto simp: inst_MarkCleanStart_def inst_MarkStatus_def inst_ClearDeleteAfterClean_def inst_MarkNamespaceError_def
      inst_MarkExpiryWarned_def inst_Delete_def Let_def split: option.splits intro!: rows_ok_update)
    (auto simp: rows_ok_def intro: keyed_filter all_filter)

lemma db_ok_split: "db_ok d \<longleftrightarrow> (keyed dl_id (d_logs d) \<and> list_all log_ok (d_logs d)) \<and> rows_ok (d_instances d)"
  by (auto simp: db_ok_def rows_ok_def)

lemma close_ok: "log_ok (close_log_set req l)"
  by (simp add: log_ok_def close_log_set_def IsDeployLogStatus_def)

lemma db_ok_interrupt: "db_ok d \<Longrightarrow> db_ok (snd (InterruptOperation flt1 flt2 flt3 commit dbnow req d))"
  by (rule InterruptOperation_cases [of flt1 flt2 flt3 commit dbnow req d])
    (auto simp: db_ok_split close_ok keyed_sql_update intro!: all_update rows_ok_update)

lemma db_ok_stmt:
  assumes "db_ok d" "db_stmt d d'"
  shows "db_ok d'"
  using assms(2,1)
  by (induction rule: db_stmt.induct)
    (auto simp: db_ok_split put_logs_def ok_logs ok_create_log rows_ok_save rows_ok_create rows_ok_statements keyed_filter all_filter
      db_ok_interrupt [unfolded db_ok_split])

section \<open>The life of a deployment log\<close>

datatype log_phase = NoLog | Open | Ended deployment_log

inductive log_step :: "log_phase \<Rightarrow> log_phase \<Rightarrow> bool" where
  starts: "log_step NoLog Open"
| ends: "ended_row l \<Longrightarrow> log_step Open (Ended l)"
| forgotten: "log_step (Ended l) NoLog"

definition log_phase :: "string \<Rightarrow> logs \<Rightarrow> log_phase" where
  "log_phase i t =
     (case row_of dl_id i t of
        None \<Rightarrow> NoLog
      | Some l \<Rightarrow> if dl_status l = DeployLogRunning then Open else Ended l)"

inductive_cases log_step_Ended: "log_step (Ended l) p"

lemma phase_update:
  assumes "\<And>r. dl_id (f r) = dl_id r" "\<And>r. p r \<Longrightarrow> dl_status r = DeployLogRunning"
    and "\<And>r. p r \<Longrightarrow> dl_status (f r) = DeployLogRunning \<or> ended_row (f r)"
  shows "log_step\<^sup>*\<^sup>* (log_phase i t) (log_phase i (sql_update p f t))"
proof (cases "row_of dl_id i t")
  case (Some l)
  with assms show ?thesis
    by (auto simp: log_phase_def row_of_sql_update intro!: r_into_rtranclp ends)
qed (simp add: log_phase_def row_of_sql_update assms(1))

lemma phase_update_running:
  assumes "\<And>r. dl_id (f r) = dl_id r" "\<And>r. running_log j r \<Longrightarrow> dl_status (f r) = DeployLogRunning \<or> ended_row (f r)"
  shows "log_step\<^sup>*\<^sup>* (log_phase i t) (log_phase i (snd (update_running op flt flt2 j extra f t)))"
  using assms by (auto simp: update_running_table running_log_def split: option.splits intro!: phase_update)

lemma phase_filter:
  assumes "keyed dl_id t" "\<And>l. l \<in> set t \<Longrightarrow> \<not> q l \<Longrightarrow> dl_status l \<noteq> DeployLogRunning"
  shows "log_step\<^sup>*\<^sup>* (log_phase i t) (log_phase i (filter q t))"
  using assms
  by (auto simp: log_phase_def row_of_filter split: option.splits dest!: row_of_SomeD intro!: r_into_rtranclp forgotten)

lemma phase_create: "fresh_row l \<Longrightarrow> log_step\<^sup>*\<^sup>* (log_phase i t) (log_phase i (snd (log_Create flt now uuid l t)))"
  by (auto simp: log_Create_def Let_def log_phase_def row_of_append fresh_row_def stamp_log_def split: option.splits
      intro!: r_into_rtranclp starts)

lemma phase_interrupt: "log_step\<^sup>*\<^sup>* (log_phase i (d_logs d)) (log_phase i (d_logs (snd (InterruptOperation flt1 flt2 flt3 commit dbnow req d))))"
proof -
  have "log_step\<^sup>*\<^sup>* (log_phase i t) (log_phase i (sql_update (close_log_cond dbnow req hbs) (close_log_set req) t))" for t hbs
    by (rule phase_update) (auto simp: close_log_cond_def ended_row_def close_log_set_def finishedDeployLogStatuses_def)
  then show ?thesis by (rule_tac InterruptOperation_cases [of flt1 flt2 flt3 commit dbnow req d]) simp_all
qed

lemma phase_stmt:
  assumes "db_ok d" "db_stmt d d'"
  shows "log_step\<^sup>*\<^sup>* (log_phase i (d_logs d)) (log_phase i (d_logs d'))"
  using assms(2,1)
proof (induction rule: db_stmt.induct)
  case (delete_logs d q)
  then show ?case by (auto simp: put_logs_def db_ok_def intro: phase_filter)
qed (auto simp: phase_create phase_interrupt log_Update_def log_ExtendDeadline_def log_UpdateRunningOutput_def ended_row_def running_log_def
    intro!: phase_update_running)

interpretation life: simulation db_stmt db_ok "\<lambda>d. log_phase i (d_logs d)" log_step for i
  by unfold_locales (auto intro: db_ok_stmt phase_stmt)

section \<open>The system\<close>

text \<open>C2. The database stays well-formed: whatever operations the replicas run, whatever statements fail and
  however the calls of concurrent operations interleave, identifiers stay unique, every instance has a status
  of the model, every log is running, success, error or partial, and a log has a completion time exactly when
  it is not running.\<close>

theorem system_keeps_db_ok:
  assumes "system_step\<^sup>*\<^sup>* d d'" "db_ok d"
  shows "db_ok d'"
  using system_star_stmts [OF assms(1)] assms(2) by (rule life.keeps_star)


text \<open>An example: a recovery ends the log of a dead replica, beside the heartbeats of another one.\<close>

definition example_recovery :: recovery_config where
  "example_recovery = \<lparr>rc_self_id = ''me'', rc_stale_after = 1, rc_audit = True, rc_hub = True, rc_notifier = True\<rparr>"

definition example_abandoned :: world where
  "example_abandoned = example_world [example_instance]
     [example_log ''a'' 1 DeployLogRunning\<lparr>dl_replica_id := ''r1'', dl_deadline_at := Some 5\<rparr>] []"

definition example_beating :: io where
  "example_beating = (quiet 9)\<lparr>io_env := (\<lambda>s d. d\<lparr>d_heartbeats := snd (hb_Beat None 500 ''other'' (d_heartbeats d))\<rparr>)\<rparr>"

definition example_recovered :: db where
  "example_recovered = w_db (snd (RunOnce example_recovery example_beating 500 (\<lambda>_. example_beating) (\<lambda>_. 500) (\<lambda>_. False) 9 500 example_abandoned))"

lemma example_runs: "system_step\<^sup>*\<^sup>* (w_db example_abandoned) example_recovered"
proof -
  have "env_by system_step example_beating"
    by (auto simp: example_beating_def intro!: r_into_rtranclp heartbeat)
  then show ?thesis
    unfolding example_recovered_def by (intro r_into_rtranclp recovery_run) auto
qed

lemma example_abandoned_ok: "db_ok (w_db example_abandoned)"
  by (simp add: example_abandoned_def db_ok_def keyed_def log_ok_def example_log_def zero_log_def IsDeployLogStatus_def example_instance_def)

lemma example_ended:
  "log_phase ''a'' (d_logs example_recovered) = Ended (example_log ''a'' 1 DeployLogError\<lparr>dl_replica_id := ''r1'', dl_deadline_at := Some 5,
     dl_error_message := InterruptedOperationMessage (dl_action (example_log ''a'' 1 DeployLogRunning)), dl_completed_at := Some 9\<rparr>)"
  by (simp add: example_recovered_def example_recovery_def example_beating_def example_abandoned_def example_world_def empty_db_def
      RunOnce_def recover_def db_read_def db_write_def ListInterruptCandidates_def interrupt_candidate_def staleHeartbeatCond_def
      interrupt_def Let_def inst_FindByID_def InterruptOperation_def RunInTx_def interrupt_body_def rows_changed_def close_log_cond_def
      interrupt_req_def isInProgressStatus_def newer_log_cond_def sql_update_def close_log_set_def hb_Beat_def sql_save_def
      hb_DeleteOlderThan_def dbNowMinus_def candidate_columns_def example_log_def zero_log_def example_instance_def log_phase_def
      recovery_audit_def recovery_broadcast_def recovery_notify_def emit_def)

theorem system_keeps_db_ok_witness: "db_ok example_recovered"
  by (rule system_keeps_db_ok [OF example_runs example_abandoned_ok])


end
